(* ===== verification/Prelude.thy ===== *)
theory Prelude
  imports Main "HOL-Library.Sublist"
begin

text \<open>
  What every component shares: Python's exceptions as values of a sum type (\<open>exn + 'a\<close>), the
  sequencing of fallible steps, guards, and the generic list lemmas. An f-string message is
  recorded by its constant part only; which exception class is raised, and by which check, is kept.
\<close>

section \<open>Exceptions as values\<close>

text \<open>
  The exception classes of the modelled code. \<open>ImpactModelError\<close>, \<open>ExecutionUnavailable\<close>,
  \<open>FundingHistoryError\<close>, \<open>FundingModelUnavailable\<close>, \<open>FundingSeriesError\<close>, \<open>OrderSizeError\<close>,
  \<open>BarVolumeError\<close>, \<open>MarkPriceDataError\<close> and \<open>FreeTierError\<close> are subclasses of \<open>ValueError\<close> in the
  source, the other errors of the ingestion of \<open>RuntimeError\<close> (\<open>ChecksumMismatch\<close> of
  \<open>DownloadError\<close>): handlers of the subclass match the constructor, handlers of
  \<open>ValueError\<close> match all of them.
\<close>

datatype exn =
    ValueError string
  | ImpactModelError string
  | ExecutionUnavailable string
  | FundingHistoryError string
  | FundingModelUnavailable string
  | FundingSeriesError string
  | OrderSizeError string
  | BarVolumeError string
  | SymbolMetaError string
  | ValidationError string
  | BookDataError string
  | BookPartitionError string
  | FreeTierError string
  | TradeDataError string
  | FundingDataError string
  | KlineDataError string
  | PriceDataError string
  | MarkPriceDataError string
  | DownloadError string
  | ChecksumMismatch string
  | TransportError string
  | EOFError string
  | OtherError string \<comment> \<open>raised by a library outside the model\<close>
  | ReplayInputError string
  | RuntimeError string
  | FileNotFoundError string
  | FileExistsError string
  | SystemExit int \<comment> \<open>how a command line ends on a usage error\<close>
  | TypeError string
  | KeyError string
  | ZeroDivisionError
  | OverflowError string
  | IndexError string
  | LinAlgError string
  | AttributeError string
  | InvalidOperation string
  | StopIteration

type_synonym 'a res = "exn + 'a"

definition bnd :: "'a res \<Rightarrow> ('a \<Rightarrow> 'b res) \<Rightarrow> 'b res" where
  "bnd m f = (case m of Inl e \<Rightarrow> Inl e | Inr x \<Rightarrow> f x)"

definition guard :: "bool \<Rightarrow> exn \<Rightarrow> unit res" where
  "guard bad e = (if bad then Inl e else Inr ())"

definition is_ok :: "'a res \<Rightarrow> bool" where
  "is_ok m = (case m of Inl _ \<Rightarrow> False | Inr _ \<Rightarrow> True)"

text \<open>Facts that open a chain of fallible steps.\<close>

named_theorems res_simps "opening a successful chain of fallible steps"

named_theorems eval_simps "evaluating a closed run of the model"

lemma bnd_Inl [simp]: "bnd (Inl e) f = Inl e"
  and bnd_Inr [simp]: "bnd (Inr x) f = f x"
  by (simp_all add: bnd_def)

lemma bnd_eq_Inr [res_simps]: "bnd m f = Inr y \<longleftrightarrow> (\<exists>x. m = Inr x \<and> f x = Inr y)"
  by (cases m) auto

lemma bnd_eq_Inl: "bnd m f = Inl e \<longleftrightarrow> m = Inl e \<or> (\<exists>x. m = Inr x \<and> f x = Inl e)"
  by (cases m) auto

lemma bnd_assoc: "bnd (bnd m f) g = bnd m (\<lambda>x. bnd (f x) g)"
  by (cases m) auto

lemma bnd_cong [fundef_cong]:
  "m = m' \<Longrightarrow> (\<And>x. m' = Inr x \<Longrightarrow> f x = f' x) \<Longrightarrow> bnd m f = bnd m' f'"
  by (cases m') auto

text \<open>Evaluating a closed chain: the continuation is opened only once its argument is a value.\<close>

lemma bnd_weak_cong: "m = m' \<Longrightarrow> bnd m f = bnd m' f"
  by simp

lemma Let_weak_cong: "x = y \<Longrightarrow> Let x f = Let y f"
  by simp

lemmas eval_cong = bnd_weak_cong Let_weak_cong prod.case_cong_weak

lemma guard_eq_Inr [res_simps]: "guard bad e = Inr u \<longleftrightarrow> \<not> bad"
  by (simp add: guard_def)

lemma guard_eq_Inl [simp]: "guard bad e = Inl e' \<longleftrightarrow> bad \<and> e' = e"
  by (auto simp: guard_def)

lemma guard_True [simp]: "guard True e = Inl e" and guard_False [simp]: "guard False e = Inr ()"
  by (simp_all add: guard_def)

lemma is_ok_iff: "is_ok m \<longleftrightarrow> (\<exists>x. m = Inr x)"
  by (cases m) (auto simp: is_ok_def)

lemma if_Inl_eq_Inr [res_simps]: "(if b then Inl e else m) = Inr y \<longleftrightarrow> \<not> b \<and> m = Inr y"
  by simp

text \<open>Running a fallible action over a list, in order, stopping at the first error.\<close>

fun map_res :: "('a \<Rightarrow> 'b res) \<Rightarrow> 'a list \<Rightarrow> 'b list res" where
  "map_res f [] = Inr []"
| "map_res f (x # xs) = bnd (f x) (\<lambda>y. bnd (map_res f xs) (\<lambda>ys. Inr (y # ys)))"

fun fold_res :: "('s \<Rightarrow> 'a \<Rightarrow> 's res) \<Rightarrow> 's \<Rightarrow> 'a list \<Rightarrow> 's res" where
  "fold_res f s [] = Inr s"
| "fold_res f s (x # xs) = bnd (f s x) (\<lambda>s'. fold_res f s' xs)"

lemma map_res_length: "map_res f xs = Inr ys \<Longrightarrow> length ys = length xs"
  by (induction xs arbitrary: ys) (auto simp: res_simps)

lemma map_res_all: "map_res f xs = Inr ys \<Longrightarrow> \<forall>x \<in> set xs. \<exists>y \<in> set ys. f x = Inr y"
  by (induction xs arbitrary: ys) (auto simp: res_simps)

lemma map_res_nth: "map_res f xs = Inr ys \<Longrightarrow> i < length xs \<Longrightarrow> f (xs ! i) = Inr (ys ! i)"
  by (induction xs arbitrary: ys i) (auto simp: res_simps nth_Cons split: nat.splits)

lemma map_res_list_all2: "map_res f xs = Inr ys \<longleftrightarrow> list_all2 (\<lambda>x y. f x = Inr y) xs ys"
  by (induction xs arbitrary: ys) (auto simp: res_simps list_all2_Cons1)

lemma map_res_map: "(\<And>x. x \<in> set xs \<Longrightarrow> f x = Inr (g x)) \<Longrightarrow> map_res f xs = Inr (map g xs)"
  by (induction xs) auto

lemma map_res_member: "map_res f xs = Inr ys \<Longrightarrow> x \<in> set xs \<Longrightarrow> \<exists>y \<in> set ys. f x = Inr y"
  by (rule bspec [OF map_res_all])

lemma map_res_origin: "map_res f xs = Inr ys \<Longrightarrow> y \<in> set ys \<Longrightarrow> \<exists>x \<in> set xs. f x = Inr y"
  by (induction xs arbitrary: ys) (auto simp: res_simps)

lemma fold_res_append: "fold_res f s (xs @ ys) = bnd (fold_res f s xs) (\<lambda>s'. fold_res f s' ys)"
  by (induction xs arbitrary: s) (auto simp: bnd_assoc)

text \<open>An invariant of every step is an invariant of the run.\<close>

lemma fold_res_invariant:
  assumes "P s" and "\<And>s x s'. P s \<Longrightarrow> x \<in> set xs \<Longrightarrow> f s x = Inr s' \<Longrightarrow> P s'"
    and "fold_res f s xs = Inr t"
  shows "P t"
  using assms
proof (induction xs arbitrary: s)
  case Nil
  then show ?case by simp
next
  case (Cons x xs)
  from Cons.prems(3) obtain s' where step: "f s x = Inr s'" and rest: "fold_res f s' xs = Inr t"
    by (auto simp: res_simps)
  have "P s'" by (rule Cons.prems(2) [OF Cons.prems(1) _ step]) simp
  moreover have "\<And>s y s'. P s \<Longrightarrow> y \<in> set xs \<Longrightarrow> f s y = Inr s' \<Longrightarrow> P s'"
    by (meson Cons.prems(2) list.set_intros(2))
  ultimately show ?case by (rule Cons.IH [OF _ _ rest])
qed

section \<open>Lists\<close>

lemma distinct_last_unique: "xs \<noteq> [] \<Longrightarrow> last xs \<in> set xs"
  by simp

definition all_pairs :: "('a \<Rightarrow> 'a \<Rightarrow> bool) \<Rightarrow> 'a list \<Rightarrow> bool" where
  "all_pairs P xs = sorted_wrt P xs"

text \<open>Adjacent differences (numpy's \<open>np.diff\<close> on integers).\<close>

fun diffs :: "int list \<Rightarrow> int list" where
  "diffs (x # y # ys) = (y - x) # diffs (y # ys)"
| "diffs _ = []"

end
