(* ===== verification/Rounding.thy ===== *)
theory Rounding
  imports Complex_Main Prelude
begin

text \<open>
  Decimal arithmetic. Python's \<open>decimal\<close> contexts round the exact rational result of an operation to
  a number of significant digits; binary64 does the same in base two. Both are instances of one
  rounding to a magnitude-dependent grid, whose laws (monotone, odd, idempotent, relative error,
  exact on short decimals) are the \<open>rounding\<close> and \<open>rel_rounding\<close> interfaces the components rely on.
\<close>

section \<open>Rounding to a grid\<close>

text \<open>Round half to even, the mode of both \<open>decimal\<close>'s default contexts and IEEE 754.\<close>

definition round_even :: "rat \<Rightarrow> int" where
  "round_even x =
     (let n = \<lfloor>x\<rfloor>; r = x - of_int n
      in if r < 1/2 then n else if 1/2 < r then n + 1 else if even n then n else n + 1)"

text \<open>Digits of a positive integer in base \<open>b\<close>, less one.\<close>

function ndigits :: "nat \<Rightarrow> int \<Rightarrow> nat" where
  "ndigits b n = (if n < int b \<or> b < 2 then 0 else Suc (ndigits b (n div int b)))"
  by pat_completeness auto
termination
proof (relation "measure (\<lambda>(b, n). nat n)")
  show "((b, n div int b), b, n) \<in> measure (\<lambda>(b, n). nat n)"
    if "\<not> (n < int b \<or> b < 2)" for b n
  proof -
    have "n div int b < n" using that by (intro int_div_less_self) auto
    then show ?thesis using that by auto
  qed
qed simp

declare ndigits.simps [simp del]

text \<open>The exponent of the leading digit: \<open>b ^ ilog b x \<le> x < b ^ (ilog b x + 1)\<close> for \<open>0 < x\<close>.\<close>

definition ilog :: "nat \<Rightarrow> rat \<Rightarrow> int" where
  "ilog b x =
     (if 1 \<le> x then int (ndigits b \<lfloor>x\<rfloor>)
      else - int (Suc (ndigits b (\<lceil>1 / x\<rceil> - 1))))"

text \<open>
  Rounding to the grid \<open>b powi q (ilog b |x|)\<close>: the quantum depends on the magnitude only. For a
  decimal context of precision \<open>p\<close> the quantum exponent is \<open>e - (p - 1)\<close>, for binary64 it is
  \<open>max (e - 52) (-1074)\<close>.
\<close>

definition round_grid :: "nat \<Rightarrow> (int \<Rightarrow> int) \<Rightarrow> rat \<Rightarrow> rat" where
  "round_grid b q x =
     (if x = 0 then 0
      else let u = of_nat b powi q (ilog b \<bar>x\<bar>) in of_int (round_even (x / u)) * u)"

lemma round_even_of_int [simp]: "round_even (of_int n) = n"
  by (simp add: round_even_def)

lemma round_even_bounds:
  "of_int (round_even x) \<le> x + 1/2" "x - 1/2 \<le> of_int (round_even x)"
  unfolding round_even_def Let_def by (auto simp: field_simps; linarith)+

lemma round_even_abs: "\<bar>of_int (round_even x) - x\<bar> \<le> 1/2"
  using round_even_bounds [of x] by linarith

lemma round_even_minus: "round_even (- x) = - round_even x"
proof (cases "x = of_int \<lfloor>x\<rfloor>")
  case True
  then have "- x = of_int (- \<lfloor>x\<rfloor>)" by simp
  then show ?thesis by (metis True round_even_of_int)
next
  case False
  let ?n = "\<lfloor>x\<rfloor>"
  have fl: "\<lfloor>- x\<rfloor> = - ?n - 1"
    using False by (intro floor_unique) (auto, linarith+)
  show ?thesis
    unfolding round_even_def Let_def fl by (auto simp: field_simps)
qed

lemma round_even_mono: "x \<le> y \<Longrightarrow> round_even x \<le> round_even y"
proof -
  assume xy: "x \<le> y"
  show ?thesis
  proof (cases "\<lfloor>x\<rfloor> = \<lfloor>y\<rfloor>")
    case True
    then show ?thesis using xy unfolding round_even_def Let_def by auto
  next
    case False
    then have "\<lfloor>x\<rfloor> + 1 \<le> \<lfloor>y\<rfloor>" using floor_mono [OF xy] by linarith
    moreover have "round_even x \<le> \<lfloor>x\<rfloor> + 1" "\<lfloor>y\<rfloor> \<le> round_even y"
      unfolding round_even_def Let_def by auto
    ultimately show ?thesis by linarith
  qed
qed


section \<open>The leading digit\<close>

lemma ndigits_bounds:
  "2 \<le> b \<Longrightarrow> 1 \<le> n \<Longrightarrow> int b ^ ndigits b n \<le> n \<and> n + 1 \<le> int b ^ Suc (ndigits b n)"
proof (induction b n rule: ndigits.induct)
  case (1 b n)
  show ?case
  proof (cases "n < int b")
    case True
    with 1 show ?thesis by (simp add: ndigits.simps [of b n])
  next
    case False
    let ?m = "n div int b" and ?p = "int b ^ Suc (ndigits b (n div int b))"
    have pos: "1 \<le> ?m" using False 1(2) by (simp add: pos_imp_zdiv_pos_iff int_one_le_iff_zero_less)
    with False 1 have IH: "int b ^ ndigits b ?m \<le> ?m" "?m + 1 \<le> ?p" by auto
    have dm: "int b * ?m \<le> n" "n + 1 \<le> int b * (?m + 1)"
      using 1(2) pos_mod_bound [of "int b" n] pos_mod_sign [of "int b" n] mult_div_mod_eq [of "int b" n]
      by (simp_all only: distrib_left) linarith+
    have "?p \<le> n" using mult_left_mono [OF IH(1), of "int b"] dm(1) by simp
    moreover have "n + 1 \<le> int b * ?p" using dm(2) mult_left_mono [OF IH(2), of "int b"] by linarith
    ultimately show ?thesis using False 1(2) by (simp add: ndigits.simps [of b n])
  qed
qed

lemma of_int_le_power: "n \<le> int b ^ k \<Longrightarrow> (of_int n :: rat) \<le> of_nat b ^ k"
  by (metis of_int_le_iff of_int_of_nat_eq of_int_power)

lemma power_le_of_int: "int b ^ k \<le> n \<Longrightarrow> (of_nat b :: rat) ^ k \<le> of_int n"
  by (metis of_int_le_iff of_int_of_nat_eq of_int_power)

lemma ilog_bounds:
  assumes "2 \<le> b" "0 < x"
  shows "of_nat b powi ilog b x \<le> x" and "x < of_nat b powi (ilog b x + 1)"
proof -
  have "of_nat b powi ilog b x \<le> x \<and> x < of_nat b powi (ilog b x + 1)"
  proof (cases "1 \<le> x")
    case True
    let ?n = "\<lfloor>x\<rfloor>" and ?d = "ndigits b \<lfloor>x\<rfloor>"
    have n: "of_int ?n \<le> x" "x < of_int (?n + 1)" "1 \<le> ?n" using True by (auto, linarith)
    have d: "int b ^ ?d \<le> ?n" "?n + 1 \<le> int b ^ Suc ?d"
      using ndigits_bounds [OF assms(1) n(3)] by auto
    have "(of_nat b :: rat) ^ ?d \<le> x"
      using power_le_of_int [OF d(1)] n(1) by (rule order_trans)
    moreover have "x < (of_nat b :: rat) ^ Suc ?d"
      using n(2) of_int_le_power [OF d(2)] by (rule less_le_trans)
    moreover have "ilog b x + 1 = int (Suc ?d)" "ilog b x = int ?d" using True by (auto simp: ilog_def)
    ultimately show ?thesis by (simp only: power_int_of_nat)
  next
    case False
    let ?n = "\<lceil>1 / x\<rceil> - 1" and ?d = "ndigits b (\<lceil>1 / x\<rceil> - 1)"
    have inv: "1 < 1 / x" using False assms(2) by (simp add: field_simps)
    have n: "of_int ?n < 1 / x" "1 / x \<le> of_int (?n + 1)" "1 \<le> ?n"
      using inv by (auto simp: le_ceiling_iff; linarith)+
    have d: "int b ^ ?d \<le> ?n" "?n + 1 \<le> int b ^ Suc ?d"
      using ndigits_bounds [OF assms(1) n(3)] by auto
    have lo: "(of_nat b :: rat) ^ ?d < 1 / x"
      using power_le_of_int [OF d(1)] n(1) by (rule le_less_trans)
    have hi: "1 / x \<le> (of_nat b :: rat) ^ Suc ?d"
      using n(2) of_int_le_power [OF d(2)] by (rule order_trans)
    have pw: "(0 :: rat) < of_nat b ^ ?d" "(0 :: rat) < of_nat b ^ Suc ?d" using assms(1) by simp_all
    have e: "ilog b x = - int (Suc ?d)" "ilog b x + 1 = - int ?d" using False by (auto simp: ilog_def)
    have "1 / of_nat b ^ Suc ?d \<le> x" "x < 1 / of_nat b ^ ?d"
      using lo hi pw assms(2) by (simp_all add: field_simps)
    then show ?thesis unfolding e(2) unfolding e(1) by (simp only: power_int_minus_divide power_int_of_nat)
  qed
  then show "of_nat b powi ilog b x \<le> x" "x < of_nat b powi (ilog b x + 1)" by blast+
qed

lemma ilog_unique:
  assumes "2 \<le> b" "0 < x" "of_nat b powi e \<le> x" "x < of_nat b powi (e + 1)"
  shows "ilog b x = e"
proof -
  have b: "(1 :: rat) < of_nat b" using assms(1) by simp
  note bd = ilog_bounds [OF assms(1,2)]
  have "(of_nat b :: rat) powi e < of_nat b powi (ilog b x + 1)"
    using assms(3) bd(2) by simp
  then have "e < ilog b x + 1" using b by (meson not_le power_int_increasing less_imp_le not_less)
  moreover have "(of_nat b :: rat) powi ilog b x < of_nat b powi (e + 1)"
    using assms(4) bd(1) by simp
  then have "ilog b x < e + 1" using b by (meson not_le power_int_increasing less_imp_le not_less)
  ultimately show ?thesis by simp
qed

lemma ilog_mono: "2 \<le> b \<Longrightarrow> 0 < x \<Longrightarrow> x \<le> y \<Longrightarrow> ilog b x \<le> ilog b y"
proof (rule ccontr)
  assume b: "2 \<le> b" and x: "0 < x" and xy: "x \<le> y" and "\<not> ilog b x \<le> ilog b y"
  then have "(of_nat b :: rat) powi (ilog b y + 1) \<le> of_nat b powi ilog b x"
    by (intro power_int_increasing) auto
  with ilog_bounds [OF b x] ilog_bounds [OF b, of y] x xy show False by linarith
qed


section \<open>The interface: a rounding of the rationals\<close>

text \<open>
  What the components use of an arithmetic context: rounding is monotone, odd, exact at zero and
  idempotent. Decimal contexts also have a relative error.
\<close>

locale rounding =
  fixes rd :: "rat \<Rightarrow> rat"
  assumes rd_zero [simp]: "rd 0 = 0"
    and rd_minus [simp]: "rd (- x) = - rd x"
    and rd_mono: "x \<le> y \<Longrightarrow> rd x \<le> rd y"
    and rd_idem [simp]: "rd (rd x) = rd x"
begin

lemma rd_nonneg: "0 \<le> x \<Longrightarrow> 0 \<le> rd x"
  using rd_mono [of 0 x] by simp

lemma rd_nonpos: "x \<le> 0 \<Longrightarrow> rd x \<le> 0"
  using rd_mono [of x 0] by simp

lemma rd_abs: "rd \<bar>x\<bar> = \<bar>rd x\<bar>"
  using rd_nonneg [of x] rd_nonpos [of x] by (cases "0 \<le> x") auto

lemma rd_reflect_less: "rd x < rd y \<Longrightarrow> x < y"
  using rd_mono [of y x] by force

lemma rd_le_fixed: "x \<le> y \<Longrightarrow> rd y = y \<Longrightarrow> rd x \<le> y"
  using rd_mono [of x y] by simp

lemma rd_ge_fixed: "x \<le> y \<Longrightarrow> rd x = x \<Longrightarrow> x \<le> rd y"
  using rd_mono [of x y] by simp

end

locale rel_rounding = rounding +
  fixes eps :: rat
  assumes eps_nonneg: "0 \<le> eps"
    and eps_less: "eps < 1"
    and rd_error: "\<bar>rd x - x\<bar> \<le> eps * \<bar>x\<bar>"
begin

lemma rd_pos: "0 < x \<Longrightarrow> 0 < rd x"
proof -
  assume x: "0 < x"
  have "eps * x < 1 * x" using x eps_less by (intro mult_strict_right_mono) auto
  moreover have "\<bar>rd x - x\<bar> \<le> eps * x" using rd_error [of x] x by simp
  ultimately show ?thesis by linarith
qed

lemma rd_pos_iff [simp]: "0 < rd x \<longleftrightarrow> 0 < x"
  using rd_pos [of x] rd_nonpos [of x] by (meson not_le)

lemma rd_neg_iff [simp]: "rd x < 0 \<longleftrightarrow> x < 0"
  using rd_pos_iff [of "- x"] by simp

lemma rd_eq_zero_iff [simp]: "rd x = 0 \<longleftrightarrow> x = 0"
  using rd_pos_iff [of x] rd_neg_iff [of x] by (metis less_irrefl linorder_cases rd_zero)

lemma rd_upper: "0 \<le> x \<Longrightarrow> rd x \<le> (1 + eps) * x"
  using rd_error [of x] by (auto simp: algebra_simps)

lemma rd_lower: "0 \<le> x \<Longrightarrow> (1 - eps) * x \<le> rd x"
  using rd_error [of x] by (auto simp: algebra_simps)

end

text \<open>The grid roundings provide it, whenever coarser quanta lie under the leading digit.\<close>

locale grid =
  fixes b :: nat and q :: "int \<Rightarrow> int"
  assumes base: "2 \<le> b"
    and q_mono: "e \<le> e' \<Longrightarrow> q e \<le> q e'"
    and q_sep: "e < e' \<Longrightarrow> q e \<noteq> q e' \<Longrightarrow> q e' \<le> e'"
begin

lemma base_gt: "(1 :: rat) < of_nat b"
  using base by simp

lemma bpow_pos [simp]: "(0 :: rat) < of_nat b powi e"
  using base by simp

lemma bpow_le [simp]: "(of_nat b :: rat) powi e \<le> of_nat b powi e' \<longleftrightarrow> e \<le> e'"
  using base_gt by (meson not_le power_int_increasing power_int_strict_increasing less_imp_le)

lemma bpow_split: "e' \<le> e \<Longrightarrow> (of_nat b :: rat) powi e = of_int (int b ^ nat (e - e')) * of_nat b powi e'"
proof -
  assume "e' \<le> e"
  then have "(of_nat b :: rat) powi (e - e') = of_int (int b ^ nat (e - e'))"
    by (simp add: power_int_nonneg_exp)
  then show ?thesis using base power_int_add [of "of_nat b :: rat" "e - e'" e'] by simp
qed

lemma on_grid:
  assumes "x = of_int m * of_nat b powi k" and "q (ilog b \<bar>x\<bar>) \<le> k"
  shows "round_grid b q x = x"
proof (cases "x = 0")
  case True
  then show ?thesis by (simp add: round_grid_def)
next
  case False
  let ?u = "of_nat b powi q (ilog b \<bar>x\<bar>) :: rat"
  have u: "?u \<noteq> 0" using bpow_pos less_irrefl by metis
  have "x = of_int (m * int b ^ nat (k - q (ilog b \<bar>x\<bar>))) * ?u"
    unfolding of_int_mult using assms(1) bpow_split [OF assms(2)] by (simp only: mult.assoc)
  then have "x / ?u = of_int (m * int b ^ nat (k - q (ilog b \<bar>x\<bar>)))"
    using u by (metis nonzero_mult_div_cancel_right)
  then have "of_int (round_even (x / ?u)) * ?u = x"
    using u by (metis nonzero_eq_divide_eq round_even_of_int)
  then show ?thesis using False by (simp add: round_grid_def Let_def)
qed

lemma power_on_grid: "q e \<le> e \<Longrightarrow> round_grid b q (of_nat b powi e) = of_nat b powi e"
proof -
  assume "q e \<le> e"
  moreover have "ilog b \<bar>of_nat b powi e :: rat\<bar> = e"
    using base base_gt by (intro ilog_unique) (auto intro: power_int_strict_increasing)
  ultimately show ?thesis by (intro on_grid [where m = 1 and k = e]) auto
qed

lemma round_error: "x \<noteq> 0 \<Longrightarrow> \<bar>round_grid b q x - x\<bar> \<le> of_nat b powi q (ilog b \<bar>x\<bar>) / 2"
proof -
  assume "x \<noteq> 0"
  let ?u = "of_nat b powi q (ilog b \<bar>x\<bar>) :: rat"
  have u: "0 < ?u" by simp
  have "of_int (round_even (x / ?u)) * ?u - x = (of_int (round_even (x / ?u)) - x / ?u) * ?u"
    using u by (metis left_diff_distrib less_irrefl nonzero_divide_eq_eq)
  then have "\<bar>of_int (round_even (x / ?u)) * ?u - x\<bar> = \<bar>of_int (round_even (x / ?u)) - x / ?u\<bar> * ?u"
    using u by (simp add: abs_mult)
  also have "\<dots> \<le> 1/2 * ?u" using u by (intro mult_right_mono round_even_abs) auto
  finally show ?thesis using \<open>x \<noteq> 0\<close> by (simp add: round_grid_def Let_def)
qed

lemma round_zero: "round_grid b q 0 = 0"
  by (simp add: round_grid_def)

lemma round_minus: "round_grid b q (- x) = - round_grid b q x"
  by (simp add: round_grid_def Let_def round_even_minus flip: minus_divide_left)


lemma round_le_power:
  assumes "0 < x" "x \<le> of_nat b powi e" "q (ilog b x) \<le> e"
  shows "round_grid b q x \<le> of_nat b powi e"
proof -
  let ?u = "of_nat b powi q (ilog b x) :: rat"
  have "x / ?u \<le> of_nat b powi e / ?u" using assms(2) by (simp add: divide_right_mono)
  also have "\<dots> = of_int (int b ^ nat (e - q (ilog b x)))"
    using bpow_split [OF assms(3)] bpow_pos [of "q (ilog b x)"]
    by (metis less_irrefl nonzero_mult_div_cancel_right)
  finally have "round_even (x / ?u) \<le> int b ^ nat (e - q (ilog b x))"
    by (metis round_even_mono round_even_of_int)
  then have "of_int (round_even (x / ?u)) * ?u \<le> of_int (int b ^ nat (e - q (ilog b x))) * ?u"
    by (intro mult_right_mono) (use of_int_le_iff in blast, simp add: less_imp_le)
  then show ?thesis
    using assms(1) bpow_split [OF assms(3)] by (simp add: round_grid_def Let_def)
qed

lemma round_ge_power:
  assumes "of_nat b powi e \<le> x" "q (ilog b x) \<le> e"
  shows "of_nat b powi e \<le> round_grid b q x"
proof -
  let ?u = "of_nat b powi q (ilog b x) :: rat"
  have x: "0 < x" using assms(1) bpow_pos [of e] by linarith
  have "of_int (int b ^ nat (e - q (ilog b x))) = of_nat b powi e / ?u"
    using bpow_split [OF assms(2)] bpow_pos [of "q (ilog b x)"]
    by (metis less_irrefl nonzero_mult_div_cancel_right)
  also have "\<dots> \<le> x / ?u" using assms(1) by (simp add: divide_right_mono)
  finally have "int b ^ nat (e - q (ilog b x)) \<le> round_even (x / ?u)"
    by (metis round_even_mono round_even_of_int)
  then have "of_int (int b ^ nat (e - q (ilog b x))) * ?u \<le> of_int (round_even (x / ?u)) * ?u"
    by (intro mult_right_mono) (use of_int_le_iff in blast, simp add: less_imp_le)
  then show ?thesis
    using x bpow_split [OF assms(2)] by (simp add: round_grid_def Let_def)
qed

lemma round_mono_pos:
  assumes "0 < x" "x \<le> y"
  shows "round_grid b q x \<le> round_grid b q y"
proof -
  let ?e = "ilog b x" and ?f = "ilog b y"
  have y: "0 < y" using assms by simp
  have ef: "?e \<le> ?f" using base assms by (rule ilog_mono)
  show ?thesis
  proof (cases "q ?e = q ?f")
    case True
    let ?u = "of_nat b powi q ?f :: rat"
    have "x / ?u \<le> y / ?u" using assms(2) by (simp add: divide_right_mono)
    then have "of_int (round_even (x / ?u)) * ?u \<le> of_int (round_even (y / ?u)) * ?u"
      by (intro mult_right_mono) (auto simp: round_even_mono less_imp_le)
    then show ?thesis using True assms(1) y by (simp add: round_grid_def Let_def)
  next
    case False
    with ef have lt: "?e < ?f" by (cases "?e = ?f") auto
    have qf: "q ?f \<le> ?f" using q_sep lt False by blast
    have qe: "q ?e \<le> ?f" using q_mono [OF ef] qf by simp
    have "x < of_nat b powi (?e + 1)" using ilog_bounds [OF base assms(1)] by simp
    also have "(of_nat b :: rat) powi (?e + 1) \<le> of_nat b powi ?f" using lt by simp
    finally have "round_grid b q x \<le> of_nat b powi ?f"
      using qe assms(1) by (intro round_le_power) auto
    also have "\<dots> \<le> round_grid b q y"
      using ilog_bounds [OF base y] qf by (intro round_ge_power) auto
    finally show ?thesis .
  qed
qed

lemma round_nonneg: "0 \<le> x \<Longrightarrow> 0 \<le> round_grid b q x"
  using round_even_mono [of 0 "x / of_nat b powi q (ilog b \<bar>x\<bar>)"]
  by (auto simp: round_grid_def Let_def less_imp_le round_even_of_int [of 0, simplified])

lemma round_mono: "x \<le> y \<Longrightarrow> round_grid b q x \<le> round_grid b q y"
proof -
  assume xy: "x \<le> y"
  consider "0 < x" | "y < 0" | "x \<le> 0" "0 \<le> y" by linarith
  then show ?thesis
  proof cases
    case 1
    then show ?thesis using xy by (rule round_mono_pos)
  next
    case 2
    then show ?thesis using round_mono_pos [of "- y" "- x"] xy by (simp add: round_minus)
  next
    case 3
    then show ?thesis using round_nonneg [of "- x"] round_nonneg [of y] by (simp add: round_minus)
  qed
qed

lemma round_idem_pos:
  assumes "0 < x"
  shows "round_grid b q (round_grid b q x) = round_grid b q x"
proof (cases "round_grid b q x = 0")
  case True
  then show ?thesis by (simp add: round_zero)
next
  case False
  define y where "y = round_grid b q x"
  define e where "e = ilog b x"
  have y: "0 < y" using False round_nonneg [of x] assms by (simp add: y_def less_le)
  have yu: "y = of_int (round_even (x / of_nat b powi q e)) * of_nat b powi q e"
    using assms by (simp add: y_def e_def round_grid_def Let_def)
  show ?thesis
  proof (cases "q (ilog b y) \<le> q e")
    case True
    then show ?thesis using yu y unfolding y_def [symmetric] by (intro on_grid) auto
  next
    case False
    then have lt: "e < ilog b y" using q_mono [of "ilog b y" e] by force
    then have qy: "q (ilog b y) \<le> ilog b y" using q_sep False by force
    define k where "k = max (e + 1) (q e)"
    have "x < of_nat b powi (e + 1)" using ilog_bounds [OF base assms] by (simp add: e_def)
    also have "(of_nat b :: rat) powi (e + 1) \<le> of_nat b powi k" by (simp add: k_def)
    finally have yk: "y \<le> of_nat b powi k"
      unfolding y_def using assms by (intro round_le_power) (auto simp: k_def e_def)
    then have "(of_nat b :: rat) powi ilog b y \<le> of_nat b powi k"
      using ilog_bounds [OF base y] by linarith
    then have "ilog b y \<le> k" by simp
    then have ke: "ilog b y = e + 1" "k = e + 1" using lt False qy by (auto simp: k_def)
    then have "y = of_nat b powi (e + 1)" using yk ilog_bounds(1) [OF base y] by simp
    then show ?thesis
      unfolding y_def [symmetric] using qy ke by (simp only: power_on_grid)
  qed
qed

lemma round_idem: "round_grid b q (round_grid b q x) = round_grid b q x"
  using round_idem_pos [of x] round_idem_pos [of "- x"] round_zero
  by (cases x "0 :: rat" rule: linorder_cases) (auto simp: round_minus)

end

sublocale grid \<subseteq> rounding "round_grid b q"
  by unfold_locales (auto simp: round_zero round_minus round_idem intro: round_mono)

section \<open>Decimal contexts\<close>

text \<open>
  \<open>decimal.Context(prec = p)\<close>: results are rounded to \<open>p\<close> significant digits, half to even. The
  exponent limits of a context (\<open>Emin\<close>, \<open>Emax\<close> of one million) are out of the model: finite decimals
  are rationals.
\<close>

definition dround :: "nat \<Rightarrow> rat \<Rightarrow> rat" where
  "dround p x = round_grid 10 (\<lambda>e. e - (int p - 1)) x"

definition d28 :: "rat \<Rightarrow> rat" where \<comment> \<open>the default context\<close>
  "d28 x = dround 28 x"

definition d50 :: "rat \<Rightarrow> rat" where \<comment> \<open>\<open>Context(prec=50)\<close> of the ledger\<close>
  "d50 x = dround 50 x"

definition d60 :: "rat \<Rightarrow> rat" where \<comment> \<open>\<open>context.prec = 60\<close> of sizing and of the runner\<close>
  "d60 x = dround 60 x"

definition deps :: "nat \<Rightarrow> rat" where
  "deps p = 10 powi (1 - int p) / 2"

locale dec_ctx =
  fixes p :: nat
  assumes prec: "1 \<le> p"
begin

lemma is_grid: "grid 10 (\<lambda>e. e - (int p - 1))"
  using prec by unfold_locales auto

lemma dround_error: "\<bar>dround p x - x\<bar> \<le> deps p * \<bar>x\<bar>"
proof (cases "x = 0")
  case True
  then show ?thesis using grid.round_zero [OF is_grid] by (simp add: dround_def)
next
  case False
  let ?e = "ilog 10 \<bar>x\<bar>"
  have "\<bar>dround p x - x\<bar> \<le> 10 powi (?e - (int p - 1)) / 2"
    using grid.round_error [OF is_grid False] by (simp add: dround_def)
  also have "(10 :: rat) powi (?e - (int p - 1)) = 10 powi (1 - int p) * 10 powi ?e"
    by (simp add: algebra_simps flip: power_int_add)
  also have "\<dots> / 2 = deps p * 10 powi ?e" by (simp add: deps_def)
  also have "\<dots> \<le> deps p * \<bar>x\<bar>"
    using ilog_bounds(1) [of 10 "\<bar>x\<bar>"] False by (intro mult_left_mono) (auto simp: deps_def)
  finally show ?thesis .
qed

lemma deps_less: "deps p < 1"
proof -
  have "(10 :: rat) powi (1 - int p) \<le> 10 powi 0" using prec by (intro power_int_increasing) auto
  then show ?thesis by (simp add: deps_def)
qed

lemma is_rel_rounding: "rel_rounding (dround p) (deps p)"
  using grid.round_zero [OF is_grid] grid.round_minus [OF is_grid] grid.round_mono [OF is_grid]
    grid.round_idem [OF is_grid] dround_error deps_less
  by unfold_locales (auto simp: dround_def deps_def)

text \<open>Decimals of at most \<open>p\<close> digits are exact.\<close>

lemma dround_exact:
  assumes "x = of_int m * 10 powi k" and "\<bar>m\<bar> < 10 ^ p"
  shows "dround p x = x"
proof (cases "x = 0")
  case True
  then show ?thesis using grid.round_zero [OF is_grid] by (simp add: dround_def)
next
  case False
  have "\<bar>x\<bar> = of_int \<bar>m\<bar> * 10 powi k" using assms(1) by (simp add: abs_mult)
  also have "\<dots> < 10 ^ p * 10 powi k"
    using assms(2) by (intro mult_strict_right_mono) (auto simp flip: of_int_less_iff [where 'a = rat])
  also have "\<dots> = 10 powi (int p + k)" by (simp add: power_int_add)
  finally have "10 powi ilog 10 \<bar>x\<bar> < (10 :: rat) powi (int p + k)"
    using ilog_bounds(1) [of 10 "\<bar>x\<bar>"] False by simp
  then have "ilog 10 \<bar>x\<bar> < int p + k"
    by (meson not_le power_int_increasing one_le_numeral not_less)
  then show ?thesis
    unfolding dround_def using assms(1) by (intro grid.on_grid [OF is_grid]) auto
qed

end

text \<open>Evaluation on short decimals (at most 20 places and 30 digits before the point).\<close>

definition short_dec :: "rat \<Rightarrow> bool" where
  "short_dec x \<longleftrightarrow> of_int \<lfloor>x * 10 ^ 20\<rfloor> = x * 10 ^ 20 \<and> \<bar>x * 10 ^ 20\<bar> < 10 ^ 50"

lemma dround_short:
  assumes "50 \<le> p" "short_dec x"
  shows "dround p x = x"
proof -
  have ctx: "dec_ctx p" using assms(1) by unfold_locales simp
  define m where "m = \<lfloor>x * 10 ^ 20\<rfloor>"
  have m: "of_int m = x * 10 ^ 20" "\<bar>x * 10 ^ 20\<bar> < 10 ^ 50"
    using assms(2) unfolding short_dec_def m_def by blast+
  have "x = (x * 10 ^ 20) / 10 ^ 20" by (rule nonzero_mult_div_cancel_right [symmetric]) simp
  then have "x = of_int m * 10 powi (- int 20)"
    unfolding m(1) power_int_minus_divide power_int_of_nat by simp
  moreover have "(of_int \<bar>m\<bar> :: rat) < of_int (10 ^ 50)"
    using m(2) unfolding m(1) [symmetric] by (simp only: of_int_abs of_int_power of_int_numeral)
  then have "\<bar>m\<bar> < 10 ^ 50" unfolding of_int_less_iff .
  then have "\<bar>m\<bar> < 10 ^ p"
    using assms(1) by (meson less_le_trans one_le_numeral power_increasing)
  ultimately show ?thesis by (rule dec_ctx.dround_exact [OF ctx])
qed

interpretation ctx28: dec_ctx 28 by unfold_locales simp

interpretation ctx50: dec_ctx 50 by unfold_locales simp

interpretation ctx60: dec_ctx 60 by unfold_locales simp

interpretation d28: rel_rounding d28 "deps 28"
  using ctx28.is_rel_rounding unfolding d28_def [abs_def] .

interpretation d50: rel_rounding d50 "deps 50"
  using ctx50.is_rel_rounding unfolding d50_def [abs_def] .

interpretation d60: rel_rounding d60 "deps 60"
  using ctx60.is_rel_rounding unfolding d60_def [abs_def] .

text \<open>A value of the ledger's context is a value of the runner's wider context.\<close>

lemma d60_d50: "d60 (d50 x) = d50 x"
proof (cases "d50 x = 0")
  case False
  then have x: "x \<noteq> 0" by auto
  let ?e = "ilog 10 \<bar>x\<bar>" and ?y = "d50 x"
  obtain n where n: "?y = of_int n * of_nat 10 powi (?e - 49)"
    using x by (auto simp: d50_def dround_def round_grid_def Let_def)
  have "\<bar>?y\<bar> \<le> (1 + deps 50) * \<bar>x\<bar>" using d50.rd_upper [of "\<bar>x\<bar>"] by (simp add: d50.rd_abs)
  also have "\<dots> \<le> 10 * \<bar>x\<bar>" using ctx50.deps_less by (intro mult_right_mono) auto
  also have "\<dots> < 10 * 10 powi (?e + 1)" using ilog_bounds(2) [of 10 "\<bar>x\<bar>"] x by simp
  also have "\<dots> = 10 powi (?e + 2)" by (simp add: power_int_add)
  finally have "10 powi ilog 10 \<bar>?y\<bar> < (10 :: rat) powi (?e + 2)"
    using ilog_bounds(1) [of 10 "\<bar>?y\<bar>"] False by simp
  then have "ilog 10 \<bar>?y\<bar> < ?e + 2" by (meson not_le power_int_increasing one_le_numeral not_less)
  then show ?thesis
    using grid.on_grid [OF ctx60.is_grid n] by (simp add: d60_def dround_def)
qed simp
lemma d50_short: "short_dec x \<Longrightarrow> d50 x = x"
  by (simp add: d50_def dround_short)

lemma d60_short: "short_dec x \<Longrightarrow> d60 x = x"
  by (simp add: d60_def dround_short)

lemmas short_eval = d50_short d60_short short_dec_def

end
