(* ===== verification/Floats.thy ===== *)
theory Floats
  imports Rounding
begin

text \<open>
  Python numbers as the checks of the code see them: \<open>pynum\<close> has the finite values (rationals) and
  the special values. binary64 arithmetic rounds the exact result to nearest, ties to even, with
  gradual underflow and overflow to infinity. The sign of a zero is not modelled.
\<close>

section \<open>Values\<close>

datatype pynum = Fin rat | PInf | NInf | NaN

fun is_fin :: "pynum \<Rightarrow> bool" where
  "is_fin (Fin _) = True"
| "is_fin _ = False"

fun fle :: "pynum \<Rightarrow> pynum \<Rightarrow> bool" where
  "fle NaN _ = False"
| "fle _ NaN = False"
| "fle NInf _ = True"
| "fle _ PInf = True"
| "fle (Fin x) (Fin y) = (x \<le> y)"
| "fle _ _ = False"

fun flt :: "pynum \<Rightarrow> pynum \<Rightarrow> bool" where
  "flt NaN _ = False"
| "flt _ NaN = False"
| "flt x y = (\<not> fle y x)"

fun feq :: "pynum \<Rightarrow> pynum \<Rightarrow> bool" where
  "feq NaN _ = False"
| "feq x y = (x = y)"

lemma fle_refl: "x \<noteq> NaN \<Longrightarrow> fle x x"
  by (cases x) auto

lemma fle_trans: "fle x y \<Longrightarrow> fle y z \<Longrightarrow> fle x z"
  by (cases x; cases y; cases z) auto

lemma flt_fle_trans: "flt x y \<Longrightarrow> fle y z \<Longrightarrow> flt x z"
  by (cases x; cases y; cases z) auto

lemma fle_flt_trans: "fle x y \<Longrightarrow> flt y z \<Longrightarrow> flt x z"
  by (cases x; cases y; cases z) auto

lemma flt_Fin [simp]: "flt (Fin x) (Fin y) \<longleftrightarrow> x < y"
  by (simp add: not_le)

lemma flt_imp_fle: "flt x y \<Longrightarrow> fle x y"
  by (cases x; cases y) auto

lemma fle_not_flt: "fle x y \<Longrightarrow> \<not> flt y x"
  by (cases x; cases y) auto

lemma not_flt_fle: "x \<noteq> NaN \<Longrightarrow> y \<noteq> NaN \<Longrightarrow> \<not> flt y x \<Longrightarrow> fle x y"
  by (cases x; cases y) auto

section \<open>binary64\<close>

definition q64 :: "int \<Rightarrow> int" where
  "q64 e = max (e - 52) (- 1074)"

definition fl :: "rat \<Rightarrow> pynum" where
  "fl x =
     (let r = round_grid 2 q64 x
      in if 2 ^ 1024 \<le> r then PInf else if r \<le> - (2 ^ 1024) then NInf else Fin r)"

interpretation bin64: grid 2 q64
  by unfold_locales (auto simp: q64_def)

lemma fl_zero [simp]: "fl 0 = Fin 0"
  by (simp add: fl_def Let_def)

lemma fl_mono: "x \<le> y \<Longrightarrow> fle (fl x) (fl y)"
  using bin64.rd_mono [of x y] by (auto simp: fl_def Let_def)

lemma fl_not_NaN [simp]: "fl x \<noteq> NaN"
  by (simp add: fl_def Let_def)

lemma fl_idem: "fl x = Fin r \<Longrightarrow> fl r = Fin r"
  by (auto simp: fl_def Let_def split: if_splits)

lemma fl_nonneg: "0 \<le> x \<Longrightarrow> fl x = Fin r \<Longrightarrow> 0 \<le> r"
  using fl_mono [of 0 x] by simp

text \<open>Arithmetic. Division by zero is Python's exception where the source divides Python floats.\<close>

fun fneg :: "pynum \<Rightarrow> pynum" where
  "fneg (Fin x) = Fin (- x)"
| "fneg PInf = NInf"
| "fneg NInf = PInf"
| "fneg NaN = NaN"

fun fadd :: "pynum \<Rightarrow> pynum \<Rightarrow> pynum" where
  "fadd (Fin x) (Fin y) = fl (x + y)"
| "fadd NaN _ = NaN"
| "fadd _ NaN = NaN"
| "fadd PInf NInf = NaN"
| "fadd NInf PInf = NaN"
| "fadd PInf _ = PInf"
| "fadd _ PInf = PInf"
| "fadd NInf _ = NInf"
| "fadd _ NInf = NInf"

definition fsub :: "pynum \<Rightarrow> pynum \<Rightarrow> pynum" where
  "fsub x y = fadd x (fneg y)"

definition finf :: "rat \<Rightarrow> pynum" where
  "finf s = (if s = 0 then NaN else if 0 < s then PInf else NInf)"

fun fsgn :: "pynum \<Rightarrow> rat" where
  "fsgn (Fin x) = sgn x"
| "fsgn PInf = 1"
| "fsgn NInf = - 1"
| "fsgn NaN = 0"

fun fmul :: "pynum \<Rightarrow> pynum \<Rightarrow> pynum" where
  "fmul (Fin x) (Fin y) = fl (x * y)"
| "fmul NaN _ = NaN"
| "fmul _ NaN = NaN"
| "fmul x y = finf (fsgn x * fsgn y)"

fun fdiv :: "pynum \<Rightarrow> pynum \<Rightarrow> pynum res" where
  "fdiv NaN (Fin y) = (if y = 0 then Inl ZeroDivisionError else Inr NaN)"
| "fdiv (Fin x) (Fin y) = (if y = 0 then Inl ZeroDivisionError else Inr (fl (x / y)))"
| "fdiv x (Fin y) = (if y = 0 then Inl ZeroDivisionError else Inr (finf (fsgn x * sgn y)))"
| "fdiv _ NaN = Inr NaN"
| "fdiv (Fin x) _ = Inr (Fin 0)"
| "fdiv _ _ = Inr NaN"

text \<open>Division by the literal \<open>10_000\<close>, the basis points of the code.\<close>

definition bps :: "pynum \<Rightarrow> pynum" where
  "bps x = (case x of Fin r \<Rightarrow> fl (r / 10000) | _ \<Rightarrow> x)"

lemma bps_is_fdiv: "fdiv x (Fin 10000) = Inr (bps x)"
  by (cases x) (auto simp: bps_def finf_def)

text \<open>The nonnegative values that are not NaN: where sums, products and bps are monotone.\<close>

fun fnn :: "pynum \<Rightarrow> bool" where
  "fnn (Fin x) = (0 \<le> x)"
| "fnn PInf = True"
| "fnn _ = False"

lemma fnn_fl [simp]: "0 \<le> x \<Longrightarrow> fnn (fl x)"
  using fl_mono [of 0 x] by (cases "fl x") auto

lemma fnn_fadd [simp]: "fnn x \<Longrightarrow> fnn y \<Longrightarrow> fnn (fadd x y)"
  by (cases x; cases y) auto

lemma fnn_fmul_fin [simp]: "0 \<le> x \<Longrightarrow> 0 \<le> y \<Longrightarrow> fnn (fmul (Fin x) (Fin y))"
  by simp

lemma fnn_bps [simp]: "fnn x \<Longrightarrow> fnn (bps x)"
  by (cases x) (auto simp: bps_def)

lemma fnn_not_NaN: "fnn x \<Longrightarrow> x \<noteq> NaN"
  by auto

lemma fle_PInf: "fnn x \<Longrightarrow> fle x PInf"
  by (cases x) auto

lemma fle_extremes [simp]: "x \<noteq> NaN \<Longrightarrow> fle x PInf" "x \<noteq> NaN \<Longrightarrow> fle NInf x"
  by (cases x; simp)+

lemma fadd_mono: "fnn a \<Longrightarrow> fnn b \<Longrightarrow> fle a a' \<Longrightarrow> fle b b' \<Longrightarrow> fle (fadd a b) (fadd a' b')"
  by (cases a; cases b; cases a'; cases b') (auto intro: fl_mono simp: fle_PInf)

lemma fsub_mono: "is_fin c \<Longrightarrow> fle a b \<Longrightarrow> fle (fsub a c) (fsub b c)"
  by (cases a; cases b; cases c) (auto intro: fl_mono simp: fsub_def fle_PInf)

lemma fsub_antimono: "is_fin c \<Longrightarrow> fle a b \<Longrightarrow> fle (fsub c b) (fsub c a)"
  by (cases a; cases b; cases c) (auto intro: fl_mono simp: fsub_def)

lemma bps_mono: "fle a b \<Longrightarrow> fle (bps a) (bps b)"
  by (cases a; cases b) (auto intro: fl_mono simp: bps_def divide_right_mono)

lemma fmul_mono_right:
  "0 \<le> c \<Longrightarrow> a \<le> b \<Longrightarrow> fle (fmul (Fin c) (Fin a)) (fmul (Fin c) (Fin b))"
  by (auto intro!: fl_mono mult_left_mono)

text \<open>\<open>float(Decimal)\<close> rounds correctly.\<close>

definition float_of_dec :: "rat \<Rightarrow> pynum" where
  "float_of_dec x = fl x"

text \<open>
  \<open>sum()\<close> over floats is Neumaier's compensated sum since Python 3.12 (the project requires 3.12):
  the first addition is to the integer 0, then a running error term is kept.
\<close>

definition fabs :: "pynum \<Rightarrow> pynum" where
  "fabs x = (case x of Fin r \<Rightarrow> Fin \<bar>r\<bar> | NInf \<Rightarrow> PInf | _ \<Rightarrow> x)"

fun neumaier :: "pynum \<Rightarrow> pynum \<Rightarrow> pynum list \<Rightarrow> pynum" where
  "neumaier hi lo [] = (if is_fin lo \<and> \<not> feq lo (Fin 0) then fadd hi lo else hi)"
| "neumaier hi lo (x # xs) =
     (let t = fadd hi x;
          c = (if fle (fabs x) (fabs hi) then fadd (fsub hi t) x else fadd (fsub x t) hi)
      in neumaier t (fadd lo c) xs)"

fun py_sum :: "pynum list \<Rightarrow> pynum" where
  "py_sum [] = Fin 0"
| "py_sum (x # xs) = neumaier x (Fin 0) xs"

section \<open>Square roots\<close>

function isqrt :: "int \<Rightarrow> int" where
  "isqrt n =
     (if n \<le> 0 then 0
      else let r = 2 * isqrt (n div 4) in if (r + 1) * (r + 1) \<le> n then r + 1 else r)"
  by pat_completeness auto
termination
  by (relation "measure nat") auto

declare isqrt.simps [simp del]

lemma isqrt_correct: "0 \<le> n \<Longrightarrow> 0 \<le> isqrt n \<and> isqrt n * isqrt n \<le> n \<and> n < (isqrt n + 1) * (isqrt n + 1)"
proof (induction n rule: isqrt.induct)
  case (1 n)
  show ?case
  proof (cases "n = 0")
    case True
    then show ?thesis by (simp add: isqrt.simps [of 0])
  next
    case False
    define m where "m = isqrt (n div 4)"
    have "0 \<le> n div 4" using "1.prems" by simp
    then have "0 \<le> m \<and> m * m \<le> n div 4 \<and> n div 4 < (m + 1) * (m + 1)"
      unfolding m_def using False "1.prems" by (intro "1.IH") auto
    then have IH: "0 \<le> m" "m * m \<le> n div 4" "n div 4 + 1 \<le> (m + 1) * (m + 1)" by auto
    have lo: "(2 * m) * (2 * m) \<le> n" using IH(2) by simp
    have "n < 4 * (n div 4 + 1)" by simp
    then have hi: "n < (2 * m + 2) * (2 * m + 2)" using IH(3) by (simp add: algebra_simps)
    show ?thesis
      using False lo hi IH(1) "1.prems"
      by (auto simp: isqrt.simps [of n] Let_def m_def [symmetric] algebra_simps)
  qed
qed

text \<open>
  The square root rounded to \<open>p\<close> digits in base \<open>b\<close>, ties to even: \<open>math.sqrt\<close> (IEEE 754 requires the
  correctly rounded result; the root of a positive binary64 value is never subnormal) and
  \<open>Decimal.sqrt\<close> in a context of precision \<open>p\<close>.
\<close>

definition sqrt_digits :: "nat \<Rightarrow> nat \<Rightarrow> rat \<Rightarrow> rat" where
  "sqrt_digits b p x =
     (if x \<le> 0 then 0
      else let u = of_nat b powi (ilog b x div 2 - (int p - 1));
               y = x / (u * u);
               n = isqrt \<lfloor>y\<rfloor>;
               h = (of_int n + 1/2) * (of_int n + 1/2)
           in of_int (if y < h then n else if h < y then n + 1 else if even n then n else n + 1) * u)"

definition fsqrt :: "pynum \<Rightarrow> pynum res" where
  "fsqrt x =
     (case x of
        Fin r \<Rightarrow> if r < 0 then Inl (ValueError ''math domain error'') else Inr (Fin (sqrt_digits 2 53 r))
      | PInf \<Rightarrow> Inr PInf
      | NInf \<Rightarrow> Inl (ValueError ''math domain error'')
      | NaN \<Rightarrow> Inr NaN)"

definition dec_sqrt60 :: "rat \<Rightarrow> rat" where
  "dec_sqrt60 x = sqrt_digits 10 60 x"

lemma sqrt_digits_nonneg: "0 \<le> sqrt_digits b p x"
proof (cases "x \<le> 0")
  case True
  then show ?thesis by (simp add: sqrt_digits_def)
next
  case False
  let ?u = "of_nat b powi (ilog b x div 2 - (int p - 1)) :: rat"
  have "0 \<le> \<lfloor>x / (?u * ?u)\<rfloor>" using False by simp
  then have "0 \<le> isqrt \<lfloor>x / (?u * ?u)\<rfloor>" using isqrt_correct by blast
  then show ?thesis using False by (auto simp: sqrt_digits_def Let_def intro!: mult_nonneg_nonneg)
qed

section \<open>Shortest decimal text of a float\<close>

text \<open>
  \<open>Decimal(str(x))\<close>: the shortest decimal that reads back as the float \<open>x\<close>, and among those the one
  nearest to \<open>x\<close>. Seventeen digits are enough for binary64; the last branch is never taken there.
\<close>

definition repr_candidates :: "rat \<Rightarrow> nat \<Rightarrow> rat list" where
  "repr_candidates x p =
     (let u = 10 powi (ilog 10 \<bar>x\<bar> - (int p - 1))
      in filter (\<lambda>c. fl c = Fin x) [of_int \<lfloor>x / u\<rfloor> * u, of_int \<lceil>x / u\<rceil> * u])"

definition nearest :: "rat \<Rightarrow> rat list \<Rightarrow> rat" where
  "nearest x cs = (case cs of [] \<Rightarrow> x | c # ds \<Rightarrow> fold (\<lambda>d a. if \<bar>d - x\<bar> < \<bar>a - x\<bar> then d else a) ds c)"

definition repr_dec :: "rat \<Rightarrow> rat" where
  "repr_dec x =
     (if x = 0 then 0
      else case filter (\<lambda>cs. cs \<noteq> []) (map (repr_candidates x) [1..<18]) of
             [] \<Rightarrow> x
           | cs # _ \<Rightarrow> nearest x cs)"


lemma nearest_in: "cs \<noteq> [] \<Longrightarrow> nearest x cs \<in> set cs"
proof -
  have "fold (\<lambda>d a. if \<bar>d - x\<bar> < \<bar>a - x\<bar> then d else a) ds c \<in> set (c # ds)" for c ds
  proof (induction ds arbitrary: c)
    case (Cons d ds)
    from Cons.IH [of d] Cons.IH [of c] show ?case by (auto split: if_splits)
  qed simp
  then show "cs \<noteq> [] \<Longrightarrow> nearest x cs \<in> set cs"
    by (cases cs) (auto simp: nearest_def)
qed

text \<open>Reading the text back gives the float.\<close>

lemma fl_repr_dec: "fl x = Fin x \<Longrightarrow> fl (repr_dec x) = Fin x"
proof -
  assume x: "fl x = Fin x"
  show ?thesis
  proof (cases "filter (\<lambda>cs. cs \<noteq> []) (map (repr_candidates x) [1..<18])")
    case Nil
    then show ?thesis using x by (simp add: repr_dec_def)
  next
    case (Cons cs rest)
    then have "cs \<in> set (filter (\<lambda>cs. cs \<noteq> []) (map (repr_candidates x) [1..<18]))"
      by (metis list.set_intros(1))
    then obtain p where "cs \<noteq> []" "cs = repr_candidates x p" by auto
    then have "fl (nearest x cs) = Fin x"
      using nearest_in [of cs x] by (auto simp: repr_candidates_def Let_def split: if_splits)
    then show ?thesis using Cons x by (simp add: repr_dec_def)
  qed
qed

lemma repr_dec_strict_mono: "fl x = Fin x \<Longrightarrow> fl y = Fin y \<Longrightarrow> x < y \<Longrightarrow> repr_dec x < repr_dec y"
  using fl_mono [of "repr_dec y" "repr_dec x"] fl_repr_dec [of x] fl_repr_dec [of y]
  by (cases "repr_dec x < repr_dec y") (auto simp: not_less)

lemma repr_dec_pos: "fl x = Fin x \<Longrightarrow> 0 < x \<Longrightarrow> 0 < repr_dec x"
  using repr_dec_strict_mono [of 0 x] by (simp add: repr_dec_def)

lemma repr_dec_nonneg: "fl x = Fin x \<Longrightarrow> 0 \<le> x \<Longrightarrow> 0 \<le> repr_dec x"
  using repr_dec_pos [of x] by (cases "x = 0") (auto simp: repr_dec_def)

lemma float_of_repr: "fl x = Fin x \<Longrightarrow> float_of_dec (repr_dec x) = Fin x"
  by (simp add: float_of_dec_def fl_repr_dec)


section \<open>Evaluation on short binary fractions\<close>

definition short_bin :: "rat \<Rightarrow> bool" where
  "short_bin x \<longleftrightarrow> of_int \<lfloor>x * 2 ^ 20\<rfloor> = x * 2 ^ 20 \<and> \<bar>x * 2 ^ 20\<bar> < 2 ^ 50"

lemma fl_short:
  assumes "short_bin x"
  shows "fl x = Fin x"
proof (cases "x = 0")
  case False
  define m where "m = \<lfloor>x * 2 ^ 20\<rfloor>"
  have m: "of_int m = x * 2 ^ 20" "\<bar>x * 2 ^ 20\<bar> < 2 ^ 50"
    using assms unfolding short_bin_def m_def by blast+
  have small: "\<bar>x\<bar> < 2 ^ 30" using m(2) by (simp add: abs_mult)
  have "x = (x * 2 ^ 20) / 2 ^ 20" by (rule nonzero_mult_div_cancel_right [symmetric]) simp
  then have x: "x = of_int m * 2 powi (- int 20)"
    unfolding m(1) power_int_minus_divide power_int_of_nat by simp
  have "2 powi ilog 2 \<bar>x\<bar> < (2 :: rat) powi 30"
    using ilog_bounds(1) [of 2 "\<bar>x\<bar>"] False small by (simp add: power_int_numeral)
  then have "ilog 2 \<bar>x\<bar> < 30" by (meson not_le power_int_increasing one_le_numeral not_less)
  then have "q64 (ilog 2 \<bar>x\<bar>) \<le> - int 20" by (simp add: q64_def)
  then have r: "round_grid 2 q64 x = x" by (rule bin64.on_grid [rotated]) (simp only: x of_nat_numeral)
  have "\<bar>x\<bar> < 2 ^ 1024" by (rule less_le_trans [OF small]) (rule power_increasing; simp)
  then show ?thesis unfolding fl_def r Let_def by (auto simp: abs_less_iff)
qed simp

lemmas short_float = fl_short short_bin_def


text \<open>One-digit floats print as themselves; roots of small squares are exact.\<close>

lemma ilog_digit: "1 \<le> n \<Longrightarrow> n < 10 \<Longrightarrow> ilog 10 (of_int n) = 0"
  by (simp add: ilog_def ndigits.simps [of 10 n])

lemma first_nonempty: "f n = c # cs \<Longrightarrow>
    (case filter (\<lambda>cs. cs \<noteq> []) (map f (n # ns)) of [] \<Rightarrow> a | cs # _ \<Rightarrow> g cs) = g (c # cs)"
  by simp

lemma repr_dec_digit:
  assumes "1 \<le> n" "n < 10"
  shows "repr_dec (of_int n) = of_int n"
proof -
  have "short_bin (of_int n)" using assms by (simp add: short_bin_def)
  then have f: "fl (of_int n) = Fin (of_int n)" by (rule fl_short)
  have up: "[1..<18] = (1 :: nat) # [2..<18]" 
    by (simp only: upt_conv_Cons [of 1 18, simplified] numeral_2_eq_2 One_nat_def)
  have c: "repr_candidates (of_int n) 1 = [of_int n, of_int n]"
    using assms f by (simp add: repr_candidates_def ilog_digit)
  show ?thesis
    using assms(1) unfolding repr_dec_def up first_nonempty [of "repr_candidates (of_int n)" 1, OF c]
    by (simp add: nearest_def)
qed

lemma isqrt_square: "0 \<le> m \<Longrightarrow> isqrt (m * m) = m"
proof -
  assume m: "0 \<le> m"
  have c: "0 \<le> isqrt (m * m) \<and> isqrt (m * m) * isqrt (m * m) \<le> m * m \<and> m * m < (isqrt (m * m) + 1) * (isqrt (m * m) + 1)"
    by (rule isqrt_correct) (use m in simp)
  have "isqrt (m * m) \<le> m" using c m by (meson mult_strict_mono' not_le)
  moreover have "m < isqrt (m * m) + 1" using c m by (meson add_nonneg_nonneg mult_mono not_less zero_le_one)
  ultimately show ?thesis by simp
qed

lemma fsqrt_1: "fsqrt (Fin 1) = Inr (Fin 1)" and fsqrt_4: "fsqrt (Fin 4) = Inr (Fin 2)"
proof -
  have i1: "ilog 2 1 = 0" by (simp add: ilog_def ndigits.simps)
  have i4: "ilog 2 4 = 2" by (simp add: ilog_def ndigits.simps)
  have s1: "isqrt (20282409603651670423947251286016 :: int) = 4503599627370496"
    using isqrt_square [of 4503599627370496] by simp
  show "fsqrt (Fin 1) = Inr (Fin 1)" "fsqrt (Fin 4) = Inr (Fin 2)"
    by (simp_all add: fsqrt_def sqrt_digits_def i1 i4 s1 power_int_minus_divide power_int_numeral)
qed

end
