(* ===== verification/Fees.thy ===== *)
theory Fees
  imports Floats
begin

text \<open>
  \<open>strategy/fees.py\<close>: dated taker fees. A period is built by a checked constructor, a schedule refuses
  overlapping periods, and \<open>quote\<close> answers only from admitted evidence. Runtime type checks of the
  source (\<open>isinstance\<close>, \<open>Literal\<close>) are the HOL types; non-finite decimals are values of \<open>pynum\<close>.
\<close>

section \<open>Checked arguments\<close>

definition decimal :: "pynum \<Rightarrow> string \<Rightarrow> bool \<Rightarrow> rat res" where
  "decimal v name positive =
     (case v of
        Fin r \<Rightarrow> if positive \<and> r \<le> 0 then Inl (ValueError (name @ '' must be positive'')) else Inr r
      | _ \<Rightarrow> Inl (ValueError (name @ '' must be a finite Decimal'')))"

definition timestamp :: "int \<Rightarrow> string \<Rightarrow> int res" where
  "timestamp v name =
     (if v < 0 then Inl (ValueError (name @ '' must be a nonnegative millisecond integer'')) else Inr v)"

lemma decimal_eq_Inr [res_simps]:
  "decimal v name positive = Inr r \<longleftrightarrow> v = Fin r \<and> (positive \<longrightarrow> 0 < r)"
  by (cases v) (auto simp: decimal_def)

lemma timestamp_eq_Inr [res_simps]: "timestamp v name = Inr t \<longleftrightarrow> t = v \<and> 0 \<le> v"
  by (auto simp: timestamp_def)

section \<open>Periods and schedules\<close>

datatype market = Spot | Perp

datatype fee_kind = Verified | Assumption

record fee_period =
  fp_symbol :: string
  fp_market :: market
  fp_start_ms :: int
  fp_end_ms :: int
  fp_taker_fraction :: rat
  fp_source :: string
  fp_observed_at_ms :: int
  fp_kind :: fee_kind

definition mk_fee_period ::
  "string \<Rightarrow> market \<Rightarrow> int \<Rightarrow> int \<Rightarrow> pynum \<Rightarrow> string \<Rightarrow> int \<Rightarrow> fee_kind \<Rightarrow> fee_period res" where
  "mk_fee_period symbol market start_ms end_ms taker source observed kind =
     bnd (timestamp start_ms ''start_ms'') (\<lambda>_.
     bnd (timestamp end_ms ''end_ms'') (\<lambda>_.
     bnd (timestamp observed ''observed_at_ms'') (\<lambda>_.
     bnd (decimal taker ''taker_fraction'' False) (\<lambda>fraction.
       if symbol = [] \<or> end_ms \<le> start_ms \<or> \<not> (0 \<le> fraction \<and> fraction < 1)
          \<or> \<not> prefix ''https://'' source
       then Inl (ValueError ''Invalid fee period or provenance'')
       else Inr \<lparr>fp_symbol = symbol, fp_market = market, fp_start_ms = start_ms, fp_end_ms = end_ms,
                 fp_taker_fraction = fraction, fp_source = source, fp_observed_at_ms = observed,
                 fp_kind = kind\<rparr>))))"

definition valid_period :: "fee_period \<Rightarrow> bool" where
  "valid_period p \<longleftrightarrow>
     0 \<le> fp_start_ms p \<and> fp_start_ms p < fp_end_ms p \<and> 0 \<le> fp_taker_fraction p
     \<and> fp_taker_fraction p < 1 \<and> fp_symbol p \<noteq> [] \<and> 0 \<le> fp_observed_at_ms p
     \<and> prefix ''https://'' (fp_source p)"

record fee_schedule =
  fs_periods :: "fee_period list"
  fs_allow_assumptions :: bool

definition overlap :: "fee_period \<Rightarrow> fee_period \<Rightarrow> bool" where
  "overlap l r \<longleftrightarrow>
     fp_symbol l = fp_symbol r \<and> fp_market l = fp_market r
     \<and> max (fp_start_ms l) (fp_start_ms r) < min (fp_end_ms l) (fp_end_ms r)"

fun overlapping :: "fee_period list \<Rightarrow> bool" where
  "overlapping [] = False"
| "overlapping (l # rs) = (list_ex (overlap l) rs \<or> overlapping rs)"

definition mk_fee_schedule :: "fee_period list \<Rightarrow> bool \<Rightarrow> fee_schedule res" where
  "mk_fee_schedule periods allow =
     (if periods = [] then Inl (ValueError ''Fee schedule needs fee periods'')
      else if overlapping periods then Inl (ValueError ''Overlapping fee periods'')
      else Inr \<lparr>fs_periods = periods, fs_allow_assumptions = allow\<rparr>)"

definition valid_schedule :: "fee_schedule \<Rightarrow> bool" where
  "valid_schedule s \<longleftrightarrow>
     fs_periods s \<noteq> [] \<and> (\<forall>p \<in> set (fs_periods s). valid_period p) \<and> \<not> overlapping (fs_periods s)"

definition covers :: "fee_period \<Rightarrow> string \<Rightarrow> market \<Rightarrow> int \<Rightarrow> bool" where
  "covers p symbol market t \<longleftrightarrow>
     fp_symbol p = symbol \<and> fp_market p = market \<and> fp_start_ms p \<le> t \<and> t < fp_end_ms p"

fun quote_periods :: "bool \<Rightarrow> fee_period list \<Rightarrow> string \<Rightarrow> market \<Rightarrow> int \<Rightarrow> rat res" where
  "quote_periods allow [] symbol market t = Inl (ValueError ''No fee coverage for symbol, market and time'')"
| "quote_periods allow (p # ps) symbol market t =
     (if covers p symbol market t
      then if fp_kind p = Assumption
           then if \<not> allow then Inl (ValueError ''Unverified fee assumption requires explicit admission'')
                else Inr (fp_taker_fraction p)
           else if t < fp_observed_at_ms p then Inl (ValueError ''Fee evidence is in the future'')
           else Inr (fp_taker_fraction p)
      else quote_periods allow ps symbol market t)"

definition quote :: "fee_schedule \<Rightarrow> string \<Rightarrow> market \<Rightarrow> int \<Rightarrow> rat res" where
  "quote s symbol market t =
     bnd (timestamp t ''time_ms'') (\<lambda>_.
       quote_periods (fs_allow_assumptions s) (fs_periods s) symbol market t)"

section \<open>Constructors establish validity\<close>

lemma mk_fee_period_valid: "mk_fee_period sy m s e f src ob k = Inr p \<Longrightarrow> valid_period p"
  by (auto simp: mk_fee_period_def valid_period_def res_simps split: if_splits)

lemma mk_fee_schedule_valid:
  "mk_fee_schedule ps allow = Inr s \<Longrightarrow> \<forall>p \<in> set ps. valid_period p \<Longrightarrow> valid_schedule s"
  by (auto simp: mk_fee_schedule_def valid_schedule_def split: if_splits)

section \<open>Quotes\<close>

definition admitted :: "bool \<Rightarrow> fee_period \<Rightarrow> int \<Rightarrow> bool" where
  "admitted allow p t \<longleftrightarrow> (if fp_kind p = Assumption then allow else fp_observed_at_ms p \<le> t)"

lemma quote_periods_Inr:
  "quote_periods allow ps symbol market t = Inr r \<Longrightarrow>
   \<exists>p \<in> set ps. covers p symbol market t \<and> admitted allow p t \<and> fp_taker_fraction p = r"
  by (induction ps) (auto simp: admitted_def split: if_splits)

lemma overlapping_covers:
  "\<not> overlapping ps \<Longrightarrow> p \<in> set ps \<Longrightarrow> q \<in> set ps \<Longrightarrow>
   covers p symbol market t \<Longrightarrow> covers q symbol market t \<Longrightarrow> p = q"
  by (induction ps) (auto simp: covers_def overlap_def list_ex_iff)

lemma quote_periods_covered:
  "\<not> overlapping ps \<Longrightarrow> p \<in> set ps \<Longrightarrow> covers p symbol market t \<Longrightarrow>
   quote_periods allow ps symbol market t =
     (if admitted allow p t then Inr (fp_taker_fraction p)
      else if fp_kind p = Assumption
      then Inl (ValueError ''Unverified fee assumption requires explicit admission'')
      else Inl (ValueError ''Fee evidence is in the future''))"
proof (induction ps)
  case (Cons a ps)
  show ?case
  proof (cases "covers a symbol market t")
    case True
    then have "a = p" using overlapping_covers [OF Cons.prems(1)] Cons.prems by auto
    then show ?thesis using True by (cases "fp_kind p") (auto simp: admitted_def)
  next
    case False
    then show ?thesis using Cons by auto
  qed
qed simp

lemma quote_periods_uncovered:
  "\<forall>p \<in> set ps. \<not> covers p symbol market t \<Longrightarrow>
   quote_periods allow ps symbol market t = Inl (ValueError ''No fee coverage for symbol, market and time'')"
  by (induction ps) auto

lemma overlap_sym: "overlap p q \<longleftrightarrow> overlap q p"
  by (auto simp: overlap_def)

section \<open>The fee interface of the ledger\<close>

text \<open>What a client of fee quotes may rely on: an answered quote is a fraction in [0, 1).\<close>

locale fee_source =
  fixes valid :: "'s \<Rightarrow> bool" and rate :: "'s \<Rightarrow> string \<Rightarrow> market \<Rightarrow> int \<Rightarrow> rat res"
  assumes rate_range: "valid s \<Longrightarrow> rate s symbol market t = Inr r \<Longrightarrow> 0 \<le> r \<and> r < 1"
    and rate_time: "rate s symbol market t = Inr r \<Longrightarrow> 0 \<le> t"
begin

lemma fee_nonneg: "valid s \<Longrightarrow> rate s symbol market t = Inr r \<Longrightarrow> 0 \<le> x \<Longrightarrow> 0 \<le> x * r"
  using rate_range by (metis mult_nonneg_nonneg)

lemma fee_le_notional: "valid s \<Longrightarrow> rate s symbol market t = Inr r \<Longrightarrow> 0 \<le> x \<Longrightarrow> x * r \<le> x"
  using rate_range mult_left_le by (metis less_imp_le)

end

lemma quote_range: "valid_schedule s \<Longrightarrow> quote s symbol market t = Inr r \<Longrightarrow> 0 \<le> r \<and> r < 1"
  by (auto simp: quote_def res_simps valid_schedule_def valid_period_def dest!: quote_periods_Inr)

interpretation fees: fee_source valid_schedule quote
  by unfold_locales (auto dest: quote_range simp: quote_def res_simps)

end
