(* ===== verification/Calendar.thy ===== *)
theory Calendar
  imports Prelude
begin

text \<open>
  UTC calendar arithmetic: a \<open>dt.date\<close> is its proleptic Gregorian ordinal (day 1 is 0001-01-01), with
  the standard library's conversions to and from year, month and day, and the code's own helpers:
  the monthly fold of the walk-forward runner, UTC day starts in milliseconds, and the month iterator
  of the archive layout.
\<close>

section \<open>Ordinals\<close>

definition is_leap :: "int \<Rightarrow> bool" where
  "is_leap y \<longleftrightarrow> y mod 4 = 0 \<and> (y mod 100 \<noteq> 0 \<or> y mod 400 = 0)"

definition days_before_year :: "int \<Rightarrow> int" where
  "days_before_year y = (y - 1) * 365 + (y - 1) div 4 - (y - 1) div 100 + (y - 1) div 400"

definition days_in_month :: "int \<Rightarrow> int \<Rightarrow> int" where
  "days_in_month y m =
     (if m = 2 then if is_leap y then 29 else 28 else if m \<in> {4, 6, 9, 11} then 30 else 31)"

definition days_before_month :: "int \<Rightarrow> int \<Rightarrow> int" where
  "days_before_month y m = sum_list (map (days_in_month y) [1..m - 1])"

definition ymd2ord :: "int \<Rightarrow> int \<Rightarrow> int \<Rightarrow> int" where
  "ymd2ord y m d = days_before_year y + days_before_month y m + d"

text \<open>Split a day-in-year into month and day, from month \<open>m\<close> on.\<close>

function split_month :: "int \<Rightarrow> int \<Rightarrow> int \<Rightarrow> int \<times> int" where
  "split_month y m r =
     (if 12 \<le> m \<or> r < days_in_month y m then (m, r + 1) else split_month y (m + 1) (r - days_in_month y m))"
  by pat_completeness auto
termination
  by (relation "measure (\<lambda>(y, m, r). nat (12 - m))") auto

declare split_month.simps [simp del]

definition year_of :: "int \<Rightarrow> int" where
  "year_of n =
     (let n0 = n - 1; r = n0 mod 146097; r2 = r mod 36524; r3 = r2 mod 1461;
          y = 400 * (n0 div 146097) + 100 * (r div 36524) + 4 * (r2 div 1461) + r3 div 365 + 1
      in if r3 div 365 = 4 \<or> r div 36524 = 4 then y - 1 else y)"

definition ord2ymd :: "int \<Rightarrow> int \<times> int \<times> int" where
  "ord2ymd n =
     (let y = year_of n; (m, d) = split_month y 1 (n - 1 - days_before_year y) in (y, m, d))"

definition first_of_month :: "int \<Rightarrow> int" where \<comment> \<open>\<open>date.replace(day=1)\<close>\<close>
  "first_of_month n = (let (y, m, _) = ord2ymd n in ymd2ord y m 1)"

text \<open>Years: the closed form brackets the ordinal.\<close>

lemma days_before_year_parts:
  assumes "0 \<le> b" "b \<le> 3" "0 \<le> c" "c \<le> 24" "0 \<le> d" "d \<le> 3"
  shows "days_before_year (400 * a + 100 * b + 4 * c + d + 1) = 146097 * a + 36524 * b + 1461 * c + 365 * d"
proof -
  have "(400 * a + 100 * b + 4 * c + d) div 4 = 100 * a + 25 * b + c"
    using assms by (intro int_div_pos_eq [where r = d]) auto
  moreover have "(400 * a + 100 * b + 4 * c + d) div 100 = 4 * a + b"
    using assms by (intro int_div_pos_eq [where r = "4 * c + d"]) auto
  moreover have "(400 * a + 100 * b + 4 * c + d) div 400 = a"
    using assms by (intro int_div_pos_eq [where r = "100 * b + 4 * c + d"]) auto
  ultimately show ?thesis by (simp add: days_before_year_def)
qed

lemma div_pred:
  assumes "(0 :: int) < k"
  shows "y div k = (y - 1) div k + (if y mod k = 0 then 1 else 0)"
proof -
  define q r where "q = (y - 1) div k" and "r = (y - 1) mod k"
  have y: "y = k * q + (r + 1)" and r: "0 \<le> r" "r < k" using assms by (simp_all add: q_def r_def)
  show ?thesis
  proof (cases "r + 1 = k")
    case True
    then have "y = k * (q + 1)" using y by (simp add: distrib_left)
    then have "y div k = q + 1" "y mod k = 0" using assms by auto
    then show ?thesis by (simp add: q_def)
  next
    case False
    then have "y div k = q" "y mod k = r + 1"
      using r y by (auto intro: int_div_pos_eq int_mod_pos_eq)
    then show ?thesis using r by (simp add: q_def)
  qed
qed

lemma mod_zero_dvd: "k dvd k' \<Longrightarrow> y mod k' = 0 \<Longrightarrow> y mod k = (0 :: int)"
  by (meson dvd_trans mod_eq_0_iff_dvd)

lemma days_in_year: "days_before_year (y + 1) = days_before_year y + 365 + (if is_leap y then 1 else 0)"
proof -
  have d: "(100 :: int) dvd 400" "(4 :: int) dvd 100" by simp_all
  have "y mod 400 = 0 \<longrightarrow> y mod 100 = 0" "y mod 100 = 0 \<longrightarrow> y mod 4 = 0"
    by (rule impI, erule mod_zero_dvd [OF d(1)], rule impI, erule mod_zero_dvd [OF d(2)])
  moreover have p: "y div 4 = (y - 1) div 4 + (if y mod 4 = 0 then 1 else 0)"
    "y div 100 = (y - 1) div 100 + (if y mod 100 = 0 then 1 else 0)"
    "y div 400 = (y - 1) div 400 + (if y mod 400 = 0 then 1 else 0)"
    by (rule div_pred, simp)+
  ultimately show ?thesis
    unfolding days_before_year_def is_leap_def add_diff_cancel_right' p
    by (cases "y mod 4 = 0"; cases "y mod 100 = 0"; cases "y mod 400 = 0") (simp_all add: left_diff_distrib)
qed

lemma days_before_year_mono: "y \<le> z \<Longrightarrow> days_before_year y \<le> days_before_year z"
proof (induction z rule: int_ge_induct)
  case (step z)
  then show ?case using days_in_year [of z] by (auto split: if_splits)
qed simp

lemma year_of_bounds: "days_before_year (year_of n) < n \<and> n \<le> days_before_year (year_of n + 1)"
proof -
  define n0 a r b r2 c r3 d r4 where "n0 = n - 1" and "a = n0 div 146097" and "r = n0 mod 146097"
    and "b = r div 36524" and "r2 = r mod 36524" and "c = r2 div 1461" and "r3 = r2 mod 1461"
    and "d = r3 div 365" and "r4 = r3 mod 365"
  note defs = n0_def a_def r_def b_def r2_def c_def r3_def d_def r4_def
  have bnd: "0 \<le> r" "r < 146097" "0 \<le> r2" "r2 < 36524" "0 \<le> r3" "r3 < 1461" "0 \<le> r4" "r4 < 365"
    by (simp_all add: defs)
  have r: "r = 36524 * b + r2" "r2 = 1461 * c + r3" "r3 = 365 * d + r4" "n0 = 146097 * a + r"
    unfolding b_def r2_def c_def r3_def d_def r4_def a_def r_def by (simp_all only: mult_div_mod_eq)
  then have n0: "n0 = 146097 * a + 36524 * b + 1461 * c + 365 * d + r4" by simp
  have rng: "0 \<le> b" "b \<le> 4" "0 \<le> c" "c \<le> 24" "0 \<le> d" "d \<le> 4" using bnd r by linarith+
  have y: "year_of n = (if d = 4 \<or> b = 4 then 400 * a + 100 * b + 4 * c + d
      else 400 * a + 100 * b + 4 * c + d + 1)"
    by (simp add: year_of_def Let_def defs)
  show ?thesis
  proof (cases "b = 4")
    case True
    then have z: "c = 0" "d = 0" "r4 = 0" using r bnd rng by linarith+
    have "days_before_year (400 * a + 100 * 3 + 4 * 24 + 3 + 1) = 146097 * a + 36524 * 3 + 1461 * 24 + 365 * 3"
      by (rule days_before_year_parts) auto
    moreover have "days_before_year (400 * (a + 1) + 100 * 0 + 4 * 0 + 0 + 1) = 146097 * (a + 1)"
      using days_before_year_parts [of 0 0 0 "a + 1"] by simp
    ultimately show ?thesis using y True z n0 by (simp add: n0_def algebra_simps)
  next
    case b: False
    show ?thesis
    proof (cases "d = 4")
      case True
      then have z: "r4 = 0" using r bnd by linarith
      have c: "c \<le> 24" "\<not> (c = 24 \<and> r3 > 1459)" using r bnd by linarith+
      then have c23: "c \<le> 23" using True r z by auto
      have "days_before_year (400 * a + 100 * b + 4 * c + 3 + 1) = 146097 * a + 36524 * b + 1461 * c + 365 * 3"
        using rng b by (intro days_before_year_parts) auto
      moreover have "days_before_year (400 * a + 100 * b + 4 * (c + 1) + 0 + 1) = 146097 * a + 36524 * b + 1461 * (c + 1)"
        using days_before_year_parts [of b "c + 1" 0 a] rng b c23 by simp
      ultimately show ?thesis using y True z n0 by (simp add: n0_def algebra_simps)
    next
      case False
      then have D: "days_before_year (year_of n) = 146097 * a + 36524 * b + 1461 * c + 365 * d"
        using y b rng days_before_year_parts [of b c d a] by simp
      then show ?thesis using days_in_year [of "year_of n"] n0 bnd by (auto simp: n0_def)
    qed
  qed
qed

text \<open>Months: the split is the inverse of the running sum of month lengths.\<close>

lemma days_in_month_pos: "28 \<le> days_in_month y m" "days_in_month y m \<le> 31"
  by (simp_all add: days_in_month_def)

lemma days_before_month_Suc: "1 \<le> m \<Longrightarrow> days_before_month y (m + 1) = days_before_month y m + days_in_month y m"
  by (simp add: days_before_month_def upto_rec2)

lemma days_before_month_13: "days_before_month y 13 = 365 + (if is_leap y then 1 else 0)"
  by (simp add: days_before_month_def upto_rec1 days_in_month_def)

lemma split_month_correct:
  assumes "1 \<le> m" "m \<le> 12" "0 \<le> r" "r < days_before_month y 13 - days_before_month y m"
    and "split_month y m r = (m', d)"
  shows "m \<le> m' \<and> m' \<le> 12 \<and> 1 \<le> d \<and> d \<le> days_in_month y m'
    \<and> days_before_month y m' + d = days_before_month y m + r + 1"
  using assms
proof (induction y m r rule: split_month.induct)
  case (1 y m r)
  show ?case
  proof (cases "12 \<le> m \<or> r < days_in_month y m")
    case True
    then have "r < days_in_month y m"
      using "1.prems" days_before_month_Suc [of 12 y] by (cases "m = 12") auto
    then show ?thesis using True "1.prems" by (simp add: split_month.simps [of y m r])
  next
    case False
    have "m + 1 \<le> m' \<and> m' \<le> 12 \<and> 1 \<le> d \<and> d \<le> days_in_month y m'
        \<and> days_before_month y m' + d = days_before_month y (m + 1) + (r - days_in_month y m) + 1"
      using False "1.prems" days_before_month_Suc [of m y]
      by (intro "1.IH") (auto simp: split_month.simps [of y m r])
    then show ?thesis using days_before_month_Suc [of m y] "1.prems" by auto
  qed
qed

lemma ord2ymd_correct:
  assumes "ord2ymd n = (y, m, d)"
  shows "ymd2ord y m d = n" "1 \<le> m" "m \<le> 12" "1 \<le> d" "d \<le> days_in_month y m"
proof -
  have y: "y = year_of n" and s: "split_month y 1 (n - 1 - days_before_year y) = (m, d)"
    using assms by (auto simp: ord2ymd_def Let_def split: prod.splits)
  have "1 \<le> m \<and> m \<le> 12 \<and> 1 \<le> d \<and> d \<le> days_in_month y m
      \<and> days_before_month y m + d = days_before_month y 1 + (n - 1 - days_before_year y) + 1"
    using s year_of_bounds [of n] days_in_year [of y] days_before_month_13 [of y] y
    by (intro split_month_correct) (auto simp: days_before_month_def)
  then show "ymd2ord y m d = n" "1 \<le> m" "m \<le> 12" "1 \<le> d" "d \<le> days_in_month y m"
    by (auto simp: ymd2ord_def days_before_month_def)
qed


section \<open>Monthly folds and UTC day starts\<close>

definition day_ms :: int where "day_ms = 86400000"

definition hour_ms :: int where "hour_ms = 3600000"

definition epoch_ord :: int where "epoch_ord = 719163" \<comment> \<open>1970-01-01\<close>

definition max_ms :: int where "max_ms = 253402300800000" \<comment> \<open>the start of year 10000\<close>

definition utc_ms :: "int \<Rightarrow> int" where
  "utc_ms day = (day - epoch_ord) * day_ms"

definition day_of_ms :: "int \<Rightarrow> int" where \<comment> \<open>the UTC date of a millisecond time\<close>
  "day_of_ms t = t div day_ms + epoch_ord"

definition month_start_ms :: "int \<Rightarrow> int" where
  "month_start_ms t = utc_ms (first_of_month (day_of_ms t))"

definition fold_start :: "int \<Rightarrow> int res" where
  "fold_start t =
     (if t < 0 \<or> max_ms \<le> t then Inl (ValueError ''year is out of range'') else Inr (month_start_ms t))"

lemma first_of_month_bounds: "first_of_month n \<le> n" "n < first_of_month n + 31"
proof -
  obtain y m d where o: "ord2ymd n = (y, m, d)" by (metis prod_cases3)
  then show "first_of_month n \<le> n" "n < first_of_month n + 31"
    using ord2ymd_correct [OF o] days_in_month_pos [where y = y and m = m]
    by (auto simp: first_of_month_def ymd2ord_def)
qed

text \<open>\<open>months_between\<close>: the cursor is always the first of a month, so its 28th plus four days is 31 days
  on, which lies in the next month.\<close>

function months_from :: "int \<Rightarrow> int \<Rightarrow> int list" where
  "months_from cursor stop =
     (if cursor \<le> stop then cursor # months_from (first_of_month (cursor + 31)) stop else [])"
  by pat_completeness auto
termination
proof (relation "measure (\<lambda>(c, e). nat (e + 1 - c))")
  fix cursor stop :: int
  assume "cursor \<le> stop"
  then show "((first_of_month (cursor + 31), stop), cursor, stop) \<in> measure (\<lambda>(c, e). nat (e + 1 - c))"
    using first_of_month_bounds [of "cursor + 31"] by simp
qed simp

declare months_from.simps [simp del]

definition months_between :: "int \<Rightarrow> int \<Rightarrow> int list" where
  "months_between start stop = months_from (first_of_month start) stop"

definition month_bounds :: "int \<Rightarrow> int \<times> int" where
  "month_bounds month =
     (let (y, m, d) = ord2ymd month; start = ymd2ord y m 1
      in (utc_ms start, utc_ms (start + days_in_month y m)))"

lemma ymd2ord_less_year: "1 \<le> m \<Longrightarrow> m \<le> 12 \<Longrightarrow> 1 \<le> d \<Longrightarrow> d \<le> days_in_month y m \<Longrightarrow>
    days_before_year y < ymd2ord y m d \<and> ymd2ord y m d \<le> days_before_year (y + 1)"
proof -
  assume m: "1 \<le> m" "m \<le> 12" and d: "1 \<le> d" "d \<le> days_in_month y m"
  have "m = 1 \<or> m = 2 \<or> m = 3 \<or> m = 4 \<or> m = 5 \<or> m = 6 \<or> m = 7 \<or> m = 8 \<or> m = 9 \<or> m = 10 \<or> m = 11 \<or> m = 12"
    using m by presburger
  then have "0 \<le> days_before_month y m \<and> days_before_month y m + days_in_month y m \<le> days_before_month y 13"
    by (elim disjE) (simp_all add: days_before_month_def upto_rec1 days_in_month_def)
  then show ?thesis using d days_in_year [of y] days_before_month_13 [of y]
    by (auto simp: ymd2ord_def)
qed

lemma days_before_month_less:
  assumes "1 \<le> m" "m + 1 \<le> m'"
  shows "days_before_month y m + days_in_month y m \<le> days_before_month y m'"
  using assms(2,1)
proof (induction m' rule: int_ge_induct)
  case base
  then show ?case by (simp add: days_before_month_Suc)
next
  case (step k)
  then show ?case using days_before_month_Suc [of k y] days_in_month_pos [of y k] by auto
qed

lemma ord2ymd_ymd2ord:
  assumes "1 \<le> m" "m \<le> 12" "1 \<le> d" "d \<le> days_in_month y m"
  shows "ord2ymd (ymd2ord y m d) = (y, m, d)"
proof -
  obtain y' m' d' where o: "ord2ymd (ymd2ord y m d) = (y', m', d')" by (metis prod_cases3)
  note c = ord2ymd_correct [OF o]
  have y1: "days_before_year y < ymd2ord y m d \<and> ymd2ord y m d \<le> days_before_year (y + 1)"
    using assms by (rule ymd2ord_less_year)
  have y2: "days_before_year y' < ymd2ord y m d \<and> ymd2ord y m d \<le> days_before_year (y' + 1)"
    using ymd2ord_less_year [OF c(2-5)] c(1) by simp
  have yy: "y' = y"
    using y1 y2 days_before_year_mono [of "y' + 1" y] days_before_year_mono [of "y + 1" y']
    by (cases y y' rule: linorder_cases) auto
  then have eq: "days_before_month y m' + d' = days_before_month y m + d" using c(1) by (simp add: ymd2ord_def)
  have "m' = m"
    using eq days_before_month_less [of m m' y] days_before_month_less [of m' m y] assms c yy
    by (cases m m' rule: linorder_cases) auto
  then show ?thesis using o yy eq by simp
qed

lemma first_of_month_stable:
  assumes "first_of_month n \<le> k" "k \<le> n"
  shows "first_of_month k = first_of_month n"
proof -
  obtain y m d where o: "ord2ymd n = (y, m, d)" by (metis prod_cases3)
  note c = ord2ymd_correct [OF o]
  have "k = ymd2ord y m (k - n + d)" using c(1) by (simp add: ymd2ord_def)
  moreover have "1 \<le> k - n + d" "k - n + d \<le> days_in_month y m"
    using assms c o by (auto simp: first_of_month_def ymd2ord_def)
  ultimately have "ord2ymd k = (y, m, k - n + d)" using ord2ymd_ymd2ord c by metis
  then show ?thesis using o by (simp add: first_of_month_def)
qed

lemma first_of_month_idem: "first_of_month (first_of_month n) = first_of_month n"
  using first_of_month_stable [of n "first_of_month n"] first_of_month_bounds(1) by simp

lemma first_of_month_mono: "k \<le> n \<Longrightarrow> first_of_month k \<le> first_of_month n"
  using first_of_month_stable [of n k] first_of_month_bounds(1) [of k]
  by (cases "first_of_month n \<le> k") auto

lemma utc_ms_mono [simp]: "utc_ms a \<le> utc_ms b \<longleftrightarrow> a \<le> b" "utc_ms a < utc_ms b \<longleftrightarrow> a < b"
  by (simp_all add: utc_ms_def day_ms_def)

lemma day_of_utc_ms [simp]: "day_of_ms (utc_ms a) = a"
  by (simp add: day_of_ms_def utc_ms_def day_ms_def)

lemma utc_ms_day_of: "utc_ms (day_of_ms t) \<le> t" "t < utc_ms (day_of_ms t) + day_ms"
proof -
  have "day_ms * (t div day_ms) + t mod day_ms = t" "0 \<le> t mod day_ms" "t mod day_ms < day_ms"
    by (rule mult_div_mod_eq, simp_all add: day_ms_def)
  moreover have "utc_ms (day_of_ms t) = day_ms * (t div day_ms)"
    by (simp add: utc_ms_def day_of_ms_def mult.commute)
  ultimately show "utc_ms (day_of_ms t) \<le> t" "t < utc_ms (day_of_ms t) + day_ms" by linarith+
qed

lemma day_of_ms_mono: "s \<le> t \<Longrightarrow> day_of_ms s \<le> day_of_ms t"
  by (simp add: day_of_ms_def day_ms_def zdiv_mono1)

lemma month_start_le: "month_start_ms t \<le> t"
  using first_of_month_bounds(1) [of "day_of_ms t"] utc_ms_day_of(1) [of t]
  by (simp add: month_start_ms_def) (meson order_trans utc_ms_mono(1))

lemma month_start_less: "t < month_start_ms t + 31 * day_ms"
  using first_of_month_bounds(2) [of "day_of_ms t"] utc_ms_day_of(2) [of t]
  by (simp add: month_start_ms_def utc_ms_def day_ms_def)

lemma month_start_idem: "month_start_ms (month_start_ms t) = month_start_ms t"
  by (simp add: month_start_ms_def first_of_month_idem)

lemma month_start_mono: "s \<le> t \<Longrightarrow> month_start_ms s \<le> month_start_ms t"
  by (simp add: month_start_ms_def first_of_month_mono day_of_ms_mono)

lemma fold_start_value [simp]: "0 \<le> t \<Longrightarrow> t < max_ms \<Longrightarrow> fold_start t = Inr (month_start_ms t)"
  by (simp add: fold_start_def)

lemma fold_start_Inr: "fold_start t = Inr f \<longleftrightarrow> 0 \<le> t \<and> t < max_ms \<and> f = month_start_ms t"
  by (auto simp: fold_start_def)


section \<open>The months of a range\<close>

lemma month_length: "first_of_month a = a \<Longrightarrow> first_of_month b = b \<Longrightarrow> a < b \<Longrightarrow> a + 28 \<le> b"
proof (rule ccontr)
  assume a: "first_of_month a = a" "first_of_month b = b" "a < b" and "\<not> a + 28 \<le> b"
  then have "first_of_month b \<le> first_of_month (a + 27)" by (intro first_of_month_mono) simp
  moreover have "first_of_month (a + 27) = a"
  proof -
    obtain y m d where o: "ord2ymd a = (y, m, d)" by (metis prod_cases3)
    note c = ord2ymd_correct [OF o]
    have d: "d = 1" using a(1) o c(1) by (simp add: first_of_month_def ymd2ord_def)
    have "28 \<le> days_in_month y m" by (simp add: days_in_month_def)
    then have "ord2ymd (ymd2ord y m 28) = (y, m, 28)" using c by (intro ord2ymd_ymd2ord) auto
    moreover have "a + 27 = ymd2ord y m 28" using c(1) d by (simp add: ymd2ord_def)
    ultimately show ?thesis using a(1) o by (simp add: first_of_month_def)
  qed
  ultimately show False using a by simp
qed

lemma next_month:
  assumes "first_of_month c = c"
  shows "c < first_of_month (c + 31)" "first_of_month b = b \<Longrightarrow> c < b \<Longrightarrow> first_of_month (c + 31) \<le> b"
proof -
  show less: "c < first_of_month (c + 31)" using first_of_month_bounds(2) [of "c + 31"] by simp
  assume b: "first_of_month b = b" "c < b"
  show "first_of_month (c + 31) \<le> b"
  proof (rule ccontr)
    assume "\<not> first_of_month (c + 31) \<le> b"
    then show False
      using month_length [OF assms b] month_length [OF b(1) first_of_month_idem [of "c + 31"]]
        first_of_month_bounds(1) [of "c + 31"] by simp
  qed
qed

lemma months_from_spec:
  "first_of_month c = c \<Longrightarrow>
   sorted_wrt (<) (months_from c stop) \<and> set (months_from c stop) = {m. first_of_month m = m \<and> c \<le> m \<and> m \<le> stop}"
proof (induction c stop rule: months_from.induct)
  case (1 c stop)
  show ?case
  proof (cases "c \<le> stop")
    case True
    then have IH: "sorted_wrt (<) (months_from (first_of_month (c + 31)) stop)"
      "set (months_from (first_of_month (c + 31)) stop)
        = {m. first_of_month m = m \<and> first_of_month (c + 31) \<le> m \<and> m \<le> stop}"
      using "1.IH" first_of_month_idem by blast+
    show ?thesis
      unfolding months_from.simps [of c stop] using True IH next_month [OF "1.prems"] "1.prems"
      by (auto simp: order_le_less)
  next
    case False
    then show ?thesis unfolding months_from.simps [of c stop] by auto
  qed
qed

text \<open>the months a range covers are listed completely and once each, in order: the list is strictly
  increasing and holds exactly the first-of-month dates from the month of \<open>start\<close> up to \<open>stop\<close>.\<close>

theorem months_between_complete:
  "sorted_wrt (<) (months_between start stop)
   \<and> set (months_between start stop) = {m. first_of_month m = m \<and> first_of_month start \<le> m \<and> m \<le> stop}"
  unfolding months_between_def by (rule months_from_spec) (rule first_of_month_idem)

end
