(* ===== verification/Accounting.thy ===== *)
theory Accounting
  imports Fees Calendar
begin

text \<open>
  \<open>strategy/accounting.py\<close>: the immutable long-spot/short-perp ledger. Every arithmetic operation of
  the ledger runs in \<open>Context(prec=50)\<close> and is rounded by \<^const>\<open>d50\<close>, in the order the code has them,
  so the model makes the ledger's rounding visible and the theorems bound it.
\<close>

section \<open>Arithmetic in the ledger's context\<close>

definition add50 :: "rat \<Rightarrow> rat \<Rightarrow> rat" where "add50 a b = d50 (a + b)"
definition sub50 :: "rat \<Rightarrow> rat \<Rightarrow> rat" where "sub50 a b = d50 (a - b)"
definition mul50 :: "rat \<Rightarrow> rat \<Rightarrow> rat" where "mul50 a b = d50 (a * b)"
definition div50 :: "rat \<Rightarrow> rat \<Rightarrow> rat" where "div50 a b = d50 (a / b)"
definition neg50 :: "rat \<Rightarrow> rat" where "neg50 a = d50 (- a)"
definition abs50 :: "rat \<Rightarrow> rat" where "abs50 a = d50 \<bar>a\<bar>"

lemmas ops50 = add50_def sub50_def mul50_def div50_def neg50_def abs50_def

section \<open>Events and state\<close>

definition settlement_guard_ms :: int where "settlement_guard_ms = 15000"

record fill =
  fl_event_id :: string
  fl_symbol :: string
  fl_time_ms :: int
  fl_market :: market
  fl_quantity :: pynum
  fl_price :: pynum
  fl_reference_mid :: pynum

record settlement =
  st_event_id :: string
  st_symbol :: string
  st_time_ms :: int
  st_interval_hours :: int
  st_rate :: pynum
  st_mark_price :: pynum

record marks =
  mk_symbol :: string
  mk_time_ms :: int
  mk_spot :: pynum
  mk_perp :: pynum

record leg =
  lg_quantity :: rat
  lg_basis :: rat
  lg_realized :: rat

definition empty_leg :: leg where
  "empty_leg = \<lparr>lg_quantity = 0, lg_basis = 0, lg_realized = 0\<rparr>"

definition leg_trade :: "leg \<Rightarrow> rat \<Rightarrow> rat \<Rightarrow> leg \<times> rat" where
  "leg_trade l quantity price =
     (let closing = mul50 (lg_quantity l) quantity < 0;
          (realized, basis) =
            (if closing
             then let average = div50 (lg_basis l) (lg_quantity l)
                  in (mul50 (neg50 quantity) (sub50 price average),
                      mul50 (add50 (lg_quantity l) quantity) average)
             else (0, add50 (lg_basis l) (mul50 quantity price)))
      in (\<lparr>lg_quantity = add50 (lg_quantity l) quantity, lg_basis = basis,
           lg_realized = add50 (lg_realized l) realized\<rparr>, realized))"

definition unrealized :: "leg \<Rightarrow> rat \<Rightarrow> rat" where
  "unrealized l mark = sub50 (mul50 (lg_quantity l) mark) (lg_basis l)"

record valuation =
  va_time_ms :: int
  va_cash :: rat
  va_spot_quantity :: rat
  va_perp_quantity :: rat
  va_price_pnl :: rat
  va_funding :: rat
  va_fees :: rat
  va_financing :: rat
  va_execution_cost :: rat
  va_gross_pnl :: rat
  va_net_pnl :: rat
  va_gross_equity :: rat
  va_net_equity :: rat

record ledger =
  ld_symbol :: string
  ld_initial :: rat
  ld_next_funding :: int
  ld_schedule :: fee_schedule
  ld_cash :: rat
  ld_time :: int
  ld_spot :: leg
  ld_perp :: leg
  ld_funding :: rat
  ld_fees :: rat
  ld_financing :: rat
  ld_execution_cost :: rat
  ld_last_funding :: "int option"
  ld_event_ids :: "string set"

section \<open>Operations\<close>

definition ledger_start :: "string \<Rightarrow> pynum \<Rightarrow> int \<Rightarrow> fee_schedule \<Rightarrow> ledger res" where
  "ledger_start symbol initial next_funding schedule =
     bnd (decimal initial ''initial_capital_usdt'' True) (\<lambda>capital.
     bnd (timestamp next_funding ''next_funding_ms'') (\<lambda>_.
       if symbol = [] \<or> next_funding mod hour_ms \<noteq> 0
       then Inl (ValueError ''Require symbol, explicit fees and nominal hourly funding boundary'')
       else Inr \<lparr>ld_symbol = symbol, ld_initial = capital, ld_next_funding = next_funding,
                 ld_schedule = schedule, ld_cash = capital, ld_time = 0, ld_spot = empty_leg,
                 ld_perp = empty_leg, ld_funding = 0, ld_fees = 0, ld_financing = 0,
                 ld_execution_cost = 0, ld_last_funding = None, ld_event_ids = {}\<rparr>))"

definition check_event :: "ledger \<Rightarrow> string \<Rightarrow> string \<Rightarrow> int \<Rightarrow> unit res" where
  "check_event l event_id symbol t =
     bnd (timestamp t ''time_ms'') (\<lambda>_.
       guard (event_id = [] \<or> event_id \<in> ld_event_ids l \<or> symbol \<noteq> ld_symbol l \<or> t < ld_time l)
         (ValueError ''Duplicate, backwards or out-of-scope accounting event''))"

definition perp_guarded :: "ledger \<Rightarrow> int \<Rightarrow> bool" where
  "perp_guarded l t \<longleftrightarrow>
     ld_next_funding l - t \<le> settlement_guard_ms
     \<or> (case ld_last_funding l of None \<Rightarrow> False | Some f \<Rightarrow> t - f \<le> settlement_guard_ms)"

definition get_leg :: "ledger \<Rightarrow> market \<Rightarrow> leg" where
  "get_leg l m = (case m of Spot \<Rightarrow> ld_spot l | Perp \<Rightarrow> ld_perp l)"

definition set_leg :: "market \<Rightarrow> leg \<Rightarrow> ledger \<Rightarrow> ledger" where
  "set_leg m g l = (case m of Spot \<Rightarrow> l\<lparr>ld_spot := g\<rparr> | Perp \<Rightarrow> l\<lparr>ld_perp := g\<rparr>)"

definition apply_fill :: "ledger \<Rightarrow> fill \<Rightarrow> rat \<Rightarrow> rat \<Rightarrow> rat \<Rightarrow> ledger res" where
  "apply_fill l e quantity price mid =
     (let (updated, realized) = leg_trade (get_leg l (fl_market e)) quantity price
      in bnd (guard (fl_market e = Spot \<and> lg_quantity updated < 0
                     \<or> fl_market e = Perp \<and> 0 < lg_quantity updated)
                (ValueError ''Fill reverses the allowed carry leg'')) (\<lambda>_.
         bnd (quote (ld_schedule l) (ld_symbol l) (fl_market e) (fl_time_ms e)) (\<lambda>rate.
           let fee = mul50 (mul50 (abs50 quantity) price) rate;
               cash_change = (case fl_market e of Spot \<Rightarrow> mul50 (neg50 quantity) price | Perp \<Rightarrow> realized)
           in Inr ((set_leg (fl_market e) updated l)
                \<lparr>ld_cash := sub50 (add50 (ld_cash l) cash_change) fee,
                 ld_fees := add50 (ld_fees l) fee,
                 ld_execution_cost := add50 (ld_execution_cost l) (mul50 quantity (sub50 price mid)),
                 ld_time := fl_time_ms e,
                 ld_event_ids := insert (fl_event_id e) (ld_event_ids l)\<rparr>))))"

definition ledger_fill :: "ledger \<Rightarrow> fill \<Rightarrow> ledger res" where
  "ledger_fill l e =
     bnd (check_event l (fl_event_id e) (fl_symbol e) (fl_time_ms e)) (\<lambda>_.
     bnd (decimal (fl_quantity e) ''quantity'' False) (\<lambda>quantity.
     bnd (decimal (fl_price e) ''price'' True) (\<lambda>price.
     bnd (decimal (fl_reference_mid e) ''reference_mid'' True) (\<lambda>mid.
     bnd (guard (quantity = 0) (ValueError ''Require nonzero actual spot/perp fill'')) (\<lambda>_.
     bnd (guard (ld_next_funding l \<le> fl_time_ms e)
            (ValueError ''Missing funding settlement before fill'')) (\<lambda>_.
     bnd (guard (fl_market e = Perp \<and> perp_guarded l (fl_time_ms e))
            (ValueError ''Perp fill has ambiguous settlement eligibility'')) (\<lambda>_.
       apply_fill l e quantity price mid)))))))"

definition ledger_settle :: "ledger \<Rightarrow> settlement \<Rightarrow> ledger res" where
  "ledger_settle l e =
     bnd (check_event l (st_event_id e) (st_symbol e) (st_time_ms e)) (\<lambda>_.
     bnd (decimal (st_rate e) ''rate'' False) (\<lambda>rate.
     bnd (decimal (st_mark_price e) ''mark_price'' True) (\<lambda>mark.
     bnd (guard (st_time_ms e \<noteq> ld_next_funding l \<or> \<not> (1 \<le> st_interval_hours e \<and> st_interval_hours e \<le> 24))
            (ValueError ''Missing/misaligned settlement or invalid per-row interval'')) (\<lambda>_.
       let payment = mul50 (mul50 (neg50 (lg_quantity (ld_perp l))) mark) rate
       in Inr (l\<lparr>ld_cash := add50 (ld_cash l) payment,
                 ld_funding := add50 (ld_funding l) payment,
                 ld_next_funding := st_time_ms e + st_interval_hours e * hour_ms,
                 ld_last_funding := Some (st_time_ms e),
                 ld_time := st_time_ms e,
                 ld_event_ids := insert (st_event_id e) (ld_event_ids l)\<rparr>)))))"

definition ledger_finance :: "ledger \<Rightarrow> string \<Rightarrow> int \<Rightarrow> pynum \<Rightarrow> ledger res" where
  "ledger_finance l event_id t cost_usdt =
     bnd (check_event l event_id (ld_symbol l) t) (\<lambda>_.
     bnd (decimal cost_usdt ''cost_usdt'' False) (\<lambda>cost.
     bnd (guard (cost < 0 \<or> ld_next_funding l \<le> t)
            (ValueError ''Negative financing or missing funding settlement'')) (\<lambda>_.
       Inr (l\<lparr>ld_cash := sub50 (ld_cash l) cost,
              ld_financing := add50 (ld_financing l) cost,
              ld_time := t,
              ld_event_ids := insert event_id (ld_event_ids l)\<rparr>))))"

definition ledger_value :: "ledger \<Rightarrow> marks \<Rightarrow> valuation res" where
  "ledger_value l m =
     bnd (timestamp (mk_time_ms m) ''time_ms'') (\<lambda>_.
     bnd (decimal (mk_spot m) ''spot mark'' True) (\<lambda>spot.
     bnd (decimal (mk_perp m) ''perp mark'' True) (\<lambda>perp.
     bnd (guard (mk_symbol m \<noteq> ld_symbol l \<or> mk_time_ms m < ld_time l \<or> ld_next_funding l \<le> mk_time_ms m)
            (ValueError ''Backwards/out-of-scope marks or missing funding settlement'')) (\<lambda>_.
       let price_pnl = add50 (add50 (add50 (lg_realized (ld_spot l)) (unrealized (ld_spot l) spot))
                                (lg_realized (ld_perp l)))
                         (unrealized (ld_perp l) perp);
           equity = add50 (add50 (ld_cash l) (mul50 (lg_quantity (ld_spot l)) spot))
                      (unrealized (ld_perp l) perp);
           net = sub50 equity (ld_initial l);
           gross = add50 (add50 price_pnl (ld_funding l)) (ld_execution_cost l)
       in Inr \<lparr>va_time_ms = mk_time_ms m, va_cash = ld_cash l,
               va_spot_quantity = lg_quantity (ld_spot l), va_perp_quantity = lg_quantity (ld_perp l),
               va_price_pnl = price_pnl, va_funding = ld_funding l, va_fees = ld_fees l,
               va_financing = ld_financing l, va_execution_cost = ld_execution_cost l,
               va_gross_pnl = gross, va_net_pnl = net,
               va_gross_equity = add50 (ld_initial l) gross, va_net_equity = equity\<rparr>))))"

text \<open>A run of the ledger: its state-changing calls in order, stopping at the first exception.\<close>

datatype ledger_event =
    EFill fill
  | ESettle settlement
  | EFinance string int pynum

fun ledger_step :: "ledger \<Rightarrow> ledger_event \<Rightarrow> ledger res" where
  "ledger_step l (EFill e) = ledger_fill l e"
| "ledger_step l (ESettle e) = ledger_settle l e"
| "ledger_step l (EFinance i t c) = ledger_finance l i t c"

definition ledger_run :: "ledger \<Rightarrow> ledger_event list \<Rightarrow> ledger res" where
  "ledger_run = fold_res ledger_step"

fun ev_time :: "ledger_event \<Rightarrow> int" where
  "ev_time (EFill e) = fl_time_ms e"
| "ev_time (ESettle e) = st_time_ms e"
| "ev_time (EFinance i t c) = t"

fun ev_id :: "ledger_event \<Rightarrow> string" where
  "ev_id (EFill e) = fl_event_id e"
| "ev_id (ESettle e) = st_event_id e"
| "ev_id (EFinance i t c) = i"


lemmas accounting_eval [eval_simps] =
  ledger_start_def ledger_run_def ledger_fill_def apply_fill_def leg_trade_def ledger_settle_def
  ledger_finance_def ledger_value_def check_event_def get_leg_def set_leg_def empty_leg_def
  unrealized_def perp_guarded_def settlement_guard_ms_def ops50

section \<open>What a successful operation did\<close>

lemma check_event_Inr [res_simps]:
  "check_event l i s t = Inr u \<longleftrightarrow>
     0 \<le> t \<and> i \<noteq> [] \<and> i \<notin> ld_event_ids l \<and> s = ld_symbol l \<and> ld_time l \<le> t"
  by (auto simp: check_event_def res_simps)

lemma ledger_fillE:
  assumes "ledger_fill l e = Inr l'"
  obtains q p m u rz rate where
    "fl_quantity e = Fin q" "fl_price e = Fin p" "fl_reference_mid e = Fin m" "q \<noteq> 0" "0 < p" "0 < m"
    "0 \<le> fl_time_ms e" "fl_event_id e \<noteq> []" "fl_event_id e \<notin> ld_event_ids l"
    "fl_symbol e = ld_symbol l" "ld_time l \<le> fl_time_ms e" "fl_time_ms e < ld_next_funding l"
    "fl_market e = Perp \<Longrightarrow> \<not> perp_guarded l (fl_time_ms e)"
    "leg_trade (get_leg l (fl_market e)) q p = (u, rz)"
    "fl_market e = Spot \<Longrightarrow> 0 \<le> lg_quantity u" "fl_market e = Perp \<Longrightarrow> lg_quantity u \<le> 0"
    "quote (ld_schedule l) (ld_symbol l) (fl_market e) (fl_time_ms e) = Inr rate"
    "l' = (set_leg (fl_market e) u l)
        \<lparr>ld_cash := sub50 (add50 (ld_cash l)
             (case fl_market e of Spot \<Rightarrow> mul50 (neg50 q) p | Perp \<Rightarrow> rz)) (mul50 (mul50 (abs50 q) p) rate),
         ld_fees := add50 (ld_fees l) (mul50 (mul50 (abs50 q) p) rate),
         ld_execution_cost := add50 (ld_execution_cost l) (mul50 q (sub50 p m)),
         ld_time := fl_time_ms e,
         ld_event_ids := insert (fl_event_id e) (ld_event_ids l)\<rparr>"
proof -
  from assms obtain q p m where
    h: "fl_quantity e = Fin q" "fl_price e = Fin p" "fl_reference_mid e = Fin m" "q \<noteq> 0" "0 < p" "0 < m"
    "0 \<le> fl_time_ms e" "fl_event_id e \<noteq> []" "fl_event_id e \<notin> ld_event_ids l"
    "fl_symbol e = ld_symbol l" "ld_time l \<le> fl_time_ms e" "fl_time_ms e < ld_next_funding l"
    "fl_market e = Perp \<Longrightarrow> \<not> perp_guarded l (fl_time_ms e)"
    and a: "apply_fill l e q p m = Inr l'"
    by (auto simp: ledger_fill_def res_simps)
  obtain u rz where u: "leg_trade (get_leg l (fl_market e)) q p = (u, rz)" by (metis prod.exhaust)
  from a u obtain rate where
    "\<not> (fl_market e = Spot \<and> lg_quantity u < 0 \<or> fl_market e = Perp \<and> 0 < lg_quantity u)"
    "quote (ld_schedule l) (ld_symbol l) (fl_market e) (fl_time_ms e) = Inr rate"
    "l' = (set_leg (fl_market e) u l)
        \<lparr>ld_cash := sub50 (add50 (ld_cash l)
             (case fl_market e of Spot \<Rightarrow> mul50 (neg50 q) p | Perp \<Rightarrow> rz)) (mul50 (mul50 (abs50 q) p) rate),
         ld_fees := add50 (ld_fees l) (mul50 (mul50 (abs50 q) p) rate),
         ld_execution_cost := add50 (ld_execution_cost l) (mul50 q (sub50 p m)),
         ld_time := fl_time_ms e,
         ld_event_ids := insert (fl_event_id e) (ld_event_ids l)\<rparr>"
    by (auto simp: apply_fill_def Let_def res_simps)
  then show thesis using h u by (intro that [of q p m u rz rate]) auto
qed

lemma ledger_settleE:
  assumes "ledger_settle l e = Inr l'"
  obtains r m where
    "st_rate e = Fin r" "st_mark_price e = Fin m" "0 < m" "st_time_ms e = ld_next_funding l"
    "1 \<le> st_interval_hours e" "st_interval_hours e \<le> 24"
    "0 \<le> st_time_ms e" "st_event_id e \<noteq> []" "st_event_id e \<notin> ld_event_ids l"
    "st_symbol e = ld_symbol l" "ld_time l \<le> st_time_ms e"
    "l' = l\<lparr>ld_cash := add50 (ld_cash l) (mul50 (mul50 (neg50 (lg_quantity (ld_perp l))) m) r),
            ld_funding := add50 (ld_funding l) (mul50 (mul50 (neg50 (lg_quantity (ld_perp l))) m) r),
            ld_next_funding := st_time_ms e + st_interval_hours e * hour_ms,
            ld_last_funding := Some (st_time_ms e), ld_time := st_time_ms e,
            ld_event_ids := insert (st_event_id e) (ld_event_ids l)\<rparr>"
  using assms unfolding ledger_settle_def Let_def by (auto simp: res_simps)

lemma ledger_financeE:
  assumes "ledger_finance l i t c = Inr l'"
  obtains cost where
    "c = Fin cost" "0 \<le> cost" "t < ld_next_funding l" "0 \<le> t" "i \<noteq> []" "i \<notin> ld_event_ids l" "ld_time l \<le> t"
    "l' = l\<lparr>ld_cash := sub50 (ld_cash l) cost, ld_financing := add50 (ld_financing l) cost,
            ld_time := t, ld_event_ids := insert i (ld_event_ids l)\<rparr>"
  using assms unfolding ledger_finance_def by (auto simp: res_simps)

section \<open>The ledger invariant\<close>

definition spot_ok :: "leg \<Rightarrow> bool" where
  "spot_ok g \<longleftrightarrow> 0 \<le> lg_quantity g \<and> 0 \<le> lg_basis g \<and> (lg_quantity g = 0 \<longrightarrow> lg_basis g = 0)"

definition perp_ok :: "leg \<Rightarrow> bool" where
  "perp_ok g \<longleftrightarrow> lg_quantity g \<le> 0 \<and> lg_basis g \<le> 0 \<and> (lg_quantity g = 0 \<longrightarrow> lg_basis g = 0)"

definition ledger_inv :: "ledger \<Rightarrow> bool" where
  "ledger_inv l \<longleftrightarrow>
     valid_schedule (ld_schedule l) \<and> 0 < ld_initial l \<and> 0 \<le> ld_time l \<and> ld_time l \<le> ld_next_funding l
     \<and> ld_next_funding l mod hour_ms = 0
     \<and> (case ld_last_funding l of None \<Rightarrow> True
        | Some f \<Rightarrow> 0 \<le> f \<and> f \<le> ld_time l \<and> f mod hour_ms = 0 \<and> f + hour_ms \<le> ld_next_funding l)
     \<and> spot_ok (ld_spot l) \<and> perp_ok (ld_perp l) \<and> 0 \<le> ld_fees l \<and> 0 \<le> ld_financing l"

lemma leg_trade_open:
  "\<not> lg_quantity g * q < 0 \<Longrightarrow>
   leg_trade g q p =
     (\<lparr>lg_quantity = add50 (lg_quantity g) q, lg_basis = add50 (lg_basis g) (mul50 q p),
       lg_realized = add50 (lg_realized g) 0\<rparr>, 0)"
  by (simp add: leg_trade_def mul50_def)

lemma leg_trade_close:
  "lg_quantity g * q < 0 \<Longrightarrow> avg = div50 (lg_basis g) (lg_quantity g) \<Longrightarrow>
   rz = mul50 (neg50 q) (sub50 p avg) \<Longrightarrow>
   leg_trade g q p =
     (\<lparr>lg_quantity = add50 (lg_quantity g) q, lg_basis = mul50 (add50 (lg_quantity g) q) avg,
       lg_realized = add50 (lg_realized g) rz\<rparr>, rz)"
  by (simp add: leg_trade_def mul50_def Let_def)

lemma leg_trade_quantity: "leg_trade g q p = (u, rz) \<Longrightarrow> lg_quantity u = add50 (lg_quantity g) q"
  by (auto simp: leg_trade_def Let_def split: if_splits)

lemma leg_trade_spot_ok:
  assumes "spot_ok g" "leg_trade g q p = (u, rz)" "q \<noteq> 0" "0 < p" "0 \<le> lg_quantity u"
  shows "spot_ok u"
proof -
  have sum: "0 \<le> lg_quantity g + q"
    using assms(5) leg_trade_quantity [OF assms(2)] d50.rd_neg_iff [of "lg_quantity g + q"]
    by (auto simp: add50_def not_less [symmetric])
  have base: "0 \<le> lg_quantity g" "0 \<le> lg_basis g" using assms(1) by (auto simp: spot_ok_def)
  show ?thesis
  proof (cases "lg_quantity g * q < 0")
    case True
    have "0 \<le> d50 (lg_basis g / lg_quantity g)" using base by (intro d50.rd_nonneg) auto
    then show ?thesis
      using assms(2) sum unfolding leg_trade_close [OF True refl refl]
      by (auto simp: spot_ok_def ops50 intro!: d50.rd_nonneg mult_nonneg_nonneg)
  next
    case False
    then have "0 < q" using sum base assms(3) by (cases "lg_quantity g = 0") (auto simp: not_less zero_le_mult_iff)
    then have "0 \<le> add50 (lg_basis g) (mul50 q p)"
      using base assms(4) by (auto simp: ops50 intro!: d50.rd_nonneg add_nonneg_nonneg)
    moreover have "lg_quantity g + q \<noteq> 0" using \<open>0 < q\<close> base by linarith
    ultimately show ?thesis
      using assms(2) sum unfolding leg_trade_open [OF False]
      by (auto simp: spot_ok_def add50_def intro: d50.rd_nonneg)
  qed
qed

lemma leg_trade_perp_ok:
  assumes "perp_ok g" "leg_trade g q p = (u, rz)" "q \<noteq> 0" "0 < p" "lg_quantity u \<le> 0"
  shows "perp_ok u"
proof -
  have sum: "lg_quantity g + q \<le> 0"
    using assms(5) leg_trade_quantity [OF assms(2)] d50.rd_pos_iff [of "lg_quantity g + q"]
    by (auto simp: add50_def not_less [symmetric])
  have base: "lg_quantity g \<le> 0" "lg_basis g \<le> 0" using assms(1) by (auto simp: perp_ok_def)
  show ?thesis
  proof (cases "lg_quantity g * q < 0")
    case True
    have "0 \<le> d50 (lg_basis g / lg_quantity g)" using base by (intro d50.rd_nonneg divide_nonpos_nonpos)
    then have "d50 (lg_quantity g + q) * d50 (lg_basis g / lg_quantity g) \<le> 0"
      using sum d50.rd_nonpos by (intro mult_nonpos_nonneg) auto
    then show ?thesis
      using assms(2) sum unfolding leg_trade_close [OF True refl refl]
      by (auto simp: perp_ok_def ops50 intro!: d50.rd_nonpos)
  next
    case False
    then have q: "q < 0" using sum base assms(3) by (cases "lg_quantity g = 0") (auto simp: not_less zero_le_mult_iff)
    have "d50 (q * p) \<le> 0" using q assms(4) by (intro d50.rd_nonpos mult_nonpos_nonneg) auto
    then have "add50 (lg_basis g) (mul50 q p) \<le> 0"
      using base by (auto simp: ops50 intro!: d50.rd_nonpos)
    moreover have "lg_quantity g + q \<noteq> 0" using q base by linarith
    ultimately show ?thesis
      using assms(2) sum unfolding leg_trade_open [OF False]
      by (auto simp: perp_ok_def add50_def intro: d50.rd_nonpos)
  qed
qed

lemma ledger_fill_inv:
  assumes "ledger_inv l" "ledger_fill l e = Inr l'"
  shows "ledger_inv l'"
proof -
  from assms(2) obtain q p m u rz rate where
    f: "q \<noteq> 0" "0 < p" "ld_time l \<le> fl_time_ms e" "fl_time_ms e < ld_next_funding l" "0 \<le> fl_time_ms e"
    "leg_trade (get_leg l (fl_market e)) q p = (u, rz)"
    "fl_market e = Spot \<Longrightarrow> 0 \<le> lg_quantity u" "fl_market e = Perp \<Longrightarrow> lg_quantity u \<le> 0"
    "quote (ld_schedule l) (ld_symbol l) (fl_market e) (fl_time_ms e) = Inr rate"
    and l': "l' = (set_leg (fl_market e) u l)
        \<lparr>ld_cash := sub50 (add50 (ld_cash l)
             (case fl_market e of Spot \<Rightarrow> mul50 (neg50 q) p | Perp \<Rightarrow> rz)) (mul50 (mul50 (abs50 q) p) rate),
         ld_fees := add50 (ld_fees l) (mul50 (mul50 (abs50 q) p) rate),
         ld_execution_cost := add50 (ld_execution_cost l) (mul50 q (sub50 p m)),
         ld_time := fl_time_ms e,
         ld_event_ids := insert (fl_event_id e) (ld_event_ids l)\<rparr>"
    by (rule ledger_fillE) blast
  have leg: "fl_market e = Spot \<Longrightarrow> spot_ok u" "fl_market e = Perp \<Longrightarrow> perp_ok u"
    using assms(1) f leg_trade_spot_ok leg_trade_perp_ok
    by (auto simp: get_leg_def ledger_inv_def)
  have "0 \<le> mul50 (abs50 q) p" using f by (auto simp: ops50 intro!: d50.rd_nonneg mult_nonneg_nonneg)
  then have "0 \<le> mul50 (abs50 q) p * rate"
    using assms(1) f(9) fees.fee_nonneg by (auto simp: ledger_inv_def)
  then have "0 \<le> mul50 (mul50 (abs50 q) p) rate" by (auto simp: mul50_def [of _ rate] intro: d50.rd_nonneg)
  then have fee: "0 \<le> add50 (ld_fees l) (mul50 (mul50 (abs50 q) p) rate)"
    using assms(1) by (auto simp: add50_def ledger_inv_def intro!: d50.rd_nonneg)
  show ?thesis
    using assms(1) f(3-5) leg fee unfolding l'
    by (auto simp: ledger_inv_def set_leg_def split: market.splits option.splits)
qed

lemma ledger_settle_inv:
  assumes "ledger_inv l" "ledger_settle l e = Inr l'"
  shows "ledger_inv l'"
  using assms(2)
proof (rule ledger_settleE)
  fix r m
  assume a: "st_time_ms e = ld_next_funding l" "1 \<le> st_interval_hours e" "0 \<le> st_time_ms e"
    and l': "l' = l\<lparr>ld_cash := add50 (ld_cash l) (mul50 (mul50 (neg50 (lg_quantity (ld_perp l))) m) r),
            ld_funding := add50 (ld_funding l) (mul50 (mul50 (neg50 (lg_quantity (ld_perp l))) m) r),
            ld_next_funding := st_time_ms e + st_interval_hours e * hour_ms,
            ld_last_funding := Some (st_time_ms e), ld_time := st_time_ms e,
            ld_event_ids := insert (st_event_id e) (ld_event_ids l)\<rparr>"
  have "hour_ms \<le> st_interval_hours e * hour_ms" "0 \<le> st_interval_hours e * hour_ms"
    using a(2) by (simp_all add: hour_ms_def)
  then show ?thesis
    using assms(1) a unfolding l' by (auto simp: ledger_inv_def)
qed

lemma ledger_finance_inv:
  assumes "ledger_inv l" "ledger_finance l i t c = Inr l'"
  shows "ledger_inv l'"
  using assms(2)
proof (rule ledger_financeE)
  fix cost
  assume a: "0 \<le> cost" "t < ld_next_funding l" "0 \<le> t" "ld_time l \<le> t"
    and l': "l' = l\<lparr>ld_cash := sub50 (ld_cash l) cost, ld_financing := add50 (ld_financing l) cost,
            ld_time := t, ld_event_ids := insert i (ld_event_ids l)\<rparr>"
  have "0 \<le> add50 (ld_financing l) cost"
    using assms(1) a(1) by (auto simp: add50_def ledger_inv_def intro!: d50.rd_nonneg)
  then show ?thesis
    using assms(1) a unfolding l' by (auto simp: ledger_inv_def split: option.splits)
qed

lemma ledger_step_inv: "ledger_inv l \<Longrightarrow> ledger_step l e = Inr l' \<Longrightarrow> ledger_inv l'"
  by (cases e) (auto intro: ledger_fill_inv ledger_settle_inv ledger_finance_inv)

lemma ledger_start_inv:
  "ledger_start symbol initial next_funding schedule = Inr l \<Longrightarrow> valid_schedule schedule \<Longrightarrow> ledger_inv l"
  by (auto simp: ledger_start_def res_simps ledger_inv_def empty_leg_def spot_ok_def perp_ok_def
      split: if_splits)

lemma ledger_run_inv: "ledger_inv l \<Longrightarrow> ledger_run l es = Inr l' \<Longrightarrow> ledger_inv l'"
  unfolding ledger_run_def by (rule fold_res_invariant [where P = ledger_inv]) (auto intro: ledger_step_inv)


section \<open>Rounding errors of single operations\<close>

definition ulp50 :: rat where \<comment> \<open>relative error of one operation\<close>
  "ulp50 = 5 / 10 ^ 50"

lemma deps50: "deps 50 = ulp50"
  by (simp add: deps_def ulp50_def power_int_def field_simps)

lemma d50_err: "\<bar>d50 x - x\<bar> \<le> ulp50 * \<bar>x\<bar>"
  using d50.rd_error [of x] by (simp add: deps50)

lemma ulp50_small: "0 \<le> ulp50" "ulp50 \<le> 1 / 1000"
  by (simp_all add: ulp50_def)

lemma d50_mag: "\<bar>d50 x\<bar> \<le> 2 * \<bar>x\<bar>"
proof -
  have "ulp50 * \<bar>x\<bar> \<le> 1 * \<bar>x\<bar>" by (intro mult_right_mono) (auto simp: ulp50_def)
  then show ?thesis using d50_err [of x] by linarith
qed

lemma d50_bounded: "\<bar>x\<bar> \<le> c * M \<Longrightarrow> \<bar>d50 x - x\<bar> \<le> c * (ulp50 * M)"
  using order_trans [OF d50_err mult_left_mono [OF _ ulp50_small(1)]] by (simp add: mult.left_commute)

text \<open>A product with one or two factors rounded beforehand.\<close>

lemma d50_factor: "\<bar>d50 a * b - a * b\<bar> \<le> ulp50 * \<bar>a * b\<bar>"
proof -
  have "\<bar>d50 a * b - a * b\<bar> = \<bar>d50 a - a\<bar> * \<bar>b\<bar>" by (simp add: left_diff_distrib flip: abs_mult)
  also have "\<dots> \<le> ulp50 * \<bar>a\<bar> * \<bar>b\<bar>" by (intro mult_right_mono d50_err) auto
  finally show ?thesis by (simp add: abs_mult mult.assoc)
qed

lemma mul50_err1: "\<bar>mul50 (d50 a) b - a * b\<bar> \<le> 3 * (ulp50 * \<bar>a * b\<bar>)"
proof -
  have f: "\<bar>d50 a * b - a * b\<bar> \<le> ulp50 * \<bar>a * b\<bar>" by (rule d50_factor)
  have "ulp50 * \<bar>a * b\<bar> \<le> 1 * \<bar>a * b\<bar>" by (intro mult_right_mono) (auto simp: ulp50_def)
  then have "\<bar>d50 a * b\<bar> \<le> 2 * \<bar>a * b\<bar>" using f by linarith
  then have "\<bar>mul50 (d50 a) b - d50 a * b\<bar> \<le> 2 * (ulp50 * \<bar>a * b\<bar>)"
    unfolding mul50_def by (rule d50_bounded)
  then show ?thesis using f by linarith
qed

lemma mul50_err2: "\<bar>mul50 (d50 a) (d50 b) - a * b\<bar> \<le> 6 * (ulp50 * \<bar>a * b\<bar>)"
proof -
  have "\<bar>a * d50 b - a * b\<bar> \<le> ulp50 * \<bar>a * b\<bar>" using d50_factor [of b a] by (simp add: mult.commute)
  moreover have "ulp50 * \<bar>a * b\<bar> \<le> 1 / 1000 * \<bar>a * b\<bar>" by (intro mult_right_mono ulp50_small) auto
  ultimately have s: "\<bar>a * d50 b\<bar> \<le> 5 / 3 * \<bar>a * b\<bar>" by linarith
  have "3 * (ulp50 * \<bar>a * d50 b\<bar>) \<le> 3 * (ulp50 * (5 / 3 * \<bar>a * b\<bar>))"
    using s by (intro mult_left_mono ulp50_small) auto
  then show ?thesis using mul50_err1 [of a "d50 b"] \<open>\<bar>a * d50 b - a * b\<bar> \<le> ulp50 * \<bar>a * b\<bar>\<close> by linarith
qed

section \<open>Average cost: realized minus basis tracks the traded cash\<close>

text \<open>Closing quantities stay inside the leg.\<close>

definition leg_scale :: "leg \<Rightarrow> rat \<Rightarrow> rat \<Rightarrow> rat \<Rightarrow> bool" where
  "leg_scale g q p M \<longleftrightarrow> \<bar>q * p\<bar> \<le> M \<and> \<bar>lg_basis g\<bar> \<le> M \<and> \<bar>lg_realized g\<bar> \<le> M"

lemma leg_open_cash:
  assumes "leg_scale g q p M" "\<not> lg_quantity g * q < 0" "leg_trade g q p = (u, rz)"
  shows "\<bar>(lg_realized u - lg_basis u) - (lg_realized g - lg_basis g) + q * p\<bar> \<le> 5 * (ulp50 * M)"
    and "rz = 0"
proof -
  have u: "lg_basis u = d50 (lg_basis g + d50 (q * p))" "lg_realized u = d50 (lg_realized g)" "rz = 0"
    using assms(3) unfolding leg_trade_open [OF assms(2)] by (auto simp: ops50)
  have M: "\<bar>q * p\<bar> \<le> 1 * M" "\<bar>lg_basis g\<bar> \<le> M" "\<bar>lg_realized g\<bar> \<le> 1 * M"
    using assms(1) by (auto simp: leg_scale_def)
  have "\<bar>lg_basis g + d50 (q * p)\<bar> \<le> 3 * M" using M d50_mag [of "q * p"] by linarith
  then have "\<bar>d50 (lg_basis g + d50 (q * p)) - (lg_basis g + d50 (q * p))\<bar> \<le> 3 * (ulp50 * M)"
    by (rule d50_bounded)
  moreover have "\<bar>d50 (q * p) - q * p\<bar> \<le> 1 * (ulp50 * M)" using M(1) by (rule d50_bounded)
  moreover have "\<bar>d50 (lg_realized g) - lg_realized g\<bar> \<le> 1 * (ulp50 * M)" using M(3) by (rule d50_bounded)
  ultimately show "\<bar>(lg_realized u - lg_basis u) - (lg_realized g - lg_basis g) + q * p\<bar> \<le> 5 * (ulp50 * M)"
    unfolding u by linarith
  show "rz = 0" by (rule u)
qed

lemma leg_close_cash:
  assumes "leg_scale g q p M" "lg_quantity g * q < 0" "\<bar>q\<bar> \<le> \<bar>lg_quantity g\<bar>" "leg_trade g q p = (u, rz)"
  shows "\<bar>(lg_realized u - lg_basis u) - (lg_realized g - lg_basis g) + q * p\<bar> \<le> 60 * (ulp50 * M)"
    and "\<bar>rz\<bar> \<le> 6 * M"
proof -
  define Q B avg where "Q = lg_quantity g" and "B = lg_basis g" and "avg = d50 (B / Q)"
  have Q: "Q \<noteq> 0" using assms(2) by (auto simp: Q_def)
  have u: "lg_basis u = mul50 (d50 (Q + q)) avg" "rz = mul50 (d50 (- q)) (d50 (p - avg))"
      "lg_realized u = d50 (lg_realized g + rz)"
    using assms(4) unfolding leg_trade_close [OF assms(2) refl refl] by (auto simp: ops50 Q_def B_def avg_def)
  have M: "\<bar>q * p\<bar> \<le> M" "\<bar>B\<bar> \<le> M" "\<bar>lg_realized g\<bar> \<le> M" using assms(1) by (auto simp: leg_scale_def B_def)
  have "\<bar>avg * Q - B / Q * Q\<bar> \<le> ulp50 * \<bar>B / Q * Q\<bar>" unfolding avg_def by (rule d50_factor)
  moreover have "B / Q * Q = B" using Q by simp
  ultimately have qa: "\<bar>avg * Q - B\<bar> \<le> ulp50 * \<bar>B\<bar>" by simp
  have ub: "ulp50 * \<bar>B\<bar> \<le> ulp50 * M" using M(2) by (intro mult_left_mono ulp50_small)
  have ub2: "ulp50 * M \<le> 1 / 1000 * M" using M(2) by (intro mult_right_mono ulp50_small) linarith
  have Qavg: "\<bar>avg * Q\<bar> \<le> 2 * M" using qa ub ub2 M(2) by linarith
  have "\<bar>q * avg\<bar> \<le> \<bar>avg * Q\<bar>" using assms(3) by (simp add: abs_mult Q_def mult.commute mult_left_mono)
  then have qavg: "\<bar>q * avg\<bar> \<le> 2 * M" using Qavg by linarith
  have rz0: "\<bar>(- q) * (p - avg)\<bar> \<le> 3 * M" using M(1) qavg by (simp add: algebra_simps)
  have b0: "\<bar>(Q + q) * avg\<bar> \<le> 4 * M" using Qavg qavg by (simp add: algebra_simps)
  have rz: "\<bar>rz - (- q) * (p - avg)\<bar> \<le> 18 * (ulp50 * M)"
    using order_trans [OF mul50_err2 mult_left_mono [OF mult_left_mono [OF rz0 ulp50_small(1)]]]
    unfolding u(2) by (simp add: mult.left_commute)
  have b: "\<bar>lg_basis u - (Q + q) * avg\<bar> \<le> 12 * (ulp50 * M)"
    using order_trans [OF mul50_err1 mult_left_mono [OF mult_left_mono [OF b0 ulp50_small(1)]]]
    unfolding u(1) by (simp add: mult.left_commute)
  show rzM: "\<bar>rz\<bar> \<le> 6 * M" using rz rz0 ub2 by linarith
  have "\<bar>lg_realized g + rz\<bar> \<le> 7 * M" using M(3) rzM by linarith
  then have r: "\<bar>lg_realized u - (lg_realized g + rz)\<bar> \<le> 7 * (ulp50 * M)" unfolding u(3) by (rule d50_bounded)
  have "(- q) * (p - avg) - (Q + q) * avg + B + q * p = B - avg * Q" by (simp add: algebra_simps)
  then show "\<bar>(lg_realized u - lg_basis u) - (lg_realized g - lg_basis g) + q * p\<bar> \<le> 60 * (ulp50 * M)"
    using rz b r qa ub unfolding B_def [symmetric] by linarith
qed


section \<open>Cash conservation\<close>

text \<open>
  What the cash account should be: initial capital plus funding, less fees and financing, plus the
  cash the spot leg has returned net of its cost (realized minus remaining basis) and the realized
  result of the perp leg (a linear contract moves no notional). The drift is the deviation.
\<close>

definition drift :: "ledger \<Rightarrow> rat" where
  "drift l =
     ld_cash l - (ld_initial l + ld_funding l - ld_fees l - ld_financing l
       + (lg_realized (ld_spot l) - lg_basis (ld_spot l)) + lg_realized (ld_perp l))"

definition ledger_scale :: "rat \<Rightarrow> ledger \<Rightarrow> bool" where
  "ledger_scale M l \<longleftrightarrow>
     \<bar>ld_cash l\<bar> \<le> M \<and> \<bar>ld_funding l\<bar> \<le> M \<and> \<bar>ld_fees l\<bar> \<le> M \<and> \<bar>ld_financing l\<bar> \<le> M
     \<and> \<bar>lg_basis (ld_spot l)\<bar> \<le> M \<and> \<bar>lg_realized (ld_spot l)\<bar> \<le> M
     \<and> \<bar>lg_basis (ld_perp l)\<bar> \<le> M \<and> \<bar>lg_realized (ld_perp l)\<bar> \<le> M"

fun event_scale :: "rat \<Rightarrow> ledger \<Rightarrow> ledger_event \<Rightarrow> bool" where
  "event_scale M l (EFill e) =
     (case (fl_quantity e, fl_price e) of (Fin q, Fin p) \<Rightarrow> \<bar>q * p\<bar> \<le> M | _ \<Rightarrow> True)"
| "event_scale M l (ESettle e) =
     (case (st_rate e, st_mark_price e) of
        (Fin r, Fin m) \<Rightarrow> \<bar>lg_quantity (ld_perp l) * m\<bar> \<le> M \<and> \<bar>lg_quantity (ld_perp l) * m * r\<bar> \<le> M
      | _ \<Rightarrow> True)"
| "event_scale M l (EFinance i t c) = (case c of Fin x \<Rightarrow> \<bar>x\<bar> \<le> M | _ \<Rightarrow> True)"

text \<open>Two roundings of a cash update, and one of each other account.\<close>

lemma two_updates:
  assumes "\<bar>c\<bar> \<le> M" "\<bar>x\<bar> \<le> 6 * M" "\<bar>fee\<bar> \<le> 4 * M"
  shows "\<bar>sub50 (add50 c x) fee - (c + x - fee)\<bar> \<le> 25 * (ulp50 * M)"
proof -
  have s: "\<bar>c + x\<bar> \<le> 7 * M" using assms by linarith
  have "\<bar>d50 (c + x)\<bar> \<le> 2 * (7 * M)"
    using d50_mag [of "c + x"] mult_left_mono [OF s, of 2] by (rule order_trans) simp
  then have "\<bar>d50 (c + x) - fee\<bar> \<le> 18 * M" using assms(3) by linarith
  then have "\<bar>d50 (d50 (c + x) - fee) - (d50 (c + x) - fee)\<bar> \<le> 18 * (ulp50 * M)" by (rule d50_bounded)
  moreover have "\<bar>d50 (c + x) - (c + x)\<bar> \<le> 7 * (ulp50 * M)" using s by (rule d50_bounded)
  ultimately show ?thesis unfolding ops50 by linarith
qed

lemma one_update:
  assumes "\<bar>c\<bar> \<le> M" "\<bar>x\<bar> \<le> 6 * M"
  shows "\<bar>add50 c x - (c + x)\<bar> \<le> 7 * (ulp50 * M)"
  unfolding add50_def using assms by (intro d50_bounded) linarith

lemma fee_mag:
  assumes "\<bar>q * p\<bar> \<le> M" "0 < p" "0 \<le> r" "r < 1"
  shows "\<bar>mul50 (mul50 (abs50 q) p) r\<bar> \<le> 4 * M"
proof -
  have M: "0 \<le> M" using assms(1) by linarith
  have a: "\<bar>\<bar>q\<bar> * p\<bar> \<le> M" using assms(1,2) by (simp add: abs_mult)
  have "3 * (ulp50 * \<bar>\<bar>q\<bar> * p\<bar>) \<le> 3 * (1 / 1000 * M)"
    using a M by (intro mult_left_mono mult_mono ulp50_small) auto
  then have n: "\<bar>mul50 (abs50 q) p\<bar> \<le> 2 * M"
    using mul50_err1 [of "\<bar>q\<bar>" p] a M unfolding abs50_def by linarith
  have "\<bar>mul50 (abs50 q) p\<bar> * r \<le> \<bar>mul50 (abs50 q) p\<bar> * 1" using assms(3,4) by (intro mult_left_mono) auto
  then have "\<bar>mul50 (abs50 q) p * r\<bar> \<le> 2 * M" using n assms(3) by (simp add: abs_mult)
  then show ?thesis using d50_mag [of "mul50 (abs50 q) p * r"] by (simp add: mul50_def [of _ r])
qed

lemma signed_cash:
  assumes "\<bar>q * p\<bar> \<le> M"
  shows "\<bar>mul50 (neg50 q) p - (- (q * p))\<bar> \<le> 3 * (ulp50 * M)" "\<bar>mul50 (neg50 q) p\<bar> \<le> 2 * M"
proof -
  have "3 * (ulp50 * \<bar>(- q) * p\<bar>) \<le> 3 * (ulp50 * M)" using assms by (intro mult_left_mono ulp50_small) auto
  then show e: "\<bar>mul50 (neg50 q) p - (- (q * p))\<bar> \<le> 3 * (ulp50 * M)"
    using mul50_err1 [of "- q" p] unfolding neg50_def by simp
  have "ulp50 * M \<le> 1 / 1000 * M" using assms by (intro mult_right_mono ulp50_small) linarith
  then show "\<bar>mul50 (neg50 q) p\<bar> \<le> 2 * M" using e assms by linarith
qed

lemma leg_cash:
  assumes "leg_scale g q p M" "leg_trade g q p = (u, rz)"
    and "spot_ok g \<and> 0 \<le> lg_quantity u \<or> perp_ok g \<and> lg_quantity u \<le> 0"
  shows "\<bar>(lg_realized u - lg_basis u) - (lg_realized g - lg_basis g) + q * p\<bar> \<le> 60 * (ulp50 * M)"
    and "\<bar>rz\<bar> \<le> 6 * M" and "lg_realized u = add50 (lg_realized g) rz"
proof -
  have M: "0 \<le> M" using assms(1) by (auto simp: leg_scale_def)
  have sign: "0 \<le> lg_quantity u \<longleftrightarrow> 0 \<le> lg_quantity g + q" "lg_quantity u \<le> 0 \<longleftrightarrow> lg_quantity g + q \<le> 0"
    using leg_trade_quantity [OF assms(2)] d50.rd_neg_iff d50.rd_pos_iff
    by (auto simp: add50_def not_less [symmetric])
  show "lg_realized u = add50 (lg_realized g) rz"
    using assms(2) by (auto simp: leg_trade_def Let_def split: if_splits)
  have "\<bar>(lg_realized u - lg_basis u) - (lg_realized g - lg_basis g) + q * p\<bar> \<le> 60 * (ulp50 * M) \<and> \<bar>rz\<bar> \<le> 6 * M"
  proof (cases "lg_quantity g * q < 0")
    case True
    then have "\<bar>q\<bar> \<le> \<bar>lg_quantity g\<bar>"
      using assms(3) sign by (auto simp: spot_ok_def perp_ok_def mult_less_0_iff)
    then show ?thesis using leg_close_cash [OF assms(1) True _ assms(2)] by blast
  next
    case False
    have "0 \<le> ulp50 * M" using M ulp50_small by simp
    then show ?thesis using leg_open_cash [OF assms(1) False assms(2)] M by (auto intro: order_trans)
  qed
  then show "\<bar>(lg_realized u - lg_basis u) - (lg_realized g - lg_basis g) + q * p\<bar> \<le> 60 * (ulp50 * M)"
    "\<bar>rz\<bar> \<le> 6 * M" by blast+
qed

lemma ledger_fill_drift:
  assumes "ledger_inv l" "ledger_scale M l" "event_scale M l (EFill e)" "ledger_fill l e = Inr l'"
  shows "\<bar>drift l' - drift l\<bar> \<le> 200 * (ulp50 * M)"
proof -
  from assms(4) obtain q p m u rz rate where
    f: "fl_quantity e = Fin q" "fl_price e = Fin p" "0 < p"
    "leg_trade (get_leg l (fl_market e)) q p = (u, rz)"
    "fl_market e = Spot \<Longrightarrow> 0 \<le> lg_quantity u" "fl_market e = Perp \<Longrightarrow> lg_quantity u \<le> 0"
    "quote (ld_schedule l) (ld_symbol l) (fl_market e) (fl_time_ms e) = Inr rate"
    and l': "l' = (set_leg (fl_market e) u l)
        \<lparr>ld_cash := sub50 (add50 (ld_cash l)
             (case fl_market e of Spot \<Rightarrow> mul50 (neg50 q) p | Perp \<Rightarrow> rz)) (mul50 (mul50 (abs50 q) p) rate),
         ld_fees := add50 (ld_fees l) (mul50 (mul50 (abs50 q) p) rate),
         ld_execution_cost := add50 (ld_execution_cost l) (mul50 q (sub50 p m)),
         ld_time := fl_time_ms e,
         ld_event_ids := insert (fl_event_id e) (ld_event_ids l)\<rparr>"
    by (rule ledger_fillE) blast
  define fee where "fee = mul50 (mul50 (abs50 q) p) rate"
  have qp: "\<bar>q * p\<bar> \<le> M" using assms(3) f by simp
  have M: "0 \<le> M" "0 \<le> ulp50 * M" using qp ulp50_small by (auto intro: order_trans [OF abs_ge_zero])
  have sc: "\<bar>ld_cash l\<bar> \<le> M" "\<bar>ld_fees l\<bar> \<le> M" "leg_scale (get_leg l (fl_market e)) q p M"
      "\<bar>lg_realized (ld_perp l)\<bar> \<le> M"
    using assms(2) qp by (auto simp: ledger_scale_def leg_scale_def get_leg_def split: market.splits)
  have "0 \<le> rate \<and> rate < 1" using assms(1) f(7) quote_range by (auto simp: ledger_inv_def)
  then have fee: "\<bar>fee\<bar> \<le> 4 * M" unfolding fee_def using qp f(3) by (intro fee_mag) auto
  have fees: "\<bar>add50 (ld_fees l) fee - (ld_fees l + fee)\<bar> \<le> 7 * (ulp50 * M)"
    using sc(2) fee M by (intro one_update) auto
  have ok: "spot_ok (get_leg l (fl_market e)) \<and> 0 \<le> lg_quantity u
      \<or> perp_ok (get_leg l (fl_market e)) \<and> lg_quantity u \<le> 0"
    using assms(1) f(5,6) by (cases "fl_market e") (auto simp: get_leg_def ledger_inv_def)
  note leg = leg_cash [OF sc(3) f(4) ok]
  show ?thesis
  proof (cases "fl_market e")
    case Spot
    have "\<bar>sub50 (add50 (ld_cash l) (mul50 (neg50 q) p)) fee - (ld_cash l + mul50 (neg50 q) p - fee)\<bar>
        \<le> 25 * (ulp50 * M)"
      using signed_cash(2) [OF qp] sc(1) fee M by (intro two_updates) auto
    then show ?thesis
      using leg(1) fees signed_cash(1) [OF qp] M Spot unfolding l' drift_def fee_def [symmetric]
      by (simp add: set_leg_def get_leg_def abs_le_iff)
  next
    case Perp
    have "\<bar>sub50 (add50 (ld_cash l) rz) fee - (ld_cash l + rz - fee)\<bar> \<le> 25 * (ulp50 * M)"
      using leg(2) sc(1) fee M by (intro two_updates) auto
    moreover have "\<bar>add50 (lg_realized (ld_perp l)) rz - (lg_realized (ld_perp l) + rz)\<bar> \<le> 7 * (ulp50 * M)"
      using sc(4) leg(2) by (rule one_update)
    ultimately show ?thesis
      using leg(3) fees M Perp unfolding l' drift_def fee_def [symmetric]
      by (simp add: set_leg_def get_leg_def abs_le_iff)
  qed
qed

lemma payment_mag:
  assumes "\<bar>x * m\<bar> \<le> M" "\<bar>x * m * r\<bar> \<le> M"
  shows "\<bar>mul50 (mul50 (neg50 x) m) r\<bar> \<le> 6 * M"
proof -
  define y where "y = mul50 (neg50 x) m"
  have "\<bar>y - (- x) * m\<bar> \<le> 3 * (ulp50 * \<bar>(- x) * m\<bar>)"
    unfolding y_def neg50_def by (rule mul50_err1)
  then have "\<bar>y + x * m\<bar> * \<bar>r\<bar> \<le> 3 * (ulp50 * \<bar>x * m\<bar>) * \<bar>r\<bar>" by (intro mult_right_mono) auto
  then have "\<bar>y * r + x * m * r\<bar> \<le> 3 * (ulp50 * \<bar>x * m * r\<bar>)"
    by (simp add: abs_mult distrib_right mult.assoc flip: abs_mult)
  also have "\<dots> \<le> 3 * (1 / 1000 * M)" using assms(2) by (intro mult_left_mono mult_mono ulp50_small) auto
  finally have "\<bar>y * r\<bar> \<le> 3 * M" using assms(2) by linarith
  then have "2 * \<bar>y * r\<bar> \<le> 6 * M" by simp
  then show ?thesis using d50_mag [of "y * r"] unfolding y_def [symmetric] mul50_def [of y r] by (rule order_trans [rotated])
qed

lemma ledger_settle_drift:
  assumes "ledger_scale M l" "event_scale M l (ESettle e)" "ledger_settle l e = Inr l'"
  shows "\<bar>drift l' - drift l\<bar> \<le> 200 * (ulp50 * M)"
  using assms(3)
proof (rule ledger_settleE)
  fix r m
  define pay where "pay = mul50 (mul50 (neg50 (lg_quantity (ld_perp l))) m) r"
  assume a: "st_rate e = Fin r" "st_mark_price e = Fin m"
    and "l' = l\<lparr>ld_cash := add50 (ld_cash l) (mul50 (mul50 (neg50 (lg_quantity (ld_perp l))) m) r),
            ld_funding := add50 (ld_funding l) (mul50 (mul50 (neg50 (lg_quantity (ld_perp l))) m) r),
            ld_next_funding := st_time_ms e + st_interval_hours e * hour_ms,
            ld_last_funding := Some (st_time_ms e), ld_time := st_time_ms e,
            ld_event_ids := insert (st_event_id e) (ld_event_ids l)\<rparr>"
  then have l': "drift l' - drift l = (add50 (ld_cash l) pay - (ld_cash l + pay))
      - (add50 (ld_funding l) pay - (ld_funding l + pay))"
    by (simp add: drift_def pay_def)
  have pay: "\<bar>pay\<bar> \<le> 6 * M" unfolding pay_def using assms(2) a by (intro payment_mag) auto
  have sc: "\<bar>ld_cash l\<bar> \<le> M" "\<bar>ld_funding l\<bar> \<le> M" using assms(1) by (auto simp: ledger_scale_def)
  show ?thesis
    unfolding l' using one_update [OF sc(1) pay] one_update [OF sc(2) pay] by linarith
qed

lemma ledger_finance_drift:
  assumes "ledger_scale M l" "event_scale M l (EFinance i t c)" "ledger_finance l i t c = Inr l'"
  shows "\<bar>drift l' - drift l\<bar> \<le> 200 * (ulp50 * M)"
  using assms(3)
proof (rule ledger_financeE)
  fix cost
  assume a: "c = Fin cost"
    and "l' = l\<lparr>ld_cash := sub50 (ld_cash l) cost, ld_financing := add50 (ld_financing l) cost,
            ld_time := t, ld_event_ids := insert i (ld_event_ids l)\<rparr>"
  then have l': "drift l' - drift l = (sub50 (ld_cash l) cost - (ld_cash l - cost))
      + (add50 (ld_financing l) cost - (ld_financing l + cost))"
    by (simp add: drift_def)
  have sc: "\<bar>ld_cash l\<bar> \<le> M" "\<bar>ld_financing l\<bar> \<le> M" "\<bar>cost\<bar> \<le> M"
    using assms(1,2) a by (auto simp: ledger_scale_def)
  then have "\<bar>ld_cash l - cost\<bar> \<le> 2 * M" "\<bar>cost\<bar> \<le> 6 * M" by linarith+
  then show ?thesis
    unfolding l' using d50_bounded [of "ld_cash l - cost" 2 M] one_update [OF sc(2)]
    unfolding sub50_def by fastforce
qed

lemma ledger_step_drift:
  "ledger_inv l \<Longrightarrow> ledger_scale M l \<Longrightarrow> event_scale M l e \<Longrightarrow> ledger_step l e = Inr l' \<Longrightarrow>
   \<bar>drift l' - drift l\<bar> \<le> 200 * (ulp50 * M)"
  using ledger_fill_drift ledger_settle_drift ledger_finance_drift by (cases e) auto

text \<open>A run all of whose accounts and events stay within \<open>M\<close>.\<close>

fun run_scaled :: "rat \<Rightarrow> ledger \<Rightarrow> ledger_event list \<Rightarrow> bool" where
  "run_scaled M l [] = True"
| "run_scaled M l (e # es) =
     (ledger_scale M l \<and> event_scale M l e
      \<and> (case ledger_step l e of Inl _ \<Rightarrow> True | Inr l' \<Rightarrow> run_scaled M l' es))"

lemma ledger_run_Cons:
  "ledger_run l (e # es) = bnd (ledger_step l e) (\<lambda>l'. ledger_run l' es)"
  by (simp add: ledger_run_def)

lemma ledger_run_Nil: "ledger_run l [] = Inr l"
  by (simp add: ledger_run_def)

lemma run_drift:
  "ledger_inv l \<Longrightarrow> run_scaled M l es \<Longrightarrow> ledger_run l es = Inr l' \<Longrightarrow>
   \<bar>drift l' - drift l\<bar> \<le> of_nat (length es) * (200 * (ulp50 * M))"
proof (induction es arbitrary: l)
  case Nil
  then show ?case by (simp add: ledger_run_def)
next
  case (Cons e es)
  from Cons.prems(3) obtain l1 where l1: "ledger_step l e = Inr l1" "ledger_run l1 es = Inr l'"
    by (auto simp: ledger_run_Cons res_simps)
  have "\<bar>drift l1 - drift l\<bar> \<le> 200 * (ulp50 * M)"
    using Cons.prems l1 by (intro ledger_step_drift) auto
  moreover have "\<bar>drift l' - drift l1\<bar> \<le> of_nat (length es) * (200 * (ulp50 * M))"
    using Cons.prems l1 ledger_step_inv by (intro Cons.IH) auto
  ultimately have "\<bar>drift l' - drift l\<bar> \<le> 200 * (ulp50 * M) + of_nat (length es) * (200 * (ulp50 * M))"
    by linarith
  then show ?case by (simp add: distrib_right)
qed

lemma start_drift: "ledger_start symbol initial next_funding schedule = Inr l \<Longrightarrow> drift l = 0"
  by (auto simp: ledger_start_def res_simps drift_def empty_leg_def split: if_splits)


section \<open>Times, settlements and identifiers of a run\<close>

lemma ledger_step_times:
  assumes "ledger_step l e = Inr l'"
  shows "ld_time l \<le> ev_time e" "ld_time l' = ev_time e" "0 \<le> ev_time e"
    and "ev_id e \<notin> ld_event_ids l" "ev_id e \<noteq> []" "ld_event_ids l' = insert (ev_id e) (ld_event_ids l)"
    and "ld_symbol l' = ld_symbol l" "ld_initial l' = ld_initial l" "ld_schedule l' = ld_schedule l"
  using assms
  by (cases e; auto elim!: ledger_fillE ledger_settleE ledger_financeE simp: set_leg_def split: market.splits)+

lemma ledger_step_next:
  assumes "ledger_step l e = Inr l'"
  shows "ld_next_funding l' =
      (case e of ESettle s \<Rightarrow> st_time_ms s + st_interval_hours s * hour_ms | _ \<Rightarrow> ld_next_funding l)"
    and "ld_last_funding l' = (case e of ESettle s \<Rightarrow> Some (st_time_ms s) | _ \<Rightarrow> ld_last_funding l)"
  using assms
  by (cases e; auto elim!: ledger_fillE ledger_settleE ledger_financeE simp: set_leg_def split: market.splits)+

fun nominal :: "int \<Rightarrow> settlement list \<Rightarrow> int list" where
  "nominal t [] = []"
| "nominal t (s # ss) = t # nominal (t + st_interval_hours s * hour_ms) ss"

fun settlements :: "ledger_event list \<Rightarrow> settlement list" where
  "settlements [] = []"
| "settlements (ESettle s # es) = s # settlements es"
| "settlements (_ # es) = settlements es"

lemma run_settlements: "ledger_run l es = Inr l' \<Longrightarrow> map st_time_ms (settlements es) = nominal (ld_next_funding l) (settlements es)"
proof (induction es arbitrary: l)
  case (Cons e es)
  from Cons.prems obtain l1 where l1: "ledger_step l e = Inr l1" "ledger_run l1 es = Inr l'"
    by (auto simp: ledger_run_Cons res_simps)
  have "map st_time_ms (settlements es) = nominal (ld_next_funding l1) (settlements es)"
    using l1(2) by (rule Cons.IH)
  then show ?case using ledger_step_next [OF l1(1)] l1(1) by (cases e) (auto elim: ledger_settleE)
qed simp

lemma run_times: "ledger_run l es = Inr l' \<Longrightarrow> sorted (ld_time l # map ev_time es)"
proof (induction es arbitrary: l)
  case (Cons e es)
  from Cons.prems obtain l1 where l1: "ledger_step l e = Inr l1" "ledger_run l1 es = Inr l'"
    by (auto simp: ledger_run_Cons res_simps)
  then show ?case using Cons.IH [OF l1(2)] ledger_step_times(1,2) [OF l1(1)] by fastforce
qed simp

lemma run_ids:
  "ledger_run l es = Inr l' \<Longrightarrow>
   distinct (map ev_id es) \<and> set (map ev_id es) \<inter> ld_event_ids l = {}
   \<and> ld_event_ids l' = ld_event_ids l \<union> set (map ev_id es)"
proof (induction es arbitrary: l)
  case (Cons e es)
  from Cons.prems obtain l1 where l1: "ledger_step l e = Inr l1" "ledger_run l1 es = Inr l'"
    by (auto simp: ledger_run_Cons res_simps)
  then show ?case using Cons.IH [OF l1(2)] ledger_step_times [OF l1(1)] by auto
qed (simp add: ledger_run_def)

lemma run_later_settlements:
  "ledger_inv l \<Longrightarrow> ledger_run l es = Inr l' \<Longrightarrow> ESettle s \<in> set es \<Longrightarrow> ld_next_funding l \<le> st_time_ms s"
proof (induction es arbitrary: l)
  case (Cons e es)
  from Cons.prems obtain l1 where l1: "ledger_step l e = Inr l1" "ledger_run l1 es = Inr l'"
    by (auto simp: ledger_run_Cons res_simps)
  have mono: "ld_next_funding l \<le> ld_next_funding l1"
    using ledger_step_next(1) [OF l1(1)] l1(1)
    by (cases e) (auto elim!: ledger_settleE simp: hour_ms_def)
  show ?case
  proof (cases "e = ESettle s")
    case True
    then show ?thesis using l1(1) by (auto elim: ledger_settleE)
  next
    case False
    then have "ld_next_funding l1 \<le> st_time_ms s"
      using Cons l1 ledger_step_inv by auto
    then show ?thesis using mono by simp
  qed
qed simp

lemma run_after_settlement:
  "ledger_inv l \<Longrightarrow> ledger_run l es = Inr l' \<Longrightarrow> EFill e \<in> set es \<Longrightarrow> fl_market e = Perp \<Longrightarrow>
   ld_last_funding l = Some f \<Longrightarrow> settlement_guard_ms < fl_time_ms e - f"
proof (induction es arbitrary: l f)
  case (Cons a es)
  from Cons.prems obtain l1 where l1: "ledger_step l a = Inr l1" "ledger_run l1 es = Inr l'"
    by (auto simp: ledger_run_Cons res_simps)
  show ?case
  proof (cases "a = EFill e")
    case True
    then show ?thesis using l1(1) Cons.prems(4,5) by (auto elim!: ledger_fillE simp: perp_guarded_def)
  next
    case False
    then have mem: "EFill e \<in> set es" using Cons.prems(3) by simp
    obtain f1 where f1: "ld_last_funding l1 = Some f1" "f \<le> f1"
    proof (cases a)
      case (ESettle s)
      then have "f \<le> st_time_ms s"
        using Cons.prems(1,5) l1(1) by (auto elim!: ledger_settleE simp: ledger_inv_def)
      then show thesis using that ledger_step_next(2) [OF l1(1)] ESettle by simp
    qed (use that ledger_step_next(2) [OF l1(1)] Cons.prems(5) in auto)
    have "settlement_guard_ms < fl_time_ms e - f1"
      using Cons.prems(1) l1 ledger_step_inv mem Cons.prems(4) f1(1) by (intro Cons.IH) auto
    then show ?thesis using f1(2) by simp
  qed
qed simp

lemma run_separation:
  "ledger_inv l \<Longrightarrow> ledger_run l es = Inr l' \<Longrightarrow> EFill e \<in> set es \<Longrightarrow> fl_market e = Perp \<Longrightarrow>
   ESettle s \<in> set es \<Longrightarrow> settlement_guard_ms < \<bar>fl_time_ms e - st_time_ms s\<bar>"
proof (induction es arbitrary: l)
  case (Cons a es)
  from Cons.prems obtain l1 where l1: "ledger_step l a = Inr l1" "ledger_run l1 es = Inr l'"
    by (auto simp: ledger_run_Cons res_simps)
  have inv: "ledger_inv l1" using Cons.prems(1) l1(1) by (rule ledger_step_inv)
  consider "a = EFill e" "ESettle s \<in> set es" | "a = ESettle s" "EFill e \<in> set es"
    | "EFill e \<in> set es" "ESettle s \<in> set es"
    using Cons.prems(3,5) by auto
  then show ?case
  proof cases
    case 1
    then have "settlement_guard_ms < ld_next_funding l - fl_time_ms e"
      using l1(1) Cons.prems(4) by (auto elim!: ledger_fillE simp: perp_guarded_def)
    moreover have "ld_next_funding l \<le> st_time_ms s"
      using run_later_settlements [OF inv l1(2) 1(2)] ledger_step_next(1) [OF l1(1)] 1(1) by simp
    ultimately show ?thesis by simp
  next
    case 2
    then have "settlement_guard_ms < fl_time_ms e - st_time_ms s"
      using run_after_settlement [OF inv l1(2) 2(2) Cons.prems(4)] ledger_step_next(2) [OF l1(1)] by simp
    then show ?thesis by simp
  next
    case 3
    then show ?thesis using Cons.IH [OF inv l1(2)] Cons.prems(4) by blast
  qed
qed simp

section \<open>Accumulators stay representable, so charges only add up\<close>

definition acc_fixed :: "ledger \<Rightarrow> bool" where
  "acc_fixed l \<longleftrightarrow> d50 (ld_fees l) = ld_fees l \<and> d50 (ld_financing l) = ld_financing l
     \<and> d50 (ld_funding l) = ld_funding l"

lemma ledger_start_fixed: "ledger_start symbol initial nf schedule = Inr l \<Longrightarrow> acc_fixed l"
  by (auto simp: ledger_start_def res_simps acc_fixed_def split: if_splits)

lemma ledger_step_fixed: "acc_fixed l \<Longrightarrow> ledger_step l e = Inr l' \<Longrightarrow> acc_fixed l'"
  by (cases e) (auto elim!: ledger_fillE ledger_settleE ledger_financeE
      simp: acc_fixed_def set_leg_def add50_def split: market.splits)

lemma add50_ge: "d50 a = a \<Longrightarrow> 0 \<le> x \<Longrightarrow> a \<le> add50 a x"
  unfolding add50_def by (intro d50.rd_ge_fixed) auto

lemma ledger_step_charges:
  assumes "ledger_inv l" "acc_fixed l" "ledger_step l e = Inr l'"
  shows "ld_fees l \<le> ld_fees l' \<and> ld_financing l \<le> ld_financing l'"
proof (cases e)
  case (EFill f)
  then have "ledger_fill l f = Inr l'" using assms(3) by simp
  then show ?thesis
  proof (rule ledger_fillE)
    fix q p m u rz rate
    assume a: "0 < p" "quote (ld_schedule l) (ld_symbol l) (fl_market f) (fl_time_ms f) = Inr rate"
      and l': "l' = (set_leg (fl_market f) u l)
        \<lparr>ld_cash := sub50 (add50 (ld_cash l)
             (case fl_market f of Spot \<Rightarrow> mul50 (neg50 q) p | Perp \<Rightarrow> rz)) (mul50 (mul50 (abs50 q) p) rate),
         ld_fees := add50 (ld_fees l) (mul50 (mul50 (abs50 q) p) rate),
         ld_execution_cost := add50 (ld_execution_cost l) (mul50 q (sub50 p m)),
         ld_time := fl_time_ms f,
         ld_event_ids := insert (fl_event_id f) (ld_event_ids l)\<rparr>"
    have "0 \<le> mul50 (abs50 q) p" using a by (auto simp: ops50 intro!: d50.rd_nonneg mult_nonneg_nonneg)
    then have "0 \<le> mul50 (abs50 q) p * rate"
      using assms(1) a(2) fees.fee_nonneg by (auto simp: ledger_inv_def)
    then have "0 \<le> mul50 (mul50 (abs50 q) p) rate" by (auto simp: mul50_def [of _ rate] intro: d50.rd_nonneg)
    then show ?thesis
      using assms(2) unfolding l' by (auto simp: acc_fixed_def set_leg_def add50_ge split: market.splits)
  qed
next
  case (ESettle s)
  then show ?thesis using assms(3) by (auto elim!: ledger_settleE)
next
  case (EFinance i t c)
  then show ?thesis using assms(2,3) by (auto elim!: ledger_financeE simp: acc_fixed_def add50_ge)
qed

lemma ledger_run_charges:
  "ledger_inv l \<Longrightarrow> acc_fixed l \<Longrightarrow> ledger_run l es = Inr l' \<Longrightarrow>
   ld_fees l \<le> ld_fees l' \<and> ld_financing l \<le> ld_financing l'"
proof (induction es arbitrary: l)
  case (Cons e es)
  from Cons.prems(3) obtain l1 where l1: "ledger_step l e = Inr l1" "ledger_run l1 es = Inr l'"
    by (auto simp: ledger_run_Cons res_simps)
  have "ld_fees l1 \<le> ld_fees l' \<and> ld_financing l1 \<le> ld_financing l'"
    using ledger_step_inv [OF Cons.prems(1) l1(1)] ledger_step_fixed [OF Cons.prems(2) l1(1)] l1(2)
    by (rule Cons.IH)
  then show ?case using ledger_step_charges [OF Cons.prems(1,2) l1(1)] by auto
qed (simp add: ledger_run_def)

end
