(* ===== verification/AccountingProps.thy ===== *)
theory AccountingProps
  imports Accounting
begin

text \<open>
  The properties of the ledger: its invariant, cash conservation up to rounding, the gross/net
  identity of a valuation, the separation of perp fills from settlements, the settlement chain, and
  the rejection of replayed events.
\<close>

section \<open>Valuation\<close>

lemma add_bound: "\<bar>a\<bar> \<le> c * M \<Longrightarrow> \<bar>b\<bar> \<le> d * M \<Longrightarrow>
    \<bar>add50 a b - (a + b)\<bar> \<le> (c + d) * (ulp50 * M) \<and> \<bar>add50 a b\<bar> \<le> 2 * ((c + d) * M)"
proof -
  assume a: "\<bar>a\<bar> \<le> c * M" and b: "\<bar>b\<bar> \<le> d * M"
  have s: "\<bar>a + b\<bar> \<le> (c + d) * M" using a b by (simp add: distrib_right)
  have "2 * \<bar>a + b\<bar> \<le> 2 * ((c + d) * M)" using s by simp
  then show ?thesis
    using d50_bounded [OF s] order_trans [OF d50_mag [of "a + b"]] by (simp add: add50_def)
qed

lemma sub_bound: "\<bar>a\<bar> \<le> c * M \<Longrightarrow> \<bar>b\<bar> \<le> d * M \<Longrightarrow>
    \<bar>sub50 a b - (a - b)\<bar> \<le> (c + d) * (ulp50 * M) \<and> \<bar>sub50 a b\<bar> \<le> 2 * ((c + d) * M)"
  using add_bound [of a c M "- b" d] by (simp add: add50_def sub50_def)

lemma mul_bound: "\<bar>a * b\<bar> \<le> 1 * M \<Longrightarrow> \<bar>mul50 a b - a * b\<bar> \<le> 1 * (ulp50 * M) \<and> \<bar>mul50 a b\<bar> \<le> 2 * M"
  using d50_bounded [of "a * b" 1 M] order_trans [OF d50_mag [of "a * b"], of "2 * M"] by (simp add: mul50_def)

definition value_scale :: "rat \<Rightarrow> ledger \<Rightarrow> rat \<Rightarrow> rat \<Rightarrow> bool" where
  "value_scale M l spot perp \<longleftrightarrow>
     ledger_scale M l \<and> \<bar>ld_initial l\<bar> \<le> M \<and> \<bar>ld_execution_cost l\<bar> \<le> M
     \<and> \<bar>lg_quantity (ld_spot l) * spot\<bar> \<le> M \<and> \<bar>lg_quantity (ld_perp l) * perp\<bar> \<le> M"

lemma ledger_valueE:
  assumes "ledger_value l m = Inr v"
  obtains s p where "mk_spot m = Fin s" "mk_perp m = Fin p" "0 < s" "0 < p" "mk_symbol m = ld_symbol l"
    "ld_time l \<le> mk_time_ms m" "mk_time_ms m < ld_next_funding l"
    "va_price_pnl v = add50 (add50 (add50 (lg_realized (ld_spot l)) (unrealized (ld_spot l) s))
                        (lg_realized (ld_perp l))) (unrealized (ld_perp l) p)"
    "va_net_equity v = add50 (add50 (ld_cash l) (mul50 (lg_quantity (ld_spot l)) s)) (unrealized (ld_perp l) p)"
    "va_net_pnl v = sub50 (va_net_equity v) (ld_initial l)"
    "va_gross_pnl v = add50 (add50 (va_price_pnl v) (ld_funding l)) (ld_execution_cost l)"
    "va_fees v = ld_fees l" "va_financing v = ld_financing l" "va_execution_cost v = ld_execution_cost l"
  using assms by (auto simp: ledger_value_def Let_def res_simps)

lemma value_identity:
  assumes "ledger_value l m = Inr v" "mk_spot m = Fin s" "mk_perp m = Fin p" "value_scale M l s p"
  shows "\<bar>va_net_pnl v - (va_gross_pnl v - va_execution_cost v - va_fees v - va_financing v) - drift l\<bar>
    \<le> 700 * (ulp50 * M)"
proof -
  from assms(1-3) have v:
    "va_price_pnl v = add50 (add50 (add50 (lg_realized (ld_spot l)) (unrealized (ld_spot l) s))
                        (lg_realized (ld_perp l))) (unrealized (ld_perp l) p)"
    "va_net_equity v = add50 (add50 (ld_cash l) (mul50 (lg_quantity (ld_spot l)) s)) (unrealized (ld_perp l) p)"
    "va_net_pnl v = sub50 (va_net_equity v) (ld_initial l)"
    "va_gross_pnl v = add50 (add50 (va_price_pnl v) (ld_funding l)) (ld_execution_cost l)"
    "va_fees v = ld_fees l" "va_financing v = ld_financing l" "va_execution_cost v = ld_execution_cost l"
    by (auto elim!: ledger_valueE)
  define S P where "S = mul50 (lg_quantity (ld_spot l)) s" and "P = mul50 (lg_quantity (ld_perp l)) p"
  define us up where "us = unrealized (ld_spot l) s" and "up = unrealized (ld_perp l) p"
  have b: "\<bar>ld_cash l\<bar> \<le> 1 * M" "\<bar>ld_funding l\<bar> \<le> 1 * M" "\<bar>lg_basis (ld_spot l)\<bar> \<le> 1 * M"
    "\<bar>lg_realized (ld_spot l)\<bar> \<le> 1 * M" "\<bar>lg_basis (ld_perp l)\<bar> \<le> 1 * M" "\<bar>lg_realized (ld_perp l)\<bar> \<le> 1 * M"
    "\<bar>ld_initial l\<bar> \<le> 1 * M" "\<bar>ld_execution_cost l\<bar> \<le> 1 * M"
    "\<bar>lg_quantity (ld_spot l) * s\<bar> \<le> 1 * M" "\<bar>lg_quantity (ld_perp l) * p\<bar> \<le> 1 * M"
    using assms(4) by (auto simp: value_scale_def ledger_scale_def)
  note S = mul_bound [OF b(9), folded S_def] and P = mul_bound [OF b(10), folded P_def]
  have us: "\<bar>us - (S - lg_basis (ld_spot l))\<bar> \<le> 3 * (ulp50 * M) \<and> \<bar>us\<bar> \<le> 6 * M"
    using sub_bound [OF conjunct2 [OF S] b(3)] by (simp add: us_def unrealized_def S_def)
  have up: "\<bar>up - (P - lg_basis (ld_perp l))\<bar> \<le> 3 * (ulp50 * M) \<and> \<bar>up\<bar> \<le> 6 * M"
    using sub_bound [OF conjunct2 [OF P] b(5)] by (simp add: up_def unrealized_def P_def)
  define x1 x2 x3 x4 x5 where "x1 = add50 (lg_realized (ld_spot l)) us" and "x2 = add50 x1 (lg_realized (ld_perp l))"
    and "x3 = add50 x2 up" and "x4 = add50 x3 (ld_funding l)" and "x5 = add50 x4 (ld_execution_cost l)"
  note x1 = add_bound [OF b(4) conjunct2 [OF us], folded x1_def, simplified]
  note x2 = add_bound [OF conjunct2 [OF x1] b(6), folded x2_def, simplified]
  note x3 = add_bound [OF conjunct2 [OF x2] conjunct2 [OF up], folded x3_def, simplified]
  note x4 = add_bound [OF conjunct2 [OF x3] b(2), folded x4_def, simplified]
  note x5 = add_bound [OF conjunct2 [OF x4] b(8), folded x5_def, simplified]
  define e1 e2 e3 where "e1 = add50 (ld_cash l) S" and "e2 = add50 e1 up" and "e3 = sub50 e2 (ld_initial l)"
  note e1 = add_bound [OF b(1) conjunct2 [OF S], folded e1_def, simplified]
  note e2 = add_bound [OF conjunct2 [OF e1] conjunct2 [OF up], folded e2_def, simplified]
  note e3 = sub_bound [OF conjunct2 [OF e2] b(7), folded e3_def, simplified]
  have "va_net_pnl v = e3" "va_gross_pnl v = x5"
    by (simp_all add: v e3_def e2_def e1_def x5_def x4_def x3_def x2_def x1_def S_def us_def up_def)
  then show ?thesis
    unfolding v(5-7) drift_def
    using conjunct1 [OF us] conjunct1 [OF up] conjunct1 [OF x1] conjunct1 [OF x2] conjunct1 [OF x3]
      conjunct1 [OF x4] conjunct1 [OF x5] conjunct1 [OF e1] conjunct1 [OF e2] conjunct1 [OF e3]
    by (simp only: abs_le_iff) linarith
qed


section \<open>A concrete run\<close>

text \<open>One long-spot/short-perp round: two opening fills, a settlement, a financing charge, and a partial close.\<close>

definition example_period :: "market \<Rightarrow> rat \<Rightarrow> fee_period" where
  "example_period m r = \<lparr>fp_symbol = ''BTC'', fp_market = m, fp_start_ms = 0, fp_end_ms = 360000000,
     fp_taker_fraction = r, fp_source = ''https://x'', fp_observed_at_ms = 0, fp_kind = Assumption\<rparr>"

definition example_schedule :: fee_schedule where
  "example_schedule = \<lparr>fs_periods = [example_period Spot (1 / 1000), example_period Perp (1 / 2000)],
     fs_allow_assumptions = True\<rparr>"

definition example_fill :: "string \<Rightarrow> market \<Rightarrow> rat \<Rightarrow> rat \<Rightarrow> int \<Rightarrow> fill" where
  "example_fill i m q p t = \<lparr>fl_event_id = i, fl_symbol = ''BTC'', fl_time_ms = t, fl_market = m,
     fl_quantity = Fin q, fl_price = Fin p, fl_reference_mid = Fin 100\<rparr>"

definition example_settlement :: settlement where
  "example_settlement = \<lparr>st_event_id = ''c'', st_symbol = ''BTC'', st_time_ms = 28800000,
     st_interval_hours = 8, st_rate = Fin (1 / 1000), st_mark_price = Fin 100\<rparr>"

definition example_ledger :: ledger where
  "example_ledger = \<lparr>ld_symbol = ''BTC'', ld_initial = 10000, ld_next_funding = 28800000,
     ld_schedule = example_schedule, ld_cash = 10000, ld_time = 0, ld_spot = empty_leg,
     ld_perp = empty_leg, ld_funding = 0, ld_fees = 0, ld_financing = 0,
     ld_execution_cost = 0, ld_last_funding = None, ld_event_ids = {}\<rparr>"

definition example_events :: "ledger_event list" where
  "example_events =
     [EFill (example_fill ''a'' Spot 2 101 1000), EFill (example_fill ''b'' Perp (-2) 99 1000),
      ESettle example_settlement, EFinance ''d'' 30000000 (Fin 1),
      EFill (example_fill ''e'' Perp 1 98 30000000)]"

definition example_final :: ledger where
  "example_final = (case ledger_run example_ledger example_events of Inr l \<Rightarrow> l | Inl _ \<Rightarrow> example_ledger)"

lemmas example_defs = example_period_def example_schedule_def example_fill_def example_settlement_def
  example_ledger_def example_events_def hour_ms_def

lemma example_start: "ledger_start ''BTC'' (Fin 10000) 28800000 example_schedule = Inr example_ledger"
  by (simp add: eval_simps example_defs decimal_def timestamp_def cong: eval_cong)

lemma example_valid: "valid_schedule example_schedule"
  by (simp add: valid_schedule_def valid_period_def example_defs overlap_def)

lemma example_run: "ledger_run example_ledger example_events = Inr
    \<lparr>ld_symbol = ''BTC'', ld_initial = 10000, ld_next_funding = 57600000,
     ld_schedule = example_schedule, ld_cash = 979785 / 100, ld_time = 30000000,
     ld_spot = \<lparr>lg_quantity = 2, lg_basis = 202, lg_realized = 0\<rparr>,
     ld_perp = \<lparr>lg_quantity = -1, lg_basis = -99, lg_realized = 1\<rparr>, ld_funding = 1 / 5,
     ld_fees = 35 / 100, ld_financing = 1, ld_execution_cost = 2, ld_last_funding = Some 28800000,
     ld_event_ids = {''e'', ''d'', ''c'', ''b'', ''a''}\<rparr>"
  by (simp add: eval_simps short_eval example_defs decimal_def timestamp_def quote_def covers_def cong: eval_cong)


section \<open>Properties\<close>

text \<open>C2: every state a successful run of the ledger reaches is a long-spot/short-perp carry: the spot
  quantity is never negative, the perp quantity never positive, a flat leg carries no cost basis, the
  charges are nonnegative, and the clock stays within one hourly-aligned funding period that starts at
  least an hour after the last settlement.\<close>

theorem carry_legs_invariant:
  assumes "ledger_start symbol initial next_funding schedule = Inr l0" "valid_schedule schedule"
    and "ledger_run l0 es = Inr l"
  shows "0 \<le> lg_quantity (ld_spot l) \<and> lg_quantity (ld_perp l) \<le> 0
    \<and> 0 \<le> lg_basis (ld_spot l) \<and> lg_basis (ld_perp l) \<le> 0
    \<and> (lg_quantity (ld_spot l) = 0 \<longrightarrow> lg_basis (ld_spot l) = 0)
    \<and> (lg_quantity (ld_perp l) = 0 \<longrightarrow> lg_basis (ld_perp l) = 0)
    \<and> 0 \<le> ld_fees l \<and> 0 \<le> ld_financing l
    \<and> 0 \<le> ld_time l \<and> ld_time l \<le> ld_next_funding l \<and> ld_next_funding l mod hour_ms = 0
    \<and> (\<forall>f. ld_last_funding l = Some f \<longrightarrow> f \<le> ld_time l \<and> f mod hour_ms = 0 \<and> f + hour_ms \<le> ld_next_funding l)"
  using ledger_run_inv [OF ledger_start_inv [OF assms(1,2)] assms(3)]
  by (auto simp: ledger_inv_def spot_ok_def perp_ok_def)

lemma carry_legs_invariant_witness:
  "\<exists>l. ledger_run example_ledger example_events = Inr l \<and> 0 \<le> lg_quantity (ld_spot l)
     \<and> lg_quantity (ld_perp l) \<le> 0 \<and> lg_quantity (ld_perp l) = -1"
  using carry_legs_invariant [OF example_start example_valid example_run] example_run by auto

text \<open>C1: cash is conserved up to 50-digit rounding: along a run whose accounts and events stay within
  \<open>M\<close>, the cash differs from initial capital plus funding minus fees minus financing plus realized
  profit of both legs minus the spot cost basis by at most 200 half-ulps of \<open>M\<close> for each event.\<close>

theorem cash_conservation:
  assumes "ledger_start symbol initial next_funding schedule = Inr l0" "valid_schedule schedule"
    and "run_scaled M l0 es" "ledger_run l0 es = Inr l"
  shows "\<bar>ld_cash l - (ld_initial l + ld_funding l - ld_fees l - ld_financing l
      + (lg_realized (ld_spot l) - lg_basis (ld_spot l)) + lg_realized (ld_perp l))\<bar>
    \<le> of_nat (length es) * (200 * (5 / 10 ^ 50 * M))"
  using run_drift [OF ledger_start_inv [OF assms(1,2)] assms(3,4)] start_drift [OF assms(1)]
  by (simp add: drift_def ulp50_def)

lemma example_scaled: "run_scaled 20000 example_ledger example_events"
  by (simp add: eval_simps short_eval example_defs decimal_def timestamp_def quote_def covers_def
      ledger_scale_def cong: eval_cong)

lemma cash_conservation_witness:
  "\<exists>l. ledger_run example_ledger example_events = Inr l \<and>
     \<bar>ld_cash l - (ld_initial l + ld_funding l - ld_fees l - ld_financing l
      + (lg_realized (ld_spot l) - lg_basis (ld_spot l)) + lg_realized (ld_perp l))\<bar>
    \<le> of_nat (length example_events) * (200 * (5 / 10 ^ 50 * 20000))"
  using cash_conservation [OF example_start example_valid example_scaled example_run] example_run by blast

text \<open>C7: the two ways a valuation reports profit agree: net profit is gross profit minus execution
  cost, fees and financing, up to the cash drift of the ledger and 700 half-ulps of \<open>M\<close>.\<close>

theorem valuation_net_gross:
  assumes "ledger_start symbol initial next_funding schedule = Inr l0" "valid_schedule schedule"
    and "run_scaled M l0 es" "ledger_run l0 es = Inr l"
    and "ledger_value l m = Inr v" "mk_spot m = Fin s" "mk_perp m = Fin p" "value_scale M l s p"
  shows "\<bar>va_net_pnl v - (va_gross_pnl v - va_execution_cost v - va_fees v - va_financing v)\<bar>
    \<le> (of_nat (length es) * 200 + 700) * (5 / 10 ^ 50 * M)"
proof -
  have "\<bar>drift l\<bar> \<le> of_nat (length es) * (200 * (ulp50 * M))"
    using run_drift [OF ledger_start_inv [OF assms(1,2)] assms(3,4)] start_drift [OF assms(1)] by simp
  moreover have "(of_nat (length es) * 200 + 700) * (ulp50 * M)
      = of_nat (length es) * (200 * (ulp50 * M)) + 700 * (ulp50 * M)"
    by (simp add: distrib_right mult.assoc)
  ultimately show ?thesis
    unfolding ulp50_def [symmetric] using value_identity [OF assms(5-8)] by linarith
qed

definition example_marks :: marks where
  "example_marks = \<lparr>mk_symbol = ''BTC'', mk_time_ms = 30000000, mk_spot = Fin 103, mk_perp = Fin 102\<rparr>"

lemma example_value:
  "\<exists>v. ledger_value example_final example_marks = Inr v \<and> va_net_pnl v = 85 / 100
     \<and> value_scale 20000 example_final 103 102"
  unfolding example_final_def example_run
  by (simp add: eval_simps short_eval decimal_def timestamp_def
      example_marks_def value_scale_def ledger_scale_def cong: eval_cong)

lemma valuation_net_gross_witness:
  "\<exists>v. ledger_value example_final example_marks = Inr v \<and>
     \<bar>va_net_pnl v - (va_gross_pnl v - va_execution_cost v - va_fees v - va_financing v)\<bar>
    \<le> (of_nat (length example_events) * 200 + 700) * (5 / 10 ^ 50 * 20000)"
proof -
  obtain v where v: "ledger_value example_final example_marks = Inr v" "value_scale 20000 example_final 103 102"
    using example_value by blast
  have "ledger_run example_ledger example_events = Inr example_final"
    by (simp add: example_final_def example_run)
  from valuation_net_gross [OF example_start example_valid example_scaled this v(1) _ _ v(2)] v(1)
  show ?thesis by (simp add: example_marks_def)
qed

text \<open>C12: no perp fill of a successful run is within fifteen seconds of any funding settlement of the
  run, before or after, so which side of the settlement a position falls on is never ambiguous.\<close>

theorem perp_fills_clear_of_settlements:
  assumes "ledger_start symbol initial next_funding schedule = Inr l0" "valid_schedule schedule"
    and "ledger_run l0 es = Inr l" "EFill e \<in> set es" "fl_market e = Perp" "ESettle s \<in> set es"
  shows "15000 < \<bar>fl_time_ms e - st_time_ms s\<bar>"
  using run_separation [OF ledger_start_inv [OF assms(1,2)] assms(3-6)] by (simp add: settlement_guard_ms_def)

lemma perp_fills_clear_of_settlements_witness:
  "15000 < \<bar>fl_time_ms (example_fill ''b'' Perp (-2) 99 1000) - st_time_ms example_settlement\<bar>"
  by (rule perp_fills_clear_of_settlements [OF example_start example_valid example_run])
    (simp_all add: example_events_def example_fill_def)

text \<open>the settlements a successful run books are exactly the nominal chain: the first is at the
  ledger's first funding time and each next one is its predecessor plus that row's own interval, so no
  settlement can be skipped, repeated or shifted.\<close>

theorem settlements_are_contiguous:
  assumes "ledger_start symbol initial next_funding schedule = Inr l0" "ledger_run l0 es = Inr l"
  shows "map st_time_ms (settlements es) = nominal next_funding (settlements es)"
proof -
  have "ld_next_funding l0 = next_funding"
    using assms(1) by (auto simp: ledger_start_def res_simps split: if_splits)
  then show ?thesis using run_settlements [OF assms(2)] by simp
qed

lemma settlements_are_contiguous_witness:
  "map st_time_ms (settlements example_events) = nominal 28800000 (settlements example_events)
   \<and> settlements example_events = [example_settlement]"
  using settlements_are_contiguous [OF example_start example_run] by (simp add: example_events_def)

text \<open>C13: an accepted run is in time order with pairwise different event identifiers, and the ledger it
  ends in refuses any further event that reuses one of them or goes back in time, with the source's error.\<close>

theorem events_are_unique_and_ordered:
  assumes "ledger_start symbol initial next_funding schedule = Inr l0" "ledger_run l0 es = Inr l"
  shows "distinct (map ev_id es) \<and> sorted (map ev_time es)
    \<and> (\<forall>e. 0 \<le> ev_time e \<and> (ev_id e \<in> ev_id ` set es \<or> ev_time e < ld_time l) \<longrightarrow>
         ledger_step l e = Inl (ValueError ''Duplicate, backwards or out-of-scope accounting event''))"
proof -
  have l0: "ld_event_ids l0 = {}"
    using assms(1) by (auto simp: ledger_start_def res_simps split: if_splits)
  have "ledger_step l e = Inl (ValueError ''Duplicate, backwards or out-of-scope accounting event'')"
    if "0 \<le> ev_time e" "ev_id e \<in> ev_id ` set es \<or> ev_time e < ld_time l" for e
    using that run_ids [OF assms(2)] l0
    by (cases e) (auto simp: ledger_fill_def ledger_settle_def ledger_finance_def check_event_def
        timestamp_def guard_def)
  then show ?thesis using run_ids [OF assms(2)] run_times [OF assms(2)] by auto
qed

lemma events_are_unique_and_ordered_witness:
  "ledger_step example_final (ESettle example_settlement)
     = Inl (ValueError ''Duplicate, backwards or out-of-scope accounting event'')"
proof -
  have "ledger_run example_ledger example_events = Inr example_final"
    by (simp add: example_final_def example_run)
  note reject = conjunct2 [OF conjunct2 [OF events_are_unique_and_ordered [OF example_start this]]]
  show ?thesis
    by (rule mp [OF spec [OF reject]]) (simp add: example_settlement_def example_events_def)
qed

text \<open>fees and financing only ever add up: no successful run lowers either total, and financing
  and fees are charged against cash, never credited.\<close>

theorem charges_only_accumulate:
  assumes "ledger_start symbol initial next_funding schedule = Inr l0" "valid_schedule schedule"
    and "ledger_run l0 es = Inr l" "ledger_run l es' = Inr l'"
  shows "ld_fees l \<le> ld_fees l' \<and> ld_financing l \<le> ld_financing l'"
proof -
  have "acc_fixed l"
    using ledger_start_fixed [OF assms(1)] assms(3) ledger_step_fixed unfolding ledger_run_def
    by (metis fold_res_invariant)
  then show ?thesis
    using ledger_run_inv [OF ledger_start_inv [OF assms(1,2)] assms(3)] assms(4) by (intro ledger_run_charges)
qed

lemma charges_only_accumulate_witness:
  "ld_fees example_ledger \<le> ld_fees example_final \<and> ld_financing example_ledger \<le> ld_financing example_final
   \<and> ld_financing example_final = 1"
proof -
  have r: "ledger_run example_ledger example_events = Inr example_final" "ledger_run example_ledger [] = Inr example_ledger"
    by (simp_all add: example_final_def example_run ledger_run_Nil)
  have "ld_financing example_final = 1" by (simp add: example_final_def example_run)
  then show ?thesis using charges_only_accumulate [OF example_start example_valid r(2) r(1)] by simp
qed

text \<open>a fee quote does not depend on the order of the schedule's periods: the schedule refuses
  overlaps, so at most one period covers a symbol, market and time, and the quote is that period's fraction
  when its evidence is admitted, its error otherwise, and the coverage error when no period covers.\<close>

theorem fee_quote_is_the_covering_period:
  assumes "valid_schedule s" "0 \<le> t"
  shows "(\<forall>p \<in> set (fs_periods s). covers p symbol market t \<longrightarrow>
       (\<forall>q \<in> set (fs_periods s). covers q symbol market t \<longrightarrow> q = p)
       \<and> quote s symbol market t =
          (if fp_kind p = Assumption
           then if fs_allow_assumptions s then Inr (fp_taker_fraction p)
                else Inl (ValueError ''Unverified fee assumption requires explicit admission'')
           else if fp_observed_at_ms p \<le> t then Inr (fp_taker_fraction p)
                else Inl (ValueError ''Fee evidence is in the future'')))
     \<and> ((\<forall>p \<in> set (fs_periods s). \<not> covers p symbol market t) \<longrightarrow>
          quote s symbol market t = Inl (ValueError ''No fee coverage for symbol, market and time''))"
proof -
  have no: "\<not> overlapping (fs_periods s)" using assms(1) by (simp add: valid_schedule_def)
  show ?thesis
    using overlapping_covers [OF no] quote_periods_covered [OF no] quote_periods_uncovered assms(2)
    by (auto simp: quote_def timestamp_def admitted_def)
qed

lemma fee_quote_is_the_covering_period_witness:
  "quote example_schedule ''BTC'' Perp 1000 = Inr (1 / 2000)
   \<and> quote example_schedule ''ETH'' Perp 1000
       = Inl (ValueError ''No fee coverage for symbol, market and time'')"
proof
  have p: "example_period Perp (1 / 2000) \<in> set (fs_periods example_schedule)"
    by (simp add: example_schedule_def)
  have c: "covers (example_period Perp (1 / 2000)) ''BTC'' Perp 1000"
    by (simp add: example_period_def covers_def)
  have t: "(0 :: int) \<le> 1000" by simp
  have "quote example_schedule ''BTC'' Perp 1000 = (if fp_kind (example_period Perp (1 / 2000)) = Assumption
      then if fs_allow_assumptions example_schedule then Inr (fp_taker_fraction (example_period Perp (1 / 2000)))
           else Inl (ValueError ''Unverified fee assumption requires explicit admission'')
      else if fp_observed_at_ms (example_period Perp (1 / 2000)) \<le> 1000
           then Inr (fp_taker_fraction (example_period Perp (1 / 2000)))
           else Inl (ValueError ''Fee evidence is in the future''))"
    by (rule conjunct2 [OF mp [OF bspec [OF conjunct1 [OF fee_quote_is_the_covering_period [OF example_valid t]] p] c]])
  then show "quote example_schedule ''BTC'' Perp 1000 = Inr (1 / 2000)"
    by (simp add: example_schedule_def example_period_def)
  show "quote example_schedule ''ETH'' Perp 1000
      = Inl (ValueError ''No fee coverage for symbol, market and time'')"
    by (rule mp [OF conjunct2 [OF fee_quote_is_the_covering_period [OF example_valid t]]])
      (simp add: example_schedule_def example_period_def covers_def)
qed

end
