(* ===== verification/FundingModel.thy ===== *)
theory FundingModel
  imports Floats
begin

text \<open>
  \<open>models/funding_model.py\<close>: the conjugate Gaussian AR(1). numpy's linear algebra is a parameter
  (\<open>numpy\<close>): its summation order is not fixed, so nothing is assumed of it. What is modelled is
  the code around it: which arrays are built, every validation, and the posterior's fields.
  Elementwise array arithmetic is binary64 arithmetic.
\<close>

section \<open>The parameters\<close>

type_synonym vec = "pynum list"
type_synonym mat = "pynum list list"

record numpy =
  np_matvec :: "mat \<Rightarrow> vec \<Rightarrow> vec"
  np_gram :: "mat \<Rightarrow> mat \<Rightarrow> mat" \<comment> \<open>\<open>a.T @ b\<close>\<close>
  np_dot :: "vec \<Rightarrow> vec \<Rightarrow> pynum"
  np_solve :: "mat \<Rightarrow> vec \<Rightarrow> vec res"
  np_solve_mat :: "mat \<Rightarrow> mat \<Rightarrow> mat res"
  np_gram_vec :: "mat \<Rightarrow> vec \<Rightarrow> vec" \<comment> \<open>\<open>a.T @ v\<close>\<close>
  np_eigmin :: "mat \<Rightarrow> pynum res" \<comment> \<open>\<open>eigvalsh(m).min()\<close>\<close>
  np_quad :: "vec \<Rightarrow> mat \<Rightarrow> pynum" \<comment> \<open>\<open>einsum("ij,jk,ik->i")\<close>, one row\<close>

definition vadd :: "vec \<Rightarrow> vec \<Rightarrow> vec" where "vadd = map2 fadd"
definition vsub :: "vec \<Rightarrow> vec \<Rightarrow> vec" where "vsub = map2 fsub"
definition madd :: "mat \<Rightarrow> mat \<Rightarrow> mat" where "madd = map2 vadd"

definition mat_fin :: "mat \<Rightarrow> bool" where
  "mat_fin m = list_all (list_all is_fin) m"

section \<open>The prior\<close>

record prior =
  pr_mean :: "pynum \<times> pynum"
  pr_precision :: "(pynum \<times> pynum) \<times> (pynum \<times> pynum)"
  pr_shape :: pynum
  pr_scale :: pynum

fun vec2 :: "pynum \<times> pynum \<Rightarrow> vec" where
  "vec2 (a, b) = [a, b]"

fun mat2 :: "(pynum \<times> pynum) \<times> (pynum \<times> pynum) \<Rightarrow> mat" where
  "mat2 (r, s) = [vec2 r, vec2 s]"

definition mk_prior :: "numpy \<Rightarrow> pynum \<times> pynum \<Rightarrow> (pynum \<times> pynum) \<times> (pynum \<times> pynum)
    \<Rightarrow> pynum \<Rightarrow> pynum \<Rightarrow> prior res" where
  "mk_prior np mean precision shape scale =
     bnd (guard (\<not> list_all is_fin (vec2 mean) \<or> \<not> mat_fin (mat2 precision))
            (ValueError ''prior parameters must be finite'')) (\<lambda>_.
     bnd (guard (\<not> feq (snd (fst precision)) (fst (snd precision)))
            (ValueError ''prior precision must be symmetric'')) (\<lambda>_.
     bnd (np_eigmin np (mat2 precision)) (\<lambda>least.
     bnd (guard (fle least (Fin 0)) (ValueError ''prior precision must be positive definite'')) (\<lambda>_.
     bnd (guard (\<not> is_fin shape \<or> \<not> is_fin scale \<or> fle shape (Fin 0) \<or> fle scale (Fin 0))
            (ValueError ''inverse-gamma shape and scale must be positive and finite'')) (\<lambda>_.
       Inr \<lparr>pr_mean = mean, pr_precision = precision, pr_shape = shape, pr_scale = scale\<rparr>)))))"

definition default_prior :: prior where
  "default_prior = \<lparr>pr_mean = (Fin 0, Fin 0), pr_precision = ((Fin 1, Fin 0), (Fin 0, Fin 1)),
     pr_shape = Fin 3, pr_scale = Fin 2\<rparr>"

section \<open>Conditioning\<close>

definition validate_rates :: "vec \<Rightarrow> vec res" where
  "validate_rates values =
     (if values = [] \<or> \<not> list_all is_fin values
      then Inl (ValueError ''rates must be a nonempty finite one-dimensional array'') else Inr values)"

record posterior =
  po_mean :: "pynum \<times> pynum"
  po_factor :: mat
  po_shape :: pynum
  po_scale :: pynum
  po_observations :: int
  po_interval_hours :: int

definition to_bps :: "vec \<Rightarrow> vec" where
  "to_bps = map (\<lambda>r. fmul r (Fin 10000))"

definition design_rows :: "vec \<Rightarrow> mat" where
  "design_rows = map (\<lambda>x. [Fin 1, x])"

definition pair_of :: "vec \<Rightarrow> pynum \<times> pynum" where
  "pair_of v = (v ! 0, v ! 1)"

definition fit :: "numpy \<Rightarrow> vec \<Rightarrow> int \<Rightarrow> prior \<Rightarrow> posterior res" where
  "fit np rates hours prior =
     bnd (guard (\<not> (1 \<le> hours \<and> hours \<le> 24))
            (ValueError ''integer settlement cadence in [1,24] hours required'')) (\<lambda>_.
     bnd (validate_rates rates) (\<lambda>values.
     let bps_values = to_bps values in
     bnd (guard (length bps_values < 3) (ValueError ''at least three settlements required'')) (\<lambda>_.
     let design = design_rows (butlast bps_values);
         target = tl bps_values;
         prior_mean = vec2 (pr_mean prior);
         prior_precision = mat2 (pr_precision prior);
         precision = madd prior_precision (np_gram np design design) in
     bnd (np_solve np precision
            (vadd (np_matvec np prior_precision prior_mean) (np_gram_vec np design target))) (\<lambda>mean.
     let residual = vsub target (np_matvec np design mean);
         displacement = vsub mean prior_mean;
         scale = fadd (pr_scale prior)
           (fmul (Fin (1 / 2)) (fadd (np_dot np residual residual)
              (np_dot np displacement (np_matvec np prior_precision displacement)))) in
     bnd (np_solve_mat np precision [[Fin 1, Fin 0], [Fin 0, Fin 1]]) (\<lambda>factor.
     bnd (guard (\<not> list_all is_fin mean \<or> \<not> mat_fin factor \<or> \<not> is_fin scale)
            (ValueError ''nonfinite posterior; input scale exceeds numerical range'')) (\<lambda>_.
       Inr \<lparr>po_mean = pair_of mean, po_factor = factor,
             po_shape = fadd (pr_shape prior) (fl (of_nat (length target) / 2)),
             po_scale = scale, po_observations = int (length target), po_interval_hours = hours\<rparr>))))))"

text \<open>The marginal one-step prediction: degrees of freedom, locations and scales in settlement fractions.\<close>

definition np_sqrt :: "pynum \<Rightarrow> pynum" where \<comment> \<open>\<open>np.sqrt\<close>: NaN below zero\<close>
  "np_sqrt x = (case fsqrt x of Inl _ \<Rightarrow> NaN | Inr y \<Rightarrow> y)"

definition np_divide :: "pynum \<Rightarrow> pynum \<Rightarrow> pynum" where \<comment> \<open>array or numpy-scalar division\<close>
  "np_divide x y = (case fdiv x y of Inr z \<Rightarrow> z | Inl _ \<Rightarrow> (case x of NaN \<Rightarrow> NaN | _ \<Rightarrow> finf (fsgn x)))"

definition predict :: "numpy \<Rightarrow> posterior \<Rightarrow> vec \<Rightarrow> (pynum \<times> vec \<times> vec) res" where
  "predict np m previous_rates =
     bnd (validate_rates previous_rates) (\<lambda>values.
     bnd (fdiv (po_scale m) (po_shape m)) (\<lambda>ratio.
     let design = design_rows (to_bps values);
         location = np_matvec np design (vec2 (po_mean m));
         leverage = map (\<lambda>row. np_quad np row (po_factor m)) design;
         scale = map (\<lambda>v. np_sqrt (fmul ratio (fadd (Fin 1) v))) leverage
     in Inr (fmul (Fin 2) (po_shape m), map bps location, map bps scale)))"

section \<open>What a posterior is\<close>

lemma fit_Inr:
  assumes "fit np rates hours prior = Inr p"
  shows "po_interval_hours p = hours" "1 \<le> hours" "hours \<le> 24" "3 \<le> length rates"
    and "po_observations p = int (length rates) - 1" "list_all is_fin rates" "is_fin (po_scale p)"
    and "mat_fin (po_factor p)"
    and "po_shape p = fadd (pr_shape prior) (fl (of_int (int (length rates) - 1) / 2))"
proof -
  from assms obtain mean factor scale where
    f: "1 \<le> hours" "hours \<le> 24" "rates \<noteq> []" "list_all is_fin rates" "3 \<le> length rates"
      "mat_fin factor" "is_fin scale"
      "p = \<lparr>po_mean = pair_of mean, po_factor = factor,
             po_shape = fadd (pr_shape prior) (fl (of_nat (length (tl (to_bps rates))) / 2)),
             po_scale = scale, po_observations = int (length (tl (to_bps rates))), po_interval_hours = hours\<rparr>"
    unfolding fit_def Let_def
    by (auto simp: res_simps validate_rates_def to_bps_def split: if_splits)
  have len: "length (tl (to_bps rates)) = length rates - 1" by (simp add: to_bps_def)
  show "po_interval_hours p = hours" "1 \<le> hours" "hours \<le> 24" "3 \<le> length rates"
    "list_all is_fin rates" "is_fin (po_scale p)" "mat_fin (po_factor p)"
    using f by simp_all
  show "po_observations p = int (length rates) - 1"
    using f(5) by (simp only: f(8) len) simp
  have "rat_of_nat (length rates - 1) = of_int (int (length rates) - 1)"
    using f(5) by (simp add: of_nat_diff)
  then show "po_shape p = fadd (pr_shape prior) (fl (of_int (int (length rates) - 1) / 2))"
    by (simp only: f(8) len) simp
qed

end
