(* ===== verification/RollingFunding.thy ===== *)
theory RollingFunding
  imports FundingModel Calendar
begin

text \<open>
  \<open>models/rolling_funding.py\<close>: the causal settlement history of one symbol and its recursive
  predictive paths. The random draws (\<open>Posterior.sample\<close>'s generator, \<open>standard_normal\<close>) and numpy's
  mean and quantile are parameters; the recursion over the horizon is the code's.
\<close>

section \<open>The model state\<close>

definition jitter_ms :: int where "jitter_ms = 5000"

definition rate_bound :: pynum where "rate_bound = fl (5 / 100)"

type_synonym observation = "int \<times> pynum \<times> int"

record rolling =
  rf_days :: int
  rf_min :: int
  rf_prior :: prior
  rf_history :: "observation list"
  rf_resets :: int

definition rf_integer :: "int \<Rightarrow> string \<Rightarrow> int \<Rightarrow> int res" where
  "rf_integer v name minimum =
     (if v < minimum then Inl (FundingHistoryError (name @ '' must be an integer >= '')) else Inr v)"

definition mk_rolling :: "int \<Rightarrow> int \<Rightarrow> prior \<Rightarrow> rolling res" where
  "mk_rolling days least prior =
     bnd (rf_integer days ''rolling_days'' 1) (\<lambda>d.
     bnd (rf_integer least ''min_settlements'' 3) (\<lambda>n.
       Inr \<lparr>rf_days = d, rf_min = n, rf_prior = prior, rf_history = [], rf_resets = 0\<rparr>))"

text \<open>The eviction loop: \<open>_history[0]\<close> of an empty deque would raise.\<close>

fun evict :: "int \<Rightarrow> observation list \<Rightarrow> observation list res" where
  "evict cutoff [] = Inl (IndexError ''deque index out of range'')"
| "evict cutoff (row # rows) = (if fst row < cutoff then evict cutoff rows else Inr (row # rows))"

definition rf_continue :: "rolling \<Rightarrow> int \<Rightarrow> int \<Rightarrow> rolling res" where
  "rf_continue m t hours =
     (if rf_history m = [] then Inr m
      else let (previous, _, previous_hours) = last (rf_history m)
           in bnd (guard (t \<le> previous) (FundingHistoryError ''funding times must be strictly increasing'')) (\<lambda>_.
              bnd (guard (jitter_ms < \<bar>t - previous - hours * hour_ms\<bar>)
                     (FundingHistoryError ''missing or irregular funding settlement'')) (\<lambda>_.
                Inr (if hours \<noteq> previous_hours
                     then m\<lparr>rf_history := [], rf_resets := rf_resets m + 1\<rparr> else m))))"

definition rf_update :: "rolling \<Rightarrow> int \<Rightarrow> pynum \<Rightarrow> int \<Rightarrow> rolling res" where
  "rf_update m funding_time rate interval =
     bnd (rf_integer funding_time ''funding_time'' 0) (\<lambda>t.
     bnd (rf_integer interval ''interval_hours'' 1) (\<lambda>hours.
     bnd (guard (24 < hours \<or> \<not> is_fin rate \<or> flt rate_bound (fabs rate))
            (FundingHistoryError ''invalid cadence or funding fraction outside sanity bound'')) (\<lambda>_.
     bnd (rf_continue m t hours) (\<lambda>m1.
     bnd (evict (t - rf_days m * day_ms) (rf_history m1 @ [(t, rate, hours)])) (\<lambda>rows.
       Inr (m1\<lparr>rf_history := rows\<rparr>))))))"

definition rf_run :: "rolling \<Rightarrow> observation list \<Rightarrow> rolling res" where
  "rf_run = fold_res (\<lambda>m (t, r, h). rf_update m t r h)"

section \<open>Selection and forecasts\<close>

definition rf_selection :: "rolling \<Rightarrow> int option \<Rightarrow> (int \<times> observation list) res" where
  "rf_selection m as_of =
     (if rf_history m = [] then Inl (FundingModelUnavailable ''no observed funding history'')
      else let (latest, _, hours) = last (rf_history m) in
       bnd (case as_of of None \<Rightarrow> Inr latest | Some a \<Rightarrow> rf_integer a ''as_of'' 0) (\<lambda>decision.
       bnd (guard (decision < latest)
              (FundingHistoryError ''as_of precedes an already admitted observation'')) (\<lambda>_.
       bnd (guard (hours * hour_ms + jitter_ms < decision - latest)
              (FundingModelUnavailable ''stale funding history'')) (\<lambda>_.
       let cutoff = decision - rf_days m * day_ms;
           selected = filter (\<lambda>row. cutoff \<le> fst row) (rf_history m) in
       bnd (guard (int (length selected) < rf_min m)
              (FundingModelUnavailable ''insufficient current-cadence rolling history'')) (\<lambda>_.
         Inr (decision, selected))))))"

definition rf_posterior :: "numpy \<Rightarrow> rolling \<Rightarrow> int option \<Rightarrow> posterior res" where
  "rf_posterior np m as_of =
     bnd (rf_selection m as_of) (\<lambda>(_, selected).
       fit np (map (\<lambda>row. fst (snd row)) selected) (snd (snd (last selected))) (rf_prior m))"

record training_summary =
  ts_as_of :: int
  ts_first_time :: int
  ts_last_time :: int
  ts_settlements :: int
  ts_interval_hours :: int
  ts_resets :: int
  ts_last_rate :: pynum

definition rf_training_summary :: "rolling \<Rightarrow> int option \<Rightarrow> training_summary res" where
  "rf_training_summary m as_of =
     bnd (rf_selection m as_of) (\<lambda>(decision, selected).
       Inr \<lparr>ts_as_of = decision, ts_first_time = fst (hd selected), ts_last_time = fst (last selected),
             ts_settlements = int (length selected), ts_interval_hours = snd (snd (last selected)),
             ts_resets = rf_resets m, ts_last_rate = fst (snd (last selected))\<rparr>)"

record forecast =
  cf_samples :: "pynum list"
  cf_horizon :: int
  cf_interval_hours :: int
  cf_as_of :: int
  cf_last_observation :: int
  cf_training_first :: int
  cf_training_settlements :: int
  cf_seed :: int

text \<open>\<open>np.mean\<close> of booleans: an exact count, divided once.\<close>

definition fraction_above :: "pynum list \<Rightarrow> pynum \<Rightarrow> pynum" where
  "fraction_above samples h =
     (if samples = [] then NaN
      else fl (of_nat (length (filter (\<lambda>s. flt h s) samples)) / of_nat (length samples)))"

definition probability_above :: "forecast \<Rightarrow> pynum \<Rightarrow> pynum res" where
  "probability_above f fraction =
     (if \<not> is_fin fraction then Inl (ValueError ''threshold must be a finite funding fraction'')
      else Inr (fraction_above (cf_samples f) fraction))"

text \<open>The draws: each has coefficients, a variance, and one standard normal for each step.\<close>

record draws =
  dr_sample :: "posterior \<Rightarrow> nat \<Rightarrow> int \<Rightarrow> (pynum \<times> pynum \<times> pynum) list"
  dr_normal :: "int \<Rightarrow> nat \<Rightarrow> nat \<Rightarrow> pynum list" \<comment> \<open>generator seed, draws, step\<close>

definition path_step :: "pynum \<times> pynum \<times> pynum \<Rightarrow> pynum \<Rightarrow> pynum \<Rightarrow> pynum" where
  "path_step c z current =
     (let (intercept, phi, variance) = c
      in fadd (fadd intercept (fmul phi current)) (fmul z (np_sqrt variance)))"

fun path_total :: "pynum \<times> pynum \<times> pynum \<Rightarrow> pynum list \<Rightarrow> pynum \<Rightarrow> pynum \<Rightarrow> pynum" where
  "path_total c [] current acc = acc"
| "path_total c (z # zs) current acc =
     (let drawn = path_step c z current in path_total c zs drawn (fadd acc drawn))"

definition predict_cumulative_funding ::
  "numpy \<Rightarrow> draws \<Rightarrow> rolling \<Rightarrow> int \<Rightarrow> int option \<Rightarrow> int \<Rightarrow> int \<Rightarrow> forecast res" where
  "predict_cumulative_funding np dr m horizon as_of draw_count seed =
     bnd (rf_integer horizon ''horizon'' 1) (\<lambda>_.
     bnd (rf_integer draw_count ''draws'' 2) (\<lambda>_.
     bnd (rf_integer seed ''seed'' 0) (\<lambda>_.
     bnd (rf_selection m as_of) (\<lambda>(decision, selected).
     bnd (rf_posterior np m (Some decision)) (\<lambda>posterior.
     let n = nat draw_count;
         sampled = dr_sample dr posterior n seed;
         start = fmul (fst (snd (last selected))) (Fin 10000);
         normals = map (\<lambda>k. dr_normal dr (seed + 1) n k) [0..<nat horizon];
         totals = map (\<lambda>i. path_total (sampled ! i) (map (\<lambda>row. row ! i) normals) start (Fin 0)) [0..<n] in
     bnd (guard (\<not> list_all is_fin totals)
            (FundingModelUnavailable ''nonfinite predictive paths; horizon/model unstable'')) (\<lambda>_.
       Inr \<lparr>cf_samples = map bps totals, cf_horizon = horizon,
             cf_interval_hours = snd (snd (last selected)), cf_as_of = decision,
             cf_last_observation = fst (last selected), cf_training_first = fst (hd selected),
             cf_training_settlements = int (length selected), cf_seed = seed\<rparr>))))))"

section \<open>The history invariant\<close>

text \<open>One cadence, settlements one interval apart up to jitter, sane rates, all inside the window.\<close>

definition row_ok :: "observation \<Rightarrow> bool" where
  "row_ok r \<longleftrightarrow> 0 \<le> fst r \<and> is_fin (fst (snd r)) \<and> \<not> flt rate_bound (fabs (fst (snd r)))
     \<and> 1 \<le> snd (snd r) \<and> snd (snd r) \<le> 24"

fun consecutive :: "observation list \<Rightarrow> bool" where
  "consecutive (a # b # rest) \<longleftrightarrow>
     snd (snd a) = snd (snd b) \<and> fst a < fst b \<and> \<bar>fst b - fst a - snd (snd b) * hour_ms\<bar> \<le> jitter_ms
     \<and> consecutive (b # rest)"
| "consecutive _ \<longleftrightarrow> True"

definition rf_inv :: "rolling \<Rightarrow> bool" where
  "rf_inv m \<longleftrightarrow> 1 \<le> rf_days m \<and> 3 \<le> rf_min m \<and> (\<forall>r \<in> set (rf_history m). row_ok r)
     \<and> consecutive (rf_history m)
     \<and> (\<forall>r \<in> set (rf_history m). fst (last (rf_history m)) - rf_days m * day_ms \<le> fst r)"

lemma consecutive_snoc:
  "consecutive (xs @ [r]) \<longleftrightarrow> consecutive xs \<and> (xs = [] \<or>
     snd (snd (last xs)) = snd (snd r) \<and> fst (last xs) < fst r
     \<and> \<bar>fst r - fst (last xs) - snd (snd r) * hour_ms\<bar> \<le> jitter_ms)"
  by (induction xs rule: consecutive.induct) auto

lemma consecutive_tl: "consecutive (x # xs) \<Longrightarrow> consecutive xs"
  by (cases xs) auto

lemma consecutive_sorted: "consecutive xs \<Longrightarrow> sorted_wrt (\<lambda>a b. fst a < fst b) xs"
proof (induction xs rule: consecutive.induct)
  case (1 a b rest)
  then show ?case by auto
qed auto

lemma consecutive_hours: "consecutive xs \<Longrightarrow> r \<in> set xs \<Longrightarrow> snd (snd r) = snd (snd (last xs))"
proof (induction xs arbitrary: r)
  case (Cons a xs)
  have tl: "consecutive xs" using Cons.prems(1) by (rule consecutive_tl)
  show ?case
  proof (cases "xs = []")
    case False
    then obtain b rest where xs: "xs = b # rest" by (cases xs) auto
    have b: "snd (snd b) = snd (snd (last xs))" by (rule Cons.IH [OF tl]) (simp add: xs)
    have ab: "snd (snd a) = snd (snd b)" using Cons.prems(1) unfolding xs consecutive.simps by blast
    have l: "last (a # xs) = last xs" using False by (rule last_ConsR)
    consider "r = a" | "r \<in> set xs" using Cons.prems(2) by auto
    then show ?thesis
    proof cases
      case 1
      show ?thesis unfolding 1 l ab b ..
    next
      case 2
      show ?thesis unfolding l by (rule Cons.IH [OF tl 2])
    qed
  qed (use Cons.prems in simp)
qed simp

lemma consecutive_le_last: "consecutive xs \<Longrightarrow> row \<in> set xs \<Longrightarrow> fst row \<le> fst (last xs)"
  by (induction xs rule: rev_induct)
    (auto dest!: consecutive_sorted simp: sorted_wrt_append intro: less_imp_le)

lemma evict_spec:
  "xs \<noteq> [] \<Longrightarrow> cutoff \<le> fst (last xs) \<Longrightarrow> consecutive xs \<Longrightarrow>
   \<exists>ys. evict cutoff xs = Inr ys \<and> ys \<noteq> [] \<and> last ys = last xs \<and> consecutive ys \<and> set ys \<subseteq> set xs
     \<and> (\<forall>r \<in> set ys. cutoff \<le> fst r) \<and> ys = filter (\<lambda>r. cutoff \<le> fst r) xs"
proof (induction xs)
  case (Cons x xs)
  show ?case
  proof (cases "fst x < cutoff")
    case True
    then have ne: "xs \<noteq> []" using Cons.prems(2) by auto
    have "cutoff \<le> fst (last xs)" using Cons.prems(2) ne by simp
    from Cons.IH [OF ne this consecutive_tl [OF Cons.prems(3)]] obtain ys where
      ys: "evict cutoff xs = Inr ys" "ys \<noteq> []" "last ys = last xs" "consecutive ys" "set ys \<subseteq> set xs"
      "\<forall>r \<in> set ys. cutoff \<le> fst r" "ys = filter (\<lambda>r. cutoff \<le> fst r) xs" by blast
    have "last ys = last (x # xs)" unfolding last_ConsR [OF ne] by (rule ys(3))
    moreover have "set ys \<subseteq> set (x # xs)" using ys(5) by auto
    moreover have "ys = filter (\<lambda>r. cutoff \<le> fst r) (x # xs)" unfolding ys(7) using True by simp
    moreover have "evict cutoff (x # xs) = Inr ys" using ys(1) True by simp
    ultimately show ?thesis using ys(2,4,6) by blast
  next
    case False
    have "\<forall>r \<in> set (x # xs). cutoff \<le> fst r"
      using consecutive_sorted [OF Cons.prems(3)] False by auto
    then show ?thesis using False Cons.prems by simp
  qed
qed simp

lemma mk_rolling_inv: "mk_rolling days least prior = Inr m \<Longrightarrow> rf_inv m \<and> rf_history m = []"
  by (auto simp: mk_rolling_def rf_integer_def res_simps rf_inv_def)

text \<open>A successful update: the history it starts from is kept, or dropped when the cadence changes.\<close>

definition kept_rows :: "rolling \<Rightarrow> int \<Rightarrow> observation list" where
  "kept_rows m hours =
     (if rf_history m \<noteq> [] \<and> snd (snd (last (rf_history m))) = hours then rf_history m else [])"

lemma rf_continueE:
  assumes "rf_continue m t h = Inr m1"
  shows "rf_history m1 = kept_rows m h" "rf_days m1 = rf_days m" "rf_min m1 = rf_min m" "rf_prior m1 = rf_prior m"
    and "rf_history m \<noteq> [] \<Longrightarrow> fst (last (rf_history m)) < t
         \<and> \<bar>t - fst (last (rf_history m)) - h * hour_ms\<bar> \<le> jitter_ms"
  using assms by (auto simp: rf_continue_def kept_rows_def res_simps split: if_splits prod.splits)

lemma rf_updateE:
  assumes "rf_update m t r h = Inr m'" "rf_inv m"
  shows "row_ok (t, r, h)"
    and "rf_history m' = filter (\<lambda>row. t - rf_days m * day_ms \<le> fst row) (kept_rows m h @ [(t, r, h)])"
    and "consecutive (kept_rows m h @ [(t, r, h)])"
    and "rf_days m' = rf_days m" "rf_min m' = rf_min m" "rf_prior m' = rf_prior m"
    and "rf_history m \<noteq> [] \<Longrightarrow> fst (last (rf_history m)) < t"
proof -
  from assms(1) obtain m1 rows where
    b: "0 \<le> t" "1 \<le> h" "h \<le> 24" "is_fin r" "\<not> flt rate_bound (fabs r)"
    and c1: "rf_continue m t h = Inr m1"
    and e1: "evict (t - rf_days m * day_ms) (rf_history m1 @ [(t, r, h)]) = Inr rows"
    and m': "m' = m1\<lparr>rf_history := rows\<rparr>"
    unfolding rf_update_def by (auto simp: res_simps rf_integer_def not_less)
  note m1 = rf_continueE(1-4) [OF c1] and c = rf_continueE(5) [OF c1]
  have e: "evict (t - rf_days m * day_ms) (kept_rows m h @ [(t, r, h)]) = Inr rows"
    using e1 by (simp add: m1)
  show row: "row_ok (t, r, h)" using b by (auto simp: row_ok_def)
  show con: "consecutive (kept_rows m h @ [(t, r, h)])"
    using assms(2) c by (auto simp: consecutive_snoc kept_rows_def rf_inv_def)
  have "t - rf_days m * day_ms \<le> t" using assms(2) by (simp add: rf_inv_def day_ms_def)
  then obtain ys where "evict (t - rf_days m * day_ms) (kept_rows m h @ [(t, r, h)]) = Inr ys"
    "ys = filter (\<lambda>row. t - rf_days m * day_ms \<le> fst row) (kept_rows m h @ [(t, r, h)])"
    using evict_spec [OF _ _ con, of "t - rf_days m * day_ms"] by (metis Nil_is_append_conv fst_conv last_snoc not_Cons_self2)
  then have "rows = filter (\<lambda>row. t - rf_days m * day_ms \<le> fst row) (kept_rows m h @ [(t, r, h)])"
    using e by simp
  then show "rf_history m' = filter (\<lambda>row. t - rf_days m * day_ms \<le> fst row) (kept_rows m h @ [(t, r, h)])"
    by (simp add: m')
  show "rf_days m' = rf_days m" "rf_min m' = rf_min m" "rf_prior m' = rf_prior m" using m1 m' by auto
  show "rf_history m \<noteq> [] \<Longrightarrow> fst (last (rf_history m)) < t" using c by blast
qed


lemma kept_filter_last:
  assumes "rf_update m t r h = Inr m'" "rf_inv m"
  shows "rf_history m' \<noteq> []" "last (rf_history m') = (t, r, h)" "consecutive (rf_history m')"
    and "\<forall>row \<in> set (rf_history m'). t - rf_days m * day_ms \<le> fst row"
    and "set (rf_history m') \<subseteq> insert (t, r, h) (set (rf_history m))"
proof -
  note u = rf_updateE [OF assms]
  have "t - rf_days m * day_ms \<le> t" using assms(2) by (simp add: rf_inv_def day_ms_def)
  then obtain ys where "evict (t - rf_days m * day_ms) (kept_rows m h @ [(t, r, h)]) = Inr ys"
    and ys: "ys \<noteq> []" "last ys = last (kept_rows m h @ [(t, r, h)])" "consecutive ys"
    "ys = filter (\<lambda>row. t - rf_days m * day_ms \<le> fst row) (kept_rows m h @ [(t, r, h)])"
    using evict_spec [OF _ _ u(3), of "t - rf_days m * day_ms"] by (metis Nil_is_append_conv fst_conv last_snoc not_Cons_self2)
  have h: "rf_history m' = ys" unfolding u(2) ys(4) ..
  show "rf_history m' \<noteq> []" "consecutive (rf_history m')" unfolding h by (rule ys)+
  show "last (rf_history m') = (t, r, h)" unfolding h ys(2) by simp
  show "\<forall>row \<in> set (rf_history m'). t - rf_days m * day_ms \<le> fst row" unfolding u(2) by simp
  show "set (rf_history m') \<subseteq> insert (t, r, h) (set (rf_history m))"
    unfolding u(2) by (auto simp: kept_rows_def)
qed

lemma rf_update_inv:
  assumes "rf_inv m" "rf_update m t r h = Inr m'"
  shows "rf_inv m'"
proof -
  note u = rf_updateE [OF assms(2,1)] and k = kept_filter_last [OF assms(2,1)]
  have "\<forall>row \<in> set (rf_history m'). row_ok row"
    using k(5) u(1) assms(1) by (auto simp: rf_inv_def)
  then show ?thesis using assms(1) k(2-4) u(4,5) by (simp add: rf_inv_def)
qed

lemma rf_run_inv: "rf_inv m \<Longrightarrow> rf_run m obs = Inr m' \<Longrightarrow> rf_inv m'"
  unfolding rf_run_def
  by (rule fold_res_invariant [where P = rf_inv]) (auto intro: rf_update_inv split: prod.splits)

text \<open>Every admitted update comes strictly after the last one: rejected calls leave no trace.\<close>

lemma rf_run_Cons: "rf_run m (o1 # obs) = bnd (rf_update m (fst o1) (fst (snd o1)) (snd (snd o1))) (\<lambda>m'. rf_run m' obs)"
  by (simp add: rf_run_def split: prod.splits)

lemma rf_run_last:
  "rf_inv m \<Longrightarrow> rf_run m obs = Inr m' \<Longrightarrow> obs \<noteq> [] \<Longrightarrow> last (rf_history m') = last obs \<and> rf_history m' \<noteq> []"
proof (induction obs arbitrary: m)
  case (Cons a obs)
  then obtain m1 where m1: "rf_update m (fst a) (fst (snd a)) (snd (snd a)) = Inr m1" "rf_run m1 obs = Inr m'"
    by (auto simp: rf_run_Cons res_simps)
  have inv: "rf_inv m1" using Cons.prems(1) m1(1) by (rule rf_update_inv)
  show ?case
  proof (cases "obs = []")
    case True
    then show ?thesis using m1(2) kept_filter_last(1,2) [OF m1(1) Cons.prems(1)] by (simp add: rf_run_def)
  next
    case False
    then show ?thesis using Cons.IH [OF inv m1(2)] by simp
  qed
qed simp

lemma rf_run_subset: "rf_inv m \<Longrightarrow> rf_run m obs = Inr m' \<Longrightarrow> set (rf_history m') \<subseteq> set (rf_history m) \<union> set obs"
proof (induction obs arbitrary: m)
  case (Cons a obs)
  then obtain m1 where m1: "rf_update m (fst a) (fst (snd a)) (snd (snd a)) = Inr m1" "rf_run m1 obs = Inr m'"
    by (auto simp: rf_run_Cons res_simps)
  have "rf_inv m1" using Cons.prems(1) m1(1) by (rule rf_update_inv)
  then show ?case
    using Cons.IH [OF _ m1(2)] kept_filter_last(5) [OF m1(1) Cons.prems(1)] by auto
qed (simp add: rf_run_def)

lemma rf_selectionE:
  assumes "rf_selection m as_of = Inr (decision, selected)"
  shows "rf_history m \<noteq> []" "fst (last (rf_history m)) \<le> decision"
    "decision \<le> fst (last (rf_history m)) + snd (snd (last (rf_history m))) * hour_ms + jitter_ms"
    "selected = filter (\<lambda>row. decision - rf_days m * day_ms \<le> fst row) (rf_history m)"
    "rf_min m \<le> int (length selected)"
    "as_of = None \<and> decision = fst (last (rf_history m)) \<or> as_of = Some decision"
  using assms by (auto simp: rf_selection_def rf_integer_def Let_def res_simps not_less
      split: if_splits prod.splits option.splits)

lemma selection_is_window:
  assumes "rf_inv m" "rf_selection m as_of = Inr (decision, selected)"
  shows "selected \<noteq> []" "last selected = last (rf_history m)" "consecutive selected"
    and "\<forall>row \<in> set selected. row \<in> set (rf_history m) \<and> decision - rf_days m * day_ms \<le> fst row \<and> fst row \<le> decision"
proof -
  note s = rf_selectionE [OF assms(2)]
  show ne: "selected \<noteq> []" using s(5) assms(1) by (auto simp: rf_inv_def)
  have con: "consecutive (rf_history m)" using assms(1) by (simp add: rf_inv_def)
  have le: "fst row \<le> fst (last (rf_history m))" if "row \<in> set (rf_history m)" for row
    using con that by (rule consecutive_le_last)
  obtain row where row: "row \<in> set (rf_history m)" "decision - rf_days m * day_ms \<le> fst row"
    using ne s(4) by (metis filter_False)
  have "decision - rf_days m * day_ms \<le> fst (last (rf_history m))" using row le by fastforce
  from evict_spec [OF s(1) this con] obtain ys where ys: "last ys = last (rf_history m)" "consecutive ys"
    "ys = filter (\<lambda>r. decision - rf_days m * day_ms \<le> fst r) (rf_history m)" by blast
  then show "last selected = last (rf_history m)" "consecutive selected" by (simp_all add: s(4))
  show "\<forall>row \<in> set selected. row \<in> set (rf_history m) \<and> decision - rf_days m * day_ms \<le> fst row \<and> fst row \<le> decision"
    using le s(2) by (auto simp: s(4)) (meson le order_trans)
qed


section \<open>Properties\<close>

definition example_prior :: prior where "example_prior = default_prior"

definition example_rolling :: rolling where
  "example_rolling = \<lparr>rf_days = 90, rf_min = 3, rf_prior = example_prior, rf_history = [], rf_resets = 0\<rparr>"

definition example_observations :: "observation list" where
  "example_observations = [(0, Fin (1 / 1024), 8), (28800000, Fin (1 / 2048), 8), (57600010, Fin (1 / 1024), 8)]"

lemma example_mk_rolling: "mk_rolling 90 3 example_prior = Inr example_rolling"
  by (simp add: mk_rolling_def rf_integer_def example_rolling_def)

lemma rate_bound_ge: "fle (fl (1 / 32)) rate_bound"
  unfolding rate_bound_def by (rule fl_mono) simp

text \<open>C16: the history a rolling model holds after any accepted sequence of settlements is one
  unbroken run at one cadence: strictly increasing times, each step the row's own interval up to five
  seconds of jitter, one interval for all rows, sane rates, all inside the rolling window that ends
  at the last settlement; and it is made of observed rows only, ending in the latest one.\<close>

theorem rolling_history_is_one_cadence:
  assumes "mk_rolling days least prior = Inr m0" "rf_run m0 obs = Inr m" "obs \<noteq> []"
  shows "rf_history m \<noteq> [] \<and> last (rf_history m) = last obs \<and> set (rf_history m) \<subseteq> set obs
    \<and> consecutive (rf_history m)
    \<and> (\<forall>r \<in> set (rf_history m). snd (snd r) = snd (snd (last obs))
         \<and> fst (last obs) - days * day_ms \<le> fst r \<and> is_fin (fst (snd r))
         \<and> \<not> flt (fl (5 / 100)) (fabs (fst (snd r))))"
proof -
  have m0: "rf_inv m0" "rf_history m0 = []" "rf_days m0 = days"
    using mk_rolling_inv [OF assms(1)] assms(1) by (auto simp: mk_rolling_def rf_integer_def res_simps)
  have days: "rf_days m = days"
    unfolding m0(3) [symmetric] using m0(1) assms(2) unfolding rf_run_def
    by (intro conjunct2 [OF fold_res_invariant [where P = "\<lambda>m. rf_inv m \<and> rf_days m = rf_days m0" and f = "\<lambda>m (t, r, h). rf_update m t r h" and s = m0]])
      (auto intro: rf_update_inv simp: rf_updateE(4))
  have inv: "rf_inv m" using m0(1) assms(2) by (rule rf_run_inv)
  note l = rf_run_last [OF m0(1) assms(2,3)]
  show ?thesis
    using l inv rf_run_subset [OF m0(1) assms(2)] consecutive_hours [of "rf_history m"] days
    by (auto simp: rf_inv_def m0(2) row_ok_def rate_bound_def)
qed

definition example_history :: rolling where
  "example_history = example_rolling\<lparr>rf_history := example_observations\<rparr>"

lemma example_rates_sane: "\<not> flt rate_bound (Fin (1 / 1024))" "\<not> flt rate_bound (Fin (1 / 2048))"
proof -
  have "fle (Fin (1 / 32)) rate_bound" using rate_bound_ge by (simp add: short_float)
  then have b: "fle (Fin x) rate_bound" if "x \<le> 1 / 32" for x
    by (rule fle_trans [rotated]) (use that in simp)
  show "\<not> flt rate_bound (Fin (1 / 1024))" "\<not> flt rate_bound (Fin (1 / 2048))"
    by (rule fle_not_flt, rule b, simp)+
qed

lemma example_rf_run: "rf_run example_rolling example_observations = Inr example_history"
  by (simp add: rf_run_def rf_update_def rf_continue_def rf_integer_def example_rolling_def example_history_def
      example_observations_def example_rates_sane fabs_def day_ms_def hour_ms_def jitter_ms_def cong: eval_cong)

lemma rolling_history_is_one_cadence_witness:
  "rf_run example_rolling example_observations = Inr example_history \<and> consecutive (rf_history example_history)
   \<and> last (rf_history example_history) = (57600010, Fin (1 / 1024), 8)"
  using rolling_history_is_one_cadence [OF example_mk_rolling example_rf_run] example_rf_run
  by (simp add: example_observations_def)

text \<open>C17: a selection for a decision time reads nothing newer than that time: it fails when the decision
  precedes the last admitted settlement or comes more than one interval plus jitter after it, and
  otherwise it is exactly the held rows of the last \<open>rolling_days\<close> days, at least \<open>min_settlements\<close> of
  them, ending in the latest settlement.\<close>

theorem selection_is_causal:
  assumes "mk_rolling days least prior = Inr m0" "rf_run m0 obs = Inr m"
    and "rf_selection m as_of = Inr (decision, selected)"
  shows "selected = filter (\<lambda>row. decision - rf_days m * day_ms \<le> fst row) (rf_history m)
    \<and> rf_min m \<le> int (length selected) \<and> last selected = last (rf_history m) \<and> selected \<noteq> []
    \<and> (\<forall>row \<in> set selected. row \<in> set obs \<and> fst row \<le> decision)
    \<and> decision \<le> fst (last selected) + snd (snd (last selected)) * hour_ms + 5000
    \<and> (\<forall>a. as_of = Some a \<longrightarrow> decision = a)"
proof -
  have m0: "rf_inv m0" "rf_history m0 = []" using mk_rolling_inv [OF assms(1)] by auto
  have inv: "rf_inv m" using m0(1) assms(2) by (rule rf_run_inv)
  note s = rf_selectionE [OF assms(3)] and w = selection_is_window [OF inv assms(3)]
  have "\<forall>row \<in> set selected. row \<in> set obs \<and> fst row \<le> decision"
    using w(4) rf_run_subset [OF m0(1) assms(2)] unfolding m0(2) by auto
  moreover have "decision \<le> fst (last selected) + snd (snd (last selected)) * hour_ms + 5000"
    using s(3) unfolding w(2) jitter_ms_def .
  moreover have "\<forall>a. as_of = Some a \<longrightarrow> decision = a" using s(6) by auto
  ultimately show ?thesis using s(4,5) w(1,2) by blast
qed

lemma selection_is_causal_witness:
  "\<exists>selected. rf_selection example_history (Some 60000000) = Inr (60000000, selected)
     \<and> last selected = (57600010, Fin (1 / 1024), 8) \<and> fst (hd selected) \<le> 60000000 \<and> selected \<noteq> []"
proof -
  have "rf_selection example_history (Some 60000000) = Inr (60000000, example_observations)"
    by (simp add: rf_selection_def example_history_def example_rolling_def example_observations_def
        rf_integer_def hour_ms_def jitter_ms_def day_ms_def)
  then show ?thesis
    using selection_is_causal [OF example_mk_rolling example_rf_run] by (force simp: example_observations_def)
qed

end
