(* ===== verification/Text.thy ===== *)
theory Text
  imports Floats Calendar "HOL-Library.Char_ord" "HOL-Library.List_Lexorder"
begin

text \<open>
  Text and parsed documents: the digests, ISO dates and nonempty texts that records carry, and JSON
  values as \<open>json.loads\<close> returns them, with Python's notion of their types. Strings are lists of 8-bit
  characters; they are ordered lexicographically, as Python orders them.
\<close>

section \<open>Strings\<close>

definition is_digest :: "string \<Rightarrow> bool" where
  "is_digest s \<longleftrightarrow> length s = 64 \<and> list_all (\<lambda>c. c \<in> set ''0123456789abcdef'') s"

definition py_space :: "char \<Rightarrow> bool" where \<comment> \<open>\<open>str.isspace\<close> on one Latin-1 character\<close>
  "py_space c \<longleftrightarrow> (let n = of_char c :: nat in 9 \<le> n \<and> n \<le> 13 \<or> 28 \<le> n \<and> n \<le> 32 \<or> n = 133 \<or> n = 160)"

definition has_text :: "string \<Rightarrow> bool" where \<comment> \<open>truth of \<open>value.strip()\<close>\<close>
  "has_text s \<longleftrightarrow> list_ex (\<lambda>c. \<not> py_space c) s"

definition is_digit :: "char \<Rightarrow> bool" where
  "is_digit c \<longleftrightarrow> (let n = of_char c :: nat in 48 \<le> n \<and> n \<le> 57)"

definition digit_val :: "char \<Rightarrow> int" where
  "digit_val c = of_char c - 48"

definition digits_val :: "string \<Rightarrow> int" where
  "digits_val s = foldl (\<lambda>a c. 10 * a + digit_val c) 0 s"

definition is_digits :: "string \<Rightarrow> bool" where
  "is_digits s \<longleftrightarrow> s \<noteq> [] \<and> list_all is_digit s"

text \<open>\<open>date.fromisoformat\<close> on the canonical form \<open>YYYY-MM-DD\<close>, the only one whose \<open>str\<close> is the text itself.\<close>

definition iso_date :: "string \<Rightarrow> int option" where
  "iso_date s =
     (if length s = 10 \<and> is_digits (take 4 s) \<and> s ! 4 = CHR ''-'' \<and> is_digits (take 2 (drop 5 s))
         \<and> s ! 7 = CHR ''-'' \<and> is_digits (drop 8 s)
      then let y = digits_val (take 4 s); m = digits_val (take 2 (drop 5 s)); d = digits_val (drop 8 s)
           in if 1 \<le> y \<and> 1 \<le> m \<and> m \<le> 12 \<and> 1 \<le> d \<and> d \<le> days_in_month y m
              then Some (ymd2ord y m d) else None
      else None)"

section \<open>JSON values\<close>

datatype json =
    JNull
  | JBool bool
  | JInt int
  | JNum pynum
  | JStr string
  | JList "json list"
  | JDict "(string \<times> json) list"

definition jget :: "(string \<times> json) list \<Rightarrow> string \<Rightarrow> json res" where
  "jget d k = (case map_of d k of None \<Rightarrow> Inl (KeyError k) | Some v \<Rightarrow> Inr v)"

fun jitems :: "json \<Rightarrow> json list option" where
  "jitems (JList xs) = Some xs"
| "jitems _ = None"

fun jstr :: "json \<Rightarrow> string option" where
  "jstr (JStr s) = Some s"
| "jstr _ = None"

fun jstrs :: "json list \<Rightarrow> string list option" where
  "jstrs [] = Some []"
| "jstrs (JStr s # xs) = map_option (Cons s) (jstrs xs)"
| "jstrs _ = None"

lemma jget_Inr [res_simps]: "jget d k = Inr v \<longleftrightarrow> map_of d k = Some v"
  by (simp add: jget_def split: option.splits)

lemma jstrs_Some: "jstrs xs = Some ss \<longleftrightarrow> xs = map JStr ss"
proof (induction xs arbitrary: ss)
  case (Cons x xs)
  then show ?case by (cases x; cases ss) auto
qed auto

text \<open>The numbers of a document, as the exact values Python compares; a huge integer has no float.\<close>

fun jnumber :: "json \<Rightarrow> pynum option" where
  "jnumber (JInt i) = (if is_fin (fl (of_int i)) then Some (Fin (of_int i)) else None)"
| "jnumber (JNum x) = (if is_fin x then Some x else None)"
| "jnumber _ = None"

lemma jnumber_fin: "jnumber v = Some x \<Longrightarrow> is_fin x"
  by (cases v) (auto split: if_splits)

text \<open>Strictly increasing: the list equals \<open>sorted(set(...))\<close> of itself.\<close>

definition ascending :: "('a :: linorder) list \<Rightarrow> bool" where
  "ascending xs \<longleftrightarrow> sorted_wrt (<) xs"

lemma ascending_iff: "ascending xs \<longleftrightarrow> sort (remdups xs) = xs"
proof
  assume "ascending xs"
  then have "sorted xs" "distinct xs"
    unfolding ascending_def by (simp_all add: strict_sorted_iff)
  then show "sort (remdups xs) = xs" by (simp add: sorted_sort_id distinct_remdups_id)
next
  assume a: "sort (remdups xs) = xs"
  then have "sorted xs" "distinct xs" by (metis sorted_sort, metis distinct_sort distinct_remdups)
  then show "ascending xs" by (simp add: ascending_def strict_sorted_iff)
qed

lemma ascending_unique: "ascending xs \<Longrightarrow> ascending ys \<Longrightarrow> set xs = set ys \<Longrightarrow> xs = ys"
  unfolding ascending_def strict_sorted_iff by (simp add: sorted_distinct_set_unique)

end
