(* ===== verification/Carry.thy ===== *)
theory Carry
  imports RollingFunding Text
begin

text \<open>
  \<open>strategy/carry.py\<close> and \<open>strategy/funding.py\<close>: the deterministic decision of one symbol. The checked
  constructors are functions into \<open>res\<close>; \<open>decide\<close> has the guards of the source in its order. numpy's
  mean of the samples is a parameter, as is the SHA-256 digest that binds a forecast to its model.
\<close>

section \<open>Checked arguments\<close>

definition integer :: "int \<Rightarrow> string \<Rightarrow> int \<Rightarrow> int res" where
  "integer v name minimum =
     (if v < minimum then Inl (ValueError (name @ '' must be an integer >= '')) else Inr v)"

definition number :: "pynum \<Rightarrow> string \<Rightarrow> pynum \<Rightarrow> pynum res" where
  "number v name minimum =
     (if \<not> is_fin v \<or> flt v minimum then Inl (ValueError (name @ '' must be finite and >= '')) else Inr v)"

lemma integer_Inr [res_simps]: "integer v name k = Inr n \<longleftrightarrow> n = v \<and> k \<le> v"
  by (auto simp: integer_def)

lemma number_Inr [res_simps]: "number v name k = Inr x \<longleftrightarrow> x = v \<and> is_fin v \<and> \<not> flt v k"
  by (auto simp: number_def)

section \<open>Inputs of a decision\<close>

record policy =
  pl_horizon :: int
  pl_entry :: pynum
  pl_continuation :: pynum
  pl_synthetic :: bool

definition mk_policy :: "int \<Rightarrow> pynum \<Rightarrow> pynum \<Rightarrow> bool \<Rightarrow> policy res" where
  "mk_policy horizon entry continuation synthetic =
     bnd (integer horizon ''horizon_settlements'' 1) (\<lambda>_.
     bnd (number entry ''entry_probability'' (Fin 0)) (\<lambda>_.
     bnd (number continuation ''continuation_probability'' (Fin 0)) (\<lambda>_.
     bnd (guard (\<not> (fle (Fin 0) continuation \<and> flt continuation entry \<and> flt entry (Fin 1)))
            (ValueError ''require 0 <= continuation < entry < 1'')) (\<lambda>_.
       Inr \<lparr>pl_horizon = horizon, pl_entry = entry, pl_continuation = continuation,
             pl_synthetic = synthetic\<rparr>))))"

record position =
  ps_symbol :: string
  ps_notional :: pynum
  ps_opened :: int
  ps_planned :: int
  ps_held :: int
  ps_interval :: int

definition mk_position :: "string \<Rightarrow> pynum \<Rightarrow> int \<Rightarrow> int \<Rightarrow> int \<Rightarrow> int \<Rightarrow> position res" where
  "mk_position symbol notional opened planned held interval =
     bnd (number notional ''notional_usdt'' (Fin 0)) (\<lambda>_.
     bnd (guard (symbol = [] \<or> feq notional (Fin 0)) (ValueError ''symbol and positive notional required'')) (\<lambda>_.
     bnd (integer opened ''opened_at_ms'' 0) (\<lambda>_.
     bnd (integer planned ''planned_settlements'' 1) (\<lambda>_.
     bnd (integer held ''settlements_held'' 0) (\<lambda>_.
     bnd (integer interval ''interval_hours'' 1) (\<lambda>_.
     bnd (guard (24 < interval) (ValueError ''invalid funding interval'')) (\<lambda>_.
       Inr \<lparr>ps_symbol = symbol, ps_notional = notional, ps_opened = opened, ps_planned = planned,
             ps_held = held, ps_interval = interval\<rparr>)))))))"

record approval =
  ap_symbol :: string
  ap_horizons :: "int list"
  ap_interval :: int
  ap_validation_end :: int
  ap_valid_until :: int
  ap_evidence :: string
  ap_approved :: bool
  ap_model :: string

definition mk_approval :: "string \<Rightarrow> int list \<Rightarrow> int \<Rightarrow> int \<Rightarrow> int \<Rightarrow> string \<Rightarrow> bool \<Rightarrow> string \<Rightarrow> approval res" where
  "mk_approval symbol horizons interval validation_end valid_until evidence approved model =
     bnd (guard (symbol = [] \<or> horizons = [])
            (ValueError ''symbol and immutable approved-horizon scope required'')) (\<lambda>_.
     bnd (map_res (\<lambda>h. integer h ''approved horizon'' 1) horizons) (\<lambda>_.
     bnd (guard (card (set horizons) \<noteq> length horizons) (ValueError ''duplicate approved horizons'')) (\<lambda>_.
     bnd (integer interval ''interval_hours'' 1) (\<lambda>_.
     bnd (integer validation_end ''validation_end_exclusive_ms'' 0) (\<lambda>_.
     bnd (integer valid_until ''valid_until_ms'' (validation_end + 1)) (\<lambda>_.
     bnd (guard (24 < interval) (ValueError ''invalid cadence or approval verdict'')) (\<lambda>_.
     bnd (guard (\<not> is_digest evidence) (ValueError ''funding approval requires evidence digest'')) (\<lambda>_.
     bnd (guard (\<not> is_digest model)
            (ValueError ''funding approval requires model/configuration digest'')) (\<lambda>_.
       Inr \<lparr>ap_symbol = symbol, ap_horizons = horizons, ap_interval = interval,
             ap_validation_end = validation_end, ap_valid_until = valid_until, ap_evidence = evidence,
             ap_approved = approved, ap_model = model\<rparr>)))))))))"

record funding_forecast =
  ff_symbol :: string
  ff_prediction :: forecast
  ff_model :: string

definition mk_funding_forecast :: "string \<Rightarrow> forecast \<Rightarrow> string \<Rightarrow> funding_forecast res" where
  "mk_funding_forecast symbol prediction model =
     bnd (guard (symbol = []) (ValueError ''funding forecast symbol required'')) (\<lambda>_.
     bnd (guard (\<not> is_digest model)
            (ValueError ''funding forecast requires model/configuration digest'')) (\<lambda>_.
       Inr \<lparr>ff_symbol = symbol, ff_prediction = prediction, ff_model = model\<rparr>))"

datatype cost_kind = VerifiedCalibration | Synthetic

record cost_estimate =
  ce_symbol :: string
  ce_notional :: pynum
  ce_horizon :: int
  ce_quoted_at :: int
  ce_valid_until :: int
  ce_evidence_end :: int
  ce_artifact :: string
  ce_kind :: cost_kind
  ce_entry :: pynum
  ce_close_now :: pynum
  ce_terminal_close :: pynum
  ce_financing :: pynum

definition mk_cost_estimate :: "cost_estimate \<Rightarrow> cost_estimate res" where
  "mk_cost_estimate c =
     bnd (number (ce_notional c) ''notional_usdt'' (Fin 0)) (\<lambda>_.
     bnd (guard (ce_symbol c = [] \<or> feq (ce_notional c) (Fin 0))
            (ValueError ''symbol and positive notional required'')) (\<lambda>_.
     bnd (integer (ce_horizon c) ''horizon_settlements'' 1) (\<lambda>_.
     bnd (integer (ce_quoted_at c) ''quoted_at_ms'' 0) (\<lambda>_.
     bnd (integer (ce_valid_until c) ''valid_until_ms'' (ce_quoted_at c + 1)) (\<lambda>_.
     bnd (integer (ce_evidence_end c) ''evidence_end_exclusive_ms'' 0) (\<lambda>_.
     bnd (guard (\<not> is_digest (ce_artifact c)) (ValueError ''cost requires artifact digest'')) (\<lambda>_.
     bnd (number (ce_entry c) ''entry_fraction'' (Fin 0)) (\<lambda>_.
     bnd (number (ce_close_now c) ''close_now_fraction'' (Fin 0)) (\<lambda>_.
     bnd (number (ce_terminal_close c) ''terminal_close_fraction'' (Fin 0)) (\<lambda>_.
     bnd (number (ce_financing c) ''financing_fraction'' (Fin 0)) (\<lambda>_. Inr c)))))))))))"

section \<open>The decision\<close>

record decision =
  de_action :: string
  de_reason :: string
  de_probability :: "pynum option"
  de_edge :: "pynum option"

definition plain :: "string \<Rightarrow> string \<Rightarrow> decision" where
  "plain action reason = \<lparr>de_action = action, de_reason = reason, de_probability = None, de_edge = None\<rparr>"

definition priced :: "string \<Rightarrow> string \<Rightarrow> pynum \<Rightarrow> pynum \<Rightarrow> decision" where
  "priced action reason probability edge =
     \<lparr>de_action = action, de_reason = reason, de_probability = Some probability, de_edge = Some edge\<rparr>"

definition forecast_invalid :: "forecast \<Rightarrow> int \<Rightarrow> int \<Rightarrow> bool" where
  "forecast_invalid f now remaining \<longleftrightarrow>
     length (cf_samples f) < 2
     \<or> \<not> list_all is_fin (cf_samples f)
     \<or> list_ex (\<lambda>v. v < 0) [cf_as_of f, cf_last_observation f, cf_training_first f, cf_horizon f,
                             cf_interval_hours f, cf_training_settlements f]
     \<or> cf_as_of f \<noteq> now
     \<or> now < cf_last_observation f
     \<or> cf_interval_hours f * hour_ms + jitter_ms < now - cf_last_observation f
     \<or> cf_last_observation f < cf_training_first f
     \<or> cf_horizon f \<noteq> remaining
     \<or> \<not> (1 \<le> cf_interval_hours f \<and> cf_interval_hours f \<le> 24)
     \<or> cf_training_settlements f < 3"

definition not_approved :: "approval option \<Rightarrow> string \<Rightarrow> string \<Rightarrow> int \<Rightarrow> int \<Rightarrow> int \<Rightarrow> bool" where
  "not_approved approval symbol digest remaining interval now =
     (case approval of None \<Rightarrow> True
      | Some a \<Rightarrow> \<not> ap_approved a \<or> ap_symbol a \<noteq> symbol \<or> ap_model a \<noteq> digest
                  \<or> remaining \<notin> set (ap_horizons a) \<or> ap_interval a \<noteq> interval
                  \<or> now < ap_validation_end a \<or> ap_valid_until a \<le> now)"

definition costs_refused :: "policy \<Rightarrow> string \<Rightarrow> position option \<Rightarrow> cost_estimate \<Rightarrow> int \<Rightarrow> int \<Rightarrow> bool" where
  "costs_refused policy symbol position c remaining now \<longleftrightarrow>
     ce_symbol c \<noteq> symbol \<or> ce_horizon c \<noteq> remaining \<or> now < ce_quoted_at c \<or> ce_valid_until c \<le> now
     \<or> now < ce_evidence_end c \<or> (ce_kind c = Synthetic \<and> \<not> pl_synthetic policy)
     \<or> (case position of None \<Rightarrow> False | Some p \<Rightarrow> \<not> feq (ce_notional c) (ps_notional p))"

definition hurdle :: "position option \<Rightarrow> cost_estimate \<Rightarrow> pynum" where
  "hurdle position c =
     (case position of
        None \<Rightarrow> fadd (fadd (ce_entry c) (ce_terminal_close c)) (ce_financing c)
      | Some _ \<Rightarrow> fadd (fsub (ce_terminal_close c) (ce_close_now c)) (ce_financing c))"

definition threshold :: "policy \<Rightarrow> position option \<Rightarrow> pynum" where
  "threshold policy position = (case position of None \<Rightarrow> pl_entry policy | Some _ \<Rightarrow> pl_continuation policy)"

definition judge :: "(pynum list \<Rightarrow> pynum) \<Rightarrow> policy \<Rightarrow> position option \<Rightarrow> pynum list \<Rightarrow> cost_estimate \<Rightarrow> decision" where
  "judge np_mean policy position samples c =
     (let blocked = (if position = None then ''wait'' else ''exit'');
          h = hurdle position c;
          probability = fraction_above samples h;
          edge = fsub (np_mean samples) h
      in if \<not> is_fin edge then plain blocked ''nonfinite_expected_edge''
         else if fle edge (Fin 0) then priced blocked ''nonpositive_expected_edge'' probability edge
         else if fle probability (threshold policy position)
         then priced blocked ''probability_below_threshold'' probability edge
         else priced (if position = None then ''enter'' else ''hold'')
                ''positive_cost_adjusted_edge'' probability edge)"

definition assess :: "(pynum list \<Rightarrow> pynum) \<Rightarrow> string \<Rightarrow> policy \<Rightarrow> int \<Rightarrow> funding_forecast option
    \<Rightarrow> cost_estimate option \<Rightarrow> approval option \<Rightarrow> position option \<Rightarrow> int \<Rightarrow> decision" where
  "assess np_mean symbol policy now forecast costs approval position remaining =
     (let blocked = (if position = None then ''wait'' else ''exit'') in
      case forecast of
        None \<Rightarrow> plain blocked ''funding_unavailable''
      | Some ff \<Rightarrow>
          if ff_symbol ff \<noteq> symbol then plain blocked ''invalid_funding_forecast''
          else let f = ff_prediction ff in
          if (case position of None \<Rightarrow> False | Some p \<Rightarrow> cf_interval_hours f \<noteq> ps_interval p)
          then plain ''exit'' ''cadence_changed''
          else if forecast_invalid f now remaining then plain blocked ''invalid_funding_forecast''
          else if not_approved approval symbol (ff_model ff) remaining (cf_interval_hours f) now
          then plain blocked ''funding_not_admitted''
          else case costs of
                 None \<Rightarrow> plain blocked ''costs_unavailable''
               | Some c \<Rightarrow>
                   if costs_refused policy symbol position c remaining now
                   then plain blocked ''costs_not_admitted''
                   else judge np_mean policy position (cf_samples f) c)"

definition decide :: "(pynum list \<Rightarrow> pynum) \<Rightarrow> string \<Rightarrow> policy \<Rightarrow> int \<Rightarrow> funding_forecast option
    \<Rightarrow> cost_estimate option \<Rightarrow> approval option \<Rightarrow> position option \<Rightarrow> decision res" where
  "decide np_mean symbol policy now forecast costs approval position =
     bnd (integer now ''now_ms'' 0) (\<lambda>_.
     case position of
       Some p \<Rightarrow>
         if ps_symbol p \<noteq> symbol \<or> now < ps_opened p
         then Inl (ValueError ''position symbol/time disagrees with decision'')
         else let remaining = ps_planned p - ps_held p in
              if remaining \<le> 0 then Inr (plain ''exit'' ''horizon_complete'')
              else Inr (assess np_mean symbol policy now forecast costs approval position remaining)
     | None \<Rightarrow> Inr (assess np_mean symbol policy now forecast costs approval position (pl_horizon policy)))"

text \<open>\<open>strategy/funding.py\<close>: a forecast carries the digest of the model that made it.\<close>

definition from_model :: "(rolling \<Rightarrow> string) \<Rightarrow> numpy \<Rightarrow> draws \<Rightarrow> string \<Rightarrow> rolling \<Rightarrow> int \<Rightarrow> int \<Rightarrow> int \<Rightarrow> int
    \<Rightarrow> funding_forecast res" where
  "from_model model_digest np dr symbol model horizon now draw_count seed =
     bnd (predict_cumulative_funding np dr model horizon (Some now) draw_count seed) (\<lambda>prediction.
       mk_funding_forecast symbol prediction (model_digest model))"

section \<open>What a decision means\<close>

lemma judge_action:
  "de_action (judge np_mean policy position samples c) =
     (if is_fin (fsub (np_mean samples) (hurdle position c))
         \<and> \<not> fle (fsub (np_mean samples) (hurdle position c)) (Fin 0)
         \<and> \<not> fle (fraction_above samples (hurdle position c)) (threshold policy position)
      then if position = None then ''enter'' else ''hold''
      else if position = None then ''wait'' else ''exit'')"
  by (simp add: judge_def Let_def plain_def priced_def)

definition admitted_inputs :: "string \<Rightarrow> policy \<Rightarrow> int \<Rightarrow> funding_forecast \<Rightarrow> cost_estimate \<Rightarrow> approval
    \<Rightarrow> position option \<Rightarrow> int \<Rightarrow> bool" where
  "admitted_inputs symbol policy now ff c a position remaining \<longleftrightarrow>
     ff_symbol ff = symbol \<and> \<not> forecast_invalid (ff_prediction ff) now remaining
     \<and> \<not> not_approved (Some a) symbol (ff_model ff) remaining (cf_interval_hours (ff_prediction ff)) now
     \<and> \<not> costs_refused policy symbol position c remaining now
     \<and> (case position of None \<Rightarrow> True | Some p \<Rightarrow> cf_interval_hours (ff_prediction ff) = ps_interval p)"

lemma assess_blocked: "de_action (assess np_mean symbol policy now forecast costs approval position remaining)
    \<in> (if position = None then {''wait'', ''enter''} else {''exit'', ''hold''})"
  by (simp add: assess_def Let_def plain_def judge_action split: option.splits)

lemma assess_open:
  assumes "de_action (assess np_mean symbol policy now forecast costs approval position remaining)
    = (if position = None then ''enter'' else ''hold'')"
  obtains ff c a where "forecast = Some ff" "costs = Some c" "approval = Some a"
    "admitted_inputs symbol policy now ff c a position remaining"
    "assess np_mean symbol policy now forecast costs approval position remaining
      = judge np_mean policy position (cf_samples (ff_prediction ff)) c"
  using assms
  by (auto simp: assess_def Let_def plain_def admitted_inputs_def not_approved_def
      split: option.splits if_splits)

lemma assess_enter:
  assumes "de_action (assess np_mean symbol policy now forecast costs approval None remaining) = ''enter''"
  obtains ff c a where "forecast = Some ff" "costs = Some c" "approval = Some a"
    "admitted_inputs symbol policy now ff c a None remaining"
    "assess np_mean symbol policy now forecast costs approval None remaining
      = judge np_mean policy None (cf_samples (ff_prediction ff)) c"
  by (rule assess_open [of np_mean symbol policy now forecast costs approval None remaining]) (simp_all add: assms that)

lemma assess_admitted:
  "admitted_inputs symbol policy now ff c a position remaining \<Longrightarrow>
   assess np_mean symbol policy now (Some ff) (Some c) (Some a) position remaining
     = judge np_mean policy position (cf_samples (ff_prediction ff)) c"
  by (auto simp: assess_def admitted_inputs_def Let_def split: option.splits)


section \<open>Monotonicity in the costs\<close>

text \<open>What is assumed of numpy's mean: it returns a binary64 value.\<close>

definition float_valued :: "(pynum list \<Rightarrow> pynum) \<Rightarrow> bool" where
  "float_valued f \<longleftrightarrow> (\<forall>s r. f s = Fin r \<longrightarrow> fl r = Fin r)"

lemma fraction_above_antimono:
  assumes "fle h h'" "samples \<noteq> []"
  shows "fle (fraction_above samples h') (fraction_above samples h)"
proof -
  have "length (filter (\<lambda>s. flt h' s) samples) \<le> length (filter (\<lambda>s. flt h s) samples)"
    by (induction samples) (auto intro: fle_flt_trans [OF assms(1)])
  then show ?thesis
    using assms(2) by (auto simp: fraction_above_def intro!: fl_mono divide_right_mono)
qed

lemma fsub_fin: "is_fin (fsub a b) \<Longrightarrow> is_fin a \<and> is_fin b"
  by (cases a; cases b) (auto simp: fsub_def)

lemma fsub_le_self: "0 \<le> x \<Longrightarrow> fl m = Fin m \<Longrightarrow> fle (fsub (Fin m) (Fin x)) (Fin m)"
  using fl_mono [of "m - x" m] by (simp add: fsub_def)

lemma open_monotone:
  assumes "float_valued np_mean" and "samples \<noteq> []"
    and "fnn (hurdle position c)" "fle (hurdle position c) (hurdle position c')"
    and "is_fin (fsub (np_mean samples) (hurdle position c'))"
    and "\<not> fle (fsub (np_mean samples) (hurdle position c')) (Fin 0)"
    and "\<not> fle (fraction_above samples (hurdle position c')) t"
  shows "is_fin (fsub (np_mean samples) (hurdle position c))
    \<and> \<not> fle (fsub (np_mean samples) (hurdle position c)) (Fin 0)
    \<and> \<not> fle (fraction_above samples (hurdle position c)) t"
proof -
  obtain m h' where m: "np_mean samples = Fin m" and h': "hurdle position c' = Fin h'"
    using fsub_fin [OF assms(5)] by (cases "np_mean samples"; cases "hurdle position c'") auto
  obtain h where h: "hurdle position c = Fin h" "0 \<le> h" "h \<le> h'"
    using assms(3,4) h' by (cases "hurdle position c") auto
  have le: "fle (fsub (Fin m) (Fin h')) (fsub (Fin m) (Fin h))"
    using h(3) by (intro fsub_antimono) auto
  moreover have "fle (fsub (Fin m) (Fin h)) (Fin m)" 
    using assms(1) m by (intro fsub_le_self [OF h(2)]) (simp add: float_valued_def)
  ultimately have fin: "is_fin (fsub (Fin m) (Fin h))"
    using assms(5) unfolding m h' by (cases "fsub (Fin m) (Fin h)"; cases "fsub (Fin m) (Fin h')") auto
  have pos: "\<not> fle (fsub (Fin m) (Fin h)) (Fin 0)"
    using assms(6) fle_trans [OF le] unfolding m h' by blast
  have "fle (fraction_above samples (hurdle position c')) (fraction_above samples (hurdle position c))"
    using assms(4,2) by (rule fraction_above_antimono)
  then have "\<not> fle (fraction_above samples (hurdle position c)) t"
    using assms(7) fle_trans by blast
  then show ?thesis using fin pos unfolding m h by simp
qed

definition cheaper :: "cost_estimate \<Rightarrow> cost_estimate \<Rightarrow> bool" where
  "cheaper c c' \<longleftrightarrow>
     (\<exists>e x t f. c = c'\<lparr>ce_entry := e, ce_close_now := x, ce_terminal_close := t, ce_financing := f\<rparr>
        \<and> fnn e \<and> fnn t \<and> fnn f \<and> fle e (ce_entry c') \<and> fle t (ce_terminal_close c') \<and> fle f (ce_financing c'))"

lemma cheaper_hurdle: "cheaper c c' \<Longrightarrow> fnn (hurdle None c) \<and> fle (hurdle None c) (hurdle None c')"
  by (auto simp: cheaper_def hurdle_def intro!: fadd_mono)

text \<open>Two estimates of the same terms: what admission reads of a flat candidate's costs.\<close>

definition same_terms :: "cost_estimate \<Rightarrow> cost_estimate \<Rightarrow> bool" where
  "same_terms c c' \<longleftrightarrow> ce_symbol c = ce_symbol c' \<and> ce_horizon c = ce_horizon c' \<and> ce_quoted_at c = ce_quoted_at c'
     \<and> ce_valid_until c = ce_valid_until c' \<and> ce_evidence_end c = ce_evidence_end c' \<and> ce_kind c = ce_kind c'"

lemma same_terms_refused:
  "same_terms c c' \<Longrightarrow> costs_refused policy symbol None c remaining now = costs_refused policy symbol None c' remaining now"
  by (simp add: same_terms_def costs_refused_def)

lemma cheaper_same_terms: "cheaper c c' \<Longrightarrow> same_terms c c'"
  by (auto simp: cheaper_def same_terms_def)

lemma enter_monotone:
  assumes mean: "float_valued np_mean"
    and same: "same_terms c c'" and h: "fnn (hurdle None c)" "fle (hurdle None c) (hurdle None c')"
    and dec: "decide np_mean symbol policy now forecast (Some c') approval None = Inr d'" and "de_action d' = ''enter''"
  shows "\<exists>d. decide np_mean symbol policy now forecast (Some c) approval None = Inr d \<and> de_action d = ''enter''"
proof -
  have d': "d' = assess np_mean symbol policy now forecast (Some c') approval None (pl_horizon policy)"
    using dec by (auto simp: decide_def res_simps)
  have now: "0 \<le> now" using dec by (auto simp: decide_def res_simps)
  obtain ff a where i: "forecast = Some ff" "approval = Some a"
    "admitted_inputs symbol policy now ff c' a None (pl_horizon policy)"
    "d' = judge np_mean policy None (cf_samples (ff_prediction ff)) c'"
    using \<open>de_action d' = ''enter''\<close> unfolding d' by (rule assess_enter) blast
  have adm: "admitted_inputs symbol policy now ff c a None (pl_horizon policy)"
    using i(3) same_terms_refused [OF same] by (simp add: admitted_inputs_def)
  have ne: "cf_samples (ff_prediction ff) \<noteq> []"
    using i(3) by (auto simp: admitted_inputs_def forecast_invalid_def)
  have "de_action (judge np_mean policy None (cf_samples (ff_prediction ff)) c) = ''enter''"
    using open_monotone [OF mean ne h, where t = "threshold policy None"]
      \<open>de_action d' = ''enter''\<close> unfolding i(4) judge_action by (auto split: if_splits)
  then show ?thesis
    using now adm i(1,2) by (simp add: decide_def integer_def assess_admitted)
qed

section \<open>Properties\<close>

text \<open>C8: the strategy opens a position only on admitted, current, non-anticipating evidence: the
  forecast is for this symbol, made now from settlements up to now; the approval covers its model digest,
  horizon and cadence and its validation period ended by now; the costs are quoted by now, still valid, use
  evidence up to now, and are synthetic only if the policy allows it; the expected edge over all costs is
  finite and positive; and the probability of beating the costs exceeds the entry threshold.\<close>

theorem entry_needs_admitted_evidence:
  assumes "decide np_mean symbol policy now forecast costs approval None = Inr d" "de_action d = ''enter''"
  shows "\<exists>ff c a. forecast = Some ff \<and> costs = Some c \<and> approval = Some a
    \<and> ff_symbol ff = symbol \<and> cf_as_of (ff_prediction ff) = now
    \<and> cf_last_observation (ff_prediction ff) \<le> now \<and> cf_horizon (ff_prediction ff) = pl_horizon policy
    \<and> ap_approved a \<and> ap_symbol a = symbol \<and> ap_model a = ff_model ff
    \<and> pl_horizon policy \<in> set (ap_horizons a) \<and> ap_interval a = cf_interval_hours (ff_prediction ff)
    \<and> ap_validation_end a \<le> now \<and> now < ap_valid_until a
    \<and> ce_symbol c = symbol \<and> ce_horizon c = pl_horizon policy \<and> ce_quoted_at c \<le> now
    \<and> now < ce_valid_until c \<and> ce_evidence_end c \<le> now \<and> (ce_kind c = Synthetic \<longrightarrow> pl_synthetic policy)
    \<and> (let cost = fadd (fadd (ce_entry c) (ce_terminal_close c)) (ce_financing c);
           edge = fsub (np_mean (cf_samples (ff_prediction ff))) cost;
           probability = fraction_above (cf_samples (ff_prediction ff)) cost
       in is_fin edge \<and> flt (Fin 0) edge \<and> \<not> fle probability (pl_entry policy)
          \<and> d = \<lparr>de_action = ''enter'', de_reason = ''positive_cost_adjusted_edge'',
                  de_probability = Some probability, de_edge = Some edge\<rparr>)"
proof -
  have d: "d = assess np_mean symbol policy now forecast costs approval None (pl_horizon policy)"
    using assms(1) by (auto simp: decide_def res_simps)
  obtain ff c a where i: "forecast = Some ff" "costs = Some c" "approval = Some a"
    "admitted_inputs symbol policy now ff c a None (pl_horizon policy)"
    "d = judge np_mean policy None (cf_samples (ff_prediction ff)) c"
    using assms(2) unfolding d by (rule assess_enter)
  note act = assms(2) [unfolded i(5)]
  have "is_fin (fsub (np_mean (cf_samples (ff_prediction ff))) (hurdle None c))"
    "\<not> fle (fsub (np_mean (cf_samples (ff_prediction ff))) (hurdle None c)) (Fin 0)"
    "\<not> fle (fraction_above (cf_samples (ff_prediction ff)) (hurdle None c)) (pl_entry policy)"
    using act by (auto simp: judge_action threshold_def split: if_splits)
  moreover from this have "d = priced ''enter'' ''positive_cost_adjusted_edge''
      (fraction_above (cf_samples (ff_prediction ff)) (hurdle None c))
      (fsub (np_mean (cf_samples (ff_prediction ff))) (hurdle None c))"
    unfolding i(5) by (simp add: judge_def Let_def threshold_def)
  moreover have "flt (Fin 0) x" if "is_fin x" "\<not> fle x (Fin 0)" for x
    using that by (cases x) auto
  ultimately show ?thesis
    using i(1-4)
    by (auto simp: admitted_inputs_def forecast_invalid_def not_approved_def costs_refused_def
        hurdle_def priced_def Let_def not_less)
qed

text \<open>C15: a decision always comes back and stays on its side: with the clock nonnegative and the position
  consistent with the symbol and the clock, a flat strategy answers only wait or enter and an open one only
  exit or hold, and a position whose planned settlements are used up always exits; the remaining inputs are
  the source's errors.\<close>

theorem decision_is_total:
  "(if now < 0 then decide np_mean symbol policy now forecast costs approval position
        = Inl (ValueError ''now_ms must be an integer >= '')
    else case position of
      None \<Rightarrow> (\<exists>d. decide np_mean symbol policy now forecast costs approval position = Inr d
        \<and> de_action d \<in> {''wait'', ''enter''})
    | Some p \<Rightarrow>
        if ps_symbol p \<noteq> symbol \<or> now < ps_opened p
        then decide np_mean symbol policy now forecast costs approval position
          = Inl (ValueError ''position symbol/time disagrees with decision'')
        else (\<exists>d. decide np_mean symbol policy now forecast costs approval position = Inr d
          \<and> de_action d \<in> {''exit'', ''hold''}
          \<and> (if ps_planned p \<le> ps_held p then d = plain ''exit'' ''horizon_complete'' else True)))"
proof (cases position)
  case None
  then show ?thesis
    using assess_blocked [of np_mean symbol policy now forecast costs approval None "pl_horizon policy"]
    by (simp add: decide_def integer_def)
next
  case (Some p)
  then show ?thesis
    using assess_blocked [of np_mean symbol policy now forecast costs approval "Some p" "ps_planned p - ps_held p"]
    by (simp add: decide_def integer_def plain_def Let_def)
qed

text \<open>C14: cheaper costs never block an entry: when the strategy enters at some cost estimate, it also
  enters at any estimate with the same terms whose entry, terminal close and financing costs are
  nonnegative and no larger, in floating point as the code computes it.\<close>

theorem cheaper_costs_keep_entry:
  assumes mean: "float_valued np_mean"
    and "cheaper c c'"
    and "decide np_mean symbol policy now forecast (Some c') approval None = Inr d'" "de_action d' = ''enter''"
  shows "\<exists>d. decide np_mean symbol policy now forecast (Some c) approval None = Inr d \<and> de_action d = ''enter''"
  using enter_monotone [OF mean cheaper_same_terms [OF assms(2)] _ _ assms(3,4)] cheaper_hurdle [OF assms(2)] by blast

section \<open>A concrete decision\<close>

definition sum_mean :: "pynum list \<Rightarrow> pynum" where
  "sum_mean s = (case fdiv (py_sum s) (Fin (of_nat (length s))) of Inr x \<Rightarrow> x | Inl _ \<Rightarrow> NaN)"

lemma sum_mean_float: "float_valued sum_mean"
  unfolding float_valued_def
proof (intro allI impI)
  fix s r
  show "sum_mean s = Fin r \<Longrightarrow> fl r = Fin r"
    by (cases "py_sum s") (auto simp: sum_mean_def finf_def split: if_splits dest: fl_idem)
qed

definition example_digest :: string where "example_digest = replicate 64 CHR ''a''"

definition example_forecast :: funding_forecast where
  "example_forecast = \<lparr>ff_symbol = ''BTC'', ff_prediction =
     \<lparr>cf_samples = [Fin (1 / 64), Fin (1 / 32)], cf_horizon = 3, cf_interval_hours = 8,
      cf_as_of = 60000000, cf_last_observation = 57600010, cf_training_first = 0,
      cf_training_settlements = 3, cf_seed = 603\<rparr>, ff_model = example_digest\<rparr>"

definition example_approval :: approval where
  "example_approval = \<lparr>ap_symbol = ''BTC'', ap_horizons = [3], ap_interval = 8, ap_validation_end = 0,
     ap_valid_until = 90000000, ap_evidence = example_digest, ap_approved = True, ap_model = example_digest\<rparr>"

definition example_policy :: policy where
  "example_policy = \<lparr>pl_horizon = 3, pl_entry = Fin (1 / 2), pl_continuation = Fin (1 / 4), pl_synthetic = True\<rparr>"

definition example_costs :: "rat \<Rightarrow> cost_estimate" where
  "example_costs x = \<lparr>ce_symbol = ''BTC'', ce_notional = Fin 1000, ce_horizon = 3, ce_quoted_at = 59999999,
     ce_valid_until = 60000001, ce_evidence_end = 0, ce_artifact = example_digest, ce_kind = Synthetic,
     ce_entry = Fin x, ce_close_now = Fin x, ce_terminal_close = Fin x, ce_financing = Fin 0\<rparr>"

lemmas example_inputs = example_forecast_def example_approval_def example_policy_def example_costs_def

lemma example_decision:
  "decide sum_mean ''BTC'' example_policy 60000000 (Some example_forecast)
     (Some (example_costs (1 / 1024))) (Some example_approval) None
   = Inr (priced ''enter'' ''positive_cost_adjusted_edge'' (Fin 1) (Fin (22 / 1024)))"
  by (simp add: priced_def example_inputs decide_def integer_def assess_def forecast_invalid_def not_approved_def
      costs_refused_def judge_def hurdle_def threshold_def fraction_above_def sum_mean_def
      fsub_def fabs_def hour_ms_def jitter_ms_def Let_def short_float)

lemma entry_needs_admitted_evidence_witness:
  "ap_approved example_approval \<and> ap_validation_end example_approval \<le> 60000000
   \<and> ce_evidence_end (example_costs (1 / 1024)) \<le> 60000000"
  using entry_needs_admitted_evidence [OF example_decision] by (simp add: priced_def)

lemma decision_is_total_witness:
  "\<exists>d. decide sum_mean ''BTC'' example_policy 60000000 None None None None = Inr d \<and> de_action d \<in> {''wait'', ''enter''}"
  using decision_is_total [of 60000000 sum_mean "''BTC''" example_policy None None None None] by simp

lemma cheaper_costs_keep_entry_witness:
  "\<exists>d. decide sum_mean ''BTC'' example_policy 60000000 (Some example_forecast) (Some (example_costs 0))
      (Some example_approval) None = Inr d \<and> de_action d = ''enter''"
proof (rule cheaper_costs_keep_entry [OF sum_mean_float])
  show "cheaper (example_costs 0) (example_costs (1 / 1024))"
    unfolding cheaper_def
    by (intro exI [of _ "Fin 0"]) (simp add: example_costs_def)
  show "decide sum_mean ''BTC'' example_policy 60000000 (Some example_forecast)
     (Some (example_costs (1 / 1024))) (Some example_approval) None
   = Inr (priced ''enter'' ''positive_cost_adjusted_edge'' (Fin 1) (Fin (22 / 1024)))"
    by (rule example_decision)
  show "de_action (priced ''enter'' ''positive_cost_adjusted_edge'' (Fin 1) (Fin (22 / 1024))) = ''enter''"
    by (simp add: priced_def)
qed

end
