(* ===== verification/ImpactIO.thy ===== *)
theory ImpactIO
  imports Text
begin

text \<open>
  \<open>models/impact_model_io.py\<close>: the strict schema of a fitted impact artifact, its export from a fit
  report, and the explicit stratum lookup. An artifact is a parsed JSON document. Where the source raises
  \<open>ImpactModelError\<close> with a message that depends on how a malformed value compares or parses, the
  model raises it with the message of the check that fails.
\<close>

section \<open>Field checks\<close>

definition fields_of :: "json \<Rightarrow> string list \<Rightarrow> string \<Rightarrow> (string \<times> json) list res" where
  "fields_of v expected name =
     (case v of
        JDict d \<Rightarrow> if set (map fst d) = set expected then Inr d
                   else Inl (ImpactModelError (name @ '': missing or unexpected fields''))
      | _ \<Rightarrow> Inl (ImpactModelError (name @ '': missing or unexpected fields'')))"

definition text_of :: "json \<Rightarrow> string \<Rightarrow> string res" where
  "text_of v name =
     (case v of JStr s \<Rightarrow> if has_text s then Inr s else Inl (ImpactModelError (name @ '': expected nonempty text''))
      | _ \<Rightarrow> Inl (ImpactModelError (name @ '': expected nonempty text'')))"

definition count_of :: "json \<Rightarrow> string \<Rightarrow> int res" where
  "count_of v name =
     (case v of JInt i \<Rightarrow> if i < 0 then Inl (ImpactModelError (name @ '': expected nonnegative integer'')) else Inr i
      | _ \<Rightarrow> Inl (ImpactModelError (name @ '': expected nonnegative integer'')))"

definition number_of :: "json \<Rightarrow> string \<Rightarrow> pynum res" where
  "number_of v name =
     (case v of
        JInt i \<Rightarrow> if is_fin (fl (of_int i)) then Inr (Fin (of_int i))
                  else Inl (OverflowError ''int too large to convert to float'')
      | JNum x \<Rightarrow> if is_fin x then Inr x else Inl (ImpactModelError (name @ '': expected finite number''))
      | _ \<Rightarrow> Inl (ImpactModelError (name @ '': expected finite number'')))"

definition date_of :: "json \<Rightarrow> string res" where
  "date_of v =
     (case v of JStr s \<Rightarrow> if iso_date s = None then Inl (ImpactModelError ''expected canonical ISO date'') else Inr s
      | _ \<Rightarrow> Inl (ImpactModelError ''expected canonical ISO date''))"

definition days_of :: "json \<Rightarrow> string list res" where
  "days_of v =
     (case v of
        JList xs \<Rightarrow>
          (case jstrs xs of
             Some ss \<Rightarrow> if ss = [] \<or> \<not> ascending ss
                        then Inl (ImpactModelError ''days must be nonempty, sorted and unique'')
                        else map_res date_of xs
           | None \<Rightarrow> Inl (ImpactModelError ''days must be nonempty, sorted and unique''))
      | _ \<Rightarrow> Inl (ImpactModelError ''days must be nonempty, sorted and unique''))"

definition digest_of :: "json \<Rightarrow> string res" where
  "digest_of v =
     (case v of JStr s \<Rightarrow> if is_digest s then Inr s else Inl (ImpactModelError ''expected SHA-256 digest'')
      | _ \<Rightarrow> Inl (ImpactModelError ''expected SHA-256 digest''))"

section \<open>The schema\<close>

definition fit_fields :: "string list" where
  "fit_fields = [''side'', ''schedule'', ''depth'', ''size_regime'', ''size_bin_edges_adv_fraction'', ''model'',
     ''train_rows'', ''test_rows'', ''train_days'', ''test_days'', ''training_size_min'', ''training_size_max'',
     ''usable_as_nonnegative_impact_law'', ''zero_training_targets'', ''negative_training_targets'',
     ''fit_rows_used'', ''beyond_validated_depth_rows'']"

definition artifact_fields :: "string list" where
  "artifact_fields = [''schema_version'', ''symbol'', ''primary_form'', ''target'', ''size_unit'', ''output_unit'',
     ''train_start'', ''train_end_exclusive'', ''test_end_exclusive'', ''provenance'', ''caveats'', ''fits'']"

definition provenance_fields :: "string list" where
  "provenance_fields = [''kind'', ''fit_date'', ''code_version'', ''fitting_source_sha256'', ''inputs'',
     ''corpus_days'', ''supporting_train_rows'', ''supporting_test_rows'', ''row_count_scope'']"

definition row_count_scope :: string where
  "row_count_scope = ''unique rows supporting all_sizes square_root fits; bins/forms overlap''"

definition inside_depth :: string where "inside_depth = ''inside_validated_depth''"
definition beyond_depth :: string where "beyond_depth = ''beyond_validated_depth''"

definition known_forms :: "string list" where
  "known_forms = [''square_root'', ''linear'', ''power_diagnostic'']"

section \<open>Provenance\<close>

definition check_input :: "string \<Rightarrow> string \<Rightarrow> string \<Rightarrow> string list \<Rightarrow> json \<Rightarrow> string list res" where
  "check_input symbol start stop seen item =
     bnd (fields_of item [''symbol'', ''date'', ''manifest_sha256''] ''input'') (\<lambda>d.
     bnd (jget d ''symbol'') (\<lambda>s.
     bnd (guard (s \<noteq> JStr symbol) (ImpactModelError ''input symbol mismatch'')) (\<lambda>_.
     bnd (jget d ''date'') (\<lambda>v.
     bnd (date_of v) (\<lambda>day.
     bnd (guard (\<not> (start \<le> day \<and> day < stop) \<or> day \<in> set seen)
            (ImpactModelError ''duplicate or out-of-fold input'')) (\<lambda>_.
     bnd (jget d ''manifest_sha256'') (\<lambda>h.
     bnd (digest_of h) (\<lambda>_. Inr (seen @ [day])))))))))"

record provenance =
  pv_kind :: string
  pv_corpus_days :: "string list"
  pv_train_rows :: int
  pv_test_rows :: int

definition check_kind :: "json \<Rightarrow> string res" where
  "check_kind v =
     (case v of JStr s \<Rightarrow> if s = ''synthetic'' \<or> s = ''verified_calibration'' then Inr s
                          else Inl (ImpactModelError ''unknown provenance kind'')
      | _ \<Rightarrow> Inl (ImpactModelError ''unknown provenance kind''))"

definition validate_provenance :: "json \<Rightarrow> string \<Rightarrow> string \<Rightarrow> string \<Rightarrow> provenance res" where
  "validate_provenance v symbol start stop =
     bnd (fields_of v provenance_fields ''provenance'') (\<lambda>d.
     bnd (jget d ''kind'') (\<lambda>k.
     bnd (check_kind k) (\<lambda>kind.
     bnd (jget d ''fit_date'') (\<lambda>fd. bnd (date_of fd) (\<lambda>_.
     bnd (jget d ''code_version'') (\<lambda>cv. bnd (text_of cv ''code_version'') (\<lambda>_.
     bnd (jget d ''fitting_source_sha256'') (\<lambda>fs. bnd (digest_of fs) (\<lambda>_.
     bnd (jget d ''row_count_scope'') (\<lambda>sc.
     bnd (guard (sc \<noteq> JStr row_count_scope) (ImpactModelError ''unsupported row count scope'')) (\<lambda>_.
     bnd (jget d ''supporting_train_rows'') (\<lambda>tr. bnd (count_of tr ''supporting_train_rows'') (\<lambda>train.
     bnd (jget d ''supporting_test_rows'') (\<lambda>te. bnd (count_of te ''supporting_test_rows'') (\<lambda>test.
     bnd (jget d ''corpus_days'') (\<lambda>cd. bnd (days_of cd) (\<lambda>corpus.
     bnd (guard (list_ex (\<lambda>day. \<not> (start \<le> day \<and> day < stop)) corpus)
            (ImpactModelError ''corpus day outside fold'')) (\<lambda>_.
     bnd (jget d ''inputs'') (\<lambda>i.
     bnd (case i of JList xs \<Rightarrow> Inr xs | _ \<Rightarrow> Inl (ImpactModelError ''inputs must be a list'')) (\<lambda>items.
     bnd (fold_res (check_input symbol start stop) [] items) (\<lambda>input_days.
     bnd (guard (kind = ''verified_calibration'' \<and> \<not> set corpus \<subseteq> set input_days)
            (ImpactModelError ''missing calibration evidence for corpus days'')) (\<lambda>_.
       Inr \<lparr>pv_kind = kind, pv_corpus_days = corpus, pv_train_rows = train, pv_test_rows = test\<rparr>))))))))))))))))))))))"

section \<open>One fitted law\<close>

record fit_view = \<comment> \<open>the fields of a validated fit record\<close>
  fv_side :: string
  fv_schedule :: string
  fv_depth :: string
  fv_regime :: string
  fv_form :: string
  fv_coefficient :: pynum
  fv_exponent :: pynum
  fv_usable :: bool
  fv_train_rows :: int
  fv_test_rows :: int
  fv_train_days :: "string list"
  fv_test_days :: "string list"
  fv_size_min :: pynum
  fv_size_max :: pynum

definition regime_bin :: "string \<Rightarrow> int option" where
  "regime_bin s =
     (if prefix ''training_size_bin_'' s \<and> is_digits (drop 18 s) then Some (digits_val (drop 18 s)) else None)"

definition one_of :: "json \<Rightarrow> string list \<Rightarrow> bool" where
  "one_of v allowed = list_ex (\<lambda>s. v = JStr s) allowed"

definition check_regime :: "json \<Rightarrow> string res" where
  "check_regime v =
     (case v of JStr s \<Rightarrow> if s = ''all_sizes'' \<or> regime_bin s \<noteq> None then Inr s
                          else Inl (ImpactModelError ''unsupported size regime'')
      | _ \<Rightarrow> Inl (ImpactModelError ''unsupported size regime''))"

definition check_size :: "json \<Rightarrow> pynum res" where
  "check_size v =
     bnd (number_of v ''size'') (\<lambda>x.
     bnd (guard (fle x (Fin 0)) (ImpactModelError ''size must be positive ADV fraction'')) (\<lambda>_. Inr x))"

fun increasing :: "pynum list \<Rightarrow> bool" where
  "increasing (x # y # ys) \<longleftrightarrow> flt x y \<and> increasing (y # ys)"
| "increasing _ \<longleftrightarrow> True"

definition check_days :: "json \<Rightarrow> string \<Rightarrow> string \<Rightarrow> int \<Rightarrow> string list res" where
  "check_days v low high rows =
     bnd (days_of v) (\<lambda>observed.
     bnd (guard (list_ex (\<lambda>day. \<not> (low \<le> day \<and> day < high)) observed)
            (ImpactModelError ''fit days violate chronological split'')) (\<lambda>_.
     bnd (guard (rows < int (length observed)) (ImpactModelError ''more days than rows'')) (\<lambda>_. Inr observed)))"

definition str_of :: "json \<Rightarrow> string" where
  "str_of v = (case v of JStr s \<Rightarrow> s | _ \<Rightarrow> [])"

definition check_model :: "(string \<times> json) list \<Rightarrow> string \<Rightarrow> (pynum \<times> pynum) res" where
  "check_model m form =
     bnd (jget m ''coefficient'') (\<lambda>c. bnd (number_of c ''coefficient'') (\<lambda>coefficient.
     bnd (jget m ''exponent'') (\<lambda>e. bnd (number_of e ''exponent'') (\<lambda>exponent.
     bnd (guard (form = ''square_root'' \<and> exponent \<noteq> Fin (1 / 2) \<or> form = ''linear'' \<and> exponent \<noteq> Fin 1)
            (ImpactModelError ''exponent disagrees with form'')) (\<lambda>_.
       Inr (coefficient, exponent))))))"

definition check_counts :: "(string \<times> json) list \<Rightarrow> string \<Rightarrow> string \<Rightarrow> (int \<times> int) res" where
  "check_counts d form depth =
     bnd (jget d ''train_rows'') (\<lambda>v1. bnd (count_of v1 ''train_rows'') (\<lambda>train.
     bnd (jget d ''test_rows'') (\<lambda>v2. bnd (count_of v2 ''test_rows'') (\<lambda>test.
     bnd (jget d ''zero_training_targets'') (\<lambda>v3. bnd (count_of v3 ''zero_training_targets'') (\<lambda>zeros.
     bnd (jget d ''negative_training_targets'') (\<lambda>v4. bnd (count_of v4 ''negative_training_targets'') (\<lambda>negatives.
     bnd (jget d ''fit_rows_used'') (\<lambda>v5. bnd (count_of v5 ''fit_rows_used'') (\<lambda>used.
     bnd (jget d ''beyond_validated_depth_rows'') (\<lambda>v6. bnd (count_of v6 ''beyond_validated_depth_rows'') (\<lambda>deep.
     bnd (guard (train = 0 \<or> test = 0) (ImpactModelError ''evaluated fit requires training and test rows'')) (\<lambda>_.
     bnd (guard (train < zeros + negatives) (ImpactModelError ''invalid target counts'')) (\<lambda>_.
     bnd (guard (used \<noteq> train - (if form = ''power_diagnostic'' then zeros + negatives else 0))
            (ImpactModelError ''invalid fitted row count'')) (\<lambda>_.
     bnd (guard (deep \<noteq> (if depth = beyond_depth then train + test else 0))
            (ImpactModelError ''incorrect beyond-depth count'')) (\<lambda>_.
       Inr (train, test)))))))))))))))))"

definition check_sizes :: "(string \<times> json) list \<Rightarrow> string \<Rightarrow> (pynum \<times> pynum) res" where
  "check_sizes d regime =
     bnd (jget d ''size_bin_edges_adv_fraction'') (\<lambda>e.
     bnd (case e of JList xs \<Rightarrow> Inr xs | _ \<Rightarrow> Inl (ImpactModelError ''edges must be a list'')) (\<lambda>edges.
     bnd (jget d ''training_size_min'') (\<lambda>v1. bnd (jget d ''training_size_max'') (\<lambda>v2.
     bnd (map_res check_size edges) (\<lambda>edge_values.
     bnd (check_size v1) (\<lambda>least. bnd (check_size v2) (\<lambda>greatest.
     bnd (guard (\<not> increasing edge_values \<or> flt greatest least)
            (ImpactModelError ''invalid size boundaries'')) (\<lambda>_.
     bnd (guard (case regime_bin regime of None \<Rightarrow> False | Some bin \<Rightarrow> int (length edges) < bin)
            (ImpactModelError ''size bin outside edges'')) (\<lambda>_.
       Inr (least, greatest))))))))))"

definition validate_fit :: "string \<Rightarrow> string \<Rightarrow> string \<Rightarrow> json \<Rightarrow> fit_view res" where
  "validate_fit start cutoff stop v =
     bnd (fields_of v fit_fields ''fit'') (\<lambda>d.
     bnd (jget d ''model'') (\<lambda>mv.
     bnd (fields_of mv [''form'', ''coefficient'', ''exponent''] ''model'') (\<lambda>m.
     bnd (jget m ''form'') (\<lambda>form. bnd (jget d ''depth'') (\<lambda>depth. bnd (jget d ''side'') (\<lambda>side.
     bnd (guard (\<not> one_of form known_forms \<or> \<not> one_of depth [inside_depth, beyond_depth]
                 \<or> \<not> one_of side [''buy'', ''sell'']) (ImpactModelError ''unsupported fit identity'')) (\<lambda>_.
     bnd (jget d ''schedule'') (\<lambda>sv. bnd (text_of sv ''schedule'') (\<lambda>schedule.
     bnd (jget d ''size_regime'') (\<lambda>rv. bnd (check_regime rv) (\<lambda>regime.
     bnd (check_model m (str_of form)) (\<lambda>(coefficient, exponent).
     bnd (jget d ''usable_as_nonnegative_impact_law'') (\<lambda>flag.
     bnd (guard (flag \<noteq> JBool (fle (Fin 0) coefficient \<and> flt (Fin 0) exponent))
            (ImpactModelError ''incorrect usability flag'')) (\<lambda>_.
     bnd (check_counts d (str_of form) (str_of depth)) (\<lambda>(train, test).
     bnd (jget d ''train_days'') (\<lambda>dv1. bnd (check_days dv1 start cutoff train) (\<lambda>days1.
     bnd (jget d ''test_days'') (\<lambda>dv2. bnd (check_days dv2 cutoff stop test) (\<lambda>days2.
     bnd (check_sizes d regime) (\<lambda>(least, greatest).
       Inr \<lparr>fv_side = str_of side, fv_schedule = schedule, fv_depth = str_of depth, fv_regime = regime,
             fv_form = str_of form, fv_coefficient = coefficient, fv_exponent = exponent,
             fv_usable = (fle (Fin 0) coefficient \<and> flt (Fin 0) exponent),
             fv_train_rows = train, fv_test_rows = test, fv_train_days = days1, fv_test_days = days2,
             fv_size_min = least, fv_size_max = greatest\<rparr>))))))))))))))))))))"

type_synonym identity = "string \<times> string \<times> string \<times> string \<times> string"

definition fv_days :: "fit_view \<Rightarrow> string list" where
  "fv_days f = fv_train_days f @ fv_test_days f"

definition fit_identity :: "fit_view \<Rightarrow> identity" where
  "fit_identity f = (fv_side f, fv_schedule f, fv_depth f, fv_regime f, fv_form f)"


section \<open>The artifact\<close>

definition check_fit :: "string \<Rightarrow> string \<Rightarrow> string \<Rightarrow> fit_view list \<Rightarrow> json \<Rightarrow> fit_view list res" where
  "check_fit start cutoff stop seen v =
     bnd (validate_fit start cutoff stop v) (\<lambda>f.
     bnd (guard (fit_identity f \<in> fit_identity ` set seen) (ImpactModelError ''duplicate fitted law'')) (\<lambda>_.
       Inr (seen @ [f])))"

definition is_primary :: "fit_view \<Rightarrow> bool" where
  "is_primary f \<longleftrightarrow> fv_regime f = ''all_sizes'' \<and> fv_form f = ''square_root''"

definition nonempty_items :: "json \<Rightarrow> string \<Rightarrow> json list res" where
  "nonempty_items v message =
     (case v of JList xs \<Rightarrow> if xs = [] then Inl (ImpactModelError message) else Inr xs
      | _ \<Rightarrow> Inl (ImpactModelError message))"

record artifact = \<comment> \<open>what a validated document says\<close>
  ar_symbol :: string
  ar_train_start :: string
  ar_cutoff :: string
  ar_end :: string
  ar_provenance :: provenance
  ar_fits :: "fit_view list"

definition validate_raw :: "json \<Rightarrow> artifact res" where
  "validate_raw v =
     bnd (fields_of v artifact_fields ''artifact'') (\<lambda>d.
     bnd (jget d ''schema_version'') (\<lambda>sv.
     bnd (guard (sv \<noteq> JInt 1) (ImpactModelError ''unknown schema version'')) (\<lambda>_.
     bnd (jget d ''symbol'') (\<lambda>sy. bnd (text_of sy ''symbol'') (\<lambda>symbol.
     bnd (jget d ''primary_form'') (\<lambda>pf. bnd (jget d ''target'') (\<lambda>tg.
     bnd (jget d ''size_unit'') (\<lambda>su. bnd (jget d ''output_unit'') (\<lambda>ou.
     bnd (guard (\<not> (pf = JStr ''square_root'' \<and> tg = JStr ''slippage_vs_touch_bps''
                     \<and> su = JStr ''ADV fraction'' \<and> ou = JStr ''bps''))
            (ImpactModelError ''unsupported form, target or units'')) (\<lambda>_.
     bnd (jget d ''train_start'') (\<lambda>v1. bnd (date_of v1) (\<lambda>start.
     bnd (jget d ''train_end_exclusive'') (\<lambda>v2. bnd (date_of v2) (\<lambda>cutoff.
     bnd (jget d ''test_end_exclusive'') (\<lambda>v3. bnd (date_of v3) (\<lambda>stop.
     bnd (guard (\<not> (start < cutoff \<and> cutoff < stop)) (ImpactModelError ''invalid chronological window'')) (\<lambda>_.
     bnd (jget d ''provenance'') (\<lambda>pv. bnd (validate_provenance pv symbol start stop) (\<lambda>provenance.
     bnd (jget d ''caveats'') (\<lambda>cv. bnd (nonempty_items cv ''caveats required'') (\<lambda>caveats.
     bnd (map_res (\<lambda>c. text_of c ''caveat'') caveats) (\<lambda>_.
     bnd (jget d ''fits'') (\<lambda>fv. bnd (nonempty_items fv ''no fitted laws'') (\<lambda>records.
     bnd (fold_res (check_fit start cutoff stop) [] records) (\<lambda>fits.
     let primary = filter is_primary fits in
     bnd (guard (primary = [] \<or> sort (remdups (concat (map fv_days fits))) \<noteq> pv_corpus_days provenance
                 \<or> sum_list (map fv_train_rows primary) \<noteq> pv_train_rows provenance
                 \<or> sum_list (map fv_test_rows primary) \<noteq> pv_test_rows provenance)
            (ImpactModelError ''primary law or provenance counts/days disagree'')) (\<lambda>_.
       Inr \<lparr>ar_symbol = symbol, ar_train_start = start, ar_cutoff = cutoff, ar_end = stop,
             ar_provenance = provenance, ar_fits = fits\<rparr>))))))))))))))))))))))))))"

text \<open>\<open>validate\<close>: every \<open>TypeError\<close>, \<open>ValueError\<close> and \<open>OverflowError\<close> of the checks becomes an \<open>ImpactModelError\<close>.\<close>

definition wrapped :: "exn \<Rightarrow> exn" where
  "wrapped e =
     (case e of
        ImpactModelError s \<Rightarrow> ImpactModelError s
      | TypeError s \<Rightarrow> ImpactModelError ''invalid impact artifact: ''
      | ValueError s \<Rightarrow> ImpactModelError ''invalid impact artifact: ''
      | OverflowError s \<Rightarrow> ImpactModelError ''invalid impact artifact: ''
      | _ \<Rightarrow> e)"

definition validate :: "json \<Rightarrow> artifact res" where
  "validate v = (case validate_raw v of Inl e \<Rightarrow> Inl (wrapped e) | Inr a \<Rightarrow> Inr a)"

section \<open>Stratum lookup\<close>

record fitted_law =
  lw_form :: string
  lw_coefficient :: pynum
  lw_exponent :: pynum

fun find_fit :: "identity \<Rightarrow> fit_view list \<Rightarrow> fit_view res" where
  "find_fit key [] = Inl (ImpactModelError ''requested fitted stratum is unavailable'')"
| "find_fit key (f # fs) = (if fit_identity f = key then Inr f else find_fit key fs)"

definition law :: "json \<Rightarrow> string \<Rightarrow> string \<Rightarrow> string \<Rightarrow> string \<Rightarrow> string \<Rightarrow> fitted_law res" where
  "law v side schedule depth regime form =
     bnd (validate v) (\<lambda>a.
     bnd (find_fit (side, schedule, depth, regime, form) (ar_fits a)) (\<lambda>f.
       Inr \<lparr>lw_form = fv_form f, lw_coefficient = fv_coefficient f, lw_exponent = fv_exponent f\<rparr>))"

section \<open>Loading\<close>

text \<open>The hooks of \<open>json.loads\<close>: duplicate keys and non-finite constants are refused. \<open>loads\<close> is the
  parser, with its dictionaries as the pairs it read.\<close>

fun hooks_ok :: "json \<Rightarrow> bool" where
  "hooks_ok (JList xs) = list_all hooks_ok xs"
| "hooks_ok (JDict d) = (distinct (map fst d) \<and> list_all (\<lambda>p. hooks_ok (snd p)) d)"
| "hooks_ok (JNum x) = is_fin x"
| "hooks_ok _ = True"

definition load_artifact :: "(string \<Rightarrow> json res) \<Rightarrow> string res \<Rightarrow> json res" where
  "load_artifact loads file_text =
     (case bnd file_text loads of
        Inl e \<Rightarrow> Inl (ImpactModelError ''cannot load impact model: '')
      | Inr v \<Rightarrow> if \<not> hooks_ok v then Inl (ImpactModelError ''cannot load impact model: '')
                 else bnd (validate v) (\<lambda>_. Inr v))"

section \<open>Export from a fit report\<close>

text \<open>Python's \<open>+\<close> and iteration on document values.\<close>

fun as_int :: "json \<Rightarrow> int option" where
  "as_int (JInt i) = Some i"
| "as_int (JBool b) = Some (of_bool b)"
| "as_int _ = None"

definition py_float :: "int \<Rightarrow> pynum res" where
  "py_float i = (if is_fin (fl (of_int i)) then Inr (fl (of_int i)) else Inl (OverflowError ''int too large to convert to float''))"

definition py_add :: "json \<Rightarrow> json \<Rightarrow> json res" where
  "py_add a b =
     (case (as_int a, as_int b, a, b) of
        (Some i, Some j, _, _) \<Rightarrow> Inr (JInt (i + j))
      | (Some i, None, _, JNum y) \<Rightarrow> bnd (py_float i) (\<lambda>x. Inr (JNum (fadd x y)))
      | (None, Some j, JNum x, _) \<Rightarrow> bnd (py_float j) (\<lambda>y. Inr (JNum (fadd x y)))
      | (None, None, JNum x, JNum y) \<Rightarrow> Inr (JNum (fadd x y))
      | (None, None, JStr s, JStr t) \<Rightarrow> Inr (JStr (s @ t))
      | (None, None, JList s, JList t) \<Rightarrow> Inr (JList (s @ t))
      | _ \<Rightarrow> Inl (TypeError ''unsupported operand type(s) for +''))"

definition sum_json :: "json list \<Rightarrow> json res" where
  "sum_json vs = fold_res py_add (JInt 0) vs"

definition as_dict :: "json \<Rightarrow> (string \<times> json) list res" where
  "as_dict v = (case v of JDict d \<Rightarrow> Inr d | _ \<Rightarrow> Inl (TypeError ''not subscriptable by a string key''))"

definition as_list :: "json \<Rightarrow> json list res" where
  "as_list v = (case v of JList xs \<Rightarrow> Inr xs | _ \<Rightarrow> Inl (TypeError ''a list is required''))"

definition str_list :: "json \<Rightarrow> string list res" where
  "str_list v = bnd (as_list v) (\<lambda>xs. case jstrs xs of Some ss \<Rightarrow> Inr ss | None \<Rightarrow> Inl (TypeError ''days are text''))"

definition select_fit :: "(string \<times> json) list \<Rightarrow> json res" where
  "select_fit d =
     bnd (map_res (\<lambda>k. bnd (jget d k) (\<lambda>v. Inr (k, v)))
            (filter (\<lambda>k. k \<noteq> ''beyond_validated_depth_rows'') fit_fields)) (\<lambda>selected.
     bnd (jget d ''depth'') (\<lambda>depth.
     bnd (if depth = JStr beyond_depth
          then bnd (jget d ''train_rows'') (\<lambda>a. bnd (jget d ''test_rows'') (\<lambda>b. py_add a b))
          else Inr (JInt 0)) (\<lambda>deep.
       Inr (JDict (selected @ [(''beyond_validated_depth_rows'', deep)])))))"

text \<open>The records of one symbol: exported fits, and the unsupported strata as text.\<close>

definition export_record :: "(json \<Rightarrow> string res) \<Rightarrow> string \<Rightarrow> json list \<times> string list \<Rightarrow> json
    \<Rightarrow> (json list \<times> string list) res" where
  "export_record dumps symbol acc v =
     bnd (as_dict v) (\<lambda>d.
     bnd (jget d ''symbol'') (\<lambda>s.
     if s \<noteq> JStr symbol then Inr acc
     else bnd (jget d ''status'') (\<lambda>status.
          if status \<noteq> JStr ''evaluated''
          then bnd (dumps v) (\<lambda>t. Inr (fst acc, snd acc @ [t]))
          else bnd (select_fit d) (\<lambda>f. Inr (fst acc @ [f], snd acc)))))"

definition fit_is_primary :: "json \<Rightarrow> bool res" where
  "fit_is_primary v =
     bnd (as_dict v) (\<lambda>d. bnd (jget d ''size_regime'') (\<lambda>r.
     if r \<noteq> JStr ''all_sizes'' then Inr False
     else bnd (jget d ''model'') (\<lambda>m. bnd (as_dict m) (\<lambda>md. bnd (jget md ''form'') (\<lambda>f. Inr (f = JStr ''square_root''))))))"

fun filter_res :: "('a \<Rightarrow> bool res) \<Rightarrow> 'a list \<Rightarrow> 'a list res" where
  "filter_res p [] = Inr []"
| "filter_res p (x # xs) = bnd (p x) (\<lambda>b. bnd (filter_res p xs) (\<lambda>ys. Inr (if b then x # ys else ys)))"

definition dict_get :: "string \<Rightarrow> json \<Rightarrow> json res" where
  "dict_get k v = bnd (as_dict v) (\<lambda>d. jget d k)"

definition of_symbol :: "string \<Rightarrow> json \<Rightarrow> bool res" where
  "of_symbol symbol v = bnd (dict_get ''symbol'' v) (\<lambda>s. Inr (s = JStr symbol))"

definition from_fit_report :: "(json \<Rightarrow> string res) \<Rightarrow> (string \<times> json) list \<Rightarrow> string \<Rightarrow> string \<Rightarrow> string \<Rightarrow> string
    \<Rightarrow> json res" where
  "from_fit_report dumps summary symbol fit_date code_version kind =
     bnd (bnd (jget summary ''fits'') as_list) (\<lambda>records.
     bnd (fold_res (export_record dumps symbol) ([], []) records) (\<lambda>(fits, unavailable).
     bnd (filter_res fit_is_primary fits) (\<lambda>primary.
     bnd (jget summary ''primary_form'') (\<lambda>primary_form.
     bnd (bnd (jget summary ''config'') (dict_get ''target'')) (\<lambda>target.
     bnd (map_res (\<lambda>k. bnd (jget summary k) (\<lambda>v. Inr (k, v)))
            [''train_start'', ''train_end_exclusive'', ''test_end_exclusive'']) (\<lambda>window.
     bnd (jget summary ''fitting_source_sha256'') (\<lambda>source_digest.
     bnd (case map_of summary ''inputs'' of None \<Rightarrow> Inr [] | Some v \<Rightarrow> as_list v) (\<lambda>all_inputs.
     bnd (filter_res (of_symbol symbol) all_inputs) (\<lambda>inputs.
     bnd (map_res (\<lambda>f. bnd (bnd (dict_get ''train_days'' f) str_list) (\<lambda>a.
                       bnd (bnd (dict_get ''test_days'' f) str_list) (\<lambda>b. Inr (a @ b)))) fits) (\<lambda>days.
     bnd (bnd (map_res (dict_get ''train_rows'') primary) sum_json) (\<lambda>train_total.
     bnd (bnd (map_res (dict_get ''test_rows'') primary) sum_json) (\<lambda>test_total.
     bnd (map_res (jget summary) [''caveat'', ''weighting'', ''size_regimes'', ''signed_targets'',
            ''power_diagnostic'', ''exclusion_note'']) (\<lambda>notes.
     bnd (bnd (jget summary ''groups'') as_list) (\<lambda>all_groups.
     bnd (filter_res (of_symbol symbol) all_groups) (\<lambda>groups.
     bnd (map_res dumps groups) (\<lambda>group_texts.
     let a = JDict ([(''schema_version'', JInt 1), (''symbol'', JStr symbol), (''primary_form'', primary_form),
               (''target'', target), (''size_unit'', JStr ''ADV fraction''), (''output_unit'', JStr ''bps'')]
             @ window
             @ [(''provenance'', JDict [(''kind'', JStr kind), (''fit_date'', JStr fit_date),
                   (''code_version'', JStr code_version), (''fitting_source_sha256'', source_digest),
                   (''inputs'', JList inputs),
                   (''corpus_days'', JList (map JStr (sort (remdups (concat days))))),
                   (''supporting_train_rows'', train_total), (''supporting_test_rows'', test_total),
                   (''row_count_scope'', JStr row_count_scope)]),
                (''caveats'', JList (notes @ map (\<lambda>t. JStr (''Unsupported stratum: '' @ t)) unavailable
                   @ map (\<lambda>t. JStr (''Group coverage: '' @ t)) group_texts)),
                (''fits'', JList fits)])
     in bnd (validate a) (\<lambda>_. Inr a)))))))))))))))))"


section \<open>What a validated artifact guarantees\<close>

lemma days_of_Inr: "days_of v = Inr ds \<Longrightarrow> v = JList (map JStr ds) \<and> ds \<noteq> [] \<and> ascending ds \<and> (\<forall>d \<in> set ds. iso_date d \<noteq> None)"
proof (cases v)
  case (JList xs)
  assume a: "days_of v = Inr ds"
  then obtain ss where ss: "xs = map JStr ss" "ss \<noteq> []" "ascending ss" "map_res date_of xs = Inr ds"
    using JList by (auto simp: days_of_def jstrs_Some res_simps split: option.splits if_splits)
  have "map_res date_of (map JStr ss) = Inr ds \<Longrightarrow> ds = ss \<and> (\<forall>d \<in> set ss. iso_date d \<noteq> None)" for ss ds
    by (induction ss arbitrary: ds) (auto simp: res_simps date_of_def split: if_splits)
  then show ?thesis using ss JList by blast
qed (simp_all add: days_of_def)

lemma check_days_Inr:
  "check_days v low high rows = Inr ds \<Longrightarrow>
     ds \<noteq> [] \<and> ascending ds \<and> (\<forall>d \<in> set ds. low \<le> d \<and> d < high) \<and> int (length ds) \<le> rows"
  using days_of_Inr by (fastforce simp: check_days_def res_simps list_ex_iff)

definition fit_ok :: "string \<Rightarrow> string \<Rightarrow> string \<Rightarrow> fit_view \<Rightarrow> bool" where
  "fit_ok start cutoff stop f \<longleftrightarrow>
     fv_side f \<in> {''buy'', ''sell''} \<and> fv_depth f \<in> {inside_depth, beyond_depth} \<and> fv_form f \<in> set known_forms
     \<and> is_fin (fv_coefficient f) \<and> is_fin (fv_exponent f)
     \<and> (fv_form f = ''square_root'' \<longrightarrow> fv_exponent f = Fin (1 / 2)) \<and> (fv_form f = ''linear'' \<longrightarrow> fv_exponent f = Fin 1)
     \<and> (fv_usable f \<longleftrightarrow> fle (Fin 0) (fv_coefficient f) \<and> flt (Fin 0) (fv_exponent f))
     \<and> 0 < fv_train_rows f \<and> 0 < fv_test_rows f
     \<and> fv_train_days f \<noteq> [] \<and> fv_test_days f \<noteq> []
     \<and> (\<forall>d \<in> set (fv_train_days f). start \<le> d \<and> d < cutoff) \<and> (\<forall>d \<in> set (fv_test_days f). cutoff \<le> d \<and> d < stop)
     \<and> is_fin (fv_size_min f) \<and> is_fin (fv_size_max f) \<and> flt (Fin 0) (fv_size_min f) \<and> fle (fv_size_min f) (fv_size_max f)"

lemma number_of_Inr: "number_of v name = Inr x \<Longrightarrow> is_fin x"
  by (cases v) (auto simp: number_of_def split: if_splits)

lemma check_size_Inr: "check_size v = Inr x \<Longrightarrow> is_fin x \<and> flt (Fin 0) x"
  using number_of_Inr by (fastforce simp: check_size_def res_simps elim!: is_fin.elims)

lemma check_sizes_Inr:
  "check_sizes d regime = Inr (a, b) \<Longrightarrow> is_fin a \<and> is_fin b \<and> flt (Fin 0) a \<and> fle a b"
proof -
  assume "check_sizes d regime = Inr (a, b)"
  then obtain v1 v2 where "check_size v1 = Inr a" "check_size v2 = Inr b" "\<not> flt b a"
    unfolding check_sizes_def by (auto simp: res_simps)
  then show ?thesis using check_size_Inr [of v1 a] check_size_Inr [of v2 b]
    by (auto intro!: not_flt_fle elim!: is_fin.elims)
qed

lemma count_of_Inr: "count_of v name = Inr i \<longleftrightarrow> v = JInt i \<and> 0 \<le> i"
  by (auto simp: count_of_def split: json.splits if_splits)

lemma check_counts_Inr: "check_counts d form depth = Inr (a, b) \<Longrightarrow> 0 < a \<and> 0 < b"
  unfolding check_counts_def by (auto simp: bnd_eq_Inr guard_eq_Inr count_of_Inr)

lemma check_model_Inr: "check_model m form = Inr (c, e) \<Longrightarrow>
    is_fin c \<and> is_fin e \<and> (form = ''square_root'' \<longrightarrow> e = Fin (1 / 2)) \<and> (form = ''linear'' \<longrightarrow> e = Fin 1)"
  using number_of_Inr unfolding check_model_def by (auto simp: res_simps)

lemma one_of_str: "one_of v allowed \<Longrightarrow> v = JStr (str_of v) \<and> str_of v \<in> set allowed"
  by (auto simp: one_of_def list_ex_iff str_of_def)

lemma validate_fit_parts:
  assumes "validate_fit start cutoff stop v = Inr f"
  obtains d m form depth side schedule regime coefficient exponent train test dv1 dv2 days1 days2 least greatest where
    "one_of form known_forms" "one_of depth [inside_depth, beyond_depth]" "one_of side [''buy'', ''sell'']"
    "check_model m (str_of form) = Inr (coefficient, exponent)"
    "check_counts d (str_of form) (str_of depth) = Inr (train, test)"
    "check_days dv1 start cutoff train = Inr days1" "check_days dv2 cutoff stop test = Inr days2"
    "check_sizes d regime = Inr (least, greatest)"
    "f = \<lparr>fv_side = str_of side, fv_schedule = schedule, fv_depth = str_of depth, fv_regime = regime,
             fv_form = str_of form, fv_coefficient = coefficient, fv_exponent = exponent,
             fv_usable = (fle (Fin 0) coefficient \<and> flt (Fin 0) exponent),
             fv_train_rows = train, fv_test_rows = test, fv_train_days = days1, fv_test_days = days2,
             fv_size_min = least, fv_size_max = greatest\<rparr>"
proof -
  from assms obtain d m form depth side schedule regime c where
    1: "one_of form known_forms" "one_of depth [inside_depth, beyond_depth]" "one_of side [''buy'', ''sell'']"
      "check_model m (str_of form) = Inr c"
    and rest: "(\<lambda>(coefficient, exponent).
       bnd (jget d ''usable_as_nonnegative_impact_law'') (\<lambda>flag.
       bnd (guard (flag \<noteq> JBool (fle (Fin 0) coefficient \<and> flt (Fin 0) exponent))
              (ImpactModelError ''incorrect usability flag'')) (\<lambda>_.
       bnd (check_counts d (str_of form) (str_of depth)) (\<lambda>(train, test).
       bnd (jget d ''train_days'') (\<lambda>dv1. bnd (check_days dv1 start cutoff train) (\<lambda>days1.
       bnd (jget d ''test_days'') (\<lambda>dv2. bnd (check_days dv2 cutoff stop test) (\<lambda>days2.
       bnd (check_sizes d regime) (\<lambda>(least, greatest).
         Inr \<lparr>fv_side = str_of side, fv_schedule = schedule, fv_depth = str_of depth, fv_regime = regime,
               fv_form = str_of form, fv_coefficient = coefficient, fv_exponent = exponent,
               fv_usable = (fle (Fin 0) coefficient \<and> flt (Fin 0) exponent),
               fv_train_rows = train, fv_test_rows = test, fv_train_days = days1, fv_test_days = days2,
               fv_size_min = least, fv_size_max = greatest\<rparr>))))))))) c = Inr f"
    unfolding validate_fit_def bnd_eq_Inr guard_eq_Inr by blast
  obtain coefficient exponent where c: "c = (coefficient, exponent)" by (cases c)
  from rest obtain t dv1 dv2 days1 days2 sz where
    2: "check_counts d (str_of form) (str_of depth) = Inr t"
      "check_days dv1 start cutoff (fst t) = Inr days1" "check_days dv2 cutoff stop (snd t) = Inr days2"
      "check_sizes d regime = Inr sz"
      "f = \<lparr>fv_side = str_of side, fv_schedule = schedule, fv_depth = str_of depth, fv_regime = regime,
               fv_form = str_of form, fv_coefficient = coefficient, fv_exponent = exponent,
               fv_usable = (fle (Fin 0) coefficient \<and> flt (Fin 0) exponent),
               fv_train_rows = fst t, fv_test_rows = snd t, fv_train_days = days1, fv_test_days = days2,
               fv_size_min = fst sz, fv_size_max = snd sz\<rparr>"
    unfolding c split_beta bnd_eq_Inr guard_eq_Inr fst_conv snd_conv sum.inject by blast
  show thesis
    using 2 by (cases t; cases sz) (simp only: fst_conv snd_conv, rule that [OF 1(1-3) 1(4) [unfolded c]], assumption+)
qed

lemma validate_fit_ok:
  assumes "validate_fit start cutoff stop v = Inr f"
  shows "fit_ok start cutoff stop f"
proof (rule validate_fit_parts [OF assms])
  fix d m form depth side schedule regime coefficient exponent train test dv1 dv2 days1 days2 least greatest
  assume h: "one_of form known_forms" "one_of depth [inside_depth, beyond_depth]" "one_of side [''buy'', ''sell'']"
    "check_model m (str_of form) = Inr (coefficient, exponent)"
    "check_counts d (str_of form) (str_of depth) = Inr (train, test)"
    "check_days dv1 start cutoff train = Inr days1" "check_days dv2 cutoff stop test = Inr days2"
    "check_sizes d regime = Inr (least, greatest)"
    and f: "f = \<lparr>fv_side = str_of side, fv_schedule = schedule, fv_depth = str_of depth, fv_regime = regime,
             fv_form = str_of form, fv_coefficient = coefficient, fv_exponent = exponent,
             fv_usable = (fle (Fin 0) coefficient \<and> flt (Fin 0) exponent),
             fv_train_rows = train, fv_test_rows = test, fv_train_days = days1, fv_test_days = days2,
             fv_size_min = least, fv_size_max = greatest\<rparr>"
  have "str_of form \<in> set known_forms" "str_of depth \<in> {inside_depth, beyond_depth}"
    "str_of side \<in> {''buy'', ''sell''}"
    using one_of_str [OF h(1)] one_of_str [OF h(2)] one_of_str [OF h(3)] by (simp_all only: list.simps)
  then show ?thesis
    unfolding fit_ok_def f fit_view.simps
    using check_model_Inr [OF h(4)] check_counts_Inr [OF h(5)] check_days_Inr [OF h(6)] check_days_Inr [OF h(7)]
      check_sizes_Inr [OF h(8)]
    by blast
qed

lemma check_fit_run:
  "fold_res (check_fit start cutoff stop) seen records = Inr fits \<Longrightarrow> distinct (map fit_identity seen) \<Longrightarrow>
   \<forall>f \<in> set seen. fit_ok start cutoff stop f \<Longrightarrow>
   distinct (map fit_identity fits) \<and> (\<forall>f \<in> set fits. fit_ok start cutoff stop f)"
proof (induction records arbitrary: seen)
  case (Cons v records)
  then obtain f where f: "validate_fit start cutoff stop v = Inr f" "fit_identity f \<notin> fit_identity ` set seen"
    "fold_res (check_fit start cutoff stop) (seen @ [f]) records = Inr fits"
    unfolding fold_res.simps check_fit_def bnd_eq_Inr guard_eq_Inr by blast
  have "distinct (map fit_identity (seen @ [f]))" using f(2) Cons.prems(2) by simp
  moreover have "\<forall>f \<in> set (seen @ [f]). fit_ok start cutoff stop f"
    using Cons.prems(3) validate_fit_ok [OF f(1)] by simp
  ultimately show ?case by (rule Cons.IH [OF f(3)])
qed simp

definition artifact_ok :: "artifact \<Rightarrow> bool" where
  "artifact_ok a \<longleftrightarrow>
     has_text (ar_symbol a) \<and> ar_train_start a < ar_cutoff a \<and> ar_cutoff a < ar_end a
     \<and> iso_date (ar_end a) \<noteq> None
     \<and> pv_kind (ar_provenance a) \<in> {''synthetic'', ''verified_calibration''}
     \<and> distinct (map fit_identity (ar_fits a))
     \<and> (\<forall>f \<in> set (ar_fits a). fit_ok (ar_train_start a) (ar_cutoff a) (ar_end a) f)
     \<and> (\<exists>f \<in> set (ar_fits a). is_primary f)
     \<and> set (pv_corpus_days (ar_provenance a)) = (\<Union>f \<in> set (ar_fits a). set (fv_days f))
     \<and> pv_train_rows (ar_provenance a) = sum_list (map fv_train_rows (filter is_primary (ar_fits a)))
     \<and> pv_test_rows (ar_provenance a) = sum_list (map fv_test_rows (filter is_primary (ar_fits a)))"

lemma text_of_Inr: "text_of v name = Inr s \<longleftrightarrow> v = JStr s \<and> has_text s"
  by (auto simp: text_of_def split: json.splits if_splits)

lemma date_of_Inr: "date_of v = Inr s \<longleftrightarrow> v = JStr s \<and> iso_date s \<noteq> None"
  by (auto simp: date_of_def split: json.splits if_splits)

lemma validate_provenance_Inr:
  "validate_provenance v symbol start stop = Inr p \<Longrightarrow> pv_kind p \<in> {''synthetic'', ''verified_calibration''}"
proof -
  assume "validate_provenance v symbol start stop = Inr p"
  then have "\<exists>k. check_kind k = Inr (pv_kind p)"
    unfolding validate_provenance_def bnd_eq_Inr guard_eq_Inr sum.inject by auto
  then obtain k where "check_kind k = Inr (pv_kind p)" ..
  then show ?thesis by (cases k) (auto simp: check_kind_def split: if_splits)
qed

lemma validate_raw_parts:
  assumes "validate_raw v = Inr a"
  obtains records pv where
    "has_text (ar_symbol a)" "ar_train_start a < ar_cutoff a" "ar_cutoff a < ar_end a" "iso_date (ar_end a) \<noteq> None"
    "validate_provenance pv (ar_symbol a) (ar_train_start a) (ar_end a) = Inr (ar_provenance a)"
    "fold_res (check_fit (ar_train_start a) (ar_cutoff a) (ar_end a)) [] records = Inr (ar_fits a)"
    "filter is_primary (ar_fits a) \<noteq> []"
    "sort (remdups (concat (map fv_days (ar_fits a)))) = pv_corpus_days (ar_provenance a)"
    "sum_list (map fv_train_rows (filter is_primary (ar_fits a))) = pv_train_rows (ar_provenance a)"
    "sum_list (map fv_test_rows (filter is_primary (ar_fits a))) = pv_test_rows (ar_provenance a)"
  using assms unfolding validate_raw_def Let_def
  by (auto simp: bnd_eq_Inr guard_eq_Inr text_of_Inr date_of_Inr)

lemma validate_ok: "validate v = Inr a \<Longrightarrow> artifact_ok a"
proof -
  assume "validate v = Inr a"
  then have "validate_raw v = Inr a" by (simp add: validate_def split: sum.splits)
  then obtain records pv where h:
    "has_text (ar_symbol a)" "ar_train_start a < ar_cutoff a" "ar_cutoff a < ar_end a" "iso_date (ar_end a) \<noteq> None"
    "validate_provenance pv (ar_symbol a) (ar_train_start a) (ar_end a) = Inr (ar_provenance a)"
    "fold_res (check_fit (ar_train_start a) (ar_cutoff a) (ar_end a)) [] records = Inr (ar_fits a)"
    "filter is_primary (ar_fits a) \<noteq> []"
    "sort (remdups (concat (map fv_days (ar_fits a)))) = pv_corpus_days (ar_provenance a)"
    "sum_list (map fv_train_rows (filter is_primary (ar_fits a))) = pv_train_rows (ar_provenance a)"
    "sum_list (map fv_test_rows (filter is_primary (ar_fits a))) = pv_test_rows (ar_provenance a)"
    by (rule validate_raw_parts)
  have "set (pv_corpus_days (ar_provenance a)) = (\<Union>f \<in> set (ar_fits a). set (fv_days f))"
    by (simp add: h(8) [symmetric])
  moreover have "\<exists>f \<in> set (ar_fits a). is_primary f" using h(7) by (auto simp: filter_empty_conv)
  ultimately show ?thesis
    using h check_fit_run [OF h(6)] validate_provenance_Inr [OF h(5)] by (simp add: artifact_ok_def)
qed


section \<open>The only error of validation\<close>

definition refuses :: "'a res \<Rightarrow> bool" where
  "refuses m \<longleftrightarrow> (\<forall>e. m = Inl e \<longrightarrow> (\<exists>s. wrapped e = ImpactModelError s))"

named_theorems refusal "steps that fail only as an impact model error"

lemma refuses_Inr [refusal]: "refuses (Inr x)"
  and refuses_error [refusal]: "refuses (Inl (ImpactModelError s))"
  and refuses_overflow [refusal]: "refuses (Inl (OverflowError s))"
  and refuses_guard [refusal]: "refuses (guard b (ImpactModelError s))"
  by (auto simp: refuses_def wrapped_def guard_def)

lemma refuses_bnd [refusal]: "refuses m \<Longrightarrow> (\<And>x. refuses (f x)) \<Longrightarrow> refuses (bnd m f)"
  by (cases m) (auto simp: refuses_def)

lemma refuses_if [refusal]: "refuses a \<Longrightarrow> refuses b \<Longrightarrow> refuses (if c then a else b)"
  by simp

lemma refuses_pair [refusal]: "(\<And>a b. refuses (f a b)) \<Longrightarrow> refuses (case p of (a, b) \<Rightarrow> f a b)"
  by (cases p) simp

lemma refuses_Let [refusal]: "refuses (f x) \<Longrightarrow> refuses (Let x f)"
  by simp

lemma refuses_fields:
  "(\<And>d. set (map fst d) = set expected \<Longrightarrow> refuses (f d)) \<Longrightarrow> refuses (bnd (fields_of v expected name) f)"
  by (cases v) (auto simp: fields_of_def refusal)

lemma refuses_key: "k \<in> set (map fst d) \<Longrightarrow> (\<And>v. refuses (f v)) \<Longrightarrow> refuses (bnd (jget d k) f)"
proof -
  assume k: "k \<in> set (map fst d)" and f: "\<And>v. refuses (f v)"
  have "map_of d k \<noteq> None" using k unfolding map_of_eq_None_iff by simp
  then obtain v where "map_of d k = Some v" by blast
  then show ?thesis using f by (simp add: jget_def)
qed

lemma refuses_map [refusal]: "(\<And>x. refuses (f x)) \<Longrightarrow> refuses (map_res f xs)"
  by (induction xs) (auto intro!: refusal)

lemma refuses_fold [refusal]: "(\<And>s x. refuses (f s x)) \<Longrightarrow> refuses (fold_res f s xs)"
  by (induction xs arbitrary: s) (auto intro!: refusal)

lemma refuses_text [refusal]: "refuses (text_of v n)"
  and refuses_count [refusal]: "refuses (count_of v n)"
  and refuses_number [refusal]: "refuses (number_of v n)"
  and refuses_date [refusal]: "refuses (date_of v)"
  and refuses_digest [refusal]: "refuses (digest_of v)"
  and refuses_kind [refusal]: "refuses (check_kind v)"
  and refuses_regime [refusal]: "refuses (check_regime v)"
  and refuses_nonempty [refusal]: "refuses (nonempty_items v m)"
  by (cases v; simp add: text_of_def count_of_def number_of_def date_of_def digest_of_def check_kind_def
      check_regime_def nonempty_items_def refusal)+

lemma refuses_days [refusal]: "refuses (days_of v)"
  by (cases v) (auto simp: days_of_def refusal split: option.splits)

lemma refuses_check_days [refusal]: "refuses (check_days v low high rows)"
  unfolding check_days_def by (intro refusal)

lemma refuses_check_size [refusal]: "refuses (check_size v)"
  unfolding check_size_def by (intro refusal)

lemma refuses_input [refusal]: "refuses (check_input symbol start stop seen item)"
  unfolding check_input_def by (rule refuses_fields) (intro refuses_key refusal; simp)

lemma refuses_list [refusal]: "refuses (case v of JList xs \<Rightarrow> Inr xs | _ \<Rightarrow> Inl (ImpactModelError m))"
  by (cases v) (auto simp: refusal)

lemma refuses_provenance [refusal]: "refuses (validate_provenance v symbol start stop)"
  unfolding validate_provenance_def
  by (rule refuses_fields) (intro refuses_key refusal; simp add: provenance_fields_def)

lemma refuses_model [refusal]:
  "set (map fst m) = set [''form'', ''coefficient'', ''exponent''] \<Longrightarrow> refuses (check_model m form)"
  unfolding check_model_def by (intro refuses_key refusal) simp_all

lemma refuses_counts: "set (map fst d) = set fit_fields \<Longrightarrow> refuses (check_counts d form depth)"
  unfolding check_counts_def by (intro refuses_key refusal) (simp_all add: fit_fields_def)

lemma refuses_sizes: "set (map fst d) = set fit_fields \<Longrightarrow> refuses (check_sizes d regime)"
  unfolding check_sizes_def by (intro refuses_key refusal) (simp_all add: fit_fields_def)

lemma refuses_fit [refusal]: "refuses (validate_fit start cutoff stop v)"
  unfolding validate_fit_def
  apply (rule refuses_fields)
  apply (rule refuses_key, simp add: fit_fields_def)
  apply (rule refuses_fields)
  apply (intro refuses_key refuses_counts refuses_sizes refusal; simp add: fit_fields_def)
  done

lemma refuses_check_fit [refusal]: "refuses (check_fit start cutoff stop seen v)"
  unfolding check_fit_def by (intro refusal)

lemma refuses_raw: "refuses (validate_raw v)"
  unfolding validate_raw_def
  by (rule refuses_fields) (intro refuses_key refusal; simp add: artifact_fields_def)

section \<open>Properties\<close>

text \<open>validation of an impact artifact has one failure: whatever the document holds, \<open>validate\<close>
  returns or raises \<open>ImpactModelError\<close>, never a missing key, a type error or an overflow.\<close>

theorem validate_raises_only_impact_errors:
  "case validate v of Inr a \<Rightarrow> True | Inl e \<Rightarrow> (case e of ImpactModelError s \<Rightarrow> True | _ \<Rightarrow> False)"
  using refuses_raw [of v] by (auto simp: validate_def refuses_def split: sum.splits)


lemma find_fit_Inr: "find_fit key fs = Inr f \<Longrightarrow> f \<in> set fs \<and> fit_identity f = key"
  by (induction fs) (auto split: if_splits)

lemma find_fit_unique: "distinct (map fit_identity fs) \<Longrightarrow> f \<in> set fs \<Longrightarrow> find_fit (fit_identity f) fs = Inr f"
  by (induction fs) (auto simp: image_iff)

lemma find_fit_Inl: "key \<notin> fit_identity ` set fs \<Longrightarrow> find_fit key fs = Inl (ImpactModelError ''requested fitted stratum is unavailable'')"
  by (induction fs) auto

text \<open>a stratum lookup in a validated artifact has exactly one answer: every fit of the artifact is
  returned for its own side, schedule, depth, size regime and form, with no fallback to another stratum, its
  coefficient and exponent are finite, a square-root law has exponent one half, and a stratum
  the artifact does not have is refused.\<close>

theorem law_is_the_unique_stratum:
  assumes "validate v = Inr a"
  shows "(\<forall>f \<in> set (ar_fits a).
       law v (fv_side f) (fv_schedule f) (fv_depth f) (fv_regime f) (fv_form f)
         = Inr \<lparr>lw_form = fv_form f, lw_coefficient = fv_coefficient f, lw_exponent = fv_exponent f\<rparr>
       \<and> is_fin (fv_coefficient f) \<and> (fv_form f = ''square_root'' \<longrightarrow> fv_exponent f = Fin (1 / 2)))
    \<and> ((side, schedule, depth, regime, form) \<notin> fit_identity ` set (ar_fits a) \<longrightarrow>
       law v side schedule depth regime form
         = Inl (ImpactModelError ''requested fitted stratum is unavailable''))"
proof -
  have ok: "artifact_ok a" using assms by (rule validate_ok)
  have "find_fit (fv_side f, fv_schedule f, fv_depth f, fv_regime f, fv_form f) (ar_fits a) = Inr f"
    if "f \<in> set (ar_fits a)" for f
    using find_fit_unique [OF _ that] ok by (simp add: artifact_ok_def fit_identity_def [of f])
  moreover have "fit_ok (ar_train_start a) (ar_cutoff a) (ar_end a) f" if "f \<in> set (ar_fits a)" for f
    using ok that by (simp add: artifact_ok_def)
  ultimately show ?thesis
    using assms find_fit_Inl [of "(side, schedule, depth, regime, form)" "ar_fits a"]
    by (simp add: law_def fit_ok_def)
qed

text \<open>C19: the chronology of a validated artifact is sound: every fit was trained strictly before the
  cutoff and evaluated from the cutoff to the test end, on at least one day each; the days the provenance
  lists are exactly the days of the fits; and its supporting row counts are the sums over the primary fits.\<close>

theorem artifact_chronology:
  assumes "validate v = Inr a"
  shows "ar_train_start a < ar_cutoff a \<and> ar_cutoff a < ar_end a
    \<and> (\<forall>f \<in> set (ar_fits a). fv_train_days f \<noteq> [] \<and> fv_test_days f \<noteq> []
         \<and> (\<forall>d \<in> set (fv_train_days f). ar_train_start a \<le> d \<and> d < ar_cutoff a)
         \<and> (\<forall>d \<in> set (fv_test_days f). ar_cutoff a \<le> d \<and> d < ar_end a))
    \<and> set (pv_corpus_days (ar_provenance a)) = (\<Union>f \<in> set (ar_fits a). set (fv_train_days f) \<union> set (fv_test_days f))
    \<and> pv_train_rows (ar_provenance a) = sum_list (map fv_train_rows (filter is_primary (ar_fits a)))
    \<and> pv_test_rows (ar_provenance a) = sum_list (map fv_test_rows (filter is_primary (ar_fits a)))
    \<and> (\<exists>f \<in> set (ar_fits a). fv_regime f = ''all_sizes'' \<and> fv_form f = ''square_root'')"
proof -
  note ok = validate_ok [OF assms, unfolded artifact_ok_def]
  have "fv_train_days f \<noteq> [] \<and> fv_test_days f \<noteq> []
      \<and> (\<forall>d \<in> set (fv_train_days f). ar_train_start a \<le> d \<and> d < ar_cutoff a)
      \<and> (\<forall>d \<in> set (fv_test_days f). ar_cutoff a \<le> d \<and> d < ar_end a)" if "f \<in> set (ar_fits a)" for f
  proof -
    have "fit_ok (ar_train_start a) (ar_cutoff a) (ar_end a) f" using ok that by blast
    then show ?thesis unfolding fit_ok_def by blast
  qed
  moreover have "set (pv_corpus_days (ar_provenance a))
      = (\<Union>f \<in> set (ar_fits a). set (fv_train_days f) \<union> set (fv_test_days f))"
    using ok by (simp add: fv_days_def)
  moreover have "\<exists>f \<in> set (ar_fits a). fv_regime f = ''all_sizes'' \<and> fv_form f = ''square_root''"
    using ok unfolding is_primary_def by blast
  ultimately show ?thesis using ok by blast
qed

section \<open>A concrete artifact\<close>

definition example_sha :: json where "example_sha = JStr (replicate 64 CHR ''a'')"

definition example_fit :: "string \<Rightarrow> rat \<Rightarrow> json" where
  "example_fit side coefficient = JDict [
     (''side'', JStr side), (''schedule'', JStr ''static''), (''depth'', JStr inside_depth),
     (''size_regime'', JStr ''all_sizes''), (''size_bin_edges_adv_fraction'', JList []),
     (''model'', JDict [(''form'', JStr ''square_root''), (''coefficient'', JNum (Fin coefficient)),
        (''exponent'', JNum (Fin (1 / 2)))]),
     (''train_rows'', JInt 2), (''test_rows'', JInt 1), (''train_days'', JList [JStr ''2024-01-01'']),
     (''test_days'', JList [JStr ''2024-01-02'']), (''training_size_min'', JNum (Fin (1 / 1024))),
     (''training_size_max'', JNum (Fin (1 / 2))), (''usable_as_nonnegative_impact_law'', JBool True),
     (''zero_training_targets'', JInt 0), (''negative_training_targets'', JInt 0),
     (''fit_rows_used'', JInt 2), (''beyond_validated_depth_rows'', JInt 0)]"

definition example_artifact :: json where
  "example_artifact = JDict [
     (''schema_version'', JInt 1), (''symbol'', JStr ''BTC''), (''primary_form'', JStr ''square_root''),
     (''target'', JStr ''slippage_vs_touch_bps''), (''size_unit'', JStr ''ADV fraction''),
     (''output_unit'', JStr ''bps''), (''train_start'', JStr ''2024-01-01''),
     (''train_end_exclusive'', JStr ''2024-01-02''), (''test_end_exclusive'', JStr ''2024-01-03''),
     (''provenance'', JDict [(''kind'', JStr ''synthetic''), (''fit_date'', JStr ''2024-01-03''),
        (''code_version'', JStr ''v1''), (''fitting_source_sha256'', example_sha), (''inputs'', JList []),
        (''corpus_days'', JList [JStr ''2024-01-01'', JStr ''2024-01-02'']),
        (''supporting_train_rows'', JInt 4), (''supporting_test_rows'', JInt 2),
        (''row_count_scope'', JStr row_count_scope)]),
     (''caveats'', JList [JStr ''none'']),
     (''fits'', JList [example_fit ''sell'' 8, example_fit ''buy'' 4])]"

definition example_view :: "string \<Rightarrow> rat \<Rightarrow> fit_view" where
  "example_view side coefficient = \<lparr>fv_side = side, fv_schedule = ''static'', fv_depth = inside_depth,
     fv_regime = ''all_sizes'', fv_form = ''square_root'', fv_coefficient = Fin coefficient,
     fv_exponent = Fin (1 / 2), fv_usable = True, fv_train_rows = 2, fv_test_rows = 1,
     fv_train_days = [''2024-01-01''], fv_test_days = [''2024-01-02''],
     fv_size_min = Fin (1 / 1024), fv_size_max = Fin (1 / 2)\<rparr>"

lemma example_dates: "iso_date ''2024-01-01'' \<noteq> None" "iso_date ''2024-01-02'' \<noteq> None" "iso_date ''2024-01-03'' \<noteq> None"
  by (simp_all add: iso_date_def is_digits_def is_digit_def digits_val_def digit_val_def days_in_month_def Let_def)

lemma example_date_order: "''2024-01-01'' < ''2024-01-02''" "''2024-01-02'' < ''2024-01-03''"
  by (simp_all add: less_char_def)


lemma example_text: "has_text ''BTC''" "has_text ''static''" "has_text ''v1''" "has_text ''none''"
  by (simp_all add: has_text_def py_space_def Let_def)

lemma example_sha_ok: "digest_of example_sha = Inr (replicate 64 CHR ''a'')"
  by (simp add: digest_of_def example_sha_def is_digest_def list_all_iff)

lemma example_day_lists:
  "days_of (JList [JStr ''2024-01-01'']) = Inr [''2024-01-01'']"
  "days_of (JList [JStr ''2024-01-02'']) = Inr [''2024-01-02'']"
  "days_of (JList [JStr ''2024-01-01'', JStr ''2024-01-02'']) = Inr [''2024-01-01'', ''2024-01-02'']"
  using example_dates example_date_order by (simp_all add: days_of_def ascending_def date_of_def)

lemma example_fit_valid:
  assumes "side = ''sell'' \<and> c = 8 \<or> side = ''buy'' \<and> c = 4"
  shows "validate_fit ''2024-01-01'' ''2024-01-02'' ''2024-01-03'' (example_fit side c) = Inr (example_view side c)"
proof -
  have "one_of (JStr side) [''buy'', ''sell'']" using assms by (auto simp: one_of_def)
  moreover have "fields_of (example_fit side c) fit_fields ''fit'' = Inr (case example_fit side c of JDict d \<Rightarrow> d | _ \<Rightarrow> [])"
    unfolding fields_of_def example_fit_def fit_fields_def by (simp add: insert_commute)
  moreover have "0 \<le> c" using assms by auto
  ultimately show ?thesis
    unfolding validate_fit_def example_fit_def
    by (simp add: jget_def fields_of_def insert_commute one_of_def known_forms_def str_of_def text_of_def
        example_text check_regime_def check_model_def number_of_def check_counts_def count_of_def inside_depth_def
        beyond_depth_def check_days_def example_day_lists example_date_order check_sizes_def check_size_def
        regime_bin_def example_view_def cong: eval_cong)
qed


definition example_provenance :: provenance where
  "example_provenance = \<lparr>pv_kind = ''synthetic'', pv_corpus_days = [''2024-01-01'', ''2024-01-02''],
     pv_train_rows = 4, pv_test_rows = 2\<rparr>"

definition example_validated :: artifact where
  "example_validated = \<lparr>ar_symbol = ''BTC'', ar_train_start = ''2024-01-01'', ar_cutoff = ''2024-01-02'',
     ar_end = ''2024-01-03'', ar_provenance = example_provenance,
     ar_fits = [example_view ''sell'' 8, example_view ''buy'' 4]\<rparr>"

lemma example_date_of:
  "date_of (JStr ''2024-01-01'') = Inr ''2024-01-01''" "date_of (JStr ''2024-01-02'') = Inr ''2024-01-02''"
  "date_of (JStr ''2024-01-03'') = Inr ''2024-01-03''"
  using example_dates by (simp_all add: date_of_def)

lemma example_before: "''2024-01-01'' < ''2024-01-03''" "''2024-01-01'' \<le> ''2024-01-02''"
  using example_date_order by (auto intro: less_trans)

lemma example_provenance_valid:
  "validate_provenance (JDict [(''kind'', JStr ''synthetic''), (''fit_date'', JStr ''2024-01-03''),
        (''code_version'', JStr ''v1''), (''fitting_source_sha256'', example_sha), (''inputs'', JList []),
        (''corpus_days'', JList [JStr ''2024-01-01'', JStr ''2024-01-02'']),
        (''supporting_train_rows'', JInt 4), (''supporting_test_rows'', JInt 2),
        (''row_count_scope'', JStr row_count_scope)]) ''BTC'' ''2024-01-01'' ''2024-01-03'' = Inr example_provenance"
  unfolding validate_provenance_def
  by (simp add: jget_def fields_of_def provenance_fields_def insert_commute check_kind_def example_date_of
      text_of_def example_text example_sha_ok count_of_def example_day_lists example_before example_date_order
      example_provenance_def cong: eval_cong)

lemma example_artifact_valid: "validate example_artifact = Inr example_validated"
proof -
  have fits: "fold_res (check_fit ''2024-01-01'' ''2024-01-02'' ''2024-01-03'') [] [example_fit ''sell'' 8, example_fit ''buy'' 4]
      = Inr [example_view ''sell'' 8, example_view ''buy'' 4]"
    by (simp add: check_fit_def example_fit_valid) (simp add: fit_identity_def example_view_def)
  have days: "sort (remdups [''2024-01-01'', ''2024-01-02'', ''2024-01-01'', ''2024-01-02'']) = [''2024-01-01'', ''2024-01-02'']"
    using example_date_order example_before by simp
  have "validate_raw example_artifact = Inr example_validated"
    unfolding validate_raw_def example_artifact_def
    by (simp add: jget_def fields_of_def artifact_fields_def insert_commute text_of_def example_text example_date_of
        example_date_order example_provenance_valid nonempty_items_def fits is_primary_def fv_days_def
        example_view_def [of "''sell''"] example_view_def [of "''buy''"] days example_provenance_def
        example_validated_def cong: eval_cong del: fold_res.simps)
  then show ?thesis by (simp add: validate_def)
qed

lemma law_is_the_unique_stratum_witness:
  "law example_artifact ''sell'' ''static'' inside_depth ''all_sizes'' ''square_root''
     = Inr \<lparr>lw_form = ''square_root'', lw_coefficient = Fin 8, lw_exponent = Fin (1 / 2)\<rparr>
   \<and> law example_artifact ''sell'' ''sliced'' inside_depth ''all_sizes'' ''square_root''
     = Inl (ImpactModelError ''requested fitted stratum is unavailable'')"
  using law_is_the_unique_stratum [OF example_artifact_valid, of "''sell''" "''sliced''" inside_depth "''all_sizes''" "''square_root''"]
  by (simp add: example_validated_def example_view_def fit_identity_def)

lemma artifact_chronology_witness:
  "''2024-01-01'' < ar_cutoff example_validated \<and> ar_cutoff example_validated \<le> ''2024-01-02''
   \<and> pv_train_rows (ar_provenance example_validated) = sum_list (map fv_train_rows (filter is_primary (ar_fits example_validated)))"
  using artifact_chronology [OF example_artifact_valid] by (simp add: example_validated_def example_view_def)

end
