(* ===== verification/Costs.thy ===== *)
theory Costs
  imports Carry ImpactIO
begin

text \<open>
  \<open>strategy/costs.py\<close>: from a validated impact artifact to a sealed impact curve, and from a curve to the
  fraction-unit cost estimate of a decision. The file's digest before and after reading and its parsed
  content are arguments, as is \<open>x ** 0.5\<close> on floats (\<open>rt\<close>: the C library's \<open>pow\<close>).
\<close>

section \<open>The impact curve\<close>

record impact_curve =
  ic_symbol :: string
  ic_admitted_at :: int
  ic_evidence_end :: int
  ic_artifact :: string
  ic_kind :: cost_kind
  ic_sell :: pynum
  ic_buy :: pynum
  ic_size_min :: pynum
  ic_size_max :: pynum

definition mk_impact_curve :: "impact_curve \<Rightarrow> impact_curve res" where
  "mk_impact_curve c =
     bnd (mk_cost_estimate \<lparr>ce_symbol = ic_symbol c, ce_notional = Fin 1, ce_horizon = 1,
            ce_quoted_at = ic_admitted_at c, ce_valid_until = ic_admitted_at c + 1,
            ce_evidence_end = ic_evidence_end c, ce_artifact = ic_artifact c, ce_kind = ic_kind c,
            ce_entry = Fin 0, ce_close_now = Fin 0, ce_terminal_close = Fin 0, ce_financing = Fin 0\<rparr>) (\<lambda>_.
     bnd (number (ic_sell c) ''sell_coefficient_bps'' (Fin 0)) (\<lambda>_.
     bnd (number (ic_buy c) ''buy_coefficient_bps'' (Fin 0)) (\<lambda>_.
     bnd (number (ic_size_min c) ''size_min'' (Fin 0)) (\<lambda>_.
     bnd (number (ic_size_max c) ''size_max'' (Fin 0)) (\<lambda>_.
     bnd (guard (\<not> (flt (Fin 0) (ic_size_min c) \<and> fle (ic_size_min c) (ic_size_max c)))
            (ImpactModelError ''invalid supported size range'')) (\<lambda>_. Inr c))))))"

definition round_trip_coefficient :: "impact_curve \<Rightarrow> pynum" where
  "round_trip_coefficient c = fadd (bps (ic_sell c)) (bps (ic_buy c))"

definition kind_of :: "string \<Rightarrow> cost_kind" where
  "kind_of s = (if s = ''synthetic'' then Synthetic else VerifiedCalibration)"

definition side_fit :: "json \<Rightarrow> artifact \<Rightarrow> string \<Rightarrow> string \<Rightarrow> string \<Rightarrow> string \<Rightarrow> fit_view res" where
  "side_fit v a schedule depth regime side =
     bnd (law v side schedule depth regime ''square_root'') (\<lambda>l.
     bnd (find_fit (side, schedule, depth, regime, ''square_root'') (ar_fits a)) (\<lambda>f.
     bnd (guard (\<not> fv_usable f \<or> flt (lw_coefficient l) (Fin 0))
            (ImpactModelError ''unusable or extrapolated impact stratum'')) (\<lambda>_. Inr f)))"

definition fmax :: "pynum \<Rightarrow> pynum \<Rightarrow> pynum" where "fmax x y = (if flt x y then y else x)"
definition fmin :: "pynum \<Rightarrow> pynum \<Rightarrow> pynum" where "fmin x y = (if flt y x then y else x)"

definition load_curve :: "string \<Rightarrow> string \<Rightarrow> json res \<Rightarrow> string \<Rightarrow> int \<Rightarrow> string \<Rightarrow> string \<Rightarrow> string \<Rightarrow> bool
    \<Rightarrow> impact_curve res" where
  "load_curve digest digest_after loaded symbol now schedule depth regime allow_synthetic =
     bnd (integer now ''now_ms'' 0) (\<lambda>_.
     bnd (guard (depth \<noteq> inside_depth)
            (ImpactModelError ''initial strategy costs require explicitly validated order depth'')) (\<lambda>_.
     bnd loaded (\<lambda>v.
     bnd (validate v) (\<lambda>a.
     bnd (guard (digest_after \<noteq> digest) (ImpactModelError ''impact artifact changed while reading'')) (\<lambda>_.
     bnd (case iso_date (ar_end a) of Some day \<Rightarrow> Inr (utc_ms day)
          | None \<Rightarrow> Inl (ValueError ''Invalid isoformat string'')) (\<lambda>evidence_end.
     bnd (guard (ar_symbol a \<noteq> symbol \<or> now < evidence_end)
            (ImpactModelError ''symbol mismatch or future calibration/validation evidence'')) (\<lambda>_.
     let kind = kind_of (pv_kind (ar_provenance a)) in
     bnd (guard (kind = Synthetic \<and> \<not> allow_synthetic)
            (ImpactModelError ''synthetic impact artifact is not a research cost model'')) (\<lambda>_.
     bnd (side_fit v a schedule depth regime ''sell'') (\<lambda>sell.
     bnd (side_fit v a schedule depth regime ''buy'') (\<lambda>buy.
     let lower = fmax (fv_size_min sell) (fv_size_min buy);
         upper = fmin (fv_size_max sell) (fv_size_max buy) in
     bnd (guard (flt upper lower) (ImpactModelError ''no common supported size range'')) (\<lambda>_.
       mk_impact_curve \<lparr>ic_symbol = symbol, ic_admitted_at = now, ic_evidence_end = evidence_end,
         ic_artifact = digest, ic_kind = kind, ic_sell = fv_coefficient sell, ic_buy = fv_coefficient buy,
         ic_size_min = lower, ic_size_max = upper\<rparr>)))))))))))"

section \<open>Estimates\<close>

record cost_inputs =
  ci_notional :: pynum
  ci_adv_fraction :: pynum
  ci_horizon :: int
  ci_valid_until :: int
  ci_entry_half_spread :: pynum
  ci_close_half_spread :: pynum
  ci_entry_fee :: pynum
  ci_close_fee :: pynum
  ci_hedge_entry :: pynum
  ci_hedge_close :: pynum
  ci_financing :: pynum

definition check_rates :: "cost_inputs \<Rightarrow> unit res" where
  "check_rates i =
     bnd (number (ci_entry_half_spread i) ''entry_half_spread_bps'' (Fin 0)) (\<lambda>_.
     bnd (number (ci_close_half_spread i) ''close_half_spread_bps'' (Fin 0)) (\<lambda>_.
     bnd (number (ci_entry_fee i) ''entry_fee_bps'' (Fin 0)) (\<lambda>_.
     bnd (number (ci_close_fee i) ''close_fee_bps'' (Fin 0)) (\<lambda>_.
     bnd (number (ci_hedge_entry i) ''hedge_entry_bps'' (Fin 0)) (\<lambda>_.
     bnd (number (ci_hedge_close i) ''hedge_close_bps'' (Fin 0)) (\<lambda>_.
     bnd (number (ci_financing i) ''financing_fraction'' (Fin 0)) (\<lambda>_. Inr ())))))))"

definition side_cost :: "(pynum \<Rightarrow> pynum) \<Rightarrow> pynum \<Rightarrow> pynum \<Rightarrow> pynum \<Rightarrow> pynum \<Rightarrow> pynum \<Rightarrow> pynum" where
  "side_cost rt coefficient adv half_spread fee hedge =
     bps (fadd (fadd (fadd (fmul coefficient (rt adv)) half_spread) fee) hedge)"

definition from_curve :: "(pynum \<Rightarrow> pynum) \<Rightarrow> impact_curve \<Rightarrow> int \<Rightarrow> cost_inputs \<Rightarrow> cost_estimate res" where
  "from_curve rt c now i =
     bnd (integer now ''now_ms'' 0) (\<lambda>_.
     bnd (number (ci_adv_fraction i) ''adv_fraction'' (Fin 0)) (\<lambda>adv.
     bnd (guard (now < ic_admitted_at c \<or> now < ic_evidence_end c)
            (ImpactModelError ''future curve admission/evidence'')) (\<lambda>_.
     bnd (guard (\<not> (fle (ic_size_min c) adv \<and> fle adv (ic_size_max c)))
            (ImpactModelError ''extrapolated impact stratum'')) (\<lambda>_.
     bnd (check_rates i) (\<lambda>_.
     let entry = side_cost rt (ic_sell c) adv (ci_entry_half_spread i) (ci_entry_fee i) (ci_hedge_entry i);
         close = side_cost rt (ic_buy c) adv (ci_close_half_spread i) (ci_close_fee i) (ci_hedge_close i)
     in mk_cost_estimate \<lparr>ce_symbol = ic_symbol c, ce_notional = ci_notional i, ce_horizon = ci_horizon i,
          ce_quoted_at = now, ce_valid_until = ci_valid_until i, ce_evidence_end = ic_evidence_end c,
          ce_artifact = ic_artifact c, ce_kind = ic_kind c, ce_entry = entry, ce_close_now = close,
          ce_terminal_close = close, ce_financing = ci_financing i\<rparr>)))))"

definition from_artifact :: "(pynum \<Rightarrow> pynum) \<Rightarrow> string \<Rightarrow> string \<Rightarrow> json res \<Rightarrow> string \<Rightarrow> int \<Rightarrow> string \<Rightarrow> string \<Rightarrow> string
    \<Rightarrow> bool \<Rightarrow> cost_inputs \<Rightarrow> cost_estimate res" where
  "from_artifact rt digest digest_after loaded symbol now schedule depth regime allow_synthetic i =
     bnd (integer now ''now_ms'' 0) (\<lambda>_.
     bnd (number (ci_adv_fraction i) ''adv_fraction'' (Fin 0)) (\<lambda>adv.
     bnd (check_rates i) (\<lambda>_.
     bnd (guard (feq adv (Fin 0)) (ValueError ''positive size and explicit synthetic policy required'')) (\<lambda>_.
     bnd (load_curve digest digest_after loaded symbol now schedule depth regime allow_synthetic) (\<lambda>c.
       from_curve rt c now i)))))"

section \<open>What an admitted curve is\<close>

definition curve_ok :: "impact_curve \<Rightarrow> bool" where
  "curve_ok c \<longleftrightarrow>
     ic_symbol c \<noteq> [] \<and> 0 \<le> ic_admitted_at c \<and> 0 \<le> ic_evidence_end c \<and> is_digest (ic_artifact c)
     \<and> is_fin (ic_sell c) \<and> fle (Fin 0) (ic_sell c) \<and> is_fin (ic_buy c) \<and> fle (Fin 0) (ic_buy c)
     \<and> is_fin (ic_size_min c) \<and> is_fin (ic_size_max c)
     \<and> flt (Fin 0) (ic_size_min c) \<and> fle (ic_size_min c) (ic_size_max c)"

lemma fin_nonneg: "is_fin x \<Longrightarrow> \<not> flt x (Fin 0) \<Longrightarrow> fle (Fin 0) x"
  by (cases x) auto

lemma mk_cost_estimate_Inr:
  "mk_cost_estimate c = Inr c' \<longleftrightarrow> c' = c
     \<and> is_fin (ce_notional c) \<and> \<not> flt (ce_notional c) (Fin 0) \<and> ce_symbol c \<noteq> [] \<and> \<not> feq (ce_notional c) (Fin 0)
     \<and> 1 \<le> ce_horizon c \<and> 0 \<le> ce_quoted_at c \<and> ce_quoted_at c + 1 \<le> ce_valid_until c \<and> 0 \<le> ce_evidence_end c
     \<and> is_digest (ce_artifact c)
     \<and> is_fin (ce_entry c) \<and> \<not> flt (ce_entry c) (Fin 0) \<and> is_fin (ce_close_now c) \<and> \<not> flt (ce_close_now c) (Fin 0)
     \<and> is_fin (ce_terminal_close c) \<and> \<not> flt (ce_terminal_close c) (Fin 0)
     \<and> is_fin (ce_financing c) \<and> \<not> flt (ce_financing c) (Fin 0)"
  unfolding mk_cost_estimate_def by (auto simp: bnd_eq_Inr guard_eq_Inr number_Inr integer_Inr)

lemma mk_impact_curve_Inr: "mk_impact_curve c = Inr c' \<Longrightarrow> c' = c \<and> curve_ok c"
  unfolding mk_impact_curve_def curve_ok_def
  by (auto simp: bnd_eq_Inr guard_eq_Inr number_Inr mk_cost_estimate_Inr intro: fin_nonneg)

lemma side_fit_Inr:
  assumes "side_fit v a schedule depth regime side = Inr f" "validate v = Inr a"
  shows "f \<in> set (ar_fits a)" "fit_identity f = (side, schedule, depth, regime, ''square_root'')"
    "fv_usable f" "\<not> flt (fv_coefficient f) (Fin 0)"
  using assms find_fit_Inr [of "(side, schedule, depth, regime, ''square_root'')" "ar_fits a" f]
  by (auto simp: side_fit_def law_def res_simps)

lemma from_curve_Inr:
  assumes "from_curve rt c now i = Inr e"
  shows "0 \<le> now" "ic_admitted_at c \<le> now" "ic_evidence_end c \<le> now" "fle (ic_size_min c) (ci_adv_fraction i)"
    "fle (ci_adv_fraction i) (ic_size_max c)" "ce_symbol e = ic_symbol c" "ce_quoted_at e = now"
    "ce_evidence_end e = ic_evidence_end c" "ce_artifact e = ic_artifact c" "ce_kind e = ic_kind c"
    "ce_horizon e = ci_horizon i" "ce_notional e = ci_notional i" "ce_valid_until e = ci_valid_until i"
    "ce_entry e = side_cost rt (ic_sell c) (ci_adv_fraction i) (ci_entry_half_spread i) (ci_entry_fee i) (ci_hedge_entry i)"
    "ce_close_now e = side_cost rt (ic_buy c) (ci_adv_fraction i) (ci_close_half_spread i) (ci_close_fee i) (ci_hedge_close i)"
    "ce_terminal_close e = ce_close_now e" "ce_financing e = ci_financing i" "check_rates i = Inr ()"
    "mk_cost_estimate e = Inr e"
  using assms unfolding from_curve_def Let_def
  by (auto simp: bnd_eq_Inr guard_eq_Inr number_Inr integer_Inr mk_cost_estimate_Inr)


lemma load_curve_parts:
  assumes "load_curve digest digest_after loaded symbol now schedule depth regime allow = Inr c"
  obtains v a day sell buy where "loaded = Inr v" "validate v = Inr a" "digest_after = digest"
    "iso_date (ar_end a) = Some day" "ar_symbol a = symbol" "utc_ms day \<le> now" "depth = inside_depth"
    "kind_of (pv_kind (ar_provenance a)) = Synthetic \<longrightarrow> allow"
    "side_fit v a schedule depth regime ''sell'' = Inr sell" "side_fit v a schedule depth regime ''buy'' = Inr buy"
    "mk_impact_curve c = Inr c"
    "c = \<lparr>ic_symbol = symbol, ic_admitted_at = now, ic_evidence_end = utc_ms day,
         ic_artifact = digest, ic_kind = kind_of (pv_kind (ar_provenance a)), ic_sell = fv_coefficient sell,
         ic_buy = fv_coefficient buy, ic_size_min = fmax (fv_size_min sell) (fv_size_min buy),
         ic_size_max = fmin (fv_size_max sell) (fv_size_max buy)\<rparr>"
proof -
  from assms obtain v a day sell buy where
    h: "loaded = Inr v" "validate v = Inr a" "\<not> digest_after \<noteq> digest" "iso_date (ar_end a) = Some day"
    "\<not> (ar_symbol a \<noteq> symbol \<or> now < utc_ms day)" "\<not> depth \<noteq> inside_depth"
    "\<not> (kind_of (pv_kind (ar_provenance a)) = Synthetic \<and> \<not> allow)"
    "side_fit v a schedule depth regime ''sell'' = Inr sell" "side_fit v a schedule depth regime ''buy'' = Inr buy"
    and m: "mk_impact_curve \<lparr>ic_symbol = symbol, ic_admitted_at = now, ic_evidence_end = utc_ms day,
         ic_artifact = digest, ic_kind = kind_of (pv_kind (ar_provenance a)), ic_sell = fv_coefficient sell,
         ic_buy = fv_coefficient buy, ic_size_min = fmax (fv_size_min sell) (fv_size_min buy),
         ic_size_max = fmin (fv_size_max sell) (fv_size_max buy)\<rparr> = Inr c"
    unfolding load_curve_def Let_def
    by (auto simp: bnd_eq_Inr guard_eq_Inr split: option.splits)
  note c = conjunct1 [OF mk_impact_curve_Inr [OF m]]
  show thesis using h m by (intro that [of v a day sell buy]) (simp_all add: c)
qed

lemma fmax_bounds: "x \<noteq> NaN \<Longrightarrow> y \<noteq> NaN \<Longrightarrow> fle x (fmax x y) \<and> fle y (fmax x y)"
  by (cases x; cases y) (auto simp: fmax_def)

lemma fmin_bounds: "x \<noteq> NaN \<Longrightarrow> y \<noteq> NaN \<Longrightarrow> fle (fmin x y) x \<and> fle (fmin x y) y"
  by (cases x; cases y) (auto simp: fmin_def)

lemma validated_fields:
  assumes "validate v = Inr a"
  shows "dict_get ''symbol'' v = Inr (JStr (ar_symbol a))" "dict_get ''test_end_exclusive'' v = Inr (JStr (ar_end a))"
    "bnd (dict_get ''provenance'' v) (dict_get ''kind'') = Inr (JStr (pv_kind (ar_provenance a)))"
proof -
  have raw: "validate_raw v = Inr a" using assms by (simp add: validate_def split: sum.splits)
  obtain d where d: "v = JDict d" using raw by (cases v) (simp_all add: validate_raw_def fields_of_def)
  show "dict_get ''symbol'' v = Inr (JStr (ar_symbol a))" "dict_get ''test_end_exclusive'' v = Inr (JStr (ar_end a))"
    using raw unfolding validate_raw_def Let_def d
    by (auto simp: fields_of_def bnd_eq_Inr guard_eq_Inr text_of_Inr date_of_Inr dict_get_def as_dict_def split: if_splits)
  obtain pv where pv: "dict_get ''provenance'' v = Inr pv" "validate_provenance pv (ar_symbol a) (ar_train_start a) (ar_end a) = Inr (ar_provenance a)"
    using raw unfolding validate_raw_def Let_def d
    by (auto simp: fields_of_def bnd_eq_Inr guard_eq_Inr dict_get_def as_dict_def split: if_splits)
  obtain e k where k: "fields_of pv provenance_fields ''provenance'' = Inr e" "jget e ''kind'' = Inr k"
    "check_kind k = Inr (pv_kind (ar_provenance a))"
    using pv(2) unfolding validate_provenance_def Let_def
    by (auto simp: bnd_eq_Inr guard_eq_Inr dest!: sym [where t = "ar_provenance a"])
  have "k = JStr (pv_kind (ar_provenance a))" using k(3) by (cases k) (auto simp: check_kind_def split: if_splits)
  moreover have "pv = JDict e" using k(1) by (cases pv) (auto simp: fields_of_def split: if_splits)
  ultimately have "dict_get ''kind'' pv = Inr (JStr (pv_kind (ar_provenance a)))"
    using k(2) by (simp add: dict_get_def as_dict_def)
  then show "bnd (dict_get ''provenance'' v) (dict_get ''kind'') = Inr (JStr (pv_kind (ar_provenance a)))" by (simp add: pv(1))
qed

section \<open>Properties\<close>

text \<open>C18: a curve is admitted only on past, matching, usable evidence: the file did not change while it was
  read, the symbol its document names is the requested one, the evidence end of the curve is the midnight of the
  document's exclusive test end and lies at or before now, its kind is the document's and a synthetic artifact
  needs explicit permission, both fits are usable with finite nonnegative coefficients, and the size range is positive and inside the
  training range of both the sell and the buy fit, so no estimate extrapolates.\<close>

theorem curve_is_admitted_evidence:
  assumes "load_curve digest digest_after loaded symbol now schedule depth regime allow = Inr c"
  shows "digest_after = digest \<and> ic_symbol c = symbol \<and> ic_artifact c = digest \<and> ic_admitted_at c = now
    \<and> ic_evidence_end c \<le> now \<and> (ic_kind c = Synthetic \<longrightarrow> allow) \<and> depth = inside_depth
    \<and> is_fin (ic_sell c) \<and> fle (Fin 0) (ic_sell c) \<and> is_fin (ic_buy c) \<and> fle (Fin 0) (ic_buy c)
    \<and> flt (Fin 0) (ic_size_min c) \<and> fle (ic_size_min c) (ic_size_max c)
    \<and> (\<exists>v a day sell buy. loaded = Inr v \<and> validate v = Inr a \<and> ar_symbol a = symbol
         \<and> dict_get ''symbol'' v = Inr (JStr symbol) \<and> dict_get ''test_end_exclusive'' v = Inr (JStr (ar_end a))
         \<and> iso_date (ar_end a) = Some day \<and> ic_evidence_end c = utc_ms day
         \<and> (\<exists>kind. bnd (dict_get ''provenance'' v) (dict_get ''kind'') = Inr (JStr kind) \<and> ic_kind c = kind_of kind)
         \<and> sell \<in> set (ar_fits a) \<and> buy \<in> set (ar_fits a) \<and> fv_usable sell \<and> fv_usable buy
         \<and> fit_identity sell = (''sell'', schedule, depth, regime, ''square_root'')
         \<and> fit_identity buy = (''buy'', schedule, depth, regime, ''square_root'')
         \<and> ic_sell c = fv_coefficient sell \<and> ic_buy c = fv_coefficient buy
         \<and> fle (fv_size_min sell) (ic_size_min c) \<and> fle (fv_size_min buy) (ic_size_min c)
         \<and> fle (ic_size_max c) (fv_size_max sell) \<and> fle (ic_size_max c) (fv_size_max buy))"
proof (rule load_curve_parts [OF assms])
  fix v a day sell buy
  assume h: "loaded = Inr v" "validate v = Inr a" "digest_after = digest" "iso_date (ar_end a) = Some day"
    "ar_symbol a = symbol" "utc_ms day \<le> now" "depth = inside_depth"
    "kind_of (pv_kind (ar_provenance a)) = Synthetic \<longrightarrow> allow"
    "side_fit v a schedule depth regime ''sell'' = Inr sell" "side_fit v a schedule depth regime ''buy'' = Inr buy"
    "mk_impact_curve c = Inr c"
    and c: "c = \<lparr>ic_symbol = symbol, ic_admitted_at = now, ic_evidence_end = utc_ms day,
         ic_artifact = digest, ic_kind = kind_of (pv_kind (ar_provenance a)), ic_sell = fv_coefficient sell,
         ic_buy = fv_coefficient buy, ic_size_min = fmax (fv_size_min sell) (fv_size_min buy),
         ic_size_max = fmin (fv_size_max sell) (fv_size_max buy)\<rparr>"
  note s = side_fit_Inr [OF h(9) h(2)] and b = side_fit_Inr [OF h(10) h(2)]
  have fin: "is_fin (fv_size_min f) \<and> is_fin (fv_size_max f)" if "f \<in> set (ar_fits a)" for f
    using validate_ok [OF h(2)] that unfolding artifact_ok_def fit_ok_def by blast
  have nn: "x \<noteq> NaN" if "is_fin x" for x using that by auto
  have cs: "ic_sell c = fv_coefficient sell" "ic_buy c = fv_coefficient buy" "ic_symbol c = symbol" "ic_artifact c = digest"
    "ic_admitted_at c = now" "ic_evidence_end c = utc_ms day" "ic_kind c = kind_of (pv_kind (ar_provenance a))"
    "ic_size_min c = fmax (fv_size_min sell) (fv_size_min buy)" "ic_size_max c = fmin (fv_size_max sell) (fv_size_max buy)"
    by (simp_all only: c impact_curve.simps)
  have mm: "fle (fv_size_min sell) (ic_size_min c) \<and> fle (fv_size_min buy) (ic_size_min c)"
    "fle (ic_size_max c) (fv_size_max sell) \<and> fle (ic_size_max c) (fv_size_max buy)"
    unfolding cs(8,9) using fin [OF s(1)] fin [OF b(1)] by (intro fmax_bounds fmin_bounds nn; simp)+
  have ok: "curve_ok c" using mk_impact_curve_Inr [OF h(11)] by blast
  have "\<exists>v a day sell buy. loaded = Inr v \<and> validate v = Inr a \<and> ar_symbol a = symbol
         \<and> dict_get ''symbol'' v = Inr (JStr symbol) \<and> dict_get ''test_end_exclusive'' v = Inr (JStr (ar_end a))
         \<and> iso_date (ar_end a) = Some day \<and> ic_evidence_end c = utc_ms day
         \<and> (\<exists>kind. bnd (dict_get ''provenance'' v) (dict_get ''kind'') = Inr (JStr kind) \<and> ic_kind c = kind_of kind)
         \<and> sell \<in> set (ar_fits a) \<and> buy \<in> set (ar_fits a) \<and> fv_usable sell \<and> fv_usable buy
         \<and> fit_identity sell = (''sell'', schedule, depth, regime, ''square_root'')
         \<and> fit_identity buy = (''buy'', schedule, depth, regime, ''square_root'')
         \<and> ic_sell c = fv_coefficient sell \<and> ic_buy c = fv_coefficient buy
         \<and> fle (fv_size_min sell) (ic_size_min c) \<and> fle (fv_size_min buy) (ic_size_min c)
         \<and> fle (ic_size_max c) (fv_size_max sell) \<and> fle (ic_size_max c) (fv_size_max buy)"
    using h(1,2,4,5) validated_fields [OF h(2)] s(1-3) b(1-3) mm cs by blast
  then show ?thesis
    using h(3,6,7,8) ok cs unfolding curve_ok_def by metis
qed

text \<open>a cost estimate is quoted now from evidence and admission in the past, within the curve's size
  range, is bound to the curve's symbol, artifact and provenance, and charges the close at the same price now and at the
  horizon; and it never falls below what its components say: lowering the half-spread, the fee or the
  hedge cost of a side never raises the estimated cost of that side.\<close>

theorem estimate_is_bound_to_its_curve:
  assumes "from_curve rt c now i = Inr e"
  shows "ic_admitted_at c \<le> now \<and> ce_evidence_end e \<le> now \<and> ce_quoted_at e = now \<and> now < ce_valid_until e
    \<and> fle (ic_size_min c) (ci_adv_fraction i) \<and> fle (ci_adv_fraction i) (ic_size_max c)
    \<and> ce_symbol e = ic_symbol c \<and> ce_artifact e = ic_artifact c \<and> ce_kind e = ic_kind c
    \<and> ce_terminal_close e = ce_close_now e
    \<and> is_fin (ce_entry e) \<and> is_fin (ce_close_now e) \<and> fle (Fin 0) (ce_entry e) \<and> fle (Fin 0) (ce_close_now e)
    \<and> (\<forall>i' e'. from_curve rt c now i' = Inr e' \<and> ci_adv_fraction i' = ci_adv_fraction i
         \<and> fnn (fmul (ic_sell c) (rt (ci_adv_fraction i)))
         \<and> fle (ci_entry_half_spread i') (ci_entry_half_spread i) \<and> fle (ci_entry_fee i') (ci_entry_fee i)
         \<and> fle (ci_hedge_entry i') (ci_hedge_entry i)
         \<longrightarrow> fle (ce_entry e') (ce_entry e))"
proof -
  note e = from_curve_Inr [OF assms]
  have nn: "fnn x" if "is_fin x" "\<not> flt x (Fin 0)" for x using that by (cases x) auto
  have mono: "fle (ce_entry e') (ce_entry e)"
    if "from_curve rt c now i' = Inr e'" "ci_adv_fraction i' = ci_adv_fraction i"
      "fnn (fmul (ic_sell c) (rt (ci_adv_fraction i)))"
      "fle (ci_entry_half_spread i') (ci_entry_half_spread i)" "fle (ci_entry_fee i') (ci_entry_fee i)"
      "fle (ci_hedge_entry i') (ci_hedge_entry i)" for i' e'
  proof -
    have "fnn (ci_entry_half_spread i')" "fnn (ci_entry_fee i')" "fnn (ci_hedge_entry i')"
      using from_curve_Inr(18) [OF that(1)] by (auto simp: check_rates_def bnd_eq_Inr number_Inr intro: nn)
    moreover have "fle x x" if "fnn x" for x using that by (intro fle_refl fnn_not_NaN)
    ultimately show ?thesis
      unfolding e(14) from_curve_Inr(14) [OF that(1)] that(2) side_cost_def
      using that(3-6) by (intro bps_mono fadd_mono fnn_fadd)
  qed
  have v: "now < ce_valid_until e" "is_fin (ce_entry e)" "\<not> flt (ce_entry e) (Fin 0)"
    "is_fin (ce_close_now e)" "\<not> flt (ce_close_now e) (Fin 0)"
    using e(19) unfolding mk_cost_estimate_Inr using e(7) by auto
  show ?thesis
    using e(2-7,9-11,16) e(8) v fin_nonneg mono by (simp only: HOL.simp_thms) blast
qed


section \<open>A concrete curve\<close>

definition example_curve :: impact_curve where
  "example_curve = \<lparr>ic_symbol = ''BTC'', ic_admitted_at = 1704240000000, ic_evidence_end = 1704240000000,
     ic_artifact = example_digest, ic_kind = Synthetic, ic_sell = Fin 8, ic_buy = Fin 4,
     ic_size_min = Fin (1 / 1024), ic_size_max = Fin (1 / 2)\<rparr>"

lemma example_end: "iso_date ''2024-01-03'' = Some 738888"
  by (simp add: iso_date_def is_digits_def is_digit_def digits_val_def digit_val_def days_in_month_def Let_def
      ymd2ord_def days_before_year_def days_before_month_def)

lemma example_digest_ok: "is_digest example_digest"
  by (simp add: is_digest_def example_digest_def list_all_iff)

lemma example_side_fits:
  "side_fit example_artifact example_validated ''static'' inside_depth ''all_sizes'' ''sell'' = Inr (example_view ''sell'' 8)"
  "side_fit example_artifact example_validated ''static'' inside_depth ''all_sizes'' ''buy'' = Inr (example_view ''buy'' 4)"
  by (simp_all add: side_fit_def law_def example_artifact_valid) (simp_all add: example_validated_def example_view_def fit_identity_def)

lemma example_load_curve:
  "load_curve example_digest example_digest (Inr example_artifact) ''BTC'' 1704240000000 ''static'' inside_depth
     ''all_sizes'' True = Inr example_curve"
proof -
  have "load_curve example_digest example_digest (Inr example_artifact) ''BTC'' 1704240000000 ''static'' inside_depth
     ''all_sizes'' True = mk_impact_curve example_curve"
    unfolding load_curve_def
    by (simp add: integer_def example_artifact_valid example_side_fits example_validated_def [THEN arg_cong [where f = ar_end]]
        example_validated_def [THEN arg_cong [where f = ar_symbol]]
        example_validated_def [THEN arg_cong [where f = ar_provenance]] example_provenance_def example_end
        utc_ms_def epoch_ord_def day_ms_def kind_of_def example_view_def fmax_def fmin_def example_curve_def cong: eval_cong)
  also have "\<dots> = Inr example_curve"
    by (simp add: mk_impact_curve_def mk_cost_estimate_def number_def integer_def example_curve_def example_digest_ok cong: eval_cong)
  finally show ?thesis .
qed

lemma curve_is_admitted_evidence_witness:
  "ic_evidence_end example_curve \<le> 1704240000000 \<and> fle (Fin 0) (ic_sell example_curve)
   \<and> dict_get ''symbol'' example_artifact = Inr (JStr ''BTC'')"
  using curve_is_admitted_evidence [OF example_load_curve] by blast

definition example_cost_inputs :: "rat \<Rightarrow> cost_inputs" where
  "example_cost_inputs fee = \<lparr>ci_notional = Fin 1000, ci_adv_fraction = Fin (1 / 4), ci_horizon = 3,
     ci_valid_until = 1704240060000, ci_entry_half_spread = Fin 1, ci_close_half_spread = Fin 1,
     ci_entry_fee = Fin fee, ci_close_fee = Fin fee, ci_hedge_entry = Fin 0, ci_hedge_close = Fin 0,
     ci_financing = Fin 0\<rparr>"

text \<open>A stand-in for \<open>x ** 0.5\<close>, exact at the size of the example.\<close>

definition example_root :: "pynum \<Rightarrow> pynum" where
  "example_root x = (if x = Fin (1 / 4) then Fin (1 / 2) else np_sqrt x)"

definition example_estimate :: "rat \<Rightarrow> cost_estimate" where
  "example_estimate fee = \<lparr>ce_symbol = ''BTC'', ce_notional = Fin 1000, ce_horizon = 3,
     ce_quoted_at = 1704240000000, ce_valid_until = 1704240060000, ce_evidence_end = 1704240000000,
     ce_artifact = example_digest, ce_kind = Synthetic, ce_entry = fl ((5 + fee) / 10000),
     ce_close_now = fl ((3 + fee) / 10000), ce_terminal_close = fl ((3 + fee) / 10000), ce_financing = Fin 0\<rparr>"

lemma fl_bps_fin: "0 \<le> x \<Longrightarrow> x \<le> 1 \<Longrightarrow> is_fin (fl x) \<and> \<not> flt (fl x) (Fin 0)"
proof -
  assume x: "0 \<le> x" "x \<le> 1"
  have "fle (fl 0) (fl x)" "fle (fl x) (fl 1)" by (rule fl_mono [OF x(1)], rule fl_mono [OF x(2)])
  then show ?thesis by (cases "fl x") (auto simp: short_float)
qed

lemma example_from_curve:
  assumes "fee = 4 \<or> fee = 8"
  shows "from_curve example_root example_curve 1704240000000 (example_cost_inputs fee) = Inr (example_estimate fee)"
proof -
  have "from_curve example_root example_curve 1704240000000 (example_cost_inputs fee) = mk_cost_estimate (example_estimate fee)"
    using assms unfolding from_curve_def Let_def
    by (auto simp add: integer_def number_def example_curve_def example_cost_inputs_def check_rates_def side_cost_def
        example_root_def bps_def short_float example_estimate_def cong: eval_cong)
  also have "\<dots> = Inr (example_estimate fee)"
    using assms fl_bps_fin [of "(5 + fee) / 10000"] fl_bps_fin [of "(3 + fee) / 10000"]
    unfolding mk_cost_estimate_Inr by (auto simp: example_estimate_def example_digest_ok)
  finally show ?thesis .
qed

lemma estimate_is_bound_to_its_curve_witness:
  "fle (ce_entry (example_estimate 4)) (ce_entry (example_estimate 8))
   \<and> ce_artifact (example_estimate 8) = ic_artifact example_curve"
proof -
  have e: "from_curve example_root example_curve 1704240000000 (example_cost_inputs 8) = Inr (example_estimate 8)"
    "from_curve example_root example_curve 1704240000000 (example_cost_inputs 4) = Inr (example_estimate 4)"
    by (rule example_from_curve; simp)+
  have m: "fnn (fmul (ic_sell example_curve) (example_root (ci_adv_fraction (example_cost_inputs 8))))"
    by (simp add: example_curve_def example_root_def example_cost_inputs_def short_float)
  show ?thesis
    using estimate_is_bound_to_its_curve [OF e(1)] e(2) m by (force simp: example_cost_inputs_def)
qed

end
