(* ===== verification/Sizing.thy ===== *)
theory Sizing
  imports Costs
begin

text \<open>
  \<open>strategy/sizing.py\<close>: the discrete profit-optimal size of a flat candidate. Bounds are decimals in a
  context of 60 digits (\<^const>\<open>d60\<close>), costs and profits are binary64. The parameters are those of the
  decision and of the cost model (\<open>np_mean\<close>, \<open>rt\<close> for \<open>x ** 0.5\<close>) and \<open>sq\<close> for \<open>x ** 2\<close> on floats.
\<close>

section \<open>Inputs\<close>

record charges =
  ch_entry_half_spread :: pynum
  ch_close_half_spread :: pynum
  ch_entry_fee :: pynum
  ch_close_fee :: pynum
  ch_hedge_entry :: pynum
  ch_hedge_close :: pynum
  ch_financing :: pynum

definition fixed_fraction :: "charges \<Rightarrow> pynum" where
  "fixed_fraction c =
     fadd (py_sum (map bps [ch_entry_half_spread c, ch_close_half_spread c, ch_entry_fee c, ch_close_fee c,
                            ch_hedge_entry c, ch_hedge_close c]))
       (ch_financing c)"

definition mk_charges :: "charges \<Rightarrow> charges res" where
  "mk_charges c =
     bnd (number (ch_entry_half_spread c) ''entry_half_spread_bps'' (Fin 0)) (\<lambda>_.
     bnd (number (ch_close_half_spread c) ''close_half_spread_bps'' (Fin 0)) (\<lambda>_.
     bnd (number (ch_entry_fee c) ''entry_fee_bps'' (Fin 0)) (\<lambda>_.
     bnd (number (ch_close_fee c) ''close_fee_bps'' (Fin 0)) (\<lambda>_.
     bnd (number (ch_hedge_entry c) ''hedge_entry_bps'' (Fin 0)) (\<lambda>_.
     bnd (number (ch_hedge_close c) ''hedge_close_bps'' (Fin 0)) (\<lambda>_.
     bnd (number (ch_financing c) ''financing_fraction'' (Fin 0)) (\<lambda>_.
     bnd (number (fixed_fraction c) ''summed charges'' (Fin 0)) (\<lambda>_. Inr c))))))))"

record sizing_inputs =
  si_symbol :: string
  si_observed_at :: int
  si_valid_until :: int
  si_price :: pynum
  si_adv_base :: pynum
  si_adv_start :: int
  si_adv_end :: int
  si_adv_sha :: string
  si_step :: pynum
  si_min_quantity :: pynum
  si_min_notional :: pynum
  si_max_notional :: pynum
  si_max_adv :: pynum
  si_validated :: pynum
  si_meta_from :: int
  si_meta_until :: int
  si_meta_sha :: string

definition positive_number :: "pynum \<Rightarrow> string \<Rightarrow> pynum res" where
  "positive_number v name =
     bnd (number v name (Fin 0)) (\<lambda>_.
     bnd (guard (feq v (Fin 0)) (ValueError (name @ '' must be positive''))) (\<lambda>_. Inr v))"

definition nonneg_decimal :: "pynum \<Rightarrow> string \<Rightarrow> pynum res" where
  "nonneg_decimal v name =
     (if \<not> is_fin v \<or> flt v (Fin 0) then Inl (ValueError (name @ '' must be a finite nonnegative Decimal'')) else Inr v)"

definition mk_sizing_inputs :: "sizing_inputs \<Rightarrow> sizing_inputs res" where
  "mk_sizing_inputs i =
     bnd (guard (si_symbol i = []) (ValueError ''symbol required'')) (\<lambda>_.
     bnd (integer (si_observed_at i) ''observed_at_ms'' 0) (\<lambda>_.
     bnd (integer (si_adv_start i) ''adv_start_ms'' 0) (\<lambda>_.
     bnd (integer (si_adv_end i) ''adv_end_exclusive_ms'' 0) (\<lambda>_.
     bnd (integer (si_meta_from i) ''metadata_valid_from_ms'' 0) (\<lambda>_.
     bnd (integer (si_meta_until i) ''metadata_valid_until_ms'' 0) (\<lambda>_.
     bnd (integer (si_valid_until i) ''valid_until_ms'' (si_observed_at i + 1)) (\<lambda>_.
     bnd (guard (si_meta_until i \<le> si_meta_from i) (ValueError ''nonempty metadata validity interval required'')) (\<lambda>_.
     bnd (guard (si_adv_end i mod day_ms \<noteq> 0 \<or> si_adv_start i mod day_ms \<noteq> 0
                 \<or> si_adv_end i - si_adv_start i \<noteq> 30 * day_ms)
            (ValueError ''complete 30-day UTC ADV window required'')) (\<lambda>_.
     bnd (positive_number (si_price i) ''price_usdt'') (\<lambda>_.
     bnd (positive_number (si_adv_base i) ''adv_base'') (\<lambda>_.
     bnd (positive_number (si_max_notional i) ''max_notional_usdt'') (\<lambda>_.
     bnd (positive_number (si_max_adv i) ''max_adv_fraction'') (\<lambda>_.
     bnd (positive_number (si_validated i) ''validated_quantity_base'') (\<lambda>_.
     bnd (number (si_min_notional i) ''min_notional_usdt'' (Fin 0)) (\<lambda>_.
     bnd (nonneg_decimal (si_step i) ''quantity_step'') (\<lambda>_.
     bnd (nonneg_decimal (si_min_quantity i) ''min_quantity'') (\<lambda>_.
     bnd (guard (feq (si_step i) (Fin 0)) (ValueError ''positive quantity step required'')) (\<lambda>_.
     bnd (guard (\<not> is_digest (si_adv_sha i)) (ValueError ''adv_sha256 must identify admitted evidence'')) (\<lambda>_.
     bnd (guard (\<not> is_digest (si_meta_sha i)) (ValueError ''metadata_sha256 must identify admitted evidence'')) (\<lambda>_.
       Inr i))))))))))))))))))))"

section \<open>Limits and quotes\<close>

text \<open>\<open>Decimal(str(x))\<close> of a finite float, and a finite decimal field.\<close>

fun dec_str :: "pynum \<Rightarrow> rat" where
  "dec_str (Fin r) = repr_dec r"
| "dec_str _ = 0"

fun dec_of :: "pynum \<Rightarrow> rat" where
  "dec_of (Fin r) = r"
| "dec_of _ = 0"

definition sizing_limits :: "sizing_inputs \<Rightarrow> impact_curve \<Rightarrow> (string \<times> rat) list" where
  "sizing_limits market curve =
     (let adv = dec_str (si_adv_base market); price = dec_str (si_price market) in
      [(''model_support'', d60 (dec_str (ic_size_max curve) * adv)),
       (''validated_depth'', dec_str (si_validated market)),
       (''max_adv'', d60 (dec_str (si_max_adv market) * adv)),
       (''max_notional'', d60 (dec_str (si_max_notional market) / price))])"

definition upper_limit :: "sizing_inputs \<Rightarrow> impact_curve \<Rightarrow> rat" where
  "upper_limit market curve =
     (let l = sizing_limits market curve in foldl min (snd (hd l)) (map snd (tl l)))"

definition lower_limit :: "sizing_inputs \<Rightarrow> impact_curve \<Rightarrow> rat" where
  "lower_limit market curve =
     max (max (d60 (dec_str (ic_size_min curve) * dec_str (si_adv_base market))) (dec_of (si_min_quantity market)))
       (d60 (dec_str (si_min_notional market) / dec_str (si_price market)))"

definition first_lot :: "sizing_inputs \<Rightarrow> impact_curve \<Rightarrow> int" where
  "first_lot market curve = max 1 \<lceil>d60 (lower_limit market curve / dec_of (si_step market))\<rceil>"

definition last_lot :: "sizing_inputs \<Rightarrow> impact_curve \<Rightarrow> int" where
  "last_lot market curve = \<lfloor>d60 (upper_limit market curve / dec_of (si_step market))\<rfloor>"

definition lot_quantity :: "sizing_inputs \<Rightarrow> int \<Rightarrow> rat" where
  "lot_quantity market lots = d60 (dec_of (si_step market) * of_int lots)"

definition lot_fraction :: "sizing_inputs \<Rightarrow> int \<Rightarrow> pynum" where
  "lot_fraction market lots = float_of_dec (d60 (lot_quantity market lots / dec_str (si_adv_base market)))"

definition lot_notional :: "sizing_inputs \<Rightarrow> int \<Rightarrow> pynum" where
  "lot_notional market lots = float_of_dec (d60 (lot_quantity market lots * dec_str (si_price market)))"

record strategy =
  sy_symbol :: string
  sy_policy :: policy

record sizing_context =
  sc_strategy :: strategy
  sc_now :: int
  sc_forecast :: "funding_forecast option"
  sc_approval :: "approval option"
  sc_market :: sizing_inputs
  sc_curve :: impact_curve
  sc_charges :: charges

record numerics =
  nm_mean :: "pynum list \<Rightarrow> pynum"
  nm_root :: "pynum \<Rightarrow> pynum" \<comment> \<open>\<open>x ** 0.5\<close>\<close>
  nm_square :: "pynum \<Rightarrow> pynum res" \<comment> \<open>\<open>x ** 2\<close>, which raises on overflow\<close>

definition lot_inputs :: "sizing_context \<Rightarrow> int \<Rightarrow> cost_inputs" where
  "lot_inputs x lots =
     (let c = sc_charges x in
      \<lparr>ci_notional = lot_notional (sc_market x) lots, ci_adv_fraction = lot_fraction (sc_market x) lots,
       ci_horizon = pl_horizon (sy_policy (sc_strategy x)), ci_valid_until = si_valid_until (sc_market x),
       ci_entry_half_spread = ch_entry_half_spread c, ci_close_half_spread = ch_close_half_spread c,
       ci_entry_fee = ch_entry_fee c, ci_close_fee = ch_close_fee c, ci_hedge_entry = ch_hedge_entry c,
       ci_hedge_close = ch_hedge_close c, ci_financing = ch_financing c\<rparr>)"

definition lot_quote :: "numerics \<Rightarrow> sizing_context \<Rightarrow> int \<Rightarrow> (cost_estimate \<times> decision) res" where
  "lot_quote nm x lots =
     bnd (from_curve (nm_root nm) (sc_curve x) (sc_now x) (lot_inputs x lots)) (\<lambda>estimate.
     bnd (decide (nm_mean nm) (sy_symbol (sc_strategy x)) (sy_policy (sc_strategy x)) (sc_now x)
            (sc_forecast x) (Some estimate) (sc_approval x) None) (\<lambda>decision.
       Inr (estimate, decision)))"

text \<open>The bisection: \<open>low\<close> always enters; \<open>high\<close> bounds what may.\<close>

function bisect_gate :: "(int \<Rightarrow> bool res) \<Rightarrow> int \<Rightarrow> int \<Rightarrow> int res" where
  "bisect_gate gate low high =
     (if low < high
      then let middle = (low + high + 1) div 2
           in bnd (gate middle) (\<lambda>enters. if enters then bisect_gate gate middle high else bisect_gate gate low (middle - 1))
      else Inr low)"
  by pat_completeness auto
termination
  by (relation "measure (\<lambda>(g, l, h). nat (h - l))") auto

declare bisect_gate.simps [simp del]

definition lot_gate :: "numerics \<Rightarrow> sizing_context \<Rightarrow> int \<Rightarrow> bool res" where
  "lot_gate nm x lots = bnd (lot_quote nm x lots) (\<lambda>(_, d). Inr (de_action d = ''enter''))"

section \<open>The chosen size\<close>

record sizing_result =
  sr_quantity :: rat
  sr_notional :: pynum
  sr_fraction :: pynum
  sr_profit :: pynum
  sr_marginal :: "pynum option"
  sr_decision :: decision
  sr_estimate :: "cost_estimate option"
  sr_max_fraction :: "pynum option"
  sr_break_even :: "pynum option"
  sr_break_even_status :: string
  sr_limits :: "string list"
  sr_max_notional :: "pynum option"
  sr_break_even_notional :: "pynum option"

definition no_size :: "decision \<Rightarrow> sizing_result" where
  "no_size d = \<lparr>sr_quantity = 0, sr_notional = Fin 0, sr_fraction = Fin 0, sr_profit = Fin 0, sr_marginal = None,
     sr_decision = d, sr_estimate = None, sr_max_fraction = None, sr_break_even = None,
     sr_break_even_status = ''unavailable'', sr_limits = [], sr_max_notional = None, sr_break_even_notional = None\<rparr>"

definition inputs_refused :: "sizing_context \<Rightarrow> bool" where
  "inputs_refused x \<longleftrightarrow>
     (let market = sc_market x; curve = sc_curve x; now = sc_now x; symbol = sy_symbol (sc_strategy x) in
      si_symbol market \<noteq> symbol \<or> ic_symbol curve \<noteq> symbol \<or> now < si_observed_at market
      \<or> si_valid_until market \<le> now \<or> si_adv_end market \<noteq> now div day_ms * day_ms
      \<or> \<not> (si_meta_from market \<le> now \<and> now < si_meta_until market)
      \<or> now < ic_admitted_at curve \<or> now < ic_evidence_end curve)"

text \<open>\<open>int(Decimal(str(x)) * adv / step)\<close>, floored: an infinite or undefined \<open>x\<close> raises.\<close>

definition lots_of :: "pynum \<Rightarrow> rat \<Rightarrow> rat \<Rightarrow> int res" where
  "lots_of v adv step =
     (case v of
        Fin r \<Rightarrow> Inr \<lfloor>d60 (d60 (repr_dec r * adv) / step)\<rfloor>
      | NaN \<Rightarrow> Inl (ValueError ''cannot convert NaN to integer'')
      | _ \<Rightarrow> Inl (OverflowError ''cannot convert Infinity to integer''))"

definition three_halves :: "pynum \<Rightarrow> pynum" where
  "three_halves c = fmul (Fin (3 / 2)) c"

definition target_lots :: "numerics \<Rightarrow> sizing_context \<Rightarrow> pynum \<Rightarrow> pynum \<Rightarrow> pynum \<Rightarrow> int \<Rightarrow> int res" where
  "target_lots nm x edge coefficient max_fraction feasible =
     bnd (if feq coefficient (Fin 0) then Inr True
          else bnd (fsqrt max_fraction) (\<lambda>r. Inr (fle (fmul (three_halves coefficient) r) edge))) (\<lambda>whole.
     if whole then Inr feasible
     else bnd (fdiv edge (three_halves coefficient)) (\<lambda>ratio.
          bnd (nm_square nm ratio) (\<lambda>optimum.
            lots_of optimum (dec_str (si_adv_base (sc_market x))) (dec_of (si_step (sc_market x))))))"

definition candidate_lots :: "int \<Rightarrow> int \<Rightarrow> int \<Rightarrow> int list" where
  "candidate_lots first feasible target =
     (let a = max first (min feasible target); b = max first (min feasible (target + 1))
      in if a = b then [a] else [a, b])"

type_synonym priced_lot = "pynum \<times> int \<times> cost_estimate \<times> decision"

definition price_lot :: "numerics \<Rightarrow> sizing_context \<Rightarrow> int \<Rightarrow> priced_lot res" where
  "price_lot nm x lots =
     bnd (lot_quote nm x lots) (\<lambda>(estimate, decision).
     case de_edge decision of
       None \<Rightarrow> Inl (TypeError ''unsupported operand type(s) for *'')
     | Some edge \<Rightarrow> Inr (fmul (ce_notional estimate) edge, lots, estimate, decision))"

text \<open>The loop over the candidates: \<open>Inr None\<close> is the early return on a profit that is not finite.\<close>

fun best_lot :: "numerics \<Rightarrow> sizing_context \<Rightarrow> priced_lot option \<Rightarrow> int list \<Rightarrow> priced_lot option res" where
  "best_lot nm x best [] = Inr best"
| "best_lot nm x best (lots # rest) =
     bnd (price_lot nm x lots) (\<lambda>p.
       if \<not> is_fin (fst p) then Inr None
       else best_lot nm x (case best of None \<Rightarrow> Some p | Some b \<Rightarrow> if flt (fst b) (fst p) then Some p else Some b) rest)"

definition break_even :: "numerics \<Rightarrow> impact_curve \<Rightarrow> pynum \<Rightarrow> pynum \<Rightarrow> (pynum option \<times> string) res" where
  "break_even nm curve edge coefficient =
     (if feq coefficient (Fin 0) then Inr (None, ''no_finite_root'')
      else bnd (fsqrt (ic_size_min curve)) (\<lambda>r1.
        if flt edge (fmul coefficient r1) then Inr (None, ''below_support'')
        else bnd (fsqrt (ic_size_max curve)) (\<lambda>r2.
          if flt (fmul coefficient r2) edge then Inr (None, ''above_support'')
          else bnd (fdiv edge coefficient) (\<lambda>ratio.
               bnd (nm_square nm ratio) (\<lambda>v. Inr (Some v, ''within_support''))))))"

definition root_notional :: "sizing_inputs \<Rightarrow> pynum option \<Rightarrow> pynum option" where
  "root_notional market r =
     (case r of None \<Rightarrow> None
      | Some v \<Rightarrow>
          let n = (if is_fin v then float_of_dec (d60 (d60 (dec_str v * dec_str (si_adv_base market)) * dec_str (si_price market)))
                   else v)
          in if is_fin n then Some n else None)"

definition limit_labels :: "sizing_context \<Rightarrow> int \<Rightarrow> string list" where
  "limit_labels x feasible =
     (if feasible < last_lot (sc_market x) (sc_curve x) then [''entry_gate'']
      else map fst (filter (\<lambda>(_, bound). bound = upper_limit (sc_market x) (sc_curve x)) (sizing_limits (sc_market x) (sc_curve x))))"

definition finish_size :: "numerics \<Rightarrow> sizing_context \<Rightarrow> pynum \<Rightarrow> pynum \<Rightarrow> pynum \<Rightarrow> int \<Rightarrow> priced_lot \<Rightarrow> sizing_result res" where
  "finish_size nm x edge coefficient max_fraction feasible best =
     (let (profit, lots, estimate, decision) = best; market = sc_market x in
      if fle profit (Fin 0) then Inr (no_size (plain ''wait'' ''nonpositive_expected_profit''))
      else bnd (break_even nm (sc_curve x) edge coefficient) (\<lambda>(root_value, status).
           bnd (fsqrt (lot_fraction market lots)) (\<lambda>s.
             Inr \<lparr>sr_quantity = lot_quantity market lots, sr_notional = ce_notional estimate,
                   sr_fraction = lot_fraction market lots, sr_profit = profit,
                   sr_marginal = Some (fsub edge (fmul (three_halves coefficient) s)), sr_decision = decision,
                   sr_estimate = Some estimate, sr_max_fraction = Some max_fraction, sr_break_even = root_value,
                   sr_break_even_status = status, sr_limits = limit_labels x feasible,
                   sr_max_notional = Some (lot_notional market feasible),
                   sr_break_even_notional = root_notional market root_value\<rparr>)))"

definition choose_size :: "numerics \<Rightarrow> sizing_context \<Rightarrow> int \<Rightarrow> int \<Rightarrow> sizing_result res" where
  "choose_size nm x first feasible =
     (let max_fraction = lot_fraction (sc_market x) feasible in
      case sc_forecast x of
        None \<Rightarrow> Inl (AttributeError ''prediction'')
      | Some ff \<Rightarrow>
          let edge = fsub (nm_mean nm (cf_samples (ff_prediction ff))) (fixed_fraction (sc_charges x));
              coefficient = round_trip_coefficient (sc_curve x) in
          if \<not> is_fin coefficient then Inr (no_size (plain ''wait'' ''nonfinite_impact_coefficient''))
          else bnd (target_lots nm x edge coefficient max_fraction feasible) (\<lambda>target.
               bnd (best_lot nm x None (candidate_lots first feasible target)) (\<lambda>best.
               case best of
                 None \<Rightarrow> Inr (no_size (plain ''wait'' ''nonfinite_expected_profit''))
               | Some b \<Rightarrow> finish_size nm x edge coefficient max_fraction feasible b)))"

definition size_position :: "numerics \<Rightarrow> sizing_context \<Rightarrow> sizing_result res" where
  "size_position nm x =
     bnd (integer (sc_now x) ''now_ms'' 0) (\<lambda>_.
     if inputs_refused x then Inr (no_size (plain ''wait'' ''sizing_inputs_not_admitted''))
     else let first = first_lot (sc_market x) (sc_curve x); last = last_lot (sc_market x) (sc_curve x) in
     if last < first then Inr (no_size (plain ''wait'' ''no_executable_size''))
     else bnd (lot_quote nm x first) (\<lambda>(_, minimum_decision).
     if de_action minimum_decision \<noteq> ''enter'' then Inr (no_size minimum_decision)
     else bnd (bisect_gate (lot_gate nm x) first last) (\<lambda>feasible. choose_size nm x first feasible)))"


section \<open>The bisection finds the greatest feasible lot count\<close>

text \<open>What the search relies on: the gate is downward closed on the lots in question.\<close>

locale monotone_gate =
  fixes gate :: "int \<Rightarrow> bool res" and first :: int
  assumes first_open: "gate first = Inr True"
    and down: "gate k = Inr True \<Longrightarrow> first \<le> j \<Longrightarrow> j \<le> k \<Longrightarrow> gate j = Inr True"
begin

lemma bisect_greatest:
  "bisect_gate gate low high = Inr r \<Longrightarrow> first \<le> low \<Longrightarrow> low \<le> high \<Longrightarrow> gate low = Inr True \<Longrightarrow>
   low \<le> r \<and> r \<le> high \<and> gate r = Inr True \<and> (\<forall>k. r < k \<and> k \<le> high \<longrightarrow> gate k \<noteq> Inr True)"
proof (induction g \<equiv> gate low high rule: bisect_gate.induct)
  case (1 low high)
  show ?case
  proof (cases "low < high")
    case False
    then have "high = low" using "1.prems" by simp
    then show ?thesis using "1.prems" by (auto simp: bisect_gate.simps [of gate low low])
  next
    case True
    define middle where "middle = (low + high + 1) div 2"
    have mid: "low < middle" "middle \<le> high" using True by (auto simp: middle_def)
    from "1.prems"(1) True obtain b where b: "gate middle = Inr b"
      "(if b then bisect_gate gate middle high else bisect_gate gate low (middle - 1)) = Inr r"
      by (auto simp: bisect_gate.simps [of gate low high] middle_def [symmetric] Let_def res_simps)
    show ?thesis
    proof (cases b)
      case True
      then show ?thesis
        using "1.hyps"(1) [OF \<open>low < high\<close> middle_def b(1) True] b "1.prems"(2) mid by auto
    next
      case False
      have no: "gate k \<noteq> Inr True" if "middle \<le> k" for k
        using down [of k middle] that b(1) False "1.prems"(2) mid(1) by auto
      have IH: "low \<le> r \<and> r \<le> middle - 1 \<and> gate r = Inr True \<and> (\<forall>k. r < k \<and> k \<le> middle - 1 \<longrightarrow> gate k \<noteq> Inr True)"
        using "1.hyps"(2) [OF \<open>low < high\<close> middle_def b(1) False] b False "1.prems"(2,4) mid by auto
      then show ?thesis using no mid by (metis less_imp_le not_less order_trans zle_diff1_eq)
    qed
  qed
qed

end

text \<open>Without monotonicity the search still only answers a lot count it saw enter.\<close>

lemma bisect_gate_open:
  "bisect_gate gate low high = Inr r \<Longrightarrow> low \<le> high \<Longrightarrow> gate low = Inr True \<Longrightarrow>
   low \<le> r \<and> r \<le> high \<and> gate r = Inr True"
proof (induction gate low high rule: bisect_gate.induct)
  case (1 gate low high)
  show ?case
  proof (cases "low < high")
    case False
    then have "high = low" using "1.prems" by simp
    then show ?thesis using "1.prems" by (auto simp: bisect_gate.simps [of gate low low])
  next
    case True
    define middle where "middle = (low + high + 1) div 2"
    have mid: "low < middle" "middle \<le> high" using True by (auto simp: middle_def)
    from "1.prems"(1) True obtain b where b: "gate middle = Inr b"
      "(if b then bisect_gate gate middle high else bisect_gate gate low (middle - 1)) = Inr r"
      by (auto simp: bisect_gate.simps [of gate low high] middle_def [symmetric] Let_def res_simps)
    show ?thesis
      using "1.IH" [OF True middle_def b(1)] b mid "1.prems"(3) by (cases b) auto
  qed
qed


section \<open>The gate is downward closed\<close>

text \<open>The market's numbers are binary64 values, as Python floats are, and it passed its checks.\<close>

definition market_ok :: "sizing_inputs \<Rightarrow> bool" where
  "market_ok m \<longleftrightarrow> mk_sizing_inputs m = Inr m
     \<and> (\<exists>p. si_price m = Fin p \<and> fl p = Fin p) \<and> (\<exists>a. si_adv_base m = Fin a \<and> fl a = Fin a)"

lemma mk_sizing_inputs_step:
  "mk_sizing_inputs m = Inr m' \<Longrightarrow> m' = m \<and> (\<exists>r. si_step m = Fin r \<and> 0 < r)
     \<and> \<not> flt (si_price m) (Fin 0) \<and> \<not> feq (si_price m) (Fin 0)
     \<and> \<not> flt (si_adv_base m) (Fin 0) \<and> \<not> feq (si_adv_base m) (Fin 0)
     \<and> is_fin (si_min_quantity m)"
  unfolding mk_sizing_inputs_def positive_number_def nonneg_decimal_def
  by (cases "si_step m") (auto simp: bnd_eq_Inr guard_eq_Inr number_Inr split: if_splits)

lemma market_positive:
  assumes "market_ok m"
  shows "0 < dec_of (si_step m)" "0 < dec_str (si_price m)" "0 < dec_str (si_adv_base m)"
proof -
  have i: "mk_sizing_inputs m = Inr m" using assms by (simp add: market_ok_def)
  note s = mk_sizing_inputs_step [OF i]
  show "0 < dec_of (si_step m)" using s by auto
  obtain p a where "si_price m = Fin p" "fl p = Fin p" "si_adv_base m = Fin a" "fl a = Fin a"
    using assms by (auto simp: market_ok_def)
  then show "0 < dec_str (si_price m)" "0 < dec_str (si_adv_base m)"
    using s repr_dec_pos [of p] repr_dec_pos [of a] by auto
qed

lemma lot_mono:
  assumes "market_ok m" "j \<le> k"
  shows "lot_quantity m j \<le> lot_quantity m k" "fle (lot_fraction m j) (lot_fraction m k)"
    "fle (lot_notional m j) (lot_notional m k)"
proof -
  note p = market_positive [OF assms(1)]
  show q: "lot_quantity m j \<le> lot_quantity m k"
    unfolding lot_quantity_def using p(1) assms(2) by (intro d60.rd_mono mult_left_mono) auto
  show "fle (lot_fraction m j) (lot_fraction m k)"
    unfolding lot_fraction_def float_of_dec_def using q p(3) by (intro fl_mono d60.rd_mono divide_right_mono) auto
  show "fle (lot_notional m j) (lot_notional m k)"
    unfolding lot_notional_def float_of_dec_def using q p(2) by (intro fl_mono d60.rd_mono mult_right_mono) auto
qed

text \<open>What is assumed of \<open>x ** 0.5\<close>: it is monotone and nonnegative on the nonnegative floats.\<close>

definition root_like :: "(pynum \<Rightarrow> pynum) \<Rightarrow> bool" where
  "root_like f \<longleftrightarrow> (\<forall>x y. fle (Fin 0) x \<and> fle x y \<longrightarrow> fle (Fin 0) (f x) \<and> fle (f x) (f y))"

lemma fin_between: "fle a b \<Longrightarrow> fle b c \<Longrightarrow> is_fin a \<Longrightarrow> is_fin c \<Longrightarrow> is_fin b"
  by (cases a; cases b; cases c) auto

lemma fnn_iff: "fnn x \<longleftrightarrow> fle (Fin 0) x"
  by (cases x) auto

lemma fadd_fin: "is_fin (fadd a b) \<Longrightarrow> is_fin a \<and> is_fin b"
  by (cases a; cases b) auto

lemma bps_fin: "is_fin (bps z) \<Longrightarrow> is_fin z"
  by (cases z) (auto simp: bps_def)

lemma side_cost_fin: "is_fin (side_cost rt c y h f g) \<Longrightarrow> is_fin (fmul c (rt y))"
  unfolding side_cost_def using bps_fin fadd_fin by blast

lemma side_cost_mono:
  assumes "root_like rt" "fle (Fin 0) x" "fle x y" "is_fin c" "fle (Fin 0) c"
    and "fnn h" "fnn f" "fnn g" "is_fin (side_cost rt c y h f g)"
  shows "fnn (side_cost rt c x h f g)" "fle (side_cost rt c x h f g) (side_cost rt c y h f g)"
proof -
  obtain c' where c: "c = Fin c'" "0 \<le> c'" using assms(4,5) by (cases c) auto
  have r: "fle (Fin 0) (rt x)" "fle (rt x) (rt y)" using assms(1-3) unfolding root_like_def by blast+
  have "rt y \<noteq> NInf" "rt y \<noteq> NaN" using r by (cases "rt x"; cases "rt y"; auto)+
  moreover have "rt y \<noteq> PInf"
    using side_cost_fin [OF assms(9)] unfolding c by (auto simp: finf_def split: if_splits)
  ultimately obtain y' where y: "rt y = Fin y'" by (cases "rt y") auto
  obtain x' where x: "rt x = Fin x'" "0 \<le> x'" "x' \<le> y'" using r unfolding y by (cases "rt x") auto
  have m: "fnn (fmul c (rt x))" "fle (fmul c (rt x)) (fmul c (rt y))"
    unfolding c x y using c(2) x(2,3) by (auto intro!: fl_mono mult_left_mono)
  have refl: "fle z z" if "fnn z" for z using that by (intro fle_refl fnn_not_NaN)
  show "fnn (side_cost rt c x h f g)" unfolding side_cost_def using m(1) assms(6-8) by (intro fnn_bps fnn_fadd)
  show "fle (side_cost rt c x h f g) (side_cost rt c y h f g)"
    unfolding side_cost_def using m assms(6-8) by (intro bps_mono fadd_mono fnn_fadd refl)
qed


text \<open>The estimate of a lot count.\<close>

definition lot_estimate :: "numerics \<Rightarrow> sizing_context \<Rightarrow> int \<Rightarrow> cost_estimate" where
  "lot_estimate nm x lots =
     (let c = sc_curve x; i = lot_inputs x lots;
          close = side_cost (nm_root nm) (ic_buy c) (ci_adv_fraction i) (ci_close_half_spread i) (ci_close_fee i) (ci_hedge_close i)
      in \<lparr>ce_symbol = ic_symbol c, ce_notional = ci_notional i, ce_horizon = ci_horizon i,
          ce_quoted_at = sc_now x, ce_valid_until = ci_valid_until i, ce_evidence_end = ic_evidence_end c,
          ce_artifact = ic_artifact c, ce_kind = ic_kind c,
          ce_entry = side_cost (nm_root nm) (ic_sell c) (ci_adv_fraction i) (ci_entry_half_spread i) (ci_entry_fee i) (ci_hedge_entry i),
          ce_close_now = close, ce_terminal_close = close, ce_financing = ci_financing i\<rparr>)"

lemma lot_curve_iff:
  "from_curve (nm_root nm) (sc_curve x) (sc_now x) (lot_inputs x lots) = Inr e \<longleftrightarrow>
     e = lot_estimate nm x lots \<and> 0 \<le> sc_now x
     \<and> is_fin (lot_fraction (sc_market x) lots) \<and> \<not> flt (lot_fraction (sc_market x) lots) (Fin 0)
     \<and> ic_admitted_at (sc_curve x) \<le> sc_now x \<and> ic_evidence_end (sc_curve x) \<le> sc_now x
     \<and> fle (ic_size_min (sc_curve x)) (lot_fraction (sc_market x) lots)
     \<and> fle (lot_fraction (sc_market x) lots) (ic_size_max (sc_curve x))
     \<and> check_rates (lot_inputs x lots) = Inr () \<and> mk_cost_estimate (lot_estimate nm x lots) = Inr (lot_estimate nm x lots)"
  unfolding from_curve_def lot_estimate_def Let_def bnd_eq_Inr guard_eq_Inr number_Inr integer_Inr
  by (auto simp: lot_inputs_def Let_def mk_cost_estimate_Inr not_less)

lemma check_rates_fnn: "check_rates i = Inr () \<Longrightarrow>
    fnn (ci_entry_half_spread i) \<and> fnn (ci_close_half_spread i) \<and> fnn (ci_entry_fee i) \<and> fnn (ci_close_fee i)
    \<and> fnn (ci_hedge_entry i) \<and> fnn (ci_hedge_close i) \<and> fnn (ci_financing i)"
  unfolding check_rates_def bnd_eq_Inr number_Inr fnn_iff by (auto intro: fin_nonneg)

lemma check_rates_lots: "check_rates (lot_inputs x j) = check_rates (lot_inputs x k)"
  by (simp add: check_rates_def lot_inputs_def Let_def)

lemma lot_gate_Inr: "lot_gate nm x lots = Inr b \<longleftrightarrow>
    (\<exists>e d. from_curve (nm_root nm) (sc_curve x) (sc_now x) (lot_inputs x lots) = Inr e
       \<and> decide (nm_mean nm) (sy_symbol (sc_strategy x)) (sy_policy (sc_strategy x)) (sc_now x)
            (sc_forecast x) (Some e) (sc_approval x) None = Inr d \<and> b = (de_action d = ''enter''))"
  by (auto simp: lot_gate_def lot_quote_def bnd_eq_Inr)

definition numerics_ok :: "numerics \<Rightarrow> bool" where
  "numerics_ok nm \<longleftrightarrow> root_like (nm_root nm) \<and> float_valued (nm_mean nm)"

lemma lot_estimates_between:
  assumes m: "market_ok (sc_market x)" and c: "curve_ok (sc_curve x)" and r: "root_like (nm_root nm)"
    and 1: "from_curve (nm_root nm) (sc_curve x) (sc_now x) (lot_inputs x first) = Inr e1"
    and k: "from_curve (nm_root nm) (sc_curve x) (sc_now x) (lot_inputs x k) = Inr ek"
    and jk: "first \<le> j" "j \<le> k"
  shows "from_curve (nm_root nm) (sc_curve x) (sc_now x) (lot_inputs x j) = Inr (lot_estimate nm x j)"
    and "fnn (hurdle None (lot_estimate nm x j))" "fle (hurdle None (lot_estimate nm x j)) (hurdle None ek)"
proof -
  note e1 = 1 [unfolded lot_curve_iff] and ek = k [unfolded lot_curve_iff]
  have est1: "mk_cost_estimate (lot_estimate nm x first) = Inr (lot_estimate nm x first)"
    and estk: "mk_cost_estimate (lot_estimate nm x k) = Inr (lot_estimate nm x k)" using e1 ek by blast+
  note v1 = est1 [unfolded mk_cost_estimate_Inr] and vk = estk [unfolded mk_cost_estimate_Inr]
  have f1: "is_fin (lot_fraction (sc_market x) first)" "\<not> flt (lot_fraction (sc_market x) first) (Fin 0)"
    and fk: "is_fin (lot_fraction (sc_market x) k)" using e1 ek by blast+
  have f0: "fle (Fin 0) (lot_fraction (sc_market x) first)" using f1 by (rule fin_nonneg)
  have lo: "fle (lot_fraction (sc_market x) first) (lot_fraction (sc_market x) j)" by (rule lot_mono [OF m jk(1)])
  have hi: "fle (lot_fraction (sc_market x) j) (lot_fraction (sc_market x) k)" by (rule lot_mono [OF m jk(2)])
  have fj: "is_fin (lot_fraction (sc_market x) j)" by (rule fin_between [OF lo hi f1(1) fk])
  have f0j: "fle (Fin 0) (lot_fraction (sc_market x) j)" by (rule fle_trans [OF f0 lo])
  have rng: "fle (ic_size_min (sc_curve x)) (lot_fraction (sc_market x) j)"
    "fle (lot_fraction (sc_market x) j) (ic_size_max (sc_curve x))"
    using e1 ek lo hi fle_trans by blast+
  have rates: "check_rates (lot_inputs x j) = Inr ()" using e1 check_rates_lots [of x j first] by simp
  note nn = check_rates_fnn [OF rates]
  have own: "ci_adv_fraction (lot_inputs x n) = lot_fraction (sc_market x) n"
    "ci_notional (lot_inputs x n) = lot_notional (sc_market x) n" for n
    by (simp_all add: lot_inputs_def Let_def)
  have alike: "ci_entry_half_spread (lot_inputs x n) = ci_entry_half_spread (lot_inputs x j)"
    "ci_close_half_spread (lot_inputs x n) = ci_close_half_spread (lot_inputs x j)"
    "ci_entry_fee (lot_inputs x n) = ci_entry_fee (lot_inputs x j)" "ci_close_fee (lot_inputs x n) = ci_close_fee (lot_inputs x j)"
    "ci_hedge_entry (lot_inputs x n) = ci_hedge_entry (lot_inputs x j)"
    "ci_hedge_close (lot_inputs x n) = ci_hedge_close (lot_inputs x j)"
    "ci_financing (lot_inputs x n) = ci_financing (lot_inputs x j)" "ci_horizon (lot_inputs x n) = ci_horizon (lot_inputs x j)"
    "ci_valid_until (lot_inputs x n) = ci_valid_until (lot_inputs x j)" for n
    by (simp_all add: lot_inputs_def Let_def)
  note same = own alike [of first] alike [of k]
  have entry: "fnn (ce_entry (lot_estimate nm x j))" "fle (ce_entry (lot_estimate nm x j)) (ce_entry (lot_estimate nm x k))"
    and close: "fnn (ce_close_now (lot_estimate nm x j))" "fle (ce_close_now (lot_estimate nm x j)) (ce_close_now (lot_estimate nm x k))"
    using side_cost_mono [OF r f0j hi, of "ic_sell (sc_curve x)"] side_cost_mono [OF r f0j hi, of "ic_buy (sc_curve x)"]
      nn vk c unfolding curve_ok_def lot_estimate_def Let_def same by simp_all
  have fin: "is_fin (ce_entry (lot_estimate nm x j))" "is_fin (ce_close_now (lot_estimate nm x j))"
    using fin_between [OF _ entry(2), of "Fin 0"] fin_between [OF _ close(2), of "Fin 0"] entry(1) close(1) vk
    by (auto simp: fnn_iff)
  have notional: "fle (lot_notional (sc_market x) first) (lot_notional (sc_market x) j)"
    "fle (lot_notional (sc_market x) j) (lot_notional (sc_market x) k)"
    by (rule lot_mono [OF m jk(1)], rule lot_mono [OF m jk(2)])
  have n1: "is_fin (lot_notional (sc_market x) first)" "\<not> flt (lot_notional (sc_market x) first) (Fin 0)"
    "\<not> feq (lot_notional (sc_market x) first) (Fin 0)" "is_fin (lot_notional (sc_market x) k)"
    using v1 vk unfolding lot_estimate_def Let_def same by simp_all
  have nj: "is_fin (lot_notional (sc_market x) j)" by (rule fin_between [OF notional n1(1,4)])
  have npos: "\<not> flt (lot_notional (sc_market x) j) (Fin 0)" "\<not> feq (lot_notional (sc_market x) j) (Fin 0)"
    using notional(1) n1(1-3) nj
    by (cases "lot_notional (sc_market x) first"; cases "lot_notional (sc_market x) j"; auto)+
  have nnj: "\<not> flt y (Fin 0)" if "fnn y" for y using that by (cases y) auto
  have "mk_cost_estimate (lot_estimate nm x j) = Inr (lot_estimate nm x j)"
    using v1 fin entry(1) close(1) nj npos nnj nn unfolding mk_cost_estimate_Inr lot_estimate_def Let_def same by simp
  then show "from_curve (nm_root nm) (sc_curve x) (sc_now x) (lot_inputs x j) = Inr (lot_estimate nm x j)"
    unfolding lot_curve_iff using e1 fj rng rates f0j by (cases "lot_fraction (sc_market x) j") auto
  have fnnf: "fnn (ce_financing (lot_estimate nm x j))" and eqf: "ce_financing (lot_estimate nm x k) = ce_financing (lot_estimate nm x j)"
    using nn unfolding lot_estimate_def Let_def same by simp_all
  have tc: "ce_terminal_close (lot_estimate nm x n) = ce_close_now (lot_estimate nm x n)" for n
    by (simp add: lot_estimate_def Let_def)
  show "fnn (hurdle None (lot_estimate nm x j))"
    using entry(1) close(1) fnnf by (simp add: hurdle_def tc)
  have "fle (ce_financing (lot_estimate nm x j)) (ce_financing (lot_estimate nm x j))"
    using fnnf by (intro fle_refl fnn_not_NaN)
  moreover have "ek = lot_estimate nm x k" using ek by blast
  ultimately show "fle (hurdle None (lot_estimate nm x j)) (hurdle None ek)"
    using entry close fnnf by (simp add: hurdle_def tc eqf fadd_mono)
qed

lemma lot_gate_down:
  assumes "market_ok (sc_market x)" "curve_ok (sc_curve x)" "numerics_ok nm"
    and "lot_gate nm x first = Inr True" "lot_gate nm x k = Inr True" "first \<le> j" "j \<le> k"
  shows "lot_gate nm x j = Inr True"
proof -
  from assms(4) obtain e1 where e1: "from_curve (nm_root nm) (sc_curve x) (sc_now x) (lot_inputs x first) = Inr e1"
    by (auto simp: lot_gate_Inr)
  from assms(5) obtain ek dk where ek: "from_curve (nm_root nm) (sc_curve x) (sc_now x) (lot_inputs x k) = Inr ek"
    "decide (nm_mean nm) (sy_symbol (sc_strategy x)) (sy_policy (sc_strategy x)) (sc_now x)
       (sc_forecast x) (Some ek) (sc_approval x) None = Inr dk" "de_action dk = ''enter''"
    by (auto simp: lot_gate_Inr)
  have rt: "root_like (nm_root nm)" and fm: "float_valued (nm_mean nm)" using assms(3) by (auto simp: numerics_ok_def)
  note b = lot_estimates_between [OF assms(1,2) rt e1 ek(1) assms(6,7)]
  have "same_terms (lot_estimate nm x j) ek"
    using ek(1) unfolding lot_curve_iff by (simp add: same_terms_def lot_estimate_def lot_inputs_def Let_def)
  from enter_monotone [OF fm this b(2,3) ek(2,3)] show ?thesis
    unfolding lot_gate_Inr using b(1) by blast
qed


section \<open>The interface of the search, on the model's gate\<close>

text \<open>The gate of a checked context whose minimum size enters; elsewhere everything is open.\<close>

definition sized_gate :: "numerics \<Rightarrow> sizing_context \<Rightarrow> int \<Rightarrow> bool res" where
  "sized_gate nm x =
     (if market_ok (sc_market x) \<and> curve_ok (sc_curve x) \<and> numerics_ok nm
         \<and> lot_gate nm x (first_lot (sc_market x) (sc_curve x)) = Inr True
      then lot_gate nm x else (\<lambda>_. Inr True))"

interpretation lots: monotone_gate "sized_gate nm x" "first_lot (sc_market x) (sc_curve x)" for nm x
proof
  show "sized_gate nm x (first_lot (sc_market x) (sc_curve x)) = Inr True"
    by (simp add: sized_gate_def)
  show "sized_gate nm x j = Inr True"
    if "sized_gate nm x k = Inr True" "first_lot (sc_market x) (sc_curve x) \<le> j" "j \<le> k" for j k
    using that lot_gate_down [of x nm "first_lot (sc_market x) (sc_curve x)" k j]
    by (auto simp: sized_gate_def split: if_splits)
qed

section \<open>What a size is\<close>

lemma best_lot_spec:
  "best_lot nm x best lots = Inr (Some b) \<Longrightarrow> (\<forall>b0. best = Some b0 \<longrightarrow> is_fin (fst b0)) \<Longrightarrow>
   (best = Some b \<or> (\<exists>n \<in> set lots. price_lot nm x n = Inr b)) \<and> is_fin (fst b)
   \<and> (\<forall>b0. best = Some b0 \<longrightarrow> fle (fst b0) (fst b))
   \<and> (\<forall>n \<in> set lots. \<exists>p. price_lot nm x n = Inr p \<and> fle (fst p) (fst b))"
proof (induction lots arbitrary: best)
  case Nil
  then show ?case by (auto intro: fle_refl)
next
  case (Cons n rest)
  from Cons.prems(1) obtain p where p: "price_lot nm x n = Inr p" "is_fin (fst p)"
    "best_lot nm x (case best of None \<Rightarrow> Some p | Some b \<Rightarrow> if flt (fst b) (fst p) then Some p else Some b) rest = Inr (Some b)"
    by (auto simp: res_simps split: if_splits)
  define best' where "best' = (case best of None \<Rightarrow> Some p | Some b \<Rightarrow> if flt (fst b) (fst p) then Some p else Some b)"
  have fin': "\<forall>b0. best' = Some b0 \<longrightarrow> is_fin (fst b0)"
    using p(2) Cons.prems(2) by (auto simp: best'_def split: option.splits if_splits)
  note IH = Cons.IH [OF p(3) [folded best'_def] fin']
  obtain b1 where b1: "best' = Some b1" "fle (fst p) (fst b1)" "b1 = p \<or> best = Some b1"
    "\<forall>b0. best = Some b0 \<longrightarrow> fle (fst b0) (fst b1)"
  proof (cases best)
    case None
    have "fle (fst p) (fst p)" using p(2) by (intro fle_refl) auto
    then show thesis using that [of p] None by (simp add: best'_def)
  next
    case (Some b0)
    have nn: "fst b0 \<noteq> NaN" "fst p \<noteq> NaN" using Some Cons.prems(2) p(2) by auto
    then show thesis
      using Some that [of p] that [of b0] flt_imp_fle not_flt_fle [of "fst p" "fst b0"] fle_refl
      by (cases "flt (fst b0) (fst p)") (auto simp: best'_def)
  qed
  have b1b: "fle (fst b1) (fst b)" using IH b1(1) by blast
  have "best = Some b \<or> (\<exists>n \<in> set (n # rest). price_lot nm x n = Inr b)"
    using IH b1(1,3) p(1) by auto
  moreover have "\<forall>b0. best = Some b0 \<longrightarrow> fle (fst b0) (fst b)"
    using b1(4) b1b fle_trans by blast
  moreover have "\<forall>m \<in> set (n # rest). \<exists>p. price_lot nm x m = Inr p \<and> fle (fst p) (fst b)"
    using IH p(1) fle_trans [OF b1(2) b1b] unfolding list.set by blast
  ultimately show ?case using IH by blast
qed

lemma candidate_lots_spec:
  "first \<le> feasible \<Longrightarrow> set (candidate_lots first feasible target) =
     {max first (min feasible target), max first (min feasible (target + 1))}
   \<and> (\<forall>n \<in> set (candidate_lots first feasible target). first \<le> n \<and> n \<le> feasible)"
  by (auto simp: candidate_lots_def Let_def)

lemma price_lot_Inr: "price_lot nm x n = Inr b \<longleftrightarrow>
    (\<exists>e d edge. lot_quote nm x n = Inr (e, d) \<and> de_edge d = Some edge \<and> b = (fmul (ce_notional e) edge, n, e, d))"
proof (cases "lot_quote nm x n")
  case (Inr q)
  obtain e d where "q = (e, d)" by (cases q)
  then show ?thesis using Inr by (cases "de_edge d") (auto simp: price_lot_def)
qed (simp add: price_lot_def)

lemma choose_sizeE:
  assumes "choose_size nm x first feasible = Inr r" "sr_estimate r = Some e"
  obtains edge coefficient target b where
    "best_lot nm x None (candidate_lots first feasible target) = Inr (Some b)"
    "finish_size nm x edge coefficient (lot_fraction (sc_market x) feasible) feasible b = Inr r"
proof (cases "sc_forecast x")
  case None
  then show ?thesis using assms(1) by (simp add: choose_size_def Let_def)
next
  case (Some ff)
  have "is_fin (round_trip_coefficient (sc_curve x))"
    using assms Some by (auto simp: choose_size_def Let_def no_size_def split: if_splits)
  then obtain target best where
    t: "best_lot nm x None (candidate_lots first feasible target) = Inr best"
    "(case best of None \<Rightarrow> Inr (no_size (plain ''wait'' ''nonfinite_expected_profit''))
      | Some b \<Rightarrow> finish_size nm x (fsub (nm_mean nm (cf_samples (ff_prediction ff))) (fixed_fraction (sc_charges x)))
          (round_trip_coefficient (sc_curve x)) (lot_fraction (sc_market x) feasible) feasible b) = Inr r"
    using assms(1) Some unfolding choose_size_def Let_def by (auto simp: bnd_eq_Inr)
  then show ?thesis
    using assms(2) that by (cases best) (auto simp: no_size_def)
qed

lemma finish_sizeE:
  assumes "finish_size nm x edge coefficient mf feasible (profit, lots, e, d) = Inr r" "sr_estimate r = Some e'"
  shows "e' = e" "sr_quantity r = lot_quantity (sc_market x) lots" "sr_notional r = ce_notional e"
    "sr_fraction r = lot_fraction (sc_market x) lots" "sr_profit r = profit" "sr_decision r = d"
    "sr_max_fraction r = Some mf" "sr_max_notional r = Some (lot_notional (sc_market x) feasible)" "\<not> fle profit (Fin 0)"
proof -
  have p: "\<not> fle profit (Fin 0)" using assms by (auto simp: finish_size_def Let_def no_size_def)
  then obtain bs s where "break_even nm (sc_curve x) edge coefficient = Inr bs" "fsqrt (lot_fraction (sc_market x) lots) = Inr s"
    and r: "r = \<lparr>sr_quantity = lot_quantity (sc_market x) lots, sr_notional = ce_notional e,
                   sr_fraction = lot_fraction (sc_market x) lots, sr_profit = profit,
                   sr_marginal = Some (fsub edge (fmul (three_halves coefficient) s)), sr_decision = d,
                   sr_estimate = Some e, sr_max_fraction = Some mf, sr_break_even = fst bs,
                   sr_break_even_status = snd bs, sr_limits = limit_labels x feasible,
                   sr_max_notional = Some (lot_notional (sc_market x) feasible),
                   sr_break_even_notional = root_notional (sc_market x) (fst bs)\<rparr>"
    using assms(1) p unfolding finish_size_def Let_def by (auto simp: bnd_eq_Inr)
  show "e' = e" "sr_quantity r = lot_quantity (sc_market x) lots" "sr_notional r = ce_notional e"
    "sr_fraction r = lot_fraction (sc_market x) lots" "sr_profit r = profit" "sr_decision r = d"
    "sr_max_fraction r = Some mf" "sr_max_notional r = Some (lot_notional (sc_market x) feasible)"
    using assms(2) by (simp_all add: r)
  show "\<not> fle profit (Fin 0)" by (rule p)
qed

lemma size_positionE:
  assumes "size_position nm x = Inr r" "sr_estimate r = Some e"
  obtains feasible lots where
    "\<not> inputs_refused x" "0 \<le> sc_now x"
    "first_lot (sc_market x) (sc_curve x) \<le> last_lot (sc_market x) (sc_curve x)"
    "lot_gate nm x (first_lot (sc_market x) (sc_curve x)) = Inr True"
    "bisect_gate (lot_gate nm x) (first_lot (sc_market x) (sc_curve x)) (last_lot (sc_market x) (sc_curve x)) = Inr feasible"
    "first_lot (sc_market x) (sc_curve x) \<le> lots" "lots \<le> feasible" "feasible \<le> last_lot (sc_market x) (sc_curve x)"
    "lot_quote nm x lots = Inr (e, sr_decision r)" "sr_quantity r = lot_quantity (sc_market x) lots"
    "sr_fraction r = lot_fraction (sc_market x) lots" "sr_notional r = ce_notional e"
    "sr_max_fraction r = Some (lot_fraction (sc_market x) feasible)"
    "sr_max_notional r = Some (lot_notional (sc_market x) feasible)"
    "\<exists>edge. de_edge (sr_decision r) = Some edge \<and> sr_profit r = fmul (ce_notional e) edge" "is_fin (sr_profit r)" "\<not> fle (sr_profit r) (Fin 0)"
proof -
  let ?first = "first_lot (sc_market x) (sc_curve x)" and ?last = "last_lot (sc_market x) (sc_curve x)"
  have i: "\<not> inputs_refused x" "?first \<le> ?last" and now: "0 \<le> sc_now x"
    using assms by (auto simp: size_position_def bnd_eq_Inr integer_Inr no_size_def Let_def split: if_splits)
  then obtain q where q: "lot_quote nm x ?first = Inr q"
    "(if de_action (snd q) \<noteq> ''enter'' then Inr (no_size (snd q))
      else bnd (bisect_gate (lot_gate nm x) ?first ?last) (\<lambda>feasible. choose_size nm x ?first feasible)) = Inr r"
    using assms(1) unfolding size_position_def Let_def split_beta by (auto simp: bnd_eq_Inr integer_Inr)
  have ent: "de_action (snd q) = ''enter''"
    using q(2) assms(2) by (auto simp: no_size_def split: if_splits)
  then obtain feasible where
    h: "bisect_gate (lot_gate nm x) ?first ?last = Inr feasible" "choose_size nm x ?first feasible = Inr r"
    using q(2) by (auto simp: bnd_eq_Inr)
  have g: "lot_gate nm x ?first = Inr True" using q(1) ent by (cases q) (simp add: lot_gate_def)
  note f = bisect_gate_open [OF h(1) i(2) g]
  obtain edge coefficient target b where
    b: "best_lot nm x None (candidate_lots ?first feasible target) = Inr (Some b)"
      "finish_size nm x edge coefficient (lot_fraction (sc_market x) feasible) feasible b = Inr r"
    by (rule choose_sizeE [OF h(2) assms(2)])
  have bs: "\<exists>n \<in> set (candidate_lots ?first feasible target). price_lot nm x n = Inr b" "is_fin (fst b)"
    using best_lot_spec [OF b(1)] by auto
  obtain profit lots e2 d where bb: "b = (profit, lots, e2, d)" by (metis prod_cases4)
  note r = finish_sizeE [OF b(2) [unfolded bb] assms(2)]
  obtain n where n: "n \<in> set (candidate_lots ?first feasible target)" "price_lot nm x n = Inr b" using bs by auto
  have nl: "n = lots" "lot_quote nm x lots = Inr (e2, d)" "\<exists>edge. de_edge d = Some edge \<and> profit = fmul (ce_notional e2) edge"
    using n(2) unfolding price_lot_Inr bb prod.inject by blast+
  have lots: "?first \<le> lots" "lots \<le> feasible"
    using conjunct2 [OF candidate_lots_spec [OF conjunct1 [OF f]]] n(1) nl(1) by blast+
  have e2: "e2 = e" and d: "d = sr_decision r" and pr: "profit = sr_profit r" using r by simp_all
  have fin: "is_fin (sr_profit r)" using bs(2) by (simp add: bb pr)
  show thesis
    by (rule that [OF i(1) now i(2) g h(1) lots conjunct1 [OF conjunct2 [OF f]] nl(2) [unfolded e2 d] r(2,4)
          r(3) [unfolded e2] r(7,8) nl(3) [unfolded e2 d pr] fin r(9) [unfolded pr]])
qed

end
