(* ===== verification/SizingProps.thy ===== *)
theory SizingProps
  imports Sizing
begin

text \<open>The properties of \<open>strategy/sizing.py\<close>, and one sizing evaluated in full.\<close>

section \<open>A concrete sizing\<close>

definition example_step_root :: "pynum \<Rightarrow> pynum" where \<comment> \<open>a monotone stand-in for \<open>x ** 0.5\<close>, exact at 1 and 4\<close>
  "example_step_root x = (if flt x (Fin 1) then Fin 0 else if flt x (Fin 4) then Fin 1 else Fin 2)"

definition example_numerics :: numerics where
  "example_numerics = \<lparr>nm_mean = sum_mean, nm_root = example_step_root,
     nm_square = (\<lambda>x. case fmul x x of Fin r \<Rightarrow> Inr (Fin r) | _ \<Rightarrow> Inl (OverflowError ''math range error''))\<rparr>"

definition example_market :: sizing_inputs where
  "example_market = \<lparr>si_symbol = ''BTCUSDT'', si_observed_at = 0, si_valid_until = 2678460000, si_price = Fin 1,
     si_adv_base = Fin 1, si_adv_start = 86400000, si_adv_end = 2678400000, si_adv_sha = example_digest,
     si_step = Fin 1, si_min_quantity = Fin 0, si_min_notional = Fin 0, si_max_notional = Fin 8,
     si_max_adv = Fin 8, si_validated = Fin 8, si_meta_from = 0, si_meta_until = 2678460000,
     si_meta_sha = example_digest\<rparr>"

definition example_size_curve :: impact_curve where
  "example_size_curve = \<lparr>ic_symbol = ''BTCUSDT'', ic_admitted_at = 0, ic_evidence_end = 0,
     ic_artifact = example_digest, ic_kind = Synthetic, ic_sell = Fin 625, ic_buy = Fin 625,
     ic_size_min = Fin 1, ic_size_max = Fin 4\<rparr>"

definition example_charges :: charges where
  "example_charges = \<lparr>ch_entry_half_spread = Fin 0, ch_close_half_spread = Fin 0, ch_entry_fee = Fin 0,
     ch_close_fee = Fin 0, ch_hedge_entry = Fin 0, ch_hedge_close = Fin 0, ch_financing = Fin 0\<rparr>"

definition example_context :: sizing_context where
  "example_context = \<lparr>sc_strategy = \<lparr>sy_symbol = ''BTCUSDT'', sy_policy = example_policy\<rparr>, sc_now = 2678416000,
     sc_forecast = Some \<lparr>ff_symbol = ''BTCUSDT'', ff_prediction =
        \<lparr>cf_samples = [Fin 1, Fin 1], cf_horizon = 3, cf_interval_hours = 8,
         cf_as_of = 2678416000, cf_last_observation = 2678400000, cf_training_first = 2592000000,
         cf_training_settlements = 4, cf_seed = 603\<rparr>, ff_model = example_digest\<rparr>,
     sc_approval = Some \<lparr>ap_symbol = ''BTCUSDT'', ap_horizons = [3], ap_interval = 8, ap_validation_end = 0,
        ap_valid_until = 9000000000, ap_evidence = example_digest, ap_approved = True, ap_model = example_digest\<rparr>,
     sc_market = example_market, sc_curve = example_size_curve, sc_charges = example_charges\<rparr>"

lemma example_market_ok: "market_ok example_market"
proof -
  have "mk_sizing_inputs example_market = Inr example_market"
    by (simp add: mk_sizing_inputs_def example_market_def integer_def positive_number_def number_def
        nonneg_decimal_def example_digest_ok day_ms_def cong: eval_cong)
  then show ?thesis by (simp add: market_ok_def) (simp add: example_market_def short_float)
qed

lemma example_size_curve_ok: "curve_ok example_size_curve"
  by (simp add: curve_ok_def example_size_curve_def example_digest_ok)

lemma example_numerics_ok: "numerics_ok example_numerics"
proof -
  have "root_like example_step_root"
    unfolding root_like_def
  proof (intro allI impI)
    fix x y
    assume "fle (Fin 0) x \<and> fle x y"
    then show "fle (Fin 0) (example_step_root x) \<and> fle (example_step_root x) (example_step_root y)"
      by (cases x; cases y) (auto simp: example_step_root_def)
  qed
  then show ?thesis using sum_mean_float by (simp add: numerics_ok_def example_numerics_def)
qed

lemma example_repr: "repr_dec 1 = 1" "repr_dec 4 = 4" "repr_dec 8 = 8" "repr_dec 0 = 0"
  using repr_dec_digit [of 1] repr_dec_digit [of 4] repr_dec_digit [of 8] by (simp_all add: repr_dec_def [of 0])

lemma example_limits:
  "sizing_limits example_market example_size_curve =
     [(''model_support'', 4), (''validated_depth'', 8), (''max_adv'', 8), (''max_notional'', 8)]"
  by (simp add: sizing_limits_def Let_def example_market_def example_size_curve_def example_repr short_eval)

lemma example_lots:
  "first_lot example_market example_size_curve = 1" "last_lot example_market example_size_curve = 4"
  by (simp_all add: first_lot_def last_lot_def lower_limit_def upper_limit_def sizing_limits_def Let_def
      example_market_def example_size_curve_def example_repr short_eval)

lemma example_lot:
  assumes "n = 1 \<or> n = 3 \<or> n = 4"
  shows "lot_quantity example_market n = of_int n" "lot_fraction example_market n = Fin (of_int n)"
    "lot_notional example_market n = Fin (of_int n)"
  using assms by (auto simp: lot_quantity_def lot_fraction_def lot_notional_def float_of_dec_def
      example_market_def example_repr short_eval short_float)

definition example_lot_decision :: "rat \<Rightarrow> decision" where
  "example_lot_decision h = priced ''enter'' ''positive_cost_adjusted_edge'' (Fin 1) (Fin (1 - h))"

lemma example_lot_quote:
  assumes "n = 1 \<and> h = 1 / 8 \<or> n = 3 \<and> h = 1 / 8 \<or> n = 4 \<and> h = 1 / 4"
  shows "lot_quote example_numerics example_context n
    = Inr (lot_estimate example_numerics example_context n, example_lot_decision h)"
proof -
  have n: "n = 1 \<or> n = 3 \<or> n = 4" using assms by auto
  have s: "side_cost example_step_root (Fin 625) (Fin (of_int n)) (Fin 0) (Fin 0) (Fin 0) = Fin (h / 2)"
    using assms by (auto simp: side_cost_def example_step_root_def bps_def short_float)
  have e: "lot_estimate example_numerics example_context n = \<lparr>ce_symbol = ''BTCUSDT'', ce_notional = Fin (of_int n),
      ce_horizon = 3, ce_quoted_at = 2678416000, ce_valid_until = 2678460000, ce_evidence_end = 0,
      ce_artifact = example_digest, ce_kind = Synthetic, ce_entry = Fin (h / 2), ce_close_now = Fin (h / 2),
      ce_terminal_close = Fin (h / 2), ce_financing = Fin 0\<rparr>"
    using s by (simp add: lot_estimate_def lot_inputs_def Let_def example_context_def example_lot [OF n]
        example_numerics_def example_size_curve_def example_charges_def example_policy_def)
      (simp add: example_market_def)
  have c: "from_curve (nm_root example_numerics) (sc_curve example_context) (sc_now example_context)
      (lot_inputs example_context n) = Inr (lot_estimate example_numerics example_context n)"
    unfolding lot_curve_iff mk_cost_estimate_Inr unfolding e
    using assms
    by (auto simp: example_context_def example_lot [OF n] example_size_curve_def check_rates_def lot_inputs_def
        Let_def example_charges_def number_def example_digest_ok)
  have "h = 1 / 8 \<or> h = 1 / 4" using assms by blast
  then have h: "fl h = Fin h" "fl (1 - h) = Fin (1 - h)" "h < 1"
    by (elim disjE; hypsubst; simp add: short_float)+
  have d: "decide sum_mean ''BTCUSDT'' example_policy 2678416000 (sc_forecast example_context)
      (Some (lot_estimate example_numerics example_context n)) (sc_approval example_context) None
     = Inr (example_lot_decision h)"
    unfolding e using h
    by (simp add: example_context_def decide_def integer_def assess_def forecast_invalid_def not_approved_def
        costs_refused_def judge_def hurdle_def threshold_def fraction_above_def sum_mean_def example_policy_def
        fsub_def fabs_def hour_ms_def jitter_ms_def Let_def short_float example_lot_decision_def)
  show ?thesis
    unfolding lot_quote_def using c d by (simp add: example_numerics_def example_context_def)
qed

lemma example_gate: "n = 1 \<or> n = 3 \<or> n = 4 \<Longrightarrow> lot_gate example_numerics example_context n = Inr True"
  using example_lot_quote [of n "if n = 4 then 1 / 4 else 1 / 8"]
  by (auto simp: lot_gate_def example_lot_decision_def priced_def)

lemma example_bisect: "bisect_gate (lot_gate example_numerics example_context) 1 4 = Inr 4"
  by (simp add: bisect_gate.simps example_gate)

definition example_size :: sizing_result where
  "example_size = \<lparr>sr_quantity = 4, sr_notional = Fin 4, sr_fraction = Fin 4, sr_profit = Fin 3,
     sr_marginal = Some (Fin (5 / 8)), sr_decision = example_lot_decision (1 / 4),
     sr_estimate = Some (lot_estimate example_numerics example_context 4), sr_max_fraction = Some (Fin 4),
     sr_break_even = None, sr_break_even_status = ''above_support'', sr_limits = [''model_support''],
     sr_max_notional = Some (Fin 4), sr_break_even_notional = None\<rparr>"


lemma example_size_position: "size_position example_numerics example_context = Inr example_size"
proof -
  have refused: "\<not> inputs_refused example_context"
    by (simp add: inputs_refused_def Let_def example_context_def example_market_def example_size_curve_def day_ms_def)
  have q1: "lot_quote example_numerics example_context 1
      = Inr (lot_estimate example_numerics example_context 1, example_lot_decision (1 / 8))"
    and q4: "lot_quote example_numerics example_context 4
      = Inr (lot_estimate example_numerics example_context 4, example_lot_decision (1 / 4))"
    by (rule example_lot_quote; simp)+
  have mk: "sc_market example_context = example_market" "sc_curve example_context = example_size_curve"
    by (simp_all add: example_context_def)
  have rt: "round_trip_coefficient example_size_curve = Fin (1 / 8)"
    by (simp add: round_trip_coefficient_def example_size_curve_def bps_def short_float)
  have fixed: "fixed_fraction (sc_charges example_context) = Fin 0"
    by (simp add: fixed_fraction_def example_context_def example_charges_def bps_def fabs_def fsub_def)
  have edge: "fsub (nm_mean example_numerics [Fin 1, Fin 1]) (Fin 0) = Fin 1"
    by (simp add: example_numerics_def sum_mean_def fsub_def fabs_def short_float)
  have target: "target_lots example_numerics example_context (Fin 1) (Fin (1 / 8)) (Fin 4) 4 = Inr 4"
    by (simp add: target_lots_def fsqrt_4 three_halves_def short_float)
  have notional: "ce_notional (lot_estimate example_numerics example_context 4) = Fin 4"
    by (simp add: lot_estimate_def lot_inputs_def Let_def mk example_lot)
  have p: "price_lot example_numerics example_context 4
      = Inr (Fin 3, 4, lot_estimate example_numerics example_context 4, example_lot_decision (1 / 4))"
    by (simp add: price_lot_def q4 example_lot_decision_def priced_def notional short_float)
  have be: "break_even example_numerics example_size_curve (Fin 1) (Fin (1 / 8)) = Inr (None, ''above_support'')"
    by (simp add: break_even_def example_size_curve_def fsqrt_1 fsqrt_4 short_float)
  have lab: "limit_labels example_context 4 = [''model_support'']"
    by (simp add: limit_labels_def mk example_lots(2) example_limits upper_limit_def)
  have fin: "finish_size example_numerics example_context (Fin 1) (Fin (1 / 8)) (Fin 4) 4
      (Fin 3, 4, lot_estimate example_numerics example_context 4, example_lot_decision (1 / 4)) = Inr example_size"
    by (simp add: finish_size_def mk be example_lot fsqrt_4 three_halves_def fsub_def notional lab root_notional_def
        example_size_def short_float)
  have choose: "choose_size example_numerics example_context 1 4 = Inr example_size"
  proof -
    have "sc_forecast example_context \<noteq> None" "cf_samples (ff_prediction (the (sc_forecast example_context))) = [Fin 1, Fin 1]"
      by (simp_all add: example_context_def)
    then obtain ff where "sc_forecast example_context = Some ff" "cf_samples (ff_prediction ff) = [Fin 1, Fin 1]"
      by auto
    then show ?thesis
      by (simp add: choose_size_def mk rt fixed edge example_lot target candidate_lots_def p fin)
  qed
  have "0 \<le> sc_now example_context" by (simp add: example_context_def)
  then show ?thesis
    using refused by (simp add: size_position_def integer_def mk example_lots q1 example_lot_decision_def priced_def
        example_bisect choose)
qed

section \<open>Properties\<close>

lemma deps60: "deps 60 = 5 / 10 ^ 60"
  by (simp add: deps_def power_int_minus_divide power_int_numeral)

text \<open>C9: a size is the strategy's own decision on a feasible lot count, and the feasible range it reports is
  exact: with monotone roots, the reported maximum is the greatest lot count of the limits at which the
  strategy enters, every lot count from the minimum up to it enters, the chosen one among them, at its own
  quote, with a finite positive expected profit.\<close>

theorem size_is_feasible_and_maximal:
  assumes "size_position nm x = Inr r" "sr_estimate r = Some e"
    and "market_ok (sc_market x)" "curve_ok (sc_curve x)" "numerics_ok nm"
  shows "\<exists>feasible lots. first_lot (sc_market x) (sc_curve x) \<le> lots \<and> lots \<le> feasible
      \<and> feasible \<le> last_lot (sc_market x) (sc_curve x)
    \<and> sr_quantity r = lot_quantity (sc_market x) lots \<and> lot_quote nm x lots = Inr (e, sr_decision r)
    \<and> de_action (sr_decision r) = ''enter''
    \<and> sr_max_fraction r = Some (lot_fraction (sc_market x) feasible)
    \<and> (\<forall>k. first_lot (sc_market x) (sc_curve x) \<le> k \<and> k \<le> feasible \<longrightarrow> lot_gate nm x k = Inr True)
    \<and> (\<forall>k. feasible < k \<and> k \<le> last_lot (sc_market x) (sc_curve x) \<longrightarrow> lot_gate nm x k \<noteq> Inr True)
    \<and> is_fin (sr_profit r) \<and> flt (Fin 0) (sr_profit r)"
proof (rule size_positionE [OF assms(1,2)])
  fix feasible lots
  let ?first = "first_lot (sc_market x) (sc_curve x)" and ?last = "last_lot (sc_market x) (sc_curve x)"
  assume fl: "?first \<le> ?last" and g: "lot_gate nm x ?first = Inr True"
    and b: "bisect_gate (lot_gate nm x) ?first ?last = Inr feasible" and l: "?first \<le> lots" "lots \<le> feasible" "feasible \<le> ?last"
    and q: "lot_quote nm x lots = Inr (e, sr_decision r)" "sr_quantity r = lot_quantity (sc_market x) lots"
    and m: "sr_max_fraction r = Some (lot_fraction (sc_market x) feasible)" and p: "is_fin (sr_profit r)" "\<not> fle (sr_profit r) (Fin 0)"
  have sg: "sized_gate nm x = lot_gate nm x" using assms(3-5) g by (simp add: sized_gate_def)
  note gr = lots.bisect_greatest [of nm x ?first ?last feasible, unfolded sg, OF b order_refl fl g]
  have low: "lot_gate nm x k = Inr True" if "?first \<le> k" "k \<le> feasible" for k
    using lots.down [of nm x feasible k, unfolded sg] gr that by blast
  have act: "de_action (sr_decision r) = ''enter''"
    using low [OF l(1,2)] q(1) by (simp add: lot_gate_def)
  have "flt (Fin 0) (sr_profit r)" using p by (cases "sr_profit r") auto
  then show ?thesis using l q m p(1) gr low act by blast
qed

lemma size_is_feasible_and_maximal_witness:
  "de_action (sr_decision example_size) = ''enter'' \<and> flt (Fin 0) (sr_profit example_size)"
  using size_is_feasible_and_maximal [OF example_size_position, of "lot_estimate example_numerics example_context 4"]
    example_market_ok example_size_curve_ok example_numerics_ok
  by (simp add: example_context_def example_size_def) blast

text \<open>the size respects every limit of its inputs: up to two 60-digit roundings, the quantity is
  at least the minimum size and at most the supported impact range, the validated depth, the share of
  daily volume and the maximum notional, and it is the rounded multiple of the quantity step.\<close>

theorem size_within_limits:
  assumes "size_position nm x = Inr r" "sr_estimate r = Some e" "market_ok (sc_market x)"
  shows "\<exists>lots. 1 \<le> lots \<and> sr_quantity r = lot_quantity (sc_market x) lots
    \<and> (1 - 11 / 10 ^ 60) * lower_limit (sc_market x) (sc_curve x) \<le> sr_quantity r
    \<and> (\<forall>(name, bound) \<in> set (sizing_limits (sc_market x) (sc_curve x)). sr_quantity r \<le> (1 + 11 / 10 ^ 60) * bound)"
proof (rule size_positionE [OF assms(1,2)])
  fix feasible lots
  define s where "s = dec_of (si_step (sc_market x))"
  define lo where "lo = lower_limit (sc_market x) (sc_curve x)"
  define up where "up = upper_limit (sc_market x) (sc_curve x)"
  assume l: "first_lot (sc_market x) (sc_curve x) \<le> lots" "lots \<le> feasible" "feasible \<le> last_lot (sc_market x) (sc_curve x)"
    and q: "sr_quantity r = lot_quantity (sc_market x) lots"
  have s: "0 < s" unfolding s_def by (rule market_positive [OF assms(3)])
  have lots1: "1 \<le> lots" and lots: "d60 (lo / s) \<le> of_int lots" "of_int lots \<le> d60 (up / s)"
    using l by (auto simp: first_lot_def last_lot_def s_def lo_def up_def ceiling_le_iff le_floor_iff)
  have q1: "sr_quantity r = d60 (s * of_int lots)" by (simp add: q lot_quantity_def s_def)
  have pos: "0 < d60 (up / s)" using lots(2) lots1 by (meson less_le_trans of_int_1_le_iff zero_less_one)
  then have up: "0 < up / s" by simp
  have small: "(1 + deps 60) * (1 + deps 60) \<le> 1 + 11 / 10 ^ 60" "1 - 11 / 10 ^ 60 \<le> (1 - deps 60) * (1 - deps 60)"
    unfolding deps60 by simp_all
  have "s * of_int lots \<le> s * ((1 + deps 60) * (up / s))"
    using s lots(2) d60.rd_upper [of "up / s"] up by (intro mult_left_mono) auto
  also have "\<dots> = (1 + deps 60) * up" using s by simp
  finally have a: "s * of_int lots \<le> (1 + deps 60) * up" .
  have nn: "0 \<le> s * of_int lots" using s lots1 by simp
  have up0: "0 \<le> up" using up s by (simp add: zero_less_divide_iff)
  have dp: "0 \<le> deps 60" "deps 60 \<le> 1" by (simp_all add: deps60)
  have "sr_quantity r \<le> (1 + deps 60) * (s * of_int lots)" unfolding q1 by (rule d60.rd_upper [OF nn])
  also have "\<dots> \<le> (1 + deps 60) * ((1 + deps 60) * up)" using a dp by (intro mult_left_mono) auto
  also have "\<dots> \<le> (1 + 11 / 10 ^ 60) * up"
    unfolding mult.assoc [symmetric] using small(1) up0 by (rule mult_right_mono)
  finally have hi: "sr_quantity r \<le> (1 + 11 / 10 ^ 60) * up" .
  have each: "up \<le> bound" if "(name, bound) \<in> set (sizing_limits (sc_market x) (sc_curve x))" for name bound
    using that by (auto simp: up_def upper_limit_def sizing_limits_def Let_def)
  have "(1 - 11 / 10 ^ 60) * lo \<le> sr_quantity r"
  proof (cases "0 \<le> lo")
    case True
    have "(1 - deps 60) * (lo / s) \<le> of_int lots"
      using lots(1) d60.rd_lower [of "lo / s"] True s by simp
    then have "s * ((1 - deps 60) * (lo / s)) \<le> s * of_int lots" using s by (intro mult_left_mono) auto
    then have b: "(1 - deps 60) * lo \<le> s * of_int lots" using s by simp
    have "(1 - 11 / 10 ^ 60) * lo \<le> (1 - deps 60) * (1 - deps 60) * lo" using small(2) True by (rule mult_right_mono)
    also have "\<dots> \<le> (1 - deps 60) * (s * of_int lots)"
      unfolding mult.assoc using b dp by (intro mult_left_mono) auto
    also have "\<dots> \<le> sr_quantity r" unfolding q1 by (rule d60.rd_lower [OF nn])
    finally show ?thesis .
  next
    case False
    have "(1 - 11 / 10 ^ 60) * lo \<le> 0" using False by (intro mult_nonneg_nonpos) auto
    also have "0 \<le> sr_quantity r" unfolding q1 using nn by (rule d60.rd_nonneg)
    finally show ?thesis .
  qed
  moreover have "sr_quantity r \<le> (1 + 11 / 10 ^ 60) * bound"
    if "(name, bound) \<in> set (sizing_limits (sc_market x) (sc_curve x))" for name bound
  proof -
    have "(1 + 11 / 10 ^ 60) * up \<le> (1 + 11 / 10 ^ 60) * bound" using each [OF that] by (intro mult_left_mono) auto
    then show ?thesis using hi by (rule order_trans [rotated])
  qed
  ultimately show ?thesis using lots1 q unfolding lo_def by blast
qed

lemma size_within_limits_witness:
  "(1 - 11 / 10 ^ 60) * lower_limit example_market example_size_curve \<le> sr_quantity example_size"
proof -
  have x: "sc_market example_context = example_market" "sc_curve example_context = example_size_curve"
    "sr_estimate example_size = Some (lot_estimate example_numerics example_context 4)"
    by (simp_all add: example_context_def example_size_def)
  show ?thesis
    using size_within_limits [OF example_size_position x(3)] example_market_ok unfolding x by blast
qed

text \<open>sizing never half-succeeds: whatever it returns is either a sized entry or an explicit wait
  with zero quantity, notional and profit and no estimate.\<close>

theorem sized_or_waiting:
  assumes "size_position nm x = Inr r" "market_ok (sc_market x)"
  shows "if sr_estimate r = None then de_action (sr_decision r) = ''wait'' \<and> r = no_size (sr_decision r)
         else 0 < sr_quantity r"
proof (cases "sr_estimate r")
  case None
  have wait: "de_action d = ''wait''"
    if "lot_quote nm x n = Inr (e, d)" "de_action d \<noteq> ''enter''" for n e d
    using that assess_blocked [of "nm_mean nm" "sy_symbol (sc_strategy x)" "sy_policy (sc_strategy x)" "sc_now x"
        "sc_forecast x" "Some e" "sc_approval x" None "pl_horizon (sy_policy (sc_strategy x))"]
    by (auto simp: lot_quote_def bnd_eq_Inr decide_def)
  have fin: "finish_size nm x edge c mf f b = Inr r \<Longrightarrow> r = no_size (plain ''wait'' ''nonpositive_expected_profit'')" for edge c mf f b
    using None by (cases b) (auto simp: finish_size_def Let_def bnd_eq_Inr split: if_splits prod.splits)
  have choose: "choose_size nm x a f = Inr r \<Longrightarrow> \<exists>reason. r = no_size (plain ''wait'' reason)" for a f
    by (auto simp: choose_size_def Let_def bnd_eq_Inr split: option.splits if_splits dest!: fin)
  have "\<exists>d. r = no_size d \<and> de_action d = ''wait''"
    using assms(1) wait choose
    by (fastforce simp: size_position_def Let_def bnd_eq_Inr plain_def split: if_splits prod.splits)
  then show ?thesis using None by (auto simp: no_size_def)
next
  case (Some e)
  have "0 < sr_quantity r"
  proof (rule size_positionE [OF assms(1) Some])
    fix feasible lots
    assume "first_lot (sc_market x) (sc_curve x) \<le> lots" "sr_quantity r = lot_quantity (sc_market x) lots"
    then show ?thesis
      using market_positive(1) [OF assms(2)] by (simp add: lot_quantity_def first_lot_def zero_less_mult_iff)
  qed
  then show ?thesis using Some by auto
qed

lemma sized_or_waiting_witness: "0 < sr_quantity example_size"
  using sized_or_waiting [OF example_size_position] example_market_ok by (simp add: example_size_def example_context_def)

end
