(* ===== verification/Execution.thy ===== *)
theory Execution
  imports SizingProps Accounting
begin

text \<open>
  \<open>strategy/execution.py\<close> and the market events it fills: inferred fills from the admitted impact curve,
  and fills read off a counterfactual walk of a book checkpoint. The C++ core that walks the book and
  the checkpoint provider are parameters. Both executors meet one contract, on which the runner rests.
\<close>

section \<open>Market events\<close>

record opportunity =
  op_fold_start :: int
  op_curve :: impact_curve
  op_approval :: "approval option"
  op_market :: sizing_inputs
  op_half_spread :: pynum
  op_spot_bps :: pynum
  op_financing :: pynum

definition mk_opportunity :: "opportunity \<Rightarrow> opportunity res" where
  "mk_opportunity o' =
     bnd (mk_charges \<lparr>ch_entry_half_spread = op_half_spread o', ch_close_half_spread = op_half_spread o',
            ch_entry_fee = Fin 0, ch_close_fee = Fin 0, ch_hedge_entry = op_spot_bps o',
            ch_hedge_close = op_spot_bps o', ch_financing = op_financing o'\<rparr>) (\<lambda>_. Inr o')"

record market_event =
  me_id :: string
  me_time :: int
  me_spot_mid :: pynum
  me_perp_mid :: pynum
  me_marks :: marks
  me_opportunity :: "opportunity option"
  me_decide :: bool
  me_financing :: pynum

definition market_name :: "market \<Rightarrow> string" where
  "market_name m = (case m of Spot \<Rightarrow> ''spot'' | Perp \<Rightarrow> ''perp'')"

definition mid_of :: "market_event \<Rightarrow> market \<Rightarrow> pynum" where
  "mid_of e m = (case m of Spot \<Rightarrow> me_spot_mid e | Perp \<Rightarrow> me_perp_mid e)"

definition make_fill :: "market_event \<Rightarrow> market \<Rightarrow> rat \<Rightarrow> pynum \<Rightarrow> fill" where
  "make_fill e m quantity price =
     \<lparr>fl_event_id = me_id e @ '':'' @ market_name m, fl_symbol = mk_symbol (me_marks e),
      fl_time_ms = me_time e, fl_market = m, fl_quantity = Fin quantity, fl_price = price,
      fl_reference_mid = mid_of e m\<rparr>"

section \<open>Inferred execution\<close>

definition inferred_refused :: "market_event \<Rightarrow> opportunity \<Rightarrow> rat \<Rightarrow> bool" where
  "inferred_refused e o' quantity \<longleftrightarrow>
     (let curve = op_curve o'; market = op_market o';
          fraction = float_of_dec (d60 (quantity / dec_str (si_adv_base market))) in
      ic_symbol curve \<noteq> mk_symbol (me_marks e) \<or> me_time e < ic_admitted_at curve
      \<or> me_time e < ic_evidence_end curve \<or> me_time e < si_observed_at market
      \<or> si_valid_until market \<le> me_time e
      \<or> \<not> (fle (ic_size_min curve) fraction \<and> fle fraction (ic_size_max curve))
      \<or> flt (si_validated market) (float_of_dec quantity))"

definition perp_execution :: "opportunity \<Rightarrow> rat \<Rightarrow> bool \<Rightarrow> rat" where
  "perp_execution o' quantity opening =
     (let coefficient = (if opening then ic_sell (op_curve o') else ic_buy (op_curve o'));
          size = d60 (quantity / dec_str (si_adv_base (op_market o')))
      in d60 (d60 (d60 (dec_str coefficient * dec_sqrt60 size) / 10000) + d60 (dec_str (op_half_spread o') / 10000)))"

definition spot_execution :: "opportunity \<Rightarrow> rat" where
  "spot_execution o' = d60 (dec_str (op_spot_bps o') / 10000)"

definition inferred_fills :: "market_event \<Rightarrow> rat \<Rightarrow> bool \<Rightarrow> fill list res" where
  "inferred_fills e quantity opening =
     (case me_opportunity e of
        None \<Rightarrow> Inl (ExecutionUnavailable ''Missing impact inputs for inferred execution'')
      | Some o' \<Rightarrow>
          if inferred_refused e o' quantity
          then Inl (ExecutionUnavailable ''Unsupported quantity or unavailable inferred execution inputs'')
          else let direction = (if opening then 1 else - 1) :: rat;
                   spot = dec_of (me_spot_mid e); perp = dec_of (me_perp_mid e) in
               Inr [make_fill e Spot (d60 (direction * quantity))
                      (Fin (d60 (spot * d60 (1 + d60 (direction * spot_execution o'))))),
                    make_fill e Perp (d60 (- direction * quantity))
                      (Fin (d60 (perp * d60 (1 - d60 (direction * perp_execution o' quantity opening)))))])"

section \<open>Execution on a book checkpoint\<close>

text \<open>\<open>math.isclose\<close> with an absolute tolerance of zero.\<close>

definition isclose :: "pynum \<Rightarrow> pynum \<Rightarrow> pynum \<Rightarrow> bool" where
  "isclose rel a b \<longleftrightarrow>
     feq a b \<or> is_fin a \<and> is_fin b
       \<and> (let diff = fabs (fsub b a) in fle diff (fabs (fmul rel b)) \<or> fle diff (fabs (fmul rel a)) \<or> fle diff (Fin 0))"

record walk_result =
  wr_exhausted :: bool
  wr_crossed :: bool
  wr_beyond :: bool
  wr_filled :: pynum
  wr_mid :: pynum
  wr_average :: pynum

record 'book snapshot =
  sn_symbol :: string
  sn_time :: int
  sn_book :: 'book

definition dec_val :: "pynum \<Rightarrow> pynum" where \<comment> \<open>\<open>Decimal(str(x))\<close>\<close>
  "dec_val v = (case v of Fin r \<Rightarrow> Fin (repr_dec r) | _ \<Rightarrow> v)"

definition walk_refused :: "walk_result \<Rightarrow> rat \<Rightarrow> pynum \<Rightarrow> bool" where
  "walk_refused w quantity mid \<longleftrightarrow>
     wr_exhausted w \<or> wr_crossed w \<or> wr_beyond w
     \<or> \<not> isclose (fl (1 / 10 ^ 12)) (wr_filled w) (float_of_dec quantity)
     \<or> \<not> feq (dec_val (wr_mid w)) mid"

definition book_fill :: "(int \<Rightarrow> market \<Rightarrow> 'book snapshot res) \<Rightarrow> ('book \<Rightarrow> bool \<Rightarrow> pynum \<Rightarrow> walk_result res)
    \<Rightarrow> market_event \<Rightarrow> rat \<Rightarrow> market \<times> int \<Rightarrow> fill res" where
  "book_fill provider simulate e quantity = (\<lambda>(m, sign).
     bnd (provider (me_time e) m) (\<lambda>snapshot.
     bnd (guard (sn_symbol snapshot \<noteq> mk_symbol (me_marks e) \<or> sn_time snapshot \<noteq> me_time e)
            (ExecutionUnavailable ''Book checkpoint time/symbol does not match execution'')) (\<lambda>_.
     bnd (simulate (sn_book snapshot) (0 < sign) (float_of_dec quantity)) (\<lambda>w.
     bnd (guard (walk_refused w quantity (mid_of e m))
            (ExecutionUnavailable ''Invalid, partial or unvalidated book execution'')) (\<lambda>_.
       Inr (make_fill e m (d60 (of_int sign * quantity)) (dec_val (wr_average w))))))))"

definition book_fills :: "(int \<Rightarrow> market \<Rightarrow> 'book snapshot res) \<Rightarrow> ('book \<Rightarrow> bool \<Rightarrow> pynum \<Rightarrow> walk_result res)
    \<Rightarrow> market_event \<Rightarrow> rat \<Rightarrow> bool \<Rightarrow> fill list res" where
  "book_fills provider simulate e quantity opening =
     map_res (book_fill provider simulate e quantity)
       [(Spot, if opening then 1 else - 1), (Perp, if opening then - 1 else 1)]"

section \<open>The contract of an executor\<close>

text \<open>Full paired fills at the event, on its reference mids: what the runner checks before it trades.\<close>

definition fill_scope :: "fill \<Rightarrow> market \<times> pynum \<times> int \<times> string \<times> pynum" where
  "fill_scope f = (fl_market f, fl_quantity f, fl_time_ms f, fl_symbol f, fl_reference_mid f)"

definition paired :: "market_event \<Rightarrow> string \<Rightarrow> rat \<Rightarrow> bool \<Rightarrow> fill list \<Rightarrow> bool" where
  "paired e symbol quantity opening fills \<longleftrightarrow>
     map fill_scope fills =
       [(Spot, Fin (if opening then quantity else d60 (- quantity)), me_time e, symbol, me_spot_mid e),
        (Perp, Fin (if opening then d60 (- quantity) else quantity), me_time e, symbol, me_perp_mid e)]"

locale executor_contract =
  fixes fills :: "market_event \<Rightarrow> rat \<Rightarrow> bool \<Rightarrow> fill list res"
  assumes proposes_pairs: "d60 q = q \<Longrightarrow> fills e q opening = Inr fs \<Longrightarrow> paired e (mk_symbol (me_marks e)) q opening fs"
begin

lemma two_fills: "d60 q = q \<Longrightarrow> fills e q opening = Inr fs \<Longrightarrow> length fs = 2"
  by (auto dest!: proposes_pairs simp: paired_def map_eq_Cons_conv)

lemma opposite_legs:
  assumes "d60 q = q" "fills e q opening = Inr fs"
  shows "fl_quantity (fs ! 0) = fneg (fl_quantity (fs ! 1))"
  using proposes_pairs [OF assms] assms(1) by (auto simp: paired_def fill_scope_def)

lemma at_the_event:
  assumes "d60 q = q" "fills e q opening = Inr fs" "f \<in> set fs"
  shows "fl_time_ms f = me_time e" "fl_symbol f = mk_symbol (me_marks e)"
    "fl_reference_mid f = mid_of e (fl_market f)"
  using proposes_pairs [OF assms(1,2)] assms(3)
  by (auto simp: paired_def fill_scope_def map_eq_Cons_conv mid_of_def)

end

interpretation inferred: executor_contract inferred_fills
  by unfold_locales
    (auto simp: inferred_fills_def paired_def fill_scope_def make_fill_def mid_of_def Let_def
      split: option.splits if_splits)

lemma book_fill_scope:
  assumes "book_fill provider simulate e quantity (m, sign) = Inr f"
  shows "fill_scope f = (m, Fin (d60 (of_int sign * quantity)), me_time e, mk_symbol (me_marks e), mid_of e m)"
  using assms by (auto simp: book_fill_def res_simps fill_scope_def make_fill_def)

interpretation book: executor_contract "book_fills provider simulate"
  by unfold_locales
    (auto simp: book_fills_def paired_def res_simps mid_of_def dest!: book_fill_scope)

section \<open>Inferred prices are adverse\<close>

text \<open>The floats an opportunity carries are binary64 values (in the source, by their type).\<close>

definition float_fields :: "opportunity \<Rightarrow> bool" where
  "float_fields o' \<longleftrightarrow>
     list_all (\<lambda>v. \<forall>r. v = Fin r \<longrightarrow> fl r = Fin r) [ic_sell (op_curve o'), ic_buy (op_curve o'), op_half_spread o', op_spot_bps o']"

lemma dec_str_nonneg:
  assumes "\<forall>r. v = Fin r \<longrightarrow> fl r = Fin r" "\<not> flt v (Fin 0)"
  shows "0 \<le> dec_str v"
  using assms by (cases v) (auto intro: repr_dec_nonneg)

lemma mk_opportunity_parts:
  assumes "mk_opportunity o' = Inr o''"
  shows "o'' = o'" "is_fin (op_half_spread o')" "\<not> flt (op_half_spread o') (Fin 0)"
    "is_fin (op_spot_bps o')" "\<not> flt (op_spot_bps o') (Fin 0)" "is_fin (op_financing o')" "\<not> flt (op_financing o') (Fin 0)"
proof -
  show "o'' = o'" "is_fin (op_half_spread o')" "\<not> flt (op_half_spread o') (Fin 0)"
    "is_fin (op_spot_bps o')" "\<not> flt (op_spot_bps o') (Fin 0)" "is_fin (op_financing o')" "\<not> flt (op_financing o') (Fin 0)"
    using assms unfolding mk_opportunity_def mk_charges_def bnd_eq_Inr number_Inr by auto
qed

lemma execution_nonneg:
  assumes "float_fields o'" "curve_ok (op_curve o')" "mk_opportunity o' = Inr o'"
  shows "0 \<le> spot_execution o'" "0 \<le> perp_execution o' q opening"
proof -
  note parts = mk_opportunity_parts [OF assms(3)]
  have c: "\<not> flt (ic_sell (op_curve o')) (Fin 0)" "\<not> flt (ic_buy (op_curve o')) (Fin 0)"
    using assms(2) by (auto simp: curve_ok_def dest: fle_not_flt)
  have n: "0 \<le> dec_str (ic_sell (op_curve o'))" "0 \<le> dec_str (ic_buy (op_curve o'))"
    "0 \<le> dec_str (op_half_spread o')" "0 \<le> dec_str (op_spot_bps o')"
    using assms(1) c parts by (auto simp: float_fields_def intro!: dec_str_nonneg)
  show "0 \<le> spot_execution o'"
    using n by (auto simp: spot_execution_def intro: d60.rd_nonneg)
  have r: "0 \<le> dec_sqrt60 x" for x by (simp add: dec_sqrt60_def sqrt_digits_nonneg)
  show "0 \<le> perp_execution o' q opening"
    unfolding perp_execution_def Let_def
    by (intro d60.rd_nonneg add_nonneg_nonneg divide_nonneg_pos mult_nonneg_nonneg)
      (use n r in auto)
qed

lemma price_up: "0 \<le> f \<Longrightarrow> 0 \<le> mid \<Longrightarrow> d60 mid \<le> d60 (mid * d60 (1 + d60 f))"
proof -
  assume f: "0 \<le> f" and mid: "0 \<le> mid"
  have one: "d60 1 = 1" by (simp add: short_eval)
  have "1 \<le> d60 (1 + d60 f)" by (rule d60.rd_ge_fixed [OF _ one]) (simp add: d60.rd_nonneg f)
  then have "mid * 1 \<le> mid * d60 (1 + d60 f)" using mid by (rule mult_left_mono)
  then show ?thesis by (simp add: d60.rd_mono)
qed

lemma price_down: "0 \<le> f \<Longrightarrow> 0 \<le> mid \<Longrightarrow> d60 (mid * d60 (1 + d60 (- f))) \<le> d60 mid"
proof -
  assume f: "0 \<le> f" and mid: "0 \<le> mid"
  have one: "d60 1 = 1" by (simp add: short_eval)
  have "d60 (1 + d60 (- f)) \<le> 1" by (rule d60.rd_le_fixed [OF _ one]) (simp add: d60.rd_nonneg f)
  then have "mid * d60 (1 + d60 (- f)) \<le> mid * 1" using mid by (rule mult_left_mono)
  then show ?thesis by (simp add: d60.rd_mono)
qed

lemma inferred_price_cases:
  assumes "inferred_fills e q opening = Inr fs" "me_opportunity e = Some o'"
  obtains "fs = [make_fill e Spot (d60 (if opening then q else - q))
      (Fin (d60 (dec_of (me_spot_mid e) * d60 (1 + d60 (if opening then spot_execution o' else - spot_execution o'))))),
    make_fill e Perp (d60 (if opening then - q else q))
      (Fin (d60 (dec_of (me_perp_mid e) * d60 (1 + d60 (if opening then - perp_execution o' q opening else perp_execution o' q opening)))))]"
    "\<not> inferred_refused e o' q"
  using assms by (auto simp: inferred_fills_def Let_def split: if_splits)

text \<open>C11: an inferred execution never trades through its own mid: it proposes the full quantity on both legs
  with opposite signs, buying at or above and selling at or below the mid of the event (rounded to the
  context's 60 digits), and only for a quantity inside the admitted size range and validated depth.\<close>

theorem inferred_fills_are_adverse:
  assumes "inferred_fills e q opening = Inr fs" "me_opportunity e = Some o'" "d60 q = q"
    and "float_fields o'" "curve_ok (op_curve o')" "mk_opportunity o' = Inr o'"
    and "me_spot_mid e = Fin s" "0 \<le> s" "me_perp_mid e = Fin p" "0 \<le> p"
  shows "\<exists>spot perp sp pp. fs = [spot, perp] \<and> fl_price spot = Fin sp \<and> fl_price perp = Fin pp
    \<and> fl_quantity spot = Fin (if opening then q else - q) \<and> fl_quantity perp = fneg (fl_quantity spot)
    \<and> (if opening then d60 s \<le> sp \<and> pp \<le> d60 p else sp \<le> d60 s \<and> d60 p \<le> pp)
    \<and> fle (ic_size_min (op_curve o')) (float_of_dec (d60 (q / dec_str (si_adv_base (op_market o')))))
    \<and> fle (float_of_dec (d60 (q / dec_str (si_adv_base (op_market o'))))) (ic_size_max (op_curve o'))
    \<and> \<not> flt (si_validated (op_market o')) (float_of_dec q)"
proof (rule inferred_price_cases [OF assms(1,2)])
  let ?x = "spot_execution o'" and ?y = "perp_execution o' q opening"
  assume fs: "fs = [make_fill e Spot (d60 (if opening then q else - q))
      (Fin (d60 (dec_of (me_spot_mid e) * d60 (1 + d60 (if opening then ?x else - ?x))))),
    make_fill e Perp (d60 (if opening then - q else q))
      (Fin (d60 (dec_of (me_perp_mid e) * d60 (1 + d60 (if opening then - ?y else ?y)))))]"
    and ok: "\<not> inferred_refused e o' q"
  note nn = execution_nonneg [OF assms(4-6)]
  have a: "d60 s \<le> d60 (s * d60 (1 + d60 ?x))" "d60 (s * d60 (1 + d60 (- ?x))) \<le> d60 s"
    "d60 p \<le> d60 (p * d60 (1 + d60 ?y))" "d60 (p * d60 (1 + d60 (- ?y))) \<le> d60 p"
    using price_up price_down nn assms(8,10) by blast+
  show ?thesis
    using a ok assms(3,7,9) unfolding fs inferred_refused_def Let_def
    by (cases "opening") (simp_all add: make_fill_def)
qed

definition example_opportunity :: opportunity where
  "example_opportunity = \<lparr>op_fold_start = 2678400000, op_curve = example_size_curve, op_approval = sc_approval example_context,
     op_market = example_market, op_half_spread = Fin 0, op_spot_bps = Fin 0, op_financing = Fin 0\<rparr>"

definition example_market_event :: market_event where
  "example_market_event = \<lparr>me_id = ''m'', me_time = 2678416000, me_spot_mid = Fin 1, me_perp_mid = Fin 1,
     me_marks = \<lparr>mk_symbol = ''BTCUSDT'', mk_time_ms = 2678416000, mk_spot = Fin 1, mk_perp = Fin 1\<rparr>,
     me_opportunity = Some example_opportunity, me_decide = True, me_financing = Fin 0\<rparr>"

lemma example_opportunity_ok: "mk_opportunity example_opportunity = Inr example_opportunity" "float_fields example_opportunity"
  by (simp_all add: mk_opportunity_def mk_charges_def number_def fixed_fraction_def bps_def fabs_def fsub_def
      example_opportunity_def float_fields_def example_size_curve_def short_float)

lemma inferred_fills_are_adverse_witness:
  "\<exists>spot perp sp pp. inferred_fills example_market_event 1 True = Inr [spot, perp]
    \<and> fl_price spot = Fin sp \<and> fl_price perp = Fin pp \<and> 1 \<le> sp \<and> pp \<le> 1"
proof -
  have ok: "\<not> inferred_refused example_market_event example_opportunity 1"
    by (simp add: inferred_refused_def Let_def example_market_event_def example_opportunity_def example_size_curve_def
        example_market_def example_repr float_of_dec_def short_eval short_float)
  have o': "me_opportunity example_market_event = Some example_opportunity"
    by (simp add: example_market_event_def)
  obtain fs where fs: "inferred_fills example_market_event 1 True = Inr fs"
    using ok by (simp add: inferred_fills_def Let_def o')
  have one: "d60 1 = 1" by (simp add: short_eval)
  have mids: "me_spot_mid example_market_event = Fin 1" "me_perp_mid example_market_event = Fin 1"
    by (simp_all add: example_market_event_def)
  have c: "curve_ok (op_curve example_opportunity)" by (simp add: example_opportunity_def example_size_curve_ok)
  show ?thesis
    using inferred_fills_are_adverse [OF fs o' one example_opportunity_ok(2) c example_opportunity_ok(1) mids(1) _ mids(2)] fs
    by (simp add: one) blast
qed

end
