(* ===== verification/WalkForward.thy ===== *)
theory WalkForward
  imports Execution
begin

text \<open>
  \<open>strategy/walk_forward.py\<close>: the lazy chronological runner. Its state is the record \<open>runner\<close>; every
  method of \<open>_Runner\<close> is a function of the environment and the state, in the 60-digit context
  \<open>iter_backtest\<close> opens for each event (the ledger opens its own of 50 digits). The executor, the random
  draws, numpy, the model digest and the SHA-256 seed of a forecast are parameters of the environment.
\<close>

section \<open>Configuration and events\<close>

record run_config =
  cg_symbol :: string
  cg_warmup :: int
  cg_start :: int
  cg_end :: int
  cg_capital :: pynum
  cg_collateral :: pynum
  cg_policy :: policy
  cg_mode :: string
  cg_seed :: int
  cg_draws :: int
  cg_days :: int
  cg_min :: int
  cg_interval :: int
  cg_prior :: prior
  cg_impact_days :: int
  cg_delay :: int

definition config_scope :: "run_config \<Rightarrow> rat \<Rightarrow> unit res" where
  "config_scope c collateral =
     (let bad = ValueError ''Invalid run scope, monthly boundaries, capital or execution policy'' in
      bnd (guard (cg_symbol c \<notin> {''BTCUSDT'', ''SOLUSDT''} \<or> \<not> (cg_warmup c < cg_start c \<and> cg_start c < cg_end c)) bad) (\<lambda>_.
      bnd (fold_start (cg_start c)) (\<lambda>first.
      bnd (guard (cg_start c \<noteq> first) bad) (\<lambda>_.
      bnd (fold_start (cg_end c)) (\<lambda>last.
        guard (cg_end c \<noteq> last \<or> 24 < cg_interval c \<or> 24 mod cg_interval c \<noteq> 0
               \<or> cg_interval c * hour_ms - settlement_guard_ms \<le> cg_delay c
               \<or> cg_warmup c mod (cg_interval c * hour_ms) \<noteq> 0 \<or> 1 < collateral
               \<or> cg_mode c \<notin> {''inferred'', ''book''}) bad)))))"

definition mk_run_config :: "run_config \<Rightarrow> run_config res" where
  "mk_run_config c =
     bnd (integer (cg_warmup c) ''warmup_start_ms'' 0) (\<lambda>_.
     bnd (integer (cg_start c) ''start_ms'' 0) (\<lambda>_.
     bnd (integer (cg_end c) ''end_ms'' 0) (\<lambda>_.
     bnd (integer (cg_seed c) ''seed'' 0) (\<lambda>_.
     bnd (integer (cg_draws c) ''draws'' 2) (\<lambda>_.
     bnd (integer (cg_days c) ''rolling_days'' 1) (\<lambda>_.
     bnd (integer (cg_impact_days c) ''impact_rolling_days'' 1) (\<lambda>_.
     bnd (integer (cg_min c) ''min_settlements'' 3) (\<lambda>_.
     bnd (integer (cg_interval c) ''interval_hours'' 1) (\<lambda>_.
     bnd (decimal (cg_capital c) ''initial_capital_usdt'' True) (\<lambda>_.
     bnd (decimal (cg_collateral c) ''collateral_fraction'' True) (\<lambda>collateral.
     bnd (integer (cg_delay c) ''decision_delay_ms'' (settlement_guard_ms + 1)) (\<lambda>_.
     bnd (config_scope c collateral) (\<lambda>_. Inr c)))))))))))))"

record funding_event =
  fe_id :: string
  fe_time :: int
  fe_rate :: pynum
  fe_interval :: int
  fe_mark :: "pynum option"

datatype event = Funding funding_event | Market market_event

fun event_id :: "event \<Rightarrow> string" where
  "event_id (Funding e) = fe_id e"
| "event_id (Market e) = me_id e"

fun event_time :: "event \<Rightarrow> int" where
  "event_time (Funding e) = fe_time e"
| "event_time (Market e) = me_time e"

record study_record =
  rc_id :: string
  rc_time :: int
  rc_fold :: int
  rc_kind :: string
  rc_decision :: "decision option"
  rc_valuation :: "valuation option"
  rc_planned :: "int option"
  rc_held :: int
  rc_quantity :: rat
  rc_fraction :: "pynum option"
  rc_notional :: "rat option"
  rc_impact :: "string option"
  rc_approval :: "string option"
  rc_forecast :: "funding_forecast option"
  rc_mode :: string
  rc_cash :: rat
  rc_funding :: rat
  rc_admitted :: bool
  rc_sizing :: "sizing_result option"

section \<open>The runner\<close>

record env =
  en_config :: run_config
  en_fees :: fee_schedule
  en_mode :: string \<comment> \<open>\<open>executor.mode\<close>\<close>
  en_fills :: "market_event \<Rightarrow> rat \<Rightarrow> bool \<Rightarrow> fill list res"
  en_numpy :: numpy
  en_draws :: draws
  en_numerics :: numerics
  en_digest :: "rolling \<Rightarrow> string"
  en_seed :: "int \<Rightarrow> string \<Rightarrow> int \<Rightarrow> int" \<comment> \<open>four bytes of the SHA-256 of seed, symbol and time\<close>

record runner =
  rn_model :: rolling
  rn_ledger :: ledger
  rn_position :: "position option"
  rn_last_time :: int
  rn_next_obs :: int
  rn_ids :: "string set"
  rn_curves :: "int \<rightharpoonup> string"
  rn_next_decision :: int

definition mk_runner :: "env \<Rightarrow> runner res" where
  "mk_runner env =
     (let c = en_config env in
      bnd (guard (en_mode env \<noteq> cg_mode c) (ValueError ''Execution mode does not match configured backend'')) (\<lambda>_.
      bnd (mk_rolling (cg_days c) (cg_min c) (cg_prior c)) (\<lambda>model.
      bnd (guard (cg_symbol c = []) (ValueError ''symbol required'')) (\<lambda>_.
      bnd (ledger_start (cg_symbol c) (cg_capital c) (cg_start c) (en_fees env)) (\<lambda>ledger.
        Inr \<lparr>rn_model = model, rn_ledger = ledger, rn_position = None, rn_last_time = cg_warmup c,
              rn_next_obs = cg_warmup c, rn_ids = {}, rn_curves = Map.empty,
              rn_next_decision = cg_start c + cg_delay c\<rparr>)))))"

definition unrealized60 :: "leg \<Rightarrow> rat \<Rightarrow> rat" where \<comment> \<open>\<open>Leg.unrealized\<close> in the runner's context\<close>
  "unrealized60 l mark = d60 (d60 (lg_quantity l * mark) - lg_basis l)"

definition collateral_shortfall :: "env \<Rightarrow> ledger \<Rightarrow> rat \<Rightarrow> bool" where
  "collateral_shortfall env l mark \<longleftrightarrow>
     d60 (ld_cash l + unrealized60 (ld_perp l) mark)
       < d60 (d60 (d60 \<bar>lg_quantity (ld_perp l)\<bar> * mark) * dec_of (cg_collateral (en_config env)))"

definition reserve :: "env \<Rightarrow> runner \<Rightarrow> rat \<Rightarrow> unit res" where
  "reserve env s mark =
     guard (collateral_shortfall env (rn_ledger s) mark)
       (ExecutionUnavailable ''Collateral reserve shortfall; liquidation is not simulated'')"

definition admit_refused :: "env \<Rightarrow> market_event \<Rightarrow> opportunity \<Rightarrow> int \<Rightarrow> bool" where
  "admit_refused env e o' month \<longleftrightarrow>
     (let market = op_market o'; curve = op_curve o'; c = en_config env; t = me_time e in
      op_fold_start o' \<noteq> month \<or> op_fold_start o' < ic_evidence_end curve \<or> t < ic_admitted_at curve
      \<or> ic_symbol curve \<noteq> cg_symbol c \<or> (ic_kind curve = Synthetic \<and> \<not> pl_synthetic (cg_policy c))
      \<or> si_symbol market \<noteq> cg_symbol c \<or> t < si_observed_at market \<or> si_valid_until market \<le> t
      \<or> si_adv_end market \<noteq> t div day_ms * day_ms
      \<or> \<not> (si_meta_from market \<le> t \<and> t < si_meta_until market)
      \<or> \<not> feq (si_price market) (float_of_dec (dec_of (me_perp_mid e))))"

definition admit :: "env \<Rightarrow> runner \<Rightarrow> market_event \<Rightarrow> (opportunity option \<times> runner) res" where
  "admit env s e =
     (case me_opportunity e of
        None \<Rightarrow> Inr (None, s)
      | Some o' \<Rightarrow>
          bnd (fold_start (me_time e)) (\<lambda>month.
          if admit_refused env e o' month then Inr (None, s)
          else let artifact = ic_artifact (op_curve o');
                   previous = (case rn_curves s (op_fold_start o') of None \<Rightarrow> artifact | Some d \<Rightarrow> d) in
               bnd (guard (previous \<noteq> artifact)
                      (ValueError ''Impact artifact changed within a sealed monthly fold'')) (\<lambda>_.
                 Inr (Some o', s\<lparr>rn_curves := (rn_curves s)(op_fold_start o' \<mapsto> previous)\<rparr>))))"

definition event_charges :: "env \<Rightarrow> market_event \<Rightarrow> opportunity \<Rightarrow> charges res" where
  "event_charges env e o' =
     bnd (quote (en_fees env) (cg_symbol (en_config env)) Perp (me_time e)) (\<lambda>perp_rate.
     bnd (quote (en_fees env) (cg_symbol (en_config env)) Spot (me_time e)) (\<lambda>spot_rate.
     let perp_fee = fmul (float_of_dec perp_rate) (Fin 10000);
         spot_fee = fmul (float_of_dec spot_rate) (Fin 10000);
         hedge = fmul (fadd spot_fee (op_spot_bps o'))
                   (float_of_dec (d60 (dec_of (me_spot_mid e) / dec_of (me_perp_mid e)))) in
       mk_charges \<lparr>ch_entry_half_spread = op_half_spread o', ch_close_half_spread = op_half_spread o',
         ch_entry_fee = perp_fee, ch_close_fee = perp_fee, ch_hedge_entry = hedge, ch_hedge_close = hedge,
         ch_financing = op_financing o'\<rparr>))"

definition trade_admission :: "env \<Rightarrow> runner \<Rightarrow> market_event \<Rightarrow> runner res" where
  "trade_admission env s e =
     (if cg_mode (en_config env) = ''inferred''
      then bnd (admit env s e) (\<lambda>(admitted, s1).
           bnd (guard (admitted = None) (ExecutionUnavailable ''No admitted inferred exit execution'')) (\<lambda>_. Inr s1))
      else Inr s)"

definition trade :: "env \<Rightarrow> runner \<Rightarrow> market_event \<Rightarrow> rat \<Rightarrow> bool \<Rightarrow> (bool \<times> runner) res" where
  "trade env s e quantity opening =
     bnd (trade_admission env s e) (\<lambda>s1.
     bnd (en_fills env e quantity opening) (\<lambda>fills.
     bnd (guard (\<not> paired e (cg_symbol (en_config env)) quantity opening fills)
            (ExecutionUnavailable ''Executor must propose full paired fills at current time and reference mids'')) (\<lambda>_.
     bnd (fold_res ledger_fill (rn_ledger s1) fills) (\<lambda>proposed.
       if opening \<and> collateral_shortfall env proposed (dec_of (mk_perp (me_marks e))) then Inr (False, s1)
       else Inr (True, s1\<lparr>rn_ledger := proposed\<rparr>)))))"

section \<open>Entering and holding\<close>

text \<open>What a unit of base needs: spot cash and fees, collateral, the mark's premium and the perp's cost.\<close>

definition entry_unit :: "env \<Rightarrow> market_event \<Rightarrow> opportunity \<Rightarrow> rat \<Rightarrow> rat \<Rightarrow> rat \<Rightarrow> rat" where
  "entry_unit env e o' spot_fee perp_fee worst =
     (let spot_mid = dec_of (me_spot_mid e); perp_mid = dec_of (me_perp_mid e); mark = dec_of (mk_perp (me_marks e));
          u1 = d60 (d60 (spot_mid * d60 (1 + d60 (dec_str (op_spot_bps o') / 10000))) * d60 (1 + spot_fee));
          u2 = d60 (u1 + d60 (mark * dec_of (cg_collateral (en_config env))));
          u3 = d60 (u2 + max 0 (d60 (mark - perp_mid)))
      in d60 (u3 + d60 (perp_mid * d60 (d60 (worst / 10000) + perp_fee))))"

text \<open>An infinite worst impact leaves no capital; an undefined one fails its first comparison.\<close>

definition entry_cap :: "env \<Rightarrow> runner \<Rightarrow> market_event \<Rightarrow> opportunity \<Rightarrow> rat \<Rightarrow> rat \<Rightarrow> rat res" where
  "entry_cap env s e o' spot_fee perp_fee =
     (case fadd (fmul (ic_sell (op_curve o')) (nm_root (en_numerics env) (ic_size_max (op_curve o')))) (op_half_spread o') of
        Fin w \<Rightarrow> Inr (d60 (d60 (max 0 (ld_cash (rn_ledger s)) / entry_unit env e o' spot_fee perp_fee (repr_dec w))
                            * dec_of (me_perp_mid e)))
      | NaN \<Rightarrow> Inl (InvalidOperation ''comparison involving NaN'')
      | _ \<Rightarrow> Inr 0)"

definition entry_context :: "env \<Rightarrow> market_event \<Rightarrow> opportunity \<Rightarrow> funding_forecast option \<Rightarrow> sizing_inputs \<Rightarrow> charges
    \<Rightarrow> sizing_context" where
  "entry_context env e o' forecast market charges =
     \<lparr>sc_strategy = \<lparr>sy_symbol = cg_symbol (en_config env), sy_policy = cg_policy (en_config env)\<rparr>,
       sc_now = me_time e, sc_forecast = forecast, sc_approval = op_approval o', sc_market = market,
       sc_curve = op_curve o', sc_charges = charges\<rparr>"

definition open_position :: "env \<Rightarrow> runner \<Rightarrow> market_event \<Rightarrow> sizing_result \<Rightarrow> (decision \<times> runner) res" where
  "open_position env s e result =
     bnd (trade env s e (sr_quantity result) True) (\<lambda>(filled, s1).
       if filled
       then bnd (mk_position (cg_symbol (en_config env)) (float_of_dec (d60 (sr_quantity result * dec_of (me_perp_mid e))))
                   (me_time e) (pl_horizon (cg_policy (en_config env))) 0 (cg_interval (en_config env))) (\<lambda>p.
            Inr (sr_decision result, s1\<lparr>rn_position := Some p\<rparr>))
       else Inr (plain ''wait'' ''actual_fill_capital_unavailable'', s1))"

definition enter :: "env \<Rightarrow> runner \<Rightarrow> market_event \<Rightarrow> opportunity option \<Rightarrow> funding_forecast option
    \<Rightarrow> ((decision \<times> sizing_result option) \<times> runner) res" where
  "enter env s e opportunity forecast =
     (case opportunity of
        None \<Rightarrow> Inr ((plain ''wait'' ''market_evidence_unavailable'', None), s)
      | Some o' \<Rightarrow>
          bnd (event_charges env e o') (\<lambda>charges.
          bnd (quote (en_fees env) (cg_symbol (en_config env)) Spot (me_time e)) (\<lambda>spot_fee.
          bnd (quote (en_fees env) (cg_symbol (en_config env)) Perp (me_time e)) (\<lambda>perp_fee.
          bnd (entry_cap env s e o' spot_fee perp_fee) (\<lambda>cap.
          if cap \<le> 0 then Inr ((plain ''wait'' ''capital_unavailable'', None), s)
          else bnd (mk_sizing_inputs ((op_market o')
                      \<lparr>si_max_notional := fmin (si_max_notional (op_market o')) (float_of_dec cap)\<rparr>)) (\<lambda>market.
               bnd (size_position (en_numerics env) (entry_context env e o' forecast market charges)) (\<lambda>result.
               if de_action (sr_decision result) = ''enter''
               then bnd (open_position env s e result) (\<lambda>(d, s1). Inr ((d, Some result), s1))
               else Inr ((sr_decision result, Some result), s))))))))"

definition catch_impact :: "'a res \<Rightarrow> 'a option res" where \<comment> \<open>\<open>except ImpactModelError: estimate = None\<close>\<close>
  "catch_impact m = (case m of Inl (ImpactModelError _) \<Rightarrow> Inr None | Inl e \<Rightarrow> Inl e | Inr x \<Rightarrow> Inr (Some x))"

definition held_estimate :: "env \<Rightarrow> market_event \<Rightarrow> opportunity option \<Rightarrow> rat \<Rightarrow> pynum \<Rightarrow> int \<Rightarrow> cost_estimate option res" where
  "held_estimate env e opportunity quantity notional remaining =
     (case opportunity of
        None \<Rightarrow> Inr None
      | Some o' \<Rightarrow>
          if remaining \<le> 0 then Inr None
          else catch_impact
            (bnd (event_charges env e o') (\<lambda>c.
               from_curve (nm_root (en_numerics env)) (op_curve o') (me_time e)
                 \<lparr>ci_notional = notional,
                   ci_adv_fraction = float_of_dec (d60 (quantity / dec_str (si_adv_base (op_market o')))),
                   ci_horizon = remaining, ci_valid_until = si_valid_until (op_market o'),
                   ci_entry_half_spread = ch_entry_half_spread c, ci_close_half_spread = ch_close_half_spread c,
                   ci_entry_fee = ch_entry_fee c, ci_close_fee = ch_close_fee c,
                   ci_hedge_entry = ch_hedge_entry c, ci_hedge_close = ch_hedge_close c,
                   ci_financing = ch_financing c\<rparr>)))"

definition held :: "env \<Rightarrow> runner \<Rightarrow> position \<Rightarrow> market_event \<Rightarrow> opportunity option \<Rightarrow> funding_forecast option \<Rightarrow> int
    \<Rightarrow> (decision \<times> runner) res" where
  "held env s p e opportunity forecast remaining =
     (let quantity = d60 (- lg_quantity (ld_perp (rn_ledger s))) in
      bnd (mk_position (ps_symbol p) (float_of_dec (d60 (quantity * dec_of (me_perp_mid e)))) (ps_opened p)
             (ps_planned p) (ps_held p) (ps_interval p)) (\<lambda>marked.
      bnd (held_estimate env e opportunity quantity (ps_notional marked) remaining) (\<lambda>estimate.
      bnd (decide (nm_mean (en_numerics env)) (cg_symbol (en_config env)) (cg_policy (en_config env)) (me_time e)
             forecast estimate (Option.bind opportunity op_approval) (Some marked)) (\<lambda>d.
      if de_action d = ''exit''
      then bnd (trade env s e quantity False) (\<lambda>(_, s1). Inr (d, s1\<lparr>rn_position := None\<rparr>))
      else Inr (d, s)))))"

section \<open>Processing an event\<close>

definition record_body :: "env \<Rightarrow> runner \<Rightarrow> event \<Rightarrow> string \<Rightarrow> decision option \<Rightarrow> valuation option
    \<Rightarrow> funding_forecast option \<Rightarrow> sizing_result option \<Rightarrow> int \<Rightarrow> bool \<Rightarrow> study_record" where
  "record_body env s ev kind decision valuation forecast result month evidence =
     (let opportunity = (case ev of Market e \<Rightarrow> me_opportunity e | Funding _ \<Rightarrow> None);
          quantity = d60 (- lg_quantity (ld_perp (rn_ledger s))) in
      \<lparr>rc_id = event_id ev, rc_time = event_time ev, rc_fold = month, rc_kind = kind,
        rc_decision = decision, rc_valuation = valuation,
        rc_planned = map_option ps_planned (rn_position s),
        rc_held = (case rn_position s of None \<Rightarrow> 0 | Some p \<Rightarrow> ps_held p),
        rc_quantity = quantity,
        rc_fraction = map_option (\<lambda>o'. float_of_dec (d60 (quantity / dec_str (si_adv_base (op_market o'))))) opportunity,
        rc_notional = (case ev of Market e \<Rightarrow> Some (d60 (quantity * dec_of (me_perp_mid e))) | Funding _ \<Rightarrow> None),
        rc_impact = map_option (\<lambda>o'. ic_artifact (op_curve o')) opportunity,
        rc_approval = Option.bind opportunity (\<lambda>o'. map_option ap_evidence (op_approval o')),
        rc_forecast = forecast, rc_mode = cg_mode (en_config env),
        rc_cash = ld_cash (rn_ledger s), rc_funding = ld_funding (rn_ledger s),
        rc_admitted = evidence, rc_sizing = result\<rparr>)"

definition record_of :: "env \<Rightarrow> runner \<Rightarrow> event \<Rightarrow> string \<Rightarrow> decision option \<Rightarrow> valuation option \<Rightarrow> funding_forecast option
    \<Rightarrow> sizing_result option \<Rightarrow> (study_record option \<times> runner) res" where
  "record_of env s ev kind decision valuation forecast result =
     bnd (fold_start (event_time ev)) (\<lambda>month.
     bnd (case ev of Funding _ \<Rightarrow> Inr (None, s) | Market e \<Rightarrow> admit env s e) (\<lambda>(admitted, s1).
       Inr (Some (record_body env s ev kind decision valuation forecast result month (admitted \<noteq> None)), s1)))"

text \<open>A missing mark is refused by the ledger like any value that is not a finite decimal.\<close>

definition mark_value :: "pynum option \<Rightarrow> pynum" where
  "mark_value m = (case m of None \<Rightarrow> NaN | Some v \<Rightarrow> v)"

definition settle_position :: "env \<Rightarrow> runner \<Rightarrow> funding_event \<Rightarrow> runner res" where
  "settle_position env s e =
     bnd (ledger_settle (rn_ledger s) \<lparr>st_event_id = fe_id e, st_symbol = cg_symbol (en_config env),
            st_time_ms = fe_time e, st_interval_hours = fe_interval e, st_rate = fe_rate e,
            st_mark_price = mark_value (fe_mark e)\<rparr>) (\<lambda>ledger.
     let s1 = s\<lparr>rn_ledger := ledger\<rparr> in
     bnd (reserve env s1 (dec_of (mark_value (fe_mark e)))) (\<lambda>_.
     case rn_position s1 of
       None \<Rightarrow> Inr s1
     | Some p \<Rightarrow>
         bnd (mk_position (ps_symbol p) (ps_notional p) (ps_opened p) (ps_planned p) (ps_held p + 1) (ps_interval p)) (\<lambda>p'.
           Inr (s1\<lparr>rn_position := Some p'\<rparr>))))"

definition process_funding :: "env \<Rightarrow> runner \<Rightarrow> funding_event \<Rightarrow> (study_record option \<times> runner) res" where
  "process_funding env s e =
     (let c = en_config env in
      bnd (decimal (fe_rate e) ''funding rate'' False) (\<lambda>rate.
      bnd (guard (fe_interval e \<noteq> cg_interval c \<or> fe_time e \<noteq> rn_next_obs s)
             (ValueError ''Missing/misaligned funding or unsupported cadence change'')) (\<lambda>_.
      bnd (if cg_start c \<le> fe_time e then settle_position env s e else Inr s) (\<lambda>s1.
      bnd (rf_update (rn_model s1) (fe_time e) (float_of_dec rate) (fe_interval e)) (\<lambda>model.
      let s2 = s1\<lparr>rn_model := model, rn_next_obs := rn_next_obs s1 + fe_interval e * hour_ms\<rparr> in
      if fe_time e < cg_start c then Inr (None, s2)
      else record_of env s2 (Funding e) ''funding'' None None None None)))))"

definition catch_model :: "'a res \<Rightarrow> 'a option res" where \<comment> \<open>\<open>except FundingModelUnavailable: forecast = None\<close>\<close>
  "catch_model m = (case m of Inl (FundingModelUnavailable _) \<Rightarrow> Inr None | Inl e \<Rightarrow> Inl e | Inr x \<Rightarrow> Inr (Some x))"

definition forecast_at :: "env \<Rightarrow> runner \<Rightarrow> int \<Rightarrow> int \<Rightarrow> funding_forecast option res" where
  "forecast_at env s t remaining =
     (let c = en_config env in
      if remaining \<le> 0 then Inr None
      else catch_model (from_model (en_digest env) (en_numpy env) (en_draws env) (cg_symbol c) (rn_model s) remaining t
             (cg_draws c) (en_seed env (cg_seed c) (cg_symbol c) t)))"

definition take_decision :: "env \<Rightarrow> runner \<Rightarrow> market_event
    \<Rightarrow> ((decision \<times> funding_forecast option \<times> sizing_result option) \<times> runner) res" where
  "take_decision env s e =
     (let remaining = (case rn_position s of Some p \<Rightarrow> ps_planned p - ps_held p
                       | None \<Rightarrow> pl_horizon (cg_policy (en_config env))) in
      bnd (forecast_at env s (me_time e) remaining) (\<lambda>forecast.
      bnd (admit env s e) (\<lambda>(opportunity, s1).
      case rn_position s of
        None \<Rightarrow> bnd (enter env s1 e opportunity forecast) (\<lambda>((d, result), s2). Inr ((d, forecast, result), s2))
      | Some p \<Rightarrow> bnd (held env s1 p e opportunity forecast remaining) (\<lambda>(d, s2). Inr ((d, forecast, None), s2)))))"

definition check_market :: "env \<Rightarrow> runner \<Rightarrow> market_event \<Rightarrow> unit res" where
  "check_market env s e =
     bnd (guard (me_time e < cg_start (en_config env))
            (ValueError ''Warmup accepts funding only; no warmup trading'')) (\<lambda>_.
     bnd (decimal (me_spot_mid e) ''spot execution mid'' True) (\<lambda>_.
     bnd (decimal (me_perp_mid e) ''perp execution mid'' True) (\<lambda>_.
     bnd (decimal (me_financing e) ''realized financing'' False) (\<lambda>_.
     bnd (guard (mk_time_ms (me_marks e) \<noteq> me_time e \<or> mk_symbol (me_marks e) \<noteq> cg_symbol (en_config env))
            (ValueError ''Valuation marks or decision scope disagree'')) (\<lambda>_.
     bnd (guard (me_decide e \<and> (case ld_last_funding (rn_ledger s) of None \<Rightarrow> True
                                 | Some f \<Rightarrow> me_time e - f \<le> settlement_guard_ms))
            (ValueError ''Decision precedes conservative settlement availability boundary'')) (\<lambda>_.
       guard (me_decide e \<and> me_time e \<noteq> rn_next_decision s \<or> \<not> me_decide e \<and> me_time e = rn_next_decision s)
         (ValueError ''Market event does not match scheduled decision'')))))))"

definition scheduled_decision :: "env \<Rightarrow> runner \<Rightarrow> market_event
    \<Rightarrow> ((decision option \<times> funding_forecast option \<times> sizing_result option) \<times> runner) res" where
  "scheduled_decision env s e =
     (if me_decide e
      then bnd (take_decision env s e) (\<lambda>((d, forecast, result), s2). Inr ((Some d, forecast, result), s2))
      else Inr ((None, None, None), s))"

definition process_market :: "env \<Rightarrow> runner \<Rightarrow> market_event \<Rightarrow> (study_record option \<times> runner) res" where
  "process_market env s e =
     bnd (check_market env s e) (\<lambda>_.
     bnd (ledger_finance (rn_ledger s) (me_id e @ '':finance'') (me_time e) (me_financing e)) (\<lambda>ledger.
     let s1 = s\<lparr>rn_ledger := ledger\<rparr>; mark = dec_of (mk_perp (me_marks e)) in
     bnd (ledger_value ledger (me_marks e)) (\<lambda>v.
     bnd (reserve env s1 mark) (\<lambda>_.
     bnd (guard (va_net_equity v \<le> 0) (ExecutionUnavailable ''Nonpositive equity; liquidation is not simulated'')) (\<lambda>_.
     bnd (scheduled_decision env s1 e) (\<lambda>((decision, forecast, result), s2).
     bnd (ledger_value (rn_ledger s2) (me_marks e)) (\<lambda>valuation.
     bnd (reserve env s2 mark) (\<lambda>_.
     let s3 = (if me_decide e
               then s2\<lparr>rn_next_decision := rn_next_decision s2 + cg_interval (en_config env) * hour_ms\<rparr> else s2) in
       record_of env s3 (Market e) ''market'' decision (Some valuation) forecast result))))))))"

definition process :: "env \<Rightarrow> runner \<Rightarrow> event \<Rightarrow> (study_record option \<times> runner) res" where
  "process env s ev =
     (let c = en_config env; t = event_time ev in
      bnd (integer t ''event time'' 0) (\<lambda>_.
      bnd (guard (event_id ev = [] \<or> event_id ev \<in> rn_ids s \<or> t < rn_last_time s)
             (ValueError ''Duplicate/backwards event stream'')) (\<lambda>_.
      bnd (guard (\<not> (cg_warmup c \<le> t \<and> t < cg_end c))
             (ValueError ''Event outside configured warmup/study window'')) (\<lambda>_.
      let s1 = s\<lparr>rn_last_time := t, rn_ids := insert (event_id ev) (rn_ids s)\<rparr> in
      bnd (guard (cg_start c \<le> t \<and> rn_next_decision s1 < t)
             (ValueError ''Missing scheduled decision before this event'')) (\<lambda>_.
      case ev of Funding e \<Rightarrow> process_funding env s1 e | Market e \<Rightarrow> process_market env s1 e)))))"

text \<open>
  The generator: the records yielded, then how the iteration ended. An exception ends it after the
  records already yielded; the state of a runner that raised is never used again.
\<close>

fun iterate :: "env \<Rightarrow> runner \<Rightarrow> event list \<Rightarrow> study_record list \<times> runner res" where
  "iterate env s [] = ([], Inr s)"
| "iterate env s (ev # evs) =
     (case process env s ev of
        Inl e \<Rightarrow> ([], Inl e)
      | Inr (r, s1) \<Rightarrow>
          let (records, final) = iterate env s1 evs
          in ((case r of None \<Rightarrow> records | Some x \<Rightarrow> x # records), final))"

definition iter_backtest :: "env \<Rightarrow> event list \<Rightarrow> study_record list \<times> runner res" where
  "iter_backtest env evs = (case mk_runner env of Inl e \<Rightarrow> ([], Inl e) | Inr s \<Rightarrow> iterate env s evs)"

end
