(* ===== verification/WalkForwardInv.thy ===== *)
theory WalkForwardInv
  imports WalkForward AccountingProps
begin

text \<open>
  What one accepted event does to the runner of \<open>strategy/walk_forward.py\<close>: which fields each method
  changes, the carry it keeps (opposite legs, flat exactly when there is no position), and the phase
  machine of the schedule (settlement, decision, settlement, ...), with the invariant that ties the
  clocks of the runner, the ledger and the position together.
\<close>

section \<open>Frames: what each method changes\<close>

lemma admit_frame:
  assumes "admit env s e = Inr (a, s')"
  shows "s' = s\<lparr>rn_curves := rn_curves s'\<rparr>" "rn_curves s \<subseteq>\<^sub>m rn_curves s'"
  using assms
  by (auto simp: admit_def res_simps map_le_def Let_def split: option.splits if_splits)

lemma admit_admitted:
  assumes "admit env s e = Inr (Some o', s')"
  shows "me_opportunity e = Some o'" "fold_start (me_time e) = Inr (op_fold_start o')"
    "rn_curves s' (op_fold_start o') = Some (ic_artifact (op_curve o'))"
    "\<not> admit_refused env e o' (op_fold_start o')"
proof -
  from assms obtain month where h: "me_opportunity e = Some o'" "fold_start (me_time e) = Inr month"
    "\<not> admit_refused env e o' month"
    "rn_curves s' (op_fold_start o') = Some (ic_artifact (op_curve o'))"
    by (auto simp: admit_def res_simps Let_def split: option.splits if_splits)
  moreover have "month = op_fold_start o'" using h(3) by (simp add: admit_refused_def Let_def)
  ultimately show "me_opportunity e = Some o'" "fold_start (me_time e) = Inr (op_fold_start o')"
    "rn_curves s' (op_fold_start o') = Some (ic_artifact (op_curve o'))"
    "\<not> admit_refused env e o' (op_fold_start o')" by simp_all
qed

lemma tradeE:
  assumes "trade env s e q opening = Inr (filled, s')"
  obtains fs where "en_fills env e q opening = Inr fs" "paired e (cg_symbol (en_config env)) q opening fs"
    "filled \<Longrightarrow> fold_res ledger_fill (rn_ledger s) fs = Inr (rn_ledger s')"
    "\<not> filled \<Longrightarrow> opening \<and> rn_ledger s' = rn_ledger s"
    "s' = s\<lparr>rn_curves := rn_curves s', rn_ledger := rn_ledger s'\<rparr>" "rn_curves s \<subseteq>\<^sub>m rn_curves s'"
proof -
  from assms obtain s1 fs proposed where
    s1: "trade_admission env s e = Inr s1"
    and fs: "en_fills env e q opening = Inr fs" "paired e (cg_symbol (en_config env)) q opening fs"
    and l: "fold_res ledger_fill (rn_ledger s1) fs = Inr proposed"
    and r: "(if opening \<and> collateral_shortfall env proposed (dec_of (mk_perp (me_marks e))) then Inr (False, s1)
       else Inr (True, s1\<lparr>rn_ledger := proposed\<rparr>)) = (Inr (filled, s') :: (bool \<times> runner) res)"
    unfolding trade_def bnd_eq_Inr guard_eq_Inr not_not by (elim exE conjE) (rule that)
  have c: "s1 = s\<lparr>rn_curves := rn_curves s1\<rparr>" "rn_curves s \<subseteq>\<^sub>m rn_curves s1"
    using s1 admit_frame [of env s e] by (auto simp: trade_admission_def res_simps split: if_splits)
  then have ls: "rn_ledger s1 = rn_ledger s" by (cases s; cases s1) auto
  have s': "s' = s\<lparr>rn_curves := rn_curves s', rn_ledger := rn_ledger s'\<rparr>" "rn_curves s \<subseteq>\<^sub>m rn_curves s'"
    using r c by (cases s; cases s1; auto split: if_splits)+
  show thesis
    using r l ls fs s' by (intro that [of fs]) (auto split: if_splits)
qed

section \<open>Paired fills keep the legs opposite\<close>

definition neutral :: "ledger \<Rightarrow> rat \<Rightarrow> bool" where \<comment> \<open>long \<open>x\<close> of spot, short \<open>x\<close> of perp\<close>
  "neutral l x \<longleftrightarrow> lg_quantity (ld_spot l) = x \<and> lg_quantity (ld_perp l) = - x \<and> d50 x = x"

lemma ledger_fill_quantity:
  assumes "ledger_fill l f = Inr l'" "fl_quantity f = Fin q"
  shows "lg_quantity (get_leg l' (fl_market f)) = add50 (lg_quantity (get_leg l (fl_market f))) q"
    "m \<noteq> fl_market f \<Longrightarrow> get_leg l' m = get_leg l m" "q \<noteq> 0"
    "ld_next_funding l' = ld_next_funding l" "ld_last_funding l' = ld_last_funding l"
  using assms(1)
  by (rule ledger_fillE;
      use assms(2) in \<open>auto dest!: leg_trade_quantity simp: get_leg_def set_leg_def split: market.splits\<close>)+

lemma paired_fills_legs:
  assumes "paired e symbol q opening fs" "fold_res ledger_fill l fs = Inr l'"
  shows "lg_quantity (ld_spot l') = add50 (lg_quantity (ld_spot l)) (if opening then q else d60 (- q))"
    "lg_quantity (ld_perp l') = add50 (lg_quantity (ld_perp l)) (if opening then d60 (- q) else q)"
    "ld_next_funding l' = ld_next_funding l" "ld_last_funding l' = ld_last_funding l" "q \<noteq> 0"
proof -
  from assms(1) obtain a b where fs: "fs = [a, b]"
    and a: "fl_market a = Spot" "fl_quantity a = Fin (if opening then q else d60 (- q))"
    and b: "fl_market b = Perp" "fl_quantity b = Fin (if opening then d60 (- q) else q)"
    by (auto simp: paired_def fill_scope_def)
  from assms(2) obtain l1 where l1: "ledger_fill l a = Inr l1" "ledger_fill l1 b = Inr l'"
    by (auto simp: fs res_simps)
  note fa = ledger_fill_quantity [OF l1(1) a(2)] and fb = ledger_fill_quantity [OF l1(2) b(2)]
  show "lg_quantity (ld_spot l') = add50 (lg_quantity (ld_spot l)) (if opening then q else d60 (- q))"
    "lg_quantity (ld_perp l') = add50 (lg_quantity (ld_perp l)) (if opening then d60 (- q) else q)"
    using fa(1) fa(2) [of Perp] fb(1) fb(2) [of Spot] by (simp_all add: a b get_leg_def)
  show "ld_next_funding l' = ld_next_funding l" "ld_last_funding l' = ld_last_funding l" using fa fb by simp_all
  show "q \<noteq> 0" using fa(3) by (auto split: if_splits)
qed

lemma opening_keeps_neutral:
  assumes "paired e symbol q True fs" "fold_res ledger_fill l fs = Inr l'" "neutral l 0" "d60 q = q"
  shows "neutral l' (d50 q) \<and> d50 q \<noteq> 0"
  using paired_fills_legs [OF assms(1,2)] assms(3,4) by (simp add: neutral_def add50_def)

lemma closing_flattens:
  assumes "paired e symbol (d60 (- lg_quantity (ld_perp l))) False fs" "fold_res ledger_fill l fs = Inr l'" "neutral l x"
  shows "neutral l' 0"
proof -
  have q: "d60 x = x" using assms(3) d60_d50 [of x] by (simp add: neutral_def)
  show ?thesis
    using paired_fills_legs [OF assms(1,2)] assms(3) q by (simp add: neutral_def add50_def)
qed

section \<open>What a decision does\<close>

definition same_core :: "runner \<Rightarrow> runner \<Rightarrow> bool" where
  "same_core s s' \<longleftrightarrow> rn_model s' = rn_model s \<and> rn_last_time s' = rn_last_time s \<and> rn_next_obs s' = rn_next_obs s
     \<and> rn_ids s' = rn_ids s \<and> rn_next_decision s' = rn_next_decision s \<and> rn_curves s \<subseteq>\<^sub>m rn_curves s'"

lemma same_core_refl: "same_core s s"
  by (simp add: same_core_def)

lemma same_core_trans: "same_core s t \<Longrightarrow> same_core t u \<Longrightarrow> same_core s u"
  by (auto simp: same_core_def intro: map_le_trans)

lemma same_core_intro:
  "s' = s\<lparr>rn_curves := c, rn_ledger := l\<rparr> \<Longrightarrow> rn_curves s \<subseteq>\<^sub>m c \<Longrightarrow> same_core s s'"
  by (cases s) (simp add: same_core_def)

lemma admit_core:
  assumes "admit env s e = Inr (a, s')"
  shows "same_core s s'" "rn_ledger s' = rn_ledger s" "rn_position s' = rn_position s"
  using admit_frame [OF assms] by (cases s; cases s'; simp add: same_core_def)+

text \<open>The three things a decision may do: nothing, open on both legs when flat, close both legs.\<close>

inductive decision_step :: "env \<Rightarrow> market_event \<Rightarrow> runner \<Rightarrow> runner \<Rightarrow> bool" for env e where
  Keep: "same_core s s' \<Longrightarrow> rn_ledger s' = rn_ledger s \<Longrightarrow> rn_position s' = rn_position s \<Longrightarrow>
    (\<And>p. rn_position s = Some p \<Longrightarrow> ps_held p < ps_planned p) \<Longrightarrow> decision_step env e s s'"
| Open: "same_core s s' \<Longrightarrow> rn_position s = None \<Longrightarrow> d60 q = q \<Longrightarrow> paired e (cg_symbol (en_config env)) q True fs \<Longrightarrow>
    fold_res ledger_fill (rn_ledger s) fs = Inr (rn_ledger s') \<Longrightarrow> rn_position s' = Some p \<Longrightarrow>
    ps_opened p = me_time e \<Longrightarrow> ps_planned p = pl_horizon (cg_policy (en_config env)) \<Longrightarrow> ps_held p = 0 \<Longrightarrow>
    1 \<le> ps_planned p \<Longrightarrow> decision_step env e s s'"
| Close: "same_core s s' \<Longrightarrow> rn_position s = Some p \<Longrightarrow>
    paired e (cg_symbol (en_config env)) (d60 (- lg_quantity (ld_perp (rn_ledger s)))) False fs \<Longrightarrow>
    fold_res ledger_fill (rn_ledger s) fs = Inr (rn_ledger s') \<Longrightarrow> rn_position s' = None \<Longrightarrow> decision_step env e s s'"

lemma size_quantity_short: "size_position nm x = Inr r \<Longrightarrow> d60 (sr_quantity r) = sr_quantity r"
proof -
  assume "size_position nm x = Inr r"
  have no: "d60 (sr_quantity (no_size d)) = sr_quantity (no_size d)" for d by (simp add: no_size_def)
  have fin: "finish_size nm x a b c d p = Inr r \<Longrightarrow> d60 (sr_quantity r) = sr_quantity r" for a b c d p
    using no by (cases p) (auto simp: finish_size_def Let_def res_simps lot_quantity_def split: if_splits)
  have "choose_size nm x a b = Inr r \<Longrightarrow> d60 (sr_quantity r) = sr_quantity r" for a b
    using no by (auto simp: choose_size_def Let_def res_simps split: option.splits if_splits dest: fin)
  then show ?thesis
    using \<open>size_position nm x = Inr r\<close> no
    by (auto simp: size_position_def Let_def res_simps split: if_splits prod.splits)
qed

lemma mk_position_Inr:
  "mk_position sy n op pl he i = Inr p \<Longrightarrow>
   p = \<lparr>ps_symbol = sy, ps_notional = n, ps_opened = op, ps_planned = pl, ps_held = he, ps_interval = i\<rparr>
   \<and> 1 \<le> pl \<and> 0 \<le> he"
  by (auto simp: mk_position_def res_simps)

lemma open_position_step:
  assumes "open_position env s e r = Inr (d, s')" "rn_position s = None" "d60 (sr_quantity r) = sr_quantity r"
  shows "decision_step env e s s'"
proof -
  from assms(1) obtain filled s1 where t: "trade env s e (sr_quantity r) True = Inr (filled, s1)"
    and rest: "(if filled
       then bnd (mk_position (cg_symbol (en_config env)) (float_of_dec (d60 (sr_quantity r * dec_of (me_perp_mid e))))
                   (me_time e) (pl_horizon (cg_policy (en_config env))) 0 (cg_interval (en_config env))) (\<lambda>p.
            Inr (sr_decision r, s1\<lparr>rn_position := Some p\<rparr>))
       else Inr (plain ''wait'' ''actual_fill_capital_unavailable'', s1)) = (Inr (d, s') :: (decision \<times> runner) res)"
    by (auto simp: open_position_def bnd_eq_Inr)
  show ?thesis
  proof (rule tradeE [OF t])
    fix fs
    assume pr: "paired e (cg_symbol (en_config env)) (sr_quantity r) True fs"
      and l: "filled \<Longrightarrow> fold_res ledger_fill (rn_ledger s) fs = Inr (rn_ledger s1)"
      and nl: "\<not> filled \<Longrightarrow> True \<and> rn_ledger s1 = rn_ledger s"
      and s1: "s1 = s\<lparr>rn_curves := rn_curves s1, rn_ledger := rn_ledger s1\<rparr>" "rn_curves s \<subseteq>\<^sub>m rn_curves s1"
    have core: "same_core s s1" by (rule same_core_intro [OF s1])
    have pos: "rn_position s1 = None" using s1(1) assms(2) by (cases s; cases s1) simp
    show ?thesis
    proof (cases filled)
      case True
      from rest True obtain p where p: "s' = s1\<lparr>rn_position := Some p\<rparr>"
        "mk_position (cg_symbol (en_config env)) (float_of_dec (d60 (sr_quantity r * dec_of (me_perp_mid e))))
           (me_time e) (pl_horizon (cg_policy (en_config env))) 0 (cg_interval (en_config env)) = Inr p"
        by (auto simp: bnd_eq_Inr)
      have "same_core s s'" using core by (simp add: p(1) same_core_def)
      then show ?thesis
        using assms(2,3) pr l [OF True] mk_position_Inr [OF p(2)]
        by (intro decision_step.Open [of s s' "sr_quantity r" e env fs p]) (simp_all add: p(1))
    next
      case False
      then show ?thesis using rest core nl pos assms(2) by (intro decision_step.Keep) auto
    qed
  qed
qed

lemma enter_step:
  assumes "enter env s e o' forecast = Inr ((d, result), s')" "rn_position s = None"
  shows "decision_step env e s s'"
proof -
  have keep: "decision_step env e s s" using assms(2) by (intro decision_step.Keep same_core_refl) auto
  show ?thesis
    using assms keep
    by (auto simp: enter_def bnd_eq_Inr split: option.splits if_splits
        dest!: open_position_step dest: size_quantity_short)
qed

lemma decide_finished:
  "decide nm sy pl now f c a (Some p) = Inr d \<Longrightarrow> ps_planned p \<le> ps_held p \<Longrightarrow> de_action d = ''exit''"
  by (auto simp: decide_def Let_def plain_def bnd_eq_Inr split: if_splits)

lemma held_step:
  assumes "held env s p e o' forecast remaining = Inr (d, s')" "rn_position s = Some p"
  shows "decision_step env e s s'"
proof -
  define q where "q = d60 (- lg_quantity (ld_perp (rn_ledger s)))"
  from assms(1) obtain marked estimate where
    m: "mk_position (ps_symbol p) (float_of_dec (d60 (q * dec_of (me_perp_mid e)))) (ps_opened p)
             (ps_planned p) (ps_held p) (ps_interval p) = Inr marked"
    and dec: "decide (nm_mean (en_numerics env)) (cg_symbol (en_config env)) (cg_policy (en_config env)) (me_time e)
             forecast estimate (Option.bind o' op_approval) (Some marked) = Inr d"
    and rest: "(if de_action d = ''exit''
      then bnd (trade env s e q False) (\<lambda>(_, s1). Inr (d, s1\<lparr>rn_position := None\<rparr>))
      else Inr (d, s)) = (Inr (d, s') :: (decision \<times> runner) res)"
    unfolding held_def Let_def q_def [symmetric] bnd_eq_Inr
    by (elim exE conjE; split if_splits; auto simp: bnd_eq_Inr split: prod.splits)
  show ?thesis
  proof (cases "de_action d = ''exit''")
    case True
    from rest True obtain filled s1 where t: "trade env s e q False = Inr (filled, s1)"
      and s': "s' = s1\<lparr>rn_position := None\<rparr>"
      by (auto simp: bnd_eq_Inr)
    show ?thesis
    proof (rule tradeE [OF t])
      fix fs
      assume pr: "paired e (cg_symbol (en_config env)) q False fs"
        and l: "filled \<Longrightarrow> fold_res ledger_fill (rn_ledger s) fs = Inr (rn_ledger s1)"
        and nl: "\<not> filled \<Longrightarrow> False \<and> rn_ledger s1 = rn_ledger s"
        and s1: "s1 = s\<lparr>rn_curves := rn_curves s1, rn_ledger := rn_ledger s1\<rparr>" "rn_curves s \<subseteq>\<^sub>m rn_curves s1"
      have "same_core s s1" by (rule same_core_intro [OF s1])
      then have "same_core s s'" by (simp add: s' same_core_def)
      then show ?thesis
        using assms(2) pr l nl by (intro decision_step.Close [of s s' p e env fs]) (auto simp: s' q_def)
    qed
  next
    case False
    then have "s' = s" using rest by simp
    moreover have "ps_held p < ps_planned p"
      using decide_finished [OF dec] False mk_position_Inr [OF m] by fastforce
    ultimately show ?thesis using assms(2) by (intro decision_step.Keep) (auto simp: same_core_refl)
  qed
qed

lemma decision_step_core: "decision_step env e s s' \<Longrightarrow> same_core s s'"
  by (erule decision_step.cases) simp_all

lemma decision_step_after:
  assumes "same_core s0 s" "rn_ledger s = rn_ledger s0" "rn_position s = rn_position s0" "decision_step env e s s'"
  shows "decision_step env e s0 s'"
  using assms(4)
proof cases
  case Keep
  then show ?thesis using assms same_core_trans by (intro decision_step.Keep) auto
next
  case (Open q fs p)
  then show ?thesis using assms same_core_trans by (intro decision_step.Open [of s0 s' q e env fs p]) auto
next
  case (Close p fs)
  then show ?thesis using assms same_core_trans by (intro decision_step.Close [of s0 s' p e env fs]) auto
qed

lemma take_decision_step:
  assumes "take_decision env s e = Inr (x, s')"
  shows "decision_step env e s s'"
proof -
  from assms obtain a s1 forecast remaining where a: "admit env s e = Inr (a, s1)"
    and r: "(case rn_position s of
        None \<Rightarrow> bnd (enter env s1 e a forecast) (\<lambda>((d, result), s2). Inr ((d, forecast, result), s2))
      | Some p \<Rightarrow> bnd (held env s1 p e a forecast remaining) (\<lambda>(d, s2). Inr ((d, forecast, None), s2))) = Inr (x, s')"
    by (auto simp: take_decision_def Let_def bnd_eq_Inr)
  note core = admit_core [OF a]
  have "decision_step env e s1 s'"
    using r core(3)
    by (auto simp: bnd_eq_Inr split: option.splits intro: enter_step held_step)
  then show ?thesis using core by (rule decision_step_after [rotated 3])
qed

section \<open>What an event does\<close>

text \<open>What a record says of the runner after its event.\<close>

definition reports :: "study_record \<Rightarrow> runner \<Rightarrow> bool" where
  "reports rec s \<longleftrightarrow>
     rc_quantity rec = d60 (- lg_quantity (ld_perp (rn_ledger s))) \<and> rc_cash rec = ld_cash (rn_ledger s)
     \<and> rc_funding rec = ld_funding (rn_ledger s) \<and> rc_planned rec = map_option ps_planned (rn_position s)
     \<and> rc_held rec = (case rn_position s of None \<Rightarrow> 0 | Some p \<Rightarrow> ps_held p)"

lemma record_ofE:
  assumes "record_of env s ev kind d v f z = Inr (r, s')"
  obtains rec where "r = Some rec" "same_core s s'" "rn_ledger s' = rn_ledger s" "rn_position s' = rn_position s"
    "fold_start (event_time ev) = Inr (rc_fold rec)" "rc_time rec = event_time ev" "rc_id rec = event_id ev"
    "rc_decision rec = d" "rc_kind rec = kind" "reports rec s'"
    "rc_admitted rec \<Longrightarrow> \<exists>digest. rc_impact rec = Some digest \<and> rn_curves s' (rc_fold rec) = Some digest"
proof -
  from assms obtain month a where
    m: "fold_start (event_time ev) = Inr month"
    and a: "(case ev of Funding _ \<Rightarrow> Inr (None, s) | Market e \<Rightarrow> admit env s e) = Inr (a, s')"
    and r: "r = Some (record_body env s ev kind d v f z month (a \<noteq> None))"
    unfolding record_of_def bnd_eq_Inr by (auto split: prod.splits)
  have core: "same_core s s'" "rn_ledger s' = rn_ledger s" "rn_position s' = rn_position s"
    using a admit_core by (cases ev; auto simp: same_core_refl)+
  have adm: "\<exists>digest. rc_impact (the r) = Some digest \<and> rn_curves s' month = Some digest" if "rc_admitted (the r)"
  proof -
    from that r obtain o' where "a = Some o'" by (auto simp: record_body_def Let_def)
    with a obtain e where e: "ev = Market e" "admit env s e = Inr (Some o', s')" by (cases ev) auto
    note ad = admit_admitted [OF e(2)]
    show ?thesis using ad(1-3) m unfolding r e(1) by (simp add: record_body_def Let_def)
  qed
  show thesis
    by (rule that [OF r]) (use core m adm in \<open>simp_all add: r record_body_def reports_def Let_def del: d60.rd_minus\<close>)
qed

lemma settle_positionE:
  assumes "settle_position env s e = Inr s'"
  obtains "ledger_settle (rn_ledger s) \<lparr>st_event_id = fe_id e, st_symbol = cg_symbol (en_config env),
            st_time_ms = fe_time e, st_interval_hours = fe_interval e, st_rate = fe_rate e,
            st_mark_price = mark_value (fe_mark e)\<rparr> = Inr (rn_ledger s')"
    "same_core s s'" "rn_position s' = map_option (\<lambda>p. p\<lparr>ps_held := ps_held p + 1\<rparr>) (rn_position s)"
proof -
  from assms obtain l where l: "ledger_settle (rn_ledger s) \<lparr>st_event_id = fe_id e, st_symbol = cg_symbol (en_config env),
            st_time_ms = fe_time e, st_interval_hours = fe_interval e, st_rate = fe_rate e,
            st_mark_price = mark_value (fe_mark e)\<rparr> = Inr l"
    and r: "(case rn_position s of
       None \<Rightarrow> Inr (s\<lparr>rn_ledger := l\<rparr>)
     | Some p \<Rightarrow>
         bnd (mk_position (ps_symbol p) (ps_notional p) (ps_opened p) (ps_planned p) (ps_held p + 1) (ps_interval p)) (\<lambda>p'.
           Inr (s\<lparr>rn_ledger := l, rn_position := Some p'\<rparr>))) = Inr s'"
    by (auto simp: settle_position_def Let_def bnd_eq_Inr)
  have "rn_ledger s' = l \<and> same_core s s' \<and> rn_position s' = map_option (\<lambda>p. p\<lparr>ps_held := ps_held p + 1\<rparr>) (rn_position s)"
    using r by (auto simp: same_core_def bnd_eq_Inr split: option.splits dest!: mk_position_Inr)
  then show thesis using l that by blast
qed

lemma process_fundingE:
  assumes "process_funding env s e = Inr (r, s')"
  obtains "fe_interval e = cg_interval (en_config env)" "fe_time e = rn_next_obs s"
    "rn_next_obs s' = rn_next_obs s + fe_interval e * hour_ms" "rn_next_decision s' = rn_next_decision s"
    "rn_curves s' = rn_curves s"
    "fe_time e < cg_start (en_config env) \<Longrightarrow> r = None \<and> rn_ledger s' = rn_ledger s \<and> rn_position s' = rn_position s"
    "cg_start (en_config env) \<le> fe_time e \<Longrightarrow>
       ledger_settle (rn_ledger s) \<lparr>st_event_id = fe_id e, st_symbol = cg_symbol (en_config env),
            st_time_ms = fe_time e, st_interval_hours = fe_interval e, st_rate = fe_rate e,
            st_mark_price = mark_value (fe_mark e)\<rparr> = Inr (rn_ledger s')
       \<and> rn_position s' = map_option (\<lambda>p. p\<lparr>ps_held := ps_held p + 1\<rparr>) (rn_position s)
       \<and> (\<exists>rec. r = Some rec \<and> \<not> rc_admitted rec \<and> rc_decision rec = None \<and> rc_time rec = fe_time e \<and> reports rec s')"
    "rf_update (rn_model s) (fe_time e) (float_of_dec (dec_of (fe_rate e))) (fe_interval e) = Inr (rn_model s')"
proof -
  let ?late = "cg_start (en_config env) \<le> fe_time e"
  from assms obtain rate s1 model where
    h: "decimal (fe_rate e) ''funding rate'' False = Inr rate" "fe_interval e = cg_interval (en_config env)" "fe_time e = rn_next_obs s"
    and s1: "(if ?late then settle_position env s e else Inr s) = Inr s1"
    and m: "rf_update (rn_model s1) (fe_time e) (float_of_dec rate) (fe_interval e) = Inr model"
    and r: "(if fe_time e < cg_start (en_config env)
       then Inr (None, s1\<lparr>rn_model := model, rn_next_obs := rn_next_obs s1 + fe_interval e * hour_ms\<rparr>)
       else record_of env (s1\<lparr>rn_model := model, rn_next_obs := rn_next_obs s1 + fe_interval e * hour_ms\<rparr>)
              (Funding e) ''funding'' None None None None) = Inr (r, s')"
    by (auto simp: process_funding_def Let_def bnd_eq_Inr guard_eq_Inr)
  have rate: "rate = dec_of (fe_rate e)" using h(1) by (auto simp: decimal_eq_Inr)
  have core: "same_core s s1" using s1 by (auto split: if_splits elim: settle_positionE simp: same_core_refl)
  show thesis
  proof (cases ?late)
    case True
    then have sp: "settle_position env s e = Inr s1" using s1 by simp
    have rec: "record_of env (s1\<lparr>rn_model := model, rn_next_obs := rn_next_obs s1 + fe_interval e * hour_ms\<rparr>)
              (Funding e) ''funding'' None None None None = Inr (r, s')" using r True by simp
    then have s': "s' = s1\<lparr>rn_model := model, rn_next_obs := rn_next_obs s1 + fe_interval e * hour_ms\<rparr>"
      and rr: "\<exists>rec. r = Some rec \<and> \<not> rc_admitted rec \<and> rc_decision rec = None \<and> rc_time rec = fe_time e \<and> reports rec s'"
      by (auto simp: record_of_def record_body_def reports_def Let_def bnd_eq_Inr)
    have curves: "rn_curves s1 = rn_curves s"
      using sp by (auto simp: settle_position_def Let_def bnd_eq_Inr split: option.splits)
    show thesis
      by (rule settle_positionE [OF sp], rule that)
        (use h m rr core curves True in \<open>simp_all add: s' same_core_def rate\<close>)
  next
    case False
    then have "s1 = s" "r = None" "s' = s1\<lparr>rn_model := model, rn_next_obs := rn_next_obs s1 + fe_interval e * hour_ms\<rparr>"
      using s1 r by auto
    then show thesis using h m False rate by (intro that) simp_all
  qed
qed

lemma process_marketE:
  assumes "process_market env s e = Inr (r, s')"
  obtains l s2 rec where "check_market env s e = Inr ()"
    "ledger_finance (rn_ledger s) (me_id e @ '':finance'') (me_time e) (me_financing e) = Inr l"
    "if me_decide e then decision_step env e (s\<lparr>rn_ledger := l\<rparr>) s2 else s2 = s\<lparr>rn_ledger := l\<rparr>"
    "rn_ledger s' = rn_ledger s2" "rn_position s' = rn_position s2" "rn_next_obs s' = rn_next_obs s" "rn_model s' = rn_model s"
    "rn_next_decision s' = rn_next_decision s + (if me_decide e then cg_interval (en_config env) * hour_ms else 0)"
    "rn_curves s \<subseteq>\<^sub>m rn_curves s'" "r = Some rec"
    "rc_admitted rec \<Longrightarrow> \<exists>digest. rc_impact rec = Some digest \<and> rn_curves s' (rc_fold rec) = Some digest"
    "(rc_decision rec = None) = (\<not> me_decide e)" "rc_time rec = me_time e" "reports rec s'"
proof -
  from assms obtain l x s2 valuation where
    h: "check_market env s e = Inr ()"
    "ledger_finance (rn_ledger s) (me_id e @ '':finance'') (me_time e) (me_financing e) = Inr l"
    and d: "scheduled_decision env (s\<lparr>rn_ledger := l\<rparr>) e = Inr (x, s2)"
    and rec: "record_of env (if me_decide e
               then s2\<lparr>rn_next_decision := rn_next_decision s2 + cg_interval (en_config env) * hour_ms\<rparr> else s2)
          (Market e) ''market'' (fst x) (Some valuation) (fst (snd x)) (snd (snd x)) = Inr (r, s')"
    unfolding process_market_def Let_def bnd_eq_Inr split_beta by (elim exE conjE) (rule that, simp_all)
  have step: "if me_decide e then decision_step env e (s\<lparr>rn_ledger := l\<rparr>) s2 else s2 = s\<lparr>rn_ledger := l\<rparr>"
    and dn: "(fst x = None) = (\<not> me_decide e)"
    using d by (auto simp: scheduled_decision_def bnd_eq_Inr split: if_splits intro: take_decision_step)
  have core: "same_core s s2"
    using step by (auto split: if_splits dest!: decision_step_core simp: same_core_def)
  show thesis
    by (rule record_ofE [OF rec], rule that [OF h step])
      (use core dn in \<open>auto simp: same_core_def intro: map_le_trans\<close>)
qed

section \<open>The schedule as a state machine\<close>

text \<open>
  Abstractly a study is in its warmup, owes the decision that follows a settlement, or waits for the
  next settlement; marks may be valued at any time of the study.
\<close>

datatype phase = Warmup | Deciding | Waiting

datatype move = Warm | Settle | Decide | Observe

inductive phase_step :: "phase \<Rightarrow> move \<Rightarrow> phase \<Rightarrow> bool" where
  "phase_step Warmup Warm Warmup"
| "phase_step Warmup Settle Deciding"
| "phase_step Deciding Observe Deciding"
| "phase_step Deciding Decide Waiting"
| "phase_step Waiting Observe Waiting"
| "phase_step Waiting Settle Deciding"

inductive_cases phase_stepE: "phase_step p m q"

inductive phase_run :: "phase \<Rightarrow> move list \<Rightarrow> phase \<Rightarrow> bool" where
  phase_Nil: "phase_run p [] p"
| phase_Cons: "phase_step p m q \<Longrightarrow> phase_run q ms r \<Longrightarrow> phase_run p (m # ms) r"

inductive_simps phase_run_Nil: "phase_run p [] q"
inductive_simps phase_run_Cons: "phase_run p (m # ms) q"

definition move_of :: "env \<Rightarrow> event \<Rightarrow> move" where
  "move_of env ev =
     (case ev of
        Funding e \<Rightarrow> if fe_time e < cg_start (en_config env) then Warm else Settle
      | Market e \<Rightarrow> if me_decide e then Decide else Observe)"

text \<open>Each settlement is followed by exactly one decision before the next settlement.\<close>

definition settle_count :: "move list \<Rightarrow> nat" where "settle_count ms = length (filter (\<lambda>m. m = Settle) ms)"
definition decide_count :: "move list \<Rightarrow> nat" where "decide_count ms = length (filter (\<lambda>m. m = Decide) ms)"

lemma phase_run_counts:
  "phase_run p ms q \<Longrightarrow>
   settle_count ms + (if p = Deciding then 1 else 0) = decide_count ms + (if q = Deciding then 1 else 0)"
  by (induction rule: phase_run.induct) (auto simp: settle_count_def decide_count_def elim!: phase_stepE)

section \<open>The runner's invariant\<close>

definition period_ms :: "env \<Rightarrow> int" where
  "period_ms env = cg_interval (en_config env) * hour_ms"

definition position_age :: "env \<Rightarrow> runner \<Rightarrow> position \<Rightarrow> int \<Rightarrow> bool" where
  "position_age env s p lead \<longleftrightarrow>
     0 \<le> ps_held p \<and> ps_opened p + (ps_held p + lead) * period_ms env = rn_next_decision s
     \<and> ps_planned p = pl_horizon (cg_policy (en_config env)) \<and> ps_held p + lead \<le> ps_planned p"

definition clocks :: "env \<Rightarrow> phase \<Rightarrow> runner \<Rightarrow> bool" where
  "clocks env ph s \<longleftrightarrow>
     (let c = en_config env; l = rn_ledger s; obs = rn_next_obs s in
      case ph of
        Warmup \<Rightarrow> obs \<le> cg_start c \<and> obs mod period_ms env = 0 \<and> ld_next_funding l = cg_start c
          \<and> ld_last_funding l = None \<and> rn_next_decision s = cg_start c + cg_delay c \<and> rn_position s = None
      | Deciding \<Rightarrow> cg_start c + period_ms env \<le> obs \<and> ld_next_funding l = obs
          \<and> ld_last_funding l = Some (obs - period_ms env) \<and> rn_next_decision s = obs - period_ms env + cg_delay c
          \<and> (\<forall>p. rn_position s = Some p \<longrightarrow> position_age env s p 0)
      | Waiting \<Rightarrow> cg_start c + period_ms env \<le> obs \<and> ld_next_funding l = obs
          \<and> ld_last_funding l = Some (obs - period_ms env) \<and> rn_next_decision s = obs + cg_delay c
          \<and> (\<forall>p. rn_position s = Some p \<longrightarrow> position_age env s p 1))"

definition carries :: "runner \<Rightarrow> bool" where
  "carries s \<longleftrightarrow> (\<exists>x. neutral (rn_ledger s) x \<and> (rn_position s = None \<longleftrightarrow> x = 0))"

text \<open>What a valid configuration gives.\<close>

definition config_ok :: "run_config \<Rightarrow> bool" where
  "config_ok c \<longleftrightarrow> 0 \<le> cg_warmup c \<and> cg_warmup c < cg_start c \<and> cg_start c < cg_end c \<and> 1 \<le> cg_interval c
     \<and> cg_interval c \<le> 24 \<and> settlement_guard_ms < cg_delay c \<and> cg_delay c < cg_interval c * hour_ms - settlement_guard_ms
     \<and> cg_warmup c mod (cg_interval c * hour_ms) = 0 \<and> cg_start c mod (cg_interval c * hour_ms) = 0
     \<and> cg_symbol c \<noteq> [] \<and> month_start_ms (cg_start c) = cg_start c \<and> month_start_ms (cg_end c) = cg_end c"

lemma day_split: "1 \<le> k \<Longrightarrow> 24 mod k = 0 \<Longrightarrow> k * hour_ms dvd n * day_ms" for k n :: int
proof -
  assume "24 mod k = 0"
  then obtain j where "24 = k * j" by (auto simp: mod_eq_0_iff_dvd dvd_def)
  then have "n * day_ms = k * hour_ms * (n * j)"
    by (simp add: day_ms_def hour_ms_def mult.commute)
  then show ?thesis by (rule dvdI)
qed

lemma mk_run_config_ok:
  assumes "mk_run_config c = Inr c'"
  shows "c' = c" "config_ok c"
proof -
  from assms obtain col where
    h: "0 \<le> cg_warmup c" "0 \<le> cg_start c" "1 \<le> cg_interval c" "settlement_guard_ms + 1 \<le> cg_delay c"
    and sc: "config_scope c col = Inr ()" and c': "c' = c"
    unfolding mk_run_config_def bnd_eq_Inr integer_Inr by auto
  from sc obtain f l where
    s: "cg_symbol c \<in> {''BTCUSDT'', ''SOLUSDT''}" "cg_warmup c < cg_start c" "cg_start c < cg_end c"
    "fold_start (cg_start c) = Inr f" "cg_start c = f" "fold_start (cg_end c) = Inr l" "cg_end c = l"
    "cg_interval c \<le> 24" "24 mod cg_interval c = 0"
    "cg_delay c < cg_interval c * hour_ms - settlement_guard_ms" "cg_warmup c mod (cg_interval c * hour_ms) = 0"
    unfolding config_scope_def Let_def bnd_eq_Inr guard_eq_Inr by auto
  have st: "month_start_ms (cg_start c) = cg_start c" "month_start_ms (cg_end c) = cg_end c"
    using s(4-7) by (auto simp: fold_start_Inr)
  have "cg_interval c * hour_ms dvd utc_ms (first_of_month (day_of_ms (cg_start c)))"
    unfolding utc_ms_def using h(3) s(9) by (rule day_split)
  then have "cg_start c mod (cg_interval c * hour_ms) = 0"
    using st(1) by (simp add: month_start_ms_def)
  then show "c' = c" "config_ok c" using h s st c' by (auto simp: config_ok_def)
qed

lemma period_pos: "config_ok (en_config env) \<Longrightarrow> 0 < period_ms env"
  by (simp add: config_ok_def period_ms_def hour_ms_def)

lemma mod_step:
  fixes a b k :: int
  assumes "a mod k = 0" "b mod k = 0" "a < b" "0 < k"
  shows "a + k \<le> b"
proof -
  obtain i j where "a = k * i" "b = k * j" using assms(1,2) by (auto simp: mod_eq_0_iff_dvd dvd_def)
  moreover from this have "i < j" using assms(3,4) by simp
  then have "k * (i + 1) \<le> k * j" using assms(4) by (intro mult_left_mono) auto
  ultimately show ?thesis by (simp add: distrib_left)
qed

lemma mk_runner_inv:
  assumes "mk_runner env = Inr s" "config_ok (en_config env)"
  shows "clocks env Warmup s" "carries s" "ledger_start (cg_symbol (en_config env)) (cg_capital (en_config env))
      (cg_start (en_config env)) (en_fees env) = Inr (rn_ledger s)" "rn_curves s = Map.empty" "rn_ids s = {}"
  using assms
  by (auto simp: mk_runner_def Let_def res_simps clocks_def carries_def neutral_def config_ok_def period_ms_def
      ledger_start_def empty_leg_def split: if_splits)

section \<open>Every accepted event follows the schedule\<close>

lemma settle_quantities:
  assumes "ledger_settle l e = Inr l'"
  shows "lg_quantity (ld_spot l') = lg_quantity (ld_spot l)" "lg_quantity (ld_perp l') = lg_quantity (ld_perp l)"
    "ld_next_funding l' = ld_next_funding l + st_interval_hours e * hour_ms" "ld_last_funding l' = Some (ld_next_funding l)"
    "st_time_ms e = ld_next_funding l"
  using assms by (auto elim!: ledger_settleE)

lemma finance_quantities:
  assumes "ledger_finance l i t c = Inr l'"
  shows "lg_quantity (ld_spot l') = lg_quantity (ld_spot l)" "lg_quantity (ld_perp l') = lg_quantity (ld_perp l)"
    "ld_next_funding l' = ld_next_funding l" "ld_last_funding l' = ld_last_funding l" "t < ld_next_funding l"
  using assms by (auto elim!: ledger_financeE)

lemma funding_step:
  assumes "process_funding env s e = Inr (r, s')" "clocks env ph s" "carries s" "config_ok (en_config env)"
    and "cg_start (en_config env) \<le> fe_time e \<Longrightarrow> fe_time e \<le> rn_next_decision s"
  shows "\<exists>ph'. phase_step ph (move_of env (Funding e)) ph' \<and> clocks env ph' s' \<and> carries s'"
proof (rule process_fundingE [OF assms(1)])
  let ?c = "en_config env"
  assume f: "fe_interval e = cg_interval ?c" "fe_time e = rn_next_obs s" "rn_next_obs s' = rn_next_obs s + fe_interval e * hour_ms"
    "rn_next_decision s' = rn_next_decision s"
    and early: "fe_time e < cg_start ?c \<Longrightarrow> r = None \<and> rn_ledger s' = rn_ledger s \<and> rn_position s' = rn_position s"
    and late: "cg_start ?c \<le> fe_time e \<Longrightarrow>
       ledger_settle (rn_ledger s) \<lparr>st_event_id = fe_id e, st_symbol = cg_symbol ?c,
            st_time_ms = fe_time e, st_interval_hours = fe_interval e, st_rate = fe_rate e,
            st_mark_price = mark_value (fe_mark e)\<rparr> = Inr (rn_ledger s')
       \<and> rn_position s' = map_option (\<lambda>p. p\<lparr>ps_held := ps_held p + 1\<rparr>) (rn_position s)
       \<and> (\<exists>rec. r = Some rec \<and> \<not> rc_admitted rec \<and> rc_decision rec = None \<and> rc_time rec = fe_time e \<and> reports rec s')"
  have I: "0 < period_ms env" "period_ms env = fe_interval e * hour_ms" "cg_delay ?c < period_ms env" "0 < cg_delay ?c"
    using assms(4) period_pos f(1) by (auto simp: config_ok_def period_ms_def settlement_guard_ms_def)
  have start: "cg_start ?c mod period_ms env = 0" using assms(4) by (simp add: config_ok_def period_ms_def)
  show ?thesis
  proof (cases "fe_time e < cg_start ?c")
    case True
    have ph: "ph = Warmup"
      using assms(2) True f(2) I(1) by (cases ph) (auto simp: clocks_def Let_def)
    have "rn_next_obs s + period_ms env \<le> cg_start ?c"
      using assms(2) start True f(2) I(1) by (intro mod_step) (auto simp: clocks_def ph Let_def)
    then have "clocks env Warmup s'"
      using assms(2) early [OF True] f I by (simp add: clocks_def ph Let_def)
    moreover have "carries s'" using assms(3) early [OF True] by (simp add: carries_def)
    ultimately show ?thesis using True ph by (auto simp: move_of_def intro: phase_step.intros)
  next
    case False
    then have st: "cg_start ?c \<le> fe_time e" by simp
    note l = late [OF st]
    note q = settle_quantities [OF conjunct1 [OF l]]
    have time: "fe_time e = ld_next_funding (rn_ledger s)" using q(5) by simp
    have next_l: "ld_next_funding (rn_ledger s') = rn_next_obs s + period_ms env"
      using q(3) time f(2) I(2) by simp
    have carry: "carries s'" using assms(3) q(1,2) l by (auto simp: carries_def neutral_def)
    have ndec: "rn_next_decision s = rn_next_obs s + cg_delay ?c"
    proof (cases ph)
      case Warmup
      then show ?thesis using assms(2) time f(2) by (auto simp: clocks_def Let_def)
    next
      case Deciding
      then show ?thesis using assms(2,5) st f(2) I by (auto simp: clocks_def Let_def)
    next
      case Waiting
      then show ?thesis using assms(2) by (auto simp: clocks_def Let_def)
    qed
    have ph: "ph = Warmup \<or> ph = Waiting"
      using assms(2) ndec I(1) by (cases ph) (auto simp: clocks_def Let_def)
    have age: "position_age env s' p 0" if "rn_position s' = Some p" for p
    proof -
      have "map_option (\<lambda>p. p\<lparr>ps_held := ps_held p + 1\<rparr>) (rn_position s) = Some p" using l that by simp
      then obtain p0 where p0: "rn_position s = Some p0" "p = p0\<lparr>ps_held := ps_held p0 + 1\<rparr>" by auto
      then have "position_age env s p0 1" using assms(2) ph by (auto simp: clocks_def Let_def)
      then show ?thesis using f(4) p0(2) by (auto simp: position_age_def)
    qed
    have "clocks env Deciding s'"
      using next_l q(4) time f I ndec st age by (simp add: clocks_def Let_def)
    then show ?thesis using ph carry False by (auto simp: move_of_def intro: phase_step.intros)
  qed
qed

lemma decision_legs:
  assumes "decision_step env e s s'" "carries s"
  shows "carries s'" "ld_next_funding (rn_ledger s') = ld_next_funding (rn_ledger s)"
    "ld_last_funding (rn_ledger s') = ld_last_funding (rn_ledger s)"
    "rn_position s' = None \<or> rn_position s' = rn_position s \<and> (\<forall>p. rn_position s' = Some p \<longrightarrow> ps_held p < ps_planned p)
     \<or> (\<exists>p. rn_position s' = Some p \<and> ps_opened p = me_time e \<and> ps_planned p = pl_horizon (cg_policy (en_config env))
          \<and> ps_held p = 0 \<and> 1 \<le> ps_planned p)"
proof -
  have "carries s' \<and> ld_next_funding (rn_ledger s') = ld_next_funding (rn_ledger s)
    \<and> ld_last_funding (rn_ledger s') = ld_last_funding (rn_ledger s)
    \<and> (rn_position s' = None \<or> rn_position s' = rn_position s \<and> (\<forall>p. rn_position s' = Some p \<longrightarrow> ps_held p < ps_planned p)
     \<or> (\<exists>p. rn_position s' = Some p \<and> ps_opened p = me_time e \<and> ps_planned p = pl_horizon (cg_policy (en_config env))
          \<and> ps_held p = 0 \<and> 1 \<le> ps_planned p))"
    using assms(1)
  proof cases
    case Keep
    then show ?thesis using assms(2) by (auto simp: carries_def)
  next
    case (Open q fs p)
    from assms(2) Open(2) have n: "neutral (rn_ledger s) 0" by (auto simp: carries_def)
    show ?thesis
      using opening_keeps_neutral [OF Open(4,5) n Open(3)] paired_fills_legs(3,4) [OF Open(4,5)] Open(6-)
      by (auto simp: carries_def)
  next
    case (Close p fs)
    from assms(2) obtain x where n: "neutral (rn_ledger s) x" by (auto simp: carries_def)
    show ?thesis
      using closing_flattens [OF Close(3,4) n] paired_fills_legs(3,4) [OF Close(3,4)] Close(5)
      by (auto simp: carries_def)
  qed
  then show "carries s'" "ld_next_funding (rn_ledger s') = ld_next_funding (rn_ledger s)"
    "ld_last_funding (rn_ledger s') = ld_last_funding (rn_ledger s)"
    "rn_position s' = None \<or> rn_position s' = rn_position s \<and> (\<forall>p. rn_position s' = Some p \<longrightarrow> ps_held p < ps_planned p)
     \<or> (\<exists>p. rn_position s' = Some p \<and> ps_opened p = me_time e \<and> ps_planned p = pl_horizon (cg_policy (en_config env))
          \<and> ps_held p = 0 \<and> 1 \<le> ps_planned p)" by blast+
qed

lemma market_step:
  assumes "process_market env s e = Inr (r, s')" "clocks env ph s" "carries s" "config_ok (en_config env)"
  shows "\<exists>ph'. phase_step ph (move_of env (Market e)) ph' \<and> clocks env ph' s' \<and> carries s'"
proof (rule process_marketE [OF assms(1)])
  let ?c = "en_config env"
  fix l s2 rec
  assume chk: "check_market env s e = Inr ()"
    and fin: "ledger_finance (rn_ledger s) (me_id e @ '':finance'') (me_time e) (me_financing e) = Inr l"
    and step: "if me_decide e then decision_step env e (s\<lparr>rn_ledger := l\<rparr>) s2 else s2 = s\<lparr>rn_ledger := l\<rparr>"
    and s': "rn_ledger s' = rn_ledger s2" "rn_position s' = rn_position s2" "rn_next_obs s' = rn_next_obs s"
    "rn_next_decision s' = rn_next_decision s + (if me_decide e then cg_interval ?c * hour_ms else 0)"
  note q = finance_quantities [OF fin]
  have I: "0 < period_ms env" "0 < cg_delay ?c" "cg_delay ?c < period_ms env"
    using assms(4) period_pos by (auto simp: config_ok_def settlement_guard_ms_def period_ms_def)
  have start: "cg_start ?c \<le> me_time e"
    and sched: "me_decide e \<Longrightarrow> me_time e = rn_next_decision s"
    using chk unfolding check_market_def bnd_eq_Inr guard_eq_Inr by auto
  have ph: "ph \<noteq> Warmup" using assms(2) q(5) start by (auto simp: clocks_def Let_def)
  have carry: "carries (s\<lparr>rn_ledger := l\<rparr>)" using assms(3) q(1,2) by (auto simp: carries_def neutral_def)
  show ?thesis
  proof (cases "me_decide e")
    case False
    then have "clocks env ph s'"
      using assms(2) step s' q(3,4) by (auto simp: clocks_def position_age_def Let_def split: phase.splits)
    moreover have "carries s'" using carry False step s' by (simp add: carries_def)
    ultimately show ?thesis using False ph by (cases ph) (auto simp: move_of_def intro: phase_step.intros)
  next
    case True
    then have st: "decision_step env e (s\<lparr>rn_ledger := l\<rparr>) s2" using step by simp
    note d = decision_legs [OF st carry]
    have deciding: "ph = Deciding"
      using ph assms(2) q(5) sched [OF True] I(2) by (cases ph) (auto simp: clocks_def Let_def)
    have nd: "rn_next_decision s' = rn_next_decision s + period_ms env" using s'(4) True by (simp add: period_ms_def)
    have age: "position_age env s' p 1" if p: "rn_position s' = Some p" for p
    proof -
      consider "rn_position s = Some p" "ps_held p < ps_planned p"
        | "ps_opened p = me_time e" "ps_planned p = pl_horizon (cg_policy ?c)" "ps_held p = 0" "1 \<le> ps_planned p"
        using d(4) p s'(2) by auto
      then show ?thesis
      proof cases
        case 1
        then have "position_age env s p 0" using assms(2) deciding by (auto simp: clocks_def Let_def)
        then show ?thesis using 1(2) nd by (auto simp: position_age_def distrib_right)
      next
        case 2
        then show ?thesis using nd sched [OF True] by (simp add: position_age_def)
      qed
    qed
    have "clocks env Waiting s'"
      using assms(2) deciding s' d(2,3) q(3,4) nd age by (simp add: clocks_def Let_def)
    moreover have "carries s'" using d(1) s' by (simp add: carries_def)
    ultimately show ?thesis using True deciding by (auto simp: move_of_def intro: phase_step.intros)
  qed
qed

lemma process_step:
  assumes "process env s ev = Inr (r, s')" "clocks env ph s" "carries s" "config_ok (en_config env)"
  shows "\<exists>ph'. phase_step ph (move_of env ev) ph' \<and> clocks env ph' s' \<and> carries s'"
proof -
  let ?s = "s\<lparr>rn_last_time := event_time ev, rn_ids := insert (event_id ev) (rn_ids s)\<rparr>"
  have h: "\<not> (cg_start (en_config env) \<le> event_time ev \<and> rn_next_decision s < event_time ev)"
    and p: "(case ev of Funding e \<Rightarrow> process_funding env ?s e | Market e \<Rightarrow> process_market env ?s e) = Inr (r, s')"
    using assms(1) unfolding process_def Let_def bnd_eq_Inr guard_eq_Inr by auto
  have c: "clocks env ph ?s" "carries ?s"
    using assms(2,3) by (auto simp: clocks_def carries_def position_age_def Let_def split: phase.splits)
  show ?thesis
  proof (cases ev)
    case (Funding e)
    then show ?thesis using funding_step [of env ?s e r s' ph] p h c assms(4) by (simp add: not_less)
  next
    case (Market e)
    then show ?thesis using market_step [of env ?s e r s' ph] p c assms(4) by simp
  qed
qed

section \<open>Runs\<close>

lemma processE:
  assumes "process env s ev = Inr (r, s')"
  obtains s1 where "s1 = s\<lparr>rn_last_time := event_time ev, rn_ids := insert (event_id ev) (rn_ids s)\<rparr>"
    "case ev of Funding e \<Rightarrow> process_funding env s1 e = Inr (r, s') | Market e \<Rightarrow> process_market env s1 e = Inr (r, s')"
    "rn_last_time s \<le> event_time ev" "event_id ev \<notin> rn_ids s" "event_time ev < cg_end (en_config env)"
    "cg_warmup (en_config env) \<le> event_time ev"
  using assms unfolding process_def Let_def bnd_eq_Inr guard_eq_Inr by (auto split: event.splits)

lemma iterate_Cons:
  "iterate env s (ev # evs) = (recs, Inr s') \<longleftrightarrow>
     (\<exists>r s1 rest. process env s ev = Inr (r, s1) \<and> iterate env s1 evs = (rest, Inr s')
        \<and> recs = (case r of None \<Rightarrow> rest | Some x \<Rightarrow> x # rest))"
  by (auto split: sum.splits prod.splits)

lemma iterate_phases:
  assumes "iterate env s evs = (recs, Inr s')" "clocks env ph s" "carries s" "config_ok (en_config env)"
  shows "\<exists>ph'. phase_run ph (map (move_of env) evs) ph' \<and> clocks env ph' s' \<and> carries s'"
  using assms
proof (induction evs arbitrary: s ph recs)
  case Nil
  then show ?case by (auto intro: phase_run.intros)
next
  case (Cons ev evs)
  from Cons.prems(1) obtain r s1 rest where p: "process env s ev = Inr (r, s1)" and i: "iterate env s1 evs = (rest, Inr s')"
    unfolding iterate_Cons by blast
  from process_step [OF p Cons.prems(2-4)] obtain ph1 where
    "phase_step ph (move_of env ev) ph1" "clocks env ph1 s1" "carries s1" by blast
  moreover from this Cons.IH [OF i _ _ Cons.prems(4)] obtain ph' where
    "phase_run ph1 (map (move_of env) evs) ph'" "clocks env ph' s'" "carries s'" by blast
  ultimately show ?case by (auto intro: phase_run.intros)
qed

text \<open>The ledger events behind an accepted event.\<close>

definition settlement_of :: "env \<Rightarrow> funding_event \<Rightarrow> settlement" where
  "settlement_of env e = \<lparr>st_event_id = fe_id e, st_symbol = cg_symbol (en_config env), st_time_ms = fe_time e,
     st_interval_hours = fe_interval e, st_rate = fe_rate e, st_mark_price = mark_value (fe_mark e)\<rparr>"

definition scored :: "env \<Rightarrow> event \<Rightarrow> settlement list" where
  "scored env ev = (case ev of Funding e \<Rightarrow> if cg_start (en_config env) \<le> fe_time e then [settlement_of env e] else []
     | Market _ \<Rightarrow> [])"

definition charged :: "event \<Rightarrow> ledger_event list" where
  "charged ev = (case ev of Market e \<Rightarrow> [EFinance (me_id e @ '':finance'') (me_time e) (me_financing e)] | Funding _ \<Rightarrow> [])"

fun finances :: "ledger_event list \<Rightarrow> ledger_event list" where
  "finances [] = []"
| "finances (EFinance i t c # es) = EFinance i t c # finances es"
| "finances (_ # es) = finances es"

lemma finances_append [simp]: "finances (xs @ ys) = finances xs @ finances ys"
  by (induction xs rule: finances.induct) auto

lemma settlements_append [simp]: "settlements (xs @ ys) = settlements xs @ settlements ys"
  by (induction xs rule: settlements.induct) auto

lemma ledger_run_append: "ledger_run l (xs @ ys) = bnd (ledger_run l xs) (\<lambda>l'. ledger_run l' ys)"
  by (simp add: ledger_run_def fold_res_append)

lemma fills_run: "fold_res ledger_fill l fs = ledger_run l (map EFill fs)"
  by (induction fs arbitrary: l) (simp_all add: ledger_run_def)

lemma fills_projections [simp]: "settlements (map EFill fs) = []" "finances (map EFill fs) = []"
  by (induction fs) auto

lemma process_ledger:
  assumes "process env s ev = Inr (r, s')"
  shows "\<exists>les. ledger_run (rn_ledger s) les = Inr (rn_ledger s') \<and> settlements les = scored env ev \<and> finances les = charged ev
    \<and> (\<forall>f. EFill f \<in> set les \<longrightarrow> (\<exists>e. ev = Market e \<and> me_decide e \<and> fl_time_ms f = me_time e))"
proof (rule processE [OF assms])
  fix s1
  assume s1: "s1 = s\<lparr>rn_last_time := event_time ev, rn_ids := insert (event_id ev) (rn_ids s)\<rparr>"
    and p: "case ev of Funding e \<Rightarrow> process_funding env s1 e = Inr (r, s') | Market e \<Rightarrow> process_market env s1 e = Inr (r, s')"
  show ?thesis
  proof (cases ev)
    case (Funding e)
    then have pf: "process_funding env s1 e = Inr (r, s')" using p by simp
    show ?thesis
    proof (cases "cg_start (en_config env) \<le> fe_time e")
      case True
      have "ledger_settle (rn_ledger s) (settlement_of env e) = Inr (rn_ledger s')"
        by (rule process_fundingE [OF pf]) (use True in \<open>simp add: s1 settlement_of_def\<close>)
      then show ?thesis
        using True Funding
        by (intro exI [of _ "[ESettle (settlement_of env e)]"]) (simp add: ledger_run_def scored_def charged_def)
    next
      case False
      have "rn_ledger s' = rn_ledger s" by (rule process_fundingE [OF pf]) (use False in \<open>simp add: s1\<close>)
      then show ?thesis using False Funding by (intro exI [of _ "[]"]) (simp add: ledger_run_def scored_def charged_def)
    qed
  next
    case (Market e)
    then have pm: "process_market env s1 e = Inr (r, s')" using p by simp
    show ?thesis
    proof (rule process_marketE [OF pm])
      fix l s2 rec
      assume f: "ledger_finance (rn_ledger s1) (me_id e @ '':finance'') (me_time e) (me_financing e) = Inr l"
        and st: "if me_decide e then decision_step env e (s1\<lparr>rn_ledger := l\<rparr>) s2 else s2 = s1\<lparr>rn_ledger := l\<rparr>"
        and s': "rn_ledger s' = rn_ledger s2"
      have "\<exists>fs. fold_res ledger_fill l fs = Inr (rn_ledger s') \<and> (\<forall>x\<in>set fs. me_decide e \<and> fl_time_ms x = me_time e)"
      proof (cases "me_decide e")
        case True
        with st have "decision_step env e (s1\<lparr>rn_ledger := l\<rparr>) s2" by simp
        then show ?thesis
        proof cases
          case Keep
          then show ?thesis using s' by (intro exI [of _ "[]"]) simp
        next
          case (Open q fs p)
          then show ?thesis using s' True by (intro exI [of _ fs]) (auto simp: paired_def fill_scope_def)
        next
          case (Close p fs)
          then show ?thesis using s' True by (intro exI [of _ fs]) (auto simp: paired_def fill_scope_def)
        qed
      qed (use st s' in \<open>auto intro!: exI [of _ "[]"]\<close>)
      then obtain fs where fs: "fold_res ledger_fill l fs = Inr (rn_ledger s')"
        "\<forall>x\<in>set fs. me_decide e \<and> fl_time_ms x = me_time e" by blast
      show ?thesis
        using f fs Market
        by (intro exI [of _ "EFinance (me_id e @ '':finance'') (me_time e) (me_financing e) # map EFill fs"])
          (auto simp: s1 ledger_run_Cons fills_run scored_def charged_def)
    qed
  qed
qed

lemma iterate_ledger:
  assumes "iterate env s evs = (recs, Inr s')"
  shows "\<exists>les. ledger_run (rn_ledger s) les = Inr (rn_ledger s') \<and> settlements les = concat (map (scored env) evs)
    \<and> finances les = concat (map charged evs)
    \<and> (\<forall>f. EFill f \<in> set les \<longrightarrow> (\<exists>e. Market e \<in> set evs \<and> me_decide e \<and> fl_time_ms f = me_time e))"
  using assms
proof (induction evs arbitrary: s recs)
  case Nil
  then show ?case by (auto simp: ledger_run_def intro!: exI [of _ "[]"])
next
  case (Cons ev evs)
  from Cons.prems obtain r s1 rest where p: "process env s ev = Inr (r, s1)" and i: "iterate env s1 evs = (rest, Inr s')"
    unfolding iterate_Cons by blast
  from process_ledger [OF p] obtain xs where xs: "ledger_run (rn_ledger s) xs = Inr (rn_ledger s1)"
    "settlements xs = scored env ev" "finances xs = charged ev"
    "\<forall>f. EFill f \<in> set xs \<longrightarrow> (\<exists>e. ev = Market e \<and> me_decide e \<and> fl_time_ms f = me_time e)" by blast
  from Cons.IH [OF i] obtain ys where ys: "ledger_run (rn_ledger s1) ys = Inr (rn_ledger s')"
    "settlements ys = concat (map (scored env) evs)" "finances ys = concat (map charged evs)"
    "\<forall>f. EFill f \<in> set ys \<longrightarrow> (\<exists>e. Market e \<in> set evs \<and> me_decide e \<and> fl_time_ms f = me_time e)" by blast
  have "\<forall>f. EFill f \<in> set (xs @ ys) \<longrightarrow> (\<exists>e. Market e \<in> set (ev # evs) \<and> me_decide e \<and> fl_time_ms f = me_time e)"
    using xs(4) ys(4) by (metis Un_iff list.set_intros set_append)
  then show ?case using xs(1-3) ys(1-3) by (intro exI [of _ "xs @ ys"]) (simp add: ledger_run_append)
qed

section \<open>Records\<close>

lemma process_record:
  assumes "process env s ev = Inr (r, s')"
  shows "rn_curves s \<subseteq>\<^sub>m rn_curves s'"
    and "r = Some rec \<Longrightarrow> reports rec s'"
    and "r = Some rec \<Longrightarrow> rc_time rec = event_time ev"
    and "r = Some rec \<Longrightarrow> rc_admitted rec \<Longrightarrow> \<exists>d. rc_impact rec = Some d \<and> rn_curves s' (rc_fold rec) = Some d"
    and "r = Some rec \<Longrightarrow> (rc_decision rec \<noteq> None) = (move_of env ev = Decide)"
    and "r = None \<Longrightarrow> move_of env ev = Warm"
proof -
  obtain s1 where s1: "s1 = s\<lparr>rn_last_time := event_time ev, rn_ids := insert (event_id ev) (rn_ids s)\<rparr>"
    and p: "case ev of Funding e \<Rightarrow> process_funding env s1 e = Inr (r, s') | Market e \<Rightarrow> process_market env s1 e = Inr (r, s')"
    by (rule processE [OF assms])
  have "rn_curves s1 \<subseteq>\<^sub>m rn_curves s' \<and>
    (\<forall>rec. r = Some rec \<longrightarrow> reports rec s' \<and> rc_time rec = event_time ev
      \<and> (rc_admitted rec \<longrightarrow> (\<exists>d. rc_impact rec = Some d \<and> rn_curves s' (rc_fold rec) = Some d))
      \<and> (rc_decision rec \<noteq> None) = (move_of env ev = Decide))
    \<and> (r = None \<longrightarrow> move_of env ev = Warm)"
  proof (cases ev)
    case (Funding e)
    then have pf: "process_funding env s1 e = Inr (r, s')" using p by simp
    show ?thesis
    proof (cases "fe_time e < cg_start (en_config env)")
      case True
      have "r = None \<and> rn_curves s' = rn_curves s1" by (rule process_fundingE [OF pf]) (use True in simp)
      then show ?thesis using True Funding by (simp add: move_of_def)
    next
      case False
      have "rn_curves s' = rn_curves s1 \<and> (\<exists>rec. r = Some rec \<and> \<not> rc_admitted rec \<and> rc_decision rec = None
          \<and> rc_time rec = fe_time e \<and> reports rec s')"
        by (rule process_fundingE [OF pf]) (use False in simp)
      then show ?thesis using False Funding by (auto simp: move_of_def)
    qed
  next
    case (Market e)
    then have pm: "process_market env s1 e = Inr (r, s')" using p by simp
    show ?thesis
      by (rule process_marketE [OF pm]) (use Market in \<open>auto simp: move_of_def\<close>)
  qed
  then show "rn_curves s \<subseteq>\<^sub>m rn_curves s'"
    "r = Some rec \<Longrightarrow> reports rec s'"
    "r = Some rec \<Longrightarrow> rc_time rec = event_time ev"
    "r = Some rec \<Longrightarrow> rc_admitted rec \<Longrightarrow> \<exists>d. rc_impact rec = Some d \<and> rn_curves s' (rc_fold rec) = Some d"
    "r = Some rec \<Longrightarrow> (rc_decision rec \<noteq> None) = (move_of env ev = Decide)"
    "r = None \<Longrightarrow> move_of env ev = Warm"
    by (auto simp: s1)
qed

text \<open>Records of a run, also of one that ends in an exception.\<close>

lemma iterate_split:
  "iterate env s (ev # evs) = (recs, fin) \<Longrightarrow>
     (\<exists>e. process env s ev = Inl e \<and> recs = [] \<and> fin = Inl e) \<or>
     (\<exists>r s1 rest. process env s ev = Inr (r, s1) \<and> iterate env s1 evs = (rest, fin)
        \<and> recs = (case r of None \<Rightarrow> rest | Some x \<Rightarrow> x # rest))"
  by (auto split: sum.splits prod.splits)

lemma iterate_sealed:
  assumes "iterate env s evs = (recs, fin)"
  shows "\<exists>C. rn_curves s \<subseteq>\<^sub>m C \<and> (\<forall>rec \<in> set recs. rc_admitted rec \<longrightarrow> (\<exists>d. rc_impact rec = Some d \<and> C (rc_fold rec) = Some d))"
  using assms
proof (induction evs arbitrary: s recs)
  case Nil
  then show ?case by (auto intro: exI [of _ "rn_curves s"])
next
  case (Cons ev evs)
  from iterate_split [OF Cons.prems] show ?case
  proof
    assume "\<exists>r s1 rest. process env s ev = Inr (r, s1) \<and> iterate env s1 evs = (rest, fin)
        \<and> recs = (case r of None \<Rightarrow> rest | Some x \<Rightarrow> x # rest)"
    then obtain r s1 rest where p: "process env s ev = Inr (r, s1)" and i: "iterate env s1 evs = (rest, fin)"
      and recs: "recs = (case r of None \<Rightarrow> rest | Some x \<Rightarrow> x # rest)" by blast
    from Cons.IH [OF i] obtain C where C: "rn_curves s1 \<subseteq>\<^sub>m C"
      "\<forall>rec \<in> set rest. rc_admitted rec \<longrightarrow> (\<exists>d. rc_impact rec = Some d \<and> C (rc_fold rec) = Some d)" by blast
    have "rn_curves s \<subseteq>\<^sub>m C" using process_record(1) [OF p] C(1) by (rule map_le_trans)
    moreover have "\<exists>d. rc_impact rec = Some d \<and> C (rc_fold rec) = Some d" if "r = Some rec" "rc_admitted rec" for rec
      using process_record(4) [OF p that] C(1) by (force simp: map_le_def)
    ultimately show ?thesis using C(2) recs by (cases r) auto
  qed (auto intro: exI [of _ "rn_curves s"])
qed

text \<open>A property of the runner that every record reports.\<close>

definition record_ok :: "study_record \<Rightarrow> bool" where
  "record_ok rec \<longleftrightarrow>
     0 \<le> rc_quantity rec \<and> (rc_planned rec = None \<longleftrightarrow> rc_quantity rec = 0) \<and> 0 \<le> rc_held rec
     \<and> (\<forall>n. rc_planned rec = Some n \<longrightarrow> rc_held rec \<le> n \<and> (rc_decision rec \<noteq> None \<longrightarrow> rc_held rec < n))"

lemma reports_ok:
  assumes "reports rec s" "clocks env ph s" "carries s" "ledger_inv (rn_ledger s)"
    and "rc_decision rec \<noteq> None \<Longrightarrow> ph = Waiting"
  shows "record_ok rec"
proof -
  obtain x where x: "neutral (rn_ledger s) x" "rn_position s = None \<longleftrightarrow> x = 0" using assms(3) by (auto simp: carries_def)
  have x0: "0 \<le> x" using assms(4) x(1) by (auto simp: ledger_inv_def spot_ok_def neutral_def)
  have q: "rc_quantity rec = x" using assms(1) x(1) d60_d50 [of x] by (simp add: reports_def neutral_def)
  have p: "0 \<le> ps_held p \<and> ps_held p \<le> ps_planned p \<and> (ph = Waiting \<longrightarrow> ps_held p < ps_planned p)"
    if "rn_position s = Some p" for p
    using assms(2) that by (cases ph) (auto simp: clocks_def position_age_def Let_def)
  show ?thesis
    using assms(1,5) q x0 x(2) p by (cases "rn_position s") (auto simp: record_ok_def reports_def)
qed

lemma process_ledger_inv:
  assumes "process env s ev = Inr (r, s')" "ledger_inv (rn_ledger s)"
  shows "ledger_inv (rn_ledger s')"
proof -
  obtain les where "ledger_run (rn_ledger s) les = Inr (rn_ledger s')" using process_ledger [OF assms(1)] by (elim exE conjE)
  then show ?thesis by (rule ledger_run_inv [OF assms(2)])
qed

lemma iterate_records:
  assumes "iterate env s evs = (recs, fin)" "clocks env ph s" "carries s" "ledger_inv (rn_ledger s)" "config_ok (en_config env)"
  shows "list_all record_ok recs"
  using assms
proof (induction evs arbitrary: s ph recs)
  case Nil
  then show ?case by simp
next
  case (Cons ev evs)
  from iterate_split [OF Cons.prems(1)] show ?case
  proof
    assume "\<exists>r s1 rest. process env s ev = Inr (r, s1) \<and> iterate env s1 evs = (rest, fin)
        \<and> recs = (case r of None \<Rightarrow> rest | Some x \<Rightarrow> x # rest)"
    then obtain r s1 rest where p: "process env s ev = Inr (r, s1)" and i: "iterate env s1 evs = (rest, fin)"
      and recs: "recs = (case r of None \<Rightarrow> rest | Some x \<Rightarrow> x # rest)" by blast
    from process_step [OF p Cons.prems(2,3,5)] obtain ph1 where
      ph: "phase_step ph (move_of env ev) ph1" "clocks env ph1 s1" "carries s1" by blast
    have l: "ledger_inv (rn_ledger s1)" using p Cons.prems(4) by (rule process_ledger_inv)
    have rest: "list_all record_ok rest" using Cons.IH [OF i ph(2,3) l Cons.prems(5)] .
    have "record_ok rec" if "r = Some rec" for rec
    proof (rule reports_ok [OF process_record(2) [OF p that] ph(2,3) l])
      assume "rc_decision rec \<noteq> None"
      then have "move_of env ev = Decide" using process_record(5) [OF p that] by simp
      then show "ph1 = Waiting" using ph(1) by (auto elim: phase_stepE)
    qed
    then show ?thesis using rest recs by (cases r) auto
  qed auto
qed

section \<open>Times\<close>

lemma process_times:
  assumes "process env s ev = Inr (r, s')" "clocks env ph s" "config_ok (en_config env)"
  shows "event_time ev \<le> rn_next_decision s'" "rn_next_decision s \<le> rn_next_decision s'"
proof -
  have pos: "0 < period_ms env" using assms(3) by (rule period_pos)
  have start: "cg_start (en_config env) \<le> rn_next_decision s"
    using assms(2,3) pos by (cases ph) (auto simp: clocks_def config_ok_def settlement_guard_ms_def Let_def)
  obtain s1 where s1: "s1 = s\<lparr>rn_last_time := event_time ev, rn_ids := insert (event_id ev) (rn_ids s)\<rparr>"
    and p: "case ev of Funding e \<Rightarrow> process_funding env s1 e = Inr (r, s') | Market e \<Rightarrow> process_market env s1 e = Inr (r, s')"
    by (rule processE [OF assms(1)])
  show m: "rn_next_decision s \<le> rn_next_decision s'"
  proof (cases ev)
    case (Funding e)
    then have "process_funding env s1 e = Inr (r, s')" using p by simp
    then show ?thesis by (rule process_fundingE) (simp add: s1)
  next
    case (Market e)
    then have "process_market env s1 e = Inr (r, s')" using p by simp
    then show ?thesis by (rule process_marketE) (use pos in \<open>simp add: s1 period_ms_def\<close>)
  qed
  have "event_time ev < cg_start (en_config env) \<or> event_time ev \<le> rn_next_decision s"
    using assms(1) unfolding process_def Let_def bnd_eq_Inr guard_eq_Inr by auto
  then show "event_time ev \<le> rn_next_decision s'" using m start by linarith
qed

lemma iterate_times:
  assumes "iterate env s evs = (recs, Inr s')" "clocks env ph s" "carries s" "config_ok (en_config env)"
  shows "(\<forall>ev \<in> set evs. event_time ev \<le> rn_next_decision s') \<and> rn_next_decision s \<le> rn_next_decision s'"
  using assms
proof (induction evs arbitrary: s ph recs)
  case Nil
  then show ?case by auto
next
  case (Cons ev evs)
  from Cons.prems(1) obtain r s1 rest where p: "process env s ev = Inr (r, s1)" and i: "iterate env s1 evs = (rest, Inr s')"
    unfolding iterate_Cons by blast
  from process_step [OF p Cons.prems(2-4)] obtain ph1 where c: "clocks env ph1 s1" "carries s1" by blast
  show ?case
    using process_times [OF p Cons.prems(2,4)] Cons.IH [OF i c Cons.prems(4)] by auto
qed

lemma iterate_append:
  "iterate env s (xs @ ys) =
     (case iterate env s xs of
        (recs, Inl e) \<Rightarrow> (recs, Inl e)
      | (recs, Inr s1) \<Rightarrow> (recs @ fst (iterate env s1 ys), snd (iterate env s1 ys)))"
  by (induction xs arbitrary: s) (auto split: sum.splits prod.splits option.splits)

end
