(* ===== verification/WalkForwardProps.thy ===== *)
theory WalkForwardProps
  imports WalkForwardInv
begin

text \<open>The properties of the walk-forward runner (\<open>strategy/walk_forward.py\<close>), and one study run in full.\<close>

section \<open>A run from its configuration\<close>

lemma iter_backtestE:
  assumes "mk_run_config (en_config env) = Inr c" "valid_schedule (en_fees env)" "iter_backtest env evs = (recs, fin)"
  shows "config_ok (en_config env) \<and> (mk_runner env = Inr s0 \<longrightarrow>
      iterate env s0 evs = (recs, fin) \<and> clocks env Warmup s0 \<and> carries s0 \<and> ledger_inv (rn_ledger s0)
      \<and> rn_curves s0 = Map.empty
      \<and> ledger_start (cg_symbol (en_config env)) (cg_capital (en_config env)) (cg_start (en_config env)) (en_fees env)
          = Inr (rn_ledger s0))"
proof -
  have ok: "config_ok (en_config env)" using mk_run_config_ok [OF assms(1)] by simp
  show ?thesis
    using ok assms(3) mk_runner_inv(1-4) [OF _ ok] ledger_start_inv [OF mk_runner_inv(3) [OF _ ok] assms(2)]
    by (auto simp: iter_backtest_def)
qed

lemma backtest_start:
  "iter_backtest env evs = (recs, Inr s) \<Longrightarrow> \<exists>s0. mk_runner env = Inr s0"
  by (auto simp: iter_backtest_def split: sum.splits)

section \<open>A concrete study\<close>

text \<open>
  Three warmup settlements, the first settlement of the study, an entry of four units at the decision that
  follows it (the size computed in \<^const>\<open>example_size\<close>), and a later valuation.
\<close>

definition study_config :: run_config where
  "study_config = \<lparr>cg_symbol = ''BTCUSDT'', cg_warmup = 2592000000, cg_start = 2678400000, cg_end = 5097600000,
     cg_capital = Fin 13000, cg_collateral = Fin (1 / 2), cg_policy = example_policy, cg_mode = ''book'',
     cg_seed = 0, cg_draws = 2, cg_days = 90, cg_min = 3, cg_interval = 8, cg_prior = example_prior,
     cg_impact_days = 90, cg_delay = 16000\<rparr>"

definition study_numpy :: numpy where
  "study_numpy = \<lparr>np_matvec = (\<lambda>_ _. []), np_gram = (\<lambda>_ _. [[Fin 0, Fin 0], [Fin 0, Fin 0]]), np_dot = (\<lambda>_ _. Fin 0),
     np_solve = (\<lambda>_ _. Inr [Fin 0, Fin 0]), np_solve_mat = (\<lambda>_ m. Inr m), np_gram_vec = (\<lambda>_ _. [Fin 0, Fin 0]),
     np_eigmin = (\<lambda>_. Inr (Fin 1)), np_quad = (\<lambda>_ _. Fin 0)\<rparr>"

definition study_draws :: draws where
  "study_draws = \<lparr>dr_sample = (\<lambda>_ n _. replicate n (Fin 0, Fin 0, Fin 1)),
     dr_normal = (\<lambda>_ n k. replicate n (if k = 0 then Fin 10000 else Fin 0))\<rparr>"

definition study_provider :: "int \<Rightarrow> market \<Rightarrow> unit snapshot res" where
  "study_provider t m = Inr \<lparr>sn_symbol = ''BTCUSDT'', sn_time = t, sn_book = ()\<rparr>"

definition study_walk :: "unit \<Rightarrow> bool \<Rightarrow> pynum \<Rightarrow> walk_result res" where
  "study_walk book buy quantity = Inr \<lparr>wr_exhausted = False, wr_crossed = False, wr_beyond = False, wr_filled = quantity,
     wr_mid = Fin 1, wr_average = Fin 1\<rparr>"

definition study_period :: "market \<Rightarrow> fee_period" where
  "study_period m = \<lparr>fp_symbol = ''BTCUSDT'', fp_market = m, fp_start_ms = 0, fp_end_ms = 5097600000,
     fp_taker_fraction = 0, fp_source = ''https://x'', fp_observed_at_ms = 0, fp_kind = Assumption\<rparr>"

definition study_fees :: fee_schedule where
  "study_fees = \<lparr>fs_periods = [study_period Spot, study_period Perp], fs_allow_assumptions = True\<rparr>"

definition study_env :: env where
  "study_env = \<lparr>en_config = study_config, en_fees = study_fees, en_mode = ''book'',
     en_fills = book_fills study_provider study_walk, en_numpy = study_numpy, en_draws = study_draws,
     en_numerics = example_numerics, en_digest = (\<lambda>_. example_digest), en_seed = (\<lambda>_ _ _. 603)\<rparr>"

definition study_funding :: "string \<Rightarrow> int \<Rightarrow> funding_event" where
  "study_funding i t = \<lparr>fe_id = i, fe_time = t, fe_rate = Fin (1 / 1024), fe_interval = 8, fe_mark = Some (Fin 1)\<rparr>"

definition study_market :: "string \<Rightarrow> int \<Rightarrow> bool \<Rightarrow> market_event" where
  "study_market i t d = \<lparr>me_id = i, me_time = t, me_spot_mid = Fin 1, me_perp_mid = Fin 1,
     me_marks = \<lparr>mk_symbol = ''BTCUSDT'', mk_time_ms = t, mk_spot = Fin 1, mk_perp = Fin 1\<rparr>,
     me_opportunity = Some example_opportunity, me_decide = d, me_financing = Fin 0\<rparr>"

definition study_warmup :: "event list" where
  "study_warmup = [Funding (study_funding ''a'' 2592000000), Funding (study_funding ''b'' 2620800000),
     Funding (study_funding ''c'' 2649600000)]"

definition study_events :: "event list" where
  "study_events = study_warmup @ [Funding (study_funding ''d'' 2678400000),
     Market (study_market ''e'' 2678416000 True), Market (study_market ''f'' 2678417000 False)]"

lemma month_starts: "month_start_ms 2678400000 = 2678400000" "month_start_ms 5097600000 = 5097600000"
    "month_start_ms 2678416000 = 2678400000" "month_start_ms 2678417000 = 2678400000"
  by code_simp+

lemma study_config_ok: "mk_run_config study_config = Inr study_config"
  by (simp add: mk_run_config_def study_config_def integer_def decimal_def config_scope_def settlement_guard_ms_def
      hour_ms_def max_ms_def month_starts cong: eval_cong)

lemma study_fees_ok: "valid_schedule study_fees"
  by (simp add: study_fees_def valid_schedule_def valid_period_def study_period_def overlap_def)

lemma study_quote: "0 \<le> t \<Longrightarrow> t < 5097600000 \<Longrightarrow> quote study_fees ''BTCUSDT'' m t = Inr 0"
  by (cases m) (simp_all add: quote_def timestamp_def study_fees_def study_period_def covers_def)

lemma study_env_simps [simp]:
  "en_config study_env = study_config" "en_fees study_env = study_fees" "en_mode study_env = ''book''"
  "en_fills study_env = book_fills study_provider study_walk" "en_numerics study_env = example_numerics"
  "en_numpy study_env = study_numpy" "en_draws study_env = study_draws" "en_seed study_env a b c = 603"
  "en_digest study_env m = example_digest"
  "cg_symbol study_config = ''BTCUSDT''" "cg_start study_config = 2678400000" "cg_end study_config = 5097600000"
  "cg_warmup study_config = 2592000000" "cg_collateral study_config = Fin (1 / 2)" "cg_policy study_config = example_policy"
  "cg_interval study_config = 8" "cg_draws study_config = 2" "cg_mode study_config = ''book''"
  by (simp_all add: study_env_def study_config_def)

definition study_ledger :: ledger where
  "study_ledger = \<lparr>ld_symbol = ''BTCUSDT'', ld_initial = 13000, ld_next_funding = 2678400000,
     ld_schedule = study_fees, ld_cash = 13000, ld_time = 0, ld_spot = empty_leg, ld_perp = empty_leg,
     ld_funding = 0, ld_fees = 0, ld_financing = 0, ld_execution_cost = 0, ld_last_funding = None, ld_event_ids = {}\<rparr>"

definition study_model :: "int list \<Rightarrow> rolling" where
  "study_model ts = example_rolling\<lparr>rf_history := map (\<lambda>t. (t, Fin (1 / 1024), 8)) ts\<rparr>"

definition study_start :: runner where
  "study_start = \<lparr>rn_model = study_model [], rn_ledger = study_ledger, rn_position = None, rn_last_time = 2592000000,
     rn_next_obs = 2592000000, rn_ids = {}, rn_curves = Map.empty, rn_next_decision = 2678416000\<rparr>"

definition study_warm :: runner where
  "study_warm = study_start\<lparr>rn_model := study_model [2592000000, 2620800000, 2649600000], rn_last_time := 2649600000,
     rn_next_obs := 2678400000, rn_ids := {''a'', ''b'', ''c''}\<rparr>"

definition study_settled :: runner where
  "study_settled = study_start\<lparr>rn_model := study_model [2592000000, 2620800000, 2649600000, 2678400000],
     rn_ledger := study_ledger\<lparr>ld_next_funding := 2707200000, ld_last_funding := Some 2678400000,
        ld_time := 2678400000, ld_event_ids := {''d''}\<rparr>,
     rn_last_time := 2678400000, rn_next_obs := 2707200000, rn_ids := {''a'', ''b'', ''c'', ''d''}\<rparr>"

lemmas study_eval = study_funding_def study_market_def study_start_def study_warm_def study_ledger_def
  study_settled_def study_model_def

lemma study_mk_runner: "mk_runner study_env = Inr study_start"
  by (simp add: mk_runner_def study_eval study_config_def example_mk_rolling ledger_start_def decimal_def timestamp_def
      hour_ms_def example_rolling_def cong: eval_cong)

lemma study_rate: "float_of_dec (1 / 1024) = Fin (1 / 1024)" "\<not> flt rate_bound (fabs (Fin (1 / 1024)))"
  using example_rates_sane by (simp_all add: float_of_dec_def fabs_def short_float)

lemma study_warmup_runs: "iterate study_env study_start study_warmup = ([], Inr study_warm)"
  using study_rate
  by (simp add: study_warmup_def process_def process_funding_def integer_def study_eval decimal_def rf_update_def rf_integer_def
      rf_continue_def example_rolling_def day_ms_def hour_ms_def jitter_ms_def insert_commute cong: eval_cong)

lemma study_settle:
  "\<exists>r. process study_env study_warm (Funding (study_funding ''d'' 2678400000)) = Inr (Some r, study_settled)"
  using study_rate
  by (simp add: process_def process_funding_def settle_position_def reserve_def collateral_shortfall_def unrealized60_def
      record_of_def integer_def study_eval decimal_def timestamp_def
      rf_update_def rf_integer_def rf_continue_def example_rolling_def day_ms_def hour_ms_def jitter_ms_def
      ledger_settle_def check_event_def empty_leg_def mark_value_def ops50 short_eval max_ms_def month_starts
      cong: eval_cong) (simp add: Let_def insert_commute)

definition study_charged :: ledger where \<comment> \<open>after the financing of the first decision\<close>
  "study_charged = study_ledger\<lparr>ld_next_funding := 2707200000, ld_last_funding := Some 2678400000,
        ld_time := 2678416000, ld_event_ids := {''d'', ''e:finance''}\<rparr>"

definition study_before :: runner where
  "study_before = study_settled\<lparr>rn_last_time := 2678416000, rn_ids := {''a'', ''b'', ''c'', ''d'', ''e''},
     rn_ledger := study_charged\<rparr>"

definition study_opened :: ledger where
  "study_opened = study_charged\<lparr>ld_cash := 12996, ld_spot := \<lparr>lg_quantity = 4, lg_basis = 4, lg_realized = 0\<rparr>,
     ld_perp := \<lparr>lg_quantity = - 4, lg_basis = - 4, lg_realized = 0\<rparr>,
     ld_event_ids := {''d'', ''e:finance'', ''e:spot'', ''e:perp''}\<rparr>"

definition study_position :: position where
  "study_position = \<lparr>ps_symbol = ''BTCUSDT'', ps_notional = Fin 4, ps_opened = 2678416000, ps_planned = 3,
     ps_held = 0, ps_interval = 8\<rparr>"

definition study_entered :: runner where
  "study_entered = study_before\<lparr>rn_curves := [2678400000 \<mapsto> example_digest], rn_ledger := study_opened,
     rn_position := Some study_position\<rparr>"

abbreviation study_entry :: market_event where
  "study_entry \<equiv> study_market ''e'' 2678416000 True"

lemma study_forecast: "forecast_at study_env study_before 2678416000 3 = Inr (sc_forecast example_context)"
proof -
  let ?m = "study_model [2592000000, 2620800000, 2649600000, 2678400000]"
  have sel: "rf_selection ?m (Some 2678416000)
      = Inr (2678416000, map (\<lambda>t. (t, Fin (1 / 1024), 8)) [2592000000, 2620800000, 2649600000, 2678400000])"
    by (simp add: rf_selection_def study_model_def example_rolling_def rf_integer_def hour_ms_def day_ms_def jitter_ms_def)
  have post: "\<exists>po. rf_posterior study_numpy ?m (Some 2678416000) = Inr po"
    unfolding rf_posterior_def sel
    by (simp add: fit_def validate_rates_def study_model_def example_rolling_def example_prior_def default_prior_def
        to_bps_def design_rows_def study_numpy_def madd_def vadd_def vsub_def mat_fin_def fsub_def short_float
        cong: eval_cong)
  then obtain po where po: "rf_posterior study_numpy ?m (Some 2678416000) = Inr po" by blast
  have "predict_cumulative_funding study_numpy study_draws ?m 3 (Some 2678416000) 2 603
      = Inr (ff_prediction (the (sc_forecast example_context)))"
    by (simp add: predict_cumulative_funding_def rf_integer_def sel po study_draws_def example_context_def path_step_def
        np_sqrt_def fsqrt_1 bps_def upt_rec short_float Let_def)
  then show ?thesis
    by (simp add: forecast_at_def study_before_def study_settled_def study_start_def from_model_def study_config_def
        mk_funding_forecast_def example_digest_ok catch_model_def example_context_def)
qed

lemma study_admit: "admit study_env study_before study_entry
    = Inr (Some example_opportunity, study_before\<lparr>rn_curves := [2678400000 \<mapsto> example_digest]\<rparr>)"
  by (simp add: admit_def study_market_def max_ms_def month_starts admit_refused_def example_opportunity_def
      example_market_def example_size_curve_def example_policy_def day_ms_def float_of_dec_def short_float
      study_before_def study_settled_def study_start_def Let_def)

lemma repr_1250: "repr_dec 1250 = 1250"
proof -
  have i: "ilog 10 (1250 :: rat) = 3" by (simp add: ilog_def ndigits.simps)
  have f: "fl 1000 = Fin 1000" "fl 2000 = Fin 2000" "fl 1200 = Fin 1200" "fl 1300 = Fin 1300" "fl 1250 = Fin 1250"
    by (simp_all add: short_float)
  have r: "\<lfloor>5 / 4 :: rat\<rfloor> = 1" "\<lfloor>25 / 2 :: rat\<rfloor> = 12" by (simp_all add: floor_unique)
  have r': "\<lceil>5 / 4 :: rat\<rceil> = 2" "\<lceil>25 / 2 :: rat\<rceil> = 13" by (simp_all add: ceiling_unique)
  have c: "repr_candidates 1250 1 = []" "repr_candidates 1250 2 = []" "repr_candidates 1250 3 = [1250, 1250]"
    by (simp_all add: repr_candidates_def i f r r' power_int_numeral)
  have up: "[1..<18] = (1 :: nat) # 2 # 3 # [4..<18]"
    by (simp add: upt_rec)
  show ?thesis unfolding repr_dec_def up using c by (simp add: nearest_def)
qed

lemma study_charges: "event_charges study_env study_entry example_opportunity = Inr example_charges"
proof -
  have z: "float_of_dec 0 = Fin 0" "float_of_dec (d60 1) = Fin 1"
    by (simp add: float_of_dec_def, simp add: float_of_dec_def short_eval short_float)
  have "mk_charges example_charges = Inr example_charges"
    by (simp add: mk_charges_def number_def fixed_fraction_def bps_def fabs_def fsub_def example_charges_def)
  then show ?thesis
    by (simp add: event_charges_def study_quote study_market_def example_opportunity_def z Let_def)
      (simp add: example_charges_def)
qed

lemma study_cap: "entry_cap study_env s study_entry example_opportunity 0 0 = Inr 8000" if "ld_cash (rn_ledger s) = 13000"
proof -
  have w: "fadd (fmul (Fin 625) (nm_root example_numerics (Fin 4))) (Fin 0) = Fin 1250"
    by (simp add: example_numerics_def example_step_root_def short_float)
  have d: "d60 1 = 1" "d60 (1 / 2) = 1 / 2" "d60 (3 / 2) = 3 / 2" "d60 (1 / 8) = 1 / 8" "d60 (13 / 8) = 13 / 8" "d60 8000 = 8000"
    by (simp_all add: short_eval)
  have x: "ic_sell (op_curve example_opportunity) = Fin 625" "ic_size_max (op_curve example_opportunity) = Fin 4"
    "op_half_spread example_opportunity = Fin 0" "me_perp_mid study_entry = Fin 1"
    by (simp_all add: example_opportunity_def example_size_curve_def study_market_def)
  have u: "entry_unit study_env study_entry example_opportunity 0 0 1250 = 13 / 8"
    by (simp add: entry_unit_def study_market_def example_opportunity_def example_repr d Let_def)
  show ?thesis
    by (simp add: entry_cap_def that x w repr_1250 u d)
qed

lemma study_trade:
  assumes "rn_ledger s = study_charged"
  shows "trade study_env s study_entry 4 True = Inr (True, s\<lparr>rn_ledger := study_opened\<rparr>)"
proof -
  let ?fs = "[make_fill study_entry Spot 4 (Fin 1), make_fill study_entry Perp (- 4) (Fin 1)]"
  have f4: "float_of_dec 4 = Fin 4" by (simp add: float_of_dec_def short_float)
  have d: "d60 4 = 4" "d60 (- 4) = - 4" by (simp_all add: short_eval)
  have fs: "book_fills study_provider study_walk study_entry 4 True = Inr ?fs"
    using example_repr(1)
    by (simp add: book_fills_def book_fill_def study_provider_def study_walk_def walk_refused_def isclose_def f4 d
        dec_val_def mid_of_def study_market_def)
  have pr: "paired study_entry ''BTCUSDT'' 4 True ?fs"
    by (simp add: paired_def fill_scope_def make_fill_def mid_of_def d) (simp add: study_market_def)
  have q: "quote study_fees ''BTCUSDT'' m 2678416000 = Inr 0" for m by (rule study_quote) simp_all
  have l: "fold_res ledger_fill study_charged ?fs = Inr study_opened"
    by (simp add: ledger_fill_def check_event_def timestamp_def decimal_def apply_fill_def leg_trade_def get_leg_def
        set_leg_def perp_guarded_def settlement_guard_ms_def ops50 short_eval make_fill_def mid_of_def market_name_def
        study_market_def study_charged_def study_ledger_def study_opened_def empty_leg_def q insert_commute cong: eval_cong)
  have c: "\<not> collateral_shortfall study_env study_opened 1"
    by (simp add: collateral_shortfall_def unrealized60_def study_opened_def study_charged_def study_ledger_def short_eval)
  have m: "mk_perp (me_marks study_entry) = Fin 1" by (simp add: study_market_def)
  show ?thesis
    by (simp add: trade_def trade_admission_def fs pr assms l c m del: fold_res.simps)
qed

lemma study_enter:
  "take_decision study_env study_before study_entry
     = Inr ((sr_decision example_size, sc_forecast example_context, Some example_size), study_entered)"
proof -
  let ?s = "study_before\<lparr>rn_curves := [2678400000 \<mapsto> example_digest]\<rparr>"
  have e: "me_time study_entry = 2678416000" "dec_of (me_perp_mid study_entry) = 1" by (simp_all add: study_market_def)
  have pos: "rn_position study_before = None" by (simp add: study_before_def study_settled_def study_start_def)
  have h: "pl_horizon example_policy = 3" by (simp add: example_policy_def)
  have cash: "ld_cash (rn_ledger ?s) = 13000" by (simp add: study_before_def study_charged_def study_ledger_def)
  have market: "(op_market example_opportunity)\<lparr>si_max_notional := fmin (si_max_notional (op_market example_opportunity)) (float_of_dec 8000)\<rparr>
      = example_market"
    by (simp add: example_opportunity_def fmin_def float_of_dec_def short_float) (simp add: example_market_def)
  have mk: "mk_sizing_inputs example_market = Inr example_market"
    using example_market_ok by (simp add: market_ok_def)
  have ctx: "entry_context study_env study_entry example_opportunity (sc_forecast example_context) example_market example_charges
      = example_context"
    by (simp add: entry_context_def e) (simp add: example_context_def example_opportunity_def)
  have enter: "de_action (sr_decision example_size) = ''enter''" "sr_quantity example_size = 4"
    by (simp_all add: example_size_def example_lot_decision_def priced_def)
  have led: "rn_ledger ?s = study_charged" by (simp add: study_before_def)
  have opens: "open_position study_env ?s study_entry example_size = Inr (sr_decision example_size, study_entered)"
    by (simp add: open_position_def enter(2) study_trade [OF led] e h mk_position_def number_def integer_def float_of_dec_def
        short_eval short_float study_entered_def study_position_def cong: eval_cong)
  have q: "quote study_fees ''BTCUSDT'' m 2678416000 = Inr 0" for m by (rule study_quote) simp_all
  have "enter study_env ?s study_entry (Some example_opportunity) (sc_forecast example_context)
      = Inr ((sr_decision example_size, Some example_size), study_entered)"
    by (simp add: enter_def study_charges e q study_cap [OF cash] market mk ctx example_size_position enter(1) opens)
  then show ?thesis
    using study_forecast study_admit by (simp add: take_decision_def pos h e)
qed

lemma study_valued:
  assumes "l = study_charged \<or> l = study_opened \<or> l = study_opened\<lparr>ld_time := t, ld_event_ids := i\<rparr>"
    and "mk_symbol m = ''BTCUSDT''" "mk_spot m = Fin 1" "mk_perp m = Fin 1" "mk_time_ms m = t" "2678416000 \<le> t" "t < 2707200000"
  shows "\<exists>v. ledger_value l m = Inr v \<and> 0 < va_net_equity v"
  using assms(1) by (elim disjE; hypsubst)
    (use assms(2-7) in \<open>simp add: ledger_value_def timestamp_def decimal_def ops50 short_eval unrealized_def empty_leg_def
      study_opened_def study_charged_def study_ledger_def cong: eval_cong\<close>)+

lemma study_reserve:
  "rn_ledger s = study_charged \<or> rn_ledger s = study_opened \<or> rn_ledger s = study_opened\<lparr>ld_time := t, ld_event_ids := i\<rparr> \<Longrightarrow>
   reserve study_env s 1 = Inr ()"
  by (auto simp: reserve_def collateral_shortfall_def unrealized60_def empty_leg_def short_eval study_opened_def
      study_charged_def study_ledger_def)

lemma study_decide:
  "\<exists>r. process study_env study_settled (Market study_entry) = Inr (Some r, study_entered\<lparr>rn_next_decision := 2707216000\<rparr>)
     \<and> rc_decision r = Some (sr_decision example_size) \<and> rc_admitted r \<and> rc_fold r = 2678400000"
proof -
  define s1 where "s1 = study_settled\<lparr>rn_last_time := 2678416000, rn_ids := {''a'', ''b'', ''c'', ''d'', ''e''}\<rparr>"
  have s1: "study_settled\<lparr>rn_last_time := 2678416000, rn_ids := insert ''e'' (rn_ids study_settled)\<rparr> = s1"
    by (simp add: s1_def study_settled_def insert_commute)
  have s2: "s1\<lparr>rn_ledger := study_charged\<rparr> = study_before" by (simp add: s1_def study_before_def)
  have e: "me_id study_entry = ''e''" "me_time study_entry = 2678416000" "me_financing study_entry = Fin 0" "me_decide study_entry"
    "mk_perp (me_marks study_entry) = Fin 1" "me_opportunity study_entry = Some example_opportunity"
    by (simp_all add: study_market_def)
  have chk: "check_market study_env s1 study_entry = Inr ()"
    by (simp add: check_market_def decimal_def study_eval s1_def settlement_guard_ms_def cong: eval_cong)
  have fin: "ledger_finance (rn_ledger s1) (''e'' @ '':finance'') 2678416000 (Fin 0) = Inr study_charged"
    by (simp add: ledger_finance_def check_event_def timestamp_def decimal_def ops50 short_eval s1_def study_eval
        study_charged_def insert_commute cong: eval_cong)
  have val: "\<exists>v. ledger_value l (me_marks study_entry) = Inr v \<and> 0 < va_net_equity v"
    if "l = study_charged \<or> l = study_opened" for l
    by (rule study_valued [where i = "{}" and t = 2678416000])
      (use that in \<open>auto simp: study_market_def\<close>)
  obtain v w where v: "ledger_value study_charged (me_marks study_entry) = Inr v" "0 < va_net_equity v"
    and w: "ledger_value study_opened (me_marks study_entry) = Inr w"
    using val by blast
  have l: "rn_ledger study_before = study_charged" "rn_ledger study_entered = study_opened"
    "rn_next_decision study_entered = 2678416000"
    by (simp_all add: study_before_def study_entered_def study_settled_def study_start_def)
  let ?s = "study_entered\<lparr>rn_next_decision := 2707216000\<rparr>"
  have adm: "admit study_env ?s study_entry = Inr (Some example_opportunity, ?s)"
    by (simp add: admit_def study_market_def max_ms_def month_starts admit_refused_def example_opportunity_def
        example_market_def example_size_curve_def example_policy_def day_ms_def float_of_dec_def short_float
        study_entered_def study_before_def Let_def)
  have res: "reserve study_env study_before 1 = Inr ()" "reserve study_env study_entered 1 = Inr ()"
    using l study_reserve by blast+
  have sd: "scheduled_decision study_env study_before study_entry
      = Inr ((Some (sr_decision example_size), sc_forecast example_context, Some example_size), study_entered)"
    by (simp add: scheduled_decision_def e study_enter)
  have rec: "record_of study_env ?s (Market study_entry) ''market'' d (Some w) f z
      = Inr (Some (record_body study_env ?s (Market study_entry) ''market'' d (Some w) f z 2678400000 True), ?s)" for d f z
    by (simp add: record_of_def e adm max_ms_def month_starts)
  have pm: "\<exists>r. process_market study_env s1 study_entry = Inr (Some r, ?s)
     \<and> rc_decision r = Some (sr_decision example_size) \<and> rc_admitted r \<and> rc_fold r = 2678400000"
    using fin v by (simp add: process_market_def chk e Let_def s2 res sd l w hour_ms_def rec)
      (simp add: record_body_def Let_def)
  have nd: "rn_last_time study_settled \<le> 2678416000" "''e'' \<notin> rn_ids study_settled" "rn_next_decision study_settled = 2678416000"
    by (simp_all add: study_settled_def study_start_def)
  show ?thesis
    using pm nd by (simp add: process_def integer_def e s1 Let_def)
qed

lemma study_observe:
  "\<exists>r s. process study_env (study_entered\<lparr>rn_next_decision := 2707216000\<rparr>) (Market (study_market ''f'' 2678417000 False)) = Inr (Some r, s)
     \<and> rc_admitted r \<and> rc_fold r = 2678400000 \<and> rn_position s = Some study_position"
proof -
  let ?e = "study_market ''f'' 2678417000 False"
  define s1 where "s1 = study_entered\<lparr>rn_next_decision := 2707216000, rn_last_time := 2678417000,
    rn_ids := {''a'', ''b'', ''c'', ''d'', ''e'', ''f''}\<rparr>"
  define l where "l = study_opened\<lparr>ld_time := 2678417000, ld_event_ids := {''d'', ''e:finance'', ''e:spot'', ''e:perp'', ''f:finance''}\<rparr>"
  define s2 where "s2 = s1\<lparr>rn_ledger := l\<rparr>"
  have s1: "study_entered\<lparr>rn_next_decision := 2707216000, rn_last_time := 2678417000, rn_ids := insert ''f'' (rn_ids study_entered)\<rparr> = s1"
    by (simp add: s1_def study_entered_def study_before_def insert_commute)
  have e: "me_id ?e = ''f''" "me_time ?e = 2678417000" "me_financing ?e = Fin 0" "\<not> me_decide ?e"
    "mk_perp (me_marks ?e) = Fin 1" "me_opportunity ?e = Some example_opportunity"
    by (simp_all add: study_market_def)
  have chk: "check_market study_env s1 ?e = Inr ()"
    by (simp add: check_market_def decimal_def study_market_def s1_def cong: eval_cong)
  have fin: "ledger_finance (rn_ledger s1) (''f'' @ '':finance'') 2678417000 (Fin 0) = Inr l"
    by (simp add: ledger_finance_def check_event_def timestamp_def decimal_def ops50 short_eval s1_def l_def study_entered_def
        study_opened_def study_charged_def study_ledger_def insert_commute cong: eval_cong)
  have "\<exists>v. ledger_value l (me_marks ?e) = Inr v \<and> 0 < va_net_equity v"
    by (rule study_valued [where t = 2678417000]) (auto simp: study_market_def l_def)
  then obtain v where v: "ledger_value l (me_marks ?e) = Inr v" "0 < va_net_equity v" by blast
  have res: "reserve study_env s2 1 = Inr ()"
    by (rule study_reserve [where t = 2678417000]) (auto simp: s2_def l_def)
  have adm: "admit study_env s2 ?e = Inr (Some example_opportunity, s2)"
    by (simp add: admit_def study_market_def max_ms_def month_starts admit_refused_def example_opportunity_def
        example_market_def example_size_curve_def example_policy_def day_ms_def float_of_dec_def short_float
        s2_def s1_def study_entered_def Let_def)
  have l: "rn_ledger s2 = l" "rn_position s2 = Some study_position" by (simp_all add: s2_def s1_def study_entered_def)
  have rec: "record_of study_env s2 (Market ?e) ''market'' d (Some v) f z
      = Inr (Some (record_body study_env s2 (Market ?e) ''market'' d (Some v) f z 2678400000 True), s2)" for d f z
    by (simp add: record_of_def e adm max_ms_def month_starts)
  have pm: "\<exists>r. process_market study_env s1 ?e = Inr (Some r, s2) \<and> rc_admitted r \<and> rc_fold r = 2678400000"
    using fin v by (simp add: process_market_def scheduled_decision_def chk e Let_def res l rec flip: s2_def)
      (simp add: record_body_def Let_def)
  have nd: "rn_last_time study_entered \<le> 2678417000" "''f'' \<notin> rn_ids study_entered"
    by (simp_all add: study_entered_def study_before_def)
  show ?thesis
    using pm nd l by (simp add: process_def integer_def e s1 Let_def) blast
qed

lemma study_runs:
  "\<exists>r1 r2 r3 s. iter_backtest study_env study_events = ([r1, r2, r3], Inr s) \<and> rc_admitted r2 \<and> rc_admitted r3
     \<and> rc_fold r2 = rc_fold r3 \<and> rc_decision r2 = Some (sr_decision example_size) \<and> rn_position s = Some study_position"
proof -
  obtain r1 where r1: "process study_env study_warm (Funding (study_funding ''d'' 2678400000)) = Inr (Some r1, study_settled)"
    using study_settle by blast
  obtain r2 where r2: "process study_env study_settled (Market study_entry) = Inr (Some r2, study_entered\<lparr>rn_next_decision := 2707216000\<rparr>)"
     "rc_decision r2 = Some (sr_decision example_size)" "rc_admitted r2" "rc_fold r2 = 2678400000"
    using study_decide by blast
  obtain r3 s where r3: "process study_env (study_entered\<lparr>rn_next_decision := 2707216000\<rparr>)
      (Market (study_market ''f'' 2678417000 False)) = Inr (Some r3, s)"
     "rc_admitted r3" "rc_fold r3 = 2678400000" "rn_position s = Some study_position"
    using study_observe by blast
  show ?thesis
    using r2 r3
    by (simp add: iter_backtest_def study_mk_runner study_events_def iterate_append study_warmup_runs r1)
qed

lemma study_ok: "mk_run_config (en_config study_env) = Inr study_config" "valid_schedule (en_fees study_env)"
  by (simp_all add: study_config_ok study_fees_ok)

section \<open>Properties\<close>

text \<open>C3: a study is delta neutral at every moment: after any accepted events the perp leg is exactly the
  opposite of the spot leg, the spot leg is never negative, and the legs are flat exactly when the runner
  holds no position. Rounding included: the closing trade returns both legs to zero.\<close>

theorem study_is_delta_neutral:
  assumes "mk_run_config (en_config env) = Inr c" "valid_schedule (en_fees env)"
    and "iter_backtest env evs = (recs, Inr s)"
  shows "lg_quantity (ld_perp (rn_ledger s)) = - lg_quantity (ld_spot (rn_ledger s))
    \<and> 0 \<le> lg_quantity (ld_spot (rn_ledger s))
    \<and> (rn_position s = None \<longleftrightarrow> lg_quantity (ld_spot (rn_ledger s)) = 0)"
proof -
  obtain s0 where "mk_runner env = Inr s0" using backtest_start [OF assms(3)] by blast
  with iter_backtestE [OF assms] have
    h: "iterate env s0 evs = (recs, Inr s)" "clocks env Warmup s0" "carries s0" "ledger_inv (rn_ledger s0)"
    "config_ok (en_config env)" by auto
  have "carries s" using iterate_phases [OF h(1-3,5)] by blast
  moreover have "ledger_inv (rn_ledger s)"
    using iterate_ledger [OF h(1)] ledger_run_inv [OF h(4)] by (elim exE conjE)
  ultimately show ?thesis by (auto simp: carries_def neutral_def ledger_inv_def spot_ok_def)
qed

lemma study_is_delta_neutral_witness:
  "\<exists>recs s. iter_backtest study_env study_events = (recs, Inr s) \<and> rn_position s \<noteq> None
     \<and> lg_quantity (ld_perp (rn_ledger s)) = - lg_quantity (ld_spot (rn_ledger s)) \<and> 0 < lg_quantity (ld_spot (rn_ledger s))"
proof -
  obtain recs s where r: "iter_backtest study_env study_events = (recs, Inr s)" "rn_position s = Some study_position"
    using study_runs by blast
  show ?thesis using study_is_delta_neutral [OF study_ok r(1)] r by auto
qed

text \<open>C6: the runner refines the abstract schedule: the moves of an accepted study, from its warmup, are a
  run of the phase machine, so every settlement is followed by exactly one decision before the next, and
  nothing but warmup observations precedes the first settlement.\<close>

theorem study_follows_the_schedule:
  assumes "mk_run_config (en_config env) = Inr c" "valid_schedule (en_fees env)"
    and "iter_backtest env evs = (recs, Inr s)"
  shows "\<exists>ph. phase_run Warmup (map (move_of env) evs) ph
    \<and> settle_count (map (move_of env) evs) = decide_count (map (move_of env) evs) + (if ph = Deciding then 1 else 0)"
proof -
  obtain s0 where "mk_runner env = Inr s0" using backtest_start [OF assms(3)] by blast
  with iter_backtestE [OF assms] have
    h: "iterate env s0 evs = (recs, Inr s)" "clocks env Warmup s0" "carries s0" "config_ok (en_config env)" by auto
  from iterate_phases [OF h] obtain ph where ph: "phase_run Warmup (map (move_of env) evs) ph" by blast
  show ?thesis using ph phase_run_counts [OF ph] by (intro exI [of _ ph]) simp
qed

lemma study_follows_the_schedule_witness:
  "\<exists>ph. phase_run Warmup [Warm, Warm, Warm, Settle, Decide, Observe] ph"
proof -
  obtain recs s where r: "iter_backtest study_env study_events = (recs, Inr s)" using study_runs by blast
  have "map (move_of study_env) study_events = [Warm, Warm, Warm, Settle, Decide, Observe]"
    by (simp add: study_events_def study_warmup_def move_of_def study_funding_def study_market_def)
  then show ?thesis using study_follows_the_schedule [OF study_ok r] by auto
qed

text \<open>C4: the runner refines the ledger: behind an accepted study there is one run of the ledger whose
  settlements are exactly the scored funding events in order, whose financing charges are exactly the
  market events in order, and whose fills all happen at decisions; perp fills and settlements therefore
  stay fifteen seconds apart.\<close>

theorem study_refines_the_ledger:
  assumes "mk_run_config (en_config env) = Inr c" "valid_schedule (en_fees env)"
    and "iter_backtest env evs = (recs, Inr s)"
  shows "\<exists>l0 les. ledger_start (cg_symbol (en_config env)) (cg_capital (en_config env)) (cg_start (en_config env)) (en_fees env) = Inr l0
    \<and> ledger_run l0 les = Inr (rn_ledger s)
    \<and> settlements les = concat (map (scored env) evs) \<and> finances les = concat (map charged evs)
    \<and> (\<forall>f. EFill f \<in> set les \<longrightarrow> (\<exists>e. Market e \<in> set evs \<and> me_decide e \<and> fl_time_ms f = me_time e))
    \<and> (\<forall>f t. EFill f \<in> set les \<and> ESettle t \<in> set les \<and> fl_market f = Perp \<longrightarrow>
         settlement_guard_ms < \<bar>fl_time_ms f - st_time_ms t\<bar>)"
proof -
  obtain s0 where "mk_runner env = Inr s0" using backtest_start [OF assms(3)] by blast
  with iter_backtestE [OF assms] have
    h: "iterate env s0 evs = (recs, Inr s)" "ledger_inv (rn_ledger s0)"
    "ledger_start (cg_symbol (en_config env)) (cg_capital (en_config env)) (cg_start (en_config env)) (en_fees env) = Inr (rn_ledger s0)"
    by auto
  from iterate_ledger [OF h(1)] obtain les where
    les: "ledger_run (rn_ledger s0) les = Inr (rn_ledger s)"
    "settlements les = concat (map (scored env) evs)" "finances les = concat (map charged evs)"
    "\<forall>f. EFill f \<in> set les \<longrightarrow> (\<exists>e. Market e \<in> set evs \<and> me_decide e \<and> fl_time_ms f = me_time e)"
    by (elim exE conjE)
  have "settlement_guard_ms < \<bar>fl_time_ms f - st_time_ms t\<bar>"
    if "EFill f \<in> set les \<and> ESettle t \<in> set les \<and> fl_market f = Perp" for f t
    using run_separation [OF h(2) les(1)] that by blast
  then show ?thesis using h(3) les by blast
qed

lemma study_refines_the_ledger_witness:
  "\<exists>l0 les recs s. iter_backtest study_env study_events = (recs, Inr s) \<and> ledger_run l0 les = Inr (rn_ledger s)
     \<and> settlements les = [settlement_of study_env (study_funding ''d'' 2678400000)]"
proof -
  obtain recs s where r: "iter_backtest study_env study_events = (recs, Inr s)" using study_runs by blast
  have "concat (map (scored study_env) study_events) = [settlement_of study_env (study_funding ''d'' 2678400000)]"
    by (simp add: study_events_def study_warmup_def scored_def) (simp add: study_funding_def)
  then show ?thesis
    using study_refines_the_ledger [OF study_ok r] r by metis
qed

text \<open>every record a study yields respects the plan of its position, also in a study that later fails:
  a quantity is reported exactly while a position is planned, the settlements held never exceed the plan,
  and right after a decision at least one planned settlement is still to come.\<close>

theorem records_respect_the_plan:
  assumes "mk_run_config (en_config env) = Inr c" "valid_schedule (en_fees env)"
    and "rec \<in> set (fst (iter_backtest env evs))"
  shows "0 \<le> rc_quantity rec \<and> (rc_planned rec = None \<longleftrightarrow> rc_quantity rec = 0) \<and> 0 \<le> rc_held rec
    \<and> (\<forall>n. rc_planned rec = Some n \<longrightarrow> rc_held rec \<le> n \<and> (rc_decision rec \<noteq> None \<longrightarrow> rc_held rec < n))"
proof -
  obtain recs fin where it: "iter_backtest env evs = (recs, fin)" by (cases "iter_backtest env evs")
  then have rec: "rec \<in> set recs" using assms(3) by simp
  then obtain s0 where s0: "mk_runner env = Inr s0" using it by (auto simp: iter_backtest_def split: sum.splits)
  with iter_backtestE [OF assms(1,2) it] have
    h: "iterate env s0 evs = (recs, fin)" "clocks env Warmup s0" "carries s0" "ledger_inv (rn_ledger s0)"
    "config_ok (en_config env)" by auto
  from iterate_records [OF h] rec have "record_ok rec" by (simp add: list_all_iff)
  then show ?thesis by (simp add: record_ok_def)
qed

lemma records_respect_the_plan_witness:
  "\<exists>rec. rec \<in> set (fst (iter_backtest study_env study_events)) \<and> rc_decision rec \<noteq> None \<and> 0 \<le> rc_quantity rec"
proof -
  obtain r1 r2 r3 s where r: "iter_backtest study_env study_events = ([r1, r2, r3], Inr s)" "rc_decision r2 \<noteq> None"
    using study_runs by blast
  then have "r2 \<in> set (fst (iter_backtest study_env study_events))" by simp
  then show ?thesis using records_respect_the_plan [OF study_ok, of r2 study_events] r(2) by blast
qed

text \<open>C10: the impact evidence of a monthly fold is sealed: two records of one study that both admitted their
  evidence in the same fold name the same impact artifact.\<close>

theorem impact_is_sealed_by_fold:
  assumes "r1 \<in> set (fst (iter_backtest env evs))" "r2 \<in> set (fst (iter_backtest env evs))"
    and "rc_admitted r1" "rc_admitted r2" "rc_fold r1 = rc_fold r2"
  shows "\<exists>artifact. rc_impact r1 = Some artifact \<and> rc_impact r2 = Some artifact"
proof -
  obtain recs fin where it: "iter_backtest env evs = (recs, fin)" by (cases "iter_backtest env evs")
  with assms(1) obtain s0 where "iterate env s0 evs = (recs, fin)" by (auto simp: iter_backtest_def split: sum.splits)
  from iterate_sealed [OF this] obtain C where
    "\<forall>rec \<in> set recs. rc_admitted rec \<longrightarrow> (\<exists>d. rc_impact rec = Some d \<and> C (rc_fold rec) = Some d)" by blast
  then have C: "\<exists>d. rc_impact r = Some d \<and> C (rc_fold r) = Some d" if "r \<in> set recs" "rc_admitted r" for r
    using that by blast
  have "r1 \<in> set recs" "r2 \<in> set recs" using assms(1,2) it by simp_all
  then show ?thesis using C [of r1] C [of r2] assms(3-5) by auto
qed

lemma impact_is_sealed_by_fold_witness:
  "\<exists>r1 r2 r3 s artifact. iter_backtest study_env study_events = ([r1, r2, r3], Inr s) \<and> rc_impact r2 = Some artifact
     \<and> rc_impact r3 = Some artifact"
proof -
  obtain r1 r2 r3 s where r: "iter_backtest study_env study_events = ([r1, r2, r3], Inr s)" "rc_admitted r2" "rc_admitted r3"
    "rc_fold r2 = rc_fold r3"
    using study_runs by blast
  have "\<exists>artifact. rc_impact r2 = Some artifact \<and> rc_impact r3 = Some artifact"
    by (rule impact_is_sealed_by_fold [of r2 study_env study_events]) (use r in simp_all)
  then show ?thesis using r(1) by blast
qed

text \<open>no look-ahead: what a study has yielded after some events is a prefix of what it yields on any
  continuation of them, and a study that has failed stays failed with the same records.\<close>

theorem study_has_no_look_ahead:
  "\<exists>rest. fst (iter_backtest env (xs @ ys)) = fst (iter_backtest env xs) @ rest
     \<and> (\<forall>e. snd (iter_backtest env xs) = Inl e \<longrightarrow> rest = [] \<and> snd (iter_backtest env (xs @ ys)) = Inl e)"
  by (auto simp: iter_backtest_def iterate_append split: sum.splits prod.splits)

lemma study_has_no_look_ahead_witness:
  "\<exists>rest. fst (iter_backtest study_env (study_events @ study_events)) = fst (iter_backtest study_env study_events) @ rest"
  using study_has_no_look_ahead [of study_env study_events study_events] by blast

text \<open>C5: every position comes to its end: as long as an accepted study still holds a position opened at
  \<open>t\<close>, all its events lie at or before the decision that falls one planned horizon after \<open>t\<close>, and the
  settlements it has held are the funding periods passed since, at most the planned ones.\<close>

theorem positions_end_with_their_horizon:
  assumes "mk_run_config (en_config env) = Inr c" "valid_schedule (en_fees env)"
    and "iter_backtest env evs = (recs, Inr s)" "rn_position s = Some p" "ev \<in> set evs"
  shows "event_time ev \<le> ps_opened p + ps_planned p * period_ms env
    \<and> ps_planned p = pl_horizon (cg_policy (en_config env)) \<and> 0 \<le> ps_held p \<and> ps_held p \<le> ps_planned p"
proof -
  obtain s0 where "mk_runner env = Inr s0" using backtest_start [OF assms(3)] by blast
  with iter_backtestE [OF assms(1-3)] have
    h: "iterate env s0 evs = (recs, Inr s)" "clocks env Warmup s0" "carries s0" "config_ok (en_config env)" by auto
  from iterate_phases [OF h] obtain ph where c: "clocks env ph s" by blast
  have t: "event_time ev \<le> rn_next_decision s" using iterate_times [OF h] assms(5) by blast
  obtain lead where lead: "lead = 0 \<or> lead = 1" "position_age env s p lead"
    using c assms(4) by (cases ph) (auto simp: clocks_def Let_def)
  then have a: "0 \<le> ps_held p" "ps_opened p + (ps_held p + lead) * period_ms env = rn_next_decision s"
    "ps_planned p = pl_horizon (cg_policy (en_config env))" "ps_held p + lead \<le> ps_planned p"
    by (simp_all add: position_age_def)
  have "(ps_held p + lead) * period_ms env \<le> ps_planned p * period_ms env"
    using a(4) period_pos [OF h(4)] by (intro mult_right_mono) auto
  then show ?thesis using t a lead(1) by auto
qed

lemma positions_end_with_their_horizon_witness:
  "\<exists>recs s. iter_backtest study_env study_events = (recs, Inr s) \<and> rn_position s = Some study_position
     \<and> 2678417000 \<le> ps_opened study_position + ps_planned study_position * period_ms study_env"
proof -
  obtain recs s where r: "iter_backtest study_env study_events = (recs, Inr s)" "rn_position s = Some study_position"
    using study_runs by blast
  have "Market (study_market ''f'' 2678417000 False) \<in> set study_events" by (simp add: study_events_def)
  from positions_end_with_their_horizon [OF study_ok r this] have
    "event_time (Market (study_market ''f'' 2678417000 False))
      \<le> ps_opened study_position + ps_planned study_position * period_ms study_env" by blast
  then show ?thesis using r by (simp add: study_market_def)
qed

end
