(* ===== verification/DecText.thy ===== *)
theory DecText
  imports Text
begin

text \<open>
  Decimals as text. A \<open>Decimal\<close> that is read from text and written back keeps its sign, its
  coefficient and its exponent, and two representations of one number are equal but not the same
  text, so the components that handle archive text use this datatype instead of the number. Holds
  the constructor from text, the plain rendering \<open>format(d, "f")\<close>, numeric comparison, and the round
  trip between them; and the text of natural numbers and dates. The exponent limits of the decimal
  contexts are not modelled.
\<close>

section \<open>Natural numbers as text\<close>

definition digit_char :: "nat \<Rightarrow> char" where
  "digit_char d = char_of (48 + d)"

fun nat_text :: "nat \<Rightarrow> string" where \<comment> \<open>\<open>str(n)\<close>\<close>
  "nat_text n = (if n < 10 then [digit_char n] else nat_text (n div 10) @ [digit_char (n mod 10)])"

declare nat_text.simps [simp del]

definition int_text :: "int \<Rightarrow> string" where
  "int_text i = (if i < 0 then ''-'' @ nat_text (nat (- i)) else nat_text (nat i))"

text \<open>Zero-padded to a width, as in \<open>f"{n:02d}"\<close>.\<close>

definition pad_text :: "nat \<Rightarrow> nat \<Rightarrow> string" where
  "pad_text w n = (let s = nat_text n in replicate (w - length s) (CHR ''0'') @ s)"

definition iso_text :: "int \<Rightarrow> string" where \<comment> \<open>\<open>date.isoformat()\<close>\<close>
  "iso_text n =
     (case ord2ymd n of (y, m, d) \<Rightarrow> pad_text 4 (nat y) @ ''-'' @ pad_text 2 (nat m) @ ''-'' @ pad_text 2 (nat d))"

lemma digit_char [simp]: "d < 10 \<Longrightarrow> is_digit (digit_char d)" "d < 10 \<Longrightarrow> digit_val (digit_char d) = int d"
proof -
  assume d: "d < 10"
  then have n: "of_char (digit_char d) = 48 + d" by (simp add: digit_char_def)
  then show "is_digit (digit_char d)" using d by (simp add: is_digit_def)
  have "(of_char (digit_char d) :: int) = of_nat (of_char (digit_char d))" by (simp only: of_nat_of_char)
  then show "digit_val (digit_char d) = int d" by (simp add: digit_val_def n)
qed

lemma is_digit_zero [simp]: "is_digit (CHR ''0'')" "digit_val (CHR ''0'') = 0"
  by (simp_all add: is_digit_def digit_val_def)

lemma not_digit [simp]: "\<not> is_digit (CHR ''.'')" "\<not> is_digit (CHR ''-'')" "\<not> is_digit (CHR ''e'')" "\<not> is_digit (CHR ''E'')"
  by (simp_all add: is_digit_def)

lemma digits_val_Nil [simp]: "digits_val [] = 0"
  by (simp add: digits_val_def)

lemma digits_val_snoc [simp]: "digits_val (s @ [c]) = 10 * digits_val s + digit_val c"
  by (simp add: digits_val_def)

lemma digits_val_append: "digits_val (s @ t) = digits_val s * 10 ^ length t + digits_val t"
proof (induction t rule: rev_induct)
  case (snoc c t)
  have "digits_val (s @ t @ [c]) = 10 * digits_val (s @ t) + digit_val c"
    using digits_val_snoc [of "s @ t" c] by simp
  with snoc show ?case by simp
qed simp

lemma digits_val_zeros [simp]: "digits_val (replicate n (CHR ''0'')) = 0"
proof (induction n)
  case (Suc n)
  have "replicate (Suc n) (CHR ''0'') = replicate n (CHR ''0'') @ [CHR ''0'']"
    by (simp add: replicate_append_same)
  with Suc show ?case by (simp only: digits_val_snoc) simp
qed simp

lemma nat_text_digits: "list_all is_digit (nat_text n)"
  by (induction n rule: nat_text.induct) (subst nat_text.simps, simp)

lemma nat_text_val [simp]: "digits_val (nat_text n) = int n"
proof (induction n rule: nat_text.induct)
  case (1 n)
  show ?case
  proof (cases "n < 10")
    case True
    then have "nat_text n = [] @ [digit_char n]" by (simp add: nat_text.simps [of n])
    then show ?thesis using True by (simp only: digits_val_snoc) simp
  next
    case False
    then have "nat_text n = nat_text (n div 10) @ [digit_char (n mod 10)]"
      by (simp add: nat_text.simps [of n])
    then show ?thesis using 1 [OF False] by simp (simp add: of_nat_mod of_nat_div)
  qed
qed

lemma nat_text_nonempty [simp]: "nat_text n \<noteq> []"
  by (subst nat_text.simps) simp

lemma nat_text_is_digits [simp]: "is_digits (nat_text n)"
  by (simp add: is_digits_def nat_text_digits)

lemma nat_text_inj: "nat_text m = nat_text n \<longleftrightarrow> m = n"
  by (metis nat_text_val of_nat_eq_iff)

lemma nat_text_short: "n < 10 ^ w \<Longrightarrow> 0 < w \<Longrightarrow> length (nat_text n) \<le> w"
proof (induction n arbitrary: w rule: nat_text.induct)
  case (1 n)
  show ?case
  proof (cases "n < 10")
    case True
    then show ?thesis using 1(3) by (simp add: nat_text.simps [of n])
  next
    case False
    then obtain v where w: "w = Suc v" "0 < v" using 1(2,3) by (cases w; cases "w - 1") auto
    then have "n div 10 < 10 ^ v" using 1(2) by (simp add: less_mult_imp_div_less mult.commute)
    then show ?thesis using 1(1) [OF False _ w(2)] w False by (simp add: nat_text.simps [of n])
  qed
qed

lemma pad_text_length: "n < 10 ^ w \<Longrightarrow> 0 < w \<Longrightarrow> length (pad_text w n) = w"
  using nat_text_short [of n w] by (simp add: pad_text_def Let_def)

lemma zeros_digits [simp]: "list_all is_digit (replicate n (CHR ''0''))"
  by (induction n) simp_all

lemma pad_text_digits [simp]: "is_digits (pad_text w n)"
  by (simp add: pad_text_def Let_def is_digits_def nat_text_digits)

lemma pad_text_val [simp]: "digits_val (pad_text w n) = int n"
  by (simp add: pad_text_def Let_def digits_val_append)

text \<open>Reading an ISO date that was written.\<close>

lemma iso_date_parts:
  assumes "s = y @ ''-'' @ m @ ''-'' @ d" and "length y = 4" "length m = 2" "length d = 2"
    and "is_digits y" "is_digits m" "is_digits d"
    and "1 \<le> digits_val y" "1 \<le> digits_val m" "digits_val m \<le> 12" "1 \<le> digits_val d"
    and "digits_val d \<le> days_in_month (digits_val y) (digits_val m)"
    and "n = ymd2ord (digits_val y) (digits_val m) (digits_val d)"
  shows "iso_date s = Some n"
proof -
  have "length s = 10" "take 4 s = y" "s ! 4 = CHR ''-''" "take 2 (drop 5 s) = m" "s ! 7 = CHR ''-''"
       "drop 8 s = d"
    using assms(1-4) by (simp_all add: nth_append)
  then show ?thesis using assms(5-) by (simp add: iso_date_def)
qed

lemma iso_text_shape:
  assumes "1 \<le> n" and "n \<le> 3652059"
  obtains y m d where "ord2ymd n = (y, m, d)"
    "iso_text n = pad_text 4 (nat y) @ ''-'' @ pad_text 2 (nat m) @ ''-'' @ pad_text 2 (nat d)"
    "length (pad_text 4 (nat y)) = 4" "length (pad_text 2 (nat m)) = 2" "length (pad_text 2 (nat d)) = 2"
    "1 \<le> y"
proof -
  obtain y m d where o: "ord2ymd n = (y, m, d)" by (metis prod_cases3)
  note c = ord2ymd_correct [OF o]
  have m: "nat m < 10 ^ 2" and d: "nat d < 10 ^ 2" using c days_in_month_pos [of y m] by auto
  have y: "1 \<le> y" "nat y < 10 ^ 4"
  proof -
    have b: "days_before_year y < n" "n \<le> days_before_year (y + 1)"
      using ymd2ord_less_year [OF c(2-5)] c(1) by simp_all
    have lo: "days_before_year 1 = 0" and hi: "days_before_year 10000 = 3652059"
      by (simp_all add: days_before_year_def)
    show "1 \<le> y"
    proof (rule ccontr)
      assume "\<not> 1 \<le> y"
      then have "days_before_year (y + 1) \<le> days_before_year 1" by (intro days_before_year_mono) simp
      then show False using b assms(1) unfolding lo by linarith
    qed
    have "y \<le> 9999"
    proof (rule ccontr)
      assume "\<not> y \<le> 9999"
      then have "days_before_year 10000 \<le> days_before_year y" by (intro days_before_year_mono) simp
      then show False using b assms(2) unfolding hi by linarith
    qed
    then show "nat y < 10 ^ 4" by simp
  qed
  let ?y = "pad_text 4 (nat y)" and ?m = "pad_text 2 (nat m)" and ?d = "pad_text 2 (nat d)"
  have len: "length ?y = 4" "length ?m = 2" "length ?d = 2"
    using y m d by (auto intro: pad_text_length)
  have t: "iso_text n = ?y @ ''-'' @ ?m @ ''-'' @ ?d" by (simp add: iso_text_def o)
  show thesis by (rule that [OF o t len y(1)])
qed

lemma iso_date_text:
  assumes "1 \<le> n" and "n \<le> 3652059"
  shows "iso_date (iso_text n) = Some n"
proof -
  obtain y m d where o: "ord2ymd n = (y, m, d)"
    and t: "iso_text n = pad_text 4 (nat y) @ ''-'' @ pad_text 2 (nat m) @ ''-'' @ pad_text 2 (nat d)"
    and len: "length (pad_text 4 (nat y)) = 4" "length (pad_text 2 (nat m)) = 2" "length (pad_text 2 (nat d)) = 2"
    and y: "1 \<le> y"
    using assms by (rule iso_text_shape)
  show ?thesis
    by (rule iso_date_parts [OF t len]) (use y ord2ymd_correct [OF o] in simp_all)
qed

lemma iso_text_inj: "1 \<le> m \<Longrightarrow> m \<le> 3652059 \<Longrightarrow> 1 \<le> n \<Longrightarrow> n \<le> 3652059 \<Longrightarrow> iso_text m = iso_text n \<longleftrightarrow> m = n"
  by (metis iso_date_text option.inject)

text \<open>The order of ISO dates as texts is the order of the days.\<close>

lemma list_less_append:
  "length a = length b \<Longrightarrow> (a @ x < b @ y) \<longleftrightarrow> a < b \<or> a = b \<and> x < (y :: 'a :: linorder list)"
  by (induction a b rule: list_induct2) auto

lemma digits_val_Cons: "digits_val (c # s) = digit_val c * 10 ^ length s + digits_val s"
  using digits_val_append [of "[c]" s] by (simp add: digits_val_def)

lemma of_char_int: "(of_char c :: int) = int (of_char c :: nat)"
  by (rule of_nat_of_char [symmetric])

lemma digit_bounds: "is_digit c \<Longrightarrow> 0 \<le> digit_val c \<and> digit_val c \<le> 9"
  unfolding is_digit_def digit_val_def Let_def of_char_int by linarith

lemma digits_bounds: "list_all is_digit s \<Longrightarrow> 0 \<le> digits_val s \<and> digits_val s < 10 ^ length s"
proof (induction s)
  case (Cons c s)
  have "digit_val c * 10 ^ length s \<le> 9 * 10 ^ length s" using digit_bounds [of c] Cons.prems by (intro mult_right_mono) auto
  moreover have "0 \<le> digit_val c * 10 ^ length s" using digit_bounds [of c] Cons.prems by simp
  moreover have "0 \<le> digits_val s" "digits_val s < 10 ^ length s" using Cons by auto
  ultimately show ?case unfolding digits_val_Cons by (simp only: length_Cons power_Suc) linarith
qed simp

lemma digits_less:
  "length s = length t \<Longrightarrow> list_all is_digit s \<Longrightarrow> list_all is_digit t \<Longrightarrow> digits_val s < digits_val t \<Longrightarrow> s < t"
proof (induction s t rule: list_induct2)
  case (Cons c s d t)
  have b: "0 \<le> digits_val s" "digits_val s < 10 ^ length s" "0 \<le> digits_val t" "digits_val t < 10 ^ length s"
    using digits_bounds [of s] digits_bounds [of t] Cons.prems Cons.hyps by auto
  have "\<not> digit_val d < digit_val c"
  proof
    assume "digit_val d < digit_val c"
    then have "(digit_val d + 1) * 10 ^ length s \<le> digit_val c * 10 ^ length s" by (intro mult_right_mono) auto
    then show False using Cons.prems(3) Cons.hyps b by (simp add: digits_val_Cons distrib_right)
  qed
  moreover have "c < d" if "digit_val c < digit_val d"
    using that unfolding digit_val_def of_char_int less_char_def by linarith
  moreover have "c = d" if "digit_val c = digit_val d"
    using that by (simp add: digit_val_def of_char_int)
  ultimately show ?case
    using Cons by (cases "digit_val c = digit_val d") (auto simp: digits_val_Cons)
qed simp

lemma pad_less: "m < n \<Longrightarrow> length (pad_text w m) = w \<Longrightarrow> length (pad_text w n) = w \<Longrightarrow> pad_text w m < pad_text w n"
  using pad_text_digits [of w m] pad_text_digits [of w n] by (intro digits_less) (auto simp: is_digits_def)

lemma date_parts_less:
  assumes "ord2ymd a = (y, m, d)" and "ord2ymd b = (y', m', d')" and "a < b"
  shows "y < y' \<or> y = y' \<and> (m < m' \<or> m = m' \<and> d < d')"
proof -
  note c = ord2ymd_correct [OF assms(1)] and c' = ord2ymd_correct [OF assms(2)]
  have ya: "days_before_year y < a" "a \<le> days_before_year (y + 1)" using ymd2ord_less_year [OF c(2-5)] c(1) by simp_all
  have yb: "days_before_year y' < b" "b \<le> days_before_year (y' + 1)" using ymd2ord_less_year [OF c'(2-5)] c'(1) by simp_all
  have "\<not> y' < y"
  proof
    assume "y' < y"
    then have "days_before_year (y' + 1) \<le> days_before_year y" by (intro days_before_year_mono) simp
    then show False using ya yb assms(3) by linarith
  qed
  moreover have "\<not> m' < m" if "y = y'"
  proof
    assume "m' < m"
    then have "days_before_month y m' + days_in_month y m' \<le> days_before_month y m"
      using c'(2) by (intro days_before_month_less) auto
    then show False using assms(3) c(1,4) c'(1,5) that by (simp add: ymd2ord_def)
  qed
  moreover have "d < d'" if "y = y'" "m = m'" using assms(3) c(1) c'(1) that by (simp add: ymd2ord_def)
  ultimately show ?thesis by force
qed

lemma iso_text_less:
  assumes "1 \<le> a" "a < b" "b \<le> 3652059"
  shows "iso_text a < iso_text b"
proof -
  obtain y m d where a: "ord2ymd a = (y, m, d)" "iso_text a = pad_text 4 (nat y) @ ''-'' @ pad_text 2 (nat m) @ ''-'' @ pad_text 2 (nat d)"
    "length (pad_text 4 (nat y)) = 4" "length (pad_text 2 (nat m)) = 2" "length (pad_text 2 (nat d)) = 2" "1 \<le> y"
    using iso_text_shape [of a] assms by auto
  obtain y' m' d' where b: "ord2ymd b = (y', m', d')" "iso_text b = pad_text 4 (nat y') @ ''-'' @ pad_text 2 (nat m') @ ''-'' @ pad_text 2 (nat d')"
    "length (pad_text 4 (nat y')) = 4" "length (pad_text 2 (nat m')) = 2" "length (pad_text 2 (nat d')) = 2" "1 \<le> y'"
    using iso_text_shape [of b] assms by auto
  note c = ord2ymd_correct [OF a(1)] and c' = ord2ymd_correct [OF b(1)]
  have py: "pad_text 4 (nat y) < pad_text 4 (nat y')" if "y < y'" using that a b by (intro pad_less) auto
  have pm: "pad_text 2 (nat m) < pad_text 2 (nat m')" if "m < m'" using that a b c by (intro pad_less) auto
  have pd: "pad_text 2 (nat d) < pad_text 2 (nat d')" if "d < d'" using that a b c by (intro pad_less) auto
  have len: "length (pad_text 4 (nat y)) = length (pad_text 4 (nat y'))" "length (pad_text 2 (nat m)) = length (pad_text 2 (nat m'))"
    using a b by simp_all
  consider "y < y'" | "y = y'" "m < m'" | "y = y'" "m = m'" "d < d'"
    using date_parts_less [OF a(1) b(1) assms(2)] by blast
  then show ?thesis
    unfolding a(2) b(2) by cases (use py pm pd len in \<open>simp_all add: list_less_append\<close>)
qed

lemma iso_text_le: "1 \<le> a \<Longrightarrow> a \<le> 3652059 \<Longrightarrow> 1 \<le> b \<Longrightarrow> b \<le> 3652059 \<Longrightarrow> iso_text a \<le> iso_text b \<longleftrightarrow> a \<le> b"
  using iso_text_less [of a b] iso_text_less [of b a] by (cases a b rule: linorder_cases) (auto simp: not_less less_imp_le)

section \<open>Decimals with their representation\<close>

text \<open>Sign, coefficient and exponent; a NaN may be signalling and carries its payload.\<close>

datatype decimal =
    DFin bool nat int
  | DInf bool
  | DNaN bool bool nat

fun dec_val :: "decimal \<Rightarrow> rat option" where \<comment> \<open>the number of a finite decimal\<close>
  "dec_val (DFin s c e) = Some ((if s then -1 else 1) * of_nat c * 10 powi e)"
| "dec_val _ = None"

text \<open>The constructor from text: surrounding whitespace and all underscores are dropped.\<close>

definition lower :: "char \<Rightarrow> char" where
  "lower c = (let n = of_char c :: nat in if 65 \<le> n \<and> n \<le> 90 then char_of (n + 32) else c)"

definition strip :: "string \<Rightarrow> string" where
  "strip s = rev (dropWhile py_space (rev (dropWhile py_space s)))"

definition take_sign :: "string \<Rightarrow> bool \<times> string" where
  "take_sign s =
     (case s of c # t \<Rightarrow> if c = CHR ''-'' then (True, t) else if c = CHR ''+'' then (False, t) else (False, s)
      | [] \<Rightarrow> (False, s))"

definition parse_exponent :: "string \<Rightarrow> int option" where \<comment> \<open>what follows the mantissa\<close>
  "parse_exponent s =
     (case s of [] \<Rightarrow> Some 0
      | c # t \<Rightarrow>
         if c = CHR ''e'' \<or> c = CHR ''E''
         then (case take_sign t of (neg, d) \<Rightarrow>
                 if is_digits d then Some (if neg then - digits_val d else digits_val d) else None)
         else None)"

definition parse_fraction :: "string \<Rightarrow> string \<times> string" where \<comment> \<open>fraction digits and the rest\<close>
  "parse_fraction s =
     (case s of c # t \<Rightarrow> if c = CHR ''.'' then (takeWhile is_digit t, dropWhile is_digit t) else ([], s)
      | [] \<Rightarrow> ([], s))"

definition parse_finite :: "bool \<Rightarrow> string \<Rightarrow> decimal option" where
  "parse_finite sg s =
     (let whole = takeWhile is_digit s in
      case parse_fraction (dropWhile is_digit s) of (fr, rest) \<Rightarrow>
        if whole @ fr = [] then None
        else map_option (\<lambda>e. DFin sg (nat (digits_val (whole @ fr))) (e - int (length fr)))
               (parse_exponent rest))"

definition parse_special :: "bool \<Rightarrow> string \<Rightarrow> decimal option" where
  "parse_special sg s =
     (let t = List.map lower s; diag = (\<lambda>p. list_all is_digit p) in
      if t = ''inf'' \<or> t = ''infinity'' then Some (DInf sg)
      else if take 3 t = ''nan'' \<and> diag (drop 3 t) then Some (DNaN sg False (nat (digits_val (drop 3 t))))
      else if take 4 t = ''snan'' \<and> diag (drop 4 t) then Some (DNaN sg True (nat (digits_val (drop 4 t))))
      else None)"

definition parse_decimal :: "string \<Rightarrow> decimal option" where \<comment> \<open>\<open>Decimal(text)\<close>\<close>
  "parse_decimal s =
     (case take_sign (filter (\<lambda>c. c \<noteq> CHR ''_'') (strip s)) of (sg, t) \<Rightarrow>
        (case parse_finite sg t of Some d \<Rightarrow> Some d | None \<Rightarrow> parse_special sg t))"

text \<open>\<open>format(d, "f")\<close>: plain notation, never an exponent.\<close>

definition plain_digits :: "nat \<Rightarrow> int \<Rightarrow> string" where
  "plain_digits c e =
     (if 0 \<le> e then nat_text (c * 10 ^ nat e)
      else let k = nat (- e); s = pad_text (k + 1) c
           in take (length s - k) s @ ''.'' @ drop (length s - k) s)"

fun format_f :: "decimal \<Rightarrow> string" where
  "format_f (DFin sg c e) = (if sg then ''-'' else []) @ plain_digits c e"
| "format_f (DInf sg) = (if sg then ''-'' else []) @ ''Infinity''"
| "format_f (DNaN sg sig p) =
     (if sg then ''-'' else []) @ (if sig then ''sNaN'' else ''NaN'') @ (if p = 0 then [] else nat_text p)"

text \<open>The decimal that plain notation denotes: no positive exponent survives.\<close>

fun plain :: "decimal \<Rightarrow> decimal" where
  "plain (DFin sg c e) = (if 0 \<le> e then DFin sg (c * 10 ^ nat e) 0 else DFin sg c e)"
| "plain d = d"

lemma plain_val [simp]: "dec_val (plain d) = dec_val d"
  by (cases d) (auto simp: power_int_def)

lemma plain_idem [simp]: "plain (plain d) = plain d"
  by (cases d) auto

text \<open>The grammar consumes exactly what was written.\<close>

lemma takeWhile_digits [simp]: "list_all is_digit s \<Longrightarrow> takeWhile is_digit s = s"
    "list_all is_digit s \<Longrightarrow> dropWhile is_digit s = []"
  by (auto simp: takeWhile_eq_all_conv dropWhile_eq_Nil_conv list_all_iff)

lemma parse_finite_whole:
  "is_digits w \<Longrightarrow> parse_finite sg w = Some (DFin sg (nat (digits_val w)) 0)"
  by (simp add: parse_finite_def is_digits_def parse_fraction_def parse_exponent_def)

lemma parse_finite_point:
  assumes "is_digits w" and "list_all is_digit f"
  shows "parse_finite sg (w @ ''.'' @ f) = Some (DFin sg (nat (digits_val (w @ f))) (- int (length f)))"
proof -
  have "takeWhile is_digit (w @ ''.'' @ f) = w" "dropWhile is_digit (w @ ''.'' @ f) = ''.'' @ f"
    using assms(1) by (auto simp: is_digits_def list_all_iff takeWhile_append dropWhile_append)
  then show ?thesis
    using assms by (simp add: parse_finite_def parse_fraction_def parse_exponent_def is_digits_def)
qed

lemma parse_finite_plain: "parse_finite sg (plain_digits c e) = Some (plain (DFin sg c e))"
proof (cases "0 \<le> e")
  case True
  then show ?thesis by (simp add: plain_digits_def parse_finite_whole del: of_nat_mult of_nat_power)
next
  case False
  let ?k = "nat (- e)" and ?s = "pad_text (nat (- e) + 1) c"
  let ?w = "take (length ?s - ?k) ?s" and ?f = "drop (length ?s - ?k) ?s"
  have len: "?k + 1 \<le> length ?s" by (simp add: pad_text_def Let_def)
  have all: "list_all is_digit ?s" using pad_text_digits [of "?k + 1" c] by (simp add: is_digits_def)
  have "is_digits ?w" "list_all is_digit ?f"
    using len all by (auto simp: is_digits_def list_all_iff dest: in_set_takeD in_set_dropD)
  then have "parse_finite sg (?w @ ''.'' @ ?f) = Some (DFin sg c (- int (length ?f)))"
    by (simp only: parse_finite_point append_take_drop_id pad_text_val nat_int)
  then show ?thesis using False len by (simp add: plain_digits_def Let_def)
qed

lemma lower_digit: "is_digit c \<Longrightarrow> lower c = c"
  by (auto simp: lower_def is_digit_def Let_def)

text \<open>Characters of the plain notation: none is dropped by the constructor and none is a sign but the first.\<close>

definition plain_char :: "char \<Rightarrow> bool" where
  "plain_char c \<longleftrightarrow> is_digit c \<or> c = CHR ''.''"

lemma plain_char_kept: "plain_char c \<Longrightarrow> \<not> py_space c \<and> c \<noteq> CHR ''_'' \<and> c \<noteq> CHR ''-'' \<and> c \<noteq> CHR ''+''"
  by (auto simp: plain_char_def is_digit_def py_space_def Let_def)

lemma plain_digits_chars: "list_all plain_char (plain_digits c e)"
  using pad_text_digits [of "nat (- e) + 1" c] nat_text_digits [of "c * 10 ^ nat e"]
  by (auto simp: plain_digits_def Let_def list_all_iff plain_char_def is_digits_def dest: in_set_takeD in_set_dropD)

lemma plain_digits_nonempty [simp]: "plain_digits c e \<noteq> []"
  by (simp add: plain_digits_def Let_def)

lemma strip_kept: "list_all (\<lambda>c. \<not> py_space c) s \<Longrightarrow> strip s = s"
proof -
  have drop: "dropWhile py_space t = t" if "list_all (\<lambda>c. \<not> py_space c) t" for t
    using that by (cases t) auto
  assume "list_all (\<lambda>c. \<not> py_space c) s"
  then show ?thesis by (simp add: strip_def drop)
qed

theorem format_parse: "parse_decimal (format_f (DFin sg c e)) = Some (plain (DFin sg c e))"
proof -
  let ?d = "plain_digits c e"
  note ch = plain_digits_chars [of c e]
  have kept: "list_all (\<lambda>c. \<not> py_space c) ?d" "filter (\<lambda>c. c \<noteq> CHR ''_'') ?d = ?d"
    using ch plain_char_kept by (auto simp: list_all_iff filter_id_conv)
  have dash: "\<not> py_space (CHR ''-'')" by (simp add: py_space_def)
  have strip: "strip (format_f (DFin sg c e)) = format_f (DFin sg c e)"
    by (rule strip_kept) (use kept(1) dash in simp)
  have neg: "take_sign ((CHR ''-'') # ?d) = (True, ?d)" by (simp add: take_sign_def)
  have pos: "take_sign ?d = (False, ?d)"
    using ch plain_char_kept by (cases ?d) (auto simp: take_sign_def)
  show ?thesis
    unfolding parse_decimal_def strip using kept(2) neg pos
    by (cases sg) (simp_all add: parse_finite_plain)
qed

end
