(* ===== verification/Archives.thy ===== *)
theory Archives
  imports DecText
begin

text \<open>
  The paths of the two archives the data comes from (\<open>ingestion/binance_archive.py\<close> and
  \<open>ingestion/tardis_archive.py\<close>): the URL of a dataset, symbol and period, the URL recovered from a
  cached file's name, and the days the free tier of the order-book vendor serves. Dates are
  ordinals; a builder also takes the text of a day or month, as the source does.
\<close>

section \<open>The futures archive\<close>

datatype period = OnDate int | AsText string \<comment> \<open>\<open>dt.date | str\<close>\<close>

definition archive_base :: string where
  "archive_base = ''https://data.binance.vision/data/futures/um''"

fun date_str :: "period \<Rightarrow> string" where
  "date_str (OnDate d) = iso_text d"
| "date_str (AsText t) = t"

fun month_str :: "period \<Rightarrow> string" where \<comment> \<open>\<open>strftime("%Y-%m")\<close>\<close>
  "month_str (OnDate d) = take 7 (iso_text d)"
| "month_str (AsText t) = t"

definition daily_url :: "string \<Rightarrow> string \<Rightarrow> period \<Rightarrow> string" where
  "daily_url dataset symbol date =
     archive_base @ ''/daily/'' @ dataset @ ''/'' @ symbol @ ''/'' @ symbol @ ''-'' @ dataset @ ''-''
       @ date_str date @ ''.zip''"

definition monthly_url :: "string \<Rightarrow> string \<Rightarrow> period \<Rightarrow> string" where
  "monthly_url dataset symbol month =
     archive_base @ ''/monthly/'' @ dataset @ ''/'' @ symbol @ ''/'' @ symbol @ ''-'' @ dataset @ ''-''
       @ month_str month @ ''.zip''"

definition klines_daily_url :: "string \<Rightarrow> period \<Rightarrow> string \<Rightarrow> string" where
  "klines_daily_url symbol date interval =
     archive_base @ ''/daily/klines/'' @ symbol @ ''/'' @ interval @ ''/'' @ symbol @ ''-'' @ interval @ ''-''
       @ date_str date @ ''.zip''"

definition klines_monthly_url :: "string \<Rightarrow> period \<Rightarrow> string \<Rightarrow> string" where
  "klines_monthly_url symbol month interval =
     archive_base @ ''/monthly/klines/'' @ symbol @ ''/'' @ interval @ ''/'' @ symbol @ ''-'' @ interval @ ''-''
       @ month_str month @ ''.zip''"

definition kline_columns :: "string list" where
  "kline_columns =
     [''open_time'', ''open'', ''high'', ''low'', ''close'', ''volume'', ''close_time'', ''quote_volume'',
      ''count'', ''taker_buy_volume'', ''taker_buy_quote_volume'', ''ignore'']"

text \<open>\<open>str.split("-")\<close> and \<open>"-".join\<close>.\<close>

fun split_on :: "char \<Rightarrow> string \<Rightarrow> string list" where
  "split_on c [] = [[]]"
| "split_on c (x # s) =
     (if x = c then [] # split_on c s
      else (case split_on c s of w # ws \<Rightarrow> (x # w) # ws | [] \<Rightarrow> [[x]]))"

fun join_with :: "char \<Rightarrow> string list \<Rightarrow> string" where
  "join_with c [] = []"
| "join_with c [w] = w"
| "join_with c (w # v # ws) = w @ c # join_with c (v # ws)"

definition is_interval :: "string \<Rightarrow> bool" where \<comment> \<open>\<open>\d+[smhdwM]\<close>, the whole text\<close>
  "is_interval s \<longleftrightarrow> s \<noteq> [] \<and> is_digits (butlast s) \<and> last s \<in> set ''smhdwM''"

definition is_year_month :: "string \<Rightarrow> bool" where \<comment> \<open>\<open>\d{4}-\d{2}\<close>\<close>
  "is_year_month s \<longleftrightarrow>
     length s = 7 \<and> is_digits (take 4 s) \<and> s ! 4 = CHR ''-'' \<and> is_digits (drop 5 s)"

definition is_year_month_day :: "string \<Rightarrow> bool" where \<comment> \<open>\<open>\d{4}-\d{2}-\d{2}\<close>\<close>
  "is_year_month_day s \<longleftrightarrow>
     length s = 10 \<and> is_year_month (take 7 s) \<and> s ! 7 = CHR ''-'' \<and> is_digits (drop 8 s)"

definition zip_stem :: "string \<Rightarrow> string" where
  "zip_stem name = (if suffix ''.zip'' name then take (length name - 4) name else name)"

definition url_for_filename :: "string \<Rightarrow> string option" where
  "url_for_filename name =
     (case split_on (CHR ''-'') (zip_stem name) of
        symbol # kind # p # ps \<Rightarrow>
          (let prd = join_with (CHR ''-'') (p # ps) in
           if \<not> is_year_month_day prd \<and> \<not> is_year_month prd then None
           else if is_interval kind
             then Some (if is_year_month prd then klines_monthly_url symbol (AsText prd) kind
                        else klines_daily_url symbol (AsText prd) kind)
           else Some (if is_year_month prd then monthly_url kind symbol (AsText prd)
                      else daily_url kind symbol (AsText prd)))
      | _ \<Rightarrow> None)"

text \<open>The last segment of a path: the name under which an archive is cached.\<close>

definition base_name :: "string \<Rightarrow> string" where
  "base_name url = last (split_on (CHR ''/'') url)"

section \<open>The order-book vendor\<close>

definition tardis_base :: string where "tardis_base = ''https://datasets.tardis.dev/v1''"

definition tardis_exchange :: string where "tardis_exchange = ''binance-futures''"

definition incremental_book :: string where "incremental_book = ''incremental_book_L2''"

definition book_snapshot_25 :: string where "book_snapshot_25 = ''book_snapshot_25''"

definition tardis_datasets :: "string list" where
  "tardis_datasets = [incremental_book, book_snapshot_25]"

definition is_free_tier_day :: "int \<Rightarrow> bool" where
  "is_free_tier_day date \<longleftrightarrow> snd (snd (ord2ymd date)) = 1"

definition require_free_tier_day :: "int \<Rightarrow> unit res" where
  "require_free_tier_day date =
     guard (\<not> is_free_tier_day date) (FreeTierError ''not available on the free tier'')"

definition dataset_url :: "string \<Rightarrow> string \<Rightarrow> int \<Rightarrow> string \<Rightarrow> string res" where
  "dataset_url dataset symbol date exchange =
     bnd (guard (dataset \<notin> set tardis_datasets) (ValueError ''unknown dataset'')) (\<lambda>_.
     bnd (require_free_tier_day date) (\<lambda>_.
       let t = iso_text date in
       Inr (tardis_base @ ''/'' @ exchange @ ''/'' @ dataset @ ''/'' @ take 4 t @ ''/'' @ take 2 (drop 5 t)
              @ ''/'' @ drop 8 t @ ''/'' @ symbol @ ''.csv.gz'')))"

definition free_tier_days :: "int \<Rightarrow> int \<Rightarrow> int list res" where
  "free_tier_days start stop =
     bnd (guard (stop < start) (ValueError ''end precedes start'')) (\<lambda>_.
       let cursor = first_of_month start in
       Inr (months_from (if cursor < start then first_of_month (cursor + 31) else cursor) stop))"

section \<open>Recovering a URL from a file's name\<close>

lemma split_on_nonempty [simp]: "split_on c s \<noteq> []"
  by (cases s) (auto split: list.splits)

lemma split_on_append: "split_on c (u @ c # v) = split_on c u @ split_on c v"
proof (induction u)
  case (Cons a u)
  then show ?case by (cases "split_on c u") auto
qed simp

lemma split_on_word [simp]: "c \<notin> set w \<Longrightarrow> split_on c w = [w]"
  by (induction w) auto

lemma join_split: "join_with c (split_on c s) = s"
proof (induction s)
  case (Cons x s)
  then show ?case by (cases "split_on c s"; cases "tl (split_on c s)") (auto split: list.splits)
qed simp

definition plain_name :: "string \<Rightarrow> bool" where \<comment> \<open>no separator of paths or file names\<close>
  "plain_name s \<longleftrightarrow> CHR ''-'' \<notin> set s \<and> CHR ''/'' \<notin> set s"

lemma digits_plain: "list_all is_digit s \<Longrightarrow> plain_name s"
  by (auto simp: plain_name_def list_all_iff is_digit_def)

lemma interval_plain: "is_interval s \<Longrightarrow> plain_name s"
  using digits_plain [of "butlast s"]
  by (cases s rule: rev_cases) (auto simp: is_interval_def is_digits_def plain_name_def)

lemma base_name_last: "CHR ''/'' \<notin> set name \<Longrightarrow> base_name (path @ CHR ''/'' # name) = name"
  by (simp add: base_name_def split_on_append)

lemma zip_stem_zip [simp]: "zip_stem (s @ ''.zip'') = s"
  by (simp add: zip_stem_def suffix_def)

lemma month_text:
  assumes "1 \<le> d" and "d \<le> 3652059"
  shows "is_year_month (take 7 (iso_text d))" "is_year_month_day (iso_text d)"
    "CHR ''/'' \<notin> set (iso_text d)" "length (iso_text d) = 10"
proof -
  obtain y m k where t: "iso_text d = pad_text 4 y @ ''-'' @ pad_text 2 m @ ''-'' @ pad_text 2 k"
    and len: "length (pad_text 4 y) = 4" "length (pad_text 2 m) = 2" "length (pad_text 2 k) = 2"
    using iso_text_shape [OF assms] by metis
  show "is_year_month (take 7 (iso_text d))" and "length (iso_text d) = 10"
    using len by (simp_all add: t is_year_month_def nth_append)
  then show "is_year_month_day (iso_text d)"
    using len by (simp add: is_year_month_day_def t nth_append)
  have "plain_name (pad_text w n)" for w n
    using pad_text_digits [of w n] by (intro digits_plain) (simp add: is_digits_def)
  then show "CHR ''/'' \<notin> set (iso_text d)" by (simp add: t plain_name_def)
qed

text \<open>What the parser does with a name built from a symbol, a kind and a period.\<close>

lemma url_for_parts:
  assumes "plain_name symbol" and "plain_name kind" and "is_year_month_day prd \<or> is_year_month prd"
  shows "url_for_filename (symbol @ ''-'' @ kind @ ''-'' @ prd @ ''.zip'') =
     Some (if is_interval kind
           then (if is_year_month prd then klines_monthly_url symbol (AsText prd) kind
                 else klines_daily_url symbol (AsText prd) kind)
           else (if is_year_month prd then monthly_url kind symbol (AsText prd)
                 else daily_url kind symbol (AsText prd)))"
proof -
  have z: "zip_stem (symbol @ ''-'' @ kind @ ''-'' @ prd @ ''.zip'') = symbol @ ''-'' @ kind @ ''-'' @ prd"
    using zip_stem_zip [of "symbol @ ''-'' @ kind @ ''-'' @ prd"] by simp
  obtain p ps where s: "split_on (CHR ''-'') prd = p # ps" by (cases "split_on (CHR ''-'') prd") auto
  have "split_on (CHR ''-'') (symbol @ ''-'' @ kind @ ''-'' @ prd) = symbol # kind # p # ps"
    using assms(1,2) by (simp add: split_on_append s plain_name_def)
  moreover have "join_with (CHR ''-'') (p # ps) = prd" using join_split [of "CHR ''-''" prd] s by simp
  ultimately show ?thesis
    unfolding url_for_filename_def z using assms(3) by (simp add: Let_def)
qed

lemma not_month_day: "is_year_month_day s \<Longrightarrow> \<not> is_year_month s"
  by (simp add: is_year_month_day_def is_year_month_def)

text \<open>the URL of a cached archive is recovered from its file name: for every symbol and dataset without
  separators and every date, the last segment of each builder's URL parses back to that very URL, for
  daily and monthly files of ordinary datasets and of klines.\<close>

theorem url_for_filename_roundtrip:
  assumes "plain_name symbol" and "plain_name kind" and "\<not> is_interval kind" and "is_interval interval"
    and "1 \<le> d" and "d \<le> 3652059"
  shows "url_for_filename (base_name (daily_url kind symbol (OnDate d))) = Some (daily_url kind symbol (OnDate d))
    \<and> url_for_filename (base_name (monthly_url kind symbol (OnDate d))) = Some (monthly_url kind symbol (OnDate d))
    \<and> url_for_filename (base_name (klines_daily_url symbol (OnDate d) interval))
        = Some (klines_daily_url symbol (OnDate d) interval)
    \<and> url_for_filename (base_name (klines_monthly_url symbol (OnDate d) interval))
        = Some (klines_monthly_url symbol (OnDate d) interval)"
proof -
  note t = month_text [OF assms(5,6)]
  note i = interval_plain [OF assms(4)]
  have slash: "CHR ''/'' \<notin> set (symbol @ ''-'' @ k @ ''-'' @ take n (iso_text d) @ ''.zip'')" if "plain_name k" for k n
    using assms(1) that t(3) by (auto simp: plain_name_def dest: in_set_takeD)
  have base: "base_name (path @ ''/'' @ symbol @ ''-'' @ k @ ''-'' @ take n (iso_text d) @ ''.zip'')
      = symbol @ ''-'' @ k @ ''-'' @ take n (iso_text d) @ ''.zip''" if "plain_name k" for path k n
    using base_name_last [OF slash [OF that]] by simp
  have day: "take 10 (iso_text d) = iso_text d" using t(4) by simp
  have b: "base_name (daily_url kind symbol (OnDate d)) = symbol @ ''-'' @ kind @ ''-'' @ iso_text d @ ''.zip''"
    "base_name (monthly_url kind symbol (OnDate d)) = symbol @ ''-'' @ kind @ ''-'' @ take 7 (iso_text d) @ ''.zip''"
    "base_name (klines_daily_url symbol (OnDate d) interval) = symbol @ ''-'' @ interval @ ''-'' @ iso_text d @ ''.zip''"
    "base_name (klines_monthly_url symbol (OnDate d) interval)
      = symbol @ ''-'' @ interval @ ''-'' @ take 7 (iso_text d) @ ''.zip''"
    using base [OF assms(2), of "archive_base @ ''/daily/'' @ kind @ ''/'' @ symbol" 10]
      base [OF assms(2), of "archive_base @ ''/monthly/'' @ kind @ ''/'' @ symbol" 7]
      base [OF i, of "archive_base @ ''/daily/klines/'' @ symbol @ ''/'' @ interval" 10]
      base [OF i, of "archive_base @ ''/monthly/klines/'' @ symbol @ ''/'' @ interval" 7]
    by (simp_all add: daily_url_def monthly_url_def klines_daily_url_def klines_monthly_url_def day)
  show ?thesis
    unfolding b using url_for_parts [OF assms(1,2)] url_for_parts [OF assms(1) i] t(1,2) not_month_day [OF t(2)] assms(3,4)
    by (simp add: daily_url_def monthly_url_def klines_daily_url_def klines_monthly_url_def)
qed

theorem url_for_filename_roundtrip_witness:
  "url_for_filename (base_name (klines_daily_url ''0GUSDT'' (OnDate 739768) ''1m''))
     = Some (klines_daily_url ''0GUSDT'' (OnDate 739768) ''1m'')"
  using url_for_filename_roundtrip [of "''0GUSDT''" "''trades''" "''1m''" 739768]
  by (simp add: plain_name_def is_interval_def is_digits_def is_digit_def)

end
