(* ===== verification/Frame.thy ===== *)
theory Frame
  imports DecText "HOL-Library.Multiset"
begin

text \<open>
  Data frames, as far as the ingestion uses them: named columns of one dtype each over a number of
  rows. Reading a missing column is a \<open>KeyError\<close>; a typed accessor of another dtype is a
  \<open>TypeError\<close> of the model (pandas may compute with such a column; the stored datasets have the
  dtypes of their schemas). Holds the well-formedness invariant of frames and that selecting,
  sorting, filtering and adding columns keep it.
\<close>

section \<open>Columns\<close>

datatype column =
    ICol "int list"
  | FCol "pynum list"
  | SCol "string option list" \<comment> \<open>text, a missing cell is \<open>None\<close>\<close>
  | BCol "bool list"

fun col_len :: "column \<Rightarrow> nat" where
  "col_len (ICol xs) = length xs"
| "col_len (FCol xs) = length xs"
| "col_len (SCol xs) = length xs"
| "col_len (BCol xs) = length xs"

fun col_pick :: "nat list \<Rightarrow> column \<Rightarrow> column" where \<comment> \<open>the rows of an index list, in its order\<close>
  "col_pick is (ICol xs) = ICol (map ((!) xs) is)"
| "col_pick is (FCol xs) = FCol (map ((!) xs) is)"
| "col_pick is (SCol xs) = SCol (map ((!) xs) is)"
| "col_pick is (BCol xs) = BCol (map ((!) xs) is)"

fun col_null :: "column \<Rightarrow> bool" where \<comment> \<open>\<open>column.isna().any()\<close>\<close>
  "col_null (FCol xs) \<longleftrightarrow> NaN \<in> set xs"
| "col_null (SCol xs) \<longleftrightarrow> None \<in> set xs"
| "col_null _ \<longleftrightarrow> False"

lemma col_pick_len [simp]: "col_len (col_pick is c) = length is"
  by (cases c) simp_all

section \<open>Frames\<close>

record frame =
  nrows :: nat
  columns :: "(string \<times> column) list"

definition frame_ok :: "frame \<Rightarrow> bool" where
  "frame_ok f \<longleftrightarrow> distinct (map fst (columns f)) \<and> list_all (\<lambda>(_, c). col_len c = nrows f) (columns f)"

definition col_names :: "frame \<Rightarrow> string list" where
  "col_names f = map fst (columns f)"

definition frame_empty :: "frame \<Rightarrow> bool" where
  "frame_empty f \<longleftrightarrow> nrows f = 0 \<or> columns f = []"

definition get_col :: "frame \<Rightarrow> string \<Rightarrow> column res" where
  "get_col f k = (case map_of (columns f) k of None \<Rightarrow> Inl (KeyError k) | Some c \<Rightarrow> Inr c)"

definition get_ints :: "frame \<Rightarrow> string \<Rightarrow> int list res" where
  "get_ints f k = bnd (get_col f k) (\<lambda>c. case c of ICol xs \<Rightarrow> Inr xs | _ \<Rightarrow> Inl (TypeError k))"

fun numbers :: "column \<Rightarrow> pynum list option" where
  "numbers (ICol xs) = Some (map (\<lambda>i. Fin (of_int i)) xs)"
| "numbers (FCol xs) = Some xs"
| "numbers (BCol xs) = Some (map (\<lambda>b. Fin (if b then 1 else 0)) xs)"
| "numbers (SCol _) = None"

definition get_nums :: "frame \<Rightarrow> string \<Rightarrow> pynum list res" where
  "get_nums f k =
     bnd (get_col f k) (\<lambda>c. case numbers c of Some xs \<Rightarrow> Inr xs | None \<Rightarrow> Inl (TypeError k))"

definition get_texts :: "frame \<Rightarrow> string \<Rightarrow> string option list res" where
  "get_texts f k = bnd (get_col f k) (\<lambda>c. case c of SCol xs \<Rightarrow> Inr xs | _ \<Rightarrow> Inl (TypeError k))"

definition get_bools :: "frame \<Rightarrow> string \<Rightarrow> bool list res" where
  "get_bools f k = bnd (get_col f k) (\<lambda>c. case c of BCol xs \<Rightarrow> Inr xs | _ \<Rightarrow> Inl (TypeError k))"

definition pick_rows :: "nat list \<Rightarrow> frame \<Rightarrow> frame" where
  "pick_rows is f = \<lparr>nrows = length is, columns = map (\<lambda>(k, c). (k, col_pick is c)) (columns f)\<rparr>"

definition sort_rows :: "string \<Rightarrow> frame \<Rightarrow> frame res" where
  \<comment> \<open>\<open>sort_values\<close>; rows with equal keys keep their order\<close>
  "sort_rows k f = bnd (get_ints f k) (\<lambda>xs. Inr (pick_rows (sort_key ((!) xs) [0..<nrows f]) f))"

definition keep_rows :: "(nat \<Rightarrow> bool) \<Rightarrow> frame \<Rightarrow> frame" where
  "keep_rows p f = pick_rows (filter p [0..<nrows f]) f"

definition set_col :: "string \<Rightarrow> column \<Rightarrow> frame \<Rightarrow> frame" where
  "set_col k c f =
     f\<lparr>columns := (if k \<in> set (col_names f)
                   then map (\<lambda>(k', c'). (k', if k' = k then c else c')) (columns f)
                   else columns f @ [(k, c)])\<rparr>"

lemma get_col_Inr [res_simps]: "get_col f k = Inr c \<longleftrightarrow> map_of (columns f) k = Some c"
  by (simp add: get_col_def split: option.splits)

lemma get_ints_Inr [res_simps]: "get_ints f k = Inr xs \<longleftrightarrow> map_of (columns f) k = Some (ICol xs)"
  by (auto simp: get_ints_def res_simps split: column.split_asm)

lemma get_texts_Inr [res_simps]: "get_texts f k = Inr xs \<longleftrightarrow> map_of (columns f) k = Some (SCol xs)"
  by (auto simp: get_texts_def res_simps split: column.split_asm)

lemma get_bools_Inr [res_simps]: "get_bools f k = Inr xs \<longleftrightarrow> map_of (columns f) k = Some (BCol xs)"
  by (auto simp: get_bools_def res_simps split: column.split_asm)

lemma get_nums_Inr [res_simps]:
  "get_nums f k = Inr xs \<longleftrightarrow> (\<exists>c. map_of (columns f) k = Some c \<and> numbers c = Some xs)"
  by (auto simp: get_nums_def res_simps split: option.split_asm)

lemma frame_ok_len: "frame_ok f \<Longrightarrow> map_of (columns f) k = Some c \<Longrightarrow> col_len c = nrows f"
  by (auto simp: frame_ok_def list_all_iff dest!: map_of_SomeD)

lemma ints_len: "frame_ok f \<Longrightarrow> get_ints f k = Inr xs \<Longrightarrow> length xs = nrows f"
  using frame_ok_len [of f k "ICol xs"] by (simp add: res_simps)

lemma pick_rows_ok: "frame_ok f \<Longrightarrow> frame_ok (pick_rows is f)"
  by (auto simp: frame_ok_def pick_rows_def list_all_iff comp_def case_prod_beta)

lemma keep_rows_ok: "frame_ok f \<Longrightarrow> frame_ok (keep_rows p f)"
  by (simp add: keep_rows_def pick_rows_ok)

lemma sort_rows_ok: "frame_ok f \<Longrightarrow> sort_rows k f = Inr g \<Longrightarrow> frame_ok g \<and> nrows g = nrows f"
  by (auto simp: sort_rows_def res_simps pick_rows_ok) (simp add: pick_rows_def)

lemma set_col_ok: "frame_ok f \<Longrightarrow> col_len c = nrows f \<Longrightarrow> frame_ok (set_col k c f)"
  by (auto simp: frame_ok_def set_col_def col_names_def list_all_iff comp_def case_prod_beta)

lemma pick_rows_col: "map_of (columns (pick_rows is f)) k = map_option (col_pick is) (map_of (columns f) k)"
  by (simp add: pick_rows_def map_of_map comp_def)

lemma sort_rows_ints:
  assumes "frame_ok f" and "sort_rows k f = Inr g" and "get_ints f k = Inr xs"
  shows "get_ints g k = Inr (sort xs)"
proof -
  have g: "g = pick_rows (sort_key ((!) xs) [0..<nrows f]) f"
    using assms(2,3) by (auto simp: sort_rows_def res_simps)
  have len: "length xs = nrows f" using assms(1,3) by (rule ints_len)
  have "map ((!) xs) (sort_key ((!) xs) [0..<nrows f]) = sort xs"
  proof (rule properties_for_sort [symmetric])
    show "sorted (map ((!) xs) (sort_key ((!) xs) [0..<nrows f]))" by (rule sorted_sort_key)
    have "mset (map ((!) xs) (sort_key ((!) xs) [0..<nrows f])) = mset (map ((!) xs) [0..<nrows f])"
      by (simp only: mset_map mset_sort)
    also have "map ((!) xs) [0..<nrows f] = xs" using len by (metis map_nth)
    finally show "mset (map ((!) xs) (sort_key ((!) xs) [0..<nrows f])) = mset xs" .
  qed
  then show ?thesis using assms(3) by (simp add: res_simps g pick_rows_col)
qed

section \<open>What comes from outside\<close>

text \<open>
  The network, the archive cache and the CSV reader, as the fetchers use them: the published checksum
  of a URL (\<open>None\<close> where there is none), the path of a verified local copy, and the frame of a file
  read as text. Conversions of a column to a dtype are pandas'.
\<close>

record source =
  checksum_at :: "string \<Rightarrow> string option res"
  fetch_to :: "string \<Rightarrow> string option \<Rightarrow> string res"
  read_text :: "string \<Rightarrow> frame res"
  read_named :: "string \<Rightarrow> string list \<Rightarrow> frame res" \<comment> \<open>without a header, under given names\<close>
  as_int64 :: "column \<Rightarrow> int list res" \<comment> \<open>\<open>astype("int64")\<close>\<close>
  as_float64 :: "column \<Rightarrow> pynum list res" \<comment> \<open>\<open>astype("float64")\<close>\<close>

definition fetch_frame :: "source \<Rightarrow> bool \<Rightarrow> string \<Rightarrow> frame res" where
  "fetch_frame src verify_checksum url =
     bnd (if verify_checksum then checksum_at src url else Inr None) (\<lambda>digest.
     bnd (fetch_to src url digest) (\<lambda>path. read_text src path))"

text \<open>What the reader and the conversions guarantee: rectangular frames and one value per cell.\<close>

definition source_ok :: "source \<Rightarrow> bool" where
  "source_ok src \<longleftrightarrow>
     (\<forall>p f. read_text src p = Inr f \<longrightarrow> frame_ok f)
     \<and> (\<forall>c xs. as_int64 src c = Inr xs \<longrightarrow> length xs = col_len c)
     \<and> (\<forall>c xs. as_float64 src c = Inr xs \<longrightarrow> length xs = col_len c)"

lemma fetch_frame_ok: "source_ok src \<Longrightarrow> fetch_frame src v url = Inr f \<Longrightarrow> frame_ok f"
  by (auto simp: source_ok_def fetch_frame_def res_simps)

lemma converted_ints:
  "source_ok src \<Longrightarrow> frame_ok f \<Longrightarrow> bnd (get_col f k) (as_int64 src) = Inr xs \<Longrightarrow> length xs = nrows f"
  using frame_ok_len [of f k] by (fastforce simp: source_ok_def res_simps)

lemma converted_floats:
  "source_ok src \<Longrightarrow> frame_ok f \<Longrightarrow> bnd (get_col f k) (as_float64 src) = Inr xs \<Longrightarrow> length xs = nrows f"
  using frame_ok_len [of f k] by (fastforce simp: source_ok_def res_simps)

text \<open>A sort permutes the rows: a constant column stays constant.\<close>

lemma sorted_texts:
  assumes "sort_rows k f = Inr g" and "get_texts f c = Inr xs" and "length xs = nrows f"
  obtains ys where "get_texts g c = Inr ys" "set ys = set xs" "length ys = nrows g"
proof -
  obtain ks where ks: "get_ints f k = Inr ks"
    using assms(1) by (cases "get_ints f k") (simp_all add: sort_rows_def)
  then have g: "g = pick_rows (sort_key ((!) ks) [0..<nrows f]) f"
    using assms(1) by (simp add: sort_rows_def)
  let ?ys = "map ((!) xs) (sort_key ((!) ks) [0..<nrows f])"
  have "set ?ys = set (map ((!) xs) [0..<nrows f])" by simp
  also have "map ((!) xs) [0..<nrows f] = xs" using assms(3) by (metis map_nth)
  finally have "set ?ys = set xs" .
  moreover have "get_texts g c = Inr ?ys" using assms(2) by (simp add: res_simps g pick_rows_col)
  moreover have "length ?ys = nrows g" by (simp add: g pick_rows_def)
  ultimately show thesis by (intro that)
qed

end
