(* ===== verification/SymbolMeta.thy ===== *)
theory SymbolMeta
  imports Archives Frame
begin

text \<open>
  Tick and step sizes derived from observed prices and quantities
  (\<open>ingestion/derive_symbol_meta.py\<close>): exact decimals from archive text, their greatest common
  divisor, the evidence behind an estimate, pooling of windows, and the committed lookup table as
  JSON. The JSON parser and printer and the archive are parameters.
\<close>

section \<open>The greatest common divisor of decimals\<close>

text \<open>Values as Python passes them.\<close>

datatype pyval = VDec decimal | VStr string | VInt int | VFloat pynum | VOther

definition to_decimal :: "pyval \<Rightarrow> decimal res" where
  "to_decimal v =
     (case v of
        VFloat _ \<Rightarrow> Inl (TypeError ''float values are rejected'')
      | VDec d \<Rightarrow> Inr d
      | VInt i \<Rightarrow> Inr (DFin (i < 0) (nat \<bar>i\<bar>) 0)
      | VStr s \<Rightarrow> (case parse_decimal s of Some d \<Rightarrow> Inr d
                   | None \<Rightarrow> Inl (SymbolMetaError ''not a decimal value''))
      | VOther \<Rightarrow> Inl (TypeError ''cannot derive a grid''))"

definition decimal_places :: "decimal \<Rightarrow> nat res" where
  "decimal_places d =
     (case d of DFin _ _ e \<Rightarrow> Inr (nat (- e)) | _ \<Rightarrow> Inl (SymbolMetaError ''non-finite value''))"

definition as_scaled_int :: "nat \<Rightarrow> decimal \<Rightarrow> nat res" where
  "as_scaled_int places d =
     (case d of
        DFin _ c e \<Rightarrow>
          (let shift = e + int places in
           if shift < 0 then Inl (SymbolMetaError ''scaling would truncate it'')
           else Inr (c * 10 ^ nat shift))
      | _ \<Rightarrow> Inl (TypeError ''unsupported exponent''))"

text \<open>\<open>d <= 0\<close>: an ordering comparison with a NaN signals.\<close>

definition not_positive :: "decimal \<Rightarrow> bool res" where
  "not_positive d =
     (case d of DFin s c _ \<Rightarrow> Inr (s \<or> c = 0) | DInf s \<Rightarrow> Inr s
      | DNaN _ _ _ \<Rightarrow> Inl (InvalidOperation ''comparison involving NaN''))"

text \<open>
  \<open>Decimal(common).scaleb(-places).normalize()\<close> in the default context: rounded to 28 digits, then
  without trailing zeros.
\<close>

fun strip_zeros :: "nat \<Rightarrow> int \<Rightarrow> nat \<times> int" where
  "strip_zeros c e =
     (if c = 0 then (0, 0) else if c mod 10 = 0 then strip_zeros (c div 10) (e + 1) else (c, e))"

declare strip_zeros.simps [simp del]

definition scale_normalize :: "nat \<Rightarrow> nat \<Rightarrow> decimal" where
  "scale_normalize common places =
     (case strip_zeros (nat \<lfloor>d28 (of_nat common / 10 ^ places) * 10 ^ places\<rfloor>) (- int places) of
        (c, e) \<Rightarrow> DFin False c e)"

definition decimal_of_text :: "string \<Rightarrow> decimal res" where
  "decimal_of_text s =
     (case parse_decimal s of Some d \<Rightarrow> Inr d | None \<Rightarrow> Inl (InvalidOperation ''ConversionSyntax''))"

definition gcd_finite :: "decimal list \<Rightarrow> decimal res" where \<comment> \<open>the part after the checks of the sample\<close>
  "gcd_finite decimals =
     bnd (map_res decimal_places decimals) (\<lambda>ps.
     let places = fold max ps 0 in
     bnd (map_res (as_scaled_int places) decimals) (\<lambda>scaled.
     let common = foldl gcd (hd scaled) (tl scaled) in
     decimal_of_text (format_f (scale_normalize common places))))"

definition decimal_gcd :: "pyval list \<Rightarrow> decimal res" where
  "decimal_gcd values =
     bnd (map_res to_decimal values) (\<lambda>decimals.
     bnd (guard (decimals = []) (SymbolMetaError ''cannot derive a grid from no values'')) (\<lambda>_.
     bnd (map_res not_positive decimals) (\<lambda>bad.
     bnd (guard (list_ex id bad) (SymbolMetaError ''non-positive value(s) in the sample'')) (\<lambda>_.
     gcd_finite decimals))))"

section \<open>Estimates\<close>

definition min_distinct_values :: nat where "min_distinct_values = 20"

record grid_estimate =
  ge_value :: decimal
  ge_values :: "decimal list" \<comment> \<open>a set: one representative per number\<close>
  ge_samples :: nat

definition ge_distinct :: "grid_estimate \<Rightarrow> nat" where
  "ge_distinct g = length (ge_values g)"

definition ge_confident :: "grid_estimate \<Rightarrow> bool" where
  "ge_confident g \<longleftrightarrow> min_distinct_values \<le> ge_distinct g"

definition ge_caveat :: "grid_estimate \<Rightarrow> string option" where
  "ge_caveat g = (if ge_confident g then None else Some ''may be a multiple of the true grid'')"

text \<open>Equality of dictionary keys and of set elements: text by its characters, numbers by value.\<close>

fun py_number :: "pyval \<Rightarrow> pynum" where
  "py_number (VDec d) =
     (case d of DInf s \<Rightarrow> if s then NInf else PInf | _ \<Rightarrow>
        (case dec_val d of Some r \<Rightarrow> Fin r | None \<Rightarrow> NaN))"
| "py_number (VInt i) = Fin (of_int i)"
| "py_number (VFloat x) = x"
| "py_number _ = NaN"

definition same_key :: "pyval \<Rightarrow> pyval \<Rightarrow> bool" where
  "same_key v w = (case (v, w) of (VStr s, VStr t) \<Rightarrow> s = t | _ \<Rightarrow> feq (py_number v) (py_number w))"

definition add_key :: "('a \<Rightarrow> 'a \<Rightarrow> bool) \<Rightarrow> 'a list \<Rightarrow> 'a \<Rightarrow> 'a list" where
  "add_key eq ks x = (if list_ex (eq x) ks then ks else ks @ [x])"

definition from_keys :: "('a \<Rightarrow> 'a \<Rightarrow> bool) \<Rightarrow> 'a list \<Rightarrow> 'a list" where
  "from_keys eq xs = foldl (add_key eq) [] xs"

definition same_decimal :: "decimal \<Rightarrow> decimal \<Rightarrow> bool" where
  "same_decimal d d' = feq (py_number (VDec d)) (py_number (VDec d'))"

definition hash_decimal :: "decimal \<Rightarrow> decimal res" where \<comment> \<open>a set element must be hashable\<close>
  "hash_decimal d =
     (case d of DNaN _ True _ \<Rightarrow> Inl (TypeError ''Cannot hash a signaling NaN value.'') | _ \<Rightarrow> Inr d)"

definition estimate_grid :: "pyval list \<Rightarrow> grid_estimate res" where
  "estimate_grid values =
     bnd (map_res (\<lambda>v. bnd (to_decimal v) hash_decimal) (from_keys same_key values)) (\<lambda>ds.
     let unique = from_keys same_decimal ds in
     bnd (decimal_gcd (map VDec unique)) (\<lambda>g.
     Inr \<lparr>ge_value = g, ge_values = unique, ge_samples = length values\<rparr>))"

record window_estimate =
  we_symbol :: string
  we_date :: string
  we_tick :: grid_estimate
  we_step :: grid_estimate

fun cells :: "column \<Rightarrow> pyval list" where \<comment> \<open>\<open>list(column)\<close>\<close>
  "cells (ICol xs) = map VInt xs"
| "cells (FCol xs) = map VFloat xs"
| "cells (SCol xs) = map (\<lambda>c. case c of Some s \<Rightarrow> VStr s | None \<Rightarrow> VFloat NaN) xs"
| "cells (BCol xs) = map (\<lambda>b. VInt (if b then 1 else 0)) xs"

definition is_text :: "column \<Rightarrow> bool" where \<comment> \<open>the first cell is a \<open>str\<close>\<close>
  "is_text c = (case cells c of VStr _ # _ \<Rightarrow> True | _ \<Rightarrow> False)"

definition estimate_window :: "frame \<Rightarrow> string \<Rightarrow> period \<Rightarrow> window_estimate res" where
  "estimate_window raw symbol date =
     bnd (guard (\<not> {''price'', ''qty''} \<subseteq> set (col_names raw))
            (SymbolMetaError ''archive schema changed: missing columns'')) (\<lambda>_.
     bnd (guard (frame_empty raw) (SymbolMetaError ''no trades in the window'')) (\<lambda>_.
     bnd (get_col raw ''price'') (\<lambda>price. bnd (get_col raw ''qty'') (\<lambda>qty.
     bnd (guard (\<not> is_text price) (SymbolMetaError ''price arrived not as text'')) (\<lambda>_.
     bnd (guard (\<not> is_text qty) (SymbolMetaError ''qty arrived not as text'')) (\<lambda>_.
     bnd (estimate_grid (cells price)) (\<lambda>tick.
     bnd (estimate_grid (cells qty)) (\<lambda>step.
     Inr \<lparr>we_symbol = symbol, we_date = date_str date, we_tick = tick, we_step = step\<rparr>))))))))"

definition raw_day :: "source \<Rightarrow> string \<Rightarrow> period \<Rightarrow> bool \<Rightarrow> frame res" where
  "raw_day src symbol date verify_checksum =
     fetch_frame src verify_checksum (daily_url ''trades'' symbol date)"

section \<open>The committed record\<close>

text \<open>The dataclass checks no types: what a JSON document held is what the record holds.\<close>

record symbol_meta =
  sm_symbol :: json
  tick_size :: decimal
  step_size :: decimal
  windows :: "json list"
  sm_trades :: json
  distinct_prices :: json
  distinct_quantities :: json
  derived_on :: json
  sm_confident :: json
  caveats :: "json list"

definition to_json :: "symbol_meta \<Rightarrow> (string \<times> json) list" where
  "to_json m =
     [(''symbol'', sm_symbol m), (''tick_size'', JStr (format_f (tick_size m))),
      (''step_size'', JStr (format_f (step_size m))), (''windows'', JList (windows m)),
      (''trades'', sm_trades m), (''distinct_prices'', distinct_prices m),
      (''distinct_quantities'', distinct_quantities m), (''derived_on'', derived_on m),
      (''confident'', sm_confident m), (''caveats'', JList (caveats m))]"

fun py_tuple :: "json \<Rightarrow> json list res" where \<comment> \<open>\<open>tuple(value)\<close>\<close>
  "py_tuple (JList xs) = Inr xs"
| "py_tuple (JStr s) = Inr (map (\<lambda>c. JStr [c]) s)"
| "py_tuple (JDict d) = Inr (map (\<lambda>(k, _). JStr k) d)"
| "py_tuple _ = Inl (TypeError ''object is not iterable'')"

definition size_text :: "(string \<times> json) list \<Rightarrow> string \<Rightarrow> string res" where
  "size_text payload field =
     bnd (jget payload field) (\<lambda>v. case v of JStr s \<Rightarrow> Inr s | _ \<Rightarrow> Inl (SymbolMetaError ''expected a string''))"

definition from_json :: "(string \<times> json) list \<Rightarrow> symbol_meta res" where
  "from_json payload =
     bnd (size_text payload ''tick_size'') (\<lambda>tick_text.
     bnd (size_text payload ''step_size'') (\<lambda>step_text.
     bnd (jget payload ''symbol'') (\<lambda>symbol.
     bnd (decimal_of_text tick_text) (\<lambda>tick.
     bnd (decimal_of_text step_text) (\<lambda>step.
     bnd (bnd (jget payload ''windows'') py_tuple) (\<lambda>ws.
     bnd (jget payload ''trades'') (\<lambda>trades.
     bnd (jget payload ''distinct_prices'') (\<lambda>prices.
     bnd (jget payload ''distinct_quantities'') (\<lambda>quantities.
     bnd (jget payload ''derived_on'') (\<lambda>derived.
     bnd (jget payload ''confident'') (\<lambda>confident.
     bnd (case map_of payload ''caveats'' of Some v \<Rightarrow> py_tuple v | None \<Rightarrow> Inr []) (\<lambda>cs.
     Inr \<lparr>sm_symbol = symbol, tick_size = tick, step_size = step, windows = ws, sm_trades = trades,
          distinct_prices = prices, distinct_quantities = quantities, derived_on = derived,
          sm_confident = confident, caveats = cs\<rparr>))))))))))))"

text \<open>The union of the windows' observations, one representative per number.\<close>

definition union_values :: "(window_estimate \<Rightarrow> grid_estimate) \<Rightarrow> window_estimate list \<Rightarrow> decimal list" where
  "union_values field estimates = from_keys same_decimal (concat (map (\<lambda>e. ge_values (field e)) estimates))"

definition pool :: "(window_estimate \<Rightarrow> grid_estimate) \<Rightarrow> window_estimate list \<Rightarrow> nat \<Rightarrow> grid_estimate res" where
  "pool field estimates trades =
     (let union = union_values field estimates in
      bnd (decimal_gcd (map VDec union)) (\<lambda>g.
      Inr \<lparr>ge_value = g, ge_values = union, ge_samples = trades\<rparr>))"

definition disagrees :: "(window_estimate \<Rightarrow> grid_estimate) \<Rightarrow> window_estimate list \<Rightarrow> bool" where
  "disagrees field estimates \<longleftrightarrow> 1 < length (from_keys same_decimal (map (\<lambda>e. ge_value (field e)) estimates))"

definition combine :: "int \<Rightarrow> window_estimate list \<Rightarrow> int option \<Rightarrow> symbol_meta res" where
  "combine today estimates derived =
     bnd (guard (estimates = []) (SymbolMetaError ''no windows to combine'')) (\<lambda>_.
     bnd (guard (1 < length (remdups (map we_symbol estimates)))
            (SymbolMetaError ''cannot combine windows from different symbols'')) (\<lambda>_.
     bnd (guard (disagrees we_tick estimates) (SymbolMetaError ''tick size disagrees across windows'')) (\<lambda>_.
     bnd (guard (disagrees we_step estimates) (SymbolMetaError ''step size disagrees across windows'')) (\<lambda>_.
     let trades = sum_list (map (\<lambda>e. ge_samples (we_tick e)) estimates) in
     bnd (pool we_tick estimates trades) (\<lambda>tick.
     bnd (pool we_step estimates trades) (\<lambda>step.
     let caveats = (if ge_confident tick then [] else [''tick size''])
                 @ (if ge_confident step then [] else [''step size''])
                 @ (if length estimates < 2 then [''derived from a single window''] else []) in
     Inr \<lparr>sm_symbol = JStr (we_symbol (hd estimates)), tick_size = ge_value tick, step_size = ge_value step,
          windows = map (\<lambda>e. JStr (we_date e)) estimates, sm_trades = JInt (int trades),
          distinct_prices = JInt (int (ge_distinct tick)),
          distinct_quantities = JInt (int (ge_distinct step)),
          derived_on = JStr (iso_text (case derived of Some d \<Rightarrow> d | None \<Rightarrow> today)),
          sm_confident = JBool (caveats = []), caveats = map JStr caveats\<rparr>))))))"

definition derive :: "source \<Rightarrow> int \<Rightarrow> string \<Rightarrow> period list \<Rightarrow> int option \<Rightarrow> symbol_meta res" where
  "derive src today symbol dates derived =
     bnd (map_res (\<lambda>date. bnd (raw_day src symbol date True) (\<lambda>raw. estimate_window raw symbol date)) dates)
       (\<lambda>estimates. combine today estimates derived)"

text \<open>\<open>date.replace(day=day)\<close> and \<open>date(y, m, d)\<close>.\<close>

definition make_date :: "int \<Rightarrow> int \<Rightarrow> int \<Rightarrow> int res" where
  "make_date y m d =
     (if 1 \<le> y \<and> y \<le> 9999 \<and> 1 \<le> m \<and> m \<le> 12 \<and> 1 \<le> d \<and> d \<le> days_in_month y m
      then Inr (ymd2ord y m d) else Inl (ValueError ''day is out of range for month''))"

definition replace_day :: "int \<Rightarrow> int \<Rightarrow> int res" where
  "replace_day date day = (case ord2ymd date of (y, m, _) \<Rightarrow> make_date y m day)"

definition month_index :: "int \<Rightarrow> int" where
  "month_index date = (case ord2ymd date of (y, m, _) \<Rightarrow> y * 12 + m - 1)"

definition sample_days :: "int \<Rightarrow> int \<Rightarrow> int \<Rightarrow> int list res" where
  "sample_days start stop day =
     bnd (guard (stop < start) (SymbolMetaError ''end precedes start'')) (\<lambda>_.
     bnd (replace_day start day) (\<lambda>first.
     bnd (replace_day stop day) (\<lambda>final.
     let middle_index = (month_index first + month_index final) div 2 in
     bnd (make_date (middle_index div 12) (middle_index mod 12 + 1) day) (\<lambda>middle.
     Inr (sort (remdups [first, middle, final]))))))"

section \<open>The lookup table\<close>

type_synonym meta_table = "(string \<times> symbol_meta) list"

definition load_entry :: "string \<times> json \<Rightarrow> (string \<times> symbol_meta) res" where
  "load_entry e =
     (case snd e of JDict d \<Rightarrow> bnd (from_json d) (\<lambda>m. Inr (fst e, m))
      | _ \<Rightarrow> Inl (TypeError ''indices must be integers''))"

definition load_table :: "(string \<Rightarrow> json res) \<Rightarrow> string option \<Rightarrow> meta_table res" where
  "load_table loads content =
     (case content of None \<Rightarrow> Inr []
      | Some text \<Rightarrow>
          bnd (loads text) (\<lambda>payload.
          case payload of JDict entries \<Rightarrow> map_res load_entry entries
          | _ \<Rightarrow> Inl (AttributeError ''items'')))"

definition table_json :: "meta_table \<Rightarrow> json" where
  "table_json table =
     JDict (map (\<lambda>name. (name, JDict (to_json (the (map_of table name))))) (sort (map fst table)))"

definition save_table :: "(json \<Rightarrow> string) \<Rightarrow> meta_table \<Rightarrow> string" where \<comment> \<open>the text written\<close>
  "save_table dumps table = dumps (table_json table) @ [char_of (10 :: nat)]"

end
