(* ===== verification/SymbolMetaProps.thy ===== *)
theory SymbolMetaProps
  imports SymbolMeta
begin

text \<open>
  Properties of the derived symbol metadata: the grid is the greatest common measure of the observed
  values, windows that are combined agree on it, the lookup table survives a write and a read, and
  the sampled days span the study.
\<close>

section \<open>The greatest common divisor\<close>

lemma dvd_foldl_gcd: "(d :: nat) dvd foldl gcd a xs \<longleftrightarrow> d dvd a \<and> (\<forall>x \<in> set xs. d dvd x)"
  by (induction xs arbitrary: a) auto

definition integral :: "rat \<Rightarrow> bool" where
  "integral x \<longleftrightarrow> (\<exists>k :: int. x = of_int k)"

lemma integral_add: "integral x \<Longrightarrow> integral y \<Longrightarrow> integral (x + y)"
  unfolding integral_def by (metis of_int_add)

lemma integral_mult_int: "integral x \<Longrightarrow> integral (of_int i * x)"
  unfolding integral_def by (metis of_int_mult)

text \<open>A scale that makes every number integral makes their greatest common divisor integral.\<close>

lemma gcd_integral:
  assumes "integral (of_nat a * t)" and "integral (of_nat b * t)"
  shows "integral (of_nat (gcd a b) * t)"
proof -
  obtain u v where "u * int a + v * int b = gcd (int a) (int b)" using bezout_int by blast
  then have "of_nat (gcd a b) = (of_int (u * int a + v * int b) :: rat)" by (simp add: gcd_int_int_eq)
  then have "of_nat (gcd a b) * t = of_int u * (of_nat a * t) + of_int v * (of_nat b * t)"
    by (simp add: algebra_simps)
  then show ?thesis using assms by (simp add: integral_add integral_mult_int)
qed

lemma foldl_gcd_integral:
  "integral (of_nat a * t) \<Longrightarrow> \<forall>x \<in> set xs. integral (of_nat x * t) \<Longrightarrow> integral (of_nat (foldl gcd a xs) * t)"
  by (induction xs arbitrary: a) (auto intro: gcd_integral)

section \<open>Rendering the divisor\<close>

lemma ten_pow: "(10 :: rat) powi (e + int k) = 10 powi e * 10 ^ k"
  by (simp add: power_int_add)

lemma strip_zeros_val:
  "strip_zeros c e = (c', e') \<Longrightarrow> (of_nat c' :: rat) * 10 powi e' = of_nat c * 10 powi e"
proof (induction c e arbitrary: c' e' rule: strip_zeros.induct)
  case (1 c e)
  show ?case
  proof (cases "c \<noteq> 0 \<and> c mod 10 = 0")
    case True
    then have s: "strip_zeros (c div 10) (e + 1) = (c', e')" using "1.prems" by (simp add: strip_zeros.simps [of c e])
    have "(of_nat c' :: rat) * 10 powi e' = of_nat (c div 10) * 10 powi (e + 1)"
      by (rule "1.IH" [OF _ _ s]) (use True in simp_all)
    moreover have "(of_nat c :: rat) = of_nat (c div 10) * 10"
      using True by (metis mod_0_imp_dvd dvd_div_mult_self of_nat_mult of_nat_numeral)
    ultimately show ?thesis by (simp add: power_int_add)
  next
    case False
    then show ?thesis using "1.prems" by (auto simp: strip_zeros.simps [of c e] split: if_splits)
  qed
qed

lemma d28_multiple: "\<exists>m :: int. d28 (of_nat n / 10 ^ p) = of_int m / 10 ^ p"
proof (cases "n = 0")
  case True
  then show ?thesis by (intro exI [of _ 0]) simp
next
  case nz: False
  let ?x = "of_nat n / 10 ^ p :: rat" and ?e = "ilog 10 (of_nat n / 10 ^ p)"
  have x: "0 < ?x" "?x = of_int (int n) * of_nat 10 powi (- int p)"
    using nz by (simp_all add: power_int_minus_divide)
  show ?thesis
  proof (cases "?e - 27 \<le> - int p")
    case True
    then have "d28 ?x = ?x"
      using grid.on_grid [OF ctx28.is_grid x(2)] x(1) by (simp add: d28_def dround_def)
    then show ?thesis by (intro exI [of _ "int n"]) simp
  next
    case False
    then obtain k where k: "?e - 27 = - int p + int k" by (metis nle_le zle_iff_zadd)
    define m where "m = round_even (?x / 10 powi (?e - 27))"
    have "d28 ?x = of_int m * 10 powi (?e - 27)"
      unfolding m_def using x(1) nz by (simp add: d28_def dround_def round_grid_def Let_def)
    also have "\<dots> = of_int (m * 10 ^ k) / 10 ^ p"
      unfolding k ten_pow by (simp add: power_int_minus_divide)
    finally show ?thesis by blast
  qed
qed

lemma scale_normalize_val: "dec_val (scale_normalize n p) = Some (d28 (of_nat n / 10 ^ p))"
proof -
  let ?r = "d28 (of_nat n / 10 ^ p)"
  obtain m where m: "?r = of_int m / 10 ^ p" using d28_multiple by blast
  then have fl: "\<lfloor>?r * 10 ^ p\<rfloor> = m" by simp
  have "0 \<le> ?r" by (rule d28.rd_nonneg) simp
  then have "0 \<le> (of_int m :: rat)" unfolding m by (metis divide_less_0_iff not_le zero_less_power zero_less_numeral)
  then have "0 \<le> m" by simp
  obtain c e where s: "strip_zeros (nat m) (- int p) = (c, e)" by (cases "strip_zeros (nat m) (- int p)")
  have "(of_nat c :: rat) * 10 powi e = ?r"
    using strip_zeros_val [OF s] \<open>0 \<le> m\<close> by (simp add: m power_int_minus_divide)
  then show ?thesis by (simp add: scale_normalize_def fl s)
qed

lemma read_back: "decimal_of_text (format_f (scale_normalize n p)) = Inr (plain (scale_normalize n p))"
  by (simp add: scale_normalize_def decimal_of_text_def format_parse split: prod.splits del: format_f.simps plain.simps)

section \<open>The grid of a sample\<close>

definition value_of :: "pyval \<Rightarrow> rat option" where
  "value_of v = (case to_decimal v of Inr d \<Rightarrow> dec_val d | Inl _ \<Rightarrow> None)"

definition short_value :: "pyval \<Rightarrow> bool" where \<comment> \<open>at most 28 digits, as every archive price has\<close>
  "short_value v \<longleftrightarrow> (case to_decimal v of Inr (DFin _ c _) \<Rightarrow> c < 10 ^ 28 | _ \<Rightarrow> False)"

fun pos_fin :: "decimal \<Rightarrow> bool" where
  "pos_fin (DFin s c e) \<longleftrightarrow> \<not> s \<and> 0 < c"
| "pos_fin _ \<longleftrightarrow> False"

fun coeff :: "decimal \<Rightarrow> nat" where
  "coeff (DFin _ c _) = c"
| "coeff _ = 0"

fun expo :: "decimal \<Rightarrow> int" where
  "expo (DFin _ _ e) = e"
| "expo _ = 0"

definition scaled :: "nat \<Rightarrow> decimal \<Rightarrow> nat" where
  "scaled p d = coeff d * 10 ^ nat (expo d + int p)"

lemma pow_shift: "0 \<le> e + int p \<Longrightarrow> (10 :: rat) powi e * 10 ^ p = 10 ^ nat (e + int p)"
  by (simp add: power_int_nonneg_exp flip: ten_pow)

lemma pos_fin_scaled:
  assumes "pos_fin d" and "- expo d \<le> int p"
  shows "as_scaled_int p d = Inr (scaled p d)" "0 < scaled p d" "dec_val d = Some (of_nat (scaled p d) / 10 ^ p)"
proof -
  obtain c e where d: "d = DFin False c e" "0 < c" using assms(1) by (cases d) auto
  show "as_scaled_int p d = Inr (scaled p d)" "0 < scaled p d"
    using assms(2) d by (auto simp: as_scaled_int_def scaled_def)
  have "(10 :: rat) powi e * 10 ^ p = 10 ^ nat (e + int p)"
    using assms(2) d by (intro pow_shift) simp
  then have "(10 :: rat) powi e = 10 ^ nat (e + int p) / 10 ^ p" by (simp add: field_simps)
  then show "dec_val d = Some (of_nat (scaled p d) / 10 ^ p)" by (simp add: d scaled_def)
qed

lemma fold_max_ge: "x \<in> set xs \<Longrightarrow> x \<le> fold max xs (b :: nat)" "b \<le> fold max xs (b :: nat)"
proof -
  have "b \<le> fold max xs b \<and> (\<forall>x \<in> set xs. x \<le> fold max xs b)" for b
  proof (induction xs arbitrary: b)
    case (Cons a xs)
    from Cons [of "max a b"] show ?case by auto
  qed simp
  then show "x \<in> set xs \<Longrightarrow> x \<le> fold max xs b" "b \<le> fold max xs b" by auto
qed

text \<open>A successful derivation, opened: the sample is positive and finite, and the grid is the rounded divisor.\<close>

lemma gcd_finite_opened:
  assumes "list_all pos_fin ds" and "ds \<noteq> []"
  obtains p where "gcd_finite ds = Inr (plain (scale_normalize (foldl gcd (scaled p (hd ds)) (map (scaled p) (tl ds))) p))"
    and "\<forall>d \<in> set ds. - expo d \<le> int p"
proof -
  have places: "map_res decimal_places ds = Inr (map (\<lambda>d. nat (- expo d)) ds)"
  proof (rule map_res_map)
    fix d assume "d \<in> set ds"
    then have "pos_fin d" using assms(1) by (simp add: list_all_iff)
    then show "decimal_places d = Inr (nat (- expo d))" by (cases d) (simp_all add: decimal_places_def)
  qed
  define p where "p = fold max (map (\<lambda>d. nat (- expo d)) ds) 0"
  have le: "\<forall>d \<in> set ds. - expo d \<le> int p"
  proof
    fix d assume "d \<in> set ds"
    then have "nat (- expo d) \<le> p" unfolding p_def by (intro fold_max_ge(1)) auto
    then show "- expo d \<le> int p" by linarith
  qed
  have "map_res (as_scaled_int p) ds = Inr (map (scaled p) ds)"
    using assms(1) le by (intro map_res_map pos_fin_scaled(1)) (auto simp: list_all_iff)
  then have "gcd_finite ds = Inr (plain (scale_normalize (foldl gcd (scaled p (hd ds)) (map (scaled p) (tl ds))) p))"
    unfolding gcd_finite_def places bnd_Inr p_def [symmetric] Let_def
    using assms(2) by (simp add: hd_map map_tl read_back)
  then show thesis using le by (rule that)
qed

lemma decimal_gcd_opened:
  assumes "decimal_gcd vs = Inr g"
  obtains ds where "list_all2 (\<lambda>v d. to_decimal v = Inr d) vs ds" "ds \<noteq> []" "list_all pos_fin ds" "gcd_finite ds = Inr g"
proof -
  obtain ds bad where ds: "map_res to_decimal vs = Inr ds" "ds \<noteq> []" and bad: "map_res not_positive ds = Inr bad"
    "\<not> list_ex id bad" and g: "gcd_finite ds = Inr g"
    using assms by (auto simp: decimal_gcd_def res_simps)
  obtain ps where ps: "map_res decimal_places ds = Inr ps" using g by (auto simp: gcd_finite_def res_simps)
  have "pos_fin d" if d: "d \<in> set ds" for d
  proof -
    obtain b where "b \<in> set bad" "not_positive d = Inr b" using map_res_member [OF bad(1) d] by blast
    moreover obtain k where "decimal_places d = Inr k" using map_res_member [OF ps d] by blast
    ultimately show ?thesis using bad(2)
      by (cases d) (auto simp: not_positive_def decimal_places_def list_ex_iff)
  qed
  then have "list_all pos_fin ds" by (simp add: list_all_iff)
  then show thesis using ds g by (intro that) (simp_all add: map_res_list_all2)
qed

text \<open>With at most 28 digits in every value the divisor has at most 28 digits too, and is not rounded.\<close>

lemma short_divisor:
  assumes "list_all pos_fin ds" and "ds \<noteq> []" and "\<forall>d \<in> set ds. - expo d \<le> int p" and "\<forall>d \<in> set ds. coeff d < 10 ^ 28"
    and "n = foldl gcd (scaled p (hd ds)) (map (scaled p) (tl ds))"
  shows "d28 (of_nat n / 10 ^ p) = of_nat n / 10 ^ p"
proof -
  have dvd: "k dvd n \<longleftrightarrow> (\<forall>d \<in> set ds. k dvd scaled p d)" for k
    using assms(2) by (cases ds) (simp_all add: assms(5) dvd_foldl_gcd)
  define e0 where "e0 = Min (expo ` set ds)"
  have "e0 \<in> expo ` set ds" unfolding e0_def using assms(2) by (intro Min_in) auto
  then obtain d0 where d0: "d0 \<in> set ds" "expo d0 = e0" by blast
  have e0: "e0 \<le> expo d" if "d \<in> set ds" for d unfolding e0_def using that by simp
  let ?s = "nat (e0 + int p)"
  have "10 ^ ?s dvd scaled p d" if "d \<in> set ds" for d
    using e0 [OF that] by (simp add: scaled_def dvd_mult le_imp_power_dvd)
  then have "10 ^ ?s dvd n" using dvd by blast
  then obtain m where m: "n = 10 ^ ?s * m" by blast
  have "n dvd coeff d0 * 10 ^ ?s" using dvd [of n] d0 by (auto simp: scaled_def)
  then have "m dvd coeff d0" unfolding m by (simp add: mult.commute)
  moreover have "pos_fin d0" using d0(1) assms(1) by (simp add: list_all_iff)
  then have "0 < coeff d0" by (cases d0) auto
  ultimately have "m < 10 ^ 28" using assms(4) d0(1) by (meson dvd_imp_le le_less_trans)
  then have small: "\<bar>int m\<bar> < 10 ^ 28" by (metis abs_of_nat of_nat_less_iff of_nat_numeral of_nat_power)
  have "0 \<le> e0 + int p" using assms(3) d0 by force
  then have "(10 :: rat) ^ ?s / 10 ^ p = 10 powi e0" by (simp flip: pow_shift)
  then have "of_nat n / 10 ^ p = of_int (int m) * (10 :: rat) powi e0" by (simp add: m field_simps)
  then show ?thesis unfolding d28_def using small by (rule ctx28.dround_exact)
qed

text \<open>The greatest number of which every element is a whole multiple.\<close>

definition greatest_measure :: "rat \<Rightarrow> rat set \<Rightarrow> bool" where
  "greatest_measure G X \<longleftrightarrow>
     0 < G \<and> (\<forall>x \<in> X. \<exists>k :: nat. 0 < k \<and> x = of_nat k * G)
     \<and> (\<forall>h. (\<forall>x \<in> X. \<exists>k :: int. x = of_int k * h) \<longrightarrow> (\<exists>k :: int. G = of_int k * h))"

lemma greatest_measure_foldl:
  assumes "0 < a" and "\<forall>x \<in> set xs. 0 < x"
  shows "greatest_measure (of_nat (foldl gcd a xs) / 10 ^ p) ((\<lambda>x. of_nat x / 10 ^ p) ` set (a # xs))"
proof -
  let ?n = "foldl gcd a xs"
  have dvd: "k dvd ?n \<longleftrightarrow> (\<forall>x \<in> set (a # xs). k dvd x)" for k by (simp add: dvd_foldl_gcd)
  have pos: "0 < ?n" using assms(1) dvd [of ?n] by (metis dvd_refl gr0I dvd_0_left_iff list.set_intros(1) less_numeral_extra(3))
  have multiple: "\<exists>k :: nat. 0 < k \<and> (of_nat x / 10 ^ p :: rat) = of_nat k * (of_nat ?n / 10 ^ p)"
    if x: "x \<in> set (a # xs)" for x
  proof -
    have "?n dvd x" by (rule bspec [OF dvd [of ?n, THEN iffD1, OF dvd_refl] x])
    then obtain k where k: "x = ?n * k" by (rule dvdE)
    moreover have "0 < x" using assms x by auto
    ultimately show ?thesis by (intro exI [of _ k]) auto
  qed
  have greatest: "\<exists>k :: int. of_nat ?n / 10 ^ p = of_int k * h"
    if h: "\<forall>x \<in> (\<lambda>x. of_nat x / 10 ^ p) ` set (a # xs). \<exists>k :: int. x = of_int k * h" for h :: rat
  proof -
    have h': "\<exists>k :: int. of_nat x / 10 ^ p = of_int k * h" if "x \<in> set (a # xs)" for x
      using bspec [OF h imageI [OF that]] .
    then have "\<exists>k :: int. of_nat a / 10 ^ p = of_int k * h" by simp
    then have "h \<noteq> 0" using assms(1) by (intro notI) simp
    define t where "t = 1 / (10 ^ p * h)"
    have all: "integral (of_nat x * t)" if x: "x \<in> set (a # xs)" for x
    proof -
      obtain k :: int where "of_nat x / 10 ^ p = of_int k * h" using h' [OF x] ..
      moreover have "of_nat x * t = (of_nat x / 10 ^ p) / h" by (simp add: t_def)
      ultimately have "of_nat x * t = of_int k"
        using \<open>h \<noteq> 0\<close> by simp
      then show ?thesis unfolding integral_def by blast
    qed
    have "integral (of_nat ?n * t)" using all by (intro foldl_gcd_integral) auto
    then obtain k :: int where "of_nat ?n * t = of_int k" unfolding integral_def by blast
    moreover have "of_nat ?n / 10 ^ p = of_nat ?n * t * h" using \<open>h \<noteq> 0\<close> by (simp add: t_def)
    ultimately show ?thesis by metis
  qed
  show ?thesis unfolding greatest_measure_def using pos multiple greatest by auto
qed

lemma greatest_measure_unique:
  assumes "greatest_measure G X" and "greatest_measure G' X"
  shows "G = G'"
proof -
  have half: "\<exists>k :: int. g = of_int k * g'" if "greatest_measure g X" "greatest_measure g' X" for g g'
    using that unfolding greatest_measure_def by (metis of_int_of_nat_eq)
  obtain k k' :: int where k: "G = of_int k * G'" "G' = of_int k' * G"
    using half [OF assms] half [OF assms(2,1)] by blast
  have pos: "0 < G" "0 < G'" using assms by (simp_all add: greatest_measure_def)
  have "G = of_int (k * k') * G" using k by (metis mult.assoc of_int_mult)
  then have "of_int (k * k') = (1 :: rat)" using pos by (metis less_irrefl mult_cancel_right1 mult.commute)
  then have "k * k' = 1" by (metis of_int_eq_1_iff)
  moreover have "0 < k" using k(1) pos by (simp add: zero_less_mult_iff)
  ultimately have "k = 1" by (simp add: zmult_eq_1_iff)
  then show ?thesis using k by simp
qed

lemma decimal_gcd_bound:
  assumes "decimal_gcd vs = Inr g" and "list_all short_value vs"
  shows "\<exists>G. dec_val g = Some G \<and> (\<forall>v \<in> set vs. value_of v \<noteq> None)
    \<and> greatest_measure G (the ` value_of ` set vs)"
proof -
  obtain ds where ds: "list_all2 (\<lambda>v d. to_decimal v = Inr d) vs ds" "ds \<noteq> []" "list_all pos_fin ds" and g: "gcd_finite ds = Inr g"
    using assms(1) by (rule decimal_gcd_opened)
  obtain p where gp: "g = plain (scale_normalize (foldl gcd (scaled p (hd ds)) (map (scaled p) (tl ds))) p)"
    and le: "\<forall>d \<in> set ds. - expo d \<le> int p"
    using gcd_finite_opened [OF ds(3,2)] g by auto
  let ?n = "foldl gcd (scaled p (hd ds)) (map (scaled p) (tl ds))"
  have short: "\<forall>d \<in> set ds. coeff d < 10 ^ 28"
    using ds(1) assms(2) by (induction rule: list_all2_induct) (auto simp: short_value_def split: decimal.splits)
  have val: "dec_val g = Some (of_nat ?n / 10 ^ p)"
    unfolding gp plain_val scale_normalize_val short_divisor [OF ds(3,2) le short refl] ..
  have "map value_of vs = map dec_val ds"
    using ds(1) by (induction rule: list_all2_induct) (simp_all add: value_of_def)
  also have "\<dots> = map (\<lambda>d. Some (of_nat (scaled p d) / 10 ^ p)) ds"
    using ds(3) le by (intro map_cong [OF refl]) (simp add: pos_fin_scaled(3) list_all_iff)
  finally have vals: "value_of ` set vs = (\<lambda>d. Some (of_nat (scaled p d) / 10 ^ p)) ` set ds"
    by (metis (no_types) list.set_map)
  have all: "set (scaled p (hd ds) # map (scaled p) (tl ds)) = scaled p ` set ds"
    using ds(2) by (cases ds) simp_all
  have "greatest_measure (of_nat ?n / 10 ^ p) ((\<lambda>x. of_nat x / 10 ^ p) ` set (scaled p (hd ds) # map (scaled p) (tl ds)))"
  proof (rule greatest_measure_foldl)
    show "0 < scaled p (hd ds)" "\<forall>x \<in> set (map (scaled p) (tl ds)). 0 < x"
      using ds(2,3) le pos_fin_scaled(2) by (auto simp: list_all_iff dest: list.set_sel)
  qed
  then have gm: "greatest_measure (of_nat ?n / 10 ^ p) (the ` value_of ` set vs)"
    unfolding vals all image_image by simp
  have "\<forall>v \<in> set vs. value_of v \<noteq> None" using vals by (metis imageE image_eqI option.distinct(1))
  then show ?thesis using val gm by blast
qed

text \<open>the derived grid is exactly the greatest common measure of the observed values: every price is a whole
  positive multiple of it and every other common measure divides it, so it is never finer than the true
  tick; no float is involved and no precision is lost on values of up to 28 digits.\<close>

theorem decimal_gcd_greatest:
  assumes "decimal_gcd vs = Inr g" and "list_all short_value vs"
  shows "\<exists>G. dec_val g = Some G \<and> (\<forall>v \<in> set vs. value_of v \<noteq> None)
    \<and> greatest_measure G (the ` value_of ` set vs)"
  using assms by (rule decimal_gcd_bound)

theorem decimal_gcd_greatest_witness:
  "\<exists>g G. decimal_gcd [VStr ''0.0120'', VStr ''1.8e-2''] = Inr g \<and> dec_val g = Some G \<and> greatest_measure G {3 / 250, 9 / 500}"
proof -
  let ?vs = "[VStr ''0.0120'', VStr ''1.8e-2'']"
  have p: "parse_decimal ''0.0120'' = Some (DFin False 120 (-4))" "parse_decimal ''1.8e-2'' = Some (DFin False 18 (-3))"
    by code_simp+
  obtain k where k: "gcd_finite [DFin False 120 (-4), DFin False 18 (-3)] = Inr k"
    using gcd_finite_opened [of "[DFin False 120 (-4), DFin False 18 (-3)]"] by auto
  have d: "decimal_gcd ?vs = Inr k"
    by (simp add: decimal_gcd_def to_decimal_def p not_positive_def k)
  have "the ` value_of ` set ?vs = {3 / 250, 9 / 500}" 
    by (simp add: value_of_def to_decimal_def p power_int_def eval_nat_numeral)
  then show ?thesis
    using decimal_gcd_greatest [OF d] d by (auto simp: short_value_def to_decimal_def p)
qed

text \<open>
  Beyond 28 digits the result passes through the default context and is rounded, so it need not divide
  the sample: the docstring's "computed exactly" holds of short values only.
\<close>

lemma d28_long: "d28 (10 ^ 28 + 1) = 10 ^ 28"
proof -
  have "ilog 10 (10 ^ 28 + 1) = 28" by (rule ilog_unique) (simp_all add: power_int_def)
  moreover have "\<lfloor>10000000000000000000000000001 / 10 :: rat\<rfloor> = 1000000000000000000000000000"
    by (intro floor_unique) simp_all
  ultimately show ?thesis by (simp add: d28_def dround_def round_grid_def power_int_def round_even_def Let_def)
qed

lemma long_divisor_is_rounded:
  "\<exists>g. decimal_gcd [VInt (10 ^ 28 + 1)] = Inr g \<and> dec_val g = Some (10 ^ 28)"
proof -
  obtain p where p: "gcd_finite [DFin False (10 ^ 28 + 1) 0] = Inr (plain (scale_normalize (scaled p (DFin False (10 ^ 28 + 1) 0)) p))"
    using gcd_finite_opened [of "[DFin False (10 ^ 28 + 1) 0]"] by auto
  have "decimal_gcd [VInt (10 ^ 28 + 1)] = Inr (plain (scale_normalize (scaled p (DFin False (10 ^ 28 + 1) 0)) p))"
    using p by (simp add: decimal_gcd_def to_decimal_def not_positive_def nat_add_distrib nat_power_eq)
  moreover have "(of_nat (scaled p (DFin False (10 ^ 28 + 1) 0)) / 10 ^ p :: rat) = 10 ^ 28 + 1"
    by (simp add: scaled_def)
  ultimately show ?thesis using d28_long by (simp add: scale_normalize_val)
qed

section \<open>Windows and their union\<close>

lemma from_keys_subset: "set (from_keys eq xs) \<subseteq> set xs"
proof -
  have "set (foldl (add_key eq) ks xs) \<subseteq> set ks \<union> set xs" for ks
  proof (induction xs arbitrary: ks)
    case (Cons x xs)
    have "set (add_key eq ks x) \<subseteq> insert x (set ks)" by (auto simp: add_key_def)
    then show ?case using Cons [of "add_key eq ks x"] by auto
  qed simp
  then show ?thesis by (metis Un_empty_left from_keys_def list.set(1))
qed

lemma from_keys_covers:
  assumes "\<And>x. x \<in> set xs \<Longrightarrow> eq x x" and "x \<in> set xs"
  shows "\<exists>y \<in> set (from_keys eq xs). eq x y"
proof -
  have keep: "set ks \<subseteq> set (foldl (add_key eq) ks zs)" for ks zs
  proof (induction zs arbitrary: ks)
    case (Cons z zs)
    have "set ks \<subseteq> set (add_key eq ks z)" by (auto simp: add_key_def)
    then show ?case using Cons [of "add_key eq ks z"] by auto
  qed simp
  have "\<exists>y \<in> set (foldl (add_key eq) ks zs). eq x y" if "x \<in> set zs" "eq x x" for ks zs
    using that
  proof (induction zs arbitrary: ks)
    case (Cons z zs)
    have "\<exists>y \<in> set (add_key eq ks x). eq x y" using Cons.prems(2) by (auto simp: add_key_def list_ex_iff)
    then show ?case using Cons keep [of "add_key eq ks z" zs] by (cases "x = z") auto
  qed simp
  then show ?thesis using assms by (simp add: from_keys_def)
qed

lemma pos_fin_num: "pos_fin d \<Longrightarrow> py_number (VDec d) = Fin (the (dec_val d))"
  by (cases d) auto

lemma same_pos_fin: "pos_fin d \<Longrightarrow> pos_fin d' \<Longrightarrow> same_decimal d d' \<longleftrightarrow> dec_val d = dec_val d'"
  by (cases d; cases d') (auto simp: same_decimal_def)

text \<open>The evidence of an estimate is a set of positive finite values whose divisor it reports.\<close>

definition short_decimal :: "decimal \<Rightarrow> bool" where
  "short_decimal d \<longleftrightarrow> pos_fin d \<and> coeff d < 10 ^ 28"

definition sound_estimate :: "grid_estimate \<Rightarrow> bool" where
  "sound_estimate g \<longleftrightarrow>
     list_all short_decimal (ge_values g) \<and> ge_values g \<noteq> [] \<and> pos_fin (ge_value g)
     \<and> greatest_measure (the (dec_val (ge_value g))) (the ` dec_val ` set (ge_values g))"

lemma decimal_gcd_sound:
  assumes "decimal_gcd (map VDec ds) = Inr g" and "\<forall>d \<in> set ds. pos_fin d \<longrightarrow> coeff d < 10 ^ 28"
  shows "sound_estimate \<lparr>ge_value = g, ge_values = ds, ge_samples = n\<rparr>"
proof -
  obtain ds' where "list_all2 (\<lambda>v d. to_decimal v = Inr d) (map VDec ds) ds'" and ds': "ds' \<noteq> []" "list_all pos_fin ds'"
    and fin: "gcd_finite ds' = Inr g"
    using assms(1) by (rule decimal_gcd_opened)
  then have eq: "ds' = ds"
    by (simp add: list_all2_map1 to_decimal_def list_all2_eq [symmetric] list.rel_eq)
  have short: "list_all short_value (map VDec ds)"
    using ds' assms(2) unfolding eq by (auto simp: list_all_iff short_value_def to_decimal_def split: decimal.splits)
  obtain G where G: "dec_val g = Some G" "greatest_measure G (the ` value_of ` set (map VDec ds))"
    using decimal_gcd_bound [OF assms(1) short] by blast
  have "value_of (VDec d) = dec_val d" for d by (simp add: value_of_def to_decimal_def)
  then have "greatest_measure G (the ` dec_val ` set ds)" using G(2) by (simp add: image_image)
  moreover have "pos_fin g"
  proof -
    obtain p where "g = plain (scale_normalize (foldl gcd (scaled p (hd ds)) (map (scaled p) (tl ds))) p)"
      using gcd_finite_opened [OF ds'(2,1)] fin eq by auto
    then obtain c e where "g = DFin False c e" by (auto simp: scale_normalize_def split: prod.splits if_splits)
    moreover have "0 < G" using G(2) by (simp add: greatest_measure_def)
    ultimately show ?thesis using G(1) by (cases "c = 0") auto
  qed
  ultimately show ?thesis
    using ds' assms(2) G(1) unfolding eq sound_estimate_def by (auto simp: list_all_iff short_decimal_def)
qed

lemma hash_decimal_same: "hash_decimal d = Inr d' \<Longrightarrow> d = d'"
  by (cases d) (auto simp: hash_decimal_def split: bool.split_asm)

lemma estimate_sound:
  assumes "estimate_grid vs = Inr g" and "list_all short_value vs"
  shows "sound_estimate g" and "ge_samples g = length vs"
proof -
  obtain ds where ds: "map_res (\<lambda>v. bnd (to_decimal v) hash_decimal) (from_keys same_key vs) = Inr ds"
    and gcd: "decimal_gcd (map VDec (from_keys same_decimal ds)) = Inr (ge_value g)"
    and g: "g = \<lparr>ge_value = ge_value g, ge_values = from_keys same_decimal ds, ge_samples = length vs\<rparr>"
    using assms(1) by (auto simp: estimate_grid_def res_simps Let_def)
  have "coeff d < 10 ^ 28" if d: "d \<in> set (from_keys same_decimal ds)" "pos_fin d" for d
  proof -
    have "d \<in> set ds" using d(1) from_keys_subset [of same_decimal ds] by blast
    then obtain v where v: "v \<in> set (from_keys same_key vs)" "bnd (to_decimal v) hash_decimal = Inr d"
      using map_res_origin [OF ds] by blast
    then have "to_decimal v = Inr d"
      by (auto simp: res_simps dest: hash_decimal_same)
    moreover have "v \<in> set vs" using v(1) from_keys_subset [of same_key vs] by blast
    then have "short_value v" using assms(2) by (simp add: list_all_iff)
    ultimately show ?thesis by (auto simp: short_value_def split: decimal.splits)
  qed
  then show "sound_estimate g" by (subst g) (intro decimal_gcd_sound [OF gcd] ballI impI)
  show "ge_samples g = length vs" by (subst g) simp
qed

lemma sound_refl: "short_decimal d \<Longrightarrow> same_decimal d d"
  by (simp add: short_decimal_def same_pos_fin)

lemma union_numbers:
  assumes "\<forall>e \<in> set es. sound_estimate (field e)"
  shows "the ` dec_val ` set (union_values field es) = (\<Union>e \<in> set es. the ` dec_val ` set (ge_values (field e)))"
    and "\<forall>d \<in> set (union_values field es). short_decimal d"
proof -
  let ?all = "concat (map (\<lambda>e. ge_values (field e)) es)"
  have short: "\<forall>d \<in> set ?all. short_decimal d" using assms by (auto simp: sound_estimate_def list_all_iff)
  have sub: "set (union_values field es) \<subseteq> set ?all" unfolding union_values_def by (rule from_keys_subset)
  then show "\<forall>d \<in> set (union_values field es). short_decimal d" using short by blast
  have cover: "\<exists>y \<in> set (union_values field es). dec_val x = dec_val y" if x: "x \<in> set ?all" for x
  proof -
    have "\<exists>y \<in> set (union_values field es). same_decimal x y"
      unfolding union_values_def using short x by (intro from_keys_covers sound_refl) auto
    then show ?thesis using sub short x by (meson same_pos_fin short_decimal_def subsetD)
  qed
  show "the ` dec_val ` set (union_values field es) = (\<Union>e \<in> set es. the ` dec_val ` set (ge_values (field e)))"
  proof (intro equalityI subsetI)
    fix r assume "r \<in> (\<Union>e \<in> set es. the ` dec_val ` set (ge_values (field e)))"
    then obtain x where "x \<in> set ?all" "r = the (dec_val x)" by auto
    then show "r \<in> the ` dec_val ` set (union_values field es)" using cover by force
  next
    fix r assume "r \<in> the ` dec_val ` set (union_values field es)"
    then obtain d where "d \<in> set ?all" "r = the (dec_val d)" using sub by blast
    then show "r \<in> (\<Union>e \<in> set es. the ` dec_val ` set (ge_values (field e)))" by auto
  qed
qed

lemma greatest_measure_union:
  assumes "es \<noteq> []" and "\<forall>e \<in> set es. greatest_measure G (X e)"
  shows "greatest_measure G (\<Union>e \<in> set es. X e)"
proof -
  obtain e0 where e0: "e0 \<in> set es" using assms(1) by fastforce
  show ?thesis
    unfolding greatest_measure_def
  proof (intro conjI allI impI ballI)
    show "0 < G" using assms(2) e0 by (auto simp: greatest_measure_def)
  next
    fix x assume "x \<in> (\<Union>e \<in> set es. X e)"
    then show "\<exists>k :: nat. 0 < k \<and> x = of_nat k * G" using assms(2) by (auto simp: greatest_measure_def)
  next
    fix h :: rat assume h: "\<forall>x \<in> \<Union>e \<in> set es. X e. \<exists>k :: int. x = of_int k * h"
    then have "\<forall>x \<in> X e0. \<exists>k :: int. x = of_int k * h" using e0 by blast
    then show "\<exists>k :: int. G = of_int k * h" using assms(2) e0 unfolding greatest_measure_def by blast
  qed
qed

lemma agree_value:
  assumes "\<not> disagrees field es" and "\<forall>e \<in> set es. sound_estimate (field e)" and "e \<in> set es" "e' \<in> set es"
  shows "dec_val (ge_value (field e)) = dec_val (ge_value (field e'))"
proof -
  let ?vs = "map (\<lambda>e. ge_value (field e)) es" and ?ks = "from_keys same_decimal (map (\<lambda>e. ge_value (field e)) es)"
  have pos: "\<forall>v \<in> set ?vs. pos_fin v" using assms(2) by (auto simp: sound_estimate_def)
  have cover: "\<exists>y \<in> set ?ks. dec_val v = dec_val y" if v: "v \<in> set ?vs" for v
  proof -
    have "\<exists>y \<in> set ?ks. same_decimal v y" using pos v by (intro from_keys_covers) (auto simp: same_pos_fin)
    then show ?thesis using pos v from_keys_subset [of same_decimal ?vs] by (meson same_pos_fin subsetD)
  qed
  have "length ?ks \<le> 1" using assms(1) by (simp add: disagrees_def)
  then have "\<exists>k. set ?ks \<subseteq> {k}" by (cases ?ks) auto
  then show ?thesis using cover assms(3,4) by (metis (mono_tags, lifting) imageI list.set_map singletonD subsetD)
qed

lemma pool_agrees:
  assumes "es \<noteq> []" and "\<not> disagrees field es" and "\<forall>e \<in> set es. sound_estimate (field e)"
    and "pool field es n = Inr g" and "e \<in> set es"
  shows "dec_val (ge_value g) = dec_val (ge_value (field e))"
proof -
  note un = union_numbers [OF assms(3)]
  have gcd: "decimal_gcd (map VDec (union_values field es)) = Inr (ge_value g)"
    using assms(4) by (auto simp: pool_def res_simps Let_def)
  have sound: "sound_estimate \<lparr>ge_value = ge_value g, ge_values = union_values field es, ge_samples = n\<rparr>"
    using un(2) by (intro decimal_gcd_sound [OF gcd]) (auto simp: short_decimal_def)
  let ?G = "the (dec_val (ge_value (field e)))"
  have "greatest_measure ?G (the ` dec_val ` set (ge_values (field e')))" if "e' \<in> set es" for e'
    using assms(3) that agree_value [OF assms(2,3,5) that] by (auto simp: sound_estimate_def)
  then have "greatest_measure ?G (the ` dec_val ` set (union_values field es))"
    unfolding un(1) using assms(1) by (intro greatest_measure_union) auto
  then have "the (dec_val (ge_value g)) = ?G"
    using sound greatest_measure_unique by (fastforce simp: sound_estimate_def)
  moreover have "pos_fin (ge_value g)" "pos_fin (ge_value (field e))"
    using sound assms(3,5) by (auto simp: sound_estimate_def)
  ultimately show ?thesis by (cases "ge_value g"; cases "ge_value (field e)") auto
qed

lemma combine_opened:
  assumes "combine today es derived = Inr m"
  obtains tick step n where "es \<noteq> []" "length (remdups (map we_symbol es)) \<le> 1" "\<not> disagrees we_tick es" "\<not> disagrees we_step es"
    "pool we_tick es n = Inr tick" "pool we_step es n = Inr step" "tick_size m = ge_value tick" "step_size m = ge_value step"
    "sm_confident m = JBool (2 \<le> length es \<and> ge_confident tick \<and> ge_confident step)"
proof -
  let ?n = "sum_list (map (\<lambda>e. ge_samples (we_tick e)) es)"
  obtain tick step where c: "es \<noteq> []" "length (remdups (map we_symbol es)) \<le> 1" "\<not> disagrees we_tick es" "\<not> disagrees we_step es"
    and p: "pool we_tick es ?n = Inr tick" "pool we_step es ?n = Inr step"
    using assms unfolding combine_def Let_def by (auto simp: res_simps)
  have "tick_size m = ge_value tick" "step_size m = ge_value step"
    "sm_confident m = JBool (2 \<le> length es \<and> ge_confident tick \<and> ge_confident step)"
    using assms p unfolding combine_def Let_def by (auto simp: res_simps)
  then show thesis using c p by (intro that)
qed

lemma pool_values: "pool field es n = Inr g \<Longrightarrow> ge_values g = union_values field es"
  by (auto simp: pool_def res_simps Let_def)

lemma one_symbol: "length (remdups xs) \<le> 1 \<Longrightarrow> x \<in> set xs \<Longrightarrow> x = hd xs"
proof -
  assume "length (remdups xs) \<le> 1" and x: "x \<in> set xs"
  then have "card (set xs) \<le> 1" by (simp add: length_remdups_card_conv)
  then show "x = hd xs" using x by (metis card_le_Suc0_iff_eq One_nat_def List.finite_set emptyE hd_in_set set_empty)
qed

text \<open>windows are combined only when they agree. The committed tick and step of a symbol are those of each
  of its windows, although they are derived again from the pooled observations; all windows are of one
  symbol; and the record is marked confident exactly when at least two windows were given and the pooled
  distinct prices and quantities, counted once however many windows saw them, number at least twenty each.\<close>

theorem combine_agrees:
  assumes "combine today es derived = Inr m"
    and "\<forall>e \<in> set es. \<exists>ps qs. estimate_grid ps = Inr (we_tick e) \<and> estimate_grid qs = Inr (we_step e)
      \<and> list_all short_value ps \<and> list_all short_value qs"
  shows "(\<forall>e \<in> set es. we_symbol e = we_symbol (hd es)
        \<and> dec_val (tick_size m) = dec_val (ge_value (we_tick e)) \<and> dec_val (step_size m) = dec_val (ge_value (we_step e)))
    \<and> sm_confident m = JBool (2 \<le> length es \<and> 20 \<le> length (union_values we_tick es)
        \<and> 20 \<le> length (union_values we_step es))"
proof -
  obtain tick step n where c: "es \<noteq> []" "length (remdups (map we_symbol es)) \<le> 1" "\<not> disagrees we_tick es" "\<not> disagrees we_step es"
    and p: "pool we_tick es n = Inr tick" "pool we_step es n = Inr step" "tick_size m = ge_value tick" "step_size m = ge_value step"
    and f: "sm_confident m = JBool (2 \<le> length es \<and> ge_confident tick \<and> ge_confident step)"
    using assms(1) by (rule combine_opened)
  have sound: "\<forall>e \<in> set es. sound_estimate (we_tick e)" "\<forall>e \<in> set es. sound_estimate (we_step e)"
    using assms(2) estimate_sound(1) by blast+
  have sym: "we_symbol e = we_symbol (hd es)" if "e \<in> set es" for e
    using one_symbol [OF c(2), of "we_symbol e"] that c(1) by (simp add: hd_map)
  have "ge_confident tick \<longleftrightarrow> 20 \<le> length (union_values we_tick es)" "ge_confident step \<longleftrightarrow> 20 \<le> length (union_values we_step es)"
    using pool_values [OF p(1)] pool_values [OF p(2)]
    by (simp_all add: ge_confident_def ge_distinct_def min_distinct_values_def)
  then show ?thesis
    using f p(3,4) sym pool_agrees [OF c(1,3) sound(1) p(1)] pool_agrees [OF c(1,4) sound(2) p(2)] by simp
qed

text \<open>Evaluating a derivation on short values.\<close>

lemma scale_normalize_short:
  assumes "n < 10 ^ 28"
  shows "scale_normalize n p = (case strip_zeros n (- int p) of (c, e) \<Rightarrow> DFin False c e)"
proof -
  have "d28 (of_nat n / 10 ^ p) = of_nat n / 10 ^ p"
    unfolding d28_def
  proof (rule ctx28.dround_exact)
    show "of_nat n / 10 ^ p = (of_int (int n) :: rat) * 10 powi (- int p)" by (simp add: power_int_minus_divide)
    show "\<bar>int n\<bar> < 10 ^ 28" using assms by (metis abs_of_nat of_nat_less_iff of_nat_numeral of_nat_power)
  qed
  then have "\<lfloor>d28 (of_nat n / 10 ^ p) * 10 ^ p\<rfloor> = int n" by simp
  then show ?thesis by (simp add: scale_normalize_def)
qed

definition example_window :: "string \<Rightarrow> window_estimate" where
  "example_window date =
     \<lparr>we_symbol = ''BTCUSDT'', we_date = date,
      we_tick = \<lparr>ge_value = DFin False 25 (-2), ge_values = [DFin False 50 (-2), DFin False 75 (-2)], ge_samples = 2\<rparr>,
      we_step = \<lparr>ge_value = DFin False 2 0, ge_values = [DFin False 4 0, DFin False 6 0], ge_samples = 2\<rparr>\<rparr>"

lemma example_gcds:
  "decimal_gcd [VDec (DFin False 50 (-2)), VDec (DFin False 75 (-2))] = Inr (DFin False 25 (-2))"
  "decimal_gcd [VDec (DFin False 4 0), VDec (DFin False 6 0)] = Inr (DFin False 2 0)"
proof -
  have z: "strip_zeros 25 (-2) = (25, -2)" "strip_zeros 2 0 = (2, 0)" by (simp_all add: strip_zeros.simps)
  have r: "decimal_of_text (format_f (DFin False 25 (-2))) = Inr (DFin False 25 (-2))"
    "decimal_of_text (format_f (DFin False 2 0)) = Inr (DFin False 2 0)"
    unfolding decimal_of_text_def format_parse by simp_all
  show "decimal_gcd [VDec (DFin False 50 (-2)), VDec (DFin False 75 (-2))] = Inr (DFin False 25 (-2))"
    "decimal_gcd [VDec (DFin False 4 0), VDec (DFin False 6 0)] = Inr (DFin False 2 0)"
    by (simp_all add: decimal_gcd_def to_decimal_def not_positive_def gcd_finite_def decimal_places_def
        as_scaled_int_def scale_normalize_short z r gcd_nat.simps del: format_f.simps)
qed

lemma example_grids:
  "estimate_grid [VStr ''0.50'', VStr ''0.75''] = Inr (we_tick (example_window d))"
  "estimate_grid [VStr ''4'', VStr ''6''] = Inr (we_step (example_window d))"
proof -
  have p: "parse_decimal ''0.50'' = Some (DFin False 50 (-2))" "parse_decimal ''0.75'' = Some (DFin False 75 (-2))"
    "parse_decimal ''4'' = Some (DFin False 4 0)" "parse_decimal ''6'' = Some (DFin False 6 0)"
    by code_simp+
  show "estimate_grid [VStr ''0.50'', VStr ''0.75''] = Inr (we_tick (example_window d))"
    "estimate_grid [VStr ''4'', VStr ''6''] = Inr (we_step (example_window d))"
    by (simp_all add: estimate_grid_def from_keys_def add_key_def same_key_def to_decimal_def p hash_decimal_def
        same_decimal_def power_int_def example_gcds example_window_def)
qed

lemma example_combines: "is_ok (combine 739800 [example_window ''2026-06-01'', example_window ''2026-07-01''] None)"
proof -
  let ?es = "[example_window ''2026-06-01'', example_window ''2026-07-01'']"
  have u: "union_values we_tick ?es = [DFin False 50 (-2), DFin False 75 (-2)]"
    "union_values we_step ?es = [DFin False 4 0, DFin False 6 0]"
    by (simp_all add: union_values_def from_keys_def add_key_def same_decimal_def example_window_def power_int_def)
  have d: "\<not> disagrees we_tick ?es" "\<not> disagrees we_step ?es"
    by (simp_all add: disagrees_def from_keys_def add_key_def same_decimal_def example_window_def power_int_def)
  have p: "\<exists>g. pool we_tick ?es n = Inr g" "\<exists>g. pool we_step ?es n = Inr g" for n
    by (simp_all add: pool_def u example_gcds)
  have s: "length (remdups (map we_symbol ?es)) \<le> 1" by (simp add: example_window_def)
  obtain tick step where "pool we_tick ?es (sum_list (map (\<lambda>e. ge_samples (we_tick e)) ?es)) = Inr tick"
    "pool we_step ?es (sum_list (map (\<lambda>e. ge_samples (we_tick e)) ?es)) = Inr step"
    using p by blast
  then show ?thesis using d s unfolding combine_def Let_def by (simp add: is_ok_def del: map_eq_Cons_conv list.map)
qed

theorem combine_agrees_witness:
  "\<exists>m. combine 739800 [example_window ''2026-06-01'', example_window ''2026-07-01''] None = Inr m
     \<and> dec_val (tick_size m) = Some (1 / 4) \<and> dec_val (step_size m) = Some 2 \<and> sm_confident m = JBool False"
proof -
  let ?es = "[example_window ''2026-06-01'', example_window ''2026-07-01'']"
  obtain m where m: "combine 739800 ?es None = Inr m" using example_combines by (auto simp: is_ok_iff)
  have p: "parse_decimal ''0.50'' = Some (DFin False 50 (-2))" "parse_decimal ''0.75'' = Some (DFin False 75 (-2))"
    "parse_decimal ''4'' = Some (DFin False 4 0)" "parse_decimal ''6'' = Some (DFin False 6 0)"
    by code_simp+
  have short: "list_all short_value [VStr ''0.50'', VStr ''0.75'']" "list_all short_value [VStr ''4'', VStr ''6'']"
    by (simp_all add: short_value_def to_decimal_def p)
  have grids: "\<forall>e \<in> set ?es. \<exists>ps qs. estimate_grid ps = Inr (we_tick e) \<and> estimate_grid qs = Inr (we_step e)
      \<and> list_all short_value ps \<and> list_all short_value qs"
    using example_grids short by (metis (no_types, lifting) empty_iff empty_set set_ConsD)
  show ?thesis
    using combine_agrees [OF m grids] m
    by (auto simp: example_window_def power_int_def union_values_def from_keys_def add_key_def same_decimal_def
        power2_eq_square)
qed

section \<open>The lookup table as text\<close>

definition plain_meta :: "symbol_meta \<Rightarrow> symbol_meta" where
  "plain_meta m = m\<lparr>tick_size := plain (tick_size m), step_size := plain (step_size m)\<rparr>"

definition finite_sizes :: "symbol_meta \<Rightarrow> bool" where
  "finite_sizes m \<longleftrightarrow> dec_val (tick_size m) \<noteq> None \<and> dec_val (step_size m) \<noteq> None"

lemma read_size: "dec_val d \<noteq> None \<Longrightarrow> decimal_of_text (format_f d) = Inr (plain d)"
  by (cases d) (simp_all add: decimal_of_text_def format_parse del: format_f.simps plain.simps(1))

lemma from_to_json: "finite_sizes m \<Longrightarrow> from_json (to_json m) = Inr (plain_meta m)"
  by (simp add: finite_sizes_def from_json_def to_json_def size_text_def jget_def read_size plain_meta_def)

lemma load_entries:
  assumes "\<forall>k \<in> set ks. finite_sizes (f k)"
  shows "map_res load_entry (map (\<lambda>k. (k, JDict (to_json (f k)))) ks) = Inr (map (\<lambda>k. (k, plain_meta (f k))) ks)"
  using assms by (induction ks) (simp_all add: load_entry_def from_to_json)

text \<open>C21: the committed lookup table survives being written and read back: the same symbols come back, sorted,
  and each record is the one that was written, its sizes equal as numbers and identical whenever they are
  in plain notation, because the sizes travel as decimal text and never as JSON numbers.\<close>

theorem table_roundtrip:
  assumes "list_all (\<lambda>(_, m). finite_sizes m) table"
    and "loads (save_table dumps table) = Inr (table_json table)" \<comment> \<open>the parser reads what the printer wrote\<close>
  shows "\<exists>t. load_table loads (Some (save_table dumps table)) = Inr t \<and> map fst t = sort (map fst table)
    \<and> (\<forall>k m. map_of table k = Some m \<longrightarrow> (\<exists>m'. map_of t k = Some m'
          \<and> m'\<lparr>tick_size := tick_size m, step_size := step_size m\<rparr> = m
          \<and> dec_val (tick_size m') = dec_val (tick_size m) \<and> dec_val (step_size m') = dec_val (step_size m)
          \<and> (plain (tick_size m) = tick_size m \<and> plain (step_size m) = step_size m \<longrightarrow> m' = m)))"
proof -
  let ?f = "\<lambda>k. the (map_of table k)" and ?ks = "sort (map fst table)"
  let ?t = "map (\<lambda>k. (k, plain_meta (?f k))) ?ks"
  have "finite_sizes (?f k)" if "k \<in> set ?ks" for k
  proof -
    have "map_of table k \<noteq> None" using that by (simp add: map_of_eq_None_iff)
    then obtain m where m: "map_of table k = Some m" by blast
    then have "(k, m) \<in> set table" by (rule map_of_SomeD)
    then show ?thesis using assms(1) m by (auto simp: list_all_iff)
  qed
  then have "load_table loads (Some (save_table dumps table)) = Inr ?t"
    using load_entries [of ?ks ?f] by (simp add: load_table_def assms(2) table_json_def)
  moreover have "map fst ?t = ?ks" by (simp add: comp_def)
  moreover have "map_of ?t k = Some (plain_meta m)" if m: "map_of table k = Some m" for k m
  proof -
    have "map_of table k \<noteq> None" using m by simp
    then have "k \<in> set ?ks" by (simp add: map_of_eq_None_iff)
    then show ?thesis by (simp add: map_of_map_restrict m)
  qed
  ultimately show ?thesis by (intro exI [of _ ?t]) (simp add: plain_meta_def)
qed

definition example_meta :: symbol_meta where
  "example_meta =
     \<lparr>sm_symbol = JStr ''0GUSDT'', tick_size = DFin False 1 (-4), step_size = DFin False 1 2, windows = [JStr ''2026-06-01''],
      sm_trades = JInt 81, distinct_prices = JInt 81, distinct_quantities = JInt 40, derived_on = JStr ''2026-08-12'',
      sm_confident = JBool False, caveats = [JStr ''derived from a single window'']\<rparr>"

theorem table_roundtrip_witness:
  "\<exists>t m. load_table (\<lambda>_. Inr (table_json [(''0GUSDT'', example_meta)])) (Some (save_table (\<lambda>_. []) [(''0GUSDT'', example_meta)])) = Inr t
     \<and> map_of t ''0GUSDT'' = Some m \<and> dec_val (step_size m) = Some 100"
proof -
  let ?table = "[(''0GUSDT'', example_meta)]"
  have fin: "list_all (\<lambda>(_, m). finite_sizes m) ?table"
    by (simp add: finite_sizes_def example_meta_def del: not_None_eq)
  obtain t where t: "load_table (\<lambda>_. Inr (table_json ?table)) (Some (save_table (\<lambda>_. []) ?table)) = Inr t"
    and all: "\<forall>k m. map_of ?table k = Some m \<longrightarrow> (\<exists>m'. map_of t k = Some m'
          \<and> m'\<lparr>tick_size := tick_size m, step_size := step_size m\<rparr> = m
          \<and> dec_val (tick_size m') = dec_val (tick_size m) \<and> dec_val (step_size m') = dec_val (step_size m)
          \<and> (plain (tick_size m) = tick_size m \<and> plain (step_size m) = step_size m \<longrightarrow> m' = m))"
    using table_roundtrip [OF fin refl] by blast
  have "map_of ?table ''0GUSDT'' = Some example_meta" by simp
  then obtain m' where "map_of t ''0GUSDT'' = Some m'" "dec_val (step_size m') = dec_val (step_size example_meta)"
    using all by blast
  moreover have "dec_val (step_size example_meta) = Some 100" by (simp add: example_meta_def)
  ultimately show ?thesis using t by (intro exI [of _ t] exI [of _ m'] conjI) simp_all
qed

end
