(* ===== verification/Storage.thy ===== *)
theory Storage
  imports Frame
begin

text \<open>
  The partitioned datasets under the data root (\<open>storage.py\<close>): a store maps the path segments of a
  partition to its rows. Writing with partition columns replaces exactly the partitions that occur in
  the frame (\<open>delete_matching\<close>) and leaves every other one alone. The file format is not modelled.
\<close>

type_synonym path = "string list"
type_synonym store = "path \<Rightarrow> frame option"

definition hive_value :: "string option \<Rightarrow> string" where \<comment> \<open>a missing key has a directory of its own\<close>
  "hive_value c = (case c of Some s \<Rightarrow> s | None \<Rightarrow> ''__HIVE_DEFAULT_PARTITION__'')"

definition hive_segment :: "string \<Rightarrow> string \<Rightarrow> string" where
  "hive_segment k v = k @ ''='' @ v"

definition row_path :: "(string \<times> string option list) list \<Rightarrow> nat \<Rightarrow> path" where
  "row_path keys i = map (\<lambda>(k, xs). hive_segment k (hive_value (xs ! i))) keys"

definition drop_cols :: "string list \<Rightarrow> frame \<Rightarrow> frame" where
  "drop_cols ks f = f\<lparr>columns := filter (\<lambda>(k, _). k \<notin> set ks) (columns f)\<rparr>"

definition partition_rows :: "string list \<Rightarrow> (string \<times> string option list) list \<Rightarrow> frame \<Rightarrow> path \<Rightarrow> frame" where
  "partition_rows cols keys f q = drop_cols cols (keep_rows (\<lambda>i. row_path keys i = q) f)"

definition write_parquet :: "frame \<Rightarrow> path \<Rightarrow> string list option \<Rightarrow> store \<Rightarrow> store res" where
  "write_parquet f dest partition_cols st =
     (case partition_cols of
        None \<Rightarrow> Inr (st(dest \<mapsto> f))
      | Some cols \<Rightarrow>
          bnd (guard (\<not> set cols \<subseteq> set (col_names f)) (KeyError ''partition columns missing from frame'')) (\<lambda>_.
          bnd (map_res (\<lambda>k. bnd (get_texts f k) (\<lambda>xs. Inr (k, xs))) cols) (\<lambda>keys.
          let written = map (row_path keys) [0..<nrows f] in
          Inr (\<lambda>p. if take (length dest) p = dest \<and> drop (length dest) p \<in> set written
                   then Some (partition_rows cols keys f (drop (length dest) p)) else st p))))"

definition read_parquet :: "path \<Rightarrow> store \<Rightarrow> frame res" where
  "read_parquet p st = (case st p of Some f \<Rightarrow> Inr f | None \<Rightarrow> Inl (FileNotFoundError ''path''))"

lemma hive_segment_inj [simp]: "hive_segment k v = hive_segment k w \<longleftrightarrow> v = w"
  by (simp add: hive_segment_def)

lemma drop_cols_ok: "frame_ok f \<Longrightarrow> frame_ok (drop_cols ks f)"
  by (auto simp: frame_ok_def drop_cols_def list_all_iff distinct_map inj_on_def)

lemma partition_rows_ok: "frame_ok f \<Longrightarrow> frame_ok (partition_rows cols keys f q)"
  by (simp add: partition_rows_def drop_cols_ok keep_rows_ok)

text \<open>Every stored partition stays well formed.\<close>

definition store_ok :: "store \<Rightarrow> bool" where
  "store_ok st \<longleftrightarrow> (\<forall>p f. st p = Some f \<longrightarrow> frame_ok f)"

lemma write_parquet_ok:
  "write_parquet f dest pcols st = Inr st' \<Longrightarrow> frame_ok f \<Longrightarrow> store_ok st \<Longrightarrow> store_ok st'"
  by (auto simp: write_parquet_def store_ok_def res_simps Let_def partition_rows_ok split: option.splits if_splits)

text \<open>The two partition columns of most datasets: which partitions a write touches.\<close>

definition partition_path :: "string \<Rightarrow> string \<Rightarrow> string \<Rightarrow> path" where
  "partition_path dataset symbol date = [dataset, hive_segment ''symbol'' symbol, hive_segment ''date'' date]"

definition day_rows :: "frame \<Rightarrow> string option list \<Rightarrow> string option list \<Rightarrow> string \<Rightarrow> string \<Rightarrow> frame" where
  "day_rows f ss ds symbol date =
     drop_cols [''symbol'', ''date''] (keep_rows (\<lambda>i. hive_value (ss ! i) = symbol \<and> hive_value (ds ! i) = date) f)"

lemma write_symbol_date:
  assumes "write_parquet f [dataset] (Some [''symbol'', ''date'']) st = Inr st'"
  obtains ss ds where "get_texts f ''symbol'' = Inr ss" "get_texts f ''date'' = Inr ds"
    "\<And>symbol date. st' (partition_path dataset symbol date) =
       (if \<exists>i < nrows f. hive_value (ss ! i) = symbol \<and> hive_value (ds ! i) = date
        then Some (day_rows f ss ds symbol date) else st (partition_path dataset symbol date))"
    "\<And>p. hd p \<noteq> dataset \<Longrightarrow> st' p = st p"
proof -
  obtain ss ds where t: "get_texts f ''symbol'' = Inr ss" "get_texts f ''date'' = Inr ds"
    using assms by (auto simp: write_parquet_def bnd_eq_Inr)
  let ?keys = "[(''symbol'', ss), (''date'', ds)]"
  have st': "st' = (\<lambda>p. if take 1 p = [dataset] \<and> drop 1 p \<in> set (map (row_path ?keys) [0..<nrows f])
      then Some (partition_rows [''symbol'', ''date''] ?keys f (drop 1 p)) else st p)"
    using assms by (auto simp: write_parquet_def t bnd_eq_Inr Let_def)
  have "st' (partition_path dataset symbol date) =
       (if \<exists>i < nrows f. hive_value (ss ! i) = symbol \<and> hive_value (ds ! i) = date
        then Some (day_rows f ss ds symbol date) else st (partition_path dataset symbol date))" for symbol date
  proof -
    let ?q = "[hive_segment ''symbol'' symbol, hive_segment ''date'' date]"
    have row: "row_path ?keys i = ?q \<longleftrightarrow> hive_value (ss ! i) = symbol \<and> hive_value (ds ! i) = date" for i
      by (simp add: row_path_def)
    have "q \<in> set (map g [0..<n]) \<longleftrightarrow> (\<exists>i < n. g i = q)" for q and g :: "nat \<Rightarrow> path" and n
      by (auto simp: image_iff)
    then have member: "?q \<in> set (map (row_path ?keys) [0..<nrows f])
        \<longleftrightarrow> (\<exists>i < nrows f. hive_value (ss ! i) = symbol \<and> hive_value (ds ! i) = date)"
      unfolding row [symmetric] .
    have rows: "partition_rows [''symbol'', ''date''] ?keys f ?q = day_rows f ss ds symbol date"
      by (simp only: partition_rows_def day_rows_def row)
    have "st' (dataset # ?q) = (if ?q \<in> set (map (row_path ?keys) [0..<nrows f])
        then Some (partition_rows [''symbol'', ''date''] ?keys f ?q) else st (dataset # ?q))"
      unfolding st' by (simp del: set_map)
    then show ?thesis unfolding member rows partition_path_def .
  qed
  moreover have "st' p = st p" if "hd p \<noteq> dataset" for p
    using that unfolding st' by (cases p) auto
  ultimately show thesis using t by (rule that [rotated 2])
qed

end
