(* ===== verification/Trades.thy ===== *)
theory Trades
  imports Storage Archives
begin

text \<open>
  The historical trades fetcher (\<open>ingestion/fetch_trades.py\<close>): normalising an archive frame, gaps and
  duplicates of trade ids, the quantity sums of the volume reconciliation, and the month-wise backfill
  into the store. The archive, the CSV reader and pandas' conversions are the \<open>source\<close>; a sort is
  stable in the model (pandas does not say how rows with equal ids are ordered).
\<close>

section \<open>Normalising\<close>

definition trades_dataset :: string where "trades_dataset = ''trades''"

definition trades_dir :: string where "trades_dir = trades_dataset"

definition max_id_skip :: int where "max_id_skip = 8"

definition trade_columns :: "string list" where
  "trade_columns = [''timestamp'', ''trade_id'', ''symbol'', ''price'', ''quantity'', ''side'', ''date'']"

definition partition_cols :: "string list" where
  "partition_cols = [''symbol'', ''date'']"

text \<open>Text as a boolean: only \<open>true\<close> and \<open>false\<close>, in any case and with surrounding whitespace.\<close>

definition truth_text :: "string option \<Rightarrow> bool option" where
  "truth_text c =
     (case c of None \<Rightarrow> None
      | Some s \<Rightarrow> (let t = map lower (strip s) in
                   if t = ''true'' then Some True else if t = ''false'' then Some False else None))"

definition truths :: "exn \<Rightarrow> column \<Rightarrow> bool list res" where
  "truths e c =
     (case c of
        BCol bs \<Rightarrow> Inr bs
      | SCol xs \<Rightarrow> map_res (\<lambda>x. case truth_text x of Some b \<Rightarrow> Inr b | None \<Rightarrow> Inl e) xs
      | _ \<Rightarrow> if col_len c = 0 then Inr [] else Inl e)" \<comment> \<open>no number prints as a truth value\<close>

definition to_bool :: "column \<Rightarrow> bool list res" where
  "to_bool c = truths (TradeDataError ''unparseable is_buyer_maker values'') c"

definition date_of_ms :: "int \<Rightarrow> string" where \<comment> \<open>\<open>to_datetime(..., unit="ms", utc=True)\<close> as \<open>%Y-%m-%d\<close>\<close>
  "date_of_ms t = iso_text (day_of_ms t)"

definition trade_frame :: "string \<Rightarrow> int list \<Rightarrow> int list \<Rightarrow> pynum list \<Rightarrow> pynum list \<Rightarrow> bool list \<Rightarrow> nat \<Rightarrow> frame" where
  "trade_frame symbol stamps ids prices quantities makers n =
     \<lparr>nrows = n,
      columns = [(''timestamp'', ICol stamps), (''trade_id'', ICol ids), (''symbol'', SCol (replicate n (Some symbol))),
        (''price'', FCol prices), (''quantity'', FCol quantities),
        (''side'', SCol (map (\<lambda>maker. Some (if maker then ''sell'' else ''buy'')) makers)),
        (''date'', SCol (map (\<lambda>t. Some (date_of_ms t)) stamps))]\<rparr>"

definition normalise_trades :: "source \<Rightarrow> frame \<Rightarrow> string \<Rightarrow> frame res" where
  "normalise_trades src raw symbol =
     bnd (guard (\<not> {''id'', ''price'', ''qty'', ''time'', ''is_buyer_maker''} \<subseteq> set (col_names raw))
            (TradeDataError ''archive schema changed: missing columns'')) (\<lambda>_.
     bnd (bnd (get_col raw ''time'') (as_int64 src)) (\<lambda>stamps.
     bnd (bnd (get_col raw ''id'') (as_int64 src)) (\<lambda>ids.
     bnd (bnd (get_col raw ''price'') (as_float64 src)) (\<lambda>prices.
     bnd (bnd (get_col raw ''qty'') (as_float64 src)) (\<lambda>quantities.
     bnd (bnd (get_col raw ''is_buyer_maker'') to_bool) (\<lambda>makers.
     sort_rows ''trade_id'' (trade_frame symbol stamps ids prices quantities makers (nrows raw))))))))"

section \<open>Trade ids\<close>

definition breaks :: "int list \<Rightarrow> (int \<times> int) list" where
  "breaks ids = filter (\<lambda>(a, b). 1 < b - a) (zip ids (tl ids))"

definition trade_id_gaps :: "frame \<Rightarrow> (int \<times> int) list res" where
  "trade_id_gaps f = bnd (get_ints f ''trade_id'') (\<lambda>ids. Inr (breaks ids))"

definition benign :: "int \<times> int \<Rightarrow> bool" where
  "benign g \<longleftrightarrow> snd g - fst g - 1 \<le> max_id_skip"

definition classify_gaps :: "(int \<times> int) list \<Rightarrow> (int \<times> int) list \<times> (int \<times> int) list" where
  "classify_gaps gaps = (filter benign gaps, filter (\<lambda>g. \<not> benign g) gaps)"

definition repeated :: "int list \<Rightarrow> int list" where
  "repeated ids = sort (remdups (map ((!) ids) (filter (\<lambda>i. ids ! i \<in> set (take i ids)) [0..<length ids])))"

definition duplicate_trade_ids :: "frame \<Rightarrow> int list res" where
  "duplicate_trade_ids f = bnd (get_ints f ''trade_id'') (\<lambda>ids. Inr (repeated ids))"

section \<open>Volume\<close>

text \<open>Decimal addition in the default context; the special values follow the decimal rules.\<close>

definition dec_add28 :: "pynum \<Rightarrow> pynum \<Rightarrow> pynum res" where
  "dec_add28 x y =
     (case (x, y) of
        (NaN, _) \<Rightarrow> Inr NaN | (_, NaN) \<Rightarrow> Inr NaN
      | (PInf, NInf) \<Rightarrow> Inl (InvalidOperation ''-INF + INF'') | (NInf, PInf) \<Rightarrow> Inl (InvalidOperation ''-INF + INF'')
      | (PInf, _) \<Rightarrow> Inr PInf | (_, PInf) \<Rightarrow> Inr PInf | (NInf, _) \<Rightarrow> Inr NInf | (_, NInf) \<Rightarrow> Inr NInf
      | (Fin a, Fin b) \<Rightarrow> Inr (Fin (d28 (a + b))))"

definition str_decimal :: "pynum \<Rightarrow> pynum" where \<comment> \<open>\<open>Decimal(str(q))\<close> of a float\<close>
  "str_decimal x = (case x of Fin r \<Rightarrow> Fin (repr_dec r) | _ \<Rightarrow> x)"

definition total_quantity :: "frame \<Rightarrow> pynum res" where
  "total_quantity f =
     bnd (get_nums f ''quantity'') (\<lambda>qs. fold_res dec_add28 (Fin 0) (map str_decimal qs))"

text \<open>A cell of a text column as a decimal; a missing cell is a float NaN, a header cell is skipped.\<close>

definition volume_cell :: "string option \<Rightarrow> pynum res" where
  "volume_cell c =
     (case c of None \<Rightarrow> Inr NaN
      | Some s \<Rightarrow>
          (case parse_decimal s of
             Some (DNaN _ True _) \<Rightarrow> Inl (InvalidOperation ''sNaN'')
           | Some (DInf sg) \<Rightarrow> Inr (if sg then NInf else PInf)
           | Some d \<Rightarrow> Inr (case dec_val d of Some r \<Rightarrow> Fin r | None \<Rightarrow> NaN)
           | None \<Rightarrow> Inl (InvalidOperation ''ConversionSyntax'')))"

definition klines_volume :: "source \<Rightarrow> string \<Rightarrow> period \<Rightarrow> pynum res" where
  "klines_volume src symbol date =
     (let url = klines_daily_url symbol date ''1m'' in
      bnd (checksum_at src url) (\<lambda>digest.
      bnd (fetch_to src url digest) (\<lambda>path.
      bnd (read_named src path kline_columns) (\<lambda>f.
      bnd (get_texts f ''volume'') (\<lambda>vs.
      bnd (map_res volume_cell (filter (\<lambda>v. v \<noteq> Some ''volume'') vs)) (\<lambda>ds.
      fold_res dec_add28 (Fin 0) ds))))))"

section \<open>Backfill\<close>

definition fetch_day :: "source \<Rightarrow> string \<Rightarrow> period \<Rightarrow> bool \<Rightarrow> frame res" where
  "fetch_day src symbol date verify_checksum =
     bnd (fetch_frame src verify_checksum (daily_url trades_dataset symbol date)) (\<lambda>raw. normalise_trades src raw symbol)"

definition fetch_month :: "source \<Rightarrow> string \<Rightarrow> period \<Rightarrow> bool \<Rightarrow> frame res" where
  "fetch_month src symbol month verify_checksum =
     bnd (fetch_frame src verify_checksum (monthly_url trades_dataset symbol month)) (\<lambda>raw. normalise_trades src raw symbol)"

definition store_trades :: "frame \<Rightarrow> store \<Rightarrow> store res" where
  "store_trades f st = write_parquet f [trades_dir] (Some partition_cols) st"

definition outside_month :: "string \<Rightarrow> string option \<Rightarrow> bool" where
  "outside_month pre date = (case date of Some s \<Rightarrow> take (length pre) s \<noteq> pre | None \<Rightarrow> True)"

text \<open>The checks of one month, in order, and the last id it hands to the next month.\<close>

definition accept_month :: "frame \<Rightarrow> int \<Rightarrow> int option \<Rightarrow> int option res" where
  "accept_month f month previous =
     bnd (trade_id_gaps f) (\<lambda>gaps.
     bnd (guard (snd (classify_gaps gaps) \<noteq> []) (TradeDataError ''trade_id gap(s): suspected data loss'')) (\<lambda>_.
     bnd (duplicate_trade_ids f) (\<lambda>dups.
     bnd (guard (dups \<noteq> []) (TradeDataError ''duplicate trade_id(s)'')) (\<lambda>_.
     bnd (get_texts f ''date'') (\<lambda>dates.
     bnd (guard (list_ex (outside_month (take 7 (iso_text month))) dates) (TradeDataError ''date(s) outside the month'')) (\<lambda>_.
     if frame_empty f then Inr previous
     else bnd (get_ints f ''trade_id'') (\<lambda>ids.
       bnd (guard (case previous of Some l \<Rightarrow> max_id_skip < hd ids - l - 1 | None \<Rightarrow> False)
              (TradeDataError ''trade_id gap across the boundary'')) (\<lambda>_.
       Inr (Some (last ids))))))))))"

fun is_download_error :: "exn \<Rightarrow> bool" where
  "is_download_error (DownloadError _) = True"
| "is_download_error (ChecksumMismatch _) = True"
| "is_download_error _ = False"

text \<open>What was stored stays stored when a later month raises.\<close>

fun backfill_months :: "source \<Rightarrow> string \<Rightarrow> bool \<Rightarrow> int list \<Rightarrow> int list \<Rightarrow> int option \<Rightarrow> store \<Rightarrow> store \<times> int list res" where
  "backfill_months src symbol allow_missing [] skipped previous st = (st, Inr skipped)"
| "backfill_months src symbol allow_missing (m # ms) skipped previous st =
     (case fetch_month src symbol (OnDate m) True of
        Inl e \<Rightarrow>
          if is_download_error e \<and> allow_missing
          then backfill_months src symbol allow_missing ms (skipped @ [m]) None st
          else (st, Inl e)
      | Inr f \<Rightarrow>
          (case bnd (accept_month f m previous) (\<lambda>previous'. bnd (store_trades f st) (\<lambda>st'. Inr (previous', st'))) of
             Inl e \<Rightarrow> (st, Inl e)
           | Inr (previous', st') \<Rightarrow> backfill_months src symbol allow_missing ms skipped previous' st'))"

definition backfill_trades :: "source \<Rightarrow> string \<Rightarrow> int \<Rightarrow> int \<Rightarrow> bool \<Rightarrow> store \<Rightarrow> store \<times> int list res" where
  "backfill_trades src symbol start stop allow_missing st =
     backfill_months src symbol allow_missing (months_between start stop) [] None st"

section \<open>Every accepted month stays stored\<close>

lemma map_truths_length: "truths e c = Inr bs \<Longrightarrow> length bs = col_len c"
  by (cases c) (auto simp: truths_def dest: map_res_length split: if_splits)

lemma trade_frame_ok:
  assumes "length stamps = n" "length ids = n" "length prices = n" "length quantities = n" "length makers = n"
  shows "frame_ok (trade_frame symbol stamps ids prices quantities makers n)"
  using assms by (simp add: frame_ok_def trade_frame_def)

lemma normalise_trades_shape:
  assumes "source_ok src" and "frame_ok raw" and "normalise_trades src raw symbol = Inr f"
  shows "frame_ok f" and "\<exists>ss ds. get_texts f ''symbol'' = Inr ss \<and> get_texts f ''date'' = Inr ds
    \<and> length ss = nrows f \<and> length ds = nrows f \<and> set ss \<subseteq> {Some symbol} \<and> None \<notin> set ds"
proof -
  obtain stamps ids prices quantities makers where
    c: "bnd (get_col raw ''time'') (as_int64 src) = Inr stamps" "bnd (get_col raw ''id'') (as_int64 src) = Inr ids"
      "bnd (get_col raw ''price'') (as_float64 src) = Inr prices" "bnd (get_col raw ''qty'') (as_float64 src) = Inr quantities"
      "bnd (get_col raw ''is_buyer_maker'') to_bool = Inr makers"
    and f: "sort_rows ''trade_id'' (trade_frame symbol stamps ids prices quantities makers (nrows raw)) = Inr f"
    using assms(3) unfolding normalise_trades_def bnd_eq_Inr by blast
  have len: "length stamps = nrows raw" "length ids = nrows raw" "length prices = nrows raw" "length quantities = nrows raw"
    using converted_ints [OF assms(1,2)] converted_floats [OF assms(1,2)] c by blast+
  have makers: "length makers = nrows raw"
    using c(5) assms(2) by (auto simp: res_simps to_bool_def dest!: map_truths_length frame_ok_len)
  let ?t = "trade_frame symbol stamps ids prices quantities makers (nrows raw)"
  have ok: "frame_ok ?t" using len makers by (intro trade_frame_ok)
  then show "frame_ok f" using sort_rows_ok f by blast
  have sym: "get_texts ?t ''symbol'' = Inr (replicate (nrows raw) (Some symbol))"
    and date: "get_texts ?t ''date'' = Inr (map (\<lambda>t. Some (date_of_ms t)) stamps)"
    by (simp_all add: res_simps trade_frame_def)
  obtain ss where "get_texts f ''symbol'' = Inr ss" "set ss = set (replicate (nrows raw) (Some symbol))" "length ss = nrows f"
    using sorted_texts [OF f sym] by (auto simp: trade_frame_def)
  moreover obtain ds where "get_texts f ''date'' = Inr ds" "set ds = set (map (\<lambda>t. Some (date_of_ms t)) stamps)" "length ds = nrows f"
    using sorted_texts [OF f date] len by (auto simp: trade_frame_def)
  ultimately show "\<exists>ss ds. get_texts f ''symbol'' = Inr ss \<and> get_texts f ''date'' = Inr ds
    \<and> length ss = nrows f \<and> length ds = nrows f \<and> set ss \<subseteq> {Some symbol} \<and> None \<notin> set ds"
    by (metis (no_types, lifting) ex_map_conv option.distinct(1) set_replicate_conv_if subset_insertI2 empty_subsetI order_refl)
qed

text \<open>The partitions of a month: rows of one symbol, dated inside the month, each kept under its date.\<close>

definition month_stored :: "frame \<Rightarrow> string \<Rightarrow> string \<Rightarrow> store \<Rightarrow> bool" where
  "month_stored f symbol pre st \<longleftrightarrow>
     (\<exists>ss ds. get_texts f ''symbol'' = Inr ss \<and> get_texts f ''date'' = Inr ds \<and> length ds = nrows f
       \<and> (\<forall>d \<in> set ds. \<exists>day. d = Some day \<and> take 7 day = pre
             \<and> st (partition_path trades_dir symbol day) = Some (day_rows f ss ds symbol day)))"

lemma accepted_dates:
  "accept_month f month previous = Inr p \<Longrightarrow> get_texts f ''date'' = Inr ds \<Longrightarrow> Some day \<in> set ds \<Longrightarrow>
   length (iso_text month) = 10 \<Longrightarrow> take 7 day = take 7 (iso_text month)"
  by (auto simp: accept_month_def res_simps list_ex_iff outside_month_def split: if_splits)

lemma store_month:
  assumes f: "\<exists>ss ds. get_texts f ''symbol'' = Inr ss \<and> get_texts f ''date'' = Inr ds
      \<and> length ss = nrows f \<and> length ds = nrows f \<and> set ss \<subseteq> {Some symbol} \<and> None \<notin> set ds"
    and a: "accept_month f month previous = Inr p" and s: "store_trades f st = Inr st'"
    and iso: "length (iso_text month) = 10"
  shows "month_stored f symbol (take 7 (iso_text month)) st'"
    and "take 7 day \<noteq> take 7 (iso_text month) \<Longrightarrow> st' (partition_path trades_dir symbol day) = st (partition_path trades_dir symbol day)"
proof -
  obtain ss ds where t: "get_texts f ''symbol'' = Inr ss" "get_texts f ''date'' = Inr ds"
    and st': "\<And>symbol date. st' (partition_path trades_dir symbol date) =
       (if \<exists>i < nrows f. hive_value (ss ! i) = symbol \<and> hive_value (ds ! i) = date
        then Some (day_rows f ss ds symbol date) else st (partition_path trades_dir symbol date))"
    using write_symbol_date [OF s [unfolded store_trades_def partition_cols_def]] by metis
  have len: "length ss = nrows f" "length ds = nrows f" and syms: "set ss \<subseteq> {Some symbol}" and dates: "None \<notin> set ds"
    using f t by auto
  have sym: "hive_value (ss ! i) = symbol" if "i < nrows f" for i
  proof -
    have "ss ! i \<in> set ss" using that len by simp
    then have "ss ! i = Some symbol" using syms by blast
    then show ?thesis by (simp add: hive_value_def)
  qed
  have date: "\<exists>day. ds ! i = Some day \<and> take 7 day = take 7 (iso_text month)" if "i < nrows f" for i
  proof -
    have "ds ! i \<in> set ds" using that len by simp
    moreover from this dates have "ds ! i \<noteq> None" by metis
    then obtain day where "ds ! i = Some day" by blast
    ultimately show ?thesis using accepted_dates [OF a t(2) _ iso] by auto
  qed
  show "month_stored f symbol (take 7 (iso_text month)) st'"
    unfolding month_stored_def
  proof (rule exI [of _ ss], rule exI [of _ ds], intro conjI ballI)
    fix d assume "d \<in> set ds"
    then obtain i where i: "i < nrows f" "d = ds ! i" using len by (metis in_set_conv_nth)
    obtain day where day: "ds ! i = Some day" "take 7 day = take 7 (iso_text month)" using date [OF i(1)] by blast
    have "\<exists>i < nrows f. hive_value (ss ! i) = symbol \<and> hive_value (ds ! i) = day"
      using i sym day by (auto simp: hive_value_def)
    then show "\<exists>day. d = Some day \<and> take 7 day = take 7 (iso_text month)
        \<and> st' (partition_path trades_dir symbol day) = Some (day_rows f ss ds symbol day)"
      using i day st' by auto
  qed (use t len in auto)
  show "st' (partition_path trades_dir symbol day) = st (partition_path trades_dir symbol day)"
    if other: "take 7 day \<noteq> take 7 (iso_text month)"
  proof -
    have "\<not> (\<exists>i < nrows f. hive_value (ss ! i) = symbol \<and> hive_value (ds ! i) = day)"
      using date other by (force simp: hive_value_def)
    then show ?thesis unfolding st' by (rule if_not_P)
  qed
qed

lemma backfill_skips:
  "backfill_months src symbol allow ms skipped previous st = (st', Inr result) \<Longrightarrow> set skipped \<subseteq> set result"
proof (induction ms arbitrary: skipped previous st)
  case (Cons m ms)
  then show ?case by (fastforce split: sum.splits prod.splits if_splits)
qed simp

lemma backfill_untouched:
  assumes "source_ok src" and "\<forall>m \<in> set ms. take 7 day \<noteq> take 7 (iso_text m) \<and> length (iso_text m) = 10"
    and "backfill_months src symbol allow ms skipped previous st = (st', r)"
  shows "st' (partition_path trades_dir symbol day) = st (partition_path trades_dir symbol day)"
  using assms(2,3)
proof (induction ms arbitrary: skipped previous st)
  case (Cons m ms)
  show ?case
  proof (cases "fetch_month src symbol (OnDate m) True")
    case (Inl e)
    then show ?thesis using Cons by (auto split: if_splits)
  next
    case (Inr f)
    show ?thesis
    proof (cases "bnd (accept_month f m previous) (\<lambda>previous'. bnd (store_trades f st) (\<lambda>st'. Inr (previous', st')))")
      case Inl': (Inl e)
      then show ?thesis using Cons.prems(2) Inr by simp
    next
      case Inr': (Inr q)
      obtain previous' st1 where q: "q = (previous', st1)" by (cases q)
      have step: "accept_month f m previous = Inr previous'" "store_trades f st = Inr st1"
        using Inr' by (auto simp: q res_simps)
      have "bnd (fetch_frame src True (monthly_url trades_dataset symbol (OnDate m))) (\<lambda>raw. normalise_trades src raw symbol) = Inr f"
        using Inr by (simp add: fetch_month_def)
      then obtain raw where "fetch_frame src True (monthly_url trades_dataset symbol (OnDate m)) = Inr raw"
        "normalise_trades src raw symbol = Inr f" unfolding bnd_eq_Inr by blast
      then have "st1 (partition_path trades_dir symbol day) = st (partition_path trades_dir symbol day)"
        using Cons.prems(1) assms(1)
        by (intro store_month(2) [OF normalise_trades_shape(2) step]) (auto intro: fetch_frame_ok)
      moreover have "st' (partition_path trades_dir symbol day) = st1 (partition_path trades_dir symbol day)"
        using Cons.prems Inr Inr' by (intro Cons.IH) (auto simp: q)
      ultimately show ?thesis by simp
    qed
  qed
qed simp

lemma backfill_keeps:
  assumes "source_ok src" and "distinct (map (\<lambda>m. take 7 (iso_text m)) ms)" and "\<forall>m \<in> set ms. length (iso_text m) = 10"
    and "backfill_months src symbol allow ms skipped previous st = (st', Inr result)"
    and "m \<in> set ms" and "m \<notin> set result"
  shows "\<exists>f. fetch_month src symbol (OnDate m) True = Inr f \<and> month_stored f symbol (take 7 (iso_text m)) st'"
  using assms(2-5)
proof (induction ms arbitrary: skipped previous st)
  case (Cons k ms)
  show ?case
  proof (cases "fetch_month src symbol (OnDate k) True")
    case (Inl e)
    then have rest: "backfill_months src symbol allow ms (skipped @ [k]) None st = (st', Inr result)"
      using Cons.prems(3) by (auto split: if_splits)
    then have "k \<in> set result" using backfill_skips by fastforce
    then have "m \<in> set ms" using Cons.prems(4) assms(6) by auto
    then show ?thesis using Cons.IH [OF _ _ rest] Cons.prems by auto
  next
    case (Inr f)
    obtain previous' st1 where step: "accept_month f k previous = Inr previous'" "store_trades f st = Inr st1"
      and rest: "backfill_months src symbol allow ms skipped previous' st1 = (st', Inr result)"
      using Cons.prems(3) Inr by (auto simp: res_simps split: sum.splits)
    show ?thesis
    proof (cases "m = k")
      case False
      then show ?thesis using Cons.IH [OF _ _ rest] Cons.prems by auto
    next
      case True
      have "bnd (fetch_frame src True (monthly_url trades_dataset symbol (OnDate k))) (\<lambda>raw. normalise_trades src raw symbol) = Inr f"
        using Inr by (simp add: fetch_month_def)
      then obtain raw where raw: "fetch_frame src True (monthly_url trades_dataset symbol (OnDate k)) = Inr raw"
        "normalise_trades src raw symbol = Inr f" unfolding bnd_eq_Inr by blast
      have "month_stored f symbol (take 7 (iso_text k)) st1"
        using Cons.prems(2) raw assms(1)
        by (intro store_month(1) [OF normalise_trades_shape(2) step]) (auto intro: fetch_frame_ok)
      then obtain ss ds where t: "get_texts f ''symbol'' = Inr ss" "get_texts f ''date'' = Inr ds" "length ds = nrows f"
        and kept: "\<forall>d \<in> set ds. \<exists>day. d = Some day \<and> take 7 day = take 7 (iso_text k)
             \<and> st1 (partition_path trades_dir symbol day) = Some (day_rows f ss ds symbol day)"
        unfolding month_stored_def by blast
      have later: "st' (partition_path trades_dir symbol day) = st1 (partition_path trades_dir symbol day)"
        if "take 7 day = take 7 (iso_text k)" for day
        using Cons.prems(1,2) that by (intro backfill_untouched [OF assms(1) _ rest]) force
      have "month_stored f symbol (take 7 (iso_text k)) st'"
        unfolding month_stored_def
        by (intro exI conjI, rule t, rule t, rule t) (use kept later in metis)
      then show ?thesis using Inr True by blast
    qed
  qed
qed simp

lemma month_prefix_inj:
  assumes "first_of_month m = m" and "first_of_month k = k" and "1 \<le> m" "m \<le> 3652059" "1 \<le> k" "k \<le> 3652059"
    and "take 7 (iso_text m) = take 7 (iso_text k)"
  shows "m = k"
proof -
  have split: "\<exists>y mo. n = ymd2ord y mo 1 \<and> take 7 (iso_text n) = pad_text 4 (nat y) @ ''-'' @ pad_text 2 (nat mo)
      \<and> length (pad_text 4 (nat y)) = 4 \<and> 1 \<le> y \<and> 1 \<le> mo" if n: "first_of_month n = n" "1 \<le> n" "n \<le> 3652059" for n
  proof -
    obtain y mo d where o: "ord2ymd n = (y, mo, d)"
      and t: "iso_text n = pad_text 4 (nat y) @ ''-'' @ pad_text 2 (nat mo) @ ''-'' @ pad_text 2 (nat d)"
      and len: "length (pad_text 4 (nat y)) = 4" "length (pad_text 2 (nat mo)) = 2" and y: "1 \<le> y"
      using n(2,3) by (rule iso_text_shape)
    have "n = ymd2ord y mo 1" using n(1) o by (simp add: first_of_month_def)
    moreover have "take 7 (iso_text n) = pad_text 4 (nat y) @ ''-'' @ pad_text 2 (nat mo)" using len by (simp add: t)
    ultimately show ?thesis using ord2ymd_correct(2) [OF o] len(1) y by blast
  qed
  obtain y mo where a: "m = ymd2ord y mo 1" "take 7 (iso_text m) = pad_text 4 (nat y) @ ''-'' @ pad_text 2 (nat mo)"
      "length (pad_text 4 (nat y)) = 4" "1 \<le> y" "1 \<le> mo"
    using split [OF assms(1,3,4)] by blast
  obtain y' mo' where b: "k = ymd2ord y' mo' 1" "take 7 (iso_text k) = pad_text 4 (nat y') @ ''-'' @ pad_text 2 (nat mo')"
      "length (pad_text 4 (nat y')) = 4" "1 \<le> y'" "1 \<le> mo'"
    using split [OF assms(2,5,6)] by blast
  have "pad_text 4 (nat y) = pad_text 4 (nat y')" "pad_text 2 (nat mo) = pad_text 2 (nat mo')"
    using assms(7) a b by (auto simp: append_eq_append_conv)
  then have "int (nat y) = int (nat y')" "int (nat mo) = int (nat mo')" by (metis pad_text_val)+
  then show ?thesis using a b by simp
qed

lemma months_prefixes:
  assumes "1 \<le> first_of_month start" and "stop \<le> 3652059"
  shows "distinct (map (\<lambda>m. take 7 (iso_text m)) (months_between start stop))"
    and "\<forall>m \<in> set (months_between start stop). length (iso_text m) = 10"
proof -
  note spec = months_from_spec [OF first_of_month_idem, of start stop, folded months_between_def]
  have m: "first_of_month m = m \<and> 1 \<le> m \<and> m \<le> 3652059" if "m \<in> set (months_between start stop)" for m
    using spec that assms by auto
  then show "\<forall>m \<in> set (months_between start stop). length (iso_text m) = 10" using month_text(4) by blast
  have "distinct (months_between start stop)" using spec strict_sorted_iff by blast
  then show "distinct (map (\<lambda>m. take 7 (iso_text m)) (months_between start stop))"
    using m by (auto simp: distinct_map inj_on_def intro: month_prefix_inj)
qed

text \<open>C20: a backfill loses nothing it fetched. When it returns, every month of the range that it does not report
  as skipped was fetched, and each of that month's trades is in the store, in the partition of its own
  day exactly with the other rows of that day: no month's write deletes another's rows, because a month
  with a date outside itself is refused before it is stored.\<close>

theorem backfill_keeps_every_month:
  assumes "source_ok src" and "1 \<le> first_of_month start" and "stop \<le> 3652059"
    and "backfill_trades src symbol start stop allow_missing st = (st', Inr skipped)"
  shows "\<forall>m \<in> set (months_between start stop) - set skipped.
    \<exists>f. fetch_month src symbol (OnDate m) True = Inr f \<and> month_stored f symbol (take 7 (iso_text m)) st'"
  using backfill_keeps [OF assms(1) months_prefixes [OF assms(2,3)] assms(4) [unfolded backfill_trades_def]] by blast

text \<open>One month of one trade.\<close>

definition example_raw :: frame where
  "example_raw =
     \<lparr>nrows = 1, columns = [(''id'', ICol [7]), (''price'', FCol [Fin 2]), (''qty'', FCol [Fin 3]),
        (''time'', ICol [1780272000000]), (''is_buyer_maker'', SCol [Some ''true''])]\<rparr>"

definition example_source :: source where
  "example_source =
     \<lparr>checksum_at = \<lambda>_. Inr None, fetch_to = \<lambda>_ _. Inr ''archive'', read_text = \<lambda>_. Inr example_raw,
      read_named = \<lambda>_ _. Inl (KeyError ''none''),
      as_int64 = \<lambda>c. (case c of ICol xs \<Rightarrow> Inr xs | _ \<Rightarrow> Inl (ValueError ''invalid literal'')),
      as_float64 = \<lambda>c. (case c of FCol xs \<Rightarrow> Inr xs | _ \<Rightarrow> Inl (ValueError ''could not convert''))\<rparr>"

definition example_trades :: frame where
  "example_trades = trade_frame ''BTCUSDT'' [1780272000000] [7] [Fin 2] [Fin 3] [True] 1"

lemma example_source_ok: "source_ok example_source"
  by (auto simp: source_ok_def example_source_def example_raw_def frame_ok_def split: column.split_asm)

lemma example_day_texts: "iso_text 739768 = ''2026-06-01''" "first_of_month 739768 = 739768" "first_of_month 739799 = 739798"
  "date_of_ms 1780272000000 = ''2026-06-01''"
  by code_simp+

lemma example_months: "months_between 739768 739768 = [739768]"
  by (simp add: months_between_def example_day_texts months_from.simps [of 739768] months_from.simps [of 739798])

lemma example_normalised: "fetch_month example_source ''BTCUSDT'' (OnDate 739768) True = Inr example_trades"
proof -
  have "sort_rows ''trade_id'' example_trades = Inr example_trades"
    by (simp add: sort_rows_def get_ints_def get_col_def example_trades_def trade_frame_def pick_rows_def)
  moreover have "truths e (SCol [Some ''true'']) = Inr [True]" for e by code_simp
  ultimately show ?thesis
    by (simp add: fetch_month_def fetch_frame_def example_source_def normalise_trades_def example_raw_def col_names_def
        get_col_def to_bool_def example_trades_def)
qed

lemma example_backfill: "\<exists>st'. backfill_trades example_source ''BTCUSDT'' 739768 739768 False (\<lambda>_. None) = (st', Inr [])"
proof -
  have "accept_month example_trades 739768 None = Inr (Some 7)"
    by (simp add: accept_month_def trade_id_gaps_def breaks_def classify_gaps_def duplicate_trade_ids_def repeated_def
        get_ints_def get_texts_def get_col_def example_trades_def trade_frame_def outside_month_def example_day_texts
        frame_empty_def)
  moreover have "\<exists>st'. store_trades example_trades (\<lambda>_. None) = Inr st'"
    by (simp add: store_trades_def write_parquet_def partition_cols_def get_texts_def get_col_def col_names_def
        example_trades_def trade_frame_def Let_def)
  ultimately show ?thesis
    by (auto simp: backfill_trades_def example_months example_normalised)
qed

theorem backfill_keeps_every_month_witness:
  "\<exists>st' f. backfill_trades example_source ''BTCUSDT'' 739768 739768 False (\<lambda>_. None) = (st', Inr [])
     \<and> fetch_month example_source ''BTCUSDT'' (OnDate 739768) True = Inr f \<and> month_stored f ''BTCUSDT'' ''2026-06'' st'"
proof -
  obtain st' where st': "backfill_trades example_source ''BTCUSDT'' 739768 739768 False (\<lambda>_. None) = (st', Inr [])"
    using example_backfill by blast
  have "739768 \<in> set (months_between 739768 739768) - set []" by (simp add: example_months)
  then obtain f where "fetch_month example_source ''BTCUSDT'' (OnDate 739768) True = Inr f"
    "month_stored f ''BTCUSDT'' (take 7 (iso_text 739768)) st'"
    using backfill_keeps_every_month [OF example_source_ok _ _ st'] by (auto simp: example_day_texts)
  then show ?thesis using st' by (intro exI [of _ st'] exI [of _ f]) (simp add: example_day_texts)
qed

end
