(* ===== verification/Funding.thy ===== *)
theory Funding
  imports Trades
begin

text \<open>
  The historical funding fetcher (\<open>ingestion/fetch_funding.py\<close>): normalising an archive frame, missing
  settlements and cadence changes, the checks a closed month must pass, and the month-wise backfill.
  The bound on a rate is the binary64 number nearest to 0.05.
\<close>

definition funding_dataset :: string where "funding_dataset = ''fundingRate''"

definition funding_dir :: string where "funding_dir = ''funding''"

definition tolerance_ms :: int where "tolerance_ms = 5000"

definition rate_sanity_bound :: pynum where "rate_sanity_bound = fl (5 / 100)"

definition ms_per_hour :: int where "ms_per_hour = 3600000"

definition funding_columns :: "string list" where
  "funding_columns = [''funding_time'', ''symbol'', ''funding_rate'', ''funding_interval_hours'', ''date'']"

section \<open>Normalising\<close>

definition funding_frame :: "string \<Rightarrow> int list \<Rightarrow> pynum list \<Rightarrow> int list \<Rightarrow> nat \<Rightarrow> frame" where
  "funding_frame symbol stamps rates hours n =
     \<lparr>nrows = n,
      columns = [(''funding_time'', ICol stamps), (''symbol'', SCol (replicate n (Some symbol))),
        (''funding_rate'', FCol rates), (''funding_interval_hours'', ICol hours),
        (''date'', SCol (map (\<lambda>t. Some (date_of_ms t)) stamps))]\<rparr>"

definition normalise_funding :: "source \<Rightarrow> frame \<Rightarrow> string \<Rightarrow> frame res" where
  "normalise_funding src raw symbol =
     bnd (guard (\<not> {''calc_time'', ''funding_interval_hours'', ''last_funding_rate''} \<subseteq> set (col_names raw))
            (FundingDataError ''archive schema changed: missing columns'')) (\<lambda>_.
     bnd (bnd (get_col raw ''calc_time'') (as_int64 src)) (\<lambda>stamps.
     bnd (bnd (get_col raw ''last_funding_rate'') (as_float64 src)) (\<lambda>rates.
     bnd (bnd (get_col raw ''funding_interval_hours'') (as_int64 src)) (\<lambda>hours.
     sort_rows ''funding_time'' (funding_frame symbol stamps rates hours (nrows raw))))))"

section \<open>Settlements\<close>

definition month_days :: "int \<Rightarrow> int" where
  "month_days month = (case ord2ymd month of (y, m, _) \<Rightarrow> days_in_month y m)"

definition expected_settlements :: "int \<Rightarrow> int \<Rightarrow> int res" where
  "expected_settlements month hours =
     (if hours = 0 then Inl ZeroDivisionError else Inr (month_days month * 24 div hours))"

text \<open>\<open>round(actual / expected)\<close>: the quotient of integers is the nearest float, then half to even.\<close>

definition round_quotient :: "int \<Rightarrow> int \<Rightarrow> int res" where
  "round_quotient a b =
     (if b = 0 then Inl ZeroDivisionError
      else (case fl (of_int a / of_int b) of Fin r \<Rightarrow> Inr (round_even r)
            | _ \<Rightarrow> Inl (OverflowError ''integer division result too large for a float'')))"

text \<open>Each step is measured against the interval on its later row.\<close>

fun scan_gaps :: "int \<Rightarrow> (int \<times> int) list \<Rightarrow> (int \<times> int \<times> int) list res" where
  "scan_gaps tolerance ((t, h) # (t', h') # rows) =
     (let expected = h' * ms_per_hour; actual = t' - t in
      if actual \<le> expected + tolerance then scan_gaps tolerance ((t', h') # rows)
      else bnd (round_quotient actual expected) (\<lambda>q.
           bnd (scan_gaps tolerance ((t', h') # rows)) (\<lambda>gaps.
           Inr ((t, t + expected, max (q - 1) 1) # gaps))))"
| "scan_gaps _ _ = Inr []"

definition settlement_gaps :: "frame \<Rightarrow> int \<Rightarrow> (int \<times> int \<times> int) list res" where
  "settlement_gaps f tolerance =
     (if nrows f < 2 then Inr []
      else bnd (get_ints f ''funding_time'') (\<lambda>stamps.
           bnd (get_ints f ''funding_interval_hours'') (\<lambda>hours.
           scan_gaps tolerance (zip stamps hours))))"

fun scan_changes :: "(int \<times> int) list \<Rightarrow> (int \<times> int \<times> int) list" where
  "scan_changes ((t, h) # (t', h') # rows) =
     (if h \<noteq> h' then [(t', h, h')] else []) @ scan_changes ((t', h') # rows)"
| "scan_changes _ = []"

definition interval_changes :: "frame \<Rightarrow> (int \<times> int \<times> int) list res" where
  "interval_changes f =
     (if nrows f < 2 then Inr []
      else bnd (get_ints f ''funding_interval_hours'') (\<lambda>hours.
           bnd (get_ints f ''funding_time'') (\<lambda>stamps. Inr (scan_changes (zip stamps hours)))))"

definition plausible :: "pynum \<Rightarrow> pynum \<Rightarrow> bool" where
  "plausible bound r \<longleftrightarrow> fle (fneg bound) r \<and> fle r bound"

definition implausible_rates :: "frame \<Rightarrow> pynum \<Rightarrow> frame res" where
  "implausible_rates f bound =
     bnd (get_nums f ''funding_rate'') (\<lambda>rates. Inr (keep_rows (\<lambda>i. \<not> plausible bound (rates ! i)) f))"

section \<open>A closed month\<close>

record month_report =
  mr_symbol :: string
  mr_month :: int
  mr_settlements :: nat
  mr_intervals :: "int list"
  mr_partial_start :: bool
  mr_changes :: "(int \<times> int \<times> int) list"

definition count_ok :: "int \<Rightarrow> int list \<Rightarrow> bool \<Rightarrow> nat \<Rightarrow> unit res" where
  \<comment> \<open>the settlement count, where a whole month has one cadence\<close>
  "count_ok month intervals partial_start n =
     (case intervals of
        [h] \<Rightarrow> if partial_start then Inr ()
               else bnd (expected_settlements month h) (\<lambda>expected.
                    guard (int n \<noteq> expected) (FundingDataError ''settlements, expected''))
      | _ \<Rightarrow> Inr ())"

definition check_coverage :: "frame \<Rightarrow> string \<Rightarrow> int \<Rightarrow> month_report res" where
  "check_coverage f symbol month =
     bnd (get_ints f ''funding_time'') (\<lambda>stamps.
     bnd (get_ints f ''funding_interval_hours'') (\<lambda>hours.
     let (start_ms, end_ms) = month_bounds month;
         partial_start = (start_ms + tolerance_ms < hd stamps - hd hours * ms_per_hour);
         intervals = sort (remdups hours) in
     bnd (guard (last stamps + last hours * ms_per_hour < end_ms - tolerance_ms)
            (FundingDataError ''coverage ends short of the month end'')) (\<lambda>_.
     bnd (count_ok month intervals partial_start (nrows f)) (\<lambda>_.
     bnd (interval_changes f) (\<lambda>changes.
     Inr \<lparr>mr_symbol = symbol, mr_month = month, mr_settlements = nrows f, mr_intervals = intervals,
          mr_partial_start = partial_start, mr_changes = changes\<rparr>)))))"

definition check_month :: "frame \<Rightarrow> string \<Rightarrow> int \<Rightarrow> month_report res" where
  "check_month f symbol month =
     bnd (guard (frame_empty f) (FundingDataError ''no settlements'')) (\<lambda>_.
     bnd (get_texts f ''date'') (\<lambda>dates.
     bnd (guard (list_ex (outside_month (take 7 (iso_text month))) dates)
            (FundingDataError ''settlements dated outside the month'')) (\<lambda>_.
     bnd (settlement_gaps f tolerance_ms) (\<lambda>gaps.
     bnd (guard (gaps \<noteq> []) (FundingDataError ''gap(s)'')) (\<lambda>_.
     bnd (implausible_rates f rate_sanity_bound) (\<lambda>bad.
     bnd (guard (\<not> frame_empty bad) (FundingDataError ''implausible rate(s)'')) (\<lambda>_.
     check_coverage f symbol month)))))))"

section \<open>Backfill\<close>

definition fetch_funding_month :: "source \<Rightarrow> string \<Rightarrow> period \<Rightarrow> bool \<Rightarrow> frame res" where
  "fetch_funding_month src symbol month verify_checksum =
     bnd (fetch_frame src verify_checksum (monthly_url funding_dataset symbol month)) (\<lambda>raw. normalise_funding src raw symbol)"

definition store_funding :: "frame \<Rightarrow> store \<Rightarrow> store res" where
  "store_funding f st = write_parquet f [funding_dir] (Some partition_cols) st"

fun backfill_funding_months ::
  "source \<Rightarrow> string \<Rightarrow> bool \<Rightarrow> int list \<Rightarrow> int list \<Rightarrow> month_report list \<Rightarrow> store
    \<Rightarrow> store \<times> (int list \<times> month_report list) res" where
  "backfill_funding_months src symbol allow_missing [] skipped reports st = (st, Inr (skipped, reports))"
| "backfill_funding_months src symbol allow_missing (m # ms) skipped reports st =
     (case fetch_funding_month src symbol (OnDate m) True of
        Inl e \<Rightarrow>
          if is_download_error e \<and> allow_missing
          then backfill_funding_months src symbol allow_missing ms (skipped @ [m]) reports st
          else (st, Inl e)
      | Inr f \<Rightarrow>
          (case bnd (check_month f symbol m) (\<lambda>report. bnd (store_funding f st) (\<lambda>st'. Inr (report, st'))) of
             Inl e \<Rightarrow> (st, Inl e)
           | Inr (report, st') \<Rightarrow> backfill_funding_months src symbol allow_missing ms skipped (reports @ [report]) st'))"

definition backfill_funding ::
  "source \<Rightarrow> string \<Rightarrow> int \<Rightarrow> int \<Rightarrow> bool \<Rightarrow> store \<Rightarrow> store \<times> (int list \<times> month_report list) res" where
  "backfill_funding src symbol start stop allow_missing st =
     backfill_funding_months src symbol allow_missing (months_between start stop) [] [] st"

end
