(* ===== verification/FundingSeries.thy ===== *)
theory FundingSeries
  imports Funding
begin

text \<open>
  The validated funding series of the statistical research (\<open>ingestion/funding_series.py\<close> with the
  partition fingerprints of \<open>integrity.py\<close>): the checks of one symbol over a window of days, and the
  reading of its partitions with evidence. The file system may change while it is read, so each
  observation happens at a tick of its own; digests, file contents and \<open>pd.concat\<close> are parameters.
\<close>

section \<open>Validation\<close>

fun distinct_cells :: "column \<Rightarrow> nat" where \<comment> \<open>\<open>nunique()\<close> of a column without nulls\<close>
  "distinct_cells (ICol xs) = card (set xs)"
| "distinct_cells (FCol xs) = card (set xs)"
| "distinct_cells (SCol xs) = card (set xs)"
| "distinct_cells (BCol xs) = card (set xs)"

definition integer_col :: "frame \<Rightarrow> string \<Rightarrow> int list res" where
  "integer_col f k =
     bnd (get_col f k) (\<lambda>c. case c of ICol xs \<Rightarrow> Inr xs
       | _ \<Rightarrow> Inl (FundingSeriesError ''must have integer dtype''))"

definition series_steps :: "int list \<Rightarrow> int list \<Rightarrow> int \<Rightarrow> int \<Rightarrow> unit res" where
  \<comment> \<open>the checks of the settlement times against the cadence and the window\<close>
  "series_steps stamps hours first stop =
     bnd (guard (list_ex (\<lambda>t. t < first) stamps \<or> list_ex (\<lambda>t. stop \<le> t) stamps)
            (FundingSeriesError ''settlement outside requested UTC window'')) (\<lambda>_.
     bnd (guard (list_ex (\<lambda>s. s \<le> 0) (diffs stamps))
            (FundingSeriesError ''duplicate or unordered funding settlements'')) (\<lambda>_.
     bnd (guard (list_ex (\<lambda>(s, h). tolerance_ms < \<bar>s - h * ms_per_hour\<bar>) (zip (diffs stamps) (tl hours)))
            (FundingSeriesError ''missing or irregular funding settlements'')) (\<lambda>_.
     guard (tolerance_ms < hd stamps - first \<or> tolerance_ms < \<bar>stop - last stamps - last hours * ms_per_hour\<bar>)
       (FundingSeriesError ''funding window lacks endpoint coverage''))))"

definition window_days :: "int \<Rightarrow> int \<Rightarrow> string list" where
  "window_days start stop = map iso_text [start .. stop - 1]"

definition validate_series :: "frame \<Rightarrow> int \<Rightarrow> int \<Rightarrow> unit res" where
  "validate_series f start stop =
     bnd (guard (stop \<le> start \<or> frame_empty f \<or> \<not> set funding_columns \<subseteq> set (col_names f))
            (FundingSeriesError ''empty or incomplete funding window/schema'')) (\<lambda>_.
     bnd (get_col f ''symbol'') (\<lambda>symbols.
     bnd (guard (list_ex (\<lambda>(_, c). col_null c) (columns f) \<or> distinct_cells symbols \<noteq> 1)
            (FundingSeriesError ''null values or mixed symbols'')) (\<lambda>_.
     bnd (integer_col f ''funding_time'') (\<lambda>stamps.
     bnd (integer_col f ''funding_interval_hours'') (\<lambda>hours.
     bnd (get_nums f ''funding_rate'') (\<lambda>rates.
     bnd (guard (\<not> list_all is_fin rates \<or> list_ex (\<lambda>r. flt rate_sanity_bound (fabs r)) rates)
            (FundingSeriesError ''nonfinite or implausible funding rate'')) (\<lambda>_.
     bnd (guard (list_ex (\<lambda>h. h \<le> 0 \<or> 24 < h) hours) (FundingSeriesError ''invalid funding cadence'')) (\<lambda>_.
     bnd (get_col f ''date'') (\<lambda>dates.
     bnd (guard (dates \<noteq> SCol (map (\<lambda>t. Some (date_of_ms t)) stamps))
            (FundingSeriesError ''funding timestamp/date mismatch'')) (\<lambda>_.
     bnd (series_steps stamps hours (utc_ms start) (utc_ms stop)) (\<lambda>_.
     guard (set (map date_of_ms stamps) \<noteq> set (window_days start stop))
       (FundingSeriesError ''missing UTC funding days''))))))))))))"

section \<open>Reading with evidence\<close>

type_synonym evidence = "(string \<times> string) list" \<comment> \<open>file names and digests\<close>

text \<open>The file system as it is found at each tick, and \<open>pd.concat\<close>.\<close>

record reader =
  fingerprint :: "nat \<Rightarrow> path \<Rightarrow> evidence" \<comment> \<open>\<open>partition_fingerprint\<close>, by sorted names\<close>
  read_file :: "nat \<Rightarrow> path \<Rightarrow> string \<Rightarrow> frame res"
  concat_frames :: "frame list \<Rightarrow> frame res"

definition funding_partition :: "string \<Rightarrow> int \<Rightarrow> path" where
  "funding_partition symbol day = partition_path funding_dir symbol (iso_text day)"

definition relative_name :: "path \<Rightarrow> string \<Rightarrow> string" where
  "relative_name dir name = join_with (CHR ''/'') (dir @ [name])"

definition all_equal :: "column \<Rightarrow> string \<Rightarrow> bool" where \<comment> \<open>\<open>(column == value).all()\<close>\<close>
  "all_equal c v = (case c of SCol xs \<Rightarrow> list_all (\<lambda>x. x = Some v) xs | _ \<Rightarrow> col_len c = 0)"

definition set_identity :: "string \<Rightarrow> string \<Rightarrow> frame \<Rightarrow> frame res" where
  "set_identity k v f =
     bnd (guard (case map_of (columns f) k of Some c \<Rightarrow> \<not> all_equal c v | None \<Rightarrow> False)
            (FundingSeriesError ''partition identity mismatch'')) (\<lambda>_.
     Inr (set_col k (SCol (replicate (nrows f) (Some v))) f))"

text \<open>One file of a partition: its digest against the prior evidence, its rows, its identity.\<close>

definition load_file ::
  "reader \<Rightarrow> nat \<Rightarrow> path \<Rightarrow> string \<Rightarrow> int \<Rightarrow> evidence option \<Rightarrow> string \<times> string \<Rightarrow> (frame \<times> (string \<times> string)) res" where
  "load_file rd tick dir symbol day expected file =
     (let relative = relative_name dir (fst file) in
      bnd (guard (case expected of Some e \<Rightarrow> map_of e relative \<noteq> Some (snd file) | None \<Rightarrow> False)
             (FundingSeriesError ''missing or stale funding evidence'')) (\<lambda>_.
      bnd (read_file rd tick dir (fst file)) (\<lambda>f.
      bnd (set_identity ''symbol'' symbol f) (\<lambda>f1.
      bnd (set_identity ''date'' (iso_text day) f1) (\<lambda>f2.
      Inr (f2, relative, snd file))))))"

fun load_files ::
  "reader \<Rightarrow> nat \<Rightarrow> path \<Rightarrow> string \<Rightarrow> int \<Rightarrow> evidence option \<Rightarrow> evidence \<Rightarrow> (frame \<times> (string \<times> string)) list res" where
  "load_files rd tick dir symbol day expected [] = Inr []"
| "load_files rd tick dir symbol day expected (file # files) =
     bnd (load_file rd tick dir symbol day expected file) (\<lambda>x.
     bnd (load_files rd (tick + 1) dir symbol day expected files) (\<lambda>xs. Inr (x # xs)))"

text \<open>One day: fingerprint, read every file, fingerprint again. Returns the next tick.\<close>

definition load_day ::
  "reader \<Rightarrow> nat \<Rightarrow> string \<Rightarrow> evidence option \<Rightarrow> int \<Rightarrow> ((frame \<times> (string \<times> string)) list \<times> nat) res" where
  "load_day rd tick symbol expected day =
     (let dir = funding_partition symbol day; before = fingerprint rd tick dir in
      bnd (guard (before = []) (FundingSeriesError ''missing funding partition'')) (\<lambda>_.
      bnd (load_files rd (tick + 1) dir symbol day expected before) (\<lambda>parts.
      let after = tick + 1 + length before in
      bnd (guard (fingerprint rd after dir \<noteq> before) (FundingSeriesError ''funding changed while loading'')) (\<lambda>_.
      Inr (parts, after + 1)))))"

fun load_days ::
  "reader \<Rightarrow> nat \<Rightarrow> string \<Rightarrow> evidence option \<Rightarrow> int list \<Rightarrow> ((frame \<times> (string \<times> string)) list \<times> nat) res" where
  "load_days rd tick symbol expected [] = Inr ([], tick)"
| "load_days rd tick symbol expected (day # days) =
     bnd (load_day rd tick symbol expected day) (\<lambda>(parts, tick').
     bnd (load_days rd tick' symbol expected days) (\<lambda>(rest, tick'').
     Inr (parts @ rest, tick'')))"

text \<open>The evidence of the whole selection at the end, one directory per tick.\<close>

fun current_evidence :: "reader \<Rightarrow> nat \<Rightarrow> string \<Rightarrow> int list \<Rightarrow> evidence" where
  "current_evidence rd tick symbol [] = []"
| "current_evidence rd tick symbol (day # days) =
     (let dir = funding_partition symbol day in
      map (\<lambda>(name, digest). (relative_name dir name, digest)) (fingerprint rd tick dir)
        @ current_evidence rd (tick + 1) symbol days)"

definition load_series ::
  "reader \<Rightarrow> string \<Rightarrow> int \<Rightarrow> int \<Rightarrow> evidence option \<Rightarrow> (frame \<times> evidence) res" where
  "load_series rd symbol start stop expected =
     bnd (load_days rd 0 symbol expected [start .. stop - 1]) (\<lambda>(parts, tick).
     bnd (guard (parts = []) (FundingSeriesError ''no funding partitions in requested window'')) (\<lambda>_.
     bnd (concat_frames rd (map fst parts)) (\<lambda>f.
     bnd (validate_series f start stop) (\<lambda>_.
     let evidence = map snd parts in
     bnd (guard (set (current_evidence rd tick symbol [start .. stop - 1]) \<noteq> set evidence)
            (FundingSeriesError ''funding selection changed while loading'')) (\<lambda>_.
     Inr (f, evidence))))))"

section \<open>Coverage\<close>

lemma length_diffs [simp]: "length (diffs xs) = length xs - 1"
  by (induction xs rule: diffs.induct) auto

lemma nth_diffs: "Suc i < length xs \<Longrightarrow> diffs xs ! i = xs ! Suc i - xs ! i"
  by (induction xs arbitrary: i rule: diffs.induct) (auto simp: nth_Cons split: nat.splits)

lemma latest_before:
  "xs \<noteq> [] \<Longrightarrow> hd xs \<le> t \<Longrightarrow> \<exists>i < length xs. xs ! i \<le> t \<and> (Suc i < length xs \<longrightarrow> t < xs ! Suc i)" for t :: int
proof (induction xs)
  case (Cons x xs)
  show ?case
  proof (cases "xs = [] \<or> t < hd xs")
    case True
    then show ?thesis using Cons.prems by (intro exI [of _ 0]) (auto simp: hd_conv_nth)
  next
    case False
    then obtain i where "i < length xs" "xs ! i \<le> t" "Suc i < length xs \<longrightarrow> t < xs ! Suc i"
      using Cons.IH by auto
    then show ?thesis by (intro exI [of _ "Suc i"]) simp
  qed
qed simp

lemma increasing_steps: "\<forall>i. Suc i < length xs \<longrightarrow> xs ! i < xs ! Suc i \<Longrightarrow> sorted_wrt (<) xs" for xs :: "int list"
  by (simp add: sorted_wrt_iff_nth_Suc_transp)

text \<open>Successful step checks: consecutive settlements are one declared interval apart, up to the tolerance.\<close>

lemma series_steps_spaced:
  assumes "series_steps stamps hours first stop = Inr u" and "length hours = length stamps" and "Suc i < length stamps"
  shows "0 < stamps ! Suc i - stamps ! i" and "\<bar>stamps ! Suc i - stamps ! i - hours ! Suc i * ms_per_hour\<bar> \<le> tolerance_ms"
proof -
  have pos: "\<not> list_ex (\<lambda>s. s \<le> 0) (diffs stamps)"
    and near: "\<not> list_ex (\<lambda>(s, h). tolerance_ms < \<bar>s - h * ms_per_hour\<bar>) (zip (diffs stamps) (tl hours))"
    using assms(1) by (auto simp: series_steps_def res_simps)
  have i: "i < length (diffs stamps)" using assms(3) by simp
  then have "diffs stamps ! i \<in> set (diffs stamps)" by (rule nth_mem)
  then show "0 < stamps ! Suc i - stamps ! i" using pos nth_diffs [OF assms(3)] by (auto simp: list_ex_iff not_le)
  have len: "i < length (zip (diffs stamps) (tl hours))" using i assms(2) by simp
  have "zip (diffs stamps) (tl hours) ! i \<in> set (zip (diffs stamps) (tl hours))" using len by (rule nth_mem)
  moreover have "zip (diffs stamps) (tl hours) ! i = (stamps ! Suc i - stamps ! i, hours ! Suc i)"
    using len nth_diffs [OF assms(3)] by (simp add: nth_tl)
  ultimately show "\<bar>stamps ! Suc i - stamps ! i - hours ! Suc i * ms_per_hour\<bar> \<le> tolerance_ms"
    using near by (auto simp: list_ex_iff not_less)
qed

lemma integer_col_ints: "integer_col f k = Inr xs \<Longrightarrow> get_ints f k = Inr xs"
  by (cases "get_col f k") (auto simp: integer_col_def get_ints_def split: column.splits)

lemma validate_series_opened:
  assumes "validate_series f start stop = Inr u" and "frame_ok f"
  obtains stamps hours where "get_ints f ''funding_time'' = Inr stamps" "get_ints f ''funding_interval_hours'' = Inr hours"
    "stamps \<noteq> []" "length hours = length stamps" "series_steps stamps hours (utc_ms start) (utc_ms stop) = Inr ()"
    "\<forall>h \<in> set hours. 0 < h \<and> h \<le> 24" "set (map date_of_ms stamps) = set (window_days start stop)"
proof -
  obtain stamps hours where i: "integer_col f ''funding_time'' = Inr stamps" "integer_col f ''funding_interval_hours'' = Inr hours"
    and c: "\<not> frame_empty f" "\<not> list_ex (\<lambda>h. h \<le> 0 \<or> 24 < h) hours"
      "series_steps stamps hours (utc_ms start) (utc_ms stop) = Inr ()"
      "set (map date_of_ms stamps) = set (window_days start stop)"
    using assms(1) unfolding validate_series_def bnd_eq_Inr guard_eq_Inr
    by (elim exE conjE) (rule that, assumption, assumption, simp_all)
  have g: "get_ints f ''funding_time'' = Inr stamps" "get_ints f ''funding_interval_hours'' = Inr hours"
    using i integer_col_ints by blast+
  have len: "length stamps = nrows f" "length hours = nrows f" using ints_len [OF assms(2)] g by blast+
  have "stamps \<noteq> []" using c(1) len by (auto simp: frame_empty_def)
  then show thesis using g c len by (intro that) (auto simp: list_ex_iff not_less not_le)
qed

text \<open>C22: an accepted funding series has no hole. Its settlement times increase strictly, consecutive ones lie one
  declared interval apart to within five seconds, every instant of the requested window (but for the first
  five seconds) lies within the interval that some settlement opens, and each day of the window settles.\<close>

theorem series_covers_window:
  assumes "validate_series f start stop = Inr ()" and "frame_ok f"
  shows "\<exists>stamps hours. get_ints f ''funding_time'' = Inr stamps \<and> get_ints f ''funding_interval_hours'' = Inr hours
    \<and> sorted_wrt (<) stamps \<and> set stamps \<subseteq> {utc_ms start ..< utc_ms stop}
    \<and> (\<forall>i. Suc i < length stamps \<longrightarrow> \<bar>stamps ! Suc i - stamps ! i - hours ! Suc i * ms_per_hour\<bar> \<le> tolerance_ms)
    \<and> (\<forall>t. utc_ms start + tolerance_ms \<le> t \<and> t < utc_ms stop \<longrightarrow>
        (\<exists>i < length stamps. stamps ! i \<le> t
          \<and> t < stamps ! i + hours ! (if Suc i < length stamps then Suc i else i) * ms_per_hour + tolerance_ms))
    \<and> (\<forall>day. start \<le> day \<and> day < stop \<longrightarrow> iso_text day \<in> date_of_ms ` set stamps)"
proof -
  obtain stamps hours where g: "get_ints f ''funding_time'' = Inr stamps" "get_ints f ''funding_interval_hours'' = Inr hours"
    and ne: "stamps \<noteq> []" and len: "length hours = length stamps"
    and steps: "series_steps stamps hours (utc_ms start) (utc_ms stop) = Inr ()"
    and days: "set (map date_of_ms stamps) = set (window_days start stop)"
    using assms by (rule validate_series_opened)
  note spaced = series_steps_spaced [OF steps len]
  have ends: "hd stamps \<le> utc_ms start + tolerance_ms" "utc_ms stop \<le> last stamps + last hours * ms_per_hour + tolerance_ms"
    and inside: "set stamps \<subseteq> {utc_ms start ..< utc_ms stop}"
    using steps by (auto simp: series_steps_def res_simps list_ex_iff not_less not_le)
  have cover: "\<exists>i < length stamps. stamps ! i \<le> t
          \<and> t < stamps ! i + hours ! (if Suc i < length stamps then Suc i else i) * ms_per_hour + tolerance_ms"
    if t: "utc_ms start + tolerance_ms \<le> t" "t < utc_ms stop" for t
  proof -
    have "hd stamps \<le> t" using ends(1) t(1) by linarith
    then obtain i where i: "i < length stamps" "stamps ! i \<le> t" "Suc i < length stamps \<longrightarrow> t < stamps ! Suc i"
      using latest_before [OF ne] by blast
    show ?thesis
    proof (cases "Suc i < length stamps")
      case True
      then show ?thesis using i spaced(2) [OF True] by (intro exI [of _ i]) simp
    next
      case False
      then have "i = length stamps - 1" using i(1) by simp
      moreover have "hours \<noteq> []" using ne len by auto
      ultimately have "stamps ! i = last stamps" "hours ! i = last hours"
        using ne len by (simp_all add: last_conv_nth)
      then show ?thesis using False i ends(2) t(2) by (intro exI [of _ i]) simp
    qed
  qed
  have sorted: "sorted_wrt (<) stamps" by (rule increasing_steps) (use spaced(1) in auto)
  have day: "\<forall>day. start \<le> day \<and> day < stop \<longrightarrow> iso_text day \<in> date_of_ms ` set stamps"
  proof (intro allI impI)
    fix day assume "start \<le> day \<and> day < stop"
    then have "iso_text day \<in> set (window_days start stop)" by (simp add: window_days_def)
    then show "iso_text day \<in> date_of_ms ` set stamps" unfolding days [symmetric] by simp
  qed
  have near: "\<forall>i. Suc i < length stamps \<longrightarrow> \<bar>stamps ! Suc i - stamps ! i - hours ! Suc i * ms_per_hour\<bar> \<le> tolerance_ms"
    using spaced(2) by blast
  have covered: "\<forall>t. utc_ms start + tolerance_ms \<le> t \<and> t < utc_ms stop \<longrightarrow>
        (\<exists>i < length stamps. stamps ! i \<le> t
          \<and> t < stamps ! i + hours ! (if Suc i < length stamps then Suc i else i) * ms_per_hour + tolerance_ms)"
    by (intro allI impI cover) (erule conjunct1, erule conjunct2)
  show ?thesis by (rule exI [of _ stamps], rule exI [of _ hours], intro conjI g inside sorted day near covered)
qed

text \<open>One day of three settlements.\<close>

definition example_series :: frame where
  "example_series = funding_frame ''BTCUSDT'' [1780272000000, 1780300800000, 1780329600000] [Fin 0, Fin 0, Fin 0] [8, 8, 8] 3"

lemma example_series_valid: "validate_series example_series 739768 739769 = Inr ()"
proof -
  have "fle (Fin 0) rate_sanity_bound" using fl_mono [of 0 "5 / 100"] by (simp add: rate_sanity_bound_def)
  then have bound: "\<not> flt rate_sanity_bound (Fin 0)" by (rule fle_not_flt)
  have dates: "date_of_ms 1780272000000 = ''2026-06-01''" "date_of_ms 1780300800000 = ''2026-06-01''"
    "date_of_ms 1780329600000 = ''2026-06-01''" by code_simp+
  show ?thesis
    by (simp add: validate_series_def example_series_def funding_frame_def frame_empty_def funding_columns_def col_names_def
        get_col_def integer_col_def get_nums_def fabs_def bound dates series_steps_def utc_ms_def epoch_ord_def day_ms_def
        tolerance_ms_def ms_per_hour_def window_days_def example_day_texts)
qed

theorem series_covers_window_witness:
  "\<exists>stamps. get_ints example_series ''funding_time'' = Inr stamps \<and> sorted_wrt (<) stamps \<and> ''2026-06-01'' \<in> date_of_ms ` set stamps"
proof -
  have ok: "frame_ok example_series" by (simp add: example_series_def funding_frame_def frame_ok_def)
  obtain stamps where s: "get_ints example_series ''funding_time'' = Inr stamps" "sorted_wrt (<) stamps"
    and d: "\<forall>day. 739768 \<le> day \<and> day < 739769 \<longrightarrow> iso_text day \<in> date_of_ms ` set stamps"
    using series_covers_window [OF example_series_valid ok] by (elim exE conjE) (rule that, assumption+)
  have "''2026-06-01'' \<in> date_of_ms ` set stamps" using d [rule_format, of 739768] by (simp add: example_day_texts)
  then show ?thesis using s by blast
qed

section \<open>Evidence\<close>

definition file_evidence :: "path \<Rightarrow> evidence \<Rightarrow> evidence" where
  "file_evidence dir files = map (\<lambda>(name, digest). (relative_name dir name, digest)) files"

definition matches_prior :: "evidence option \<Rightarrow> string \<times> string \<Rightarrow> bool" where
  "matches_prior expected x \<longleftrightarrow> (case expected of Some e \<Rightarrow> map_of e (fst x) = Some (snd x) | None \<Rightarrow> True)"

lemma load_files_evidence:
  "load_files rd tick dir symbol day expected files = Inr parts \<Longrightarrow>
   map snd parts = file_evidence dir files \<and> list_all (matches_prior expected) (map snd parts)"
proof (induction files arbitrary: tick parts)
  case (Cons nd files)
  obtain x xs where x: "load_file rd tick dir symbol day expected nd = Inr x"
    and xs: "load_files rd (tick + 1) dir symbol day expected files = Inr xs" and p: "parts = x # xs"
    using Cons.prems by (auto simp: res_simps)
  have "snd x = (relative_name dir (fst nd), snd nd)" "matches_prior expected (snd x)"
    using x by (auto simp: load_file_def res_simps Let_def matches_prior_def split: option.splits)
  moreover from Cons.IH [OF xs] have "map snd xs = file_evidence dir files" "list_all (matches_prior expected) (map snd xs)"
    by blast+
  ultimately show ?case using p by (auto simp: file_evidence_def case_prod_beta)
qed (simp add: file_evidence_def)

text \<open>A day that was loaded looked the same before its files were read and after.\<close>

definition read_stably :: "reader \<Rightarrow> string \<Rightarrow> int \<Rightarrow> evidence \<Rightarrow> bool" where
  "read_stably rd symbol day ev \<longleftrightarrow>
     (\<exists>tick files. files \<noteq> [] \<and> fingerprint rd tick (funding_partition symbol day) = files
        \<and> fingerprint rd (tick + 1 + length files) (funding_partition symbol day) = files
        \<and> set (file_evidence (funding_partition symbol day) files) \<subseteq> set ev)"

lemma load_day_stable:
  assumes "load_day rd tick symbol expected day = Inr (parts, tick')"
  shows "read_stably rd symbol day (map snd parts)" and "list_all (matches_prior expected) (map snd parts)"
proof -
  let ?dir = "funding_partition symbol day" and ?before = "fingerprint rd tick (funding_partition symbol day)"
  have b: "?before \<noteq> []" "load_files rd (tick + 1) ?dir symbol day expected ?before = Inr parts"
    "fingerprint rd (tick + 1 + length ?before) ?dir = ?before"
    using assms by (auto simp: load_day_def res_simps Let_def)
  note f = load_files_evidence [OF b(2)]
  show "list_all (matches_prior expected) (map snd parts)" using f by blast
  show "read_stably rd symbol day (map snd parts)"
    unfolding read_stably_def using b f by (intro exI [of _ tick] exI [of _ ?before]) simp
qed

lemma load_days_stable:
  "load_days rd tick symbol expected days = Inr (parts, tick') \<Longrightarrow>
   list_all (\<lambda>day. read_stably rd symbol day (map snd parts)) days \<and> list_all (matches_prior expected) (map snd parts)"
proof (induction days arbitrary: tick parts tick')
  case (Cons day days)
  obtain p t where d: "load_day rd tick symbol expected day = Inr (p, t)"
    and rest: "bnd (load_days rd t symbol expected days) (\<lambda>(rest, tick''). Inr (p @ rest, tick'')) = Inr (parts, tick')"
    using Cons.prems by (auto simp: bnd_eq_Inr)
  obtain q where q: "load_days rd t symbol expected days = Inr (q, tick')" "parts = p @ q"
    using rest by (auto simp: bnd_eq_Inr)
  have mono: "read_stably rd symbol k (map snd parts)"
    if "read_stably rd symbol k (map snd p) \<or> read_stably rd symbol k (map snd q)" for k
    using that q(2) unfolding read_stably_def by fastforce
  show ?case
    using load_day_stable [OF d] Cons.IH [OF q(1)] mono q(2) by (auto simp: list_all_iff)
qed simp


definition example_reader :: reader where
  "example_reader =
     \<lparr>fingerprint = \<lambda>_ _. [(''part-0.parquet'', ''digest'')], read_file = \<lambda>_ _ _. Inr example_series,
      concat_frames = \<lambda>fs. Inr (hd fs)\<rparr>"


end
