(* ===== verification/Download.thy ===== *)
theory Download
  imports Archives Frame
begin

text \<open>
  The download helpers (\<open>ingestion/download.py\<close>) over a disk of files: streaming to a \<open>.part\<close> file
  with retries, published checksums, the verified cache, and reading an archive. What the server
  answers to each attempt, the hash and the CSV reader are parameters; waiting between attempts and
  the progress callback are not modelled. Messages that a caller inspects are kept whole.
\<close>

section \<open>Disk and network\<close>

type_synonym location = "string list" \<comment> \<open>the segments of a path\<close>
type_synonym disk = "location \<Rightarrow> string option" \<comment> \<open>the bytes of every file\<close>

text \<open>An answer is a response with a status and a body in chunks that may break off, or no response.\<close>

datatype answer =
    Reply int "string list" "exn option" \<comment> \<open>status, chunks, how the body broke off\<close>
  | NoReply exn

definition retry_status :: "int set" where
  "retry_status = {408, 425, 429, 500, 502, 503, 504}"

definition default_retries :: nat where "default_retries = 3"

definition http_text :: "int \<Rightarrow> string \<Rightarrow> string" where
  "http_text code url = ''HTTP '' @ int_text code @ '' fetching '' @ url"

definition part_of :: "location \<Rightarrow> location" where \<comment> \<open>\<open>dest.with_name(dest.name + ".part")\<close>\<close>
  "part_of p = butlast p @ [last p @ ''.part'']"

text \<open>How an attempt ends: done, a failure worth retrying, with its text, or any other error.\<close>

datatype attempt = Done | Retry string | Fatal exn

definition ends_with :: "exn \<Rightarrow> attempt" where
  "ends_with e = (case e of TransportError t \<Rightarrow> Retry t | _ \<Rightarrow> Fatal e)"

definition stream_to :: "answer \<Rightarrow> string \<Rightarrow> location \<Rightarrow> disk \<Rightarrow> disk \<times> attempt" where
  "stream_to a url part d =
     (case a of
        NoReply e \<Rightarrow> (d, ends_with e)
      | Reply code body failure \<Rightarrow>
          if code \<in> retry_status then (d, Retry (http_text code url))
          else if 400 \<le> code then (d, Fatal (DownloadError (http_text code url)))
          else (d(part \<mapsto> concat body), case failure of None \<Rightarrow> Done | Some e \<Rightarrow> ends_with e))"

text \<open>
  The loop over the attempts left, with the number of the next one and the text of the last error. A
  failed attempt drops what it wrote; a finished one is renamed into place.
\<close>

fun fetch_loop ::
  "(nat \<Rightarrow> answer) \<Rightarrow> string \<Rightarrow> location \<Rightarrow> nat \<Rightarrow> nat \<Rightarrow> nat \<Rightarrow> string \<Rightarrow> disk \<Rightarrow> disk \<times> location res" where
  "fetch_loop net url dest retries 0 n last_error d =
     (d, Inl (DownloadError (''failed to fetch '' @ url @ '' after '' @ nat_text retries @ '' attempts: '' @ last_error)))"
| "fetch_loop net url dest retries (Suc k) n last_error d =
     (let part = part_of dest in
      case stream_to (net n) url part d of (d', outcome) \<Rightarrow>
        (case outcome of
           Retry t \<Rightarrow> fetch_loop net url dest retries k (n + 1) t (d'(part := None))
         | Fatal e \<Rightarrow> (d'(part := None), Inl e)
         | Done \<Rightarrow> (d'(dest := d' part, part := None), Inr dest)))"

definition fetch :: "(nat \<Rightarrow> answer) \<Rightarrow> string \<Rightarrow> location \<Rightarrow> nat \<Rightarrow> disk \<Rightarrow> disk \<times> location res" where
  "fetch net url dest retries d = fetch_loop net url dest retries retries 1 ''None'' d"

section \<open>Checksums\<close>

function words :: "string \<Rightarrow> string list" where \<comment> \<open>\<open>str.split()\<close>\<close>
  "words [] = []"
| "words (c # s) =
     (if py_space c then words s
      else (c # takeWhile (\<lambda>x. \<not> py_space x) s) # words (dropWhile (\<lambda>x. \<not> py_space x) s))"
  by pat_completeness auto
termination
  by (relation "measure length") (auto simp: le_imp_less_Suc length_dropWhile_le)

definition parse_checksum :: "string \<Rightarrow> string res" where
  "parse_checksum text =
     (case words text of [] \<Rightarrow> Inl (ValueError ''empty checksum file'') | w # _ \<Rightarrow> Inr (map lower w))"

definition verify_checksum :: "(string \<Rightarrow> string) \<Rightarrow> disk \<Rightarrow> location \<Rightarrow> string \<Rightarrow> unit res" where
  "verify_checksum sha d p expected =
     (case d p of
        None \<Rightarrow> Inl (FileNotFoundError ''No such file or directory'')
      | Some content \<Rightarrow> guard (sha content \<noteq> map lower expected) (ChecksumMismatch ''expected another digest''))"

text \<open>The answer to one request that is read whole: its status and text.\<close>

definition fetch_checksum :: "(string \<Rightarrow> exn + int \<times> string) \<Rightarrow> string \<Rightarrow> string option res" where
  "fetch_checksum get url =
     bnd (get (url @ ''.CHECKSUM'')) (\<lambda>(code, text).
     if code = 404 then Inr None
     else if 400 \<le> code then Inl (DownloadError (http_text code (url @ ''.CHECKSUM'')))
     else bnd (parse_checksum text) (\<lambda>digest. Inr (Some digest)))"

section \<open>The cache\<close>

definition last_segment :: "string \<Rightarrow> string" where \<comment> \<open>\<open>url.rsplit("/", 1)[-1]\<close>\<close>
  "last_segment url = rev (takeWhile (\<lambda>c. c \<noteq> CHR ''/'') (rev url))"

definition cache_file :: "location \<Rightarrow> location option \<Rightarrow> string \<Rightarrow> location" where
  "cache_file cache dest url = (case dest of Some p \<Rightarrow> p | None \<Rightarrow> cache @ [last_segment url])"

definition refetch :: "(string \<Rightarrow> string) \<Rightarrow> (nat \<Rightarrow> answer) \<Rightarrow> string \<Rightarrow> location \<Rightarrow> string option \<Rightarrow> nat \<Rightarrow> disk \<Rightarrow> disk \<times> location res" where
  "refetch sha net url p expected retries d =
     (case fetch net url p retries d of
        (d', Inl e) \<Rightarrow> (d', Inl e)
      | (d', Inr _) \<Rightarrow>
          (case expected of
             None \<Rightarrow> (d', Inr p)
           | Some digest \<Rightarrow>
               (case verify_checksum sha d' p digest of
                  Inr _ \<Rightarrow> (d', Inr p)
                | Inl e \<Rightarrow> (case e of ChecksumMismatch _ \<Rightarrow> (d'(p := None), Inl e) | _ \<Rightarrow> (d', Inl e)))))"

definition cached_fetch ::
  "(string \<Rightarrow> string) \<Rightarrow> (nat \<Rightarrow> answer) \<Rightarrow> location \<Rightarrow> string \<Rightarrow> location option \<Rightarrow> string option \<Rightarrow> nat \<Rightarrow> disk
    \<Rightarrow> disk \<times> location res" where
  "cached_fetch sha net cache url dest expected retries d =
     (let p = cache_file cache dest url in
      case d p of
        None \<Rightarrow> refetch sha net url p expected retries d
      | Some _ \<Rightarrow>
          (case expected of
             None \<Rightarrow> (d, Inr p)
           | Some digest \<Rightarrow>
               (case verify_checksum sha d p digest of
                  Inr _ \<Rightarrow> (d, Inr p)
                | Inl e \<Rightarrow>
                    (case e of
                       ChecksumMismatch _ \<Rightarrow> refetch sha net url p expected retries (d(p := None))
                     | _ \<Rightarrow> (d, Inl e)))))"

section \<open>Reading an archive\<close>

definition name_of :: "location \<Rightarrow> string" where "name_of p = last p"

text \<open>The parts after the first dot of a name that is neither hidden nor ends in one, and the last of them.\<close>

definition name_suffixes :: "string \<Rightarrow> string list" where \<comment> \<open>\<open>Path.suffixes\<close>\<close>
  "name_suffixes n =
     (if n \<noteq> [] \<and> last n = CHR ''.'' then []
      else map (Cons (CHR ''.'')) (tl (split_on (CHR ''.'') (dropWhile (\<lambda>c. c = CHR ''.'') n))))"

definition name_suffix :: "string \<Rightarrow> string" where \<comment> \<open>\<open>Path.suffix\<close>\<close>
  "name_suffix n = (if name_suffixes n = [] then [] else last (name_suffixes n))"

record archive_reader =
  zip_members :: "string \<Rightarrow> string list res" \<comment> \<open>the names in a zip file\<close>
  zip_csv :: "string \<Rightarrow> string \<Rightarrow> frame res" \<comment> \<open>the frame of one member\<close>
  gzip_csv :: "string \<Rightarrow> frame res"
  plain_csv :: "string \<Rightarrow> frame res"

definition is_csv :: "string \<Rightarrow> bool" where
  "is_csv n \<longleftrightarrow> suffix ''.csv'' (map lower n)"

definition extract_csv :: "archive_reader \<Rightarrow> disk \<Rightarrow> location \<Rightarrow> frame res" where
  "extract_csv rd d p =
     (case d p of
        None \<Rightarrow> Inl (FileNotFoundError ''No such file or directory'')
      | Some content \<Rightarrow>
          if map lower (name_suffix (name_of p)) = ''.zip''
          then bnd (zip_members rd content) (\<lambda>names.
                 let members = filter is_csv names in
                 bnd (guard (length members \<noteq> 1) (DownloadError ''expected exactly one CSV'')) (\<lambda>_.
                 zip_csv rd content (hd members)))
          else if ''.gz'' \<in> set (map (map lower) (name_suffixes (name_of p))) then gzip_csv rd content
          else plain_csv rd content)"

section \<open>Whole files only\<close>

text \<open>A body that a server sent to its end with an acceptable status.\<close>

definition whole_body :: "answer \<Rightarrow> string \<Rightarrow> bool" where
  "whole_body a content \<longleftrightarrow>
     (\<exists>code body. a = Reply code body None \<and> code < 400 \<and> content = concat body)"

lemma part_of_neq [simp]: "part_of p \<noteq> p" "p \<noteq> part_of p"
proof -
  have "last (part_of p) = last p @ ''.part''" by (simp add: part_of_def)
  then show "part_of p \<noteq> p" "p \<noteq> part_of p" by (metis append_self_conv list.discI)+
qed

lemma stream_done: "stream_to a url part d = (d', Done) \<Longrightarrow> \<exists>content. whole_body a content \<and> d' = d(part \<mapsto> content)"
  by (cases a) (auto simp: stream_to_def whole_body_def ends_with_def retry_status_def not_le split: if_splits option.splits exn.splits)

lemma stream_other: "q \<noteq> part \<Longrightarrow> fst (stream_to a url part d) q = d q"
  by (auto simp: stream_to_def split: answer.splits)

lemma fetch_loop_disk:
  assumes "fetch_loop net url dest retries k n t d = (d', r)"
  shows "(\<forall>q. q \<notin> {dest, part_of dest} \<longrightarrow> d' q = d q) \<and> d' (part_of dest) \<in> {None, d (part_of dest)}
    \<and> (case r of Inr p \<Rightarrow> p = dest \<and> (\<exists>i content. n \<le> i \<and> i < n + k \<and> whole_body (net i) content \<and> d' dest = Some content)
       | Inl e \<Rightarrow> d' dest = d dest)"
  using assms
proof (induction k arbitrary: n t d)
  case (Suc k)
  let ?part = "part_of dest"
  obtain d1 outcome where s: "stream_to (net n) url ?part d = (d1, outcome)" by (cases "stream_to (net n) url ?part d")
  then have other: "q \<noteq> ?part \<Longrightarrow> d1 q = d q" for q using stream_other [of q ?part "net n" url d] by simp
  show ?case
  proof (cases outcome)
    case Done
    then obtain content where c: "whole_body (net n) content" "d1 = d(?part \<mapsto> content)" using stream_done s by blast
    have "\<exists>i \<ge> n. i < Suc (n + k) \<and> whole_body (net i) content" using c(1) by (intro exI [of _ n]) simp
    then show ?thesis using Suc.prems s Done c(2) by (auto simp: Let_def)
  next
    case (Retry t')
    then have rec: "fetch_loop net url dest retries k (n + 1) t' (d1(?part := None)) = (d', r)"
      using Suc.prems s by (simp add: Let_def)
    have "\<exists>i \<ge> n. i < Suc (n + k) \<and> whole_body (net i) content"
      if "Suc n \<le> i" "i < Suc (n + k)" "whole_body (net i) content" for i content
      using that by (intro exI [of _ i]) simp
    then show ?thesis using Suc.IH [OF rec] other by (cases r) (auto split: if_splits)
  next
    case (Fatal e)
    then show ?thesis using Suc.prems s other by (auto simp: Let_def)
  qed
qed auto

lemma fetch_disk:
  assumes "fetch net url p retries d = (d', r)"
  shows "\<And>q. q \<notin> {p, part_of p} \<Longrightarrow> d' q = d q" and "d' (part_of p) \<in> {None, d (part_of p)}"
    and "r = Inr q \<Longrightarrow> q = p \<and> (\<exists>i content. 1 \<le> i \<and> i \<le> retries \<and> whole_body (net i) content \<and> d' p = Some content)"
    and "r = Inl e \<Longrightarrow> d' p = d p"
  using fetch_loop_disk [OF assms [unfolded fetch_def]] by (auto simp: less_Suc_eq_le)

lemma verify_cases:
  assumes "d p = Some content"
  shows "verify_checksum sha d p digest =
    (if sha content = map lower digest then Inr () else Inl (ChecksumMismatch ''expected another digest''))"
  using assms by (simp add: verify_checksum_def guard_def)

text \<open>What a cached fetch leaves of its own file.\<close>

definition trusted :: "(string \<Rightarrow> string) \<Rightarrow> (nat \<Rightarrow> answer) \<Rightarrow> nat \<Rightarrow> string option \<Rightarrow> string option \<Rightarrow> string \<Rightarrow> bool" where
  "trusted sha net retries expected before content \<longleftrightarrow>
     (\<forall>digest. expected = Some digest \<longrightarrow> sha content = map lower digest)
     \<and> (before = Some content \<or> (\<exists>i. 1 \<le> i \<and> i \<le> retries \<and> whole_body (net i) content))"

lemma refetch_disk:
  assumes "refetch sha net url p expected retries d = (d', r)" and "d p = None"
  shows "(\<forall>q. q \<notin> {p, part_of p} \<longrightarrow> d' q = d q) \<and> d' (part_of p) \<in> {None, d (part_of p)}
    \<and> (case r of Inr q \<Rightarrow> q = p \<and> (\<exists>content. d' p = Some content \<and> trusted sha net retries expected None content)
       | Inl e \<Rightarrow> d' p = None)"
proof -
  obtain d1 r1 where f: "fetch net url p retries d = (d1, r1)" by (cases "fetch net url p retries d")
  note disk = fetch_disk [OF f]
  show ?thesis
  proof (cases r1)
    case (Inl e)
    then show ?thesis using assms f disk by (auto simp: refetch_def)
  next
    case (Inr q)
    obtain i content where c: "1 \<le> i" "i \<le> retries" "whole_body (net i) content" "d1 p = Some content"
      using disk(3) [OF Inr] by blast
    then have t: "trusted sha net retries expected None content"
      if "\<forall>digest. expected = Some digest \<longrightarrow> sha content = map lower digest"
      using that by (auto simp: trusted_def)
    show ?thesis
    proof (cases expected)
      case None
      then show ?thesis using assms(1) f Inr disk(1,2) c(4) t by (auto simp: refetch_def)
    next
      case (Some digest)
      then show ?thesis using assms(1) f Inr disk(1,2) c(4) t
        by (auto simp: refetch_def verify_cases [of d1 p, OF c(4)] split: if_splits)
    qed
  qed
qed

text \<open>C26: Whatever the network does, a cached fetch touches only its own file and that file's partial copy, leaves no new partial copy, and either returns the file, whose content is the earlier copy or the whole body of one of the allowed attempts and has the expected digest, or fails and leaves no file behind.\<close>

theorem cache_holds_whole_files:
  assumes "cached_fetch sha net cache url dest expected retries d = (d', r)" and "p = cache_file cache dest url"
  shows "(\<forall>q. q \<notin> {p, part_of p} \<longrightarrow> d' q = d q) \<and> d' (part_of p) \<in> {None, d (part_of p)}
    \<and> (case r of
         Inr q \<Rightarrow> q = p \<and> (\<exists>content. d' p = Some content
           \<and> (\<forall>digest. expected = Some digest \<longrightarrow> sha content = map lower digest)
           \<and> (d p = Some content \<or> (\<exists>i. 1 \<le> i \<and> i \<le> retries \<and> whole_body (net i) content)))
       | Inl e \<Rightarrow> d' p = None)"
proof (cases "d p")
  case None
  then have "refetch sha net url p expected retries d = (d', r)"
    using assms by (simp add: cached_fetch_def Let_def)
  then show ?thesis using refetch_disk [of sha net url p expected retries d d' r] None by (auto simp: trusted_def split: sum.splits)
next
  case (Some content)
  show ?thesis
  proof (cases "\<exists>digest. expected = Some digest \<and> sha content \<noteq> map lower digest")
    case True
    then have "refetch sha net url p expected retries (d(p := None)) = (d', r)"
      using assms Some by (auto simp: cached_fetch_def Let_def verify_cases)
    then show ?thesis
      using refetch_disk [of sha net url p expected retries "d(p := None)" d' r] by (auto simp: trusted_def split: sum.splits)
  next
    case False
    then have "(d', r) = (d, Inr p)"
      using assms Some by (auto simp: cached_fetch_def Let_def verify_cases split: option.splits)
    then show ?thesis using False Some by auto
  qed
qed

text \<open>A stale cached copy, a connection that breaks, and a second attempt.\<close>

definition flaky :: "nat \<Rightarrow> answer" where
  "flaky n = (if n = 1 then Reply 200 [''ab''] (Some (TransportError ''reset'')) else Reply 200 [''ab'', ''c''] None)"

definition stale_disk :: disk where
  "stale_disk = (\<lambda>_. None)([''cache'', ''x.zip''] \<mapsto> ''ab'')"

definition flaky_run :: "disk \<times> location res" where
  "flaky_run = cached_fetch id flaky [''cache''] ''https://host/x.zip'' None (Some ''ABC'') 3 stale_disk"

theorem cache_holds_whole_files_witness:
  "snd flaky_run = Inr [''cache'', ''x.zip''] \<and> fst flaky_run [''cache'', ''x.zip''] = Some ''abc''
    \<and> fst flaky_run [''cache'', ''x.zip.part''] = None"
proof -
  have r: "snd flaky_run = Inr [''cache'', ''x.zip'']" by code_simp
  have p: "cache_file [''cache''] None ''https://host/x.zip'' = [''cache'', ''x.zip'']"
    "part_of [''cache'', ''x.zip''] = [''cache'', ''x.zip.part'']" "map lower ''ABC'' = ''abc''" by code_simp+
  have "cached_fetch id flaky [''cache''] ''https://host/x.zip'' None (Some ''ABC'') 3 stale_disk = (fst flaky_run, Inr [''cache'', ''x.zip''])"
    using r by (metis flaky_run_def prod.collapse)
  note run = cache_holds_whole_files [OF this p(1) [symmetric]]
  have "fst flaky_run [''cache'', ''x.zip.part''] \<in> {None, stale_disk [''cache'', ''x.zip.part'']}"
    using conjunct1 [OF conjunct2 [OF run]] by (simp only: p)
  then have "fst flaky_run [''cache'', ''x.zip.part''] = None" by (simp add: stale_disk_def)
  moreover have "fst flaky_run [''cache'', ''x.zip''] = Some ''abc''"
    using conjunct2 [OF conjunct2 [OF run]] by (auto simp only: sum.case p option.inject id_apply)
  ultimately show ?thesis using r by simp
qed

end
