(* ===== verification/Book.thy ===== *)
theory Book
  imports Trades Download
begin

text \<open>
  The order-book fetcher (\<open>ingestion/fetch_book.py\<close>): normalising chunks of the incremental feed and
  of the wide reference snapshots, the streaming ingest of a symbol-day with its counts, and the
  download and backfill around it, over the disk of the cache and the store of the datasets. The CSV
  reader, pandas' conversions and the server are parameters.
\<close>

section \<open>Schemas\<close>

definition default_chunksize :: nat where "default_chunksize = 500000"

definition book_dir :: string where "book_dir = ''book''"

definition book_snapshot_dir :: string where "book_snapshot_dir = ''book_snapshot''"

definition storage_dir :: "string \<Rightarrow> string" where
  "storage_dir dataset = (if dataset = incremental_book then book_dir else book_snapshot_dir)"

definition book_columns :: "string list" where
  "book_columns = [''exchange'', ''timestamp'', ''local_timestamp'', ''latency_us'', ''is_snapshot'', ''side'', ''price'', ''quantity'']"

definition snapshot_columns :: "string list" where
  "snapshot_columns = [''exchange'', ''timestamp'', ''local_timestamp'', ''latency_us'', ''side'', ''level'', ''price'', ''quantity'']"

definition source_columns :: "string set" where
  "source_columns = {''exchange'', ''symbol'', ''timestamp'', ''local_timestamp'', ''is_snapshot'', ''side'', ''price'', ''amount''}"

definition snapshot_id_columns :: "string set" where
  "snapshot_id_columns = {''exchange'', ''symbol'', ''timestamp'', ''local_timestamp''}"

definition valid_sides :: "string set" where "valid_sides = {''bid'', ''ask''}"

definition snapshot_chunk_divisor :: nat where "snapshot_chunk_divisor = 50"

text \<open>What the vendor's files are read with: a file in chunks, up to an error that ends the reading.\<close>

record vendor =
  vd_source :: source
  to_numeric :: "column \<Rightarrow> pynum list" \<comment> \<open>\<open>errors="coerce"\<close>\<close>
  csv_chunks :: "string \<Rightarrow> nat \<Rightarrow> frame list \<times> exn option"

section \<open>The incremental feed\<close>

text \<open>Reporting unexpected values sorts them, which a missing value among others does not survive.\<close>

definition unexpected :: "string option set \<Rightarrow> exn \<Rightarrow> exn" where
  "unexpected xs e = (if None \<in> xs \<and> xs \<noteq> {None} then TypeError ''boolean value of NA is ambiguous'' else e)"

definition check_symbol :: "frame \<Rightarrow> string \<Rightarrow> unit res" where
  "check_symbol raw symbol =
     bnd (get_texts raw ''symbol'') (\<lambda>xs.
     let symbols = set (map (map_option strip) xs) in
     guard (symbols \<noteq> {Some symbol}) (unexpected symbols (BookDataError ''wrong file'')))"

definition stamps_of :: "source \<Rightarrow> frame \<Rightarrow> (int list \<times> int list) res" where
  "stamps_of src raw =
     bnd (bnd (get_col raw ''timestamp'') (as_int64 src)) (\<lambda>us.
     bnd (bnd (get_col raw ''local_timestamp'') (as_int64 src)) (\<lambda>local. Inr (us, local)))"

definition check_day :: "int list \<Rightarrow> period \<Rightarrow> unit res" where
  "check_day stamps date =
     guard (list_ex (\<lambda>t. date_of_ms t \<noteq> date_str date) stamps) (BookDataError ''rows from other UTC days'')"

text \<open>A difference of int64 columns wraps.\<close>

definition sub64 :: "int \<Rightarrow> int \<Rightarrow> int" where
  "sub64 a b = (a - b + 2 ^ 63) mod 2 ^ 64 - 2 ^ 63"

definition book_frame ::
  "string option list \<Rightarrow> int list \<Rightarrow> int list \<Rightarrow> bool list \<Rightarrow> string option list \<Rightarrow> pynum list \<Rightarrow> pynum list \<Rightarrow> nat \<Rightarrow> frame" where
  "book_frame exchange us local flags sides prices quantities n =
     \<lparr>nrows = n,
      columns = [(''exchange'', SCol exchange), (''timestamp'', ICol (map (\<lambda>t. t div 1000) us)),
        (''local_timestamp'', ICol (map (\<lambda>t. t div 1000) local)), (''latency_us'', ICol (map2 sub64 local us)),
        (''is_snapshot'', BCol flags), (''side'', SCol sides), (''price'', FCol prices), (''quantity'', FCol quantities)]\<rparr>"

definition normalise_book :: "vendor \<Rightarrow> frame \<Rightarrow> string \<Rightarrow> period \<Rightarrow> frame res" where
  "normalise_book vd raw symbol date =
     bnd (guard (\<not> source_columns \<subseteq> set (col_names raw)) (BookDataError ''vendor schema changed: missing columns'')) (\<lambda>_.
     if frame_empty raw then Inr (book_frame [] [] [] [] [] [] [] 0)
     else
       bnd (check_symbol raw symbol) (\<lambda>_.
       bnd (get_texts raw ''side'') (\<lambda>ss.
       let sides = map (map_option (map lower \<circ> strip)) ss; unknown = set sides - Some ` valid_sides in
       bnd (guard (unknown \<noteq> {}) (unexpected unknown (BookDataError ''unknown side value(s)''))) (\<lambda>_.
       bnd (stamps_of (vd_source vd) raw) (\<lambda>(us, local).
       bnd (get_texts raw ''exchange'') (\<lambda>exchange.
       bnd (bnd (get_col raw ''is_snapshot'') (truths (BookDataError ''unparseable is_snapshot values''))) (\<lambda>flags.
       bnd (bnd (get_col raw ''price'') (as_float64 (vd_source vd))) (\<lambda>prices.
       bnd (bnd (get_col raw ''amount'') (as_float64 (vd_source vd))) (\<lambda>quantities.
       bnd (check_day (map (\<lambda>t. t div 1000) us) date) (\<lambda>_.
       Inr (book_frame (map (map_option strip) exchange) us local flags sides prices quantities (nrows raw))))))))))))"

section \<open>The reference snapshots\<close>

text \<open>\<open>(asks|bids)[N].(price|amount)\<close>: the index of a depth column.\<close>

definition depth_level :: "string \<Rightarrow> int option" where
  "depth_level c =
     (let digits = takeWhile is_digit (drop 5 c) in
      if take 5 c \<in> {''asks['', ''bids[''} \<and> is_digits digits \<and> drop (5 + length digits) c \<in> {''].price'', ''].amount''}
      then Some (digits_val digits) else None)"

definition snapshot_depth :: "string list \<Rightarrow> int list" where
  "snapshot_depth cs = sort (remdups (List.map_filter depth_level cs))"

definition depth_column :: "string \<Rightarrow> int \<Rightarrow> string \<Rightarrow> string" where
  "depth_column pre level what = pre @ ''['' @ int_text level @ '']'' @ what"

record level_row =
  lr_exchange :: "string option"
  lr_time :: int
  lr_local :: int
  lr_latency :: int
  lr_side :: string
  lr_level :: int
  lr_price :: pynum
  lr_quantity :: pynum

definition int16 :: "int \<Rightarrow> int" where \<comment> \<open>\<open>astype("int16")\<close> wraps\<close>
  "int16 i = (i + 32768) mod 65536 - 32768"

text \<open>The images of a chunk that have one level of one side.\<close>

definition level_piece ::
  "(string option \<times> int \<times> int) list \<Rightarrow> string \<Rightarrow> int \<Rightarrow> pynum list \<Rightarrow> pynum list \<Rightarrow> level_row list" where
  "level_piece images side level prices amounts =
     map (\<lambda>((exchange, us, local), price, amount).
            \<lparr>lr_exchange = exchange, lr_time = us div 1000, lr_local = local div 1000, lr_latency = sub64 local us,
             lr_side = side, lr_level = int16 level, lr_price = price, lr_quantity = amount\<rparr>)
       (filter (\<lambda>(_, price, amount). price \<noteq> NaN \<and> amount \<noteq> NaN) (zip images (zip prices amounts)))"

definition piece_of ::
  "vendor \<Rightarrow> frame \<Rightarrow> (string option \<times> int \<times> int) list \<Rightarrow> string \<times> string \<Rightarrow> int \<Rightarrow> level_row list res" where
  "piece_of vd raw images side level =
     bnd (get_col raw (depth_column (snd side) level ''.price'')) (\<lambda>p.
     bnd (get_col raw (depth_column (snd side) level ''.amount'')) (\<lambda>a.
     Inr (level_piece images (fst side) level (to_numeric vd p) (to_numeric vd a))))"

definition snapshot_frame :: "level_row list \<Rightarrow> frame" where
  "snapshot_frame rs =
     \<lparr>nrows = length rs,
      columns = [(''exchange'', SCol (map lr_exchange rs)), (''timestamp'', ICol (map lr_time rs)),
        (''local_timestamp'', ICol (map lr_local rs)), (''latency_us'', ICol (map lr_latency rs)),
        (''side'', SCol (map (\<lambda>r. Some (lr_side r)) rs)), (''level'', ICol (map lr_level rs)),
        (''price'', FCol (map lr_price rs)), (''quantity'', FCol (map lr_quantity rs))]\<rparr>"

text \<open>The order of three keys, by stable sorts from the last to the first.\<close>

definition sort_levels :: "level_row list \<Rightarrow> level_row list" where
  "sort_levels rs = sort_key lr_time (sort_key lr_side (sort_key lr_level rs))"

definition normalise_snapshot :: "vendor \<Rightarrow> frame \<Rightarrow> string \<Rightarrow> period \<Rightarrow> frame res" where
  "normalise_snapshot vd raw symbol date =
     bnd (guard (\<not> snapshot_id_columns \<subseteq> set (col_names raw)) (BookDataError ''vendor schema changed: missing columns'')) (\<lambda>_.
     if frame_empty raw then Inr (snapshot_frame [])
     else
       bnd (check_symbol raw symbol) (\<lambda>_.
       let levels = snapshot_depth (col_names raw) in
       bnd (guard (levels = []) (BookDataError ''not a book_snapshot dataset'')) (\<lambda>_.
       bnd (stamps_of (vd_source vd) raw) (\<lambda>(us, local).
       bnd (get_texts raw ''exchange'') (\<lambda>exchange.
       let images = zip (map (map_option strip) exchange) (zip us local) in
       bnd (map_res (\<lambda>side. map_res (piece_of vd raw images side) levels) [(''ask'', ''asks''), (''bid'', ''bids'')]) (\<lambda>pieces.
       let rows = concat (map concat pieces) in
       if rows = [] then Inr (snapshot_frame [])
       else bnd (check_day (map lr_time rows) date) (\<lambda>_. Inr (snapshot_frame (sort_levels rows)))))))))"

section \<open>Ingest\<close>

record tally =
  t_rows :: nat
  t_chunks :: nat
  t_snapshot :: nat
  t_resyncs :: nat
  t_opening :: nat
  t_removals :: nat
  seen_diff :: bool
  last_snapshot :: bool
  written :: "frame list"

definition no_tally :: tally where
  "no_tally = \<lparr>t_rows = 0, t_chunks = 0, t_snapshot = 0, t_resyncs = 0, t_opening = 0, t_removals = 0,
     seen_diff = False, last_snapshot = True, written = []\<rparr>"

definition trues :: "bool list \<Rightarrow> nat" where "trues bs = length (filter id bs)"

text \<open>Rows that are set and whose predecessor, for the first one \<open>before\<close>, is not.\<close>

definition rises :: "bool \<Rightarrow> bool list \<Rightarrow> nat" where
  "rises before bs = length (filter (\<lambda>(a, b). b \<and> \<not> a) (zip (before # bs) bs))"

definition zeros :: "pynum list \<Rightarrow> nat" where
  "zeros qs = length (filter (\<lambda>q. feq q (Fin 0)) qs)"

definition count_image :: "tally \<Rightarrow> frame \<Rightarrow> tally" where
  "count_image t f =
     t\<lparr>t_rows := t_rows t + nrows f, t_chunks := t_chunks t + 1, t_snapshot := t_snapshot t + nrows f,
       t_opening := t_opening t + nrows f, written := written t @ [f]\<rparr>"

definition count_diff :: "tally \<Rightarrow> frame \<Rightarrow> tally res" where
  "count_diff t f =
     bnd (get_bools f ''is_snapshot'') (\<lambda>flags.
     bnd (guard (t_chunks t = 0 \<and> \<not> hd flags) (BookDataError ''file does not open with an is_snapshot block'')) (\<lambda>_.
     bnd (get_nums f ''quantity'') (\<lambda>qs.
     Inr (t\<lparr>t_rows := t_rows t + nrows f, t_chunks := t_chunks t + 1, t_snapshot := t_snapshot t + trues flags,
       t_resyncs := t_resyncs t + rises (last_snapshot t) flags,
       t_opening := t_opening t + (if seen_diff t then 0 else length (takeWhile id flags)),
       t_removals := t_removals t + zeros qs, seen_diff := seen_diff t \<or> \<not> list_all id flags,
       last_snapshot := last flags, written := written t @ [f]\<rparr>))))"

definition ingest_chunk :: "vendor \<Rightarrow> string \<Rightarrow> string \<Rightarrow> int \<Rightarrow> tally \<Rightarrow> frame \<Rightarrow> tally res" where
  "ingest_chunk vd dataset symbol date t chunk =
     (if dataset = incremental_book
      then bnd (normalise_book vd chunk symbol (OnDate date)) (\<lambda>f. if frame_empty f then Inr t else count_diff t f)
      else bnd (normalise_snapshot vd chunk symbol (OnDate date)) (\<lambda>f. if frame_empty f then Inr t else Inr (count_image t f)))"

record ingest_report =
  rp_symbol :: string
  rp_date :: string
  rp_dataset :: string
  rp_rows :: nat
  rp_chunks :: nat
  rp_snapshot :: nat
  rp_resyncs :: nat
  rp_resync_rows :: int
  rp_removals :: nat
  rp_path :: path

definition book_partition :: "string \<Rightarrow> string \<Rightarrow> period \<Rightarrow> path" where
  "book_partition dataset symbol date = partition_path (storage_dir dataset) symbol (date_str date)"

fun col_append :: "column \<Rightarrow> column \<Rightarrow> column" where \<comment> \<open>row groups of one schema\<close>
  "col_append (ICol xs) (ICol ys) = ICol (xs @ ys)"
| "col_append (FCol xs) (FCol ys) = FCol (xs @ ys)"
| "col_append (SCol xs) (SCol ys) = SCol (xs @ ys)"
| "col_append (BCol xs) (BCol ys) = BCol (xs @ ys)"
| "col_append c _ = c"

definition frame_append :: "frame \<Rightarrow> frame \<Rightarrow> frame" where
  "frame_append f g =
     \<lparr>nrows = nrows f + nrows g, columns = map2 (\<lambda>(k, c) (_, c'). (k, col_append c c')) (columns f) (columns g)\<rparr>"

definition row_groups :: "frame list \<Rightarrow> frame" where
  "row_groups fs = foldl frame_append (hd fs) (tl fs)"

definition chunk_size :: "string \<Rightarrow> nat \<Rightarrow> nat" where
  "chunk_size dataset n = (if dataset = incremental_book then n else max 1 (n div snapshot_chunk_divisor))"

text \<open>The whole file: all chunks, then the error the reading ended with.\<close>

definition read_all :: "vendor \<Rightarrow> string \<Rightarrow> string \<Rightarrow> string \<Rightarrow> int \<Rightarrow> nat \<Rightarrow> tally res" where
  "read_all vd content dataset symbol date n =
     (case csv_chunks vd content (chunk_size dataset n) of (chunks, failure) \<Rightarrow>
        bnd (fold_res (ingest_chunk vd dataset symbol date) no_tally chunks) (\<lambda>t.
        case failure of None \<Rightarrow> Inr t | Some e \<Rightarrow> Inl e))"

definition ingest :: "vendor \<Rightarrow> string res \<Rightarrow> string \<Rightarrow> int \<Rightarrow> string \<Rightarrow> nat \<Rightarrow> store \<Rightarrow> store \<times> ingest_report res" where
  "ingest vd content symbol date dataset n st =
     (if dataset \<notin> set tardis_datasets then (st, Inl (ValueError ''unknown dataset''))
      else
        let p = book_partition dataset symbol (OnDate date); gone = st(p := None) in
        case bnd content (\<lambda>c. read_all vd c dataset symbol date n) of
          Inl e \<Rightarrow> (gone, Inl e)
        | Inr t \<Rightarrow>
            if t_rows t = 0 then (gone, Inl (BookDataError ''no rows''))
            else (gone(p \<mapsto> row_groups (written t)),
              Inr \<lparr>rp_symbol = symbol, rp_date = iso_text date, rp_dataset = dataset, rp_rows = t_rows t,
                rp_chunks = t_chunks t, rp_snapshot = t_snapshot t, rp_resyncs = t_resyncs t,
                rp_resync_rows = int (t_snapshot t) - int (t_opening t), rp_removals = t_removals t,
                rp_path = p @ [''part-0.parquet'']\<rparr>))"

section \<open>Download and backfill\<close>

definition cache_path :: "location \<Rightarrow> string \<Rightarrow> string \<Rightarrow> int \<Rightarrow> location" where
  "cache_path cache dataset symbol date = cache @ [''tardis'', dataset, symbol, iso_text date @ ''.csv.gz'']"

text \<open>The hash is not used: the vendor publishes no checksums. The free tier answers 401 beyond its days.\<close>

definition tier_error :: "exn \<Rightarrow> exn" where
  "tier_error e =
     (case e of DownloadError t \<Rightarrow> if sublist ''401'' t then FreeTierError ''returned 401'' else e | _ \<Rightarrow> e)"

record server =
  sv_vendor :: vendor
  sv_answers :: "string \<Rightarrow> nat \<Rightarrow> answer" \<comment> \<open>to each attempt at a URL\<close>
  sv_cache :: location

type_synonym world = "disk \<times> store"

definition download :: "server \<Rightarrow> string \<Rightarrow> int \<Rightarrow> string \<Rightarrow> disk \<Rightarrow> disk \<times> location res" where
  "download sv symbol date dataset d =
     (case dataset_url dataset symbol date tardis_exchange of
        Inl e \<Rightarrow> (d, Inl e)
      | Inr url \<Rightarrow>
          (case cached_fetch id (sv_answers sv url) (sv_cache sv) url (Some (cache_path (sv_cache sv) dataset symbol date))
                  None default_retries d of
             (d', Inl e) \<Rightarrow> (d', Inl (tier_error e))
           | (d', Inr p) \<Rightarrow> (d', Inr p)))"

fun fetch_book_day :: "server \<Rightarrow> string \<Rightarrow> int \<Rightarrow> nat \<Rightarrow> string list \<Rightarrow> world \<Rightarrow> world \<times> ingest_report list res" where
  "fetch_book_day sv symbol date n [] w = (w, Inr [])"
| "fetch_book_day sv symbol date n (dataset # datasets) (d, st) =
     (case download sv symbol date dataset d of
        (d', Inl e) \<Rightarrow> ((d', st), Inl e)
      | (d', Inr p) \<Rightarrow>
          (case ingest (sv_vendor sv) (case d' p of Some c \<Rightarrow> Inr c | None \<Rightarrow> Inl (FileNotFoundError ''No such file or directory''))
                  symbol date dataset n st of
             (st', Inl e) \<Rightarrow> ((d', st'), Inl e)
           | (st', Inr report) \<Rightarrow>
               (case fetch_book_day sv symbol date n datasets (d', st') of
                  (w, Inl e) \<Rightarrow> (w, Inl e)
                | (w, Inr reports) \<Rightarrow> (w, Inr (report # reports)))))"

fun backfill_book_days ::
  "server \<Rightarrow> string \<Rightarrow> nat \<Rightarrow> string list \<Rightarrow> bool \<Rightarrow> int list \<Rightarrow> world \<Rightarrow> world \<times> (ingest_report list \<times> int list) res" where
  "backfill_book_days sv symbol n datasets allow_missing [] w = (w, Inr ([], []))"
| "backfill_book_days sv symbol n datasets allow_missing (day # days) w =
     (case fetch_book_day sv symbol day n datasets w of
        (w', Inl e) \<Rightarrow>
          if is_download_error e \<and> allow_missing
          then (case backfill_book_days sv symbol n datasets allow_missing days w' of
                  (w2, Inl e) \<Rightarrow> (w2, Inl e)
                | (w2, Inr (reports, skipped)) \<Rightarrow> (w2, Inr (reports, day # skipped)))
          else (w', Inl e)
      | (w', Inr rs) \<Rightarrow>
          (case backfill_book_days sv symbol n datasets allow_missing days w' of
             (w2, Inl e) \<Rightarrow> (w2, Inl e)
           | (w2, Inr (reports, skipped)) \<Rightarrow> (w2, Inr (rs @ reports, skipped))))"

definition backfill_book ::
  "server \<Rightarrow> string \<Rightarrow> int \<Rightarrow> int \<Rightarrow> nat \<Rightarrow> string list \<Rightarrow> bool \<Rightarrow> world \<Rightarrow> world \<times> (ingest_report list \<times> int list) res" where
  "backfill_book sv symbol start stop n datasets allow_missing w =
     (case free_tier_days start stop of
        Inl e \<Rightarrow> (w, Inl e)
      | Inr days \<Rightarrow> backfill_book_days sv symbol n datasets allow_missing days w)"

end
