(* ===== verification/Corpus.thy ===== *)
theory Corpus
  imports Funding Book
begin

text \<open>
  What the corpus validator (\<open>ingestion/validate_data.py\<close>) reads and reports: check results, the
  allowlist of acknowledged gaps, the report, and the read-only view of the stored datasets as a
  directory tree. The frame that \<open>read_parquet\<close> returns for a directory is part of the tree. Details
  of results are recorded by their constant part.
\<close>

section \<open>Check results\<close>

record check_result =
  cr_check :: string
  cr_dataset :: string
  cr_symbol :: "string option"
  cr_date :: "string option"
  cr_passed :: bool
  cr_detail :: string
  cr_skipped :: bool
  cr_allowlisted :: bool

definition counts_as_failure :: "check_result \<Rightarrow> bool" where
  "counts_as_failure r \<longleftrightarrow> \<not> cr_passed r \<and> \<not> cr_skipped r \<and> \<not> cr_allowlisted r"

definition json_text :: "string option \<Rightarrow> json" where
  "json_text t = (case t of Some s \<Rightarrow> JStr s | None \<Rightarrow> JNull)"

definition result_json :: "check_result \<Rightarrow> json" where
  "result_json r =
     JDict [(''check'', JStr (cr_check r)), (''dataset'', JStr (cr_dataset r)), (''symbol'', json_text (cr_symbol r)),
       (''date'', json_text (cr_date r)), (''passed'', JBool (cr_passed r)), (''detail'', JStr (cr_detail r)),
       (''skipped'', JBool (cr_skipped r)), (''allowlisted'', JBool (cr_allowlisted r))]"

definition verdict :: "string \<Rightarrow> string \<Rightarrow> string option \<Rightarrow> string option \<Rightarrow> bool \<Rightarrow> string \<Rightarrow> check_result" where
  "verdict check dataset symbol date passed detail =
     \<lparr>cr_check = check, cr_dataset = dataset, cr_symbol = symbol, cr_date = date, cr_passed = passed,
      cr_detail = detail, cr_skipped = False, cr_allowlisted = False\<rparr>"

definition ok_or :: "bool \<Rightarrow> string \<Rightarrow> string" where
  "ok_or passed detail = (if passed then ''ok'' else detail)"

definition not_run :: "string \<Rightarrow> string \<Rightarrow> string \<Rightarrow> check_result" where
  "not_run check dataset detail =
     \<lparr>cr_check = check, cr_dataset = dataset, cr_symbol = None, cr_date = None, cr_passed = True,
      cr_detail = detail, cr_skipped = True, cr_allowlisted = False\<rparr>"

section \<open>Acknowledged gaps\<close>

text \<open>The dataclass checks no types: an entry holds what the TOML document held.\<close>

record allowlist_entry =
  al_dataset :: json
  al_symbol :: json
  al_reason :: json
  al_acknowledged :: json
  al_check :: "json option"
  al_start :: "json option"
  al_end :: "json option"

text \<open>Comparing a date text with a bound; a bound that is not text cannot be compared.\<close>

definition text_bound :: "json \<Rightarrow> string res" where
  "text_bound v = (case v of JStr s \<Rightarrow> Inr s | _ \<Rightarrow> Inl (TypeError ''not supported between instances''))"

definition in_period :: "allowlist_entry \<Rightarrow> string \<Rightarrow> bool res" where
  "in_period e date =
     bnd (case al_start e of None \<Rightarrow> Inr False | Some v \<Rightarrow> bnd (text_bound v) (\<lambda>s. Inr (date < s))) (\<lambda>before.
     if before then Inr False
     else bnd (case al_end e of None \<Rightarrow> Inr False | Some v \<Rightarrow> bnd (text_bound v) (\<lambda>s. Inr (s < date))) (\<lambda>after.
     Inr (\<not> after)))"

definition matches :: "allowlist_entry \<Rightarrow> check_result \<Rightarrow> bool res" where
  "matches e r =
     (if al_dataset e \<noteq> JStr (cr_dataset r) then Inr False
      else if al_symbol e \<noteq> json_text (cr_symbol r) then Inr False
      else if (case al_check e of None \<Rightarrow> False | Some c \<Rightarrow> c \<noteq> JStr (cr_check r)) then Inr False
      else if al_start e = None \<and> al_end e = None then Inr True
      else (case cr_date r of None \<Rightarrow> Inr False | Some d \<Rightarrow> in_period e d))"

definition entry_fields :: "string list" where
  "entry_fields = [''dataset'', ''symbol'', ''reason'', ''acknowledged'', ''check'', ''start'', ''end'']"

definition allowlist_missing :: exn where
  "allowlist_missing = ValidationError ''allowlist entry missing fields''"

fun load_gap :: "json \<Rightarrow> allowlist_entry res" where
  "load_gap (JDict d) =
     (if \<not> set (take 4 entry_fields) \<subseteq> set (map fst d) then Inl allowlist_missing
      else if \<not> set (map fst d) \<subseteq> set entry_fields then Inl (TypeError ''unexpected keyword argument'')
      else Inr \<lparr>al_dataset = the (map_of d ''dataset''), al_symbol = the (map_of d ''symbol''),
             al_reason = the (map_of d ''reason''), al_acknowledged = the (map_of d ''acknowledged''),
             al_check = map_of d ''check'', al_start = map_of d ''start'', al_end = map_of d ''end''\<rparr>)"
| "load_gap (JStr s) = Inl allowlist_missing" \<comment> \<open>a set of characters\<close>
| "load_gap (JList xs) =
     (if list_ex (\<lambda>x. case x of JList _ \<Rightarrow> True | JDict _ \<Rightarrow> True | _ \<Rightarrow> False) xs then Inl (TypeError ''unhashable type'')
      else if \<not> set (map JStr (take 4 entry_fields)) \<subseteq> set xs then Inl allowlist_missing
      else Inl (TypeError ''argument after ** must be a mapping''))"
| "load_gap _ = Inl (TypeError ''object is not iterable'')"

definition load_allowlist :: "(string \<times> json) list option \<Rightarrow> allowlist_entry list res" where
  \<comment> \<open>the parsed document; none when the file is missing\<close>
  "load_allowlist payload =
     (case payload of None \<Rightarrow> Inr []
      | Some d \<Rightarrow>
          (case map_of d ''gap'' of
             None \<Rightarrow> Inr []
           | Some (JList raws) \<Rightarrow> map_res load_gap raws
           | Some (JStr s) \<Rightarrow> if s = [] then Inr [] else Inl allowlist_missing
           | Some (JDict t) \<Rightarrow> if t = [] then Inr [] else Inl allowlist_missing
           | Some _ \<Rightarrow> Inl (TypeError ''object is not iterable'')))"

section \<open>The report\<close>

type_synonym report = "check_result list"

definition failures :: "report \<Rightarrow> check_result list" where
  "failures rs = filter counts_as_failure rs"

definition report_ok :: "report \<Rightarrow> bool" where
  "report_ok rs \<longleftrightarrow> failures rs = []"

definition report_json :: "report \<Rightarrow> json" where
  "report_json rs =
     JDict [(''ok'', JBool (report_ok rs)), (''checked'', JInt (int (length rs))),
       (''failed'', JInt (int (length (failures rs)))),
       (''allowlisted'', JInt (int (length (filter cr_allowlisted rs)))),
       (''skipped'', JInt (int (length (filter cr_skipped rs)))), (''results'', JList (map result_json rs))]"

text \<open>The lines of \<open>summary()\<close>; the scope names the parts a result has.\<close>

definition present_text :: "string option \<Rightarrow> string list" where
  "present_text t = (case t of Some s \<Rightarrow> if s = [] then [] else [s] | None \<Rightarrow> [])"

fun dotted :: "string list \<Rightarrow> string" where
  "dotted [] = []"
| "dotted [s] = s"
| "dotted (s # ss) = s @ ''.'' @ dotted ss"

definition scope_text :: "check_result \<Rightarrow> string" where
  "scope_text r = dotted (present_text (Some (cr_dataset r)) @ present_text (cr_symbol r) @ present_text (cr_date r))"

definition count_text :: "'a list \<Rightarrow> string" where
  "count_text xs = nat_text (length xs)"

definition summary_lines :: "report \<Rightarrow> string list" where
  "summary_lines rs =
     [(if report_ok rs then ''PASS'' else ''FAIL'') @ '': '' @ count_text rs @ '' check(s), ''
        @ count_text (failures rs) @ '' failed, '' @ count_text (filter cr_allowlisted rs) @ '' allowlisted, ''
        @ count_text (filter cr_skipped rs) @ '' skipped'']
     @ map (\<lambda>r. ''  FAIL '' @ cr_check r @ '' ['' @ scope_text r @ '']: '' @ cr_detail r) (failures rs)
     @ map (\<lambda>r. ''  allowed '' @ cr_check r @ '' ['' @ scope_text r @ '']: '' @ cr_detail r) (filter cr_allowlisted rs)
     @ map (\<lambda>r. ''  skipped '' @ cr_check r @ '': '' @ cr_detail r) (filter cr_skipped rs)"

section \<open>The stored corpus\<close>

text \<open>A directory has children and the content that \<open>read_parquet\<close> gives for it.\<close>

datatype node = NFile | NDir "(string \<times> node) list" "frame res"

fun is_dir :: "node \<Rightarrow> bool" where
  "is_dir (NDir _ _) = True"
| "is_dir NFile = False"

fun child :: "node \<Rightarrow> string \<Rightarrow> node option" where
  "child (NDir cs _) k = map_of cs k"
| "child NFile k = None"

fun child_names :: "string \<Rightarrow> node \<Rightarrow> string list" where \<comment> \<open>directories \<open>key=value\<close>, by value\<close>
  "child_names key (NDir cs _) =
     sort (map (\<lambda>(n, _). drop (length key + 1) n) (filter (\<lambda>(n, c). is_dir c \<and> prefix (key @ ''='') n) cs))"
| "child_names key NFile = []"

definition dataset_dirs :: "string list" where
  "dataset_dirs = [trades_dir, funding_dir, book_dir, book_snapshot_dir]"

definition expected_venue :: string where "expected_venue = tardis_exchange"

definition corpus_symbols :: "node \<Rightarrow> string \<Rightarrow> string list" where
  "corpus_symbols base dataset =
     (case child base dataset of Some d \<Rightarrow> child_names ''symbol'' d | None \<Rightarrow> [])"

definition symbol_dir :: "node \<Rightarrow> string \<Rightarrow> string \<Rightarrow> node option" where
  "symbol_dir base dataset symbol =
     (case child base dataset of Some d \<Rightarrow> child d (hive_segment ''symbol'' symbol) | None \<Rightarrow> None)"

definition corpus_dates :: "node \<Rightarrow> string \<Rightarrow> string \<Rightarrow> string list" where
  "corpus_dates base dataset symbol =
     (case symbol_dir base dataset symbol of Some d \<Rightarrow> child_names ''date'' d | None \<Rightarrow> [])"

definition restore_key :: "string \<Rightarrow> string \<Rightarrow> frame \<Rightarrow> frame" where
  "restore_key k v f =
     (if k \<in> set (col_names f) then f else set_col k (SCol (replicate (nrows f) (Some v))) f)"

definition corpus_read :: "node \<Rightarrow> string \<Rightarrow> string \<Rightarrow> string \<Rightarrow> frame res" where
  "corpus_read base dataset symbol date =
     (case symbol_dir base dataset symbol of
        None \<Rightarrow> Inl (ValidationError ''no partition'')
      | Some d \<Rightarrow>
          (case child d (hive_segment ''date'' date) of
             Some (NDir _ content) \<Rightarrow>
               bnd content (\<lambda>f. Inr (restore_key ''date'' date (restore_key ''symbol'' symbol f)))
           | _ \<Rightarrow> Inl (ValidationError ''no partition'')))"

definition partitions :: "node \<Rightarrow> string \<Rightarrow> (string \<times> string) list" where
  "partitions base dataset =
     concat (map (\<lambda>symbol. map (Pair symbol) (corpus_dates base dataset symbol)) (corpus_symbols base dataset))"

lemma restore_key_ok: "frame_ok f \<Longrightarrow> frame_ok (restore_key k v f)"
  by (simp add: restore_key_def set_col_ok)

lemma restore_key_rows [simp]: "nrows (restore_key k v f) = nrows f"
  by (simp add: restore_key_def set_col_def)

end
