(* ===== verification/ValidateData.thy ===== *)
theory ValidateData
  imports Corpus
begin

text \<open>
  The corpus validator's checks and driver (\<open>ingestion/validate_data.py\<close>): each check lists its results
  in the order the generator yields them, and \<open>validate\<close> runs the selected checks and folds the
  allowlist over their failures. The archive cache, published checksums and klines are parameters.
\<close>

record config =
  cf_start :: "int option"
  cf_end :: "int option"
  verify_checksums :: bool
  reconcile_volume :: bool
  liquid_symbols :: "string list"

definition default_config :: config where
  "default_config =
     \<lparr>cf_start = None, cf_end = None, verify_checksums = False, reconcile_volume = False, liquid_symbols = []\<rparr>"

text \<open>The network and the archive cache: names and digests of the cached archives.\<close>

record checker =
  ck_source :: source
  cached_archives :: "(string \<times> string) list"

definition over_partitions ::
  "node \<Rightarrow> string \<Rightarrow> (string \<Rightarrow> string \<Rightarrow> frame \<Rightarrow> check_result list res) \<Rightarrow> check_result list res" where
  "over_partitions base dataset g =
     bnd (map_res (\<lambda>(symbol, date). bnd (corpus_read base dataset symbol date) (g symbol date)) (partitions base dataset))
       (\<lambda>rs. Inr (concat rs))"

definition over :: "'a list \<Rightarrow> ('a \<Rightarrow> check_result list res) \<Rightarrow> check_result list res" where
  "over xs g = bnd (map_res g xs) (\<lambda>rs. Inr (concat rs))"

section \<open>Integrity\<close>

definition expected_columns :: "string \<Rightarrow> string set" where
  "expected_columns dataset =
     (if dataset = trades_dir then set trade_columns else if dataset = funding_dir then set funding_columns
      else if dataset = book_dir then set book_columns else set snapshot_columns) \<union> {''symbol'', ''date''}"

definition check_schema :: "node \<Rightarrow> check_result list res" where
  "check_schema base = over dataset_dirs (\<lambda>dataset. over_partitions base dataset (\<lambda>symbol date f.
     let passed = (expected_columns dataset \<subseteq> set (col_names f)) in
     Inr [verdict ''schema'' dataset (Some symbol) (Some date) passed (ok_or passed ''missing columns'')]))"

definition check_archive :: "checker \<Rightarrow> string \<times> string \<Rightarrow> check_result list res" where
  "check_archive ck archive =
     (case url_for_filename (fst archive) of
        None \<Rightarrow> Inr [verdict ''archive_checksums'' trades_dir None None False ''cannot reconstruct its source URL'']
      | Some url \<Rightarrow> bnd (checksum_at (ck_source ck) url) (\<lambda>expected.
          case expected of
            None \<Rightarrow> Inr [not_run ''archive_checksums'' trades_dir ''no .CHECKSUM published'']
          | Some digest \<Rightarrow>
              let passed = (snd archive = digest) in
              Inr [verdict ''archive_checksums'' trades_dir None None passed (ok_or passed ''digest differs'')]))"

definition check_archive_checksums :: "checker \<Rightarrow> config \<Rightarrow> check_result list res" where
  "check_archive_checksums ck cfg =
     (if \<not> verify_checksums cfg then Inr [not_run ''archive_checksums'' trades_dir ''not run (needs network)'']
      else over (sort_key fst (cached_archives ck)) (check_archive ck))"

section \<open>Completeness\<close>

definition parse_day :: "string \<Rightarrow> int res" where
  "parse_day s = (case iso_date s of Some d \<Rightarrow> Inr d | None \<Rightarrow> Inl (ValueError ''Invalid isoformat string''))"

definition dates_between :: "int \<Rightarrow> int \<Rightarrow> string list" where
  "dates_between start stop = map iso_text [start .. stop]"

definition expected_days :: "string \<Rightarrow> int \<Rightarrow> int \<Rightarrow> string list res" where
  "expected_days dataset start stop =
     (if dataset \<in> {book_dir, book_snapshot_dir}
      then bnd (free_tier_days start stop) (\<lambda>days. Inr (map iso_text days))
      else Inr (dates_between start stop))"

definition range_start :: "config \<Rightarrow> string list \<Rightarrow> int res" where
  "range_start cfg present = (case cf_start cfg of Some d \<Rightarrow> Inr d | None \<Rightarrow> parse_day (hd present))"

definition range_end :: "config \<Rightarrow> string list \<Rightarrow> int res" where
  "range_end cfg present = (case cf_end cfg of Some d \<Rightarrow> Inr d | None \<Rightarrow> parse_day (last present))"

definition symbol_coverage :: "config \<Rightarrow> string \<Rightarrow> string \<Rightarrow> string list \<Rightarrow> check_result list res" where
  "symbol_coverage cfg dataset symbol present =
     (if present = [] then Inr []
      else bnd (range_start cfg present) (\<lambda>start.
           bnd (range_end cfg present) (\<lambda>stop.
           bnd (expected_days dataset start stop) (\<lambda>expected.
           let missing = sort (remdups (filter (\<lambda>d. d \<notin> set present) expected)) in
           Inr (map (\<lambda>date. verdict ''date_coverage'' dataset (Some symbol) (Some date) False ''no partition'') missing
                @ (if missing = [] then [verdict ''date_coverage'' dataset (Some symbol) None True ''date(s)''] else []))))))"

definition check_date_coverage :: "node \<Rightarrow> config \<Rightarrow> check_result list res" where
  "check_date_coverage base cfg = over dataset_dirs (\<lambda>dataset. over (corpus_symbols base dataset) (\<lambda>symbol.
     symbol_coverage cfg dataset symbol (corpus_dates base dataset symbol)))"

definition settlements_per_day :: "int \<Rightarrow> int res" where \<comment> \<open>\<open>24 // int(h)\<close>\<close>
  "settlements_per_day h = (if h = 0 then Inl ZeroDivisionError else Inr (24 div h))"

definition check_funding_settlement_count :: "node \<Rightarrow> check_result list res" where
  "check_funding_settlement_count base = over_partitions base funding_dir (\<lambda>symbol date f.
     if frame_empty f then Inr []
     else bnd (get_ints f ''funding_interval_hours'') (\<lambda>hours.
          let intervals = remdups hours in
          bnd (map_res settlements_per_day intervals) (\<lambda>counts.
          let expected = sum_list counts div max (int (length intervals)) 1 in
          if 1 < length intervals
          then Inr [verdict ''funding_settlement_count'' funding_dir (Some symbol) (Some date) (0 < nrows f) ''mixed intervals'']
          else let passed = (int (nrows f) = expected) in
               Inr [verdict ''funding_settlement_count'' funding_dir (Some symbol) (Some date) passed
                      (ok_or passed ''settlement(s), expected'')])))"

text \<open>One day's ids, and the jump from the last id of the previous nonempty day.\<close>

definition day_continuity :: "string \<Rightarrow> string \<Rightarrow> int list \<Rightarrow> int option \<Rightarrow> check_result list" where
  "day_continuity symbol date ids previous =
     (let (skips, losses) = classify_gaps (breaks ids) in
      verdict ''trade_id_continuity'' trades_dir (Some symbol) (Some date) (losses = [])
        (if losses \<noteq> [] then ''gap(s) larger'' else if skips \<noteq> [] then ''venue id-skip(s)'' else ''ok'')
      # (case previous of
           None \<Rightarrow> []
         | Some l \<Rightarrow>
             if max_id_skip < hd ids - l - 1
             then [verdict ''trade_id_continuity'' trades_dir (Some symbol) (Some date) False ''boundary gap''] else []))"

fun scan_continuity :: "node \<Rightarrow> string \<Rightarrow> int option \<Rightarrow> string list \<Rightarrow> check_result list res" where
  "scan_continuity base symbol previous [] = Inr []"
| "scan_continuity base symbol previous (date # dates) =
     bnd (bnd (corpus_read base trades_dir symbol date) (sort_rows ''trade_id'')) (\<lambda>f.
     if frame_empty f then scan_continuity base symbol previous dates
     else bnd (get_ints f ''trade_id'') (\<lambda>ids.
          bnd (scan_continuity base symbol (Some (last ids)) dates) (\<lambda>rest.
          Inr (day_continuity symbol date ids previous @ rest))))"

definition check_trade_id_continuity :: "node \<Rightarrow> check_result list res" where
  "check_trade_id_continuity base = over (corpus_symbols base trades_dir) (\<lambda>symbol.
     scan_continuity base symbol None (corpus_dates base trades_dir symbol))"

section \<open>Consistency\<close>

text \<open>The ids of one day against the day each id was last seen on: the collisions, and the new record.\<close>

fun scan_ids :: "string \<Rightarrow> int list \<Rightarrow> (int \<Rightarrow> string option) \<Rightarrow> string list \<times> (int \<Rightarrow> string option)" where
  "scan_ids date [] seen = ([], seen)"
| "scan_ids date (i # ids) seen =
     (case scan_ids date ids (seen(i \<mapsto> date)) of (collisions, seen') \<Rightarrow>
        ((if (case seen i of Some d \<Rightarrow> d \<noteq> date | None \<Rightarrow> False) then [''trade_id in both''] else []) @ collisions, seen'))"

fun scan_duplicates :: "node \<Rightarrow> string \<Rightarrow> string list \<Rightarrow> (int \<Rightarrow> string option) \<Rightarrow> string list res" where
  "scan_duplicates base symbol [] seen = Inr []"
| "scan_duplicates base symbol (date # dates) seen =
     bnd (corpus_read base trades_dir symbol date) (\<lambda>f.
     bnd (duplicate_trade_ids f) (\<lambda>dups.
     bnd (get_ints f ''trade_id'') (\<lambda>ids.
     let (collisions, seen') = scan_ids date ids seen in
     bnd (scan_duplicates base symbol dates seen') (\<lambda>rest.
     Inr ((if dups \<noteq> [] then [''within-day duplicate(s)''] else []) @ collisions @ rest)))))"

definition check_duplicate_trade_ids :: "node \<Rightarrow> check_result list res" where
  "check_duplicate_trade_ids base = over (corpus_symbols base trades_dir) (\<lambda>symbol.
     bnd (scan_duplicates base symbol (corpus_dates base trades_dir symbol) (\<lambda>_. None)) (\<lambda>collisions.
     let passed = (collisions = []) in
     Inr [verdict ''duplicate_trade_ids'' trades_dir (Some symbol) None passed (ok_or passed ''collisions'')]))"

definition timestamp_column :: "string \<Rightarrow> string" where
  "timestamp_column dataset = (if dataset = funding_dir then ''funding_time'' else ''timestamp'')"

definition monotonic :: "pynum list \<Rightarrow> bool" where \<comment> \<open>\<open>is_monotonic_increasing\<close>: false with a NaN\<close>
  "monotonic xs \<longleftrightarrow> NaN \<notin> set xs \<and> sorted_wrt fle xs"

definition check_timestamp_monotonic :: "node \<Rightarrow> check_result list res" where
  "check_timestamp_monotonic base = over dataset_dirs (\<lambda>dataset. over_partitions base dataset (\<lambda>symbol date f.
     if frame_empty f then Inr []
     else bnd (if dataset = trades_dir then sort_rows ''trade_id'' f else Inr f) (\<lambda>g.
          bnd (get_nums g (timestamp_column dataset)) (\<lambda>series.
          let passed = monotonic series in
          Inr [verdict ''timestamp_monotonic'' dataset (Some symbol) (Some date) passed (ok_or passed ''backward step(s)'')]))))"

definition check_volume_reconciliation :: "checker \<Rightarrow> node \<Rightarrow> config \<Rightarrow> check_result list res" where
  "check_volume_reconciliation ck base cfg =
     (if \<not> reconcile_volume cfg then Inr [not_run ''volume_reconciliation'' trades_dir ''not run (needs network)'']
      else over_partitions base trades_dir (\<lambda>symbol date f.
        bnd (total_quantity f) (\<lambda>traded.
        bnd (klines_volume (ck_source ck) symbol (AsText date)) (\<lambda>expected.
        let passed = feq traded expected in
        Inr [verdict ''volume_reconciliation'' trades_dir (Some symbol) (Some date) passed (ok_or passed ''trades != klines'')]))))"

text \<open>The days of one dataset against the trades of the symbol: shared by the funding and the book checks.\<close>

definition within_trades :: "node \<Rightarrow> string \<Rightarrow> string \<Rightarrow> string \<Rightarrow> check_result list" where
  "within_trades base check dataset symbol =
     (let trade_dates = corpus_dates base trades_dir symbol in
      if trade_dates = [] then [verdict check dataset (Some symbol) None False ''no trades at all'']
      else let outside = filter (\<lambda>d. d < hd trade_dates \<or> last trade_dates < d) (corpus_dates base dataset symbol) in
           map (\<lambda>date. verdict check dataset (Some symbol) (Some date) False ''outside trades window'') outside
           @ (if outside = [] then [verdict check dataset (Some symbol) None True ''within''] else []))"

definition check_funding_within_trades_window :: "node \<Rightarrow> check_result list res" where
  "check_funding_within_trades_window base =
     over (corpus_symbols base funding_dir) (\<lambda>symbol. Inr (within_trades base ''funding_within_trades_window'' funding_dir symbol))"

definition check_book_within_trades_window :: "node \<Rightarrow> check_result list res" where
  "check_book_within_trades_window base =
     over (corpus_symbols base book_dir) (\<lambda>symbol. Inr (within_trades base ''book_within_trades_window'' book_dir symbol))"

definition venues :: "column \<Rightarrow> string set" where \<comment> \<open>\<open>str(v).strip()\<close>; no number prints as the venue\<close>
  "venues c =
     (case c of SCol xs \<Rightarrow> set (map (\<lambda>x. case x of Some s \<Rightarrow> strip s | None \<Rightarrow> ''nan'') xs)
      | _ \<Rightarrow> {''not text''})"

definition venue_results :: "node \<Rightarrow> check_result list res" where
  "venue_results base = over [book_dir, book_snapshot_dir] (\<lambda>dataset. over_partitions base dataset (\<lambda>symbol date f.
     if ''exchange'' \<notin> set (col_names f) \<or> frame_empty f then Inr []
     else bnd (get_col f ''exchange'') (\<lambda>c.
          let passed = (venues c = {expected_venue}) in
          Inr [verdict ''single_venue'' dataset (Some symbol) (Some date) passed (ok_or passed ''expected one venue'')])))"

definition check_single_venue :: "node \<Rightarrow> check_result list res" where
  "check_single_venue base =
     bnd (venue_results base) (\<lambda>checked.
     Inr (checked
       @ concat (map (\<lambda>dataset. if corpus_symbols base dataset \<noteq> []
                                 then [not_run ''single_venue'' dataset ''no venue field in this dataset''] else [])
                   [trades_dir, funding_dir])
       @ (if checked = [] then [not_run ''single_venue'' book_dir ''no venue-tagged partitions in the corpus''] else [])))"

section \<open>Plausibility\<close>

definition bad_price :: "pynum \<Rightarrow> bool" where \<comment> \<open>missing, or \<open>price <= 0\<close>\<close>
  "bad_price x \<longleftrightarrow> x = NaN \<or> fle x (Fin 0)"

definition bad_quantity :: "bool \<Rightarrow> pynum \<Rightarrow> bool" where
  "bad_quantity allows_zero x \<longleftrightarrow> x = NaN \<or> flt x (Fin 0) \<or> \<not> allows_zero \<and> feq x (Fin 0)"

definition check_finite_positive :: "node \<Rightarrow> check_result list res" where
  "check_finite_positive base = over (filter (\<lambda>d. d \<noteq> funding_dir) dataset_dirs) (\<lambda>dataset.
     over_partitions base dataset (\<lambda>symbol date f.
       if frame_empty f then Inr []
       else bnd (get_nums f ''price'') (\<lambda>prices. bnd (get_nums f ''quantity'') (\<lambda>quantities.
            let problems = (if list_ex bad_price prices then [''bad price(s)''] else [])
                  @ (if list_ex (bad_quantity (dataset \<in> {book_dir, book_snapshot_dir})) quantities
                     then [''bad quantity(ies)''] else []);
                passed = (problems = []) in
            Inr [verdict ''finite_positive'' dataset (Some symbol) (Some date) passed (ok_or passed ''bad values'')]))))"

definition check_funding_rate_sanity :: "node \<Rightarrow> check_result list res" where
  "check_funding_rate_sanity base = over_partitions base funding_dir (\<lambda>symbol date f.
     if frame_empty f then Inr []
     else bnd (get_nums f ''funding_rate'') (\<lambda>rates.
          let passed = (\<not> list_ex (\<lambda>r. flt rate_sanity_bound (fabs r)) rates) in
          Inr [verdict ''funding_rate_sanity'' funding_dir (Some symbol) (Some date) passed (ok_or passed ''rate(s) beyond'')]))"

definition check_no_empty_days :: "node \<Rightarrow> config \<Rightarrow> check_result list res" where
  "check_no_empty_days base cfg = over dataset_dirs (\<lambda>dataset.
     over (partitions base dataset) (\<lambda>(symbol, date).
       if dataset = trades_dir \<and> symbol \<notin> set (liquid_symbols cfg) then Inr []
       else bnd (corpus_read base dataset symbol date) (\<lambda>f.
            let passed = (\<not> frame_empty f) in
            Inr [verdict ''no_empty_days'' dataset (Some symbol) (Some date) passed (ok_or passed ''partition has zero rows'')])))"

section \<open>Order book\<close>

definition check_book_opens_with_snapshot :: "node \<Rightarrow> check_result list res" where
  "check_book_opens_with_snapshot base = over_partitions base book_dir (\<lambda>symbol date f.
     bnd (sort_rows ''timestamp'' f) (\<lambda>g.
     if frame_empty g then Inr []
     else bnd (get_bools g ''is_snapshot'') (\<lambda>flags.
          let passed = hd flags in
          Inr [verdict ''book_opens_with_snapshot'' book_dir (Some symbol) (Some date) passed
                 (ok_or passed ''first row is not a snapshot'')])))"

definition check_book_has_removals :: "node \<Rightarrow> check_result list res" where
  "check_book_has_removals base = over_partitions base book_dir (\<lambda>symbol date f.
     if frame_empty f then Inr []
     else bnd (get_nums f ''quantity'') (\<lambda>quantities.
          let passed = list_ex (\<lambda>q. feq q (Fin 0)) quantities in
          Inr [verdict ''book_has_removals'' book_dir (Some symbol) (Some date) passed
                 (if passed then ''removal(s)'' else ''no amount=0 rows'')]))"

definition check_book_reference_pairing :: "node \<Rightarrow> check_result list res" where
  "check_book_reference_pairing base = over (partitions base book_dir) (\<lambda>(symbol, date).
     bnd (parse_day date) (\<lambda>day.
     let first = is_free_tier_day day; paired = (date \<in> set (corpus_dates base book_snapshot_dir symbol)) in
     Inr [verdict ''book_reference_pairing'' book_dir (Some symbol) (Some date) first
            (ok_or first ''not a first-of-month free-tier day''),
          verdict ''book_reference_pairing'' book_snapshot_dir (Some symbol) (Some date) paired
            (ok_or paired ''no book_snapshot_25'')]))"

section \<open>Driver\<close>

type_synonym check_fn = "node \<Rightarrow> config \<Rightarrow> check_result list res"

definition checks :: "checker \<Rightarrow> (string \<times> check_fn) list" where \<comment> \<open>in the order they register\<close>
  "checks ck =
     [(''schema'', \<lambda>b c. check_schema b), (''archive_checksums'', \<lambda>b c. check_archive_checksums ck c),
      (''date_coverage'', check_date_coverage), (''funding_settlement_count'', \<lambda>b c. check_funding_settlement_count b),
      (''trade_id_continuity'', \<lambda>b c. check_trade_id_continuity b), (''duplicate_trade_ids'', \<lambda>b c. check_duplicate_trade_ids b),
      (''timestamp_monotonic'', \<lambda>b c. check_timestamp_monotonic b), (''volume_reconciliation'', check_volume_reconciliation ck),
      (''funding_within_trades_window'', \<lambda>b c. check_funding_within_trades_window b), (''single_venue'', \<lambda>b c. check_single_venue b),
      (''finite_positive'', \<lambda>b c. check_finite_positive b), (''funding_rate_sanity'', \<lambda>b c. check_funding_rate_sanity b),
      (''no_empty_days'', check_no_empty_days), (''book_opens_with_snapshot'', \<lambda>b c. check_book_opens_with_snapshot b),
      (''book_has_removals'', \<lambda>b c. check_book_has_removals b), (''book_reference_pairing'', \<lambda>b c. check_book_reference_pairing b),
      (''book_within_trades_window'', \<lambda>b c. check_book_within_trades_window b)]"

fun any_match :: "allowlist_entry list \<Rightarrow> check_result \<Rightarrow> bool res" where \<comment> \<open>\<open>any\<close> stops at the first match\<close>
  "any_match [] r = Inr False"
| "any_match (e # es) r = bnd (matches e r) (\<lambda>b. if b then Inr True else any_match es r)"

definition soften :: "allowlist_entry list \<Rightarrow> check_result \<Rightarrow> check_result res" where
  "soften entries r =
     (if counts_as_failure r
      then bnd (any_match entries r) (\<lambda>b. Inr (if b then r\<lparr>cr_allowlisted := True\<rparr> else r))
      else Inr r)"

text \<open>
  A check runs to its end before its results are softened; the code interleaves the two, which shows
  only in which of two errors is raised.
\<close>

definition raw_check :: "checker \<Rightarrow> node \<Rightarrow> config \<Rightarrow> string \<Rightarrow> check_result list res" where
  "raw_check ck base cfg name =
     (case map_of (checks ck) name of None \<Rightarrow> Inl (KeyError name) | Some check \<Rightarrow> check base cfg)"

definition run_check :: "checker \<Rightarrow> node \<Rightarrow> config \<Rightarrow> allowlist_entry list \<Rightarrow> string \<Rightarrow> check_result list res" where
  "run_check ck base cfg entries name = bnd (raw_check ck base cfg name) (map_res (soften entries))"

definition validate_corpus ::
  "checker \<Rightarrow> node \<Rightarrow> config option \<Rightarrow> string list option \<Rightarrow> allowlist_entry list option
    \<Rightarrow> (string \<times> json) list option \<Rightarrow> report res" where
  "validate_corpus ck base config selected allowlist committed =
     (let cfg = (case config of Some c \<Rightarrow> c | None \<Rightarrow> default_config) in
      bnd (case allowlist of Some es \<Rightarrow> Inr es | None \<Rightarrow> load_allowlist committed) (\<lambda>entries.
      let names = (case selected of Some ns \<Rightarrow> ns | None \<Rightarrow> map fst (checks ck)) in
      bnd (guard (\<not> set names \<subseteq> set (map fst (checks ck))) (ValidationError ''unknown check(s)'')) (\<lambda>_.
      over names (run_check ck base cfg entries))))"

end
