(* ===== verification/ValidateProps.thy ===== *)
theory ValidateProps
  imports ValidateData
begin

text \<open>
  What a verdict of the corpus validator means: a report is clean exactly when every raw failure is
  acknowledged, coverage names exactly the absent days, and the trade-id checks pass exactly on days
  that join without loss and on ids that never repeat.
\<close>

section \<open>Results of a loop over partitions\<close>

lemma over_Inr: "over xs g = Inr rs \<longleftrightarrow> (\<exists>rss. map_res g xs = Inr rss \<and> rs = concat rss)"
  by (auto simp: over_def res_simps)

lemma over_Nil [simp]: "over [] g = Inr []"
  by (simp add: over_def)

lemma over_Cons: "over (x # xs) g = bnd (g x) (\<lambda>a. bnd (over xs g) (\<lambda>b. Inr (a @ b)))"
  by (simp add: over_def bnd_def split: sum.splits)

lemma over_member:
  "over xs g = Inr rs \<Longrightarrow> r \<in> set rs \<longleftrightarrow> (\<exists>x \<in> set xs. \<exists>ys. g x = Inr ys \<and> r \<in> set ys)"
  by (induction xs arbitrary: rs) (auto simp: over_Cons res_simps)

lemma over_defined: "over xs g = Inr rs \<Longrightarrow> x \<in> set xs \<Longrightarrow> \<exists>ys. g x = Inr ys"
  by (induction xs arbitrary: rs) (auto simp: over_Cons res_simps)

text \<open>The results of one item, where every result names its item.\<close>

lemma over_tagged:
  assumes rs: "over xs g = Inr rs" and x: "x \<in> set xs" and "inj k"
    and tag: "\<And>y ys r. g y = Inr ys \<Longrightarrow> r \<in> set ys \<Longrightarrow> tag r = k y"
  obtains part where "g x = Inr part" and "\<And>P. (\<exists>r \<in> set rs. tag r = k x \<and> P r) \<longleftrightarrow> (\<exists>r \<in> set part. P r)"
proof -
  obtain part where part: "g x = Inr part" using over_defined [OF rs x] by blast
  have "(\<exists>r \<in> set rs. tag r = k x \<and> P r) \<longleftrightarrow> (\<exists>r \<in> set part. P r)" for P
  proof
    assume "\<exists>r \<in> set rs. tag r = k x \<and> P r"
    then obtain r where r: "tag r = k x" "P r" and "r \<in> set rs" by blast
    then obtain y ys where ys: "g y = Inr ys" "r \<in> set ys" using over_member [OF rs, of r] by blast
    then have "y = x" using tag [OF ys] r(1) assms(3) by (simp add: inj_eq)
    then show "\<exists>r \<in> set part. P r" using ys part r(2) by auto
  next
    assume "\<exists>r \<in> set part. P r"
    then obtain r where r: "r \<in> set part" "P r" by blast
    then have "r \<in> set rs" using over_member [OF rs, of r] x part by blast
    then show "\<exists>r \<in> set rs. tag r = k x \<and> P r" using tag [OF part r(1)] r(2) by blast
  qed
  then show thesis using that [OF part] by blast
qed

section \<open>The allowlist\<close>

definition excused :: "allowlist_entry list \<Rightarrow> check_result \<Rightarrow> bool" where
  "excused es r \<longleftrightarrow> (\<exists>e \<in> set es. matches e r = Inr True)"

definition softened :: "allowlist_entry list \<Rightarrow> check_result \<Rightarrow> check_result" where
  "softened es r = (if counts_as_failure r \<and> excused es r then r\<lparr>cr_allowlisted := True\<rparr> else r)"

lemma any_match_excused: "any_match es r = Inr b \<Longrightarrow> b \<longleftrightarrow> excused es r"
  by (induction es) (auto simp: excused_def res_simps split: if_splits)

lemma soften_result: "soften es r = Inr s \<Longrightarrow> s = softened es r"
  by (auto simp: soften_def softened_def res_simps dest!: any_match_excused split: if_splits)

lemma map_soften: "map_res (soften es) rs = Inr ss \<Longrightarrow> ss = map (softened es) rs"
  by (induction rs arbitrary: ss) (auto simp: res_simps dest: soften_result)

lemma over_softened:
  "over names (run_check ck base cfg es) = Inr rs \<Longrightarrow>
   \<exists>raw. over names (raw_check ck base cfg) = Inr raw \<and> rs = map (softened es) raw"
  by (induction names arbitrary: rs) (fastforce simp: over_Cons run_check_def res_simps dest!: map_soften)+

lemma softened_fails: "counts_as_failure (softened es r) \<longleftrightarrow> counts_as_failure r \<and> \<not> excused es r"
  by (auto simp: softened_def counts_as_failure_def)

lemma softened_ok: "report_ok (map (softened es) raw) \<longleftrightarrow> (\<forall>r \<in> set raw. counts_as_failure r \<longrightarrow> excused es r)"
  by (auto simp: report_ok_def failures_def filter_empty_conv softened_fails)

text \<open>C24: A validation runs exactly the selected checks; its report repeats their raw results in order, changing nothing but the allowlisted flag, and that only on failures an entry matches. The report is clean exactly when every failure is acknowledged by an entry.\<close>

theorem report_excuses_only_acknowledged:
  assumes "validate_corpus ck base config selected (Some es) committed = Inr rs"
  shows "\<exists>raw. over (case selected of Some ns \<Rightarrow> ns | None \<Rightarrow> map fst (checks ck))
             (raw_check ck base (case config of Some c \<Rightarrow> c | None \<Rightarrow> default_config)) = Inr raw
     \<and> rs = map (\<lambda>r. if counts_as_failure r \<and> (\<exists>e \<in> set es. matches e r = Inr True)
                     then r\<lparr>cr_allowlisted := True\<rparr> else r) raw
     \<and> (report_ok rs \<longleftrightarrow> (\<forall>r \<in> set raw. counts_as_failure r \<longrightarrow> (\<exists>e \<in> set es. matches e r = Inr True)))"
proof -
  have "over (case selected of Some ns \<Rightarrow> ns | None \<Rightarrow> map fst (checks ck))
      (run_check ck base (case config of Some c \<Rightarrow> c | None \<Rightarrow> default_config) es) = Inr rs"
    using assms by (simp add: validate_corpus_def Let_def res_simps)
  then obtain raw where "over (case selected of Some ns \<Rightarrow> ns | None \<Rightarrow> map fst (checks ck))
      (raw_check ck base (case config of Some c \<Rightarrow> c | None \<Rightarrow> default_config)) = Inr raw"
    and rs: "rs = map (softened es) raw"
    using over_softened by blast
  then show ?thesis
    using softened_ok [of es raw] by (intro exI [of _ raw]) (simp add: softened_def excused_def cong: map_cong)
qed

section \<open>Coverage\<close>

lemma coverage_scope:
  "symbol_coverage cfg dataset symbol present = Inr rs \<Longrightarrow> r \<in> set rs \<Longrightarrow> cr_dataset r = dataset \<and> cr_symbol r = Some symbol"
  by (auto simp: symbol_coverage_def res_simps Let_def verdict_def split: if_splits)

lemma coverage_holes:
  assumes "symbol_coverage cfg dataset symbol present = Inr rs" and "present \<noteq> []"
    and "range_start cfg present = Inr s" and "range_end cfg present = Inr e" and "expected_days dataset s e = Inr days"
  shows "(\<exists>r \<in> set rs. cr_date r = Some d \<and> \<not> cr_passed r) \<longleftrightarrow> d \<in> set days \<and> d \<notin> set present"
    and "(\<exists>r \<in> set rs. cr_passed r) \<longleftrightarrow> set days \<subseteq> set present"
proof -
  define missing where "missing = sort (remdups (filter (\<lambda>d. d \<notin> set present) days))"
  have rs: "rs = map (\<lambda>date. verdict ''date_coverage'' dataset (Some symbol) (Some date) False ''no partition'') missing
      @ (if missing = [] then [verdict ''date_coverage'' dataset (Some symbol) None True ''date(s)''] else [])"
    using assms by (simp add: symbol_coverage_def Let_def missing_def)
  have m: "set missing = {d \<in> set days. d \<notin> set present}" by (auto simp: missing_def)
  have "(\<exists>r \<in> set rs. cr_date r = Some d \<and> \<not> cr_passed r) \<longleftrightarrow> d \<in> set missing"
    unfolding rs by (auto simp: verdict_def bex_Un)
  then show "(\<exists>r \<in> set rs. cr_date r = Some d \<and> \<not> cr_passed r) \<longleftrightarrow> d \<in> set days \<and> d \<notin> set present"
    unfolding m by simp
  have "(\<exists>r \<in> set rs. cr_passed r) \<longleftrightarrow> set missing = {}"
    unfolding rs by (auto simp: verdict_def)
  then show "(\<exists>r \<in> set rs. cr_passed r) \<longleftrightarrow> set days \<subseteq> set present" unfolding m by blast
qed

text \<open>One symbol's part of the results of the check.\<close>

lemma coverage_part:
  assumes "check_date_coverage base cfg = Inr rs" and "dataset \<in> set dataset_dirs" and "symbol \<in> set (corpus_symbols base dataset)"
  obtains part where "symbol_coverage cfg dataset symbol (corpus_dates base dataset symbol) = Inr part"
    and "\<And>P. (\<exists>r \<in> set rs. cr_dataset r = dataset \<and> cr_symbol r = Some symbol \<and> P r) \<longleftrightarrow> (\<exists>r \<in> set part. P r)"
proof -
  define g where "g d s = symbol_coverage cfg d s (corpus_dates base d s)" for d s
  have scope: "cr_dataset r = d \<and> cr_symbol r = Some s" if "g d s = Inr ys" "r \<in> set ys" for d s ys r
    using that coverage_scope unfolding g_def by blast
  have outer: "over dataset_dirs (\<lambda>d. over (corpus_symbols base d) (g d)) = Inr rs"
    using assms(1) by (simp add: check_date_coverage_def g_def [abs_def])
  have tag: "cr_dataset r = id d" if "over (corpus_symbols base d) (g d) = Inr ys" "r \<in> set ys" for d ys r
    using over_member [OF that(1), of r] that(2) scope [of d] by auto
  obtain xs where inner: "over (corpus_symbols base dataset) (g dataset) = Inr xs"
    and xs: "\<And>P. (\<exists>r \<in> set rs. cr_dataset r = id dataset \<and> P r) \<longleftrightarrow> (\<exists>r \<in> set xs. P r)"
    by (rule over_tagged [OF outer assms(2) _ tag]) auto
  obtain part where part: "g dataset symbol = Inr part"
    and only: "\<And>P. (\<exists>r \<in> set xs. cr_symbol r = Some symbol \<and> P r) \<longleftrightarrow> (\<exists>r \<in> set part. P r)"
    by (rule over_tagged [OF inner assms(3), of Some cr_symbol]) (auto dest: scope)
  show thesis
  proof (rule that)
    show "symbol_coverage cfg dataset symbol (corpus_dates base dataset symbol) = Inr part"
      using part by (simp add: g_def)
    show "(\<exists>r \<in> set rs. cr_dataset r = dataset \<and> cr_symbol r = Some symbol \<and> P r) \<longleftrightarrow> (\<exists>r \<in> set part. P r)" for P
      using xs [of "\<lambda>r. cr_symbol r = Some symbol \<and> P r"] only [of P] by simp
  qed
qed

text \<open>The coverage check names exactly the holes: a day of a stored symbol is reported missing exactly when it is one of the days expected between the bounds (stated, or the first and last day present; first of months for the book) and has no partition, and the symbol passes exactly when none is missing.\<close>

theorem coverage_names_every_hole:
  assumes "check_date_coverage base cfg = Inr rs" and "dataset \<in> set dataset_dirs"
    and "symbol \<in> set (corpus_symbols base dataset)"
    and "present = corpus_dates base dataset symbol" and "present \<noteq> []"
    and "range_start cfg present = Inr s" and "range_end cfg present = Inr e" and "expected_days dataset s e = Inr days"
  shows "(\<forall>d. (\<exists>r \<in> set rs. cr_dataset r = dataset \<and> cr_symbol r = Some symbol \<and> cr_date r = Some d \<and> \<not> cr_passed r)
        \<longleftrightarrow> d \<in> set days \<and> d \<notin> set present)
    \<and> ((\<exists>r \<in> set rs. cr_dataset r = dataset \<and> cr_symbol r = Some symbol \<and> cr_passed r) \<longleftrightarrow> set days \<subseteq> set present)"
proof -
  obtain part where part: "symbol_coverage cfg dataset symbol present = Inr part"
    and only: "\<And>P. (\<exists>r \<in> set rs. cr_dataset r = dataset \<and> cr_symbol r = Some symbol \<and> P r) \<longleftrightarrow> (\<exists>r \<in> set part. P r)"
    using coverage_part [OF assms(1-3)] assms(4) by metis
  show ?thesis
    unfolding only using coverage_holes [OF part assms(5-8)] by blast
qed

section \<open>Trade ids\<close>

text \<open>The ids of each stored day, in file order.\<close>

definition stored_ids :: "node \<Rightarrow> string \<Rightarrow> string list \<Rightarrow> int list list res" where
  "stored_ids base symbol dates =
     map_res (\<lambda>date. bnd (corpus_read base trades_dir symbol date) (\<lambda>f. get_ints f ''trade_id'')) dates"

definition stored_ok :: "node \<Rightarrow> string \<Rightarrow> string list \<Rightarrow> bool" where
  "stored_ok base symbol dates \<longleftrightarrow>
     (\<forall>date \<in> set dates. case corpus_read base trades_dir symbol date of Inr f \<Rightarrow> frame_ok f | Inl _ \<Rightarrow> True)"

definition joined :: "int \<Rightarrow> int \<Rightarrow> bool" where
  "joined a b \<longleftrightarrow> b - a \<le> max_id_skip + 1"

lemma successively_zip: "successively P xs \<longleftrightarrow> (\<forall>(a, b) \<in> set (zip xs (tl xs)). P a b)"
  by (induction xs rule: induct_list012) auto

lemma no_losses: "snd (classify_gaps (breaks ids)) = [] \<longleftrightarrow> successively joined ids"
  by (auto simp: successively_zip classify_gaps_def breaks_def filter_empty_conv benign_def joined_def max_id_skip_def)

lemma successively_joint:
  "xs \<noteq> [] \<Longrightarrow> successively P (xs @ ys) \<longleftrightarrow> successively P xs \<and> successively P (last xs # ys)"
  by (cases ys) (auto simp: successively_append_iff)

lemma day_passes:
  "(\<forall>r \<in> set (day_continuity symbol date xs previous). cr_passed r)
     \<longleftrightarrow> successively joined ((case previous of Some l \<Rightarrow> [l] | None \<Rightarrow> []) @ xs)" if ne: "xs \<noteq> []"
proof -
  obtain x ys where xs: "xs = x # ys" using ne by (cases xs) auto
  have "(\<forall>r \<in> set (day_continuity symbol date xs previous). cr_passed r)
      \<longleftrightarrow> successively joined xs \<and> (case previous of Some l \<Rightarrow> joined l x | None \<Rightarrow> True)"
    by (cases previous) (auto simp: day_continuity_def verdict_def case_prod_beta no_losses xs joined_def)
  then show ?thesis by (cases previous) (auto simp: xs)
qed

lemma scan_passes:
  "scan_continuity base symbol previous dates = Inr rs \<Longrightarrow> stored_ok base symbol dates \<Longrightarrow>
   stored_ids base symbol dates = Inr idss \<Longrightarrow>
   (\<forall>r \<in> set rs. cr_passed r)
     \<longleftrightarrow> successively joined ((case previous of Some l \<Rightarrow> [l] | None \<Rightarrow> []) @ concat (map sort idss))"
proof (induction dates arbitrary: previous rs idss)
  case Nil
  then show ?case by (auto simp: stored_ids_def split: option.splits)
next
  case (Cons date dates)
  obtain f g where f: "corpus_read base trades_dir symbol date = Inr f" "sort_rows ''trade_id'' f = Inr g"
    using Cons.prems(1) by (auto simp: res_simps)
  obtain ids idss' where ids: "get_ints f ''trade_id'' = Inr ids" "stored_ids base symbol dates = Inr idss'" "idss = ids # idss'"
    using Cons.prems(3) f by (auto simp: stored_ids_def res_simps)
  have ok: "frame_ok f" "stored_ok base symbol dates" using Cons.prems(2) f by (auto simp: stored_ok_def)
  have sorted: "get_ints g ''trade_id'' = Inr (sort ids)" using sort_rows_ints [OF ok(1) f(2) ids(1)] .
  have len: "nrows g = length ids" using sort_rows_ok [OF ok(1) f(2)] ints_len [OF ok(1) ids(1)] by simp
  have col: "columns g \<noteq> []" using sorted by (auto simp: res_simps)
  show ?case
  proof (cases "ids = []")
    case True
    then have "scan_continuity base symbol previous dates = Inr rs"
      using Cons.prems(1) f len by (simp add: frame_empty_def)
    then show ?thesis using Cons.IH ok(2) ids True by simp
  next
    case False
    then have ne: "sort ids \<noteq> []" by (metis set_empty set_sort)
    obtain rest where rest: "scan_continuity base symbol (Some (last (sort ids))) dates = Inr rest"
      and rs: "rs = day_continuity symbol date (sort ids) previous @ rest"
      using Cons.prems(1) f len False col sorted by (auto simp: frame_empty_def res_simps)
    have "(\<forall>r \<in> set rest. cr_passed r) \<longleftrightarrow> successively joined (last (sort ids) # concat (map sort idss'))"
      using Cons.IH [OF rest ok(2) ids(2)] by simp
    then show ?thesis
      using day_passes [OF ne] successively_joint [of "(case previous of Some l \<Rightarrow> [l] | None \<Rightarrow> []) @ sort ids"] ne
      by (simp add: rs ids(3) ball_Un)
  qed
qed

text \<open>Ids already seen on another day, and within the day.\<close>

lemma scan_ids_seen: "snd (scan_ids date ids seen) = (\<lambda>i. if i \<in> set ids then Some date else seen i)"
  by (induction ids arbitrary: seen) (auto simp: case_prod_beta fun_eq_iff)

lemma scan_ids_clear: "fst (scan_ids date ids seen) = [] \<longleftrightarrow> (\<forall>i \<in> set ids. seen i \<in> {None, Some date})"
  by (induction ids arbitrary: seen) (auto simp: case_prod_beta split: option.splits)

lemma repeated_iff: "repeated ids = [] \<longleftrightarrow> distinct ids"
proof -
  have "repeated ids = [] \<longleftrightarrow> (\<forall>i < length ids. ids ! i \<notin> set (take i ids))"
    by (auto simp: repeated_def filter_empty_conv simp flip: set_empty)
  also have "\<dots> \<longleftrightarrow> (\<forall>i < length ids. \<forall>j < i. ids ! i \<noteq> ids ! j)"
    by (simp add: in_set_conv_nth) (metis (no_types, lifting))
  also have "\<dots> \<longleftrightarrow> distinct ids"
    unfolding distinct_conv_nth by (metis nat_neq_iff less_trans)
  finally show ?thesis .
qed

lemma scan_distinct:
  "scan_duplicates base symbol dates seen = Inr rs \<Longrightarrow> stored_ids base symbol dates = Inr idss \<Longrightarrow>
   distinct dates \<Longrightarrow> ran seen \<inter> set dates = {} \<Longrightarrow>
   rs = [] \<longleftrightarrow> distinct (concat idss) \<and> (\<forall>i \<in> set (concat idss). seen i = None)"
proof (induction dates arbitrary: seen rs idss)
  case Nil
  then show ?case by (simp add: stored_ids_def)
next
  case (Cons date dates)
  obtain f ids idss' where f: "corpus_read base trades_dir symbol date = Inr f" "get_ints f ''trade_id'' = Inr ids"
    and ids: "stored_ids base symbol dates = Inr idss'" "idss = ids # idss'"
    using Cons.prems(2) by (auto simp: stored_ids_def res_simps)
  let ?seen = "snd (scan_ids date ids seen)"
  obtain rest where rest: "scan_duplicates base symbol dates ?seen = Inr rest"
    and rs: "rs = (if repeated ids \<noteq> [] then [''within-day duplicate(s)''] else []) @ fst (scan_ids date ids seen) @ rest"
    using Cons.prems(1) f by (auto simp: duplicate_trade_ids_def case_prod_beta res_simps)
  have fresh: "i \<in> set ids \<Longrightarrow> seen i \<noteq> Some date" for i
    using Cons.prems(4) by (auto simp: ran_def)
  have "ran ?seen \<inter> set dates = {}" 
    using Cons.prems(3,4) by (auto simp: scan_ids_seen ran_def split: if_splits)
  then have "rest = [] \<longleftrightarrow> distinct (concat idss') \<and> (\<forall>i \<in> set (concat idss'). ?seen i = None)"
    using Cons.IH [OF rest ids(1)] Cons.prems(3) by simp
  moreover have "fst (scan_ids date ids seen) = [] \<longleftrightarrow> (\<forall>i \<in> set ids. seen i = None)"
    using fresh by (auto simp: scan_ids_clear)
  ultimately show ?case
    by (auto simp: rs ids(2) repeated_iff scan_ids_seen disjoint_iff split: if_splits)
qed

lemma continuity_scope:
  "scan_continuity base symbol previous dates = Inr rs \<Longrightarrow> r \<in> set rs \<Longrightarrow> cr_symbol r = Some symbol"
proof (induction dates arbitrary: previous rs)
  case (Cons date dates)
  have day: "r \<in> set (day_continuity symbol date ids previous) \<Longrightarrow> cr_symbol r = Some symbol" for ids
    by (auto simp: day_continuity_def verdict_def case_prod_beta split: option.splits if_splits)
  show ?case using Cons day by (auto simp: res_simps split: if_splits)
qed simp

text \<open>C25: The two trade-id checks decide exactly what they promise of the stored days of a symbol, read in order: the continuity results all pass exactly when no two consecutive ids, also across a boundary, lie further apart than a venue skip, and the duplicate result passes exactly when no id is stored twice.\<close>

theorem trade_id_checks_are_exact:
  assumes "check_trade_id_continuity base = Inr rs" and "check_duplicate_trade_ids base = Inr ds"
    and "symbol \<in> set (corpus_symbols base trades_dir)" and "dates = corpus_dates base trades_dir symbol"
    and "stored_ok base symbol dates" and "distinct dates" and "stored_ids base symbol dates = Inr idss"
  shows "((\<forall>r \<in> set rs. cr_symbol r = Some symbol \<longrightarrow> cr_passed r)
          \<longleftrightarrow> successively (\<lambda>a b. b - a \<le> max_id_skip + 1) (concat (map sort idss)))
    \<and> ((\<forall>r \<in> set ds. cr_symbol r = Some symbol \<longrightarrow> cr_passed r) \<longleftrightarrow> distinct (concat idss))"
proof -
  define g where "g s = scan_continuity base s None (corpus_dates base trades_dir s)" for s
  have "over (corpus_symbols base trades_dir) g = Inr rs"
    using assms(1) by (simp add: check_trade_id_continuity_def g_def [abs_def])
  then obtain part where part: "g symbol = Inr part"
    and only: "\<And>P. (\<exists>r \<in> set rs. cr_symbol r = Some symbol \<and> P r) \<longleftrightarrow> (\<exists>r \<in> set part. P r)"
    by (rule over_tagged [OF _ assms(3), of _ _ Some cr_symbol]) (auto simp: g_def dest: continuity_scope)
  have "(\<forall>r \<in> set part. cr_passed r) \<longleftrightarrow> successively joined (concat (map sort idss))"
    using scan_passes [OF part [unfolded g_def, folded assms(4)] assms(5,7)] by simp
  then have continuity: "(\<forall>r \<in> set rs. cr_symbol r = Some symbol \<longrightarrow> cr_passed r)
      \<longleftrightarrow> successively (\<lambda>a b. b - a \<le> max_id_skip + 1) (concat (map sort idss))"
    using only [of "\<lambda>r. \<not> cr_passed r"] by (auto simp: joined_def [abs_def])
  define h where "h s = bnd (scan_duplicates base s (corpus_dates base trades_dir s) (\<lambda>_. None)) (\<lambda>collisions.
     let passed = (collisions = []) in
     Inr [verdict ''duplicate_trade_ids'' trades_dir (Some s) None passed (ok_or passed ''collisions'')])" for s
  have "over (corpus_symbols base trades_dir) h = Inr ds"
    using assms(2) by (simp add: check_duplicate_trade_ids_def h_def [abs_def])
  then obtain dpart where dpart: "h symbol = Inr dpart"
    and donly: "\<And>P. (\<exists>r \<in> set ds. cr_symbol r = Some symbol \<and> P r) \<longleftrightarrow> (\<exists>r \<in> set dpart. P r)"
    by (rule over_tagged [OF _ assms(3), of _ _ Some cr_symbol]) (auto simp: h_def res_simps verdict_def Let_def)
  obtain collisions where c: "scan_duplicates base symbol dates (\<lambda>_. None) = Inr collisions"
    and p: "dpart = [verdict ''duplicate_trade_ids'' trades_dir (Some symbol) None (collisions = []) (ok_or (collisions = []) ''collisions'')]"
    using dpart by (auto simp: h_def assms(4) res_simps Let_def)
  have "(\<forall>r \<in> set dpart. cr_passed r) \<longleftrightarrow> distinct (concat idss)"
    using scan_distinct [OF c assms(7,6)] by (simp add: p verdict_def)
  then have "(\<forall>r \<in> set ds. cr_symbol r = Some symbol \<longrightarrow> cr_passed r) \<longleftrightarrow> distinct (concat idss)"
    using donly [of "\<lambda>r. \<not> cr_passed r"] by auto
  then show ?thesis using continuity by (rule conjI [rotated])
qed

text \<open>The plausibility checks let an infinite price or quantity and a missing funding rate through.\<close>

lemma infinite_values_pass:
  "\<not> bad_price PInf" "\<not> bad_quantity zero_allowed PInf" "\<not> flt bound (fabs NaN)"
  by (simp_all add: bad_price_def bad_quantity_def fabs_def) (cases bound; simp)

section \<open>Examples\<close>

definition leaf :: "int list \<Rightarrow> node" where
  "leaf ids = NDir [] (Inr \<lparr>nrows = length ids, columns = [(''trade_id'', ICol ids)]\<rparr>)"

definition branch :: "(string \<times> node) list \<Rightarrow> node" where
  "branch cs = NDir cs (Inl (TypeError ''no single schema''))"

definition sample_corpus :: node where
  "sample_corpus = branch [(''trades'', branch [(''symbol=BTC'',
     branch [(''date=2024-02-28'', leaf [3, 1, 4]), (''date=2024-03-01'', leaf [20, 19])])])]"

definition gap_entry :: "string \<Rightarrow> allowlist_entry" where
  "gap_entry day =
     \<lparr>al_dataset = JStr ''trades'', al_symbol = JStr ''BTC'', al_reason = JStr ''outage'', al_acknowledged = JStr ''2024-03-02'',
      al_check = None, al_start = Some (JStr day), al_end = Some (JStr day)\<rparr>"

lemma sample_symbols:
  "corpus_symbols sample_corpus trades_dir = [''BTC'']" "corpus_symbols sample_corpus funding_dir = []"
  "corpus_symbols sample_corpus book_dir = []" "corpus_symbols sample_corpus book_snapshot_dir = []"
  by code_simp+

lemma sample_dates: "corpus_dates sample_corpus trades_dir ''BTC'' = [''2024-02-28'', ''2024-03-01'']"
  by code_simp

lemma sample_days:
  "parse_day ''2024-02-28'' = Inr 738944" "parse_day ''2024-03-01'' = Inr 738946"
  "iso_text 738944 = ''2024-02-28''" "iso_text 738945 = ''2024-02-29''" "iso_text 738946 = ''2024-03-01''"
  by code_simp+

lemma sample_expected: "expected_days trades_dir 738944 738946 = Inr [''2024-02-28'', ''2024-02-29'', ''2024-03-01'']"
  by (simp add: expected_days_def dates_between_def sample_days trades_dir_def trades_dataset_def book_dir_def book_snapshot_dir_def upto.simps)

lemma sample_coverage:
  "check_date_coverage sample_corpus default_config =
     Inr [verdict ''date_coverage'' trades_dir (Some ''BTC'') (Some ''2024-02-29'') False ''no partition'']"
  by (simp add: check_date_coverage_def dataset_dirs_def over_Cons sample_symbols sample_dates symbol_coverage_def
      range_start_def range_end_def default_config_def sample_days sample_expected)

lemma sample_continuity:
  "check_trade_id_continuity sample_corpus =
     Inr [verdict ''trade_id_continuity'' trades_dir (Some ''BTC'') (Some ''2024-02-28'') True ''venue id-skip(s)'',
          verdict ''trade_id_continuity'' trades_dir (Some ''BTC'') (Some ''2024-03-01'') True ''ok'',
          verdict ''trade_id_continuity'' trades_dir (Some ''BTC'') (Some ''2024-03-01'') False ''boundary gap'']"
  by code_simp

lemma sample_duplicates:
  "check_duplicate_trade_ids sample_corpus =
     Inr [verdict ''duplicate_trade_ids'' trades_dir (Some ''BTC'') None True ''ok'']"
  by code_simp

definition sample_checker :: checker where
  "sample_checker = \<lparr>ck_source = example_source, cached_archives = []\<rparr>"

lemma sample_validation:
  "validate_corpus sample_checker sample_corpus None (Some [''date_coverage'']) (Some [gap_entry ''2024-02-29'']) None =
     Inr [(verdict ''date_coverage'' trades_dir (Some ''BTC'') (Some ''2024-02-29'') False ''no partition'')\<lparr>cr_allowlisted := True\<rparr>]"
proof -
  have "matches (gap_entry ''2024-02-29'') (verdict ''date_coverage'' trades_dir (Some ''BTC'') (Some ''2024-02-29'') False ''no partition'') = Inr True"
    by code_simp
  then have "soften [gap_entry ''2024-02-29''] (verdict ''date_coverage'' trades_dir (Some ''BTC'') (Some ''2024-02-29'') False ''no partition'')
      = Inr ((verdict ''date_coverage'' trades_dir (Some ''BTC'') (Some ''2024-02-29'') False ''no partition'')\<lparr>cr_allowlisted := True\<rparr>)"
    by (simp add: soften_def counts_as_failure_def verdict_def)
  moreover have "map_of (checks sample_checker) ''date_coverage'' = Some check_date_coverage" by (simp add: checks_def)
  moreover have "''date_coverage'' \<in> set (map fst (checks sample_checker))" by (simp add: checks_def)
  ultimately show ?thesis
    by (simp add: validate_corpus_def over_Cons run_check_def raw_check_def sample_coverage guard_def)
qed

theorem report_excuses_only_acknowledged_witness:
  "\<exists>rs raw. validate_corpus sample_checker sample_corpus None (Some [''date_coverage'']) (Some [gap_entry ''2024-02-29'']) None = Inr rs
     \<and> over [''date_coverage''] (raw_check sample_checker sample_corpus default_config) = Inr raw
     \<and> report_ok rs \<and> \<not> report_ok raw"
proof -
  obtain raw where raw: "over [''date_coverage''] (raw_check sample_checker sample_corpus default_config) = Inr raw"
    and ok: "report_ok [(verdict ''date_coverage'' trades_dir (Some ''BTC'') (Some ''2024-02-29'') False ''no partition'')\<lparr>cr_allowlisted := True\<rparr>]
      \<longleftrightarrow> (\<forall>r \<in> set raw. counts_as_failure r \<longrightarrow> (\<exists>e \<in> set [gap_entry ''2024-02-29'']. matches e r = Inr True))"
    using report_excuses_only_acknowledged [OF sample_validation] by auto
  have "raw = [verdict ''date_coverage'' trades_dir (Some ''BTC'') (Some ''2024-02-29'') False ''no partition'']"
    using raw by (simp add: over_Cons raw_check_def checks_def sample_coverage)
  then have "\<not> report_ok raw" by (simp add: report_ok_def failures_def counts_as_failure_def verdict_def)
  then show ?thesis
    using sample_validation raw by (auto simp: report_ok_def failures_def counts_as_failure_def verdict_def)
qed

theorem coverage_names_every_hole_witness:
  "\<exists>rs. check_date_coverage sample_corpus default_config = Inr rs
     \<and> (\<exists>r \<in> set rs. cr_dataset r = trades_dir \<and> cr_symbol r = Some ''BTC'' \<and> cr_date r = Some ''2024-02-29'' \<and> \<not> cr_passed r)
     \<and> \<not> (\<exists>r \<in> set rs. cr_dataset r = trades_dir \<and> cr_symbol r = Some ''BTC'' \<and> cr_passed r)"
proof -
  have "range_start default_config [''2024-02-28'', ''2024-03-01''] = Inr 738944"
    and "range_end default_config [''2024-02-28'', ''2024-03-01''] = Inr 738946"
    by (simp_all add: range_start_def range_end_def default_config_def sample_days)
  moreover have "trades_dir \<in> set dataset_dirs" by (simp add: dataset_dirs_def)
  ultimately show ?thesis
    using coverage_names_every_hole [OF sample_coverage _ _ sample_dates [symmetric] _ _ _ sample_expected]
    by (intro exI [of _ "[verdict ''date_coverage'' trades_dir (Some ''BTC'') (Some ''2024-02-29'') False ''no partition'']"])
      (simp add: sample_coverage sample_symbols)
qed

theorem trade_id_checks_are_exact_witness:
  "\<exists>rs ds. check_trade_id_continuity sample_corpus = Inr rs \<and> check_duplicate_trade_ids sample_corpus = Inr ds
     \<and> \<not> (\<forall>r \<in> set rs. cr_symbol r = Some ''BTC'' \<longrightarrow> cr_passed r)
     \<and> (\<forall>r \<in> set ds. cr_symbol r = Some ''BTC'' \<longrightarrow> cr_passed r)"
proof -
  have sym: "''BTC'' \<in> set (corpus_symbols sample_corpus trades_dir)" by (simp add: sample_symbols)
  have ok: "stored_ok sample_corpus ''BTC'' [''2024-02-28'', ''2024-03-01'']"
    unfolding stored_ok_def by code_simp
  have ids: "stored_ids sample_corpus ''BTC'' [''2024-02-28'', ''2024-03-01''] = Inr [[3, 1, 4], [20, 19]]"
    by code_simp
  note exact = trade_id_checks_are_exact [OF sample_continuity sample_duplicates sym sample_dates [symmetric] ok _ ids]
  show ?thesis
    by (rule exI, rule exI, rule conjI, rule sample_continuity, rule conjI, rule sample_duplicates)
      (use exact in \<open>simp add: max_id_skip_def\<close>)
qed

end
