(* ===== verification/PriceBars.thy ===== *)
theory PriceBars
  imports Book
begin

text \<open>
  Minute bars of futures and spot prices (\<open>ingestion/fetch_price_bars.py\<close>) and daily klines
  (\<open>ingestion/fetch_klines.py\<close>): archive URLs, admission of a monthly archive, the stored partitions
  and the report of a fetched month. An accepted month is the complete minute grid with consistent,
  finite, positive prices. The server, the hash, the CSV reader and pandas' conversions are parameters.
\<close>

section \<open>Archives fetched under their checksum\<close>

text \<open>What a host answers, and how its archives are hashed, read without a header, and converted.\<close>

record host =
  ht_get :: "string \<Rightarrow> exn + int \<times> string"
  ht_answers :: "string \<Rightarrow> nat \<Rightarrow> answer"
  ht_sha :: "string \<Rightarrow> string"
  ht_reader :: archive_reader
  ht_source :: source

text \<open>
  The published digest, the verified copy and its frame; an archive without an acceptable digest is
  refused. The frame is read from the disk that the download leaves.
\<close>

definition fetch_archive ::
  "host \<Rightarrow> (string \<Rightarrow> bool) \<Rightarrow> exn \<Rightarrow> string \<Rightarrow> location \<Rightarrow> disk \<Rightarrow> disk \<times> (string \<times> frame) res" where
  "fetch_archive h acceptable unpublished url dest d =
     (case bnd (fetch_checksum (ht_get h) url) (\<lambda>c. case c of
             None \<Rightarrow> Inl unpublished
           | Some digest \<Rightarrow> bnd (guard (\<not> acceptable digest) unpublished) (\<lambda>_. Inr digest)) of
        Inl e \<Rightarrow> (d, Inl e)
      | Inr digest \<Rightarrow>
          (case cached_fetch (ht_sha h) (ht_answers h url) [] url (Some dest) (Some digest) default_retries d of
             (d', Inl e) \<Rightarrow> (d', Inl e)
           | (d', Inr p) \<Rightarrow> (d', bnd (extract_csv (ht_reader h) d' p) (\<lambda>f. Inr (digest, f)))))"

section \<open>Minute bars\<close>

definition price_dir :: string where "price_dir = ''price_bars''"

definition price_partition_cols :: "string list" where
  "price_partition_cols = [''market'', ''symbol'', ''date'']"

text \<open>\<open>str.replace\<close> of a nonempty text.\<close>

function replace_all :: "string \<Rightarrow> string \<Rightarrow> string \<Rightarrow> string" where
  "replace_all old new s =
     (if s = [] \<or> old = [] then s
      else if prefix old s then new @ replace_all old new (drop (length old) s)
      else hd s # replace_all old new (tl s))"
  by pat_completeness auto
termination
  by (relation "measure (\<lambda>(old, new, s). length s)") auto

declare replace_all.simps [simp del]

definition archive_url :: "string \<Rightarrow> int \<Rightarrow> string \<Rightarrow> string res" where
  "archive_url symbol month mkt =
     bnd (guard (mkt \<notin> {''spot'', ''futures''}) (ValueError ''market must be spot or futures'')) (\<lambda>_.
     let url = klines_monthly_url symbol (OnDate month) ''1m'' in
     Inr (if mkt = ''spot'' then replace_all ''/futures/um/'' ''/spot/'' url else url))"

definition minute_grid :: "int \<Rightarrow> int \<Rightarrow> int list" where \<comment> \<open>\<open>arange(start, end, 60000)\<close>\<close>
  "minute_grid start stop = map (\<lambda>i. start + 60000 * int i) [0..<nat ((stop - start + 59999) div 60000)]"

text \<open>Spot archives give microseconds from 2025 on.\<close>

definition time_divisor :: "string \<Rightarrow> int \<Rightarrow> int" where
  "time_divisor mkt month = (if mkt = ''spot'' \<and> ymd2ord 2025 1 1 \<le> month then 1000 else 1)"

definition without_header :: "frame \<Rightarrow> frame res" where
  "without_header raw =
     bnd (get_texts raw ''open_time'') (\<lambda>xs. Inr (keep_rows (\<lambda>i. xs ! i \<noteq> Some ''open_time'') raw))"

definition bar_times :: "source \<Rightarrow> frame \<Rightarrow> int \<Rightarrow> (int list \<times> int list) res" where
  "bar_times src raw divisor =
     bnd (bnd (get_col raw ''open_time'') (as_int64 src)) (\<lambda>opens.
     bnd (bnd (get_col raw ''close_time'') (as_int64 src)) (\<lambda>closes.
     Inr (map (\<lambda>t. t div divisor) opens, map (\<lambda>t. t div divisor) closes)))"

definition float_col :: "source \<Rightarrow> frame \<Rightarrow> string \<Rightarrow> pynum list res" where
  "float_col src raw k = bnd (get_col raw k) (as_float64 src)"

definition bar_frame ::
  "string \<Rightarrow> string \<Rightarrow> int list \<Rightarrow> int list \<Rightarrow> pynum list \<Rightarrow> pynum list \<Rightarrow> pynum list \<Rightarrow> pynum list
    \<Rightarrow> pynum list \<Rightarrow> pynum list \<Rightarrow> int list \<Rightarrow> nat \<Rightarrow> frame" where
  "bar_frame mkt symbol opens closes op hi lo cl vol quote_vol counts n =
     \<lparr>nrows = n,
      columns = [(''open_time'', ICol opens), (''close_time'', ICol closes), (''available_at'', ICol (map (\<lambda>t. t + 1) closes)),
        (''market'', SCol (replicate n (Some mkt))), (''symbol'', SCol (replicate n (Some symbol))),
        (''open'', FCol op), (''high'', FCol hi), (''low'', FCol lo), (''close'', FCol cl), (''volume'', FCol vol),
        (''quote_volume'', FCol quote_vol), (''trades'', ICol counts), (''date'', SCol (map (\<lambda>t. Some (date_of_ms t)) opens))]\<rparr>"

definition negative :: "pynum \<Rightarrow> bool" where "negative x = flt x (Fin 0)"

definition nonpositive :: "pynum \<Rightarrow> bool" where "nonpositive x = fle x (Fin 0)"

definition crossed :: "pynum \<times> pynum \<times> pynum \<times> pynum \<Rightarrow> bool" where
  "crossed b = (case b of (op, hi, lo, cl) \<Rightarrow>
     flt hi op \<or> flt hi cl \<or> flt hi lo \<or> flt op lo \<or> flt cl lo)"

definition normalise_bars :: "source \<Rightarrow> frame \<Rightarrow> string \<Rightarrow> int \<Rightarrow> string \<Rightarrow> frame res" where
  "normalise_bars src raw0 symbol month mkt =
     bnd (archive_url symbol month mkt) (\<lambda>_.
     bnd (guard (col_names raw0 \<noteq> kline_columns) (PriceDataError ''price archive columns changed'')) (\<lambda>_.
     bnd (without_header raw0) (\<lambda>raw.
     bnd (guard (frame_empty raw) (PriceDataError ''price archive has no bars'')) (\<lambda>_.
     bnd (bar_times src raw (time_divisor mkt month)) (\<lambda>(opens, closes).
     bnd (guard (opens \<noteq> (case month_bounds month of (start, stop) \<Rightarrow> minute_grid start stop))
            (PriceDataError ''missing, duplicate, out-of-order or wrong-unit minutes'')) (\<lambda>_.
     bnd (guard (closes \<noteq> map (\<lambda>t. t + 59999) opens) (PriceDataError ''close time does not match its minute'')) (\<lambda>_.
     bnd (float_col src raw ''open'') (\<lambda>op. bnd (float_col src raw ''high'') (\<lambda>hi.
     bnd (float_col src raw ''low'') (\<lambda>lo. bnd (float_col src raw ''close'') (\<lambda>cl.
     bnd (float_col src raw ''volume'') (\<lambda>vol. bnd (float_col src raw ''quote_volume'') (\<lambda>qv.
     bnd (bnd (get_col raw ''count'') (as_int64 src)) (\<lambda>counts.
     bnd (guard (\<not> list_all is_fin (op @ hi @ lo @ cl @ vol @ qv)) (PriceDataError ''non-finite price or volume'')) (\<lambda>_.
     bnd (guard (list_ex nonpositive (op @ hi @ lo @ cl)) (PriceDataError ''non-positive price'')) (\<lambda>_.
     bnd (guard (list_ex negative (vol @ qv) \<or> list_ex (\<lambda>c. c < 0) counts) (PriceDataError ''negative volume or trade count'')) (\<lambda>_.
     bnd (guard (list_ex crossed (zip op (zip hi (zip lo cl)))) (PriceDataError ''inconsistent OHLC prices'')) (\<lambda>_.
     Inr (bar_frame mkt symbol opens closes op hi lo cl vol qv counts (nrows raw))))))))))))))))))))"

definition price_partition :: "string \<Rightarrow> string \<Rightarrow> string \<Rightarrow> path" where
  "price_partition symbol date mkt =
     [price_dir, hive_segment ''market'' mkt, hive_segment ''symbol'' symbol, hive_segment ''date'' date]"

text \<open>
  A fetched month: the store, and the report written for it. The digests of the files of a partition
  depend on the file format and are a parameter.
\<close>

definition price_report ::
  "string \<Rightarrow> string \<Rightarrow> string \<Rightarrow> nat \<Rightarrow> string \<Rightarrow> string \<Rightarrow> (string \<times> string) list \<Rightarrow> json" where
  "price_report symbol month mkt rows url digest files =
     JDict [(''symbol'', JStr symbol), (''month'', JStr month), (''market'', JStr mkt), (''rows'', JInt (int rows)),
       (''source'', JStr url), (''source_sha256'', JStr digest), (''partition_sha256'', JDict (map (\<lambda>(k, v). (k, JStr v)) files)),
       (''complete_minute_grid'', JBool True), (''timestamp_unit'', JStr ''ms''), (''availability'', JStr ''bar close plus 1ms'')]"

definition month_text :: "int \<Rightarrow> string" where "month_text month = take 7 (iso_text month)"

definition price_report_file :: "location \<Rightarrow> string \<Rightarrow> string \<Rightarrow> int \<Rightarrow> location" where
  "price_report_file base symbol mkt month =
     base @ [''reports'', ''prices-'' @ mkt @ ''-'' @ symbol @ ''-'' @ month_text month @ ''.json'']"

record files =
  fl_root :: location
  fl_digests :: "path \<Rightarrow> frame option \<Rightarrow> (string \<times> string) list"
  fl_dumps :: "json \<Rightarrow> string"

definition fetch_price_month :: "host \<Rightarrow> files \<Rightarrow> string \<Rightarrow> int \<Rightarrow> string \<Rightarrow> world \<Rightarrow> world \<times> json res" where
  "fetch_price_month h fs symbol month mkt w =
     (case archive_url symbol month mkt of
        Inl e \<Rightarrow> (w, Inl e)
      | Inr url \<Rightarrow>
          (case fetch_archive h (\<lambda>_. True) (PriceDataError ''no published checksum'') url
                  (fl_root fs @ [''.cache'', price_dir, mkt, last_segment url]) (fst w) of
             (d', Inl e) \<Rightarrow> ((d', snd w), Inl e)
           | (d', Inr (digest, raw)) \<Rightarrow>
               (case bnd (normalise_bars (ht_source h) raw symbol month mkt) (\<lambda>f.
                       bnd (write_parquet f [price_dir] (Some price_partition_cols) (snd w)) (\<lambda>st'.
                       bnd (get_texts f ''date'') (\<lambda>days. Inr (f, st', map hive_value (remdups days))))) of
                  Inl e \<Rightarrow> ((d', snd w), Inl e)
                | Inr (f, st', days) \<Rightarrow>
                    let prints = concat (map (\<lambda>day. let p = price_partition symbol day mkt in fl_digests fs p (st' p)) days);
                        report = price_report symbol (month_text month) mkt (nrows f) url digest prints in
                    ((d'(price_report_file (fl_root fs) symbol mkt month \<mapsto> fl_dumps fs report @ [CHR 0x0A]), st'), Inr report))))"

section \<open>Daily klines\<close>

definition klines_dir :: string where "klines_dir = ''klines''"

definition klines_interval :: string where "klines_interval = ''1d''"

definition kline_schema :: "string list" where
  "kline_schema = [''open_time'', ''symbol'', ''close'', ''volume'', ''quote_volume'', ''trades'', ''date'']"

text \<open>\<open>str.isdigit\<close> on Latin-1 text: also the superscripts.\<close>

definition py_isdigit :: "string \<Rightarrow> bool" where
  "py_isdigit s \<longleftrightarrow> s \<noteq> [] \<and> list_all (\<lambda>c. is_digit c \<or> of_char c \<in> {178, 179, 185 :: nat}) s"

definition header_cell :: "string option \<Rightarrow> bool" where
  "header_cell c = (\<not> py_isdigit (dropWhile (\<lambda>x. x = CHR ''-'') (strip (case c of Some s \<Rightarrow> s | None \<Rightarrow> ''nan''))))"

definition without_first :: "frame \<Rightarrow> frame" where
  "without_first f = pick_rows [1..<nrows f] f"

definition kline_frame :: "string \<Rightarrow> int list \<Rightarrow> pynum list \<Rightarrow> pynum list \<Rightarrow> pynum list \<Rightarrow> int list \<Rightarrow> nat \<Rightarrow> frame" where
  "kline_frame symbol opens cl vol qv counts n =
     \<lparr>nrows = n,
      columns = [(''open_time'', ICol opens), (''symbol'', SCol (replicate n (Some symbol))), (''close'', FCol cl), (''volume'', FCol vol),
        (''quote_volume'', FCol qv), (''trades'', ICol counts), (''date'', SCol (map (\<lambda>t. Some (date_of_ms t)) opens))]\<rparr>"

definition normalise_klines :: "source \<Rightarrow> frame \<Rightarrow> string \<Rightarrow> frame res" where
  "normalise_klines src raw symbol =
     bnd (guard (col_names raw \<noteq> kline_columns) (KlineDataError ''kline columns changed'')) (\<lambda>_.
     bnd (get_texts raw ''open_time'') (\<lambda>xs.
     let f = if \<not> frame_empty raw \<and> header_cell (hd xs) then without_first raw else raw in
     bnd (guard (frame_empty f) (KlineDataError ''kline file contained no bars'')) (\<lambda>_.
     bnd (bnd (get_col f ''open_time'') (as_int64 src)) (\<lambda>opens.
     bnd (float_col src f ''close'') (\<lambda>cl. bnd (float_col src f ''volume'') (\<lambda>vol. bnd (float_col src f ''quote_volume'') (\<lambda>qv.
     bnd (bnd (get_col f ''count'') (as_int64 src)) (\<lambda>counts.
     bnd (guard (list_ex negative vol) (KlineDataError ''negative bar volume'')) (\<lambda>_.
     sort_rows ''open_time'' (kline_frame symbol opens cl vol qv counts (nrows f)))))))))))"

definition fetch_klines_day :: "source \<Rightarrow> string \<Rightarrow> period \<Rightarrow> bool \<Rightarrow> frame res" where
  "fetch_klines_day src symbol date verify =
     (let url = klines_daily_url symbol date klines_interval in
      bnd (if verify then checksum_at src url else Inr None) (\<lambda>digest.
      bnd (fetch_to src url digest) (\<lambda>path.
      bnd (read_named src path kline_columns) (\<lambda>raw. normalise_klines src raw symbol))))"

definition store_klines :: "frame \<Rightarrow> store \<Rightarrow> store res" where
  "store_klines f st = write_parquet f [klines_dir] (Some partition_cols) st"

definition kline_partition :: "string \<Rightarrow> period \<Rightarrow> path res" where
  "kline_partition symbol date =
     (case date of
        OnDate d \<Rightarrow> Inr (partition_path klines_dir symbol (iso_text d))
      | AsText t \<Rightarrow>
          (case iso_date t of
             Some d \<Rightarrow> Inr (partition_path klines_dir symbol (iso_text d))
           | None \<Rightarrow> Inl (ValueError ''Invalid isoformat string'')))"

section \<open>Admitted bars\<close>

lemma month_bounds_minutes:
  assumes "month_bounds month = (start, stop)"
  obtains y m d where "ord2ymd month = (y, m, d)" "stop = start + 60000 * (1440 * days_in_month y m)" "0 < days_in_month y m"
proof -
  obtain y m d where o: "ord2ymd month = (y, m, d)" by (metis prod_cases3)
  have "stop = start + 60000 * (1440 * days_in_month y m)"
    using assms by (simp add: month_bounds_def o Let_def utc_ms_def day_ms_def algebra_simps)
  moreover have "0 < days_in_month y m" by (simp add: days_in_month_def)
  ultimately show thesis using that o by blast
qed

lemma minute_grid_month:
  assumes "month_bounds month = (start, stop)"
  shows "t \<in> set (minute_grid start stop) \<longleftrightarrow> start \<le> t \<and> t < stop \<and> (t - start) mod 60000 = 0"
    and "60000 * int (length (minute_grid start stop)) = stop - start"
    and "sorted_wrt (<) (minute_grid start stop)"
proof -
  obtain y m d where stop: "stop = start + 60000 * (1440 * days_in_month y m)" and pos: "0 < days_in_month y m"
    using month_bounds_minutes [OF assms] by metis
  define n where "n = 1440 * days_in_month y m"
  have grid: "minute_grid start stop = map (\<lambda>i. start + 60000 * int i) [0..<nat n]"
  proof -
    have "(60000 * n + 59999) div 60000 = n" by (simp add: div_plus_div_distrib_dvd_left)
    then show ?thesis by (simp add: minute_grid_def stop flip: n_def)
  qed
  have "0 \<le> n" using pos by (simp add: n_def)
  have len: "length (minute_grid start stop) = nat n" unfolding grid by simp
  show "60000 * int (length (minute_grid start stop)) = stop - start"
    unfolding len using stop \<open>0 \<le> n\<close> by (simp add: n_def)
  show "sorted_wrt (<) (minute_grid start stop)" by (auto simp: grid sorted_wrt_iff_nth_less)
  show "t \<in> set (minute_grid start stop) \<longleftrightarrow> start \<le> t \<and> t < stop \<and> (t - start) mod 60000 = 0"
  proof
    assume "t \<in> set (minute_grid start stop)"
    then obtain i where "t = start + 60000 * int i" "int i < n" using \<open>0 \<le> n\<close> by (auto simp: grid)
    then show "start \<le> t \<and> t < stop \<and> (t - start) mod 60000 = 0" by (simp add: stop flip: n_def)
  next
    assume t: "start \<le> t \<and> t < stop \<and> (t - start) mod 60000 = 0"
    define k where "k = (t - start) div 60000"
    have "t = start + 60000 * k" using t by (auto simp: k_def)
    moreover have "0 \<le> k" using t by (simp add: k_def pos_imp_zdiv_nonneg_iff)
    moreover have "k < n" using t \<open>t = start + 60000 * k\<close> by (simp add: stop flip: n_def)
    ultimately have "t = start + 60000 * int (nat k)" "nat k \<in> set [0..<nat n]" by auto
    then show "t \<in> set (minute_grid start stop)" unfolding grid set_map by (rule image_eqI)
  qed
qed

definition fair_bar :: "pynum \<times> pynum \<times> pynum \<times> pynum \<Rightarrow> bool" where
  "fair_bar b \<longleftrightarrow> (\<exists>op hi lo cl. b = (Fin op, Fin hi, Fin lo, Fin cl) \<and> 0 < lo \<and> lo \<le> op \<and> op \<le> hi \<and> lo \<le> cl \<and> cl \<le> hi)"

lemma fair_bars:
  assumes "list_all is_fin (op @ hi @ lo @ cl)" and "\<not> list_ex nonpositive (op @ hi @ lo @ cl)"
    and "\<not> list_ex crossed (zip op (zip hi (zip lo cl)))"
  shows "list_all fair_bar (zip op (zip hi (zip lo cl)))"
  unfolding list_all_iff
proof
  fix b assume b: "b \<in> set (zip op (zip hi (zip lo cl)))"
  obtain x y z w where e: "b = (x, y, z, w)" by (metis prod_cases4)
  then have "x \<in> set op" "y \<in> set hi" "z \<in> set lo" "w \<in> set cl"
    using b by (auto dest: set_zip_leftD set_zip_rightD)
  then have fin: "is_fin x" "is_fin y" "is_fin z" "is_fin w" and pos: "\<not> nonpositive z"
    using assms(1,2) by (auto simp: list_all_iff list_ex_iff)
  have "\<not> crossed (x, y, z, w)" using assms(3) b e by (auto simp: list_ex_iff)
  then show "fair_bar b"
    using fin pos by (cases x; cases y; cases z; cases w) (auto simp: e fair_bar_def crossed_def nonpositive_def)
qed

text \<open>C28: An admitted month of bars is a rectangular frame with one bar for every minute of the month, in order, each available one millisecond after its minute ends, with finite positive prices whose low and high bound open and close, and no negative volume or count.\<close>

theorem admitted_bars_are_complete:
  assumes "source_ok src" and "frame_ok raw" and "normalise_bars src raw symbol month mkt = Inr f"
    and "month_bounds month = (start, stop)"
  shows "frame_ok f \<and> 60000 * int (nrows f) = stop - start
    \<and> (\<exists>opens op hi lo cl vol counts. get_ints f ''open_time'' = Inr opens \<and> sorted_wrt (<) opens
        \<and> (\<forall>t. t \<in> set opens \<longleftrightarrow> start \<le> t \<and> t < stop \<and> (t - start) mod 60000 = 0)
        \<and> get_ints f ''available_at'' = Inr (map (\<lambda>t. t + 60000) opens)
        \<and> get_nums f ''open'' = Inr op \<and> get_nums f ''high'' = Inr hi \<and> get_nums f ''low'' = Inr lo \<and> get_nums f ''close'' = Inr cl
        \<and> list_all fair_bar (zip op (zip hi (zip lo cl)))
        \<and> get_nums f ''volume'' = Inr vol \<and> \<not> list_ex negative vol
        \<and> get_ints f ''trades'' = Inr counts \<and> list_all (\<lambda>c. 0 \<le> c) counts)"
proof -
  obtain fr opens closes op hi lo cl vol qv counts where
      fr: "without_header raw = Inr fr" and times: "bar_times src fr (time_divisor mkt month) = Inr (opens, closes)"
    and grid: "opens = minute_grid start stop" and closes: "closes = map (\<lambda>t. t + 59999) opens"
    and cols: "float_col src fr ''open'' = Inr op" "float_col src fr ''high'' = Inr hi" "float_col src fr ''low'' = Inr lo"
      "float_col src fr ''close'' = Inr cl" "float_col src fr ''volume'' = Inr vol" "float_col src fr ''quote_volume'' = Inr qv"
    and counts: "bnd (get_col fr ''count'') (as_int64 src) = Inr counts"
    and fin: "list_all is_fin (op @ hi @ lo @ cl @ vol @ qv)" and pos: "\<not> list_ex nonpositive (op @ hi @ lo @ cl)"
    and vols: "\<not> list_ex negative (vol @ qv)" "\<not> list_ex (\<lambda>c. c < 0) counts"
    and ohlc: "\<not> list_ex crossed (zip op (zip hi (zip lo cl)))"
    and f: "f = bar_frame mkt symbol opens closes op hi lo cl vol qv counts (nrows fr)"
    using assms(3) unfolding normalise_bars_def bnd_eq_Inr split_paired_Ex case_prod_conv assms(4) guard_eq_Inr not_not
    by blast
  have ok: "frame_ok fr" using fr assms(2) by (auto simp: without_header_def res_simps keep_rows_ok)
  have "length opens = nrows fr"
  proof -
    obtain ts where ts: "bnd (get_col fr ''open_time'') (as_int64 src) = Inr ts" "opens = map (\<lambda>t. t div time_divisor mkt month) ts"
      using times unfolding bar_times_def bnd_eq_Inr by blast
    show ?thesis using converted_ints [OF assms(1) ok ts(1)] ts(2) by simp
  qed
  moreover have "length op = nrows fr" "length hi = nrows fr" "length lo = nrows fr" "length cl = nrows fr" "length vol = nrows fr" "length qv = nrows fr"
    using cols converted_floats [OF assms(1) ok] unfolding float_col_def by blast+
  moreover have "length counts = nrows fr" using counts converted_ints [OF assms(1) ok] by blast
  ultimately have "frame_ok f" by (simp add: f bar_frame_def frame_ok_def closes)
  moreover have "60000 * int (nrows f) = stop - start"
    using minute_grid_month(2) [OF assms(4)] \<open>length opens = nrows fr\<close> by (simp add: f bar_frame_def grid)
  moreover have "list_all fair_bar (zip op (zip hi (zip lo cl)))" using fin pos ohlc by (intro fair_bars) auto
  ultimately show ?thesis
    using minute_grid_month(1,3) [OF assms(4)] vols
    by (auto simp: f bar_frame_def res_simps closes grid comp_def list_all_iff list_ex_iff not_less)
qed

section \<open>Example\<close>

text \<open>A whole month of flat bars, as text.\<close>

definition text_source :: source where
  "text_source =
     \<lparr>checksum_at = \<lambda>_. Inr None, fetch_to = \<lambda>_ _. Inr [], read_text = \<lambda>_. Inl (KeyError []), read_named = \<lambda>_ _. Inl (KeyError []),
      as_int64 = \<lambda>c. (case c of SCol xs \<Rightarrow> Inr (map (\<lambda>x. digits_val (the x)) xs) | _ \<Rightarrow> Inl (TypeError [])),
      as_float64 = \<lambda>c. (case c of SCol xs \<Rightarrow> Inr (map (\<lambda>x. Fin 1) xs) | _ \<Rightarrow> Inl (TypeError []))\<rparr>"

definition june_start :: int where "june_start = 1780272000000"

definition june_minutes :: nat where "june_minutes = 43200"

definition flat_month :: frame where
  "flat_month =
     \<lparr>nrows = june_minutes,
      columns = map (\<lambda>k. (k, SCol (map (\<lambda>i. Some (nat_text (if k = ''open_time'' then nat june_start + 60000 * i
        else if k = ''close_time'' then nat june_start + 60000 * i + 59999 else 1))) [0..<june_minutes]))) kline_columns\<rparr>"

lemma text_source_ok: "source_ok text_source"
  by (auto simp: source_ok_def text_source_def split: column.split_asm)

lemma flat_month_ok: "frame_ok flat_month"
  by (simp add: frame_ok_def flat_month_def list_all_iff) (simp add: kline_columns_def)

lemma june_bounds: "month_bounds 739768 = (june_start, june_start + 60000 * int june_minutes)"
proof -
  have "ord2ymd 739768 = (2026, 6, 1)" by code_simp
  then show ?thesis
    by (simp add: month_bounds_def utc_ms_def day_ms_def epoch_ord_def june_start_def june_minutes_def ymd2ord_def
        days_before_year_def days_before_month_def days_in_month_def is_leap_def upto.simps)
qed

lemma pick_all: "frame_ok f \<Longrightarrow> pick_rows [0..<nrows f] f = f"
proof -
  assume ok: "frame_ok f"
  have same: "col_len c = n \<Longrightarrow> col_pick [0..<n] c = c" for c n by (cases c) (auto simp: map_nth)
  have "col_len c = nrows f" if "(k, c) \<in> set (columns f)" for k c
    using ok that by (auto simp: frame_ok_def list_all_iff)
  then have "map (\<lambda>(k, c). (k, col_pick [0..<nrows f] c)) (columns f) = columns f"
    by (intro map_idI) (auto intro: same)
  then show "pick_rows [0..<nrows f] f = f" by (simp add: pick_rows_def)
qed

lemma flat_col: "k \<in> set kline_columns \<Longrightarrow> get_col flat_month k = Inr (SCol (map (\<lambda>i. Some (nat_text
    (if k = ''open_time'' then nat june_start + 60000 * i
     else if k = ''close_time'' then nat june_start + 60000 * i + 59999 else 1))) [0..<june_minutes]))"
  by (simp add: get_col_def flat_month_def map_of_map_restrict)

lemma flat_ints:
  "bnd (get_col flat_month ''open_time'') (as_int64 text_source) = Inr (map (\<lambda>i. june_start + 60000 * int i) [0..<june_minutes])"
  "bnd (get_col flat_month ''close_time'') (as_int64 text_source) = Inr (map (\<lambda>i. june_start + 60000 * int i + 59999) [0..<june_minutes])"
  "bnd (get_col flat_month ''count'') (as_int64 text_source) = Inr (replicate june_minutes 1)"
  using flat_col [of "''open_time''"] flat_col [of "''close_time''"] flat_col [of "''count''"]
  by (simp_all add: kline_columns_def text_source_def comp_def june_start_def map_replicate_const)

lemma flat_floats: "k \<in> set kline_columns \<Longrightarrow> float_col text_source flat_month k = Inr (replicate june_minutes (Fin 1))"
  by (simp add: float_col_def flat_col) (simp add: text_source_def comp_def map_replicate_const)

lemma flat_head: "without_header flat_month = Inr flat_month"
proof -
  have cells: "get_texts flat_month ''open_time'' = Inr (map (\<lambda>i. Some (nat_text (nat june_start + 60000 * i))) [0..<june_minutes])"
    using flat_col [of "''open_time''"] by (simp add: get_texts_def kline_columns_def)
  have "nat_text n \<noteq> ''open_time''" for n
    using nat_text_digits [of n] by (auto simp: is_digit_def)
  then have "keep_rows (\<lambda>i. map (\<lambda>i. Some (nat_text (nat june_start + 60000 * i))) [0..<june_minutes] ! i \<noteq> Some ''open_time'') flat_month = flat_month"
    using pick_all [OF flat_month_ok] by (simp add: keep_rows_def flat_month_def cong: filter_cong)
  then show ?thesis by (simp add: without_header_def cells)
qed

lemma flat_admitted: "\<exists>f. normalise_bars text_source flat_month ''BTCUSDT'' 739768 ''futures'' = Inr f"
proof -
  have grid: "minute_grid june_start (june_start + 60000 * int june_minutes) = map (\<lambda>i. june_start + 60000 * int i) [0..<june_minutes]"
    by (simp add: minute_grid_def june_minutes_def)
  have times: "bar_times text_source flat_month (time_divisor ''futures'' 739768) =
      Inr (map (\<lambda>i. june_start + 60000 * int i) [0..<june_minutes], map (\<lambda>i. june_start + 60000 * int i + 59999) [0..<june_minutes])"
    by (simp add: bar_times_def flat_ints time_divisor_def comp_def)
  have cols: "col_names flat_month = kline_columns" by (simp add: col_names_def flat_month_def comp_def)
  have "\<not> frame_empty flat_month" by (simp add: frame_empty_def flat_month_def june_minutes_def kline_columns_def)
  moreover have "set (zip (replicate n (Fin 1)) (zip (replicate n (Fin 1)) (zip (replicate n (Fin 1)) (replicate n (Fin 1)))))
      \<subseteq> {(Fin 1, Fin 1, Fin 1, Fin 1)}" for n
    by (auto dest: set_zip_leftD set_zip_rightD simp: zip_replicate)
  ultimately show ?thesis
    by (simp add: normalise_bars_def archive_url_def cols flat_head times flat_ints flat_floats kline_columns_def june_bounds grid
        list_all_iff list_ex_iff nonpositive_def negative_def crossed_def zip_replicate comp_def)
qed

theorem admitted_bars_are_complete_witness:
  "\<exists>f opens. normalise_bars text_source flat_month ''BTCUSDT'' 739768 ''futures'' = Inr f \<and> nrows f = 43200
     \<and> get_ints f ''open_time'' = Inr opens \<and> 1780272060000 \<in> set opens"
proof -
  obtain f where f: "normalise_bars text_source flat_month ''BTCUSDT'' 739768 ''futures'' = Inr f" using flat_admitted by blast
  note month = admitted_bars_are_complete [OF text_source_ok flat_month_ok f june_bounds]
  obtain opens where o: "get_ints f ''open_time'' = Inr opens"
    and mem: "\<And>t. t \<in> set opens \<longleftrightarrow> june_start \<le> t \<and> t < june_start + 60000 * int june_minutes \<and> (t - june_start) mod 60000 = 0"
    using conjunct2 [OF conjunct2 [OF month]] by blast
  have "1780272060000 \<in> set opens" by (simp add: mem june_start_def june_minutes_def)
  moreover have "nrows f = 43200" using conjunct1 [OF conjunct2 [OF month]] by (simp add: june_minutes_def)
  ultimately show ?thesis using f o by blast
qed

end
