(* ===== verification/MarkPrices.thy ===== *)
theory MarkPrices
  imports PriceBars
begin

text \<open>
  Mark-price minute bars (\<open>ingestion/fetch_mark_prices.py\<close>): admission of a monthly archive with
  decimal prices kept as text, reconciling days that the monthly archive omits entirely from daily
  archives, and one stored file per day. An accepted month is the complete minute grid.
\<close>

section \<open>Months and URLs\<close>

definition marks_dir :: string where "marks_dir = ''mark_prices_1m''"

definition marks_dataset :: string where "marks_dataset = ''markPriceKlines''"

definition minute_ms :: int where "minute_ms = 60000"

definition marks_bounds :: "string \<Rightarrow> (int \<times> int) res" where
  "marks_bounds month =
     (if \<not> is_year_month month then Inl (MarkPriceDataError ''month must be YYYY-MM'')
      else (case iso_date (month @ ''-01'') of
              Some d \<Rightarrow> Inr (month_bounds d)
            | None \<Rightarrow> Inl (ValueError ''Invalid isoformat string'')))"

definition marks_url :: "string \<Rightarrow> string \<Rightarrow> string res" where
  "marks_url symbol month =
     bnd (guard (symbol \<notin> {''BTCUSDT'', ''SOLUSDT''}) (MarkPriceDataError ''research symbols are BTCUSDT/SOLUSDT'')) (\<lambda>_.
     bnd (marks_bounds month) (\<lambda>_.
     Inr (archive_base @ ''/monthly/'' @ marks_dataset @ ''/'' @ symbol @ ''/1m/'' @ symbol @ ''-1m-'' @ month @ ''.zip'')))"

section \<open>Admission\<close>

text \<open>A first row that repeats the column names; a missing cell prints as nan.\<close>

definition first_cell :: "column \<Rightarrow> string" where
  "first_cell c = (case c of SCol (Some s # _) \<Rightarrow> s | SCol (None # _) \<Rightarrow> ''nan'' | _ \<Rightarrow> ''not text'')"

definition strip_header :: "frame \<Rightarrow> frame" where
  "strip_header raw =
     (if \<not> frame_empty raw \<and> map (first_cell \<circ> snd) (columns raw) = kline_columns then without_first raw else raw)"

fun conversion_error :: "exn \<Rightarrow> bool" where \<comment> \<open>\<open>except (ValueError, TypeError)\<close>\<close>
  "conversion_error (ValueError _) = True"
| "conversion_error (TypeError _) = True"
| "conversion_error (MarkPriceDataError _) = True"
| "conversion_error _ = False"

definition converted :: "exn \<Rightarrow> 'a res \<Rightarrow> 'a res" where
  "converted e m = (case m of Inl e' \<Rightarrow> if conversion_error e' then Inl e else Inl e' | Inr x \<Rightarrow> Inr x)"

text \<open>
  The number of a positive finite decimal text. Every failure is the same error: the one raised for a
  price that is not positive and finite is itself caught and replaced.
\<close>

definition price_of :: "string option \<Rightarrow> rat res" where
  "price_of c =
     (case c of None \<Rightarrow> Inl (MarkPriceDataError ''invalid decimal mark price'')
      | Some s \<Rightarrow>
          (case parse_decimal s of
             None \<Rightarrow> Inl (MarkPriceDataError ''invalid decimal mark price'')
           | Some d \<Rightarrow>
               (case dec_val d of
                  None \<Rightarrow> Inl (MarkPriceDataError ''invalid decimal mark price'')
                | Some r \<Rightarrow> if 0 < r then Inr r else Inl (MarkPriceDataError ''invalid decimal mark price''))))"

definition price_col :: "frame \<Rightarrow> string \<Rightarrow> (string option list \<times> rat list) res" where
  "price_col f k = bnd (get_texts f k) (\<lambda>xs. bnd (map_res price_of xs) (\<lambda>rs. Inr (xs, rs)))"

definition crossed_mark :: "rat \<times> rat \<times> rat \<times> rat \<Rightarrow> bool" where
  "crossed_mark b = (case b of (op, hi, lo, cl) \<Rightarrow> op < lo \<or> cl < lo \<or> hi < op \<or> hi < cl \<or> hi < lo)"

definition mark_frame ::
  "string \<Rightarrow> int list \<Rightarrow> int list \<Rightarrow> string option list \<Rightarrow> string option list \<Rightarrow> string option list \<Rightarrow> string option list \<Rightarrow> nat \<Rightarrow> frame" where
  "mark_frame symbol opens closes op hi lo cl n =
     \<lparr>nrows = n,
      columns = [(''open_time'', ICol opens), (''close_time'', ICol closes), (''available_at_ms'', ICol (map (\<lambda>t. t + 1) closes)),
        (''symbol'', SCol (replicate n (Some symbol))), (''open'', SCol op), (''high'', SCol hi), (''low'', SCol lo), (''close'', SCol cl),
        (''date'', SCol (map (\<lambda>t. Some (date_of_ms t)) opens))]\<rparr>"

definition normalise_marks :: "source \<Rightarrow> frame \<Rightarrow> string \<Rightarrow> string \<Rightarrow> frame res" where
  "normalise_marks src raw symbol month =
     bnd (marks_url symbol month) (\<lambda>_.
     bnd (guard (col_names raw \<noteq> kline_columns) (MarkPriceDataError ''unexpected mark bar columns'')) (\<lambda>_.
     let f = strip_header raw in
     bnd (marks_bounds month) (\<lambda>(start, stop).
     bnd (guard (int (nrows f) \<noteq> (stop - start) div minute_ms) (MarkPriceDataError ''missing or excess minute bars'')) (\<lambda>_.
     bnd (converted (MarkPriceDataError ''invalid integer millisecond time'') (bar_times src f 1)) (\<lambda>(opens, closes).
     bnd (guard (opens \<noteq> minute_grid start stop) (MarkPriceDataError ''minute calendar is missing, duplicated, unordered or wrong-month'')) (\<lambda>_.
     bnd (guard (closes \<noteq> map (\<lambda>t. t + minute_ms - 1) opens) (MarkPriceDataError ''unexpected minute close time'')) (\<lambda>_.
     bnd (price_col f ''open'') (\<lambda>(op, op'). bnd (price_col f ''high'') (\<lambda>(hi, hi').
     bnd (price_col f ''low'') (\<lambda>(lo, lo'). bnd (price_col f ''close'') (\<lambda>(cl, cl').
     bnd (guard (list_ex crossed_mark (zip op' (zip hi' (zip lo' cl')))) (MarkPriceDataError ''inconsistent mark OHLC extrema'')) (\<lambda>_.
     Inr (mark_frame symbol opens closes op hi lo cl (nrows f))))))))))))))"

section \<open>Omitted days\<close>

definition daily_marks_url :: "string \<Rightarrow> string \<Rightarrow> string" where
  "daily_marks_url symbol date =
     archive_base @ ''/daily/'' @ marks_dataset @ ''/'' @ symbol @ ''/1m/'' @ symbol @ ''-1m-'' @ date @ ''.zip''"

definition marks_cache :: "location \<Rightarrow> string \<Rightarrow> location" where
  "marks_cache base url = base @ [''.cache'', marks_dataset, last_segment url]"

definition day_grid :: "int \<Rightarrow> int list" where "day_grid day = minute_grid day (day + day_ms)"

text \<open>The days that are missing as a whole; none when nothing is missing or the archive is not an ordered part of the month.\<close>

definition missing_days :: "int list \<Rightarrow> int list \<Rightarrow> int list" where
  "missing_days stamps full =
     (let missing = filter (\<lambda>t. t \<notin> set stamps) full; days = sort (remdups (map (\<lambda>t. t div day_ms * day_ms) missing)) in
      if stamps \<noteq> sort (remdups stamps) \<or> \<not> set stamps \<subseteq> set full then []
      else if list_ex (\<lambda>day. \<not> set (day_grid day) \<subseteq> set missing) days then [] else days)"

definition archive_json :: "string \<Rightarrow> string \<Rightarrow> nat \<Rightarrow> nat \<Rightarrow> json" where
  "archive_json url digest rows bytes =
     JDict [(''url'', JStr url), (''sha256'', JStr digest), (''rows'', JInt (int rows)), (''archive_bytes'', JInt (int bytes))]"

definition file_size :: "disk \<Rightarrow> location \<Rightarrow> nat" where
  "file_size d p = (case d p of Some c \<Rightarrow> length c | None \<Rightarrow> 0)"

definition daily_archive :: "host \<Rightarrow> location \<Rightarrow> string \<Rightarrow> int \<Rightarrow> disk \<Rightarrow> disk \<times> (frame \<times> json) res" where
  "daily_archive h base symbol day d =
     (let url = daily_marks_url symbol (iso_text (day_of_ms day)); p = marks_cache base url in
      case fetch_archive h is_digest (MarkPriceDataError ''supplemental daily SHA-256 is required'') url p d of
        (d', Inl e) \<Rightarrow> (d', Inl e)
      | (d', Inr (digest, raw)) \<Rightarrow>
          (let daily = strip_header raw in
           (d', bnd (bnd (get_col daily ''open_time'') (as_int64 (ht_source h))) (\<lambda>actual.
                bnd (guard (actual \<noteq> day_grid day) (MarkPriceDataError ''supplemental daily minute calendar mismatch'')) (\<lambda>_.
                Inr (daily, archive_json url digest (nrows daily) (file_size d' p)))))))"

fun daily_archives :: "host \<Rightarrow> location \<Rightarrow> string \<Rightarrow> int list \<Rightarrow> disk \<Rightarrow> disk \<times> (frame \<times> json) list res" where
  "daily_archives h base symbol [] d = (d, Inr [])"
| "daily_archives h base symbol (day # days) d =
     (case daily_archive h base symbol day d of
        (d', Inl e) \<Rightarrow> (d', Inl e)
      | (d', Inr x) \<Rightarrow>
          (case daily_archives h base symbol days d' of
             (d2, Inl e) \<Rightarrow> (d2, Inl e)
           | (d2, Inr xs) \<Rightarrow> (d2, Inr (x # xs))))"

definition merge_rows :: "source \<Rightarrow> frame list \<Rightarrow> frame res" where
  "merge_rows src fs =
     (let f = row_groups fs in
      bnd (bnd (get_col f ''open_time'') (as_int64 src)) (\<lambda>ts.
      Inr (pick_rows (sort_key ((!) ts) [0..<nrows f]) f)))"

definition supplement_missing_days ::
  "host \<Rightarrow> location \<Rightarrow> frame \<Rightarrow> string \<Rightarrow> string \<Rightarrow> disk \<Rightarrow> disk \<times> (frame \<times> json list) res" where
  "supplement_missing_days h base raw symbol month d =
     (case marks_bounds month of
        Inl e \<Rightarrow> (d, Inl e)
      | Inr (start, stop) \<Rightarrow>
          (case bnd (get_col raw ''open_time'') (as_int64 (ht_source h)) of
             Inl e \<Rightarrow> (d, if conversion_error e then Inr (raw, []) else Inl e)
           | Inr stamps \<Rightarrow>
               (let days = missing_days stamps (minute_grid start stop) in
                if days = [] then (d, Inr (raw, []))
                else (case daily_archives h base symbol days d of
                        (d', Inl e) \<Rightarrow> (d', Inl e)
                      | (d', Inr xs) \<Rightarrow>
                          (d', bnd (merge_rows (ht_source h) (raw # map fst xs)) (\<lambda>f. Inr (f, map snd xs)))))))"

section \<open>Fetching and storing\<close>

definition marks_report :: "string \<Rightarrow> string \<Rightarrow> string \<Rightarrow> string \<Rightarrow> nat \<Rightarrow> frame \<Rightarrow> nat \<Rightarrow> json list \<Rightarrow> json res" where
  "marks_report symbol month url digest bytes f rows supplements =
     bnd (get_ints f ''open_time'') (\<lambda>opens. bnd (get_ints f ''available_at_ms'') (\<lambda>available.
     Inr (JDict [(''symbol'', JStr symbol), (''month'', JStr month), (''url'', JStr url), (''sha256'', JStr digest),
       (''archive_bytes'', JInt (int bytes)), (''rows'', JInt (int (nrows f))), (''first_open_ms'', JInt (hd opens)),
       (''last_available_ms'', JInt (last available)), (''monthly_rows'', JInt (int rows)), (''supplemental_daily_archives'', JList supplements)])))"

definition fetch_marks_month :: "host \<Rightarrow> location \<Rightarrow> string \<Rightarrow> string \<Rightarrow> disk \<Rightarrow> disk \<times> (frame \<times> json) res" where
  "fetch_marks_month h base symbol month d =
     (case marks_url symbol month of
        Inl e \<Rightarrow> (d, Inl e)
      | Inr url \<Rightarrow>
          (let p = marks_cache base url in
           case fetch_archive h is_digest (MarkPriceDataError ''published SHA-256 is required'') url p d of
             (d1, Inl e) \<Rightarrow> (d1, Inl e)
           | (d1, Inr (digest, raw0)) \<Rightarrow>
               (let raw = strip_header raw0 in
                case supplement_missing_days h base raw symbol month d1 of
                  (d2, Inl e) \<Rightarrow> (d2, Inl e)
                | (d2, Inr (merged, supplements)) \<Rightarrow>
                    (d2, bnd (normalise_marks (ht_source h) merged symbol month) (\<lambda>f.
                         bnd (marks_report symbol month url digest (file_size d2 p) f (nrows raw) supplements) (\<lambda>report.
                         Inr (f, report)))))))"

definition marks_partition :: "string \<Rightarrow> string \<Rightarrow> path" where
  "marks_partition symbol day = partition_path marks_dir symbol day"

text \<open>One file per symbol and day, in the order of the groups; rows without a key belong to no group.\<close>

definition store_marks :: "frame \<Rightarrow> store \<Rightarrow> store \<times> path list res" where
  "store_marks f st =
     (case bnd (get_texts f ''symbol'') (\<lambda>ss. bnd (get_texts f ''date'') (\<lambda>ds. Inr (ss, ds))) of
        Inl e \<Rightarrow> (st, Inl e)
      | Inr (ss, ds) \<Rightarrow>
          (let keys = remdups (List.map_filter (\<lambda>(s, d). case (s, d) of (Some s, Some d) \<Rightarrow> Some (s, d) | _ \<Rightarrow> None) (zip ss ds));
               groups = sort_key fst (sort_key snd keys) in
           (\<lambda>p. case find (\<lambda>(s, day). marks_partition s day = p) groups of
                   Some (s, day) \<Rightarrow> Some (drop_cols [''symbol'', ''date''] (keep_rows (\<lambda>i. ss ! i = Some s \<and> ds ! i = Some day) f))
                 | None \<Rightarrow> st p,
            Inr (map (\<lambda>(s, day). marks_partition s day @ [''data.parquet'']) groups))))"

section \<open>Admitted months\<close>

text \<open>What the positional reader returns: text columns under the given names.\<close>

fun is_text :: "column \<Rightarrow> bool" where
  "is_text (SCol _) = True"
| "is_text _ = False"

definition text_frame :: "frame \<Rightarrow> bool" where
  "text_frame f \<longleftrightarrow> frame_ok f \<and> col_names f = kline_columns \<and> list_all (is_text \<circ> snd) (columns f)"

lemma is_text_pick [simp]: "is_text (col_pick is c) = is_text c"
  by (cases c) simp_all

lemma is_text_append: "is_text c \<Longrightarrow> is_text c' \<Longrightarrow> is_text (col_append c c') \<and> col_len (col_append c c') = col_len c + col_len c'"
  by (cases c; cases c') simp_all

definition host_ok :: "host \<Rightarrow> bool" where
  "host_ok h \<longleftrightarrow> source_ok (ht_source h)
     \<and> (\<forall>b m f. zip_csv (ht_reader h) b m = Inr f \<longrightarrow> text_frame f)
     \<and> (\<forall>b f. gzip_csv (ht_reader h) b = Inr f \<longrightarrow> text_frame f)
     \<and> (\<forall>b f. plain_csv (ht_reader h) b = Inr f \<longrightarrow> text_frame f)"

lemma text_frame_pick: "text_frame f \<Longrightarrow> text_frame (pick_rows is f)"
  by (auto simp: text_frame_def pick_rows_ok) (auto simp: pick_rows_def col_names_def comp_def case_prod_beta list_all_iff)

lemma text_frame_strip: "text_frame f \<Longrightarrow> text_frame (strip_header f)"
  by (simp add: strip_header_def without_first_def text_frame_pick)

lemma text_frame_append:
  assumes f: "text_frame f" and g: "text_frame g"
  shows "text_frame (frame_append f g)"
proof -
  have len: "length (columns f) = length (columns g)"
    using f g unfolding text_frame_def col_names_def by (metis length_map)
  have "map fst (map2 (\<lambda>(k, c) (_, c'). (k, col_append c c')) xs ys) = map fst xs"
    if "length xs = length ys" for xs ys :: "(string \<times> column) list"
    using that by (induction xs ys rule: list_induct2) auto
  then have names: "col_names (frame_append f g) = col_names f"
    using len by (simp add: col_names_def frame_append_def)
  have "is_text c \<and> col_len c = nrows f + nrows g" if m: "(k, c) \<in> set (columns (frame_append f g))" for k c
  proof -
    obtain k1 c1 k2 c2 where z: "((k1, c1), (k2, c2)) \<in> set (zip (columns f) (columns g))" "c = col_append c1 c2"
      using m by (auto simp: frame_append_def)
    then have in1: "(k1, c1) \<in> set (columns f)" and in2: "(k2, c2) \<in> set (columns g)"
      by (auto dest: set_zip_leftD set_zip_rightD)
    have "is_text c1" "col_len c1 = nrows f" "is_text c2" "col_len c2 = nrows g"
      using f g in1 in2 by (auto simp: text_frame_def frame_ok_def list_all_iff)
    then show ?thesis using is_text_append [of c1 c2] z(2) by simp
  qed
  moreover have "nrows (frame_append f g) = nrows f + nrows g" by (simp add: frame_append_def)
  ultimately have "list_all (is_text \<circ> snd) (columns (frame_append f g))"
    "list_all (\<lambda>(_, c). col_len c = nrows (frame_append f g)) (columns (frame_append f g))"
    by (auto simp: list_all_iff)
  then show ?thesis
    using f names by (auto simp: text_frame_def frame_ok_def col_names_def)
qed

lemma text_frame_groups: "list_all text_frame fs \<Longrightarrow> fs \<noteq> [] \<Longrightarrow> text_frame (row_groups fs)"
proof -
  have "list_all text_frame gs \<Longrightarrow> text_frame f \<Longrightarrow> text_frame (foldl frame_append f gs)" for f gs
    by (induction gs arbitrary: f) (auto intro: text_frame_append)
  then show "list_all text_frame fs \<Longrightarrow> fs \<noteq> [] \<Longrightarrow> text_frame (row_groups fs)"
    by (cases fs) (simp_all add: row_groups_def)
qed

lemma archive_text:
  "host_ok h \<Longrightarrow> fetch_archive h ok e url p d = (d', Inr (digest, f)) \<Longrightarrow> text_frame f"
  by (auto simp: fetch_archive_def host_ok_def extract_csv_def Let_def res_simps split: sum.splits prod.splits option.splits if_splits)

lemma daily_text:
  "host_ok h \<Longrightarrow> daily_archives h base symbol days d = (d2, Inr xs) \<Longrightarrow> list_all text_frame (map fst xs)"
proof (induction days arbitrary: d d2 xs)
  case (Cons day days)
  obtain d1 x d2 ys where s: "daily_archive h base symbol day d = (d1, Inr x)" "daily_archives h base symbol days d1 = (d2, Inr ys)" "xs = x # ys"
    using Cons.prems(2) by (auto split: prod.splits sum.splits)
  have "text_frame (fst x)"
    using s(1) by (auto simp: daily_archive_def Let_def res_simps split: prod.splits sum.splits
        dest!: archive_text [OF Cons.prems(1)] intro: text_frame_strip)
  then show ?case using Cons.IH [OF Cons.prems(1) s(2)] s(3) by simp
qed simp

lemma merge_text: "merge_rows src fs = Inr f \<Longrightarrow> list_all text_frame fs \<Longrightarrow> fs \<noteq> [] \<Longrightarrow> text_frame f"
  by (auto simp: merge_rows_def Let_def res_simps intro!: text_frame_pick text_frame_groups)

lemma supplement_text:
  assumes "host_ok h" and "text_frame raw" and "supplement_missing_days h base raw symbol month d = (d', Inr (f, reports))"
  shows "text_frame f"
proof -
  have "f = raw \<or> (\<exists>days d2 xs. daily_archives h base symbol days d = (d2, Inr xs) \<and> merge_rows (ht_source h) (raw # map fst xs) = Inr f)"
    using assms(3) by (auto simp: supplement_missing_days_def Let_def res_simps split: sum.splits prod.splits if_splits)
  then show ?thesis
  proof (elim disjE exE conjE)
    fix days d2 xs
    assume "daily_archives h base symbol days d = (d2, Inr xs)" "merge_rows (ht_source h) (raw # map fst xs) = Inr f"
    then show ?thesis using daily_text [OF assms(1)] assms(2) by (intro merge_text) auto
  qed (simp add: assms(2))
qed

definition fair_mark :: "rat \<times> rat \<times> rat \<times> rat \<Rightarrow> bool" where
  "fair_mark b = (case b of (op, hi, lo, cl) \<Rightarrow> 0 < lo \<and> lo \<le> op \<and> op \<le> hi \<and> lo \<le> cl \<and> cl \<le> hi)"

lemma price_of_positive: "price_of c = Inr r \<Longrightarrow> 0 < r"
  by (auto simp: price_of_def split: option.splits if_splits)

lemma fair_marks:
  assumes "\<not> list_ex crossed_mark (zip op (zip hi (zip lo cl)))" and "map_res price_of xs = Inr lo"
  shows "list_all fair_mark (zip op (zip hi (zip lo cl)))"
  unfolding list_all_iff
proof
  fix b assume b: "b \<in> set (zip op (zip hi (zip lo cl)))"
  obtain x y z w where e: "b = (x, y, z, w)" by (metis prod_cases4)
  then have "z \<in> set lo" using b by (auto dest: set_zip_leftD set_zip_rightD)
  then have "0 < z" using assms(2) price_of_positive by (meson map_res_origin)
  moreover have "\<not> crossed_mark (x, y, z, w)" using assms(1) b e by (auto simp: list_ex_iff)
  ultimately show "fair_mark b" by (auto simp: e fair_mark_def crossed_mark_def)
qed

section \<open>Rows\<close>

text \<open>A text frame by rows: what a selection, a concatenation and the merge of archives keep.\<close>

fun text_cells :: "column \<Rightarrow> string option list" where
  "text_cells (SCol xs) = xs"
| "text_cells _ = []"

definition text_rows :: "frame \<Rightarrow> string option list list" where
  "text_rows f = map (\<lambda>i. map (\<lambda>(_, c). text_cells c ! i) (columns f)) [0..<nrows f]"

lemma text_rows_length [simp]: "length (text_rows f) = nrows f"
  by (simp add: text_rows_def)

lemma text_column:
  assumes "text_frame f" and "(k, c) \<in> set (columns f)"
  shows "c = SCol (text_cells c) \<and> length (text_cells c) = nrows f"
  using assms by (cases c) (auto simp: text_frame_def frame_ok_def list_all_iff)

lemma text_rows_pick:
  assumes "text_frame f" and "set is \<subseteq> {..<nrows f}"
  shows "text_rows (pick_rows is f) = map ((!) (text_rows f)) is"
proof (rule nth_equalityI)
  fix j assume "j < length (text_rows (pick_rows is f))"
  then have j: "j < length is" by (simp add: pick_rows_def)
  have "is ! j < nrows f" using assms(2) j by (auto dest: nth_mem)
  moreover have "text_cells (col_pick is c) ! j = text_cells c ! (is ! j)" if "(k, c) \<in> set (columns f)" for k c
    using text_column [OF assms(1) that] j by (cases c) simp_all
  ultimately show "text_rows (pick_rows is f) ! j = map ((!) (text_rows f)) is ! j"
    using j by (auto simp: text_rows_def pick_rows_def)
qed (simp add: pick_rows_def)

lemma text_get:
  assumes "text_frame f" and "k < 12"
  shows "get_col f (kline_columns ! k) = Inr (SCol (map (\<lambda>r. r ! k) (text_rows f)))"
proof -
  have n: "length (columns f) = 12" and nm: "map fst (columns f) = kline_columns"
    using assms(1) by (auto simp: text_frame_def col_names_def kline_columns_def dest!: arg_cong [where f = length])
  obtain c where c: "columns f ! k = (kline_columns ! k, c)"
    using assms(2) n by (metis nm nth_map prod.collapse)
  then have m: "(kline_columns ! k, c) \<in> set (columns f)" using assms(2) n by (metis nth_mem)
  then have "map_of (columns f) (kline_columns ! k) = Some c"
    using assms(1) by (intro map_of_is_SomeI) (simp_all add: text_frame_def frame_ok_def)
  moreover have "text_cells c = map (\<lambda>r. r ! k) (text_rows f)"
    using text_column [OF assms(1) m] assms(2) n by (intro nth_equalityI) (auto simp: text_rows_def c)
  ultimately show ?thesis using text_column [OF assms(1) m] by (simp add: get_col_def)
qed

lemma text_rows_append:
  assumes f: "text_frame f" and g: "text_frame g"
  shows "text_rows (frame_append f g) = text_rows f @ text_rows g"
proof (rule nth_equalityI)
  have len: "length (columns f) = length (columns g)"
    using f g unfolding text_frame_def col_names_def by (metis length_map)
  fix i assume "i < length (text_rows (frame_append f g))"
  then have i: "i < nrows f + nrows g" by (simp add: frame_append_def)
  have "text_cells (snd (columns (frame_append f g) ! j)) ! i
      = (if i < nrows f then text_cells (snd (columns f ! j)) ! i else text_cells (snd (columns g ! j)) ! (i - nrows f))"
    if j: "j < length (columns f)" for j
  proof -
    obtain k c k' c' where c: "columns f ! j = (k, c)" "columns g ! j = (k', c')" by (meson surj_pair)
    then have "(k, c) \<in> set (columns f)" "(k', c') \<in> set (columns g)" using j len by (metis nth_mem)+
    then have t: "c = SCol (text_cells c)" "c' = SCol (text_cells c')" "length (text_cells c) = nrows f"
      using text_column [OF f] text_column [OF g] by blast+
    have "col_append c c' = SCol (text_cells c @ text_cells c')" by (subst t(1), subst t(2)) simp
    then show ?thesis using j len c t(3) by (simp add: frame_append_def nth_append)
  qed
  then show "text_rows (frame_append f g) ! i = (text_rows f @ text_rows g) ! i"
    using i len by (intro nth_equalityI)
      (auto simp: text_rows_def nth_append frame_append_def case_prod_beta)
qed (simp add: frame_append_def)

lemma text_rows_groups:
  assumes "list_all text_frame (f # fs)"
  shows "text_rows (row_groups (f # fs)) = concat (map text_rows (f # fs))"
proof -
  have "list_all text_frame gs \<Longrightarrow> text_frame f \<Longrightarrow> text_rows (foldl frame_append f gs) = text_rows f @ concat (map text_rows gs)" for f gs
    by (induction gs arbitrary: f) (auto simp: text_rows_append text_frame_append)
  then show ?thesis using assms by (simp add: row_groups_def)
qed

section \<open>Cell by cell conversion\<close>

text \<open>\<open>astype("int64")\<close> on text converts each cell on its own, and a column's name is no number.\<close>

definition cellwise :: "source \<Rightarrow> bool" where
  "cellwise src \<longleftrightarrow> (\<exists>num. num (Some ''open_time'') = None
     \<and> (\<forall>xs ns. as_int64 src (SCol xs) = Inr ns \<longleftrightarrow> map num xs = map Some ns))"

definition open_stamps :: "source \<Rightarrow> frame \<Rightarrow> int list res" where
  "open_stamps src f = bnd (get_col f ''open_time'') (as_int64 src)"

lemma text_stamps: "text_frame f \<Longrightarrow> open_stamps src f = as_int64 src (SCol (map (\<lambda>r. r ! 0) (text_rows f)))"
  using text_get [of f 0] by (simp add: open_stamps_def kline_columns_def)

lemma strip_converted:
  assumes "cellwise src" and "text_frame f" and "open_stamps src f = Inr ts"
  shows "strip_header f = f"
proof (rule ccontr)
  assume "strip_header f \<noteq> f"
  then have h: "\<not> frame_empty f" "map (first_cell \<circ> snd) (columns f) = kline_columns"
    by (auto simp: strip_header_def split: if_splits)
  obtain num where num: "num (Some ''open_time'') = None" "\<And>xs ns. as_int64 src (SCol xs) = Inr ns \<longleftrightarrow> map num xs = map Some ns"
    using assms(1) by (auto simp: cellwise_def)
  obtain xs where xs: "get_col f ''open_time'' = Inr (SCol xs)" "length xs = nrows f"
    using text_get [OF assms(2), of 0] by (simp add: kline_columns_def)
  obtain cs where cs: "columns f = (''open_time'', SCol xs) # cs"
    using assms(2) xs h(2) by (cases "columns f") (auto simp: text_frame_def col_names_def kline_columns_def get_col_def)
  have "first_cell (SCol xs) = ''open_time''" using h(2) by (simp add: cs kline_columns_def)
  then have "\<exists>ys. xs = Some ''open_time'' # ys"
    using h(1) xs(2) by (auto simp: first_cell_def frame_empty_def split: list.splits option.splits)
  then show False using assms(3) num by (auto simp: open_stamps_def xs(1))
qed


section \<open>Whole days\<close>

lemma whole_multiple: "(x :: int) mod c = 0 \<Longrightarrow> \<exists>k. x = c * k"
  by (metis dvd_def mod_0_imp_dvd)

definition days_of_month :: "int \<Rightarrow> int \<Rightarrow> int list" where
  "days_of_month start stop = map (\<lambda>i. start + day_ms * int i) [0..<nat ((stop - start) div day_ms)]"

definition omitted_days :: "int list \<Rightarrow> int \<Rightarrow> int \<Rightarrow> int list" where
  "omitted_days ts start stop = filter (\<lambda>day. list_all (\<lambda>t. t \<notin> set ts) (day_grid day)) (days_of_month start stop)"

lemma day_grid_member: "t \<in> set (day_grid day) \<longleftrightarrow> day \<le> t \<and> t < day + day_ms \<and> (t - day) mod 60000 = 0"
proof -
  have n: "nat ((day_ms + 59999) div 60000) = 1440" by (simp add: day_ms_def)
  have "t \<in> set (day_grid day) \<longleftrightarrow> (\<exists>i < 1440. t = day + 60000 * int i)"
    by (auto simp: day_grid_def minute_grid_def n [simplified] day_ms_def)
  also have "\<dots> \<longleftrightarrow> day \<le> t \<and> t < day + day_ms \<and> (t - day) mod 60000 = 0"
  proof
    assume t: "day \<le> t \<and> t < day + day_ms \<and> (t - day) mod 60000 = 0"
    then obtain k where k: "t = day + 60000 * k" using whole_multiple [of "t - day" 60000] by (metis add.commute diff_add_cancel)
    then have "0 \<le> k" "k < 1440" using t by (simp_all add: day_ms_def)
    then show "\<exists>i < 1440. t = day + 60000 * int i" using k by (intro exI [of _ "nat k"]) auto
  qed (auto simp: day_ms_def)
  finally show ?thesis .
qed

lemma day_grid_sorted: "sorted_wrt (<) (day_grid day)" and day_grid_length: "length (day_grid day) = 1440"
  by (auto simp: day_grid_def minute_grid_def sorted_wrt_iff_nth_less day_ms_def)

text \<open>The bounds of a month: whole days, each within the grid.\<close>

definition whole_days :: "int \<Rightarrow> int \<Rightarrow> bool" where
  "whole_days start stop \<longleftrightarrow> start mod day_ms = 0 \<and> stop mod day_ms = 0 \<and> start < stop"

lemma marks_month:
  assumes "marks_bounds month = Inr (start, stop)"
  shows "whole_days start stop" "sorted_wrt (<) (minute_grid start stop)"
    "60000 * int (length (minute_grid start stop)) = stop - start"
    "t \<in> set (minute_grid start stop) \<longleftrightarrow> start \<le> t \<and> t < stop \<and> t mod 60000 = 0"
proof -
  obtain day where day: "month_bounds day = (start, stop)"
    using assms by (auto simp: marks_bounds_def split: if_splits option.splits)
  obtain y m d where o: "ord2ymd day = (y, m, d)" by (metis prod_cases3)
  have s: "start mod day_ms = 0" using day by (auto simp: month_bounds_def o Let_def utc_ms_def)
  obtain y m d where st: "stop = start + 60000 * (1440 * days_in_month y m)" "0 < days_in_month y m"
    using month_bounds_minutes [OF day] by metis
  then have "stop = start + day_ms * days_in_month y m" by (simp add: day_ms_def)
  then show "whole_days start stop" using s st by (simp add: whole_days_def)
  note g = minute_grid_month [OF day]
  show "sorted_wrt (<) (minute_grid start stop)" "60000 * int (length (minute_grid start stop)) = stop - start"
    by (rule g)+
  obtain k where "start = 60000 * k" using s whole_multiple [of start day_ms] whole_multiple [of "start" 60000] by (auto simp: day_ms_def mod_mult_right_eq dest: whole_multiple)
  then have "(t - start) mod 60000 = t mod 60000" by (metis minus_mult_div_eq_mod mod_mult_self4 diff_add_cancel mult.commute add.commute)
  then show "t \<in> set (minute_grid start stop) \<longleftrightarrow> start \<le> t \<and> t < stop \<and> t mod 60000 = 0" by (simp add: g)
qed

lemma days_of_month_member:
  assumes "whole_days start stop"
  shows "day \<in> set (days_of_month start stop) \<longleftrightarrow> start \<le> day \<and> day < stop \<and> day mod day_ms = 0"
proof -
  obtain a b where ab: "start = day_ms * a" "stop = day_ms * b" using assms whole_multiple unfolding whole_days_def by metis
  have "0 < day_ms" by (simp add: day_ms_def)
  have n: "(stop - start) div day_ms = b - a" using \<open>0 < day_ms\<close> by (simp add: ab flip: right_diff_distrib)
  show ?thesis
  proof
    assume "day \<in> set (days_of_month start stop)"
    then obtain i where "day = day_ms * (a + int i)" "int i < b - a"
      unfolding days_of_month_def n by (auto simp only: ab distrib_left set_map set_upt image_iff atLeastLessThan_iff zless_nat_eq_int_zless)
    then show "start \<le> day \<and> day < stop \<and> day mod day_ms = 0" using \<open>0 < day_ms\<close> by (simp add: ab)
  next
    assume d: "start \<le> day \<and> day < stop \<and> day mod day_ms = 0"
    then obtain k where k: "day = day_ms * k" using whole_multiple by metis
    then have "a \<le> k" "k < b" using d \<open>0 < day_ms\<close> by (simp_all add: ab)
    then show "day \<in> set (days_of_month start stop)"
      unfolding days_of_month_def n by (auto simp: ab k image_iff algebra_simps intro!: bexI [of _ "nat (k - a)"])
  qed
qed

lemma days_of_month_sorted: "sorted_wrt (<) (days_of_month start stop)"
  by (auto simp: days_of_month_def sorted_wrt_iff_nth_less day_ms_def)

lemma minute_day:
  assumes "whole_days start stop" and "start \<le> t" "t < stop" "t mod 60000 = 0"
  shows "t div day_ms * day_ms \<in> set (days_of_month start stop)" "t \<in> set (day_grid (t div day_ms * day_ms))"
proof -
  have f: "t div day_ms * day_ms \<le> t" "t < t div day_ms * day_ms + day_ms" "(t div day_ms * day_ms) mod 60000 = 0"
  proof -
    have "t div day_ms * day_ms = 60000 * (1440 * (t div day_ms))" by (simp add: day_ms_def)
    then show "(t div day_ms * day_ms) mod 60000 = 0" by (metis mod_mult_self1_is_0)
  qed (simp_all add: day_ms_def flip: minus_mod_eq_div_mult)
  obtain a where a: "start = day_ms * a" using assms(1) whole_multiple unfolding whole_days_def by metis
  have "a \<le> t div day_ms" using assms(2) by (simp add: a day_ms_def)
  then have "start \<le> t div day_ms * day_ms" by (simp add: a day_ms_def)
  then show "t div day_ms * day_ms \<in> set (days_of_month start stop)" using f assms(3) by (simp add: days_of_month_member [OF assms(1)])
  show "t \<in> set (day_grid (t div day_ms * day_ms))" using f assms(4) 
    unfolding day_grid_member by (metis diff_self mod_0 mod_diff_eq)
qed

lemma day_minute:
  assumes "whole_days start stop" and "day \<in> set (days_of_month start stop)" and "t \<in> set (day_grid day)"
  shows "start \<le> t" "t < stop" "t mod 60000 = 0" "t div day_ms * day_ms = day"
proof -
  obtain k where k: "day = day_ms * k" "start \<le> day" "day < stop" using assms(2) whole_multiple unfolding days_of_month_member [OF assms(1)] by metis
  obtain b where b: "stop = day_ms * b" using assms(1) whole_multiple unfolding whole_days_def by metis
  have t: "day \<le> t" "t < day + day_ms" "(t - day) mod 60000 = 0" using assms(3) by (simp_all add: day_grid_member)
  show "start \<le> t" using t k by simp
  have "k < b" using k(3) by (simp add: k(1) b day_ms_def)
  then have "day + day_ms \<le> stop" by (simp add: k(1) b day_ms_def)
  then show "t < stop" using t by simp
  obtain j where "t - day = 60000 * j" using whole_multiple [OF t(3)] by blast
  then have "t = 60000 * (j + 1440 * k)" by (simp add: k(1) day_ms_def algebra_simps)
  then show "t mod 60000 = 0" by simp
  have "t div day_ms = k" using t(1,2) by (intro int_div_pos_eq [of t day_ms k "t - day"]) (simp_all add: k(1))
  then show "t div day_ms * day_ms = day" by (simp add: k(1))
qed

lemma sorted_same_set:
  assumes "sorted_wrt (<) xs" and "sorted_wrt (<) ys" and "set xs = set ys"
  shows "xs = (ys :: int list)"
  using assms by (simp add: strict_sorted_equal)

lemma omitted_sorted: "sorted_wrt (<) (omitted_days ts start stop)"
  by (simp add: omitted_days_def sorted_wrt_filter days_of_month_sorted)

lemma omitted_member:
  "day \<in> set (omitted_days ts start stop) \<longleftrightarrow> day \<in> set (days_of_month start stop) \<and> set (day_grid day) \<inter> set ts = {}"
  by (auto simp: omitted_days_def list_all_iff)

lemma omitted_none: "marks_bounds month = Inr (start, stop) \<Longrightarrow> omitted_days (minute_grid start stop) start stop = []"
proof -
  assume m: "marks_bounds month = Inr (start, stop)"
  have "day \<in> set (day_grid day) \<inter> set (minute_grid start stop)" if "day \<in> set (days_of_month start stop)" for day
  proof -
    have "day \<in> set (day_grid day)" by (simp add: day_grid_member day_ms_def)
    then show ?thesis using day_minute [OF marks_month(1) [OF m] that] by (simp add: marks_month(4) [OF m])
  qed
  then show ?thesis by (auto simp: filter_empty_conv omitted_days_def list_all_iff)
qed

text \<open>The days that the code repairs are the days without a minute.\<close>

lemma missing_are_omitted:
  assumes m: "marks_bounds month = Inr (start, stop)" and "missing_days ts (minute_grid start stop) \<noteq> []"
  shows "missing_days ts (minute_grid start stop) = omitted_days ts start stop"
    and "ts = filter (\<lambda>t. t div day_ms * day_ms \<notin> set (omitted_days ts start stop)) (minute_grid start stop)"
proof -
  define missing where "missing = filter (\<lambda>t. t \<notin> set ts) (minute_grid start stop)"
  define days where "days = sort (remdups (map (\<lambda>t. t div day_ms * day_ms) missing))"
  have d: "missing_days ts (minute_grid start stop) = days" "ts = sort (remdups ts)" "set ts \<subseteq> set (minute_grid start stop)"
    "\<And>day. day \<in> set days \<Longrightarrow> set (day_grid day) \<subseteq> set missing"
    using assms(2) by (auto simp: missing_days_def Let_def list_ex_iff simp flip: missing_def days_def split: if_splits)
  note w = marks_month(1) [OF m] and g = marks_month(4) [OF m]
  have same: "set days = set (omitted_days ts start stop)"
  proof (intro set_eqI iffI)
    fix day assume day: "day \<in> set days"
    then obtain t where "t \<in> set (minute_grid start stop)" "day = t div day_ms * day_ms"
      by (auto simp: days_def missing_def)
    then have "day \<in> set (days_of_month start stop)" using minute_day(1) [OF w] g by simp
    then show "day \<in> set (omitted_days ts start stop)" using d(4) [OF day] by (auto simp: omitted_member missing_def)
  next
    fix day assume day: "day \<in> set (omitted_days ts start stop)"
    have "day \<in> set (day_grid day)" by (simp add: day_grid_member day_ms_def)
    then have "day \<in> set missing" "day div day_ms * day_ms = day"
      using day day_minute [OF w, of day day] by (auto simp: omitted_member missing_def g)
    then show "day \<in> set days" by (force simp: days_def)
  qed
  have "sorted_wrt (<) days" unfolding days_def strict_sorted_iff by simp
  then show e: "missing_days ts (minute_grid start stop) = omitted_days ts start stop"
    unfolding d(1) by (rule sorted_same_set [OF _ omitted_sorted same])
  have "sorted_wrt (<) ts" by (subst d(2)) (simp add: strict_sorted_iff)
  moreover have "t \<in> set ts \<longleftrightarrow> t \<in> set (minute_grid start stop) \<and> t div day_ms * day_ms \<notin> set (omitted_days ts start stop)" for t
  proof
    assume t: "t \<in> set ts"
    then show "t \<in> set (minute_grid start stop) \<and> t div day_ms * day_ms \<notin> set (omitted_days ts start stop)"
      using d(3) minute_day(2) [OF w, of t] g [of t] by (auto simp: omitted_member)
  next
    assume t: "t \<in> set (minute_grid start stop) \<and> t div day_ms * day_ms \<notin> set (omitted_days ts start stop)"
    then show "t \<in> set ts" unfolding same [symmetric] days_def missing_def by auto
  qed
  ultimately show "ts = filter (\<lambda>t. t div day_ms * day_ms \<notin> set (omitted_days ts start stop)) (minute_grid start stop)"
    using marks_month(2) [OF m] by (intro sorted_same_set sorted_wrt_filter) auto
qed

lemma omitted_are_missing:
  assumes m: "marks_bounds month = Inr (start, stop)"
    and ts: "ts = filter (\<lambda>t. t div day_ms * day_ms \<notin> set (omitted_days ts start stop)) (minute_grid start stop)"
  shows "missing_days ts (minute_grid start stop) = omitted_days ts start stop"
proof -
  define om where "om = omitted_days ts start stop"
  define missing where "missing = filter (\<lambda>t. t \<notin> set ts) (minute_grid start stop)"
  note w = marks_month(1) [OF m] and g = marks_month(4) [OF m]
  have mem: "t \<in> set missing \<longleftrightarrow> t \<in> set (minute_grid start stop) \<and> t div day_ms * day_ms \<in> set om" for t
    using arg_cong [OF ts, of set] by (auto simp: missing_def om_def)
  have in_month: "day \<in> set (days_of_month start stop)" if "day \<in> set om" for day using that by (simp add: om_def omitted_member)
  have whole: "set (day_grid day) \<subseteq> set missing" if "day \<in> set om" for day
    using day_minute [OF w in_month [OF that]] that by (auto simp: mem g)
  have "set (map (\<lambda>t. t div day_ms * day_ms) missing) = set om"
  proof (intro set_eqI iffI)
    fix day assume "day \<in> set om"
    have "day \<in> set (day_grid day)" by (simp add: day_grid_member day_ms_def)
    then show "day \<in> set (map (\<lambda>t. t div day_ms * day_ms) missing)"
      using whole [OF \<open>day \<in> set om\<close>] day_minute(4) [OF w in_month [OF \<open>day \<in> set om\<close>]] by (auto simp: image_iff intro!: bexI [of _ day])
  qed (auto simp: mem)
  then have days: "sort (remdups (map (\<lambda>t. t div day_ms * day_ms) missing)) = om"
    by (intro sorted_same_set) (simp_all add: strict_sorted_iff om_def omitted_sorted [unfolded strict_sorted_iff])
  have "sorted_wrt (<) ts" by (subst ts) (rule sorted_wrt_filter [OF marks_month(2) [OF m]])
  then have "ts = sort (remdups ts)" by (simp add: strict_sorted_iff sorted_sort_id distinct_remdups_id)
  moreover have "set ts \<subseteq> set (minute_grid start stop)" by (subst ts) auto
  ultimately show ?thesis
    unfolding missing_days_def Let_def missing_def [symmetric] days om_def [symmetric]
    using whole by (simp add: list_ex_iff)
qed


section \<open>Merging\<close>

lemma merge_stamps:
  assumes src: "cellwise src" and tx: "list_all text_frame (f # fs)"
    and tss: "list_all2 (\<lambda>g ts. open_stamps src g = Inr ts) (f # fs) tss"
  obtains m where "merge_rows src (f # fs) = Inr m" "text_frame m" "open_stamps src m = Inr (sort (concat tss))"
    "mset (text_rows m) = mset (concat (map text_rows (f # fs)))"
proof -
  obtain num where num: "\<And>xs ns. as_int64 src (SCol xs) = Inr ns \<longleftrightarrow> map num xs = map Some ns"
    using src by (auto simp: cellwise_def)
  have st: "open_stamps src g = Inr ts \<longleftrightarrow> map (\<lambda>r. num (r ! 0)) (text_rows g) = map Some ts" if "text_frame g" for g ts
    using that by (simp add: text_stamps num comp_def)
  define G and rows and ts where "G = row_groups (f # fs)" and "rows = text_rows G" and "ts = concat tss"
  have G: "text_frame G" and rows: "rows = concat (map text_rows (f # fs))"
    using text_frame_groups [OF tx] text_rows_groups [OF tx] by (simp_all add: G_def rows_def)
  have "map (\<lambda>r. num (r ! 0)) (concat (map text_rows gs)) = map Some (concat uss)"
    if "list_all2 (\<lambda>g ts. open_stamps src g = Inr ts) gs uss" "list_all text_frame gs" for gs uss
    using that by (induction gs uss rule: list_all2_induct) (auto simp: st)
  from this [OF tss tx] have nums: "map (\<lambda>r. num (r ! 0)) rows = map Some ts" by (simp only: rows ts_def)
  have "length rows = nrows G" by (simp add: rows_def)
  moreover have "length ts = length rows" using arg_cong [OF nums, of length] by (simp only: length_map)
  ultimately have len: "length rows = nrows G" "length ts = nrows G" by simp_all
  define ix where "ix = sort_key ((!) ts) [0..<nrows G]"
  define m where "m = pick_rows ix G"
  have ix: "set ix \<subseteq> {..<nrows G}" "mset ix = mset [0..<nrows G]" by (auto simp: ix_def)
  have rm: "text_rows m = map ((!) rows) ix" using text_rows_pick [OF G ix(1)] by (simp add: m_def rows_def)
  have whole: "mset (map ((!) xs) ix) = mset xs" if "length xs = nrows G" for xs :: "'c list"
    using that ix(2) by (simp only: mset_map) (metis map_nth mset_map)
  have "map ((!) ts) ix = sort ts"
    by (rule properties_for_sort [symmetric, OF whole [OF len(2)]]) (simp add: ix_def)
  moreover have "map (\<lambda>r. num (r ! 0)) (text_rows m) = map Some (map ((!) ts) ix)"
  proof -
    have "num (rows ! i ! 0) = Some (ts ! i)" if "i < nrows G" for i
      using arg_cong [OF nums, of "\<lambda>xs. xs ! i"] that len by simp
    then show ?thesis using ix(1) by (auto simp: rm)
  qed
  moreover have tm: "text_frame m" using G by (simp add: m_def text_frame_pick)
  ultimately have sm: "open_stamps src m = Inr (sort ts)" by (simp add: st)
  have mm: "merge_rows src (f # fs) = Inr m"
  proof -
    have "open_stamps src G = Inr ts" using nums by (simp add: st [OF G] rows_def)
    then show ?thesis by (simp add: merge_rows_def Let_def m_def ix_def open_stamps_def flip: G_def)
  qed
  have "mset (text_rows m) = mset rows" unfolding rm by (rule whole [OF len(1)])
  note rr = this [unfolded rows] and ss = sm [unfolded ts_def]
  show thesis by (rule that [OF mm tm ss rr])
qed

lemma distinct_concat_map:
  "distinct xs \<Longrightarrow> (\<And>x. x \<in> set xs \<Longrightarrow> distinct (f x))
    \<Longrightarrow> (\<And>x y. x \<in> set xs \<Longrightarrow> y \<in> set xs \<Longrightarrow> x \<noteq> y \<Longrightarrow> set (f x) \<inter> set (f y) = {})
    \<Longrightarrow> distinct (concat (map f xs))"
proof (induction xs)
  case (Cons x xs)
  have "distinct (concat (map f xs))" using Cons.prems by (intro Cons.IH) simp_all
  moreover have "set (f x) \<inter> set (f y) = {}" if "y \<in> set xs" for y
    using Cons.prems(1) that by (intro Cons.prems(3)) auto
  ultimately show ?case using Cons.prems(2) [of x] by auto
qed simp

lemma repaired_grid:
  assumes m: "marks_bounds month = Inr (start, stop)"
    and ts: "ts = filter (\<lambda>t. t div day_ms * day_ms \<notin> set (omitted_days ts start stop)) (minute_grid start stop)"
  shows "sort (concat (ts # map day_grid (omitted_days ts start stop))) = minute_grid start stop"
proof -
  define om where "om = omitted_days ts start stop"
  note w = marks_month(1) [OF m] and g = marks_month(4) [OF m]
  have month: "day \<in> set (days_of_month start stop)" if "day \<in> set om" for day using that by (simp add: om_def omitted_member)
  have floor: "t div day_ms * day_ms = day" if "day \<in> set om" "t \<in> set (day_grid day)" for day t
    using day_minute(4) [OF w month [OF that(1)] that(2)] .
  have mem: "t \<in> set ts \<longleftrightarrow> t \<in> set (minute_grid start stop) \<and> t div day_ms * day_ms \<notin> set om" for t
    using arg_cong [OF ts, of set] by (auto simp: om_def)
  have "sorted_wrt (<) ts" by (subst ts) (rule sorted_wrt_filter [OF marks_month(2) [OF m]])
  moreover have disjoint: "set (day_grid x) \<inter> set (day_grid y) = {}" if "x \<in> set om" "y \<in> set om" "x \<noteq> y" for x y
    using floor that by (metis disjoint_iff)
  have "distinct (concat (map day_grid om))"
    using disjoint day_grid_sorted omitted_sorted [of ts start stop]
    by (intro distinct_concat_map) (auto simp: strict_sorted_iff om_def)
  ultimately have "distinct (concat (ts # map day_grid om))"
    using floor by (auto simp: strict_sorted_iff mem)
  moreover have "set (concat (ts # map day_grid om)) = set (minute_grid start stop)"
  proof (intro set_eqI iffI)
    fix t assume "t \<in> set (concat (ts # map day_grid om))"
    then consider "t \<in> set ts" | day where "day \<in> set om" "t \<in> set (day_grid day)" by auto
    then show "t \<in> set (minute_grid start stop)"
      using day_minute(1-3) [OF w month] by cases (auto simp: mem g)
  next
    fix t assume t: "t \<in> set (minute_grid start stop)"
    then have "t \<in> set (day_grid (t div day_ms * day_ms))" using minute_day(2) [OF w] g by simp
    then show "t \<in> set (concat (ts # map day_grid om))" using t mem [of t] by auto
  qed
  ultimately show ?thesis
    using marks_month(2) [OF m] by (intro sorted_same_set) (simp_all only: om_def [symmetric] strict_sorted_iff set_sort distinct_sort sorted_sort)
qed

section \<open>Supplementing\<close>

text \<open>A daily archive holds its day, and its report names it.\<close>

definition day_of_archive :: "source \<Rightarrow> string \<Rightarrow> int \<Rightarrow> frame \<times> json \<Rightarrow> bool" where
  "day_of_archive src symbol day x \<longleftrightarrow>
     open_stamps src (fst x) = Inr (day_grid day)
     \<and> (\<exists>digest bytes. is_digest digest
          \<and> snd x = archive_json (daily_marks_url symbol (iso_text (day_of_ms day))) digest 1440 bytes)"

lemma archive_digest: "fetch_archive h ok e url p d = (d', Inr (digest, f)) \<Longrightarrow> ok digest"
  by (auto simp: fetch_archive_def res_simps split: sum.splits prod.splits option.splits)

lemma daily_days:
  assumes "host_ok h"
  shows "daily_archives h base symbol days d = (d', Inr xs) \<Longrightarrow> list_all2 (day_of_archive (ht_source h) symbol) days xs"
proof (induction days arbitrary: d d' xs)
  case (Cons day days)
  obtain d1 x d2 ys where s: "daily_archive h base symbol day d = (d1, Inr x)" "daily_archives h base symbol days d1 = (d2, Inr ys)" "xs = x # ys"
    using Cons.prems by (auto split: prod.splits sum.splits)
  obtain digest raw where a: "fetch_archive h is_digest (MarkPriceDataError ''supplemental daily SHA-256 is required'')
        (daily_marks_url symbol (iso_text (day_of_ms day))) (marks_cache base (daily_marks_url symbol (iso_text (day_of_ms day)))) d = (d1, Inr (digest, raw))"
    and st: "open_stamps (ht_source h) (strip_header raw) = Inr (day_grid day)"
    and x: "x = (strip_header raw, archive_json (daily_marks_url symbol (iso_text (day_of_ms day))) digest (nrows (strip_header raw))
        (file_size d1 (marks_cache base (daily_marks_url symbol (iso_text (day_of_ms day))))))"
    using s(1) by (auto simp: daily_archive_def Let_def res_simps open_stamps_def split: prod.splits sum.splits)
  have "frame_ok (strip_header raw)"
    using text_frame_strip [OF archive_text [OF assms a]] by (simp add: text_frame_def)
  then have "nrows (strip_header raw) = 1440"
    using converted_ints [of "ht_source h" _ "''open_time''" "day_grid day"] assms st by (simp add: host_ok_def open_stamps_def day_grid_length)
  then have "day_of_archive (ht_source h) symbol day x"
    using archive_digest [OF a] st x by (auto simp: day_of_archive_def)
  then show ?case using Cons.IH [OF s(2)] s(3) by simp
qed auto

lemma merge_repairs:
  assumes h: "host_ok h" "cellwise (ht_source h)" and m: "marks_bounds month = Inr (start, stop)" and raw: "text_frame raw" "open_stamps (ht_source h) raw = Inr ts"
    and ts: "ts = filter (\<lambda>t. t div day_ms * day_ms \<notin> set (omitted_days ts start stop)) (minute_grid start stop)"
    and days: "daily_archives h base symbol (omitted_days ts start stop) d = (d', Inr xs)"
  obtains f where "merge_rows (ht_source h) (raw # map fst xs) = Inr f" "text_frame f" "open_stamps (ht_source h) f = Inr (minute_grid start stop)"
    "mset (text_rows f) = mset (concat (map text_rows (raw # map fst xs)))"
proof -
  have "list_all2 (\<lambda>g us. open_stamps (ht_source h) g = Inr us) (map fst xs) (map day_grid (omitted_days ts start stop))"
    using daily_days [OF h(1) days] by (auto simp: list_all2_conv_all_nth day_of_archive_def)
  then have "list_all2 (\<lambda>g us. open_stamps (ht_source h) g = Inr us) (raw # map fst xs) (ts # map day_grid (omitted_days ts start stop))"
    using raw(2) by simp
  moreover have "list_all text_frame (raw # map fst xs)" using raw(1) daily_text [OF h(1) days] by simp
  ultimately show thesis using that by (elim merge_stamps [OF h(2), rotated]) (simp_all only: repaired_grid [OF m ts])
qed

lemma supplement_repairs:
  assumes h: "host_ok h" "cellwise (ht_source h)" and m: "marks_bounds month = Inr (start, stop)" and raw: "text_frame raw" "open_stamps (ht_source h) raw = Inr ts"
    and ts: "ts = filter (\<lambda>t. t div day_ms * day_ms \<notin> set (omitted_days ts start stop)) (minute_grid start stop)"
    and days: "daily_archives h base symbol (omitted_days ts start stop) d = (d', Inr xs)"
  shows "\<exists>f. supplement_missing_days h base raw symbol month d = (d', Inr (f, map snd xs))
    \<and> open_stamps (ht_source h) f = Inr (minute_grid start stop) \<and> mset (text_rows f) = mset (concat (map text_rows (raw # map fst xs)))"
proof (cases "omitted_days ts start stop = []")
  case True
  then have "ts = minute_grid start stop" using ts by simp
  then show ?thesis
    using True days raw(2) omitted_are_missing [OF m ts] by (simp add: supplement_missing_days_def m open_stamps_def)
next
  case False
  from merge_repairs [OF assms] obtain f where f: "merge_rows (ht_source h) (raw # map fst xs) = Inr f"
    "open_stamps (ht_source h) f = Inr (minute_grid start stop)" "mset (text_rows f) = mset (concat (map text_rows (raw # map fst xs)))" by metis
  then show ?thesis
    using False days raw(2) omitted_are_missing [OF m ts] by (simp add: supplement_missing_days_def m open_stamps_def)
qed

lemma supplement_sound:
  assumes h: "host_ok h" "cellwise (ht_source h)" and m: "marks_bounds month = Inr (start, stop)" and raw: "text_frame raw"
    and s: "supplement_missing_days h base raw symbol month d = (d', Inr (f, reports))"
    and grid: "open_stamps (ht_source h) (strip_header f) = Inr (minute_grid start stop)"
  shows "\<exists>ts xs. open_stamps (ht_source h) (strip_header raw) = Inr ts
    \<and> daily_archives h base symbol (omitted_days ts start stop) d = (d', Inr xs) \<and> reports = map snd xs
    \<and> mset (text_rows (strip_header f)) = mset (concat (map text_rows (strip_header raw # map fst xs)))"
proof -
  consider "f = raw" "reports = []" "d' = d"
    | ts xs where "open_stamps (ht_source h) raw = Inr ts" "missing_days ts (minute_grid start stop) \<noteq> []"
        "daily_archives h base symbol (missing_days ts (minute_grid start stop)) d = (d', Inr xs)" "reports = map snd xs"
        "merge_rows (ht_source h) (raw # map fst xs) = Inr f"
    using s by (auto simp: supplement_missing_days_def m Let_def res_simps open_stamps_def split: sum.splits prod.splits if_splits)
  then show ?thesis
  proof cases
    case 1
    then show ?thesis using grid omitted_none [OF m] by (intro exI [of _ "minute_grid start stop"] exI [of _ "[]"]) simp
  next
    case (2 ts xs)
    note om = missing_are_omitted [OF m 2(2)]
    note days = 2(3) [unfolded om(1)]
    from merge_repairs [OF h m raw 2(1) om(2) days] 2(5) have f: "text_frame f" "open_stamps (ht_source h) f = Inr (minute_grid start stop)"
      "mset (text_rows f) = mset (concat (map text_rows (raw # map fst xs)))" by (metis sum.inject(2))+
    have "strip_header raw = raw" "strip_header f = f" using strip_converted [OF h(2)] raw 2(1) f(1,2) by blast+
    then show ?thesis using 2(1,4) days f(3) by auto
  qed
qed


lemma marks_grid:
  assumes "marks_bounds month = Inr (start, stop)"
  shows "t \<in> set (minute_grid start stop) \<longleftrightarrow> start \<le> t \<and> t < stop \<and> (t - start) mod 60000 = 0"
  using assms minute_grid_month(1) by (auto simp: marks_bounds_def split: if_splits option.splits)

lemma grid_ends:
  assumes "marks_bounds month = Inr (start, stop)"
  shows "minute_grid start stop \<noteq> []" "hd (minute_grid start stop) = start" "last (minute_grid start stop) + 60000 = stop"
proof -
  define n where "n = length (minute_grid start stop)"
  have "0 < n" "stop = start + 60000 * int n"
    using marks_month(1,3) [OF assms] by (auto simp: whole_days_def n_def)
  moreover have "minute_grid start stop = map (\<lambda>i. start + 60000 * int i) [0..<n]"
    unfolding n_def by (simp add: minute_grid_def)
  ultimately show "minute_grid start stop \<noteq> []" "hd (minute_grid start stop) = start" "last (minute_grid start stop) + 60000 = stop"
    by (simp_all add: hd_map last_map)
qed


section \<open>The month's sources and its report\<close>

text \<open>
  What a month is made of: the rows of the monthly archive and of one daily archive for each day of which
  the monthly archive has no minute.
\<close>

definition month_sources ::
  "host \<Rightarrow> location \<Rightarrow> string \<Rightarrow> string \<Rightarrow> int \<Rightarrow> int \<Rightarrow> disk \<Rightarrow> disk \<Rightarrow> string \<Rightarrow> frame \<Rightarrow> (frame \<times> json) list \<Rightarrow> bool" where
  "month_sources h base symbol url start stop d d' digest raw dailies \<longleftrightarrow>
     (\<exists>e d1 ts. is_digest digest \<and> fetch_archive h is_digest e url (marks_cache base url) d = (d1, Inr (digest, raw))
        \<and> open_stamps (ht_source h) (strip_header (strip_header raw)) = Inr ts
        \<and> daily_archives h base symbol (omitted_days ts start stop) d1 = (d', Inr dailies)
        \<and> list_all2 (day_of_archive (ht_source h) symbol) (omitted_days ts start stop) dailies)"

lemma normalised_month:
  assumes src: "source_ok src" and m: "marks_bounds month = Inr (start, stop)" and merged: "text_frame (strip_header merged)"
    and n: "normalise_marks src merged symbol month = Inr f"
  obtains op hi lo cl op' hi' lo' cl' where "open_stamps src (strip_header merged) = Inr (minute_grid start stop)"
    "f = mark_frame symbol (minute_grid start stop) (map (\<lambda>t. t + 59999) (minute_grid start stop)) op hi lo cl (nrows (strip_header merged))"
    "frame_ok f" "60000 * int (nrows f) = stop - start"
    "op = map (\<lambda>r. r ! 1) (text_rows (strip_header merged))" "hi = map (\<lambda>r. r ! 2) (text_rows (strip_header merged))"
    "lo = map (\<lambda>r. r ! 3) (text_rows (strip_header merged))" "cl = map (\<lambda>r. r ! 4) (text_rows (strip_header merged))"
    "map_res price_of op = Inr op'" "map_res price_of hi = Inr hi'" "map_res price_of lo = Inr lo'" "map_res price_of cl = Inr cl'"
    "list_all fair_mark (zip op' (zip hi' (zip lo' cl')))"
proof -
  obtain opens closes op hi lo cl op' hi' lo' cl' where
      ts: "converted (MarkPriceDataError ''invalid integer millisecond time'') (bar_times src (strip_header merged) 1) = Inr (opens, closes)"
    and grid: "opens = minute_grid start stop" and closes: "closes = map (\<lambda>t. t + minute_ms - 1) opens"
    and cols: "price_col (strip_header merged) ''open'' = Inr (op, op')" "price_col (strip_header merged) ''high'' = Inr (hi, hi')"
      "price_col (strip_header merged) ''low'' = Inr (lo, lo')" "price_col (strip_header merged) ''close'' = Inr (cl, cl')"
    and ohlc: "\<not> list_ex crossed_mark (zip op' (zip hi' (zip lo' cl')))"
    and f: "f = mark_frame symbol opens closes op hi lo cl (nrows (strip_header merged))"
    using n unfolding normalise_marks_def bnd_eq_Inr Let_def split_paired_Ex case_prod_conv m guard_eq_Inr not_not sum.inject prod.inject
    by blast
  have ok: "frame_ok (strip_header merged)" using merged by (simp add: text_frame_def)
  have us: "open_stamps src (strip_header merged) = Inr opens"
    using ts by (auto simp: converted_def bar_times_def bnd_eq_Inr open_stamps_def split: sum.splits if_splits)
  have len: "length opens = nrows (strip_header merged)" using converted_ints [OF src ok] us by (simp add: open_stamps_def)
  have price: "xs = map (\<lambda>r. r ! k) (text_rows (strip_header merged)) \<and> map_res price_of xs = Inr rs"
    if "price_col (strip_header merged) (kline_columns ! k) = Inr (xs, rs)" "k < 12" for k xs rs
    using that text_get [OF merged] by (auto simp: price_col_def get_texts_def res_simps)
  have prices: "op = map (\<lambda>r. r ! 1) (text_rows (strip_header merged)) \<and> map_res price_of op = Inr op'"
    "hi = map (\<lambda>r. r ! 2) (text_rows (strip_header merged)) \<and> map_res price_of hi = Inr hi'"
    "lo = map (\<lambda>r. r ! 3) (text_rows (strip_header merged)) \<and> map_res price_of lo = Inr lo'"
    "cl = map (\<lambda>r. r ! 4) (text_rows (strip_header merged)) \<and> map_res price_of cl = Inr cl'"
    using cols by (intro price; simp add: kline_columns_def)+
  show thesis
  proof (rule that [OF us [unfolded grid]])
    show "f = mark_frame symbol (minute_grid start stop) (map (\<lambda>t. t + 59999) (minute_grid start stop)) op hi lo cl (nrows (strip_header merged))"
      by (simp add: f closes grid minute_ms_def add.commute)
    show "frame_ok f" using prices len by (simp add: f mark_frame_def frame_ok_def closes)
    show "60000 * int (nrows f) = stop - start" using marks_month(3) [OF m] len by (simp add: f mark_frame_def grid)
    show "list_all fair_mark (zip op' (zip hi' (zip lo' cl')))" using ohlc prices by (intro fair_marks) auto
  qed (use prices in blast)+
qed

text \<open>C29: A fetched month of marks is a rectangular frame with one bar for every minute of the month, in order; each bar is available one millisecond after its minute ends, and its prices are texts that read as positive decimals whose low and high bound open and close. Its rows are, exactly and with the archived cells as prices, those of the checksummed monthly archive and of one checksummed daily archive for every day of which the monthly archive has no minute. The report gives the source and its digest, the first minute and the end of the month, both row counts, and one entry for each daily archive. And a month whose archive omits only whole days is repaired whenever their daily archives arrive: the merged rows are the complete minute grid.\<close>

theorem fetched_marks_are_complete:
  assumes "host_ok h" and "cellwise (ht_source h)" and "fetch_marks_month h base symbol month d = (d', Inr (f, report))"
    and "marks_bounds month = Inr (start, stop)"
  shows "frame_ok f \<and> 60000 * int (nrows f) = stop - start
    \<and> (\<exists>opens op hi lo cl op' hi' lo' cl'. get_ints f ''open_time'' = Inr opens \<and> sorted_wrt (<) opens
        \<and> (\<forall>t. t \<in> set opens \<longleftrightarrow> start \<le> t \<and> t < stop \<and> (t - start) mod 60000 = 0)
        \<and> get_ints f ''available_at_ms'' = Inr (map (\<lambda>t. t + 60000) opens)
        \<and> get_texts f ''open'' = Inr op \<and> get_texts f ''high'' = Inr hi \<and> get_texts f ''low'' = Inr lo \<and> get_texts f ''close'' = Inr cl
        \<and> map_res price_of op = Inr op' \<and> map_res price_of hi = Inr hi' \<and> map_res price_of lo = Inr lo' \<and> map_res price_of cl = Inr cl'
        \<and> list_all fair_mark (zip op' (zip hi' (zip lo' cl')))
        \<and> (\<exists>url digest raw dailies rows.
             marks_url symbol month = Inr url \<and> month_sources h base symbol url start stop d d' digest raw dailies
             \<and> mset rows = mset (concat (map text_rows (strip_header (strip_header raw) # map fst dailies)))
             \<and> as_int64 (ht_source h) (SCol (map (\<lambda>r. r ! 0) rows)) = Inr opens
             \<and> op = map (\<lambda>r. r ! 1) rows \<and> hi = map (\<lambda>r. r ! 2) rows \<and> lo = map (\<lambda>r. r ! 3) rows \<and> cl = map (\<lambda>r. r ! 4) rows
             \<and> report = JDict [(''symbol'', JStr symbol), (''month'', JStr month), (''url'', JStr url), (''sha256'', JStr digest),
                 (''archive_bytes'', JInt (int (file_size d' (marks_cache base url)))), (''rows'', JInt (int (nrows f))),
                 (''first_open_ms'', JInt start), (''last_available_ms'', JInt stop),
                 (''monthly_rows'', JInt (int (nrows (strip_header raw)))), (''supplemental_daily_archives'', JList (map snd dailies))]))
    \<and> (\<forall>raw ts d1 d2 dailies. text_frame raw \<and> open_stamps (ht_source h) raw = Inr ts
        \<and> ts = filter (\<lambda>t. t div day_ms * day_ms \<notin> set (omitted_days ts start stop)) (minute_grid start stop)
        \<and> daily_archives h base symbol (omitted_days ts start stop) d1 = (d2, Inr dailies)
        \<longrightarrow> (\<exists>g. supplement_missing_days h base raw symbol month d1 = (d2, Inr (g, map snd dailies))
              \<and> open_stamps (ht_source h) g = Inr (minute_grid start stop)
              \<and> mset (text_rows g) = mset (concat (map text_rows (raw # map fst dailies)))))"
proof -
  note h = assms(1,2) and m = assms(4)
  obtain merged d1 raw0 digest url supplements where url: "marks_url symbol month = Inr url"
    and a: "fetch_archive h is_digest (MarkPriceDataError ''published SHA-256 is required'') url (marks_cache base url) d = (d1, Inr (digest, raw0))"
    and s: "supplement_missing_days h base (strip_header raw0) symbol month d1 = (d', Inr (merged, supplements))"
    and n: "normalise_marks (ht_source h) merged symbol month = Inr f"
    and r: "marks_report symbol month url digest (file_size d' (marks_cache base url)) f (nrows (strip_header raw0)) supplements = Inr report"
    using assms(3) by (auto simp: fetch_marks_month_def Let_def res_simps split: sum.splits prod.splits)
  have raw: "text_frame (strip_header raw0)" by (rule text_frame_strip [OF archive_text [OF h(1) a]])
  have merged: "text_frame (strip_header merged)"
    using supplement_text [OF h(1) raw s] by (rule text_frame_strip)
  have src: "source_ok (ht_source h)" using h(1) by (simp add: host_ok_def)
  obtain op hi lo cl op' hi' lo' cl' where us: "open_stamps (ht_source h) (strip_header merged) = Inr (minute_grid start stop)"
    and f: "f = mark_frame symbol (minute_grid start stop) (map (\<lambda>t. t + 59999) (minute_grid start stop)) op hi lo cl (nrows (strip_header merged))"
    and ok: "frame_ok f" "60000 * int (nrows f) = stop - start"
    and prices: "op = map (\<lambda>r. r ! 1) (text_rows (strip_header merged))" "hi = map (\<lambda>r. r ! 2) (text_rows (strip_header merged))"
      "lo = map (\<lambda>r. r ! 3) (text_rows (strip_header merged))" "cl = map (\<lambda>r. r ! 4) (text_rows (strip_header merged))"
    and fair: "map_res price_of op = Inr op'" "map_res price_of hi = Inr hi'" "map_res price_of lo = Inr lo'" "map_res price_of cl = Inr cl'"
      "list_all fair_mark (zip op' (zip hi' (zip lo' cl')))"
    by (rule normalised_month [OF src m merged n])
  obtain ts dailies where st: "open_stamps (ht_source h) (strip_header (strip_header raw0)) = Inr ts"
    and days: "daily_archives h base symbol (omitted_days ts start stop) d1 = (d', Inr dailies)" and sup: "supplements = map snd dailies"
    and rows: "mset (text_rows (strip_header merged)) = mset (concat (map text_rows (strip_header (strip_header raw0) # map fst dailies)))"
    using supplement_sound [OF h m raw s us] by blast
  have srcs: "month_sources h base symbol url start stop d d' digest raw0 dailies"
    unfolding month_sources_def using a archive_digest [OF a] st days daily_days [OF h(1) days] by blast
  have fo: "get_ints f ''open_time'' = Inr (minute_grid start stop)" "get_ints f ''available_at_ms'' = Inr (map (\<lambda>t. t + 60000) (minute_grid start stop))"
    "get_texts f ''open'' = Inr op" "get_texts f ''high'' = Inr hi" "get_texts f ''low'' = Inr lo" "get_texts f ''close'' = Inr cl"
    by (simp_all add: f mark_frame_def res_simps comp_def)
  have "report = JDict [(''symbol'', JStr symbol), (''month'', JStr month), (''url'', JStr url), (''sha256'', JStr digest),
                 (''archive_bytes'', JInt (int (file_size d' (marks_cache base url)))), (''rows'', JInt (int (nrows f))),
                 (''first_open_ms'', JInt start), (''last_available_ms'', JInt stop),
                 (''monthly_rows'', JInt (int (nrows (strip_header raw0)))), (''supplemental_daily_archives'', JList (map snd dailies))]"
    using r grid_ends [OF m] by (simp add: marks_report_def fo sup last_map)
  moreover have "as_int64 (ht_source h) (SCol (map (\<lambda>r. r ! 0) (text_rows (strip_header merged)))) = Inr (minute_grid start stop)"
    using us by (simp add: text_stamps merged)
  moreover have "sorted_wrt (<) (minute_grid start stop)"
    "\<forall>t. t \<in> set (minute_grid start stop) \<longleftrightarrow> start \<le> t \<and> t < stop \<and> (t - start) mod 60000 = 0"
    using marks_month(2) [OF m] marks_grid [OF m] by simp_all
  ultimately show ?thesis
    using ok fo fair url srcs rows prices supplement_repairs [OF h m] by blast
qed

section \<open>Example\<close>

definition sample_digest :: string where "sample_digest = replicate 64 (CHR ''a'')"

text \<open>A converter that reads digits only, and archives for the month and for its first day.\<close>

fun digit_cell :: "string option \<Rightarrow> int option" where
  "digit_cell (Some s) = (if s \<noteq> [] \<and> list_all is_digit s then Some (digits_val s) else None)"
| "digit_cell None = None"

definition digit_source :: source where
  "digit_source = text_source\<lparr>as_int64 := \<lambda>c. case c of
       SCol xs \<Rightarrow> if list_all (\<lambda>x. digit_cell x \<noteq> None) xs then Inr (map (the \<circ> digit_cell) xs) else Inl (ValueError [])
     | _ \<Rightarrow> Inl (TypeError [])\<rparr>"

definition first_day :: frame where "first_day = pick_rows [0..<1440] flat_month"

definition short_month :: frame where "short_month = pick_rows [1440..<june_minutes] flat_month"

definition flat_host :: host where
  "flat_host =
     \<lparr>ht_get = \<lambda>_. Inr (200, sample_digest), ht_answers = \<lambda>url _. Reply 200 [if last_segment url = ''BTCUSDT-1m-2026-06-01.zip'' then ''day'' else ''zip''] None,
      ht_sha = \<lambda>_. sample_digest,
      ht_reader = \<lparr>zip_members = \<lambda>_. Inr [''bars.csv''], zip_csv = \<lambda>b _. Inr (if b = ''day'' then first_day else flat_month), gzip_csv = \<lambda>_. Inl (EOFError []), plain_csv = \<lambda>_. Inl (EOFError [])\<rparr>,
      ht_source = digit_source\<rparr>"

lemma digit_source_ok: "source_ok digit_source"
  using text_source_ok by (auto simp: source_ok_def digit_source_def split: column.split_asm if_splits)

lemma digit_source_cellwise: "cellwise digit_source"
  unfolding cellwise_def
proof (intro exI [of _ digit_cell] conjI allI)
  show "digit_cell (Some ''open_time'') = None" by (simp add: is_digit_def)
  fix xs ns
  show "as_int64 digit_source (SCol xs) = Inr ns \<longleftrightarrow> map digit_cell xs = map Some ns"
  proof
    assume "as_int64 digit_source (SCol xs) = Inr ns"
    then have "list_all (\<lambda>x. digit_cell x \<noteq> None) xs" "ns = map (the \<circ> digit_cell) xs"
      by (auto simp: digit_source_def split: if_splits)
    then show "map digit_cell xs = map Some ns" by (simp add: list_all_iff)
  next
    assume "map digit_cell xs = map Some ns"
    then show "as_int64 digit_source (SCol xs) = Inr ns"
      by (induction xs arbitrary: ns) (auto simp: digit_source_def Cons_eq_map_conv split: if_splits)
  qed
qed

lemma flat_text: "text_frame flat_month"
  using flat_month_ok by (simp add: text_frame_def) (simp add: flat_month_def col_names_def comp_def list_all_iff)

lemma flat_host_ok: "host_ok flat_host"
  by (simp add: host_ok_def flat_host_def digit_source_ok flat_text first_day_def text_frame_pick)

lemma flat_cellwise: "cellwise (ht_source flat_host)"
  by (simp add: flat_host_def digit_source_cellwise)

lemma june_2026: "marks_bounds ''2026-06'' = Inr (june_start, june_start + 60000 * int june_minutes)"
proof -
  have "is_year_month ''2026-06''" "iso_date (''2026-06'' @ ''-01'') = Some 739768" by code_simp+
  then show ?thesis by (simp add: marks_bounds_def june_bounds)
qed

lemma sample_digest_facts:
  "parse_checksum sample_digest = Inr sample_digest" "is_digest sample_digest" "map lower sample_digest = sample_digest"
proof -
  have a: "\<not> py_space (CHR ''a'')" "lower (CHR ''a'') = CHR ''a''" by code_simp+
  have "takeWhile (\<lambda>x. \<not> py_space x) (replicate n (CHR ''a'')) = replicate n (CHR ''a'')"
    "dropWhile (\<lambda>x. \<not> py_space x) (replicate n (CHR ''a'')) = []" for n
    using a by (induction n) auto
  then have "words (replicate (Suc n) (CHR ''a'')) = [replicate (Suc n) (CHR ''a'')]" for n
    using a by (simp add: words.simps)
  from this [of 63] have "words sample_digest = [sample_digest]" by (simp add: sample_digest_def)
  moreover show "map lower sample_digest = sample_digest" by (simp add: sample_digest_def a)
  ultimately show "parse_checksum sample_digest = Inr sample_digest" by (simp add: parse_checksum_def)
  show "is_digest sample_digest" by (simp add: is_digest_def sample_digest_def list_all_iff)
qed

lemma flat_archive:
  "\<exists>d'. fetch_archive flat_host is_digest e url (marks_cache [] url) (\<lambda>_. None)
     = (d', Inr (sample_digest, if last_segment url = ''BTCUSDT-1m-2026-06-01.zip'' then first_day else flat_month))"
  if l: "last_segment url \<in> {''BTCUSDT-1m-2026-06.zip'', ''BTCUSDT-1m-2026-06-01.zip''}"
proof -
  have "fetch_checksum (\<lambda>_. Inr (200, sample_digest)) url = Inr (Some sample_digest)"
    by (simp add: fetch_checksum_def sample_digest_facts)
  moreover have "map lower (name_suffix ''BTCUSDT-1m-2026-06.zip'') = ''.zip''"
    "map lower (name_suffix ''BTCUSDT-1m-2026-06-01.zip'') = ''.zip''" "is_csv ''bars.csv''" by code_simp+
  then have "map lower (name_suffix (last_segment url)) = ''.zip''" "is_csv ''bars.csv''" using l by auto
  moreover have "marks_cache [] url = [''.cache'', marks_dataset, last_segment url]" by (simp add: marks_cache_def)
  ultimately show ?thesis
    by (simp add: fetch_archive_def flat_host_def sample_digest_facts cached_fetch_def cache_file_def refetch_def fetch_def default_retries_def
        stream_to_def retry_status_def verify_checksum_def extract_csv_def name_of_def numeral_3_eq_3 Let_def)
qed

lemma digit_cell_nat: "digit_cell (Some (nat_text n)) = Some (int n)"
  using nat_text_digits [of n] by (simp add: nat_text_nonempty)

lemma flat_digits:
  "k \<in> set kline_columns \<Longrightarrow> bnd (get_col flat_month k) (as_int64 digit_source) = bnd (get_col flat_month k) (as_int64 text_source)"
  by (simp only: flat_col bnd_Inr) (simp add: digit_source_def text_source_def list_all_iff digit_cell_nat comp_def del: digit_cell.simps)

lemma flat_stamps: "open_stamps digit_source flat_month = Inr (map (\<lambda>i. june_start + 60000 * int i) [0..<june_minutes])"
  using flat_ints(1) flat_digits [of "''open_time''"] by (simp add: open_stamps_def kline_columns_def)

lemma june_grid: "minute_grid june_start (june_start + 60000 * int june_minutes) = map (\<lambda>i. june_start + 60000 * int i) [0..<june_minutes]"
  by (simp add: minute_grid_def june_minutes_def)

lemma flat_supplement:
  "supplement_missing_days flat_host [] flat_month ''BTCUSDT'' ''2026-06'' d = (d, Inr (flat_month, []))"
proof -
  have "missing_days xs xs = []" for xs by (simp add: missing_days_def Let_def)
  moreover have "ht_source flat_host = digit_source" by (simp add: flat_host_def)
  ultimately show ?thesis
    using flat_stamps by (simp add: supplement_missing_days_def june_2026 Let_def june_grid open_stamps_def)
qed

lemma flat_header: "strip_header flat_month = flat_month"
proof -
  have first: "\<exists>cs. columns flat_month = (''open_time'', SCol (map (\<lambda>i. Some (nat_text (nat june_start + 60000 * i))) [0..<june_minutes])) # cs"
    by (simp add: flat_month_def kline_columns_def)
  have "0 < june_minutes" by (simp add: june_minutes_def)
  from upt_conv_Cons [OF this] obtain cs rest where cs: "columns flat_month = (''open_time'', SCol (Some (nat_text (nat june_start)) # rest)) # cs"
    using first by auto
  have "nat_text n \<noteq> ''open_time''" for n using nat_text_digits [of n] by (auto simp: is_digit_def)
  then have "map (first_cell \<circ> snd) (columns flat_month) \<noteq> kline_columns"
    unfolding cs kline_columns_def by (simp add: first_cell_def)
  then show ?thesis by (simp add: strip_header_def)
qed

lemma flat_prices: "k \<in> {''open'', ''high'', ''low'', ''close''} \<Longrightarrow>
  price_col flat_month k = Inr (replicate june_minutes (Some (nat_text 1)), replicate june_minutes 1)"
proof -
  assume k: "k \<in> {''open'', ''high'', ''low'', ''close''}"
  have "nat_text 1 = ''1''" "parse_decimal ''1'' = Some (DFin False 1 0)" by code_simp+
  then have "price_of (Some (nat_text 1)) = Inr 1" by (simp add: price_of_def)
  then have "map_res price_of (replicate n (Some (nat_text 1))) = Inr (replicate n 1)" for n
    by (induction n) simp_all
  moreover have "get_col flat_month k = Inr (SCol (replicate june_minutes (Some (nat_text 1))))"
    using flat_col [of k] k by (auto simp: kline_columns_def map_replicate_const)
  ultimately show "price_col flat_month k = Inr (replicate june_minutes (Some (nat_text 1)), replicate june_minutes 1)"
    by (simp add: price_col_def get_texts_def)
qed

lemma flat_marks: "\<exists>f. normalise_marks digit_source flat_month ''BTCUSDT'' ''2026-06'' = Inr f"
proof -
  have open_stamps: "bar_times digit_source flat_month 1 =
      Inr (map (\<lambda>i. june_start + 60000 * int i) [0..<june_minutes], map (\<lambda>i. june_start + 60000 * int i + 59999) [0..<june_minutes])"
    using flat_ints(1,2) flat_digits [of "''open_time''"] flat_digits [of "''close_time''"]
    by (simp add: bar_times_def comp_def kline_columns_def)
  have cols: "col_names flat_month = kline_columns" "nrows flat_month = june_minutes"
    by (simp_all add: col_names_def flat_month_def comp_def)
  have url: "\<exists>url. marks_url ''BTCUSDT'' ''2026-06'' = Inr url" by (simp add: marks_url_def june_2026)
  then show ?thesis
    by (auto simp: normalise_marks_def cols flat_header june_2026 open_stamps converted_def june_grid minute_ms_def flat_prices
        list_ex_iff crossed_mark_def zip_replicate comp_def)
qed

text \<open>The same month without its first day, which its daily archive restores.\<close>

lemma pick_stamps:
  "set ix \<subseteq> {..<june_minutes} \<Longrightarrow> open_stamps digit_source (pick_rows ix flat_month) = Inr (map (\<lambda>i. june_start + 60000 * int i) ix)"
proof -
  assume ix: "set ix \<subseteq> {..<june_minutes}"
  define xs where "xs = map (\<lambda>i. Some (nat_text (nat june_start + 60000 * i))) [0..<june_minutes]"
  have col: "map_of (columns flat_month) ''open_time'' = Some (SCol xs)"
    using flat_col [of "''open_time''"] by (simp add: get_col_def kline_columns_def xs_def split: option.splits)
  have "map_of (columns (pick_rows ix flat_month)) ''open_time'' = Some (SCol (map ((!) xs) ix))"
    by (simp add: pick_rows_def map_of_map col)
  moreover have "as_int64 digit_source (SCol (map ((!) xs) ix)) = Inr (map (\<lambda>i. june_start + 60000 * int i) ix)"
    using ix by (auto simp: digit_source_def xs_def list_all_iff digit_cell_nat june_start_def subset_iff simp del: digit_cell.simps)
  ultimately show ?thesis by (simp add: open_stamps_def get_col_def)
qed

lemma short_omits: "omitted_days (map (\<lambda>i. june_start + 60000 * int i) [1440..<june_minutes]) june_start (june_start + 60000 * int june_minutes) = [june_start]"
  (is "omitted_days ?ts _ ?stop = _")
proof (rule sorted_same_set [OF omitted_sorted])
  have w: "whole_days june_start ?stop" using marks_month(1) [OF june_2026] .
  have mem: "t \<in> set ?ts \<longleftrightarrow> june_start + day_ms \<le> t \<and> t < ?stop \<and> (t - june_start) mod 60000 = 0" for t
  proof
    assume t: "june_start + day_ms \<le> t \<and> t < ?stop \<and> (t - june_start) mod 60000 = 0"
    then obtain k where k: "t = june_start + 60000 * k" using whole_multiple [of "t - june_start" 60000] by (metis add.commute diff_add_cancel)
    then have b: "1440 \<le> k" "k < int june_minutes" using t by (simp_all add: day_ms_def)
    then have "nat k \<in> set [1440..<june_minutes]" "k = int (nat k)"
      unfolding set_upt atLeastLessThan_iff by (simp_all only: le_nat_iff nat_less_iff int_nat_eq) simp_all
    then show "t \<in> set ?ts" unfolding k set_map by (metis image_eqI)
  next
    assume "t \<in> set ?ts"
    then obtain i where "t = june_start + 60000 * int i" "1440 \<le> i" "i < june_minutes" by auto
    then show "june_start + day_ms \<le> t \<and> t < ?stop \<and> (t - june_start) mod 60000 = 0" by (simp add: day_ms_def)
  qed
  show "set (omitted_days ?ts june_start ?stop) = set [june_start]"
  proof (intro set_eqI iffI)
    fix day assume "day \<in> set (omitted_days ?ts june_start ?stop)"
    moreover have self: "day \<in> set (day_grid day)" by (simp add: day_grid_member day_ms_def)
    ultimately have d: "day \<in> set (days_of_month june_start ?stop)" "day \<notin> set ?ts" unfolding omitted_member by blast+
    note b = day_minute(1-3) [OF w d(1) self]
    obtain k where k: "day = day_ms * k" using d(1) whole_multiple by (metis days_of_month_member [OF w])
    have j: "june_start = day_ms * 20605" by (simp add: june_start_def day_ms_def)
    have "(day - june_start) mod 60000 = 0" by (simp add: k j day_ms_def mod_0_imp_dvd flip: right_diff_distrib)
    then have "day < june_start + day_ms" using d(2) b(2) mem by (meson not_le)
    then have "k < 20606" by (simp add: k j day_ms_def)
    moreover have "20605 \<le> k" using b(1) by (simp add: k j day_ms_def)
    ultimately show "day \<in> set [june_start]" by (simp add: k j)
  next
    fix day assume "day \<in> set [june_start]"
    then show "day \<in> set (omitted_days ?ts june_start ?stop)"
      by (auto simp: omitted_member days_of_month_member [OF w] mem day_grid_member) (simp_all add: june_start_def june_minutes_def day_ms_def)
  qed
qed simp

lemma flat_source: "ht_source flat_host = digit_source"
  by (simp add: flat_host_def)

lemma short_month_facts:
  "text_frame short_month"
  "open_stamps (ht_source flat_host) short_month = Inr (map (\<lambda>i. june_start + 60000 * int i) [1440..<june_minutes])"
  "map (\<lambda>i. june_start + 60000 * int i) [1440..<june_minutes]
     = filter (\<lambda>t. t div day_ms * day_ms \<notin> {june_start}) (minute_grid june_start (june_start + 60000 * int june_minutes))"
proof -
  show "text_frame short_month" by (simp add: short_month_def text_frame_pick flat_text)
  show "open_stamps (ht_source flat_host) short_month = Inr (map (\<lambda>i. june_start + 60000 * int i) [1440..<june_minutes])"
    unfolding flat_source short_month_def by (rule pick_stamps) auto
  have f: "(june_start + 60000 * int i) div day_ms * day_ms = june_start \<longleftrightarrow> i < 1440" for i
  proof -
    have "(june_start + 60000 * int i) div day_ms = (60000 * (29671200 + int i)) div (60000 * 1440)"
      by (simp add: june_start_def day_ms_def)
    also have "\<dots> = (29671200 + int i) div 1440" by (rule div_mult_mult1) simp
    also have "\<dots> = 20605 + int i div 1440" by linarith
    finally show ?thesis by (auto simp: june_start_def day_ms_def zdiv_eq_0_iff)
  qed
  have "filter (\<lambda>i. \<not> i < a) [0..<n] = [a..<n]" for a n :: nat
    by (rule sorted_distinct_set_unique) (auto simp: sorted_wrt_filter)
  note this [of 1440 june_minutes]
  then show "map (\<lambda>i. june_start + 60000 * int i) [1440..<june_minutes]
     = filter (\<lambda>t. t div day_ms * day_ms \<notin> {june_start}) (minute_grid june_start (june_start + 60000 * int june_minutes))"
    by (simp add: june_grid filter_map comp_def f)
qed

lemma first_day_archive:
  "\<exists>d' report. daily_archives flat_host [] ''BTCUSDT'' [june_start] (\<lambda>_. None) = (d', Inr [(first_day, report)])"
proof -
  have n: "(1440 :: nat) \<le> june_minutes" by (simp add: june_minutes_def)
  then have st: "open_stamps digit_source first_day = Inr (day_grid june_start)"
    using pick_stamps [of "[0..<1440]"] by (auto simp: first_day_def day_grid_def minute_grid_def day_ms_def subset_iff)
  have "text_frame first_day" by (simp add: first_day_def text_frame_pick flat_text)
  then have same: "strip_header first_day = first_day" using st by (rule strip_converted [OF digit_source_cellwise])
  define url where "url = daily_marks_url ''BTCUSDT'' (iso_text (day_of_ms june_start))"
  have "iso_text (day_of_ms june_start) = ''2026-06-01''" by code_simp
  then have "last_segment url = ''BTCUSDT-1m-2026-06-01.zip''"
    by (simp add: url_def daily_marks_url_def last_segment_def archive_base_def marks_dataset_def)
  then obtain d' where "fetch_archive flat_host is_digest (MarkPriceDataError ''supplemental daily SHA-256 is required'') url
      (marks_cache [] url) (\<lambda>_. None) = (d', Inr (sample_digest, first_day))"
    using flat_archive [of url] by auto
  moreover have "ht_source flat_host = digit_source" by (simp add: flat_host_def)
  ultimately show ?thesis using st by (simp add: daily_archive_def Let_def same open_stamps_def flip: url_def)
qed

theorem fetched_marks_are_complete_witness:
  "\<exists>d' f report opens. fetch_marks_month flat_host [] ''BTCUSDT'' ''2026-06'' (\<lambda>_. None) = (d', Inr (f, report))
     \<and> nrows f = 43200 \<and> get_ints f ''open_time'' = Inr opens \<and> 1780272060000 \<in> set opens
     \<and> (\<exists>d2 g entry. supplement_missing_days flat_host [] short_month ''BTCUSDT'' ''2026-06'' (\<lambda>_. None) = (d2, Inr (g, [entry]))
          \<and> open_stamps digit_source g = Inr (minute_grid june_start (june_start + 60000 * int june_minutes)))"
proof -
  obtain url where url: "marks_url ''BTCUSDT'' ''2026-06'' = Inr url" "last_segment url = ''BTCUSDT-1m-2026-06.zip''"
    by (simp add: marks_url_def june_2026 last_segment_def archive_base_def marks_dataset_def)
  obtain d1 where d1: "fetch_archive flat_host is_digest (MarkPriceDataError ''published SHA-256 is required'') url (marks_cache [] url) (\<lambda>_. None)
      = (d1, Inr (sample_digest, flat_month))"
    using flat_archive [of url] url(2) by auto
  obtain f where f: "normalise_marks digit_source flat_month ''BTCUSDT'' ''2026-06'' = Inr f" using flat_marks by blast
  then obtain report where "marks_report ''BTCUSDT'' ''2026-06'' url sample_digest (file_size d1 (marks_cache [] url)) f (nrows flat_month) [] = Inr report"
    by (auto simp: normalise_marks_def Let_def res_simps mark_frame_def marks_report_def get_ints_def get_col_def)
  then have run: "fetch_marks_month flat_host [] ''BTCUSDT'' ''2026-06'' (\<lambda>_. None) = (d1, Inr (f, report))"
    using f by (simp add: fetch_marks_month_def url d1 flat_header flat_supplement Let_def) (simp add: flat_host_def)
  note month = fetched_marks_are_complete [OF flat_host_ok flat_cellwise run june_2026]
  obtain opens where o: "get_ints f ''open_time'' = Inr opens"
    and mem: "\<And>t. t \<in> set opens \<longleftrightarrow> june_start \<le> t \<and> t < june_start + 60000 * int june_minutes \<and> (t - june_start) mod 60000 = 0"
    using conjunct2 [OF conjunct2 [OF month]] by blast
  have "1780272060000 \<in> set opens" by (simp add: mem june_start_def june_minutes_def)
  moreover have "nrows f = 43200" using conjunct1 [OF conjunct2 [OF month]] by (simp add: june_minutes_def)
  moreover have "\<exists>d2 g entry. supplement_missing_days flat_host [] short_month ''BTCUSDT'' ''2026-06'' (\<lambda>_. None) = (d2, Inr (g, [entry]))
      \<and> open_stamps digit_source g = Inr (minute_grid june_start (june_start + 60000 * int june_minutes))"
  proof -
    obtain d2 entry where days: "daily_archives flat_host [] ''BTCUSDT'' [june_start] (\<lambda>_. None) = (d2, Inr [(first_day, entry)])"
      using first_day_archive by blast
    have "omitted_days (map (\<lambda>i. june_start + 60000 * int i) [1440..<june_minutes]) june_start (june_start + 60000 * int june_minutes) = [june_start]"
      by (rule short_omits)
    moreover have "set [june_start] = {june_start}" by simp
    ultimately have "\<exists>g. supplement_missing_days flat_host [] short_month ''BTCUSDT'' ''2026-06'' (\<lambda>_. None) = (d2, Inr (g, map snd [(first_day, entry)]))
        \<and> open_stamps (ht_source flat_host) g = Inr (minute_grid june_start (june_start + 60000 * int june_minutes))"
      using conjunct2 [OF conjunct2 [OF conjunct2 [OF month]], THEN spec, of short_month] short_month_facts days by metis
    then show ?thesis unfolding flat_source list.map prod.sel by blast
  qed
  ultimately show ?thesis using run o by blast
qed

end
