(* ===== verification/OrderSize.thy ===== *)
theory OrderSize
  imports SymbolMeta Trades
begin

text \<open>
  Order sizes in comparable units (\<open>models/order_size.py\<close>): traded volume per stored day, the average
  over the completed days before an instant, sizes as fractions of it and of the visible depth, and
  rounding to the committed step size. The sums and the mean of pandas are parameters.
\<close>

definition default_adv_days :: int where "default_adv_days = 30"

text \<open>The entries of a symbol's directory: names, and the frames of the Parquet files below, by name.\<close>

type_synonym trade_dir = "(string \<times> frame res list) list option"

definition entry_day :: "string \<Rightarrow> string" where "entry_day name = drop 5 name" \<comment> \<open>\<open>removeprefix("date=")\<close>\<close>

definition day_volume :: "(pynum list \<Rightarrow> pynum) \<Rightarrow> frame res list \<Rightarrow> pynum res" where
  "day_volume psum files =
     bnd (map_res (\<lambda>file. bnd file (\<lambda>f. bnd (get_nums f ''quantity'') (\<lambda>qs. Inr (psum qs)))) files) (\<lambda>totals.
     Inr (foldl fadd (Fin 0) totals))"

definition in_window :: "int option \<Rightarrow> int option \<Rightarrow> string \<Rightarrow> bool" where
  "in_window start stop day \<longleftrightarrow>
     (case start of Some s \<Rightarrow> iso_text s \<le> day | None \<Rightarrow> True) \<and> (case stop of Some e \<Rightarrow> day \<le> iso_text e | None \<Rightarrow> True)"

definition window_entries :: "(string \<times> frame res list) list \<Rightarrow> int option \<Rightarrow> int option \<Rightarrow> (string \<times> frame res list) list" where
  "window_entries entries start stop =
     filter (\<lambda>(n, _). in_window start stop (entry_day n)) (sort_key fst (filter (\<lambda>(n, _). prefix ''date='' n) entries))"

definition daily_volumes :: "(pynum list \<Rightarrow> pynum) \<Rightarrow> trade_dir \<Rightarrow> int option \<Rightarrow> int option \<Rightarrow> (string \<times> pynum) list res" where
  "daily_volumes psum dir start stop =
     (case dir of
        None \<Rightarrow> Inl (OrderSizeError ''no trades partitions'')
      | Some entries \<Rightarrow>
          bnd (map_res (\<lambda>(n, files). bnd (day_volume psum files) (\<lambda>v. Inr (entry_day n, v))) (window_entries entries start stop)) (\<lambda>rows.
          bnd (guard (rows = []) (OrderSizeError ''no trades partitions in the requested range'')) (\<lambda>_.
          Inr (sort_key fst rows))))"

definition good_volume :: "pynum \<Rightarrow> bool" where
  "good_volume v \<longleftrightarrow> flt (Fin 0) v \<and> flt v PInf"

definition as_of_day :: "period \<Rightarrow> int res" where
  "as_of_day as_of =
     (case as_of of
        OnDate d \<Rightarrow> Inr d
      | AsText t \<Rightarrow> (case iso_date t of Some d \<Rightarrow> Inr d | None \<Rightarrow> Inl (ValueError ''Invalid isoformat string'')))"

definition average_daily_volume ::
  "(pynum list \<Rightarrow> pynum) \<Rightarrow> (pynum list \<Rightarrow> pynum) \<Rightarrow> trade_dir \<Rightarrow> period \<Rightarrow> int \<Rightarrow> pynum res" where
  "average_daily_volume psum pmean dir as_of days =
     bnd (guard (days < 1) (OrderSizeError ''ADV window must be at least one day'')) (\<lambda>_.
     bnd (as_of_day as_of) (\<lambda>day.
     bnd (daily_volumes psum dir (Some (day - days)) (Some (day - 1))) (\<lambda>volumes.
     let expected = map (\<lambda>offset. iso_text (day - offset)) [1 .. days] in
     bnd (guard (\<not> set expected \<subseteq> set (map fst volumes)) (OrderSizeError ''incomplete ADV window'')) (\<lambda>_.
     bnd (guard (\<not> list_all good_volume (map snd volumes)) (OrderSizeError ''ADV window has invalid daily volumes'')) (\<lambda>_.
     Inr (pmean (map snd volumes)))))))"

definition as_fraction_of_adv ::
  "(pynum list \<Rightarrow> pynum) \<Rightarrow> (pynum list \<Rightarrow> pynum) \<Rightarrow> pynum \<Rightarrow> trade_dir \<Rightarrow> period \<Rightarrow> int \<Rightarrow> pynum res" where
  "as_fraction_of_adv psum pmean quantity dir as_of days =
     bnd (average_daily_volume psum pmean dir as_of days) (\<lambda>adv.
     bnd (guard (\<not> flt (Fin 0) adv) (OrderSizeError ''cannot express a size as a fraction of it'')) (\<lambda>_.
     fdiv quantity adv))"

definition quantity_from_adv_fraction ::
  "(pynum list \<Rightarrow> pynum) \<Rightarrow> (pynum list \<Rightarrow> pynum) \<Rightarrow> pynum \<Rightarrow> trade_dir \<Rightarrow> period \<Rightarrow> int \<Rightarrow> pynum res" where
  "quantity_from_adv_fraction psum pmean fraction dir as_of days =
     bnd (average_daily_volume psum pmean dir as_of days) (\<lambda>adv. Inr (fmul fraction adv))"

definition visible_depth :: "(pynum \<times> pynum) list \<Rightarrow> int \<Rightarrow> (pynum \<times> nat) res" where
  "visible_depth levels depth =
     bnd (guard (depth < 1) (OrderSizeError ''depth must be at least one level'')) (\<lambda>_.
     let used = take (nat depth) levels in Inr (py_sum (map snd used), length used))"

definition as_fraction_of_depth :: "pynum \<Rightarrow> (pynum \<times> pynum) list \<Rightarrow> int \<Rightarrow> (pynum \<times> nat) res" where
  "as_fraction_of_depth quantity levels depth =
     bnd (visible_depth levels depth) (\<lambda>(total, present).
     bnd (guard (\<not> flt (Fin 0) total) (OrderSizeError ''no visible liquidity on that side'')) (\<lambda>_.
     bnd (fdiv quantity total) (\<lambda>fraction. Inr (fraction, present))))"

text \<open>\<open>float((Decimal(str(quantity)) // step) * step)\<close>: the quotient is truncated towards zero.\<close>

definition step_floor :: "pynum \<Rightarrow> decimal \<Rightarrow> pynum res" where
  "step_floor quantity step =
     (case (quantity, dec_val step) of
        (NaN, _) \<Rightarrow> Inr NaN
      | (Fin r, Some s) \<Rightarrow>
          (let k = (if 0 \<le> r then \<lfloor>repr_dec r / s\<rfloor> else - \<lfloor>- repr_dec r / s\<rfloor>) in
           if 10 ^ 28 \<le> \<bar>k\<bar> then Inl (InvalidOperation ''DivisionImpossible'') else Inr (fl (d28 (of_int k * s))))
      | (Fin _, None) \<Rightarrow> Inl (InvalidOperation ''0 * Infinity'')
      | (x, Some _) \<Rightarrow> Inr x
      | (_, None) \<Rightarrow> Inl (InvalidOperation ''Infinity // Infinity''))"

definition nonpositive_step :: "decimal \<Rightarrow> bool res" where
  "nonpositive_step step =
     (case step of
        DNaN _ _ _ \<Rightarrow> Inl (InvalidOperation ''comparison involving NaN'')
      | DInf sg \<Rightarrow> Inr sg
      | DFin sg c _ \<Rightarrow> Inr (sg \<or> c = 0))"

definition round_to_step :: "(string \<times> symbol_meta) list res \<Rightarrow> pynum \<Rightarrow> string \<Rightarrow> pynum res" where
  "round_to_step table quantity symbol =
     bnd table (\<lambda>t.
     case map_of t symbol of
       None \<Rightarrow> Inl (OrderSizeError ''not in symbol_meta.json'')
     | Some meta \<Rightarrow>
         bnd (nonpositive_step (step_size meta)) (\<lambda>bad.
         bnd (guard bad (OrderSizeError ''step_size'')) (\<lambda>_. step_floor quantity (step_size meta))))"

section \<open>The window is complete and past\<close>

definition dated :: "(string \<times> 'a) list \<Rightarrow> bool" where \<comment> \<open>every partition is named by a day, once\<close>
  "dated entries \<longleftrightarrow> distinct (map fst entries)
     \<and> (\<forall>n \<in> fst ` set entries. prefix ''date='' n \<longrightarrow> (\<exists>d. 1 \<le> d \<and> d \<le> 3652059 \<and> n = ''date='' @ iso_text d))"

definition volume_on :: "(pynum list \<Rightarrow> pynum) \<Rightarrow> (string \<times> frame res list) list \<Rightarrow> int \<Rightarrow> pynum res" where
  "volume_on psum entries day =
     (case map_of entries (''date='' @ iso_text day) of Some files \<Rightarrow> day_volume psum files | None \<Rightarrow> Inl (KeyError []))"

definition day_name :: "int \<Rightarrow> string" where "day_name d = ''date='' @ iso_text d"

lemma entry_day_name [simp]: "entry_day (day_name i) = iso_text i" "prefix ''date='' (day_name i)"
  by (simp_all add: entry_day_def day_name_def)

definition window_days :: "(string \<times> 'a) list \<Rightarrow> int \<Rightarrow> int \<Rightarrow> int list" where
  "window_days entries a b = filter (\<lambda>i. map_of entries (day_name i) \<noteq> None) [a..b]"

lemma iso_sorted:
  assumes "1 \<le> a" "b \<le> 3652059"
  shows "sorted (map iso_text (filter P [a..b]))" "sorted (map day_name (filter P [a..b]))" "distinct (map day_name (filter P [a..b]))"
proof -
  have le: "iso_text i \<le> iso_text j" if "i \<in> {a..b}" "j \<in> {a..b}" "i \<le> j" for i j
    using iso_text_le [of i j] that assms by auto
  have eq: "iso_text i = iso_text j \<Longrightarrow> i = j" if "i \<in> {a..b}" "j \<in> {a..b}" for i j
    using iso_text_inj [of i j] that assms by auto
  have name: "day_name i \<le> day_name j \<longleftrightarrow> iso_text i \<le> iso_text j" for i j
    by (simp add: day_name_def)
  have srt: "sorted (filter P [a..b])" by (simp add: sorted_filter [where f = id, simplified])
  show "sorted (map iso_text (filter P [a..b]))"
    unfolding sorted_wrt_map by (rule sorted_wrt_mono_rel [OF _ srt]) (use le in auto)
  show "sorted (map day_name (filter P [a..b]))"
    unfolding sorted_wrt_map name by (rule sorted_wrt_mono_rel [OF _ srt]) (use le in auto)
  show "distinct (map day_name (filter P [a..b]))"
    unfolding distinct_map by (simp add: inj_on_def day_name_def) (use eq in simp)
qed

lemma distinct_sort_keys: "distinct (map fst (sort_key f xs)) \<longleftrightarrow> distinct (map fst xs)"
  by (rule mset_eq_imp_distinct_iff) simp

text \<open>In a dated directory a window is its days, in order.\<close>

lemma window_entries_days:
  assumes "dated entries" "1 \<le> a" "a \<le> b" "b \<le> 3652059"
  shows "window_entries entries (Some a) (Some b) = map (\<lambda>i. (day_name i, the (map_of entries (day_name i)))) (window_days entries a b)"
    (is "?l = ?r")
proof (rule map_sorted_distinct_set_unique [where f = fst])
  have d: "distinct (map fst entries)" using assms(1) by (simp add: dated_def)
  have look: "(n, f) \<in> set entries \<longleftrightarrow> map_of entries n = Some f" for n f using d by simp
  have "in_window (Some a) (Some b) (entry_day (day_name i)) \<longleftrightarrow> a \<le> i \<and> i \<le> b" if "1 \<le> i" "i \<le> 3652059" for i
    using iso_text_le [of a i] iso_text_le [of i b] that assms(2-4) by (simp add: in_window_def)
  note inside = this
  have l: "(n, f) \<in> set ?l \<longleftrightarrow> (\<exists>i. a \<le> i \<and> i \<le> b \<and> n = day_name i \<and> map_of entries n = Some f)" for n f
  proof
    assume "(n, f) \<in> set ?l"
    then have e: "(n, f) \<in> set entries" "prefix ''date='' n" and w: "in_window (Some a) (Some b) (entry_day n)"
      by (auto simp: window_entries_def)
    have "n \<in> fst ` set entries" using e(1) by (metis fst_conv image_eqI)
    then obtain i where i: "1 \<le> i" "i \<le> 3652059" "n = day_name i"
      using assms(1) e(2) unfolding dated_def day_name_def by blast
    then show "\<exists>i. a \<le> i \<and> i \<le> b \<and> n = day_name i \<and> map_of entries n = Some f"
      using w e(1) look inside [OF i(1,2)] by auto
  next
    assume "\<exists>i. a \<le> i \<and> i \<le> b \<and> n = day_name i \<and> map_of entries n = Some f"
    then obtain i where i: "a \<le> i" "i \<le> b" "n = day_name i" and f: "map_of entries n = Some f" by blast
    then have "in_window (Some a) (Some b) (entry_day n)" using inside [of i] assms(2,4) by simp
    then show "(n, f) \<in> set ?l" using i(3) f look by (simp add: window_entries_def)
  qed
  have r: "(n, f) \<in> set ?r \<longleftrightarrow> (\<exists>i. a \<le> i \<and> i \<le> b \<and> n = day_name i \<and> map_of entries n = Some f)" for n f
    by (auto simp: window_days_def)
  show "set ?l = set ?r"
  proof (rule set_eqI)
    show "p \<in> set ?l \<longleftrightarrow> p \<in> set ?r" for p using l [of "fst p" "snd p"] r [of "fst p" "snd p"] by simp
  qed
  show "inj_on fst (set ?l \<union> set ?r)"
  proof (rule inj_onI)
    fix x y assume "x \<in> set ?l \<union> set ?r" "y \<in> set ?l \<union> set ?r" "fst x = fst y"
    then show "x = y" using l [of "fst x" "snd x"] r [of "fst x" "snd x"] l [of "fst y" "snd y"] r [of "fst y" "snd y"]
      by (cases x; cases y) auto
  qed
  show "sorted (map fst ?l)" unfolding window_entries_def by (rule sorted_filter) simp
  show "distinct (map fst ?l)"
    unfolding window_entries_def by (intro distinct_map_filter) (simp add: distinct_sort_keys distinct_map_filter d)
  show "sorted (map fst ?r)" "distinct (map fst ?r)"
    using iso_sorted [OF assms(2,4)] by (simp_all add: window_days_def comp_def)
qed

lemma map_res_tagged:
  "map_res (\<lambda>(n, x). bnd (g x) (\<lambda>v. Inr (h n, v))) ps = Inr rows \<longleftrightarrow>
   (\<exists>vs. map_res (\<lambda>p. g (snd p)) ps = Inr vs \<and> rows = zip (map (\<lambda>p. h (fst p)) ps) vs)"
proof (induction ps arbitrary: rows)
  case (Cons p ps)
  then show ?case by (cases p) (force simp: res_simps)
qed auto

lemma map_res_mapped: "map_res f (map g xs) = map_res (\<lambda>x. f (g x)) xs"
  by (induction xs) simp_all

lemma map_res_cong: "(\<And>x. x \<in> set xs \<Longrightarrow> f x = g x) \<Longrightarrow> map_res f xs = map_res g xs"
  by (induction xs) (simp_all cong: bnd_cong)

lemma volumes_of_window:
  assumes "dated entries" "1 \<le> a" "a \<le> b" "b \<le> 3652059"
    and "daily_volumes psum (Some entries) (Some a) (Some b) = Inr rows"
  obtains vs where "rows = zip (map iso_text (window_days entries a b)) vs" "map_res (volume_on psum entries) (window_days entries a b) = Inr vs"
proof -
  let ?is = "window_days entries a b"
  obtain rows0 where r0: "map_res (\<lambda>(n, files). bnd (day_volume psum files) (\<lambda>v. Inr (entry_day n, v))) (window_entries entries (Some a) (Some b)) = Inr rows0"
    and rows: "rows = sort_key fst rows0"
    using assms(5) by (auto simp: daily_volumes_def res_simps)
  obtain vs where vs: "map_res (\<lambda>p. day_volume psum (snd p)) (window_entries entries (Some a) (Some b)) = Inr vs"
    and z: "rows0 = zip (map (\<lambda>p. entry_day (fst p)) (window_entries entries (Some a) (Some b))) vs"
    using r0 unfolding map_res_tagged by blast
  have "map_res (\<lambda>i. day_volume psum (the (map_of entries (day_name i)))) ?is = Inr vs"
    using vs unfolding window_entries_days [OF assms(1-4)] map_res_mapped by simp
  moreover have "map_res (\<lambda>i. day_volume psum (the (map_of entries (day_name i)))) ?is = map_res (volume_on psum entries) ?is"
    by (rule map_res_cong) (auto simp: window_days_def volume_on_def day_name_def)
  ultimately have v: "map_res (volume_on psum entries) ?is = Inr vs" by simp
  have z': "rows0 = zip (map iso_text ?is) vs"
    using z unfolding window_entries_days [OF assms(1-4)] by (simp add: comp_def)
  have "map fst rows0 = map iso_text ?is" using map_res_length [OF v] by (simp add: z')
  then have "sorted (map fst rows0)" using iso_sorted(1) [OF assms(2,4)] by (simp add: window_days_def)
  then have "rows = rows0" by (simp add: rows sort_key_id_if_sorted)
  then show thesis using that z' v by blast
qed

text \<open>C30: The average daily volume uses no look-ahead: over a directory of days, it is the mean of the volumes of exactly the completed days before the instant, in order, each stored and each finite and positive, and it does not change with anything stored for the day itself or any other day.\<close>

theorem adv_is_the_completed_window:
  assumes "average_daily_volume psum pmean (Some entries) as_of days = Inr v" and "as_of_day as_of = Inr day"
    and "dated entries" and "days < day" and "day \<le> 3652060"
  shows "(\<exists>vs. map_res (volume_on psum entries) [day - days .. day - 1] = Inr vs \<and> list_all good_volume vs \<and> v = pmean vs)
    \<and> (\<forall>entries'. dated entries' \<and> (\<forall>i \<in> {day - days .. day - 1}. map_of entries' (day_name i) = map_of entries (day_name i))
         \<longrightarrow> average_daily_volume psum pmean (Some entries') as_of days = Inr v)"
proof -
  let ?a = "day - days" and ?b = "day - 1"
  obtain rows where days: "1 \<le> days" and rows: "daily_volumes psum (Some entries) (Some ?a) (Some ?b) = Inr rows"
    and full: "set (map (\<lambda>offset. iso_text (day - offset)) [1 .. days]) \<subseteq> set (map fst rows)"
    and good: "list_all good_volume (map snd rows)" and v: "v = pmean (map snd rows)"
    using assms(1,2) by (auto simp: average_daily_volume_def res_simps Let_def)
  have ab: "1 \<le> ?a" "?a \<le> ?b" "?b \<le> 3652059" using assms(4,5) days by simp_all
  obtain vs where z: "rows = zip (map iso_text (window_days entries ?a ?b)) vs"
    and vs: "map_res (volume_on psum entries) (window_days entries ?a ?b) = Inr vs"
    using volumes_of_window [OF assms(3) ab rows] .
  have len: "length vs = length (window_days entries ?a ?b)" using map_res_length [OF vs] by simp
  then have fst: "map fst rows = map iso_text (window_days entries ?a ?b)" and snd: "map snd rows = vs" by (simp_all add: z)
  have "i \<in> set (window_days entries ?a ?b)" if i: "?a \<le> i" "i \<le> ?b" for i
  proof -
    have "iso_text i \<in> set (map (\<lambda>offset. iso_text (day - offset)) [1 .. days])"
      unfolding set_map by (rule image_eqI [of _ _ "day - i"]) (use i in auto)
    then obtain j where j: "j \<in> set (window_days entries ?a ?b)" "iso_text i = iso_text j" using full fst by auto
    then have "?a \<le> j" "j \<le> ?b" by (auto simp: window_days_def)
    then have "i = j" using j(2) iso_text_inj [of i j] i ab by simp
    then show ?thesis using j(1) by simp
  qed
  then have all: "window_days entries ?a ?b = [?a .. ?b]"
    by (auto simp: window_days_def intro!: filter_True)
  have "average_daily_volume psum pmean (Some entries') as_of days = Inr v"
    if e': "dated entries'" and same: "\<forall>i \<in> {?a .. ?b}. map_of entries' (day_name i) = map_of entries (day_name i)" for entries'
  proof -
    have "window_days entries' ?a ?b = window_days entries ?a ?b"
      unfolding window_days_def by (rule filter_cong) (use same in auto)
    then have "window_entries entries' (Some ?a) (Some ?b) = window_entries entries (Some ?a) (Some ?b)"
      unfolding window_entries_days [OF e' ab] window_entries_days [OF assms(3) ab]
      using same by (auto simp: window_days_def)
    then show ?thesis using assms(1,2) by (simp add: average_daily_volume_def daily_volumes_def)
  qed
  moreover have "map_res (volume_on psum entries) [?a .. ?b] = Inr vs" using vs all by simp
  ultimately show ?thesis using good v snd by blast
qed

definition sample_file :: "pynum \<Rightarrow> frame res" where
  "sample_file q = Inr \<lparr>nrows = 1, columns = [(''quantity'', FCol [q])]\<rparr>"

definition sample_dir :: "(string \<times> frame res list) list" where
  "sample_dir = [(''date=2026-06-02'', [sample_file (Fin 9)]), (''date=2026-05-31'', [sample_file (Fin 4)]), (''date=2026-06-01'', [sample_file (Fin 2)])]"

lemma sample_names: "iso_text 739767 = ''2026-05-31''" "iso_text 739768 = ''2026-06-01''" "iso_text 739769 = ''2026-06-02''"
  by code_simp+

lemma sample_window:
  "window_entries sample_dir (Some 739767) (Some 739768) = [(''date=2026-05-31'', [sample_file (Fin 4)]), (''date=2026-06-01'', [sample_file (Fin 2)])]"
proof -
  have "sort_key fst (filter (\<lambda>(n, _). prefix ''date='' n) sample_dir)
      = [(''date=2026-05-31'', [sample_file (Fin 4)]), (''date=2026-06-01'', [sample_file (Fin 2)]), (''date=2026-06-02'', [sample_file (Fin 9)])]"
    by (simp add: sample_dir_def less_eq_char_def less_char_def)
  then show ?thesis
    by (simp add: window_entries_def in_window_def entry_day_def sample_names less_eq_char_def less_char_def)
qed

lemma sample_adv: "average_daily_volume hd last (Some sample_dir) (OnDate 739769) 2 = Inr (Fin 2)"
proof -
  have "day_volume hd [sample_file (Fin q)] = Inr (fl q)" for q
    by (simp add: day_volume_def sample_file_def get_nums_def get_col_def)
  moreover have "fl 4 = Fin 4" "fl 2 = Fin 2" by (simp_all add: short_float)
  ultimately have "daily_volumes hd (Some sample_dir) (Some 739767) (Some 739768) = Inr [(''2026-05-31'', Fin 4), (''2026-06-01'', Fin 2)]"
    by (simp add: daily_volumes_def sample_window entry_day_def less_eq_char_def less_char_def)
  then show ?thesis
    by (simp add: average_daily_volume_def as_of_day_def sample_names upto.simps good_volume_def)
qed

theorem adv_is_the_completed_window_witness:
  "\<exists>vs. map_res (volume_on hd sample_dir) [739767 .. 739768] = Inr vs \<and> last vs = Fin 2 \<and> list_all good_volume vs"
proof -
  have "dated sample_dir"
    using sample_names by (auto simp: dated_def sample_dir_def intro: exI [of _ 739767] exI [of _ 739768] exI [of _ 739769])
  from conjunct1 [OF adv_is_the_completed_window [OF sample_adv _ this]]
  show ?thesis by (auto simp: as_of_day_def)
qed

end
