(* ===== verification/ImpactFit.thy ===== *)
theory ImpactFit
  imports ImpactIO OrderSize Book "HOL-Library.Product_Lexorder"
begin

text \<open>
  Chronological impact fits (\<open>models/impact_model.py\<close>): the fitting of one law, its diagnostics, the
  admission of calibration rows, and \<open>fit\<close> with its report and residual frame. The validated frame
  is the list of its rows. Powers, logarithms, products, means, deviations and quantiles of numpy are
  parameters.
\<close>

section \<open>Numbers in numpy's order\<close>

text \<open>The order of \<open>np.unique\<close> and \<open>sort_values\<close>: a NaN sorts last.\<close>

instantiation pynum :: linorder
begin

definition less_eq_pynum :: "pynum \<Rightarrow> pynum \<Rightarrow> bool" where
  "less_eq_pynum x y \<longleftrightarrow> y = NaN \<or> fle x y"

definition less_pynum :: "pynum \<Rightarrow> pynum \<Rightarrow> bool" where
  "less_pynum x y \<longleftrightarrow> x \<noteq> NaN \<and> (y = NaN \<or> flt x y)"

instance
proof
  fix x y z :: pynum
  show "x < y \<longleftrightarrow> x \<le> y \<and> \<not> y \<le> x" by (cases x; cases y) (auto simp: less_eq_pynum_def less_pynum_def)
  show "x \<le> x" by (cases x) (auto simp: less_eq_pynum_def)
  show "x \<le> y \<Longrightarrow> y \<le> z \<Longrightarrow> x \<le> z" by (cases x; cases y; cases z) (auto simp: less_eq_pynum_def)
  show "x \<le> y \<Longrightarrow> y \<le> x \<Longrightarrow> x = y" by (cases x; cases y) (auto simp: less_eq_pynum_def)
  show "x \<le> y \<or> y \<le> x" by (cases x; cases y) (auto simp: less_eq_pynum_def)
qed

end

record kernels =
  kn_pow :: "pynum \<Rightarrow> pynum \<Rightarrow> pynum"
  kn_log :: "pynum \<Rightarrow> pynum"
  kn_exp :: "pynum \<Rightarrow> pynum"
  kn_sqrt :: "pynum \<Rightarrow> pynum"
  kn_dot :: "pynum list \<Rightarrow> pynum list \<Rightarrow> pynum"
  kn_mean :: "pynum list \<Rightarrow> pynum"
  kn_std :: "pynum list \<Rightarrow> pynum" \<comment> \<open>\<open>std(ddof=1)\<close>\<close>
  kn_quantile :: "pynum list \<Rightarrow> pynum list \<Rightarrow> pynum list"

text \<open>A quotient of numpy scalars: by zero it is infinite or NaN, never an exception.\<close>

definition ndiv :: "pynum \<Rightarrow> pynum \<Rightarrow> pynum" where
  "ndiv x y = (case fdiv x y of Inr z \<Rightarrow> z | Inl _ \<Rightarrow> finf (fsgn x))"

definition unique_nums :: "pynum list \<Rightarrow> pynum list" where \<comment> \<open>\<open>np.unique\<close>\<close>
  "unique_nums xs = sort (remdups xs)"

definition sizes_bad :: "pynum list \<Rightarrow> bool" where
  "sizes_bad xs \<longleftrightarrow> list_ex (\<lambda>x. \<not> is_fin x \<or> fle x (Fin 0)) xs"

section \<open>Configuration\<close>

definition target_column :: string where "target_column = ''slippage_vs_touch_bps''"

definition group_columns :: "string list" where "group_columns = [''symbol'', ''side'', ''schedule'']"

definition flag_columns :: "string list" where
  "flag_columns = [''crossed_at_entry'', ''exhausted_book'', ''beyond_validated_depth'']"

definition fit_forms :: "string list" where "fit_forms = [''square_root'', ''linear'', ''power_diagnostic'']"

record fit_config =
  fc_target :: string
  fc_train_days :: int
  fc_quantiles :: "pynum list"

definition mk_fit_config :: "string \<Rightarrow> int \<Rightarrow> pynum list \<Rightarrow> fit_config res" where
  "mk_fit_config target train_days quantiles =
     bnd (guard (target \<noteq> target_column) (ImpactModelError ''impact must use touch-relative slippage; spread is separate'')) (\<lambda>_.
     bnd (guard (train_days < 1) (ImpactModelError ''train_days must be positive'')) (\<lambda>_.
     bnd (guard (\<not> ascending quantiles \<or> list_ex (\<lambda>q. \<not> (flt (Fin 0) q \<and> flt q (Fin 1))) quantiles)
            (ImpactModelError ''size quantiles must be unique, increasing and inside (0, 1)'')) (\<lambda>_.
     Inr \<lparr>fc_target = target, fc_train_days = train_days, fc_quantiles = quantiles\<rparr>)))"

definition default_fit_config :: "fit_config res" where
  "default_fit_config = mk_fit_config target_column 90 [fl (1 / 3), fl (2 / 3)]"

section \<open>One law\<close>

fun impact_reason :: "exn \<Rightarrow> string option" where \<comment> \<open>\<open>except ImpactModelError\<close>\<close>
  "impact_reason (ImpactModelError s) = Some s"
| "impact_reason _ = None"

definition predict_law :: "kernels \<Rightarrow> fitted_law \<Rightarrow> pynum list \<Rightarrow> pynum list res" where
  "predict_law K l sizes =
     bnd (guard (sizes_bad sizes) (ImpactModelError ''prediction sizes must be finite positive ADV fractions'')) (\<lambda>_.
     let prediction = map (\<lambda>s. fmul (lw_coefficient l) (kn_pow K s (lw_exponent l))) sizes in
     bnd (guard (\<not> list_all is_fin prediction) (ImpactModelError ''non-finite prediction'')) (\<lambda>_.
     Inr prediction))"

definition scale_law :: "kernels \<Rightarrow> pynum list \<Rightarrow> pynum list \<Rightarrow> pynum \<Rightarrow> pynum" where
  "scale_law K x y e =
     (let transformed = map (\<lambda>v. kn_pow K v e) x in ndiv (kn_dot K transformed y) (kn_dot K transformed transformed))"

definition power_law :: "kernels \<Rightarrow> pynum list \<Rightarrow> pynum list \<Rightarrow> (pynum \<times> pynum) res" where
  "power_law K x y =
     (let positive = filter (\<lambda>(a, b). flt (Fin 0) b) (zip x y) in
      bnd (guard (length positive < 2 \<or> length (unique_nums (map fst positive)) < 2)
             (ImpactModelError ''power diagnostic needs two positive targets at distinct sizes'')) (\<lambda>_.
      let lx = map (kn_log K \<circ> fst) positive; ly = map (kn_log K \<circ> snd) positive;
          centered = map (\<lambda>v. fsub v (kn_mean K lx)) lx;
          e = ndiv (kn_dot K centered (map (\<lambda>v. fsub v (kn_mean K ly)) ly)) (kn_dot K centered centered) in
      Inr (kn_exp K (fsub (kn_mean K ly) (fmul e (kn_mean K lx))), e)))"

definition fit_law :: "kernels \<Rightarrow> pynum list \<Rightarrow> pynum list \<Rightarrow> string \<Rightarrow> fitted_law res" where
  "fit_law K x y form =
     bnd (guard (length y \<noteq> length x \<or> x = [] \<or> \<not> list_all is_fin x \<or> \<not> list_all is_fin y \<or> list_ex (\<lambda>v. fle v (Fin 0)) x)
            (ImpactModelError ''fit needs aligned finite sizes/targets and positive sizes'')) (\<lambda>_.
     bnd (if form = ''square_root'' \<or> form = ''linear''
          then let e = Fin (if form = ''square_root'' then 1 / 2 else 1) in Inr (scale_law K x y e, e)
          else if form = ''power_diagnostic'' then power_law K x y
          else Inl (ImpactModelError ''unknown form'')) (\<lambda>(coefficient, e).
     bnd (guard (\<not> is_fin coefficient \<or> \<not> is_fin e) (ImpactModelError ''non-finite fitted parameters'')) (\<lambda>_.
     Inr \<lparr>lw_form = form, lw_coefficient = coefficient, lw_exponent = e\<rparr>)))"

definition fit_metrics :: "kernels \<Rightarrow> pynum list \<Rightarrow> pynum list \<Rightarrow> json res" where
  "fit_metrics K y predicted =
     (let residual = map2 fsub y predicted; sse = kn_dot K residual residual;
          centered = map (\<lambda>v. fsub v (kn_mean K y)) y; sst = kn_dot K centered centered;
          mae = kn_mean K (map fabs residual) in
      bnd (fdiv sse (Fin (of_nat (length y)))) (\<lambda>mse.
      bnd (if flt (Fin 0) sst then bnd (fdiv sse sst) (\<lambda>q. Inr (Some (fsub (Fin 1) q))) else Inr None) (\<lambda>r2.
      bnd (guard (\<not> is_fin (kn_sqrt K mse) \<or> \<not> is_fin mae \<or> (case r2 of None \<Rightarrow> False | Some v \<Rightarrow> \<not> is_fin v))
             (ImpactModelError ''non-finite fit diagnostics'')) (\<lambda>_.
      Inr (JDict [(''rows'', JInt (int (length y))), (''rmse_bps'', JNum (kn_sqrt K mse)), (''mae_bps'', JNum mae),
            (''r2'', case r2 of None \<Rightarrow> JNull | Some v \<Rightarrow> JNum v),
            (''r2_status'', JStr (if flt (Fin 0) sst then ''defined'' else ''undefined_constant_target''))])))))"

section \<open>Calibration rows\<close>

record fill_row =
  fr_symbol :: string
  fr_side :: string
  fr_schedule :: string
  fr_date :: string
  fr_time :: int
  fr_size :: pynum
  fr_target :: pynum
  fr_crossed :: bool
  fr_exhausted :: bool
  fr_deep :: bool

definition required_columns :: "string list" where
  "required_columns = group_columns @ [''date'', ''timestamp'', ''adv_fraction'', target_column] @ flag_columns"

definition row_key where
  "row_key r = (fr_symbol r, fr_side r, fr_schedule r, fr_date r, fr_time r, fr_size r, fr_target r, fr_crossed r, fr_exhausted r, fr_deep r)"

definition flag_col :: "frame \<Rightarrow> string \<Rightarrow> bool list res" where
  "flag_col f k = bnd (get_col f k) (\<lambda>c. case c of BCol xs \<Rightarrow> Inr xs | _ \<Rightarrow> Inl (ImpactModelError ''must be non-null boolean''))"

definition excluded :: "fill_row \<Rightarrow> bool" where "excluded r \<longleftrightarrow> fr_crossed r \<or> fr_exhausted r"

text \<open>A timestamp that pandas cannot hold counts as one outside its day; dates are in the canonical form.\<close>

definition validate_rows :: "frame \<Rightarrow> fill_row list res" where
  "validate_rows f =
     bnd (guard (\<not> set required_columns \<subseteq> set (col_names f) \<or> frame_empty f) (ImpactModelError ''empty or incomplete calibration data'')) (\<lambda>_.
     bnd (map_res (flag_col f) flag_columns) (\<lambda>flags.
     bnd (map_res (get_col f) (group_columns @ [''date''])) (\<lambda>keys.
     bnd (guard (list_ex col_null keys) (ImpactModelError ''null grouping or date fields'')) (\<lambda>_.
     bnd (map_res (get_texts f) (group_columns @ [''date''])) (\<lambda>texts.
     let cell = (\<lambda>j i. the (texts ! j ! i)) in
     bnd (guard (list_ex (\<lambda>i. cell 1 i \<notin> {''buy'', ''sell''} \<or> cell 2 i \<notin> {''static'', ''sliced''}) [0..<nrows f])
            (ImpactModelError ''unknown side or execution schedule'')) (\<lambda>_.
     bnd (guard (list_ex (\<lambda>i. iso_date (cell 3 i) = None) [0..<nrows f]) (ImpactModelError ''invalid date or timestamp'')) (\<lambda>_.
     bnd (get_ints f ''timestamp'') (\<lambda>times.
     bnd (guard (list_ex (\<lambda>i. Some (day_of_ms (times ! i)) \<noteq> iso_date (cell 3 i)) [0..<nrows f])
            (ImpactModelError ''entry timestamp falls outside its UTC day'')) (\<lambda>_.
     bnd (get_nums f ''adv_fraction'') (\<lambda>sizes. bnd (get_nums f target_column) (\<lambda>targets.
     let rows = map (\<lambda>i. \<lparr>fr_symbol = cell 0 i, fr_side = cell 1 i, fr_schedule = cell 2 i, fr_date = cell 3 i, fr_time = times ! i,
           fr_size = sizes ! i, fr_target = targets ! i, fr_crossed = flags ! 0 ! i, fr_exhausted = flags ! 1 ! i, fr_deep = flags ! 2 ! i\<rparr>) [0..<nrows f] in
     bnd (guard (list_ex (\<lambda>r. \<not> excluded r \<and> (\<not> is_fin (fr_size r) \<or> \<not> is_fin (fr_target r) \<or> fle (fr_size r) (Fin 0))) rows)
            (ImpactModelError ''eligible size/target must be finite and size positive'')) (\<lambda>_.
     Inr (sort_key row_key rows)))))))))))))"

section \<open>Strata\<close>

text \<open>Rows of one group; those before the cutoff train, the others test.\<close>

definition trains :: "string \<Rightarrow> fill_row \<Rightarrow> bool" where "trains cutoff r \<longleftrightarrow> fr_date r < cutoff"

definition split_name :: "string \<Rightarrow> fill_row \<Rightarrow> string" where
  "split_name cutoff r = (if trains cutoff r then ''train'' else ''test'')"

definition row_days :: "fill_row list \<Rightarrow> string list" where "row_days rs = sort (remdups (map fr_date rs))"

definition group_key :: "fill_row \<Rightarrow> string \<times> string \<times> string" where
  "group_key r = (fr_symbol r, fr_side r, fr_schedule r)"

definition bin_edges :: "kernels \<Rightarrow> fit_config \<Rightarrow> fill_row list \<Rightarrow> pynum list" where
  "bin_edges K cfg train =
     (if fc_quantiles cfg = [] then [] else unique_nums (kn_quantile K (unique_nums (map fr_size train)) (fc_quantiles cfg)))"

definition size_bin :: "pynum list \<Rightarrow> fill_row \<Rightarrow> nat" where \<comment> \<open>\<open>searchsorted(edges, size, side="left")\<close>\<close>
  "size_bin edges r = length (takeWhile (\<lambda>e. e < fr_size r) edges)"

definition regimes :: "fit_config \<Rightarrow> pynum list \<Rightarrow> fill_row list \<Rightarrow> (string \<times> fill_row list) list" where
  "regimes cfg edges rs =
     (''all_sizes'', rs) #
     (if fc_quantiles cfg = [] then []
      else map (\<lambda>i. (''training_size_bin_'' @ nat_text i, filter (\<lambda>r. size_bin edges r = i) rs)) [0..<length edges + 1])"

definition depth_name :: "bool \<Rightarrow> string" where "depth_name deep = (if deep then beyond_depth else inside_depth)"

definition jtexts :: "string list \<Rightarrow> json" where "jtexts ss = JList (map JStr ss)"

definition jcount :: "'a list \<Rightarrow> json" where "jcount xs = JInt (int (length xs))"

type_synonym fields = "(string \<times> json) list"

definition identity_fields :: "string \<times> string \<times> string \<Rightarrow> fields" where
  "identity_fields g = (case g of (symbol, side, schedule) \<Rightarrow> zip group_columns (map JStr [symbol, side, schedule]))"

definition law_fields :: "fitted_law \<Rightarrow> fields" where
  "law_fields l = [(''form'', JStr (lw_form l)), (''coefficient'', JNum (lw_coefficient l)), (''exponent'', JNum (lw_exponent l))]"

text \<open>The coefficient of each training day, or why it has none.\<close>

definition day_law :: "kernels \<Rightarrow> fill_row list \<Rightarrow> string \<Rightarrow> string \<Rightarrow> (json \<times> pynum list) res" where
  "day_law K train form day =
     (let rs = filter (\<lambda>r. fr_date r = day) train; head = [(''date'', JStr day), (''rows'', jcount rs)] in
      case fit_law K (map fr_size rs) (map fr_target rs) form of
        Inr l \<Rightarrow> Inr (JDict (head @ law_fields l), [lw_coefficient l])
      | Inl e \<Rightarrow>
          (case impact_reason e of
             Some reason \<Rightarrow> Inr (JDict (head @ [(''unavailable'', JStr reason)]), [])
           | None \<Rightarrow> Inl e))"

definition attempt :: "kernels \<Rightarrow> string \<Rightarrow> fill_row list \<Rightarrow> string \<Rightarrow> (fitted_law \<times> pynum list \<times> json) res" where
  "attempt K cutoff rs form =
     (let tr = filter (trains cutoff) rs; te = filter (\<lambda>r. \<not> trains cutoff r) rs in
      bnd (fit_law K (map fr_size tr) (map fr_target tr) form) (\<lambda>l.
      bnd (predict_law K l (map fr_size rs)) (\<lambda>predictions.
      bnd (bnd (predict_law K l (map fr_size tr)) (fit_metrics K (map fr_target tr))) (\<lambda>m1.
      bnd (bnd (predict_law K l (map fr_size te)) (fit_metrics K (map fr_target te))) (\<lambda>m2.
      Inr (l, predictions, JDict [(''train'', m1), (''test'', m2)]))))))"

definition least_num :: "pynum list \<Rightarrow> pynum" where "least_num xs = foldl min (hd xs) (tl xs)"

definition greatest_num :: "pynum list \<Rightarrow> pynum" where "greatest_num xs = foldl max (hd xs) (tl xs)"

definition residual_frame ::
  "string \<Rightarrow> string \<Rightarrow> string \<Rightarrow> string \<Rightarrow> pynum list \<Rightarrow> fill_row list \<Rightarrow> pynum list \<Rightarrow> frame" where
  "residual_frame cutoff depth regime form x rs predictions =
     (let text = (\<lambda>g. SCol (map (\<lambda>r. Some (g r)) rs)) in
      \<lparr>nrows = length rs,
       columns = [(''symbol'', text fr_symbol), (''side'', text fr_side), (''schedule'', text fr_schedule), (''date'', text fr_date),
         (''timestamp'', ICol (map fr_time rs)), (''adv_fraction'', FCol (map fr_size rs)), (''observed_bps'', FCol (map fr_target rs)),
         (''split'', text (split_name cutoff)), (''depth'', text (\<lambda>_. depth)), (''size_regime'', text (\<lambda>_. regime)), (''form'', text (\<lambda>_. form)),
         (''fitted_bps'', FCol predictions), (''residual_bps'', FCol (map2 fsub (map fr_target rs) predictions)),
         (''outside_training_size_range'', BCol (map (\<lambda>r. flt (fr_size r) (least_num x) \<or> flt (greatest_num x) (fr_size r)) rs))]\<rparr>)"

definition evaluated_fields :: "kernels \<Rightarrow> string \<Rightarrow> fill_row list \<Rightarrow> string \<Rightarrow> fitted_law \<Rightarrow> json \<Rightarrow> fields res" where
  "evaluated_fields K cutoff rs form l scores =
     (let tr = filter (trains cutoff) rs; x = map fr_size tr; y = map fr_target tr in
      bnd (map_res (day_law K tr form) (row_days tr)) (\<lambda>days.
      let coefficients = concat (map snd days) in
      Inr [(''status'', JStr ''evaluated''), (''model'', JDict (law_fields l)), (''metrics'', scores),
           (''per_training_day'', JList (map fst days)),
           (''daily_coefficient_std'', if 1 < length coefficients then JNum (kn_std K coefficients) else JNull),
           (''training_size_min'', JNum (least_num x)), (''training_size_max'', JNum (greatest_num x)),
           (''zero_training_targets'', jcount (filter (\<lambda>v. feq v (Fin 0)) y)),
           (''negative_training_targets'', jcount (filter (\<lambda>v. flt v (Fin 0)) y)),
           (''usable_as_nonnegative_impact_law'', JBool (fle (Fin 0) (lw_coefficient l) \<and> flt (Fin 0) (lw_exponent l))),
           (''fit_rows_used'', if form = ''power_diagnostic'' then jcount (filter (\<lambda>v. flt (Fin 0) v) y) else jcount y)]))"

definition fit_form ::
  "kernels \<Rightarrow> string \<Rightarrow> fields \<Rightarrow> string \<Rightarrow> string \<Rightarrow> fill_row list \<Rightarrow> string \<Rightarrow> (json \<times> frame list) res" where
  "fit_form K cutoff base depth regime rs form =
     (let record = base @ [(''form'', JStr form)] in
      case attempt K cutoff rs form of
        Inl e \<Rightarrow>
          (case impact_reason e of
             Some reason \<Rightarrow> Inr (JDict (record @ [(''status'', JStr ''unavailable''), (''reason'', JStr reason)]), [])
           | None \<Rightarrow> Inl e)
      | Inr (l, predictions, scores) \<Rightarrow>
          bnd (evaluated_fields K cutoff rs form l scores) (\<lambda>more.
          Inr (JDict (record @ more), [residual_frame cutoff depth regime form (map fr_size (filter (trains cutoff) rs)) rs predictions])))"

definition insufficient :: "string \<times> json" where "insufficient = (''status'', JStr ''insufficient_train_or_test_rows'')"

definition base_fields ::
  "string \<times> string \<times> string \<Rightarrow> string \<Rightarrow> string \<Rightarrow> pynum list \<Rightarrow> fill_row list \<Rightarrow> fill_row list \<Rightarrow> fields" where
  "base_fields g depth regime edges tr te =
     identity_fields g @ [(''depth'', JStr depth), (''size_regime'', JStr regime),
       (''size_bin_edges_adv_fraction'', JList (map JNum edges)), (''train_rows'', jcount tr), (''test_rows'', jcount te),
       (''train_days'', jtexts (row_days tr)), (''test_days'', jtexts (row_days te))]"

definition fit_regime ::
  "kernels \<Rightarrow> string \<Rightarrow> string \<times> string \<times> string \<Rightarrow> string \<Rightarrow> pynum list \<Rightarrow> string \<times> fill_row list \<Rightarrow> (json \<times> frame list) list res" where
  "fit_regime K cutoff g depth edges p =
     (case p of (regime, rs) \<Rightarrow>
        let tr = filter (trains cutoff) rs; te = filter (\<lambda>r. \<not> trains cutoff r) rs; base = base_fields g depth regime edges tr te in
        if tr = [] \<or> te = [] then Inr [(JDict (base @ [insufficient]), [])]
        else map_res (fit_form K cutoff base depth regime rs) fit_forms)"

definition fit_depth ::
  "kernels \<Rightarrow> fit_config \<Rightarrow> string \<Rightarrow> string \<times> string \<times> string \<Rightarrow> fill_row list \<Rightarrow> bool \<Rightarrow> (json \<times> frame list) list res" where
  "fit_depth K cfg cutoff g good deep =
     (let rs = filter (\<lambda>r. fr_deep r = deep) good; tr = filter (trains cutoff) rs; te = filter (\<lambda>r. \<not> trains cutoff r) rs in
      if tr = [] \<or> te = []
      then Inr [(JDict (identity_fields g @ [(''depth'', JStr (depth_name deep)), insufficient, (''train_rows'', jcount tr), (''test_rows'', jcount te)]), [])]
      else let edges = bin_edges K cfg tr in
           bnd (map_res (fit_regime K cutoff g (depth_name deep) edges) (regimes cfg edges rs)) (\<lambda>xs. Inr (concat xs)))"

definition is_primary_record :: "json \<Rightarrow> bool" where
  "is_primary_record v =
     (case v of JDict d \<Rightarrow> map_of d ''form'' = Some (JStr ''square_root'') \<and> map_of d ''status'' = Some (JStr ''evaluated'') | _ \<Rightarrow> False)"

definition fit_group ::
  "kernels \<Rightarrow> fit_config \<Rightarrow> string \<Rightarrow> fill_row list \<Rightarrow> string \<times> string \<times> string \<Rightarrow> (json \<times> (json \<times> frame list) list) res" where
  "fit_group K cfg cutoff rows g =
     (let original = filter (\<lambda>r. group_key r = g) rows; good = filter (\<lambda>r. \<not> excluded r) original;
          tr = filter (trains cutoff) good; te = filter (\<lambda>r. \<not> trains cutoff r) good;
          group = (\<lambda>status. JDict (identity_fields g @ [(''train_days'', jtexts (row_days tr)), (''test_days'', jtexts (row_days te)),
             (''excluded_rows'', JInt (int (length original) - int (length good))), (''status'', JStr status)])) in
      if tr = [] \<or> te = [] then Inr (group ''insufficient_days'', [])
      else bnd (map_res (fit_depth K cfg cutoff g good) [False, True]) (\<lambda>xs.
           let fits = concat xs in
           Inr (group (if list_ex (is_primary_record \<circ> fst) fits then ''evaluated'' else ''no_evaluable_depth_regime''), fits)))"

section \<open>The fit\<close>

record fit_report =
  fp_summary :: fields
  fp_diagnostics :: frame

definition config_json :: "fit_config \<Rightarrow> json" where
  "config_json cfg = JDict [(''target'', JStr (fc_target cfg)), (''train_days'', JInt (fc_train_days cfg)),
     (''size_quantiles'', JList (map JNum (fc_quantiles cfg)))]"

definition in_fold :: "string \<Rightarrow> string \<Rightarrow> frame \<Rightarrow> frame res" where
  "in_fold start stop f =
     bnd (get_texts f ''date'') (\<lambda>days.
     Inr (keep_rows (\<lambda>i. case days ! i of Some d \<Rightarrow> start \<le> d \<and> d < stop | None \<Rightarrow> False) f))"

definition summary_fields ::
  "fit_config \<Rightarrow> string \<Rightarrow> string \<Rightarrow> string \<Rightarrow> nat \<Rightarrow> fill_row list \<Rightarrow> json list \<Rightarrow> json list \<Rightarrow> fields" where
  "summary_fields cfg start cutoff stop rows window groups fits =
     [(''task'', JStr ''M5-T2''), (''primary_form'', JStr ''square_root''),
      (''size_unit'', JStr ''ADV fraction; multiply by 100 for percent''), (''config'', config_json cfg),
      (''train_start'', JStr start), (''train_end_exclusive'', JStr cutoff), (''test_end_exclusive'', JStr stop),
      (''weighting'', JStr ''equal eligible rows; event-grid samples weight busy periods more heavily''),
      (''size_regimes'', JStr ''quantiles of unique eligible training sizes, per group and depth''),
      (''input_rows'', JInt (int rows)), (''outside_window_rows'', JInt (int rows - int (length window))),
      (''excluded_rows'', jcount (filter excluded window)), (''crossed_rows'', jcount (filter fr_crossed window)),
      (''exhausted_rows'', jcount (filter fr_exhausted window)),
      (''exclusion_note'', JStr ''reason counts overlap; excluded_rows is their union''),
      (''groups'', JList groups), (''fits'', JList fits),
      (''caveat'', JStr ''fill rows are correlated; held-out days do not establish year-round execution''),
      (''signed_targets'', JStr (''retain favorable sliced price movement and static rounding residuals; negative fitted costs are reported, ''
         @ ''not clipped or usable as a nonnegative impact law'')),
      (''power_diagnostic'', JStr ''log-OLS on positive training targets; original-bps scoring includes zero and negative targets'')]"

definition fit_impact :: "kernels \<Rightarrow> frame \<Rightarrow> period \<Rightarrow> period \<Rightarrow> fit_config \<Rightarrow> fit_report res" where
  "fit_impact K f train_end test_end cfg =
     bnd (as_of_day train_end) (\<lambda>cutday. bnd (as_of_day test_end) (\<lambda>stop.
     bnd (guard (stop \<le> cutday) (ImpactModelError ''test_end must follow the exclusive training cutoff'')) (\<lambda>_.
     let start = cutday - fc_train_days cfg in
     bnd (guard (''date'' \<notin> set (col_names f) \<or> frame_empty f) (ImpactModelError ''empty or incomplete calibration data'')) (\<lambda>_.
     bnd (bnd (in_fold (iso_text start) (iso_text stop) f) validate_rows) (\<lambda>window.
     bnd (map_res (fit_group K cfg (iso_text cutday) window) (sort (remdups (map group_key window)))) (\<lambda>gs.
     let fits = concat (map snd gs) in
     bnd (guard (\<not> list_ex (is_primary_record \<circ> fst) fits)
            (ImpactModelError ''need eligible earlier training and later held-out days in the same group/depth'')) (\<lambda>_.
     Inr \<lparr>fp_summary = summary_fields cfg (iso_text start) (iso_text cutday) (iso_text stop) (nrows f) window (map fst gs) (map fst fits),
          fp_diagnostics = row_groups (concat (map snd fits))\<rparr>)))))))"

end
