(* ===== verification/ImpactFitProps.thy ===== *)
theory ImpactFitProps
  imports ImpactFit
begin

text \<open>
  What a fit report of \<open>models/impact_model.py\<close> means: every evaluated law is the fit of the rows of
  its stratum dated inside the training window, whatever the held-out rows are, so that adding later
  days moves no law.
\<close>

section \<open>Rows of a frame\<close>

definition text_at :: "frame \<Rightarrow> string \<Rightarrow> nat \<Rightarrow> string" where
  "text_at f k i = (case map_of (columns f) k of Some (SCol xs) \<Rightarrow> (case xs ! i of Some s \<Rightarrow> s | None \<Rightarrow> []) | _ \<Rightarrow> [])"

definition int_at :: "frame \<Rightarrow> string \<Rightarrow> nat \<Rightarrow> int" where
  "int_at f k i = (case map_of (columns f) k of Some (ICol xs) \<Rightarrow> xs ! i | _ \<Rightarrow> 0)"

definition num_at :: "frame \<Rightarrow> string \<Rightarrow> nat \<Rightarrow> pynum" where
  "num_at f k i = (case map_of (columns f) k of Some c \<Rightarrow> (case numbers c of Some xs \<Rightarrow> xs ! i | None \<Rightarrow> NaN) | None \<Rightarrow> NaN)"

definition bool_at :: "frame \<Rightarrow> string \<Rightarrow> nat \<Rightarrow> bool" where
  "bool_at f k i = (case map_of (columns f) k of Some (BCol xs) \<Rightarrow> xs ! i | _ \<Rightarrow> False)"

definition row_at :: "frame \<Rightarrow> nat \<Rightarrow> fill_row" where
  "row_at f i = \<lparr>fr_symbol = text_at f ''symbol'' i, fr_side = text_at f ''side'' i, fr_schedule = text_at f ''schedule'' i,
     fr_date = text_at f ''date'' i, fr_time = int_at f ''timestamp'' i, fr_size = num_at f ''adv_fraction'' i,
     fr_target = num_at f target_column i, fr_crossed = bool_at f ''crossed_at_entry'' i,
     fr_exhausted = bool_at f ''exhausted_book'' i, fr_deep = bool_at f ''beyond_validated_depth'' i\<rparr>"

definition frame_rows :: "frame \<Rightarrow> fill_row list" where "frame_rows f = map (row_at f) [0..<nrows f]"

lemma text_at_texts:
  "get_texts f k = Inr xs \<Longrightarrow> None \<notin> set xs \<Longrightarrow> i < length xs \<Longrightarrow> text_at f k i = the (xs ! i)"
  by (cases "xs ! i") (auto simp: res_simps text_at_def dest: nth_mem)

lemma int_at_ints: "get_ints f k = Inr is \<Longrightarrow> int_at f k i = is ! i"
  and num_at_nums: "get_nums f k = Inr ns \<Longrightarrow> num_at f k i = ns ! i"
  by (auto simp: res_simps int_at_def num_at_def)

lemma flag_col_Inr [res_simps]: "flag_col f k = Inr bs \<longleftrightarrow> map_of (columns f) k = Some (BCol bs)"
  by (auto simp: flag_col_def get_col_def split: option.splits column.splits)

lemma bool_at_flag: "flag_col f k = Inr bs \<Longrightarrow> bool_at f k i = bs ! i"
  by (simp add: res_simps bool_at_def)

definition row_ok :: "fill_row \<Rightarrow> bool" where
  "row_ok r \<longleftrightarrow> fr_side r \<in> {''buy'', ''sell''} \<and> fr_schedule r \<in> {''static'', ''sliced''}
     \<and> iso_date (fr_date r) = Some (day_of_ms (fr_time r))
     \<and> (\<not> excluded r \<longrightarrow> is_fin (fr_size r) \<and> is_fin (fr_target r) \<and> flt (Fin 0) (fr_size r))"

lemma validate_rows_Inr:
  assumes "validate_rows f = Inr rows" and "frame_ok f"
  shows "rows = sort_key row_key (frame_rows f)" "\<forall>r \<in> set rows. row_ok r"
proof -
  from assms(1) obtain flags keys texts times sizes targets where
      keys: "map_res (get_col f) (group_columns @ [''date'']) = Inr keys" "\<not> list_ex col_null keys"
    and flags: "map_res (flag_col f) flag_columns = Inr flags"
    and texts: "map_res (get_texts f) (group_columns @ [''date'']) = Inr texts"
    and times: "get_ints f ''timestamp'' = Inr times"
    and nums: "get_nums f ''adv_fraction'' = Inr sizes" "get_nums f target_column = Inr targets"
    and guards: "\<not> list_ex (\<lambda>i. the (texts ! 1 ! i) \<notin> {''buy'', ''sell''} \<or> the (texts ! 2 ! i) \<notin> {''static'', ''sliced''}) [0..<nrows f]"
      "\<not> list_ex (\<lambda>i. Some (day_of_ms (times ! i)) \<noteq> iso_date (the (texts ! 3 ! i))) [0..<nrows f]"
    and rows: "rows = sort_key row_key (map (\<lambda>i. \<lparr>fr_symbol = the (texts ! 0 ! i), fr_side = the (texts ! 1 ! i),
           fr_schedule = the (texts ! 2 ! i), fr_date = the (texts ! 3 ! i), fr_time = times ! i, fr_size = sizes ! i, fr_target = targets ! i,
           fr_crossed = flags ! 0 ! i, fr_exhausted = flags ! 1 ! i, fr_deep = flags ! 2 ! i\<rparr>) [0..<nrows f])"
    and good: "\<not> list_ex (\<lambda>r. \<not> excluded r \<and> (\<not> is_fin (fr_size r) \<or> \<not> is_fin (fr_target r) \<or> fle (fr_size r) (Fin 0)))
         (map (\<lambda>i. \<lparr>fr_symbol = the (texts ! 0 ! i), fr_side = the (texts ! 1 ! i),
           fr_schedule = the (texts ! 2 ! i), fr_date = the (texts ! 3 ! i), fr_time = times ! i, fr_size = sizes ! i, fr_target = targets ! i,
           fr_crossed = flags ! 0 ! i, fr_exhausted = flags ! 1 ! i, fr_deep = flags ! 2 ! i\<rparr>) [0..<nrows f])"
    unfolding validate_rows_def bnd_eq_Inr guard_eq_Inr Let_def sum.inject by blast
  have t: "text_at f ((group_columns @ [''date'']) ! j) i = the (texts ! j ! i)" if "j < 4" "i < nrows f" for i j
  proof -
    have len: "length (group_columns @ [''date'']) = 4" by (simp add: group_columns_def)
    have g: "get_texts f ((group_columns @ [''date'']) ! j) = Inr (texts ! j)"
      using map_res_nth [OF texts, of j] that len by simp
    moreover have "get_col f ((group_columns @ [''date'']) ! j) = Inr (keys ! j)" "keys ! j \<in> set keys"
      using map_res_nth [OF keys(1), of j] map_res_length [OF keys(1)] that len by simp_all
    ultimately have "\<not> col_null (SCol (texts ! j))" using keys(2) by (fastforce simp: get_texts_Inr get_col_Inr list_ex_iff)
    then have "None \<notin> set (texts ! j)" by simp
    moreover have "i < length (texts ! j)" using frame_ok_len [OF assms(2)] g that(2) by (fastforce simp: res_simps)
    ultimately show ?thesis by (rule text_at_texts [OF g])
  qed
  have b: "bool_at f (flag_columns ! j) i = flags ! j ! i" if "j < 3" for i j
    using map_res_nth [OF flags, of j] that by (simp add: flag_columns_def bool_at_flag)
  have at: "row_at f i = \<lparr>fr_symbol = the (texts ! 0 ! i), fr_side = the (texts ! 1 ! i), fr_schedule = the (texts ! 2 ! i),
      fr_date = the (texts ! 3 ! i), fr_time = times ! i, fr_size = sizes ! i, fr_target = targets ! i,
      fr_crossed = flags ! 0 ! i, fr_exhausted = flags ! 1 ! i, fr_deep = flags ! 2 ! i\<rparr>" if "i < nrows f" for i
    using t [of 0 i] t [of 1 i] t [of 2 i] t [of 3 i] b [of 0] b [of 1] b [of 2] that
    by (simp add: row_at_def group_columns_def flag_columns_def int_at_ints [OF times] num_at_nums [OF nums(1)] num_at_nums [OF nums(2)])
  show r: "rows = sort_key row_key (frame_rows f)" unfolding rows frame_rows_def using at by (intro arg_cong [where f = "sort_key row_key"] map_cong) auto
  have "row_ok (row_at f i)" if "i < nrows f" for i
  proof -
    have "the (texts ! 1 ! i) \<in> {''buy'', ''sell''}" "the (texts ! 2 ! i) \<in> {''static'', ''sliced''}"
      "Some (day_of_ms (times ! i)) = iso_date (the (texts ! 3 ! i))"
      using guards that by (auto simp: list_ex_iff)
    moreover have "excluded (row_at f i) \<or> is_fin (fr_size (row_at f i)) \<and> is_fin (fr_target (row_at f i)) \<and> \<not> fle (fr_size (row_at f i)) (Fin 0)"
      using good that at [OF that] unfolding list_ex_iff by auto
    moreover have "is_fin x \<Longrightarrow> \<not> fle x (Fin 0) \<Longrightarrow> flt (Fin 0) x" for x by (cases x) auto
    ultimately show ?thesis by (auto simp: row_ok_def at [OF that])
  qed
  then show "\<forall>r \<in> set rows. row_ok r" by (auto simp: r frame_rows_def)
qed

section \<open>Admitted rows of a fold\<close>

lemma row_at_pick:
  assumes "frame_ok f" and "set is \<subseteq> {..<nrows f}" and "j < length is"
  shows "row_at (pick_rows is f) j = row_at f (is ! j)"
proof -
  have lt: "is ! j < nrows f" using assms(2,3) by (meson lessThan_iff nth_mem subsetD)
  have "num_at (pick_rows is f) k j = num_at f k (is ! j)" for k
  proof (cases "map_of (columns f) k")
    case (Some c)
    then show ?thesis using frame_ok_len [OF assms(1) Some] lt assms(3)
      by (cases c) (simp_all add: num_at_def pick_rows_col)
  qed (simp add: num_at_def pick_rows_col)
  moreover have "text_at (pick_rows is f) k j = text_at f k (is ! j)" "int_at (pick_rows is f) k j = int_at f k (is ! j)"
    "bool_at (pick_rows is f) k j = bool_at f k (is ! j)" for k
    using assms(3) by (auto simp: text_at_def int_at_def bool_at_def pick_rows_col split: option.splits column.splits)
  ultimately show ?thesis by (simp add: row_at_def)
qed

lemma frame_rows_keep:
  assumes "frame_ok f"
  shows "frame_rows (keep_rows p f) = map (row_at f) (filter p [0..<nrows f])"
proof (rule nth_equalityI)
  let ?is = "filter p [0..<nrows f]"
  show "length (frame_rows (keep_rows p f)) = length (map (row_at f) ?is)"
    by (simp add: frame_rows_def keep_rows_def pick_rows_def)
  fix j assume "j < length (frame_rows (keep_rows p f))"
  then have j: "j < length ?is" by (simp add: frame_rows_def keep_rows_def pick_rows_def)
  have "set ?is \<subseteq> {..<nrows f}" by auto
  from row_at_pick [OF assms this j] show "frame_rows (keep_rows p f) ! j = map (row_at f) ?is ! j"
    using j by (simp add: frame_rows_def keep_rows_def pick_rows_def)
qed

lemma fold_rows:
  assumes "frame_ok f" and "in_fold start stop f = Inr g" and "start \<noteq> []"
  shows "frame_rows g = filter (\<lambda>r. start \<le> fr_date r \<and> fr_date r < stop) (frame_rows f)" "frame_ok g"
proof -
  obtain days where days: "get_texts f ''date'' = Inr days"
    and g: "g = keep_rows (\<lambda>i. case days ! i of Some d \<Rightarrow> start \<le> d \<and> d < stop | None \<Rightarrow> False) f"
    using assms(2) by (auto simp: in_fold_def res_simps)
  have "fr_date (row_at f i) = (case days ! i of Some d \<Rightarrow> d | None \<Rightarrow> [])" for i
    using days by (simp add: row_at_def text_at_def res_simps)
  then have "(case days ! i of Some d \<Rightarrow> start \<le> d \<and> d < stop | None \<Rightarrow> False) \<longleftrightarrow> start \<le> fr_date (row_at f i) \<and> fr_date (row_at f i) < stop" for i
    using assms(3) by (auto split: option.splits)
  then show "frame_rows g = filter (\<lambda>r. start \<le> fr_date r \<and> fr_date r < stop) (frame_rows f)"
    unfolding g frame_rows_keep [OF assms(1)] by (simp add: frame_rows_def filter_map comp_def)
  show "frame_ok g" by (simp add: g keep_rows_ok assms(1))
qed

lemma window_rows:
  assumes "frame_ok f" and "bnd (in_fold start stop f) validate_rows = Inr window" and "start \<noteq> []"
  shows "window = sort_key row_key (filter (\<lambda>r. start \<le> fr_date r \<and> fr_date r < stop) (frame_rows f))"
    and "\<forall>r \<in> set window. row_ok r"
proof -
  obtain g where g: "in_fold start stop f = Inr g" "validate_rows g = Inr window" using assms(2) by (auto simp: res_simps)
  note fr = fold_rows [OF assms(1) g(1) assms(3)]
  from validate_rows_Inr [OF g(2) fr(2)]
  show "window = sort_key row_key (filter (\<lambda>r. start \<le> fr_date r \<and> fr_date r < stop) (frame_rows f))" "\<forall>r \<in> set window. row_ok r"
    by (simp_all add: fr(1))
qed

text \<open>Appended rows follow the rows that were there.\<close>

lemma map_of_append:
  assumes "map fst xs = map fst ys"
  shows "map_of (map2 (\<lambda>(k, c) (_, c'). (k, col_append c c')) xs ys) k =
    (case (map_of xs k, map_of ys k) of (Some c, Some c') \<Rightarrow> Some (col_append c c') | _ \<Rightarrow> None)"
proof -
  have "length xs = length ys" using assms by (metis length_map)
  then show ?thesis using assms by (induction xs ys rule: list_induct2) (auto split: prod.split)
qed

lemma cells_append:
  assumes "map_of (columns f) k = Some c" "map_of (columns g) k = Some c'" "map_of (columns h) k = Some (col_append c c')"
    and "col_len c = n" "col_len c' = m" "col_len (col_append c c') = n + m" "i < n + m"
  shows "text_at h k i = (if i < n then text_at f k i else text_at g k (i - n))"
    "int_at h k i = (if i < n then int_at f k i else int_at g k (i - n))"
    "num_at h k i = (if i < n then num_at f k i else num_at g k (i - n))"
    "bool_at h k i = (if i < n then bool_at f k i else bool_at g k (i - n))"
  using assms by (cases c; cases c'; auto simp: text_at_def int_at_def num_at_def bool_at_def nth_append)+

lemma row_at_append:
  assumes ok: "frame_ok f" "frame_ok g" "frame_ok (frame_append f g)" and names: "col_names f = col_names g"
    and i: "i < nrows f + nrows g"
  shows "row_at (frame_append f g) i = (if i < nrows f then row_at f i else row_at g (i - nrows f))"
proof -
  note names' = names [unfolded col_names_def]
  define h where "h = frame_append f g"
  have col: "map_of (columns h) k = (case (map_of (columns f) k, map_of (columns g) k) of (Some c, Some c') \<Rightarrow> Some (col_append c c') | _ \<Rightarrow> None)" for k
    by (simp add: h_def frame_append_def map_of_append [OF names'])
  have same: "map_of (columns f) k = None \<longleftrightarrow> map_of (columns g) k = None" for k
    using names' by (metis list.set_map map_of_eq_None_iff)
  have "text_at h k i = (if i < nrows f then text_at f k i else text_at g k (i - nrows f))
    \<and> int_at h k i = (if i < nrows f then int_at f k i else int_at g k (i - nrows f))
    \<and> num_at h k i = (if i < nrows f then num_at f k i else num_at g k (i - nrows f))
    \<and> bool_at h k i = (if i < nrows f then bool_at f k i else bool_at g k (i - nrows f))" for k
  proof (cases "map_of (columns f) k")
    case (Some c)
    then obtain c' where c': "map_of (columns g) k = Some c'" using same [of k] by auto
    have h: "map_of (columns h) k = Some (col_append c c')" using Some c' by (simp add: col)
    have len: "col_len (col_append c c') = nrows f + nrows g"
      using frame_ok_len [OF ok(3) [folded h_def] h] by (simp add: h_def frame_append_def)
    show ?thesis
      using cells_append [OF Some c' h frame_ok_len [OF ok(1) Some] frame_ok_len [OF ok(2) c'] len i] by blast
  next
    case None
    then show ?thesis using same [of k] by (simp add: col text_at_def int_at_def num_at_def bool_at_def)
  qed
  then show ?thesis by (simp add: row_at_def flip: h_def)
qed

lemma frame_rows_append:
  assumes "frame_ok f" "frame_ok g" "frame_ok (frame_append f g)" "col_names f = col_names g"
  shows "frame_rows (frame_append f g) = frame_rows f @ frame_rows g"
proof (rule nth_equalityI)
  have n: "nrows (frame_append f g) = nrows f + nrows g" by (simp add: frame_append_def)
  then show "length (frame_rows (frame_append f g)) = length (frame_rows f @ frame_rows g)" by (simp add: frame_rows_def)
  fix i assume "i < length (frame_rows (frame_append f g))"
  then have "i < nrows f + nrows g" by (simp add: frame_rows_def n)
  from row_at_append [OF assms this] this
  show "frame_rows (frame_append f g) ! i = (frame_rows f @ frame_rows g) ! i" by (simp add: frame_rows_def n nth_append)
qed

section \<open>Evaluated records\<close>

definition is_evaluated :: "json \<Rightarrow> bool" where
  "is_evaluated v \<longleftrightarrow> (\<exists>d. v = JDict d \<and> map_of d ''status'' = Some (JStr ''evaluated''))"

definition good_rows :: "string \<times> string \<times> string \<Rightarrow> bool \<Rightarrow> fill_row list \<Rightarrow> fill_row list" where
  "good_rows g deep rows = filter (\<lambda>r. group_key r = g \<and> \<not> excluded r \<and> fr_deep r = deep) rows"

text \<open>An evaluated record of a stratum: its rows, its law, and the fields it consists of.\<close>

definition evaluated_as ::
  "kernels \<Rightarrow> fit_config \<Rightarrow> string \<Rightarrow> fill_row list \<Rightarrow> json \<Rightarrow> string \<times> string \<times> string \<Rightarrow> bool \<Rightarrow> string \<Rightarrow> fill_row list
    \<Rightarrow> string \<Rightarrow> fitted_law \<Rightarrow> bool" where
  "evaluated_as K cfg cutoff rows v g deep regime rs form l \<longleftrightarrow>
     (let good = good_rows g deep rows; edges = bin_edges K cfg (filter (trains cutoff) good);
          tr = filter (trains cutoff) rs; te = filter (\<lambda>r. \<not> trains cutoff r) rs in
      (regime, rs) \<in> set (regimes cfg edges good) \<and> form \<in> set fit_forms \<and> tr \<noteq> [] \<and> te \<noteq> []
      \<and> g \<in> group_key ` set rows
      \<and> (\<exists>predictions scores more. attempt K cutoff rs form = Inr (l, predictions, scores)
          \<and> evaluated_fields K cutoff rs form l scores = Inr more
          \<and> v = JDict (base_fields g (depth_name deep) regime edges tr te @ [(''form'', JStr form)] @ more)))"

lemma identity_keys [simp]:
  "map_of (identity_fields g) k = (case g of (a, b, c) \<Rightarrow>
     if k = ''symbol'' then Some (JStr a) else if k = ''side'' then Some (JStr b) else if k = ''schedule'' then Some (JStr c) else None)"
  by (cases g) (simp add: identity_fields_def group_columns_def)

lemma base_status [simp]: "map_of (base_fields g depth regime edges tr te) ''status'' = None"
  by (simp add: base_fields_def map_add_def split: prod.splits)

lemma fit_form_evaluated:
  assumes "fit_form K cutoff base depth regime rs form = Inr (v, ds)" and "is_evaluated v" and "map_of base ''status'' = None"
  shows "\<exists>l predictions scores more. attempt K cutoff rs form = Inr (l, predictions, scores)
     \<and> evaluated_fields K cutoff rs form l scores = Inr more \<and> v = JDict (base @ [(''form'', JStr form)] @ more)"
proof (cases "attempt K cutoff rs form")
  case (Inl e)
  then have "v = JDict (base @ [(''form'', JStr form), (''status'', JStr ''unavailable''), (''reason'', JStr (the (impact_reason e)))])"
    using assms(1) by (auto simp: fit_form_def split: option.split_asm)
  then show ?thesis using assms(2,3) by (auto simp: is_evaluated_def map_add_def)
next
  case (Inr a)
  then show ?thesis using assms(1) by (cases a) (auto simp: fit_form_def res_simps)
qed

lemma fit_regime_evaluated:
  assumes "fit_regime K cutoff g depth edges (regime, rs) = Inr xs" and "v \<in> fst ` set xs" and "is_evaluated v"
  shows "filter (trains cutoff) rs \<noteq> [] \<and> filter (\<lambda>r. \<not> trains cutoff r) rs \<noteq> []
    \<and> (\<exists>form \<in> set fit_forms. \<exists>l predictions scores more. attempt K cutoff rs form = Inr (l, predictions, scores)
        \<and> evaluated_fields K cutoff rs form l scores = Inr more
        \<and> v = JDict (base_fields g depth regime edges (filter (trains cutoff) rs) (filter (\<lambda>r. \<not> trains cutoff r) rs) @ [(''form'', JStr form)] @ more))"
proof (cases "filter (trains cutoff) rs = [] \<or> filter (\<lambda>r. \<not> trains cutoff r) rs = []")
  case True
  then have "xs = [(JDict (base_fields g depth regime edges (filter (trains cutoff) rs) (filter (\<lambda>r. \<not> trains cutoff r) rs) @ [insufficient]), [])]"
    using assms(1) by (simp add: fit_regime_def)
  then show ?thesis using assms(2,3) by (auto simp: is_evaluated_def insufficient_def map_add_def)
next
  case False
  then have xs: "map_res (fit_form K cutoff (base_fields g depth regime edges (filter (trains cutoff) rs) (filter (\<lambda>r. \<not> trains cutoff r) rs)) depth regime rs) fit_forms = Inr xs"
    using assms(1) by (simp add: fit_regime_def Let_def)
  from assms(2) obtain ds where "(v, ds) \<in> set xs" by auto
  from map_res_origin [OF xs this] obtain form where form: "form \<in> set fit_forms"
    and run: "fit_form K cutoff (base_fields g depth regime edges (filter (trains cutoff) rs) (filter (\<lambda>r. \<not> trains cutoff r) rs)) depth regime rs form = Inr (v, ds)"
    by blast
  show ?thesis using fit_form_evaluated [OF run assms(3) base_status] form False by blast
qed

lemma fit_depth_evaluated:
  assumes "fit_depth K cfg cutoff g (filter (\<lambda>r. \<not> excluded r) (filter (\<lambda>r. group_key r = g) rows)) deep = Inr xs"
    and "v \<in> fst ` set xs" and "is_evaluated v" and "g \<in> group_key ` set rows"
  shows "\<exists>regime rs form l. evaluated_as K cfg cutoff rows v g deep regime rs form l"
proof -
  let ?rs = "good_rows g deep rows"
  let ?tr = "filter (trains cutoff) ?rs"
  have rs: "filter (\<lambda>r. fr_deep r = deep) (filter (\<lambda>r. \<not> excluded r) (filter (\<lambda>r. group_key r = g) rows)) = ?rs"
    unfolding good_rows_def filter_filter by (rule filter_cong) auto
  show ?thesis
  proof (cases "?tr = [] \<or> filter (\<lambda>r. \<not> trains cutoff r) ?rs = []")
    case True
    then have "xs = [(JDict (identity_fields g @ [(''depth'', JStr (depth_name deep)), insufficient, (''train_rows'', jcount ?tr),
        (''test_rows'', jcount (filter (\<lambda>r. \<not> trains cutoff r) ?rs))]), [])]"
      using assms(1) unfolding fit_depth_def rs Let_def by simp
    then show ?thesis using assms(2,3) by (auto simp: is_evaluated_def insufficient_def map_add_def split: prod.splits)
  next
    case False
    let ?edges = "bin_edges K cfg ?tr"
    obtain xss where xss: "map_res (fit_regime K cutoff g (depth_name deep) ?edges) (regimes cfg ?edges ?rs) = Inr xss" and "xs = concat xss"
      using assms(1) False unfolding fit_depth_def rs Let_def by (auto simp: res_simps)
    then obtain ys where "ys \<in> set xss" "v \<in> fst ` set ys" using assms(2) by auto
    then obtain regime rs where r: "(regime, rs) \<in> set (regimes cfg ?edges ?rs)"
      and run: "fit_regime K cutoff g (depth_name deep) ?edges (regime, rs) = Inr ys"
      using map_res_origin [OF xss] by (metis surj_pair)
    show ?thesis
      using fit_regime_evaluated [OF run \<open>v \<in> fst ` set ys\<close> assms(3)] r assms(4) unfolding evaluated_as_def Let_def by blast
  qed
qed

lemma fit_group_evaluated:
  assumes "fit_group K cfg cutoff rows g = Inr (j, xs)" and "v \<in> fst ` set xs" and "is_evaluated v" and "g \<in> group_key ` set rows"
  shows "\<exists>deep regime rs form l. evaluated_as K cfg cutoff rows v g deep regime rs form l"
proof -
  let ?good = "filter (\<lambda>r. \<not> excluded r) (filter (\<lambda>r. group_key r = g) rows)"
  have "xs \<noteq> []" using assms(2) by auto
  then obtain xss where xss: "map_res (fit_depth K cfg cutoff g ?good) [False, True] = Inr xss" and "xs = concat xss"
    using assms(1) unfolding fit_group_def Let_def by (auto simp: res_simps split: if_splits)
  then obtain ys where ys: "ys \<in> set xss" "v \<in> fst ` set ys" using assms(2) by auto
  from map_res_origin [OF xss ys(1)] obtain deep where "fit_depth K cfg cutoff g ?good deep = Inr ys" by blast
  from fit_depth_evaluated [OF this ys(2) assms(3,4)] show ?thesis by blast
qed

definition report_fits :: "fit_report \<Rightarrow> json list" where
  "report_fits rep = (case map_of (fp_summary rep) ''fits'' of Some (JList vs) \<Rightarrow> vs | _ \<Rightarrow> [])"

lemma report_fits_summary [simp]:
  "report_fits \<lparr>fp_summary = summary_fields cfg start cutoff stop n window groups fits, fp_diagnostics = d\<rparr> = fits"
  by (simp add: report_fits_def summary_fields_def)

lemma fit_parts:
  assumes "fit_impact K f train_end test_end cfg = Inr rep"
  obtains cutday stop window gs where "as_of_day train_end = Inr cutday" "as_of_day test_end = Inr stop" "cutday < stop"
    "bnd (in_fold (iso_text (cutday - fc_train_days cfg)) (iso_text stop) f) validate_rows = Inr window"
    "map_res (fit_group K cfg (iso_text cutday) window) (sort (remdups (map group_key window))) = Inr gs"
    "list_ex (is_primary_record \<circ> fst) (concat (map snd gs))"
    "rep = \<lparr>fp_summary = summary_fields cfg (iso_text (cutday - fc_train_days cfg)) (iso_text cutday) (iso_text stop) (nrows f) window
         (map fst gs) (map fst (concat (map snd gs))), fp_diagnostics = row_groups (concat (map snd (concat (map snd gs))))\<rparr>"
  using assms unfolding fit_impact_def bnd_eq_Inr [where m = "as_of_day _"] Let_def guard_eq_Inr by (auto simp: res_simps)

lemma fit_evaluated:
  assumes "fit_impact K f train_end test_end cfg = Inr rep" and "as_of_day train_end = Inr cutday" "as_of_day test_end = Inr stop"
    and "v \<in> set (report_fits rep)" and "is_evaluated v"
  obtains window g deep regime rs form l where
    "bnd (in_fold (iso_text (cutday - fc_train_days cfg)) (iso_text stop) f) validate_rows = Inr window"
    "evaluated_as K cfg (iso_text cutday) window v g deep regime rs form l"
proof -
  obtain window gs where w: "bnd (in_fold (iso_text (cutday - fc_train_days cfg)) (iso_text stop) f) validate_rows = Inr window"
    and gs: "map_res (fit_group K cfg (iso_text cutday) window) (sort (remdups (map group_key window))) = Inr gs"
    and fits: "report_fits rep = map fst (concat (map snd gs))"
    using fit_parts [OF assms(1)] assms(2,3) by (metis report_fits_summary sum.inject(2))
  from assms(4) fits obtain p where p: "p \<in> set gs" "v \<in> fst ` set (snd p)" by auto
  obtain g where "g \<in> set (sort (remdups (map group_key window)))" and run: "fit_group K cfg (iso_text cutday) window g = Inr p"
    using map_res_origin [OF gs p(1)] by blast
  then have g: "g \<in> group_key ` set window" by simp
  from run have "fit_group K cfg (iso_text cutday) window g = Inr (fst p, snd p)" by simp
  from fit_group_evaluated [OF this p(2) assms(5) g(1)] that w show thesis by blast
qed

section \<open>The past of a fold\<close>

definition past_rows :: "fit_config \<Rightarrow> int \<Rightarrow> frame \<Rightarrow> fill_row list" where
  "past_rows cfg cutday f =
     sort_key row_key (filter (\<lambda>r. iso_text (cutday - fc_train_days cfg) \<le> fr_date r \<and> fr_date r < iso_text cutday) (frame_rows f))"

text \<open>The law of a stratum, as a function of the training rows alone.\<close>

definition stratum_law ::
  "kernels \<Rightarrow> fit_config \<Rightarrow> fill_row list \<Rightarrow> string \<times> string \<times> string \<Rightarrow> bool \<Rightarrow> string \<Rightarrow> string \<Rightarrow> fitted_law res" where
  "stratum_law K cfg past g deep regime form =
     (let good = good_rows g deep past in
      case map_of (regimes cfg (bin_edges K cfg good) good) regime of
        Some rs \<Rightarrow> fit_law K (map fr_size rs) (map fr_target rs) form
      | None \<Rightarrow> Inl (KeyError regime))"

fun json_field :: "json \<Rightarrow> string \<Rightarrow> json option" where
  "json_field (JDict d) k = map_of d k"
| "json_field _ k = None"

definition record_key :: "json \<Rightarrow> json option list" where
  "record_key v = map (json_field v) [''symbol'', ''side'', ''schedule'', ''depth'', ''size_regime'', ''form'']"

definition stratum_key :: "string \<times> string \<times> string \<Rightarrow> bool \<Rightarrow> string \<Rightarrow> string \<Rightarrow> json option list" where
  "stratum_key g deep regime form = (case g of (a, b, c) \<Rightarrow> map (Some \<circ> JStr) [a, b, c, depth_name deep, regime, form])"

lemma regimes_filter: "regimes cfg edges (filter P rs) = map (\<lambda>(k, xs). (k, filter P xs)) (regimes cfg edges rs)"
  by (simp add: regimes_def conj_commute)

lemma regimes_distinct: "distinct (map fst (regimes cfg edges rs))"
  by (auto simp: regimes_def distinct_map inj_on_def nat_text_inj comp_def)

lemma good_rows_filter: "filter P (good_rows g deep rows) = good_rows g deep (filter P rows)"
  unfolding good_rows_def filter_filter by (rule filter_cong) auto

lemma past_of_window:
  assumes "window = sort_key row_key (filter (\<lambda>r. start \<le> fr_date r \<and> fr_date r < stop) (frame_rows f))" and "cutoff \<le> stop"
  shows "filter (trains cutoff) window = sort_key row_key (filter (\<lambda>r. start \<le> fr_date r \<and> fr_date r < cutoff) (frame_rows f))"
proof -
  have "filter (trains cutoff) (filter (\<lambda>r. start \<le> fr_date r \<and> fr_date r < stop) (frame_rows f))
      = filter (\<lambda>r. start \<le> fr_date r \<and> fr_date r < cutoff) (frame_rows f)"
    unfolding filter_filter by (rule filter_cong) (use assms(2) in \<open>auto simp: trains_def\<close>)
  then show ?thesis by (simp add: assms(1) filter_sort)
qed

lemma evaluated_law:
  assumes "evaluated_as K cfg cutoff window v g deep regime rs form l"
  shows "stratum_law K cfg (filter (trains cutoff) window) g deep regime form = Inr l"
proof -
  let ?good = "good_rows g deep (filter (trains cutoff) window)"
  let ?edges = "bin_edges K cfg ?good"
  have r: "(regime, rs) \<in> set (regimes cfg ?edges (good_rows g deep window))"
    and a: "\<exists>predictions scores. attempt K cutoff rs form = Inr (l, predictions, scores)"
    using assms unfolding evaluated_as_def Let_def good_rows_filter by blast+
  have "(regime, filter (trains cutoff) rs) \<in> set (regimes cfg ?edges ?good)"
    using imageI [OF r, of "\<lambda>(k, xs). (k, filter (trains cutoff) xs)"]
    unfolding good_rows_filter [symmetric] regimes_filter set_map by simp
  then have "map_of (regimes cfg ?edges ?good) regime = Some (filter (trains cutoff) rs)"
    using regimes_distinct by (simp add: map_of_eq_Some_iff)
  moreover have "fit_law K (map fr_size (filter (trains cutoff) rs)) (map fr_target (filter (trains cutoff) rs)) form = Inr l"
    using a by (auto simp: attempt_def Let_def res_simps)
  ultimately show ?thesis by (simp add: stratum_law_def)
qed

lemma evaluated_fields_of:
  assumes "evaluated_as K cfg cutoff window v g deep regime rs form l"
  shows "record_key v = stratum_key g deep regime form" "json_field v ''model'' = Some (JDict (law_fields l))"
    "json_field v ''size_bin_edges_adv_fraction'' = Some (JList (map JNum (bin_edges K cfg (good_rows g deep (filter (trains cutoff) window)))))"
    "json_field v ''train_days'' = Some (jtexts (row_days (filter (trains cutoff) rs)))"
    "json_field v ''test_days'' = Some (jtexts (row_days (filter (\<lambda>r. \<not> trains cutoff r) rs)))"
proof -
  obtain scores more where m: "evaluated_fields K cutoff rs form l scores = Inr more"
    and v: "v = JDict (base_fields g (depth_name deep) regime (bin_edges K cfg (good_rows g deep (filter (trains cutoff) window)))
      (filter (trains cutoff) rs) (filter (\<lambda>r. \<not> trains cutoff r) rs) @ [(''form'', JStr form)] @ more)"
    using assms unfolding evaluated_as_def Let_def good_rows_filter by blast
  obtain days where more: "map_of more ''model'' = Some (JDict (law_fields l))"
    using m by (auto simp: evaluated_fields_def Let_def res_simps)
  obtain a b c where g: "g = (a, b, c)" by (metis prod_cases3)
  show "record_key v = stratum_key g deep regime form" "json_field v ''model'' = Some (JDict (law_fields l))"
    "json_field v ''size_bin_edges_adv_fraction'' = Some (JList (map JNum (bin_edges K cfg (good_rows g deep (filter (trains cutoff) window)))))"
    "json_field v ''train_days'' = Some (jtexts (row_days (filter (trains cutoff) rs)))"
    "json_field v ''test_days'' = Some (jtexts (row_days (filter (\<lambda>r. \<not> trains cutoff r) rs)))"
    using more by (simp_all add: v g record_key_def stratum_key_def base_fields_def map_add_def)
qed

lemma regime_rows: "(regime, rs) \<in> set (regimes cfg edges good) \<Longrightarrow> set rs \<subseteq> set good"
  by (auto simp: regimes_def split: if_splits)

lemma evaluated_past:
  assumes "fit_impact K f train_end test_end cfg = Inr rep" and "as_of_day train_end = Inr cutday" "as_of_day test_end = Inr stop"
    and "frame_ok f" and "0 \<le> fc_train_days cfg" "fc_train_days cfg < cutday" "stop \<le> 3652059"
    and "v \<in> set (report_fits rep)" and "is_evaluated v"
  obtains window g deep regime rs form l where "evaluated_as K cfg (iso_text cutday) window v g deep regime rs form l"
    "filter (trains (iso_text cutday)) window = past_rows cfg cutday f"
    "\<forall>r \<in> set window. iso_text (cutday - fc_train_days cfg) \<le> fr_date r \<and> fr_date r < iso_text stop"
proof -
  obtain window g deep regime rs form l where
      w: "bnd (in_fold (iso_text (cutday - fc_train_days cfg)) (iso_text stop) f) validate_rows = Inr window"
    and e: "evaluated_as K cfg (iso_text cutday) window v g deep regime rs form l"
    using fit_evaluated [OF assms(1-3,8,9)] .
  have "cutday < stop" using fit_parts [OF assms(1)] assms(2,3) by (metis sum.inject(2))
  then have lt: "iso_text cutday \<le> iso_text stop" using assms(5-7) iso_text_le [of cutday stop] by simp
  have ne: "iso_text n \<noteq> []" for n by (simp add: iso_text_def split: prod.split)
  note rows = window_rows(1) [OF assms(4) w ne]
  show thesis
  proof (rule that [OF e])
    show "filter (trains (iso_text cutday)) window = past_rows cfg cutday f"
      unfolding past_rows_def by (rule past_of_window [OF rows lt])
    show "\<forall>r \<in> set window. iso_text (cutday - fc_train_days cfg) \<le> fr_date r \<and> fr_date r < iso_text stop"
      using rows by auto
  qed
qed

text \<open>C31: Every evaluated law of a fit report is the fit of exactly the eligible rows of its stratum dated inside the training window, with size bins cut at quantiles of those rows; its listed training days lie in the window before the cutoff and its test days between the cutoff and the end of the fold.\<close>

theorem fitted_laws_read_only_the_past:
  assumes "fit_impact K f train_end test_end cfg = Inr rep" and "as_of_day train_end = Inr cutday" "as_of_day test_end = Inr stop"
    and "frame_ok f" and "0 \<le> fc_train_days cfg" "fc_train_days cfg < cutday" "stop \<le> 3652059"
    and "v \<in> set (report_fits rep)" and "is_evaluated v"
  shows "\<exists>g deep regime form l train_days test_days. record_key v = stratum_key g deep regime form
    \<and> stratum_law K cfg (past_rows cfg cutday f) g deep regime form = Inr l \<and> json_field v ''model'' = Some (JDict (law_fields l))
    \<and> json_field v ''size_bin_edges_adv_fraction'' = Some (JList (map JNum (bin_edges K cfg (good_rows g deep (past_rows cfg cutday f)))))
    \<and> json_field v ''train_days'' = Some (jtexts train_days) \<and> json_field v ''test_days'' = Some (jtexts test_days)
    \<and> (\<forall>d \<in> set train_days. iso_text (cutday - fc_train_days cfg) \<le> d \<and> d < iso_text cutday)
    \<and> (\<forall>d \<in> set test_days. iso_text cutday \<le> d \<and> d < iso_text stop)"
proof -
  obtain window g deep regime rs form l where e: "evaluated_as K cfg (iso_text cutday) window v g deep regime rs form l"
    and past: "filter (trains (iso_text cutday)) window = past_rows cfg cutday f"
    and fold: "\<forall>r \<in> set window. iso_text (cutday - fc_train_days cfg) \<le> fr_date r \<and> fr_date r < iso_text stop"
    using evaluated_past [OF assms] .
  have "set rs \<subseteq> set window"
    using e regime_rows unfolding evaluated_as_def Let_def by (force simp: good_rows_def)
  then have "\<forall>d \<in> set (row_days (filter (trains (iso_text cutday)) rs)). iso_text (cutday - fc_train_days cfg) \<le> d \<and> d < iso_text cutday"
    "\<forall>d \<in> set (row_days (filter (\<lambda>r. \<not> trains (iso_text cutday) r) rs)). iso_text cutday \<le> d \<and> d < iso_text stop"
    using fold by (auto simp: row_days_def trains_def not_less)
  then show ?thesis using evaluated_law [OF e] evaluated_fields_of [OF e] unfolding past by blast
qed

text \<open>C32: Appending rows dated at or after the training cutoff, and moving the end of the test period, changes no fitted law: the same stratum evaluated in both reports has the same law and the same size bins.\<close>

theorem later_days_move_no_law:
  assumes "fit_impact K f train_end test_end cfg = Inr rep" and "fit_impact K (frame_append f later) train_end test_end' cfg = Inr rep'"
    and "as_of_day train_end = Inr cutday" "as_of_day test_end = Inr stop" "as_of_day test_end' = Inr stop'"
    and "frame_ok f" "frame_ok later" "frame_ok (frame_append f later)" "col_names f = col_names later"
    and "\<forall>r \<in> set (frame_rows later). iso_text cutday \<le> fr_date r"
    and "0 \<le> fc_train_days cfg" "fc_train_days cfg < cutday" "stop \<le> 3652059" "stop' \<le> 3652059"
    and "v \<in> set (report_fits rep)" "is_evaluated v" and "v' \<in> set (report_fits rep')" "is_evaluated v'"
    and "record_key v = record_key v'"
  shows "json_field v ''model'' = json_field v' ''model''
    \<and> json_field v ''size_bin_edges_adv_fraction'' = json_field v' ''size_bin_edges_adv_fraction''"
proof -
  have past: "past_rows cfg cutday (frame_append f later) = past_rows cfg cutday f"
    using assms(10) by (simp add: past_rows_def frame_rows_append [OF assms(6-9)]) (simp add: filter_False leD)
  obtain window g deep regime rs form l where e: "evaluated_as K cfg (iso_text cutday) window v g deep regime rs form l"
    and w: "filter (trains (iso_text cutday)) window = past_rows cfg cutday f"
    using evaluated_past [OF assms(1,3,4,6,11,12,13,15,16)] .
  obtain window' g' deep' regime' rs' form' l' where e': "evaluated_as K cfg (iso_text cutday) window' v' g' deep' regime' rs' form' l'"
    and w': "filter (trains (iso_text cutday)) window' = past_rows cfg cutday f"
    using evaluated_past [OF assms(2,3,5,8,11,12,14,17,18)] unfolding past .
  note 1 = evaluated_fields_of [OF e, unfolded w] evaluated_law [OF e, unfolded w]
  note 2 = evaluated_fields_of [OF e', unfolded w'] evaluated_law [OF e', unfolded w']
  have "g = g' \<and> deep = deep' \<and> regime = regime' \<and> form = form'"
    using assms(19) unfolding 1(1) 2(1) by (auto simp: stratum_key_def depth_name_def inside_depth_def beyond_depth_def split: prod.splits if_splits)
  then show ?thesis using 1 2 by simp
qed

section \<open>Example\<close>

text \<open>Days of one order each, and kernels that are exact at the sizes used.\<close>

definition exact_kernels :: kernels where
  "exact_kernels =
     \<lparr>kn_pow = \<lambda>x _. x, kn_log = \<lambda>x. x, kn_exp = \<lambda>x. x, kn_sqrt = \<lambda>x. x,
      kn_dot = \<lambda>xs ys. foldr fadd (map2 fmul xs ys) (Fin 0), kn_mean = \<lambda>xs. hd xs, kn_std = \<lambda>_. Fin 0,
      kn_quantile = \<lambda>xs qs. map (\<lambda>_. hd xs) qs\<rparr>"

definition order_rows :: "(string \<times> int) list \<Rightarrow> frame" where
  "order_rows days =
     (let n = length days; text = (\<lambda>s. SCol (replicate n (Some s))); flags = BCol (replicate n False) in
      \<lparr>nrows = n,
       columns = [(''symbol'', text ''BTCUSDT''), (''side'', text ''buy''), (''schedule'', text ''static''),
         (''date'', SCol (map (Some \<circ> fst) days)), (''timestamp'', ICol (map snd days)), (''adv_fraction'', FCol (replicate n (Fin 1))),
         (target_column, FCol (replicate n (Fin 2))), (''crossed_at_entry'', flags), (''exhausted_book'', flags), (''beyond_validated_depth'', flags)]\<rparr>)"

definition order_row :: "string \<times> int \<Rightarrow> fill_row" where
  "order_row p = \<lparr>fr_symbol = ''BTCUSDT'', fr_side = ''buy'', fr_schedule = ''static'', fr_date = fst p, fr_time = snd p, fr_size = Fin 1,
     fr_target = Fin 2, fr_crossed = False, fr_exhausted = False, fr_deep = False\<rparr>"

lemma order_rows_ok: "frame_ok (order_rows days)"
  by (simp add: frame_ok_def order_rows_def Let_def target_column_def)

lemma order_rows_append: "frame_append (order_rows a) (order_rows b) = order_rows (a @ b)"
  by (simp add: frame_append_def order_rows_def Let_def replicate_add)

lemma order_rows_names: "col_names (order_rows a) = col_names (order_rows b)"
  by (simp add: col_names_def order_rows_def Let_def)

lemma order_frame_rows: "frame_rows (order_rows days) = map order_row days"
proof (rule nth_equalityI)
  show "length (frame_rows (order_rows days)) = length (map order_row days)" by (simp add: frame_rows_def order_rows_def Let_def)
  fix i assume "i < length (frame_rows (order_rows days))"
  then have "i < length days" by (simp add: frame_rows_def order_rows_def Let_def)
  then show "frame_rows (order_rows days) ! i = map order_row days ! i"
    by (simp add: frame_rows_def row_at_def order_row_def text_at_def int_at_def num_at_def bool_at_def order_rows_def Let_def target_column_def)
qed

definition order_days :: "(string \<times> int) list" where
  "order_days = [(''2026-05-31'', 1780185600000), (''2026-06-01'', 1780272000000), (''2026-06-02'', 1780358400000)]"

lemma order_dates:
  "iso_date ''2026-05-31'' = Some 739767" "iso_date ''2026-06-01'' = Some 739768" "iso_date ''2026-06-02'' = Some 739769"
  "iso_text 739766 = ''2026-05-30''" "iso_text 739770 = ''2026-06-03''"
  by code_simp+

lemma map_nth_all: "length xs = n \<Longrightarrow> map ((!) xs) [0..<n] = xs"
  by (metis map_nth)

text \<open>Rows that pass every check and are in order are admitted as they are.\<close>

lemma order_rows_valid:
  assumes "days \<noteq> []" and "\<forall>p \<in> set days. iso_date (fst p) = Some (day_of_ms (snd p))" and "sorted (map (row_key \<circ> order_row) days)"
  shows "validate_rows (order_rows days) = Inr (map order_row days)"
proof -
  have "map (\<lambda>i. order_row (days ! i)) [0..<length days] = map order_row days"
    using map_nth [of days] by (metis (no_types, lifting) map_map comp_apply map_cong)
  then have rows: "map (\<lambda>i. \<lparr>fr_symbol = ''BTCUSDT'', fr_side = ''buy'', fr_schedule = ''static'', fr_date = fst (days ! i), fr_time = snd (days ! i),
      fr_size = Fin 1, fr_target = Fin 2, fr_crossed = False, fr_exhausted = False, fr_deep = False\<rparr>) [0..<length days] = map order_row days"
    by (simp add: order_row_def)
  have cells: "map (\<lambda>i. \<lparr>fr_symbol = the (replicate n (Some ''BTCUSDT'') ! i), fr_side = the (replicate n (Some ''buy'') ! i),
      fr_schedule = the (replicate n (Some ''static'') ! i), fr_date = the (map (Some \<circ> fst) days ! i), fr_time = map snd days ! i,
      fr_size = replicate n (Fin 1) ! i, fr_target = replicate n (Fin 2) ! i, fr_crossed = replicate n False ! i,
      fr_exhausted = replicate n False ! i, fr_deep = replicate n False ! i\<rparr>) [0..<n] = map order_row days" if "n = length days" for n
    unfolding rows [symmetric] that by (rule map_cong) auto
  have srt: "sort_key row_key (map order_row days) = map order_row days" using assms(3) by (simp add: sort_key_id_if_sorted)
  show ?thesis
    using assms(1,2) srt
    by (simp add: validate_rows_def order_rows_def Let_def get_texts_def get_ints_def get_nums_def get_col_def flag_col_def frame_empty_def
        col_names_def required_columns_def group_columns_def flag_columns_def target_column_def list_ex_iff cells eval_nat_numeral image_iff order_row_def excluded_def)
qed

lemma order_rows_fold:
  assumes "\<forall>p \<in> set days. start \<le> fst p \<and> fst p < stop"
  shows "in_fold start stop (order_rows days) = Inr (order_rows days)"
proof -
  have "keep_rows (\<lambda>i. case map (Some \<circ> fst) days ! i of Some d \<Rightarrow> start \<le> d \<and> d < stop | None \<Rightarrow> False) (order_rows days)
      = pick_rows [0..<length days] (order_rows days)"
    unfolding keep_rows_def using assms by (intro arg_cong2 [where f = pick_rows] filter_True) (auto simp: order_rows_def Let_def)
  also have "\<dots> = order_rows days"
    by (simp add: pick_rows_def order_rows_def Let_def map_nth_all)
  finally show ?thesis by (simp add: in_fold_def get_texts_def get_col_def order_rows_def Let_def)
qed

text \<open>The fit of such days, at exact kernels.\<close>

definition doubled :: "string \<Rightarrow> pynum \<Rightarrow> fitted_law" where
  "doubled form e = \<lparr>lw_form = form, lw_coefficient = Fin 2, lw_exponent = e\<rparr>"

lemma exact_floats: "fl 1 = Fin 1" "fl 2 = Fin 2"
  by (simp_all add: short_float)

lemma order_laws:
  "fit_law exact_kernels [Fin 1] [Fin 2] ''square_root'' = Inr (doubled ''square_root'' (Fin (1 / 2)))"
  "fit_law exact_kernels [Fin 1] [Fin 2] ''linear'' = Inr (doubled ''linear'' (Fin 1))"
  "fit_law exact_kernels [Fin 1] [Fin 2] ''power_diagnostic'' = Inl (ImpactModelError ''power diagnostic needs two positive targets at distinct sizes'')"
  by (simp_all add: fit_law_def scale_law_def power_law_def exact_kernels_def doubled_def exact_floats ndiv_def)

lemma order_predictions: "predict_law exact_kernels (doubled form e) (replicate n (Fin 1)) = Inr (replicate n (Fin 2))"
  by (simp add: predict_law_def doubled_def exact_kernels_def exact_floats sizes_bad_def list_all_iff list_ex_iff)

lemma order_scores:
  assumes "0 < n"
  obtains m where "fit_metrics exact_kernels (replicate n (Fin 2)) (replicate n (Fin 2)) = Inr m"
proof -
  have zeros: "map2 fsub (replicate n (Fin 2)) (replicate n (Fin 2)) = replicate n (Fin 0)" by (simp add: zip_replicate fsub_def)
  have dot: "kn_dot exact_kernels (replicate n (Fin 0)) (replicate n (Fin 0)) = Fin 0" for n
    by (induction n) (simp_all add: exact_kernels_def zip_replicate)
  have "kn_mean exact_kernels (replicate n x) = x" for x using assms by (cases n) (simp_all add: exact_kernels_def)
  then have "\<exists>m. fit_metrics exact_kernels (replicate n (Fin 2)) (replicate n (Fin 2)) = Inr m"
    using assms by (simp add: fit_metrics_def zeros dot Let_def fsub_def fabs_def) (simp add: exact_kernels_def)
  then show thesis using that by blast
qed

definition order_group :: "string \<times> string \<times> string" where "order_group = (''BTCUSDT'', ''buy'', ''static'')"

lemma order_row_sel [simp]:
  "fr_size (order_row p) = Fin 1" "fr_target (order_row p) = Fin 2" "fr_date (order_row p) = fst p" "fr_deep (order_row p) = False"
  "group_key (order_row p) = order_group" "excluded (order_row p) = False" "trains c (order_row p) \<longleftrightarrow> fst p < c"
  by (simp_all add: order_row_def group_key_def order_group_def excluded_def trains_def)

definition fold_days :: "string \<Rightarrow> string \<times> int \<Rightarrow> (string \<times> int) list \<Rightarrow> bool" where
  "fold_days c p ts \<longleftrightarrow> fst p < c \<and> ts \<noteq> [] \<and> (\<forall>t \<in> set ts. c \<le> fst t)"

lemma order_split:
  assumes "fold_days c p ts"
  shows "filter (trains c) (map order_row (p # ts)) = [order_row p]"
    "filter (\<lambda>r. \<not> trains c r) (map order_row (p # ts)) = map order_row ts"
  using assms by (auto simp: fold_days_def filter_empty_conv not_less intro!: filter_True)

lemma order_nums: "map fr_size (map order_row xs) = replicate (length xs) (Fin 1)" "map fr_target (map order_row xs) = replicate (length xs) (Fin 2)"
  by (simp_all add: comp_def map_replicate_const)

lemma order_attempt:
  assumes "fold_days c p ts" and "(form, e) \<in> {(''square_root'', Fin (1 / 2)), (''linear'', Fin 1)}"
  obtains scores where "attempt exact_kernels c (map order_row (p # ts)) form = Inr (doubled form e, replicate (Suc (length ts)) (Fin 2), scores)"
proof -
  have n: "0 < length ts" using assms(1) by (simp add: fold_days_def)
  obtain m1 m2 where m: "fit_metrics exact_kernels [Fin 2] [Fin 2] = Inr m1" "fit_metrics exact_kernels (replicate (length ts) (Fin 2)) (replicate (length ts) (Fin 2)) = Inr m2"
    using order_scores [of 1] order_scores [OF n] by (metis One_nat_def replicate_0 replicate_Suc zero_less_one)
  have l: "fit_law exact_kernels [Fin 1] [Fin 2] form = Inr (doubled form e)" using assms(2) order_laws by auto
  have 1: "predict_law exact_kernels (doubled form e) [Fin 1] = Inr [Fin 2]" using order_predictions [of form e 1] by simp
  show thesis
    using that unfolding attempt_def Let_def order_split [OF assms(1)] order_nums by (simp add: l 1 m order_predictions del: replicate.simps)
qed

lemma order_attempt_power:
  "fold_days c p ts \<Longrightarrow> attempt exact_kernels c (map order_row (p # ts)) ''power_diagnostic''
     = Inl (ImpactModelError ''power diagnostic needs two positive targets at distinct sizes'')"
  unfolding attempt_def Let_def order_split order_nums by (simp add: order_laws)

lemma order_evaluated:
  assumes "fold_days c p ts" and "(form, e) \<in> {(''square_root'', Fin (1 / 2)), (''linear'', Fin 1)}"
  obtains more where "evaluated_fields exact_kernels c (map order_row (p # ts)) form (doubled form e) scores = Inr more"
    "map_of more ''status'' = Some (JStr ''evaluated'')"
proof -
  have l: "fit_law exact_kernels [Fin 1] [Fin 2] form = Inr (doubled form e)" using assms(2) order_laws by auto
  have "day_law exact_kernels [order_row p] form (fst p) = Inr (JDict ([(''date'', JStr (fst p)), (''rows'', JInt 1)] @ law_fields (doubled form e)), [Fin 2])"
    by (simp add: day_law_def l jcount_def doubled_def)
  moreover have "row_days [order_row p] = [fst p]" by (simp add: row_days_def)
  ultimately show thesis
    using that unfolding evaluated_fields_def Let_def order_split [OF assms(1)] by (simp add: fold_days_def)
qed

lemma order_forms:
  assumes "fold_days c p ts" and "map_of base ''status'' = None" "map_of base ''form'' = None"
  obtains xs d where "map_res (fit_form exact_kernels c base depth regime (map order_row (p # ts))) fit_forms = Inr xs"
    "JDict d \<in> fst ` set xs" "map_of d ''form'' = Some (JStr ''square_root'')" "map_of d ''status'' = Some (JStr ''evaluated'')"
    "\<forall>k. map_of base k \<noteq> None \<longrightarrow> map_of d k = map_of base k"
proof -
  obtain s1 where s1: "attempt exact_kernels c (map order_row (p # ts)) ''square_root'' = Inr (doubled ''square_root'' (Fin (1 / 2)), replicate (Suc (length ts)) (Fin 2), s1)"
    using order_attempt [OF assms(1), of "''square_root''" "Fin (1 / 2)"] by blast
  obtain s2 where s2: "attempt exact_kernels c (map order_row (p # ts)) ''linear'' = Inr (doubled ''linear'' (Fin 1), replicate (Suc (length ts)) (Fin 2), s2)"
    using order_attempt [OF assms(1), of "''linear''" "Fin 1"] by blast
  obtain m1 where m1: "evaluated_fields exact_kernels c (map order_row (p # ts)) ''square_root'' (doubled ''square_root'' (Fin (1 / 2))) s1 = Inr m1"
      "map_of m1 ''status'' = Some (JStr ''evaluated'')"
    using order_evaluated [OF assms(1), of "''square_root''" "Fin (1 / 2)" s1] by blast
  obtain m2 where m2: "evaluated_fields exact_kernels c (map order_row (p # ts)) ''linear'' (doubled ''linear'' (Fin 1)) s2 = Inr m2"
    using order_evaluated [OF assms(1), of "''linear''" "Fin 1" s2] by blast
  show thesis
  proof (rule that)
    show "map_res (fit_form exact_kernels c base depth regime (map order_row (p # ts))) fit_forms = Inr
        [(JDict (base @ [(''form'', JStr ''square_root'')] @ m1), [residual_frame c depth regime ''square_root'' [Fin 1] (map order_row (p # ts)) (replicate (Suc (length ts)) (Fin 2))]),
         (JDict (base @ [(''form'', JStr ''linear'')] @ m2), [residual_frame c depth regime ''linear'' [Fin 1] (map order_row (p # ts)) (replicate (Suc (length ts)) (Fin 2))]),
         (JDict (base @ [(''form'', JStr ''power_diagnostic''), (''status'', JStr ''unavailable''), (''reason'', JStr ''power diagnostic needs two positive targets at distinct sizes'')]), [])]"
      unfolding fit_forms_def map_res.simps fit_form_def Let_def s1 s2 order_attempt_power [OF assms(1)] order_split [OF assms(1)] sum.case prod.case m1(1) m2
      by simp
    show "JDict (base @ [(''form'', JStr ''square_root'')] @ m1) \<in> fst ` set
        [(JDict (base @ [(''form'', JStr ''square_root'')] @ m1), [residual_frame c depth regime ''square_root'' [Fin 1] (map order_row (p # ts)) (replicate (Suc (length ts)) (Fin 2))]),
         (JDict (base @ [(''form'', JStr ''linear'')] @ m2), [residual_frame c depth regime ''linear'' [Fin 1] (map order_row (p # ts)) (replicate (Suc (length ts)) (Fin 2))]),
         (JDict (base @ [(''form'', JStr ''power_diagnostic''), (''status'', JStr ''unavailable''), (''reason'', JStr ''power diagnostic needs two positive targets at distinct sizes'')]), [])]"
      by simp
  qed (use assms(2,3) m1(2) in \<open>auto simp: map_add_def\<close>)
qed

definition all_sizes_config :: fit_config where
  "all_sizes_config = \<lparr>fc_target = target_column, fc_train_days = 2, fc_quantiles = []\<rparr>"

lemma order_good: "good_rows order_group deep (map order_row days) = (if deep then [] else map order_row days)"
  by (auto simp: good_rows_def filter_empty_conv intro!: filter_True)

lemma order_group_fit:
  assumes "fold_days c p ts"
  obtains j xs v where "fit_group exact_kernels all_sizes_config c (map order_row (p # ts)) order_group = Inr (j, xs)"
    "v \<in> fst ` set xs" "is_primary_record v" "record_key v = stratum_key order_group False ''all_sizes'' ''square_root''"
proof -
  let ?rows = "map order_row (p # ts)"
  let ?base = "base_fields order_group (depth_name False) ''all_sizes'' [] [order_row p] (map order_row ts)"
  have base: "map_of ?base ''status'' = None" "map_of ?base ''form'' = None"
    by (simp_all add: base_fields_def order_group_def map_add_def)
  obtain xs d where xs: "map_res (fit_form exact_kernels c ?base (depth_name False) ''all_sizes'' ?rows) fit_forms = Inr xs"
    and d: "JDict d \<in> fst ` set xs" "map_of d ''form'' = Some (JStr ''square_root'')" "map_of d ''status'' = Some (JStr ''evaluated'')"
    and keep: "\<forall>k. map_of ?base k \<noteq> None \<longrightarrow> map_of d k = map_of ?base k"
    using order_forms [OF assms base] by metis
  have good: "filter (\<lambda>r. fr_deep r = deep) (filter (\<lambda>r. \<not> excluded r) (filter (\<lambda>r. group_key r = order_group) ?rows)) = (if deep then [] else ?rows)" for deep
    by (auto simp: filter_empty_conv intro!: filter_True)
  have ne: "[order_row p] \<noteq> []" "map order_row ts \<noteq> []" using assms by (auto simp: fold_days_def)
  have inside: "fit_depth exact_kernels all_sizes_config c order_group (filter (\<lambda>r. \<not> excluded r) (filter (\<lambda>r. group_key r = order_group) ?rows)) False = Inr xs"
    unfolding fit_depth_def good Let_def if_False order_split [OF assms]
    using ne xs by (simp add: regimes_def all_sizes_config_def bin_edges_def fit_regime_def Let_def order_split [OF assms, simplified])
  obtain ys where beyond: "fit_depth exact_kernels all_sizes_config c order_group (filter (\<lambda>r. \<not> excluded r) (filter (\<lambda>r. group_key r = order_group) ?rows)) True = Inr ys"
    unfolding fit_depth_def good Let_def by simp
  have all: "filter (\<lambda>r. \<not> excluded r) (filter (\<lambda>r. group_key r = order_group) ?rows) = ?rows"
    by (auto intro!: filter_True)
  have "\<exists>j. fit_group exact_kernels all_sizes_config c ?rows order_group = Inr (j, xs @ ys)"
    using inside beyond ne unfolding fit_group_def Let_def all order_split [OF assms] by simp
  moreover have "is_primary_record (JDict d)" using d(2,3) by (simp add: is_primary_record_def)
  moreover have "record_key (JDict d) = stratum_key order_group False ''all_sizes'' ''square_root''"
  proof -
    have b: "map_of ?base ''symbol'' = Some (JStr ''BTCUSDT'')" "map_of ?base ''side'' = Some (JStr ''buy'')" "map_of ?base ''schedule'' = Some (JStr ''static'')"
      "map_of ?base ''depth'' = Some (JStr inside_depth)" "map_of ?base ''size_regime'' = Some (JStr ''all_sizes'')"
      by (simp_all add: base_fields_def order_group_def map_add_def depth_name_def)
    have k: "map_of ?base k = Some x \<Longrightarrow> map_of d k = Some x" for k x using keep by simp
    show ?thesis
      using k [OF b(1)] k [OF b(2)] k [OF b(3)] k [OF b(4)] k [OF b(5)] d(2)
      by (simp add: record_key_def stratum_key_def order_group_def depth_name_def)
  qed
  ultimately show thesis using that d(1) by (metis (no_types, lifting) UnI1 image_Un set_append)
qed

lemma order_fit:
  assumes "fold_days (iso_text cutday) p ts" and "\<forall>q \<in> set (p # ts). iso_date (fst q) = Some (day_of_ms (snd q))"
    and "sorted (map (row_key \<circ> order_row) (p # ts))" and "cutday < stop"
    and "\<forall>q \<in> set (p # ts). iso_text (cutday - 2) \<le> fst q \<and> fst q < iso_text stop"
  obtains rep v where "fit_impact exact_kernels (order_rows (p # ts)) (OnDate cutday) (OnDate stop) all_sizes_config = Inr rep"
    "v \<in> set (report_fits rep)" "is_evaluated v" "record_key v = stratum_key order_group False ''all_sizes'' ''square_root''"
proof -
  obtain j xs v where g: "fit_group exact_kernels all_sizes_config (iso_text cutday) (map order_row (p # ts)) order_group = Inr (j, xs)"
    and v: "v \<in> fst ` set xs" "is_primary_record v" "record_key v = stratum_key order_group False ''all_sizes'' ''square_root''"
    using order_group_fit [OF assms(1)] .
  have "map group_key (map order_row (p # ts)) = replicate (Suc (length ts)) order_group" by (simp add: comp_def map_replicate_const)
  moreover have "remdups (replicate (Suc n) x) = [x]" for n and x :: "string \<times> string \<times> string" by (induction n) simp_all
  ultimately have "remdups (map group_key (map order_row (p # ts))) = [order_group]" by (simp only:)
  then have groups: "sort (remdups (map group_key (map order_row (p # ts)))) = [order_group]"
    by (rule arg_cong [where f = sort, THEN trans]) simp
  have valid: "validate_rows (order_rows (p # ts)) = Inr (map order_row (p # ts))" by (rule order_rows_valid) (use assms in auto)
  have fold: "in_fold (iso_text (cutday - 2)) (iso_text stop) (order_rows (p # ts)) = Inr (order_rows (p # ts))"
    by (rule order_rows_fold) (use assms in auto)
  have head: "''date'' \<in> set (col_names (order_rows (p # ts)))" "\<not> frame_empty (order_rows (p # ts))"
    by (simp_all add: col_names_def order_rows_def Let_def frame_empty_def)
  have days: "fc_train_days all_sizes_config = 2" by (simp add: all_sizes_config_def)
  have prim: "list_ex (is_primary_record \<circ> fst) xs" using v by (auto simp: list_ex_iff)
  have "\<exists>rep. fit_impact exact_kernels (order_rows (p # ts)) (OnDate cutday) (OnDate stop) all_sizes_config = Inr rep \<and> report_fits rep = map fst xs"
    unfolding fit_impact_def days Let_def as_of_day_def period.case bnd_Inr fold valid groups map_res.simps g
    using assms(4) head prim by simp
  then show thesis using that v by (auto simp: is_evaluated_def is_primary_record_def split: json.split_asm)
qed

lemma order_sample_days:
  "fold_days (iso_text 739768) (order_days ! 0) [order_days ! 1]" "fold_days (iso_text 739768) (order_days ! 0) [order_days ! 1, order_days ! 2]"
  "\<forall>q \<in> set (order_days ! 0 # [order_days ! 1, order_days ! 2]). iso_date (fst q) = Some (day_of_ms (snd q))"
  "sorted (map (row_key \<circ> order_row) (order_days ! 0 # [order_days ! 1, order_days ! 2]))"
  "\<forall>q \<in> set (order_days ! 0 # [order_days ! 1]). iso_text (739768 - 2) \<le> fst q \<and> fst q < iso_text 739769"
  "\<forall>q \<in> set (order_days ! 0 # [order_days ! 1, order_days ! 2]). iso_text (739768 - 2) \<le> fst q \<and> fst q < iso_text 739770"
  by (simp_all add: fold_days_def order_days_def sample_names order_dates day_of_ms_def day_ms_def epoch_ord_def row_key_def order_row_def
      less_eq_char_def less_char_def)

lemma sample_fits:
  obtains rep v rep' v' where
    "fit_impact exact_kernels (order_rows [order_days ! 0, order_days ! 1]) (OnDate 739768) (OnDate 739769) all_sizes_config = Inr rep"
    "v \<in> set (report_fits rep)" "is_evaluated v"
    "fit_impact exact_kernels (order_rows [order_days ! 0, order_days ! 1, order_days ! 2]) (OnDate 739768) (OnDate 739770) all_sizes_config = Inr rep'"
    "v' \<in> set (report_fits rep')" "is_evaluated v'" "record_key v = record_key v'"
proof -
  have "sorted (map (row_key \<circ> order_row) (order_days ! 0 # [order_days ! 1]))" "\<forall>q \<in> set (order_days ! 0 # [order_days ! 1]). iso_date (fst q) = Some (day_of_ms (snd q))"
    using order_sample_days(3,4) by simp_all
  note first = order_fit [OF order_sample_days(1) this(2,1) _ order_sample_days(5)]
  obtain rep v where 1: "fit_impact exact_kernels (order_rows [order_days ! 0, order_days ! 1]) (OnDate 739768) (OnDate 739769) all_sizes_config = Inr rep"
    "v \<in> set (report_fits rep)" "is_evaluated v" "record_key v = stratum_key order_group False ''all_sizes'' ''square_root''"
    by (rule first) simp
  obtain rep' v' where 2: "fit_impact exact_kernels (order_rows [order_days ! 0, order_days ! 1, order_days ! 2]) (OnDate 739768) (OnDate 739770) all_sizes_config = Inr rep'"
    "v' \<in> set (report_fits rep')" "is_evaluated v'" "record_key v' = stratum_key order_group False ''all_sizes'' ''square_root''"
    by (rule order_fit [OF order_sample_days(2,3,4) _ order_sample_days(6)]) simp
  show thesis using that 1 2 by metis
qed

theorem fitted_laws_read_only_the_past_witness:
  "\<exists>rep v l. fit_impact exact_kernels (order_rows [order_days ! 0, order_days ! 1]) (OnDate 739768) (OnDate 739769) all_sizes_config = Inr rep
     \<and> v \<in> set (report_fits rep) \<and> json_field v ''model'' = Some (JDict (law_fields l))
     \<and> (\<exists>days. json_field v ''train_days'' = Some (jtexts days) \<and> (\<forall>d \<in> set days. ''2026-05-30'' \<le> d \<and> d < ''2026-06-01''))"
proof -
  obtain rep v where f: "fit_impact exact_kernels (order_rows [order_days ! 0, order_days ! 1]) (OnDate 739768) (OnDate 739769) all_sizes_config = Inr rep"
    and v: "v \<in> set (report_fits rep)" "is_evaluated v"
    using sample_fits by metis
  then show ?thesis
    using fitted_laws_read_only_the_past [OF f _ _ order_rows_ok _ _ _ v]
    by (simp add: as_of_day_def all_sizes_config_def order_dates sample_names) metis
qed

theorem later_days_move_no_law_witness:
  "\<exists>rep v rep' v'. v \<in> set (report_fits rep) \<and> v' \<in> set (report_fits rep') \<and> json_field v ''model'' = json_field v' ''model''
     \<and> fit_impact exact_kernels (order_rows [order_days ! 0, order_days ! 1]) (OnDate 739768) (OnDate 739769) all_sizes_config = Inr rep
     \<and> fit_impact exact_kernels (order_rows [order_days ! 0, order_days ! 1, order_days ! 2]) (OnDate 739768) (OnDate 739770) all_sizes_config = Inr rep'"
proof -
  obtain rep v rep' v' where
    1: "fit_impact exact_kernels (order_rows [order_days ! 0, order_days ! 1]) (OnDate 739768) (OnDate 739769) all_sizes_config = Inr rep"
      "v \<in> set (report_fits rep)" "is_evaluated v"
    and 2: "fit_impact exact_kernels (order_rows [order_days ! 0, order_days ! 1, order_days ! 2]) (OnDate 739768) (OnDate 739770) all_sizes_config = Inr rep'"
      "v' \<in> set (report_fits rep')" "is_evaluated v'" "record_key v = record_key v'"
    using sample_fits by metis
  have app: "order_rows [order_days ! 0, order_days ! 1, order_days ! 2] = frame_append (order_rows [order_days ! 0, order_days ! 1]) (order_rows [order_days ! 2])"
    by (simp add: order_rows_append)
  have late: "\<forall>r \<in> set (frame_rows (order_rows [order_days ! 2])). iso_text 739768 \<le> fr_date r"
    by (simp add: order_frame_rows order_days_def sample_names less_eq_char_def less_char_def)
  have "json_field v ''model'' = json_field v' ''model''"
    using later_days_move_no_law [OF 1(1) 2(1) [unfolded app] _ _ _ order_rows_ok order_rows_ok _ order_rows_names late _ _ _ _ 1(2,3) 2(2,3,4)]
    by (simp add: as_of_day_def all_sizes_config_def order_rows_append order_rows_ok)
  then show ?thesis using 1 2 by blast
qed

end
