(* ===== verification/FundingForecast.thy ===== *)
theory FundingForecast
  imports RollingFunding Trades
begin

text \<open>
  Funding forecasts before observation (\<open>models/funding_walk_forward.py\<close>), their scores, the summaries
  of a posterior and of a cumulative forecast, and the one-step diagnostics of
  \<open>models/funding_checks.py\<close>. Distribution functions, sums, means, quantiles, autocorrelations and
  histograms of numpy, scipy and statsmodels are parameters. The observations are the typed rows of an
  admitted frame; the generator is the records it yields and the error it ends with.
\<close>

section \<open>Numerical parameters\<close>

record scipy =
  sp_t_ppf :: "pynum \<Rightarrow> pynum \<Rightarrow> pynum" \<comment> \<open>probability, degrees of freedom\<close>
  sp_t_cdf :: "pynum \<Rightarrow> pynum \<Rightarrow> pynum \<Rightarrow> pynum \<Rightarrow> pynum" \<comment> \<open>value, degrees of freedom, location, scale\<close>
  sp_t_sf :: "pynum \<Rightarrow> pynum \<Rightarrow> pynum \<Rightarrow> pynum \<Rightarrow> pynum"
  sp_t_logpdf :: "pynum \<Rightarrow> pynum \<Rightarrow> pynum \<Rightarrow> pynum \<Rightarrow> pynum"
  sp_invgamma_ppf :: "pynum \<Rightarrow> pynum \<Rightarrow> pynum \<Rightarrow> pynum" \<comment> \<open>probability, shape, scale\<close>
  sp_sum :: "vec \<Rightarrow> pynum"
  sp_mean :: "vec \<Rightarrow> pynum"
  sp_median :: "vec \<Rightarrow> pynum"
  sp_std :: "vec \<Rightarrow> pynum" \<comment> \<open>\<open>std(ddof=1)\<close>\<close>
  sp_quantile :: "vec \<Rightarrow> pynum \<Rightarrow> pynum"
  sp_acf :: "vec \<Rightarrow> int \<Rightarrow> vec"
  sp_histogram :: "vec \<Rightarrow> int list" \<comment> \<open>counts in ten equal bins of the unit interval\<close>

definition fmin :: "pynum \<Rightarrow> pynum \<Rightarrow> pynum" where "fmin x y = (if x = NaN \<or> y = NaN then NaN else if flt y x then y else x)"

definition fmax :: "pynum \<Rightarrow> pynum \<Rightarrow> pynum" where "fmax x y = (if x = NaN \<or> y = NaN then NaN else if flt x y then y else x)"

definition np_min :: "vec \<Rightarrow> pynum" where "np_min xs = foldl fmin (hd xs) (tl xs)"

definition spread :: "vec \<Rightarrow> bool" where \<comment> \<open>truth of \<open>np.ptp\<close>\<close>
  "spread xs \<longleftrightarrow> \<not> feq (fsub (foldl fmax (hd xs) (tl xs)) (np_min xs)) (Fin 0)"

definition half :: "pynum \<Rightarrow> pynum" where "half x = np_divide x (Fin 2)"

definition jnums :: "vec \<Rightarrow> json" where "jnums xs = JList (map JNum xs)"

definition count_json :: "bool list \<Rightarrow> json" where "count_json bs = JInt (int (length (filter id bs)))"

definition mean_bools :: "bool list \<Rightarrow> pynum" where \<comment> \<open>an exact count, divided once\<close>
  "mean_bools bs = (if bs = [] then NaN else fl (of_nat (length (filter id bs)) / of_nat (length bs)))"

section \<open>Summaries\<close>

definition posterior_summary :: "scipy \<Rightarrow> posterior \<Rightarrow> pynum \<Rightarrow> json res" where
  "posterior_summary sp p level =
     bnd (guard (\<not> (flt (Fin 0) level \<and> flt level (Fin 1))) (ValueError ''credible level must be inside (0,1)'')) (\<lambda>_.
     bnd (fdiv (po_scale p) (po_shape p)) (\<lambda>ratio.
     bnd (if flt (Fin 1) (po_shape p) then bnd (fdiv (po_scale p) (fsub (po_shape p) (Fin 1))) (\<lambda>v. Inr (JNum v)) else Inr JNull) (\<lambda>variance.
     let q = [half (fsub (Fin 1) level), half (fadd (Fin 1) level)]; df = fmul (Fin 2) (po_shape p);
         scale = (\<lambda>i. np_sqrt (fmul ratio (po_factor p ! i ! i)));
         interval = (\<lambda>m i. jnums (map (\<lambda>v. fadd m (fmul (scale i) (sp_t_ppf sp v df))) q));
         phi = snd (po_mean p);
         mass = fsub (sp_t_cdf sp (Fin 1) df phi (scale 1)) (sp_t_cdf sp (Fin (- 1)) df phi (scale 1)) in
     Inr (JDict [(''observations'', JInt (po_observations p)), (''interval_hours'', JInt (po_interval_hours p)), (''credible_level'', JNum level),
       (''intercept_bps'', JDict [(''mean'', JNum (fst (po_mean p))), (''interval'', interval (fst (po_mean p)) 0)]),
       (''phi'', JDict [(''mean'', JNum phi), (''interval'', interval phi 1)]),
       (''innovation_variance_bps2'', JDict [(''mean'', variance), (''interval'', jnums (map (\<lambda>v. sp_invgamma_ppf sp v (po_shape p) (po_scale p)) q))]),
       (''nonstationary_phi_probability'', JNum (fsub (Fin 1) mass)), (''shape'', JNum (po_shape p)), (''scale_bps2'', JNum (po_scale p)),
       (''covariance_factor'', JList (map jnums (po_factor p)))]))))"

record cumulative_summary =
  cs_horizon :: int
  cs_interval_hours :: int
  cs_as_of :: int
  cs_last_observation :: int
  cs_training_first :: int
  cs_training_settlements :: int
  cs_seed :: int
  cs_draws :: int
  cs_mean :: pynum
  cs_median :: pynum
  cs_interval_95 :: "pynum \<times> pynum"
  cs_positive :: pynum
  cs_mc_error :: pynum

definition cumulative_summary_of :: "scipy \<Rightarrow> forecast \<Rightarrow> cumulative_summary res" where
  "cumulative_summary_of sp f =
     (let values = cf_samples f; n = int (length values) in
      bnd (probability_above f (Fin 0)) (\<lambda>probability.
      bnd (fdiv (fmul probability (fsub (Fin 1) probability)) (Fin (of_int n))) (\<lambda>v.
      Inr \<lparr>cs_horizon = cf_horizon f, cs_interval_hours = cf_interval_hours f, cs_as_of = cf_as_of f,
            cs_last_observation = cf_last_observation f, cs_training_first = cf_training_first f,
            cs_training_settlements = cf_training_settlements f, cs_seed = cf_seed f, cs_draws = n,
            cs_mean = sp_mean sp values, cs_median = sp_median sp values,
            cs_interval_95 = (sp_quantile sp values (fl (25 / 1000)), sp_quantile sp values (fl (975 / 1000))),
            cs_positive = probability, cs_mc_error = np_sqrt v\<rparr>)))"

section \<open>The forecast stream\<close>

record forecast_config =
  fw_days :: int
  fw_min :: int
  fw_horizons :: "int list"
  fw_draws :: int
  fw_seed :: int

definition mk_forecast_config :: "int \<Rightarrow> int \<Rightarrow> int list \<Rightarrow> int \<Rightarrow> int \<Rightarrow> forecast_config res" where
  "mk_forecast_config days least horizons draw_count seed =
     bnd (mk_rolling days least default_prior) (\<lambda>_.
     bnd (guard (draw_count < 2 \<or> seed < 0 \<or> list_ex (\<lambda>h. h < 1) horizons)
            (ValueError ''positive horizons, at least two draws and nonnegative seed required'')) (\<lambda>_.
     bnd (guard (\<not> distinct horizons) (ValueError ''duplicate diagnostic horizons'')) (\<lambda>_.
     Inr \<lparr>fw_days = days, fw_min = least, fw_horizons = horizons, fw_draws = draw_count, fw_seed = seed\<rparr>)))"

definition default_forecast_config :: forecast_config where
  "default_forecast_config = \<lparr>fw_days = 90, fw_min = 30, fw_horizons = [3, 21], fw_draws = 4096, fw_seed = 603\<rparr>"

record settlement_row =
  st_time :: int
  st_symbol :: string
  st_rate :: pynum
  st_hours :: int

type_synonym one_step = "pynum \<times> pynum \<times> pynum" \<comment> \<open>degrees of freedom, location, scale\<close>

record made_forecast =
  mf_training :: training_summary
  mf_posterior :: json
  mf_one_step :: one_step
  mf_frozen :: one_step
  mf_cumulative :: "(int \<times> cumulative_summary) list"

datatype forecast_record = Forecasted (fd_time: int) made_forecast | Unavailable (fd_time: int) string

definition prediction :: "numpy \<Rightarrow> posterior \<Rightarrow> pynum \<Rightarrow> one_step res" where
  "prediction np p previous = bnd (predict np p [previous]) (\<lambda>(df, location, scale). Inr (df, hd location, hd scale))"

text \<open>The frozen comparator is the first posterior of the present cadence.\<close>

definition frozen_posterior :: "posterior option \<Rightarrow> posterior \<Rightarrow> posterior" where
  "frozen_posterior frozen p =
     (case frozen of None \<Rightarrow> p | Some q \<Rightarrow> if po_interval_hours q \<noteq> po_interval_hours p then p else q)"

definition forecast_before ::
  "numpy \<Rightarrow> draws \<Rightarrow> scipy \<Rightarrow> forecast_config \<Rightarrow> rolling \<Rightarrow> posterior option \<Rightarrow> int \<Rightarrow> posterior option \<times> made_forecast res" where
  "forecast_before np dr sp cfg m frozen t =
     (case bnd (rf_posterior np m (Some t)) (\<lambda>p. bnd (rf_training_summary m (Some t)) (\<lambda>training.
             bnd (prediction np p (ts_last_rate training)) (\<lambda>one. Inr (p, training, one)))) of
        Inl e \<Rightarrow> (frozen, Inl e)
      | Inr (p, training, one) \<Rightarrow>
          (let fz = frozen_posterior frozen p in
           (Some fz,
            bnd (prediction np fz (ts_last_rate training)) (\<lambda>frozen_one.
            bnd (posterior_summary sp p (fl (95 / 100))) (\<lambda>summary.
            bnd (map_res (\<lambda>h. bnd (bnd (predict_cumulative_funding np dr m h (Some t) (fw_draws cfg) (fw_seed cfg)) (cumulative_summary_of sp))
                               (\<lambda>c. Inr (h, c))) (fw_horizons cfg)) (\<lambda>cumulative.
            Inr \<lparr>mf_training = training, mf_posterior = summary, mf_one_step = one, mf_frozen = frozen_one, mf_cumulative = cumulative\<rparr>))))))"

fun unavailable_reason :: "exn \<Rightarrow> string option" where \<comment> \<open>\<open>except FundingModelUnavailable\<close>\<close>
  "unavailable_reason (FundingModelUnavailable s) = Some s"
| "unavailable_reason _ = None"

text \<open>The record of one time, made from the history alone.\<close>

definition record_before ::
  "numpy \<Rightarrow> draws \<Rightarrow> scipy \<Rightarrow> forecast_config \<Rightarrow> int \<Rightarrow> rolling \<Rightarrow> posterior option \<Rightarrow> int \<Rightarrow> posterior option \<times> forecast_record list res" where
  "record_before np dr sp cfg start m frozen t =
     (if t < start then (frozen, Inr [])
      else (case forecast_before np dr sp cfg m frozen t of
              (fz, Inr f) \<Rightarrow> (fz, Inr [Forecasted t f])
            | (fz, Inl e) \<Rightarrow> (fz, case unavailable_reason e of Some s \<Rightarrow> Inr [Unavailable t s] | None \<Rightarrow> Inl e)))"

fun stream ::
  "numpy \<Rightarrow> draws \<Rightarrow> scipy \<Rightarrow> forecast_config \<Rightarrow> int \<Rightarrow> int \<Rightarrow> string option \<Rightarrow> rolling \<Rightarrow> posterior option \<Rightarrow> settlement_row list
    \<Rightarrow> forecast_record list \<times> exn option" where
  "stream np dr sp cfg start stop seen m frozen [] = ([], None)"
| "stream np dr sp cfg start stop seen m frozen (row # rows) =
     (let symbol = (case seen of None \<Rightarrow> st_symbol row | Some s \<Rightarrow> s) in
      if stop \<le> st_time row then ([], None)
      else if st_symbol row \<noteq> symbol then ([], Some (ValueError ''one symbol per funding forecast stream''))
      else (case record_before np dr sp cfg start m frozen (st_time row) of
              (_, Inl e) \<Rightarrow> ([], Some e)
            | (fz, Inr records) \<Rightarrow>
                (case rf_update m (st_time row) (st_rate row) (st_hours row) of
                   Inl e \<Rightarrow> (records, Some e)
                 | Inr m' \<Rightarrow>
                     (case stream np dr sp cfg start stop (Some symbol) m' fz rows of (later, e) \<Rightarrow> (records @ later, e)))))"

definition forecast_stream ::
  "numpy \<Rightarrow> draws \<Rightarrow> scipy \<Rightarrow> settlement_row list \<Rightarrow> int \<Rightarrow> int \<Rightarrow> forecast_config \<Rightarrow> prior \<Rightarrow> forecast_record list \<times> exn option" where
  "forecast_stream np dr sp rows study_start study_end cfg prior =
     (case bnd (mk_rolling (fw_days cfg) (fw_min cfg) prior) (\<lambda>m.
             bnd (guard (utc_ms study_end \<le> utc_ms study_start) (ValueError ''invalid study boundaries'')) (\<lambda>_. Inr m)) of
        Inl e \<Rightarrow> ([], Some e)
      | Inr m \<Rightarrow> stream np dr sp cfg (utc_ms study_start) (utc_ms study_end) None m None rows)"

section \<open>Scores\<close>

definition levels :: "(string \<times> pynum) list" where
  "levels = [(''0.5'', Fin (1 / 2)), (''0.8'', fl (8 / 10)), (''0.95'', fl (95 / 100)), (''0.99'', fl (99 / 100))]"

text \<open>An observation with its predictive distribution.\<close>

type_synonym scored = "pynum \<times> one_step"

definition standardized :: "scored \<Rightarrow> pynum" where
  "standardized x = (case x of (o1, df, location, scale) \<Rightarrow> np_divide (fsub o1 location) scale)"

definition residual :: "scored \<Rightarrow> pynum" where "residual x = (case x of (o1, df, location, scale) \<Rightarrow> fsub o1 location)"

definition at_dist :: "(pynum \<Rightarrow> pynum \<Rightarrow> pynum \<Rightarrow> pynum \<Rightarrow> pynum) \<Rightarrow> pynum \<Rightarrow> scored \<Rightarrow> pynum" where
  "at_dist f v x = (case x of (o1, df, location, scale) \<Rightarrow> f v df location scale)"

definition coverage_json :: "scipy \<Rightarrow> scored list \<Rightarrow> json" where
  "coverage_json sp xs = JDict (map (\<lambda>(name, level). (name, JNum (mean_bools
     (map (\<lambda>x. fle (fabs (standardized x)) (sp_t_ppf sp (half (fadd (Fin 1) level)) (fst (snd x)))) xs)))) levels)"

definition density_json :: "scipy \<Rightarrow> scored list \<Rightarrow> json" where
  "density_json sp xs = JNum (sp_mean sp (map (\<lambda>x. at_dist (sp_t_logpdf sp) (fst x) x) xs))"

definition pit_json :: "scipy \<Rightarrow> scored list \<Rightarrow> json" where
  "pit_json sp xs = JList (map JInt (sp_histogram sp (map (\<lambda>x. at_dist (sp_t_cdf sp) (fst x) x) xs)))"

definition acf_json :: "scipy \<Rightarrow> vec \<Rightarrow> json" where
  "acf_json sp rs = (if spread rs then jnums (sp_acf sp rs (min 12 (int (length rs) - 1))) else JNull)"

definition tail_json :: "scipy \<Rightarrow> scored list \<Rightarrow> json" where
  "tail_json sp xs = JDict (map (\<lambda>b. (int_text b, let bound = fl (of_int b / 10000) in
     JDict [(''observed_count'', count_json (map (\<lambda>x. flt (fst x) bound) xs)),
            (''expected_count'', JNum (sp_sum sp (map (at_dist (sp_t_cdf sp) bound) xs)))])) [- 1, - 5, - 10])"

definition observed_at :: "settlement_row list \<Rightarrow> int \<Rightarrow> settlement_row res" where \<comment> \<open>\<open>lookup.loc[time]\<close>\<close>
  "observed_at rows t = (case find (\<lambda>r. st_time r = t) rows of Some r \<Rightarrow> Inr r | None \<Rightarrow> Inl (KeyError ''funding_time''))"

definition scored_record ::
  "(made_forecast \<Rightarrow> one_step) \<Rightarrow> settlement_row list \<Rightarrow> forecast_record \<Rightarrow> scored list res" where
  "scored_record key rows r =
     (case r of
        Unavailable t s \<Rightarrow> Inr []
      | Forecasted t f \<Rightarrow>
          bnd (observed_at rows t) (\<lambda>row.
          Inr (if ts_interval_hours (mf_training f) = st_hours row then [(st_rate row, key f)] else [])))"

definition is_forecast :: "forecast_record \<Rightarrow> bool" where
  "is_forecast r = (case r of Forecasted _ _ \<Rightarrow> True | Unavailable _ _ \<Rightarrow> False)"

definition score_one_step :: "scipy \<Rightarrow> (made_forecast \<Rightarrow> one_step) \<Rightarrow> forecast_record list \<Rightarrow> settlement_row list \<Rightarrow> json res" where
  "score_one_step sp key records rows =
     bnd (map_res (scored_record key rows) records) (\<lambda>xss.
     let xs = concat xss; z = map standardized xs in
     if xs = [] then Inr (JDict [(''rows'', JInt 0), (''reason'', JStr ''no matching-cadence forecasts'')])
     else Inr (JDict [(''rows'', JInt (int (length xs))),
       (''cadence_excluded'', JInt (int (length (filter is_forecast records)) - int (length xs))),
       (''coverage'', coverage_json sp xs),
       (''lower_95_misses'', count_json (map (\<lambda>x. flt (standardized x) (sp_t_ppf sp (fl (25 / 1000)) (fst (snd x)))) xs)),
       (''upper_95_misses'', count_json (map (\<lambda>x. flt (sp_t_ppf sp (fl (975 / 1000)) (fst (snd x))) (standardized x)) xs)),
       (''positive_probability_brier'', JNum (sp_mean sp (map (\<lambda>x.
          let d = fsub (at_dist (sp_t_sf sp) (Fin 0) x) (Fin (of_bool (flt (Fin 0) (fst x)))) in fmul d d) xs))),
       (''mean_log_predictive_density_fraction_units'', density_json sp xs), (''pit_counts'', pit_json sp xs),
       (''residual_acf'', acf_json sp (map residual xs)), (''negative_tail'', tail_json sp xs)]))"

text \<open>Cumulative scores: every record is scored or excluded for one reason.\<close>

record cumulative_tally =
  ct_actual :: vec
  ct_low :: vec
  ct_high :: vec
  ct_positive :: vec
  ct_incomplete :: int
  ct_cadence :: int
  ct_unavailable :: int

definition no_cumulative :: cumulative_tally where
  "no_cumulative = \<lparr>ct_actual = [], ct_low = [], ct_high = [], ct_positive = [], ct_incomplete = 0, ct_cadence = 0, ct_unavailable = 0\<rparr>"

definition position_of :: "settlement_row list \<Rightarrow> int \<Rightarrow> nat res" where \<comment> \<open>the dict keeps the last index of a time\<close>
  "position_of rows t =
     (case find (\<lambda>i. st_time (rows ! i) = t) (rev [0..<length rows]) of Some i \<Rightarrow> Inr i | None \<Rightarrow> Inl (KeyError ''funding_time''))"

definition tally_cumulative :: "scipy \<Rightarrow> settlement_row list \<Rightarrow> int \<Rightarrow> cumulative_tally \<Rightarrow> forecast_record \<Rightarrow> cumulative_tally res" where
  "tally_cumulative sp rows horizon c r =
     (case r of
        Unavailable t s \<Rightarrow> Inr (c\<lparr>ct_unavailable := ct_unavailable c + 1\<rparr>)
      | Forecasted t f \<Rightarrow>
          bnd (position_of rows t) (\<lambda>i.
          bnd (case map_of (mf_cumulative f) horizon of Some s \<Rightarrow> Inr s | None \<Rightarrow> Inl (KeyError (int_text horizon))) (\<lambda>s.
          let ahead = take (nat horizon) (drop i rows) in
          if int (length rows) < int i + horizon then Inr (c\<lparr>ct_incomplete := ct_incomplete c + 1\<rparr>)
          else if list_ex (\<lambda>row. st_hours row \<noteq> cs_interval_hours s) ahead then Inr (c\<lparr>ct_cadence := ct_cadence c + 1\<rparr>)
          else Inr (c\<lparr>ct_actual := ct_actual c @ [sp_sum sp (map st_rate ahead)], ct_low := ct_low c @ [fst (cs_interval_95 s)],
                     ct_high := ct_high c @ [snd (cs_interval_95 s)], ct_positive := ct_positive c @ [cs_positive s]\<rparr>))))"

definition score_cumulative :: "scipy \<Rightarrow> forecast_record list \<Rightarrow> settlement_row list \<Rightarrow> int \<Rightarrow> json res" where
  "score_cumulative sp records rows horizon =
     bnd (fold_res (tally_cumulative sp rows horizon) no_cumulative records) (\<lambda>c.
     let values = ct_actual c in
     Inr (JDict ([(''horizon_settlements'', JInt horizon), (''rows'', JInt (int (length values))), (''incomplete_endpoints'', JInt (ct_incomplete c)),
        (''cadence_excluded'', JInt (ct_cadence c)), (''unavailable'', JInt (ct_unavailable c)),
        (''caveat'', JStr ''overlapping conditional forecasts; dependent scores, diagnostic horizon only'')]
       @ (if values = [] then []
          else [(''coverage_95'', JNum (mean_bools (map (\<lambda>(v, lo, hi). fle lo v \<and> fle v hi) (zip values (zip (ct_low c) (ct_high c)))))),
                (''lower_95_misses'', count_json (map2 flt values (ct_low c))),
                (''upper_95_misses'', count_json (map2 flt (ct_high c) values)),
                (''positive_probability_brier'', JNum (sp_mean sp (map2 (\<lambda>p v.
                   let d = fsub p (Fin (of_bool (flt (Fin 0) v))) in fmul d d) (ct_positive c) values)))]))))"

section \<open>The analysis\<close>

definition utc_month :: "int \<Rightarrow> string" where "utc_month t = take 7 (date_of_ms t)"

definition sensitivity_priors :: "numpy \<Rightarrow> (string \<times> prior) list res" where
  "sensitivity_priors np =
     (let mean = pr_mean default_prior; shape = pr_shape default_prior; precision = pr_precision default_prior;
          diag = (\<lambda>v. ((Fin v, Fin 0), (Fin 0, Fin v))) in
      map_res (\<lambda>(name, precision, scale). bnd (mk_prior np mean precision shape scale) (\<lambda>p. Inr (name, p)))
        [(''variance_scale_0.5'', precision, Fin (1 / 2)), (''variance_scale_8'', precision, Fin 8),
         (''precision_0.25'', diag (1 / 4), pr_scale default_prior), (''precision_4'', diag 4, pr_scale default_prior)])"

definition prior_spec :: "prior \<Rightarrow> json" where
  "prior_spec p =
     JDict [(''mean'', jnums (vec2 (pr_mean p))), (''precision'', JList (map jnums (mat2 (pr_precision p)))),
       (''shape'', JNum (pr_shape p)), (''scale'', JNum (pr_scale p))]"

record funding_analysis =
  fa_records :: "forecast_record list"
  fa_rows :: int
  fa_unavailable :: int
  fa_one_step :: json
  fa_frozen :: json
  fa_cumulative :: "(int \<times> json) list"
  fa_monthly :: "(string \<times> json) list"
  fa_sensitivity :: "(string \<times> json \<times> json) list"

definition streamed :: "forecast_record list \<times> exn option \<Rightarrow> forecast_record list res" where \<comment> \<open>\<open>list(generator)\<close>\<close>
  "streamed p = (case p of (records, None) \<Rightarrow> Inr records | (_, Some e) \<Rightarrow> Inl e)"

definition analyze :: "numpy \<Rightarrow> draws \<Rightarrow> scipy \<Rightarrow> settlement_row list \<Rightarrow> int \<Rightarrow> int \<Rightarrow> forecast_config \<Rightarrow> funding_analysis res" where
  "analyze np dr sp rows study_start study_end cfg =
     bnd (streamed (forecast_stream np dr sp rows study_start study_end cfg default_prior)) (\<lambda>records.
     let study = filter (\<lambda>r. utc_ms study_start \<le> st_time r \<and> st_time r < utc_ms study_end) rows in
     bnd (map_res (\<lambda>month. bnd (score_one_step sp mf_one_step (filter (\<lambda>r. utc_month (fd_time r) = month) records) study)
            (\<lambda>v. Inr (month, v))) (sort (remdups (map (utc_month \<circ> fd_time) records)))) (\<lambda>monthly.
     bnd (sensitivity_priors np) (\<lambda>priors.
     bnd (map_res (\<lambda>(name, prior).
            bnd (streamed (forecast_stream np dr sp rows study_start study_end (cfg\<lparr>fw_horizons := []\<rparr>) prior)) (\<lambda>predictions.
            bnd (score_one_step sp mf_one_step predictions study) (\<lambda>v. Inr (name, prior_spec prior, v)))) priors) (\<lambda>sensitivity.
     bnd (score_one_step sp mf_one_step records study) (\<lambda>one.
     bnd (score_one_step sp mf_frozen records study) (\<lambda>frozen.
     bnd (map_res (\<lambda>h. bnd (score_cumulative sp records study h) (\<lambda>v. Inr (h, v))) (fw_horizons cfg)) (\<lambda>cumulative.
     Inr \<lparr>fa_records = records, fa_rows = int (length records), fa_unavailable = int (length (filter (\<lambda>r. \<not> is_forecast r) records)),
           fa_one_step = one, fa_frozen = frozen, fa_cumulative = cumulative, fa_monthly = monthly, fa_sensitivity = sensitivity\<rparr>)))))))"

section \<open>One-step checks of a posterior\<close>

definition residual_statistics :: "scipy \<Rightarrow> vec \<Rightarrow> vec" where
  "residual_statistics sp rs = [sp_std sp rs, np_min rs, if spread rs then sp_acf sp rs 1 ! 1 else Fin 0]"

definition pit_edges :: vec where "pit_edges = map (\<lambda>i. fmul (Fin (of_nat i)) (fl (1 / 10))) [0..<10] @ [Fin 1]"

definition check_posterior :: "numpy \<Rightarrow> scipy \<Rightarrow> posterior \<Rightarrow> vec \<Rightarrow> vec \<Rightarrow> json res" where
  "check_posterior np sp p previous_rates observed_rates =
     bnd (validate_rates previous_rates) (\<lambda>previous. bnd (validate_rates observed_rates) (\<lambda>observed.
     bnd (guard (length previous \<noteq> length observed \<or> length observed < 3)
            (ValueError ''at least three matched previous/observed pairs required'')) (\<lambda>_.
     bnd (predict np p previous) (\<lambda>(df, location, scale).
     let xs = zip observed (map2 (\<lambda>l s. (df, l, s)) location scale); rs = map (\<lambda>x. fmul (residual x) (Fin 10000)) xs in
     Inr (JDict [(''rows'', JInt (int (length observed))), (''coverage'', coverage_json sp xs),
       (''mean_log_predictive_density_fraction_units'', density_json sp xs),
       (''residual_statistics'', JDict (zip [''std_bps'', ''minimum_bps'', ''lag1_acf''] (map JNum (residual_statistics sp rs)))),
       (''residual_acf'', acf_json sp rs), (''pit_bin_edges'', jnums pit_edges), (''pit_counts'', pit_json sp xs),
       (''negative_tail'', tail_json sp xs),
       (''caveat'', JStr (''one-step conditional diagnostics; correlated observations, '' @ ''exploratory checks; no profitability implication''))])))))"

section \<open>Forecasts precede observations\<close>

text \<open>C33: A forecast is made before the settlement it is compared with: the records up to and including that of any settlement are the same whatever rate and cadence that settlement brings and whatever rows follow it.\<close>

theorem forecasts_precede_observations:
  "prefix (fst (forecast_stream np dr sp (past @ [row\<lparr>st_rate := r, st_hours := h\<rparr>]) study_start study_end cfg prior))
     (fst (forecast_stream np dr sp (past @ row # rest) study_start study_end cfg prior))"
proof -
  have "prefix (fst (stream np dr sp cfg start stop seen m frozen (past @ [row\<lparr>st_rate := r, st_hours := h\<rparr>])))
      (fst (stream np dr sp cfg start stop seen m frozen (past @ row # rest)))" for start stop seen m frozen
  proof (induction past arbitrary: seen m frozen)
    case Nil
    then show ?case by (cases seen) (auto simp: Let_def split: prod.split sum.split)
  next
    case (Cons a past)
    then show ?case by (auto simp: Let_def split: prod.split sum.split) (metis fst_conv)
  qed
  then show ?thesis by (simp add: forecast_stream_def split: sum.split)
qed

section \<open>Scores count every record\<close>

lemma tally_step:
  assumes "tally_cumulative sp rows horizon c r = Inr c'"
  shows "int (length (ct_actual c')) + ct_incomplete c' + ct_cadence c' + ct_unavailable c'
    = int (length (ct_actual c)) + ct_incomplete c + ct_cadence c + ct_unavailable c + 1"
    and "\<exists>new. ct_actual c' = ct_actual c @ new
      \<and> (\<forall>v \<in> set new. \<exists>i. i + nat horizon \<le> length rows \<and> st_time (rows ! i) = fd_time r \<and> v = sp_sum sp (map st_rate (take (nat horizon) (drop i rows))))"
proof -
  have found: "i < length rows \<and> st_time (rows ! i) = t" if "position_of rows t = Inr i" for t i
    using that by (auto simp: position_of_def find_Some_iff rev_nth split: option.splits)
  show "int (length (ct_actual c')) + ct_incomplete c' + ct_cadence c' + ct_unavailable c'
    = int (length (ct_actual c)) + ct_incomplete c + ct_cadence c + ct_unavailable c + 1"
    using assms by (auto simp: tally_cumulative_def res_simps Let_def split: forecast_record.splits if_splits)
  show "\<exists>new. ct_actual c' = ct_actual c @ new
      \<and> (\<forall>v \<in> set new. \<exists>i. i + nat horizon \<le> length rows \<and> st_time (rows ! i) = fd_time r \<and> v = sp_sum sp (map st_rate (take (nat horizon) (drop i rows))))"
  proof (cases r)
    case (Unavailable t reason)
    then have "ct_actual c' = ct_actual c" using assms by (auto simp: tally_cumulative_def)
    then show ?thesis by simp
  next
    case (Forecasted t f)
    then obtain i where i: "position_of rows t = Inr i"
      using assms by (auto simp: tally_cumulative_def res_simps)
    let ?v = "sp_sum sp (map st_rate (take (nat horizon) (drop i rows)))"
    have "ct_actual c' = ct_actual c \<or> ct_actual c' = ct_actual c @ [?v] \<and> int i + horizon \<le> int (length rows)"
      using assms Forecasted i
      by (cases "int (length rows) < int i + horizon") (auto simp: tally_cumulative_def res_simps Let_def split: if_splits)
    then show ?thesis
    proof
      assume "ct_actual c' = ct_actual c @ [?v] \<and> int i + horizon \<le> int (length rows)"
      moreover from this have "i + nat horizon \<le> length rows" using found [OF i] by linarith
      ultimately show ?thesis using found [OF i] Forecasted by (intro exI [of _ "[?v]"]) auto
    qed simp
  qed
qed

text \<open>Every record of a cumulative score is scored or excluded for exactly one reason, and a scored value is the sum of a full horizon of observed settlements from the forecast on.\<close>

lemma cumulative_scores_are_complete:
  assumes "fold_res (tally_cumulative sp rows horizon) no_cumulative records = Inr c"
  shows "int (length (ct_actual c)) + ct_incomplete c + ct_cadence c + ct_unavailable c = int (length records)"
    and "\<forall>v \<in> set (ct_actual c). \<exists>r \<in> set records. \<exists>i. i + nat horizon \<le> length rows \<and> st_time (rows ! i) = fd_time r
      \<and> v = sp_sum sp (map st_rate (take (nat horizon) (drop i rows)))"
proof -
  have "int (length (ct_actual c)) + ct_incomplete c + ct_cadence c + ct_unavailable c
      = int (length (ct_actual c0)) + ct_incomplete c0 + ct_cadence c0 + ct_unavailable c0 + int (length records)"
    if "fold_res (tally_cumulative sp rows horizon) c0 records = Inr c" for c0
    using that by (induction records arbitrary: c0) (auto simp: res_simps dest!: tally_step(1))
  from this [OF assms] show "int (length (ct_actual c)) + ct_incomplete c + ct_cadence c + ct_unavailable c = int (length records)"
    by (simp add: no_cumulative_def)
  let ?P = "\<lambda>c. \<forall>v \<in> set (ct_actual c). \<exists>r \<in> set records. \<exists>i. i + nat horizon \<le> length rows \<and> st_time (rows ! i) = fd_time r
      \<and> v = sp_sum sp (map st_rate (take (nat horizon) (drop i rows)))"
  show "?P c"
  proof (rule fold_res_invariant [where P = ?P, OF _ _ assms])
    show "?P no_cumulative" by (simp add: no_cumulative_def)
    show "?P c2" if "?P c1" "r \<in> set records" "tally_cumulative sp rows horizon c1 r = Inr c2" for c1 r c2
      using tally_step(2) [OF that(3)] that(1,2) by fastforce
  qed
qed

end
