(* ===== verification/BookProps.thy ===== *)
theory BookProps
  imports Book
begin

text \<open>
  What an ingest leaves behind: a failed one no partition at all, a successful one the rows of the
  whole file, all of its day, opening with a snapshot, and a report whose counts are those of the
  stored rows, however the file was cut into chunks.
\<close>

section \<open>Counting\<close>

lemma rises_Nil [simp]: "rises b [] = 0"
  by (simp add: rises_def)

lemma rises_Cons [simp]: "rises b (x # xs) = (if x \<and> \<not> b then 1 else 0) + rises x xs"
  by (simp add: rises_def)

lemma rises_append: "rises b (xs @ ys) = rises b xs + rises (last (b # xs)) ys"
  by (induction xs arbitrary: b) auto

lemma trues_append [simp]: "trues (xs @ ys) = trues xs + trues ys"
  by (simp add: trues_def)

lemma zeros_append [simp]: "zeros (xs @ ys) = zeros xs + zeros ys"
  by (simp add: zeros_def)

lemma opening_append:
  "length (takeWhile id (xs @ ys)) = length (takeWhile id xs) + (if list_all id xs then length (takeWhile id ys) else 0)"
  by (induction xs) (simp_all add: id_def)

section \<open>Row groups\<close>

text \<open>A nonempty frame of the book schema: its snapshot flags and quantities, on one day.\<close>

definition book_rows :: "int \<Rightarrow> frame \<Rightarrow> bool list \<Rightarrow> pynum list \<Rightarrow> bool" where
  "book_rows date f flags qs \<longleftrightarrow> frame_ok f \<and> 0 < nrows f \<and>
     (\<exists>ex ts lo la si pr. (\<forall>t \<in> set ts. date_of_ms t = iso_text date)
        \<and> columns f = [(''exchange'', SCol ex), (''timestamp'', ICol ts), (''local_timestamp'', ICol lo), (''latency_us'', ICol la),
            (''is_snapshot'', BCol flags), (''side'', SCol si), (''price'', FCol pr), (''quantity'', FCol qs)])"

lemma book_rows_append:
  "book_rows date f flags qs \<Longrightarrow> book_rows date g flags' qs' \<Longrightarrow> book_rows date (frame_append f g) (flags @ flags') (qs @ qs')"
  by (auto simp: book_rows_def frame_append_def frame_ok_def)

lemma book_rows_len: "book_rows date f flags qs \<Longrightarrow> length flags = nrows f \<and> length qs = nrows f"
  by (auto simp: book_rows_def frame_ok_def)

lemma book_rows_get:
  "book_rows date f flags qs \<Longrightarrow> get_bools f ''is_snapshot'' = Inr flags \<and> get_nums f ''quantity'' = Inr qs
     \<and> (\<exists>ts. get_ints f ''timestamp'' = Inr ts \<and> (\<forall>t \<in> set ts. date_of_ms t = iso_text date))"
  by (auto simp: book_rows_def res_simps)

lemma row_groups_snoc: "ws \<noteq> [] \<Longrightarrow> row_groups (ws @ [f]) = frame_append (row_groups ws) f"
  by (cases ws) (simp_all add: row_groups_def)

lemma texts_len: "frame_ok f \<Longrightarrow> get_texts f k = Inr xs \<Longrightarrow> length xs = nrows f"
  using frame_ok_len [of f k "SCol xs"] by (simp add: res_simps)

lemma normalised_rows:
  assumes "source_ok (vd_source vd)" and "frame_ok raw" and "normalise_book vd raw symbol (OnDate date) = Inr f" and "\<not> frame_empty f"
  obtains flags qs where "book_rows date f flags qs"
proof -
  have cols: "source_columns \<subseteq> set (col_names raw)" using assms(3) by (simp add: normalise_book_def bnd_eq_Inr res_simps)
  have ne: "\<not> frame_empty raw"
  proof
    assume "frame_empty raw"
    then have "f = book_frame [] [] [] [] [] [] [] 0" using assms(3) cols by (simp add: normalise_book_def)
    then show False using assms(4) by (simp add: frame_empty_def book_frame_def)
  qed
  obtain ex us lo fl si pr qu where len: "bnd (get_col raw ''timestamp'') (as_int64 (vd_source vd)) = Inr us"
      "bnd (get_col raw ''local_timestamp'') (as_int64 (vd_source vd)) = Inr lo"
      "bnd (get_col raw ''price'') (as_float64 (vd_source vd)) = Inr pr" "bnd (get_col raw ''amount'') (as_float64 (vd_source vd)) = Inr qu"
    and ex: "get_texts raw ''exchange'' = Inr ex" and si: "get_texts raw ''side'' = Inr si"
    and fl: "bnd (get_col raw ''is_snapshot'') (truths (BookDataError ''unparseable is_snapshot values'')) = Inr fl"
    and day: "check_day (map (\<lambda>t. t div 1000) us) (OnDate date) = Inr ()"
    and f: "f = book_frame (map (map_option strip) ex) us lo fl (map (map_option (map lower \<circ> strip)) si) pr qu (nrows raw)"
    using assms(3) ne unfolding normalise_book_def stamps_of_def by (auto simp: bnd_eq_Inr Let_def)
  have "length us = nrows raw" "length lo = nrows raw" "length pr = nrows raw" "length qu = nrows raw"
    using converted_ints [OF assms(1,2)] converted_floats [OF assms(1,2)] len by blast+
  moreover have "length ex = nrows raw" "length si = nrows raw"
    using texts_len [OF assms(2)] ex si by blast+
  moreover have "length fl = nrows raw"
    using fl assms(2) by (auto simp: res_simps dest!: map_truths_length frame_ok_len)
  moreover have "0 < nrows raw" using ne assms(4) by (auto simp: frame_empty_def)
  ultimately have "book_rows date f fl qu"
    using day by (auto simp: book_rows_def f book_frame_def frame_ok_def check_day_def res_simps list_ex_iff)
  then show thesis by (rule that)
qed

section \<open>The counts of a file\<close>

definition counted :: "int \<Rightarrow> tally \<Rightarrow> bool" where
  "counted date t \<longleftrightarrow> (if written t = [] then t = no_tally else
     (\<exists>flags qs. book_rows date (row_groups (written t)) flags qs \<and> hd flags \<and> t_rows t = nrows (row_groups (written t))
        \<and> t_snapshot t = trues flags \<and> t_resyncs t = rises True flags \<and> t_opening t = length (takeWhile id flags)
        \<and> t_removals t = zeros qs \<and> seen_diff t = (\<not> list_all id flags) \<and> last_snapshot t = last flags
        \<and> t_chunks t = length (written t)))"

lemma counted_start: "counted date no_tally"
  by (simp add: counted_def no_tally_def)

lemma counted_diff:
  assumes "counted date t" and rows: "book_rows date f flags qs" and c: "count_diff t f = Inr t'"
  shows "counted date t'"
proof -
  have t': "t' = t\<lparr>t_rows := t_rows t + nrows f, t_chunks := t_chunks t + 1, t_snapshot := t_snapshot t + trues flags,
       t_resyncs := t_resyncs t + rises (last_snapshot t) flags,
       t_opening := t_opening t + (if seen_diff t then 0 else length (takeWhile id flags)),
       t_removals := t_removals t + zeros qs, seen_diff := seen_diff t \<or> \<not> list_all id flags,
       last_snapshot := last flags, written := written t @ [f]\<rparr>"
    and opens: "t_chunks t = 0 \<Longrightarrow> hd flags"
    using c book_rows_get [OF rows] by (auto simp: count_diff_def res_simps)
  have ne: "flags \<noteq> []" using book_rows_len [OF rows] rows by (auto simp: book_rows_def)
  show ?thesis
  proof (cases "written t = []")
    case True
    then have "t = no_tally" using assms(1) by (simp add: counted_def)
    then show ?thesis using rows opens by (auto simp: counted_def t' no_tally_def row_groups_def)
  next
    case False
    then obtain fl q where old: "book_rows date (row_groups (written t)) fl q" "hd fl" "t_rows t = nrows (row_groups (written t))"
        "t_snapshot t = trues fl" "t_resyncs t = rises True fl" "t_opening t = length (takeWhile id fl)"
        "t_removals t = zeros q" "seen_diff t = (\<not> list_all id fl)" "last_snapshot t = last fl" "t_chunks t = length (written t)"
      using assms(1) by (auto simp: counted_def)
    have fl: "fl \<noteq> []" using book_rows_len [OF old(1)] old(1) by (auto simp: book_rows_def)
    have "book_rows date (row_groups (written t')) (fl @ flags) (q @ qs)"
      using book_rows_append [OF old(1) rows] False by (simp add: t' row_groups_snoc)
    moreover have "nrows (row_groups (written t')) = nrows (row_groups (written t)) + nrows f"
      using False by (simp add: t' row_groups_snoc frame_append_def)
    ultimately show ?thesis
      using old fl ne by (auto simp: counted_def t' rises_append opening_append intro!: exI [of _ "fl @ flags"] exI [of _ "q @ qs"])
  qed
qed

lemma counted_chunk:
  assumes "source_ok (vd_source vd)" and "counted date t" and "frame_ok chunk"
    and "ingest_chunk vd incremental_book symbol date t chunk = Inr t'"
  shows "counted date t'"
proof -
  obtain f where f: "normalise_book vd chunk symbol (OnDate date) = Inr f" and t': "(if frame_empty f then Inr t else count_diff t f) = Inr t'"
    using assms(4) by (auto simp: ingest_chunk_def res_simps)
  show ?thesis
  proof (cases "frame_empty f")
    case True
    then show ?thesis using t' assms(2) by simp
  next
    case False
    then obtain flags qs where "book_rows date f flags qs" using normalised_rows [OF assms(1,3) f] by blast
    then show ?thesis using counted_diff assms(2) t' False by auto
  qed
qed

lemma counted_file:
  assumes "source_ok (vd_source vd)" and "list_all frame_ok chunks" and "counted date t"
    and "fold_res (ingest_chunk vd incremental_book symbol date) t chunks = Inr t'"
  shows "counted date t'"
  using assms(2-4)
  by (induction chunks arbitrary: t) (auto simp: res_simps dest: counted_chunk [OF assms(1)])

text \<open>C27: An ingest of the incremental feed touches one partition only. A failed ingest leaves that partition absent. A successful one stores rows of the requested day only, the first of them a snapshot row, and its report counts those rows: all of them, the snapshot rows, the snapshot blocks after a difference and their rows, and the removals, whatever the chunks were.\<close>

theorem ingest_counts_the_partition:
  assumes "source_ok (vd_source vd)" and "list_all frame_ok (fst (csv_chunks vd content n))"
    and "ingest vd (Inr content) symbol date incremental_book n st = (st', r)"
    and "p = book_partition incremental_book symbol (OnDate date)"
  shows "(\<forall>q. q \<noteq> p \<longrightarrow> st' q = st q)
    \<and> (case r of Inl e \<Rightarrow> st' p = None
       | Inr rp \<Rightarrow> \<exists>f flags qs ts. st' p = Some f \<and> frame_ok f \<and> 0 < nrows f
           \<and> get_bools f ''is_snapshot'' = Inr flags \<and> get_nums f ''quantity'' = Inr qs \<and> get_ints f ''timestamp'' = Inr ts
           \<and> (\<forall>t \<in> set ts. date_of_ms t = iso_text date) \<and> hd flags
           \<and> rp_rows rp = nrows f \<and> rp_snapshot rp = trues flags \<and> rp_resyncs rp = rises True flags
           \<and> rp_resync_rows rp = int (trues flags) - int (length (takeWhile id flags)) \<and> rp_removals rp = zeros qs)"
proof -
  have known: "incremental_book \<in> set tardis_datasets" by (simp add: tardis_datasets_def)
  show ?thesis
  proof (cases "read_all vd content incremental_book symbol date n")
    case (Inl e)
    then show ?thesis using assms(3,4) known by (auto simp: ingest_def Let_def)
  next
    case (Inr t)
    then have "fold_res (ingest_chunk vd incremental_book symbol date) no_tally (fst (csv_chunks vd content n)) = Inr t"
      by (auto simp: read_all_def chunk_size_def res_simps split: prod.splits option.splits)
    then have "counted date t" using counted_file [OF assms(1,2) counted_start] by blast
    show ?thesis
    proof (cases "t_rows t = 0")
      case True
      then show ?thesis using assms(3,4) known Inr by (auto simp: ingest_def Let_def)
    next
      case False
      then have "written t \<noteq> []" using \<open>counted date t\<close> by (auto simp: counted_def no_tally_def)
      then obtain flags qs where c: "book_rows date (row_groups (written t)) flags qs" "hd flags" "t_rows t = nrows (row_groups (written t))"
          "t_snapshot t = trues flags" "t_resyncs t = rises True flags" "t_opening t = length (takeWhile id flags)" "t_removals t = zeros qs"
        using \<open>counted date t\<close> by (auto simp: counted_def)
      obtain ts where "get_ints (row_groups (written t)) ''timestamp'' = Inr ts" "\<forall>t \<in> set ts. date_of_ms t = iso_text date"
        "get_bools (row_groups (written t)) ''is_snapshot'' = Inr flags" "get_nums (row_groups (written t)) ''quantity'' = Inr qs"
        using book_rows_get [OF c(1)] by blast
      moreover have "frame_ok (row_groups (written t))" "0 < nrows (row_groups (written t))" using c(1) by (simp_all add: book_rows_def)
      ultimately show ?thesis using assms(3,4) known Inr False c by (auto simp: ingest_def Let_def)
    qed
  qed
qed

section \<open>Example\<close>

text \<open>A day in two chunks, with a second snapshot block that opens the second chunk.\<close>

definition texts :: "string list \<Rightarrow> column" where "texts xs = SCol (map Some xs)"

definition sample_chunk :: "string list \<Rightarrow> string list \<Rightarrow> string list \<Rightarrow> frame" where
  "sample_chunk stamps flags amounts =
     (let n = length stamps in
      \<lparr>nrows = n, columns = [(''exchange'', texts (replicate n ''binance-futures'')), (''symbol'', texts (replicate n ''BTCUSDT'')),
         (''timestamp'', texts stamps), (''local_timestamp'', texts stamps), (''is_snapshot'', texts flags),
         (''side'', texts (replicate n ''bid'')), (''price'', texts (replicate n ''7'')), (''amount'', texts amounts)]\<rparr>)"

definition cell_int :: "string option \<Rightarrow> int" where
  "cell_int c = (case c of Some s \<Rightarrow> digits_val s | None \<Rightarrow> 0)"

definition sample_vendor :: vendor where
  "sample_vendor =
     \<lparr>vd_source = \<lparr>checksum_at = \<lambda>_. Inr None, fetch_to = \<lambda>_ _. Inr [], read_text = \<lambda>_. Inl (KeyError []),
        read_named = \<lambda>_ _. Inl (KeyError []),
        as_int64 = \<lambda>c. (case c of SCol xs \<Rightarrow> Inr (map cell_int xs) | _ \<Rightarrow> Inl (TypeError ''text expected'')),
        as_float64 = \<lambda>c. (case c of SCol xs \<Rightarrow> Inr (map (\<lambda>x. Fin (of_int (cell_int x))) xs) | _ \<Rightarrow> Inl (TypeError ''text expected''))\<rparr>,
      to_numeric = \<lambda>_. [],
      csv_chunks = \<lambda>_ _. ([sample_chunk [''1000'', ''2000'', ''3000''] [''true'', ''true'', ''false''] [''5'', ''0'', ''2''],
                            sample_chunk [''3000'', ''4000''] [''True'', ''false''] [''1'', ''0'']], None)\<rparr>"

definition sample_ingest :: "store \<times> ingest_report res" where
  "sample_ingest = ingest sample_vendor (Inr ''bytes'') ''BTCUSDT'' 719163 incremental_book 3 (\<lambda>_. None)"

definition first_chunk :: frame where
  "first_chunk = sample_chunk [''1000'', ''2000'', ''3000''] [''true'', ''true'', ''false''] [''5'', ''0'', ''2'']"

definition second_chunk :: frame where
  "second_chunk = sample_chunk [''3000'', ''4000''] [''True'', ''false''] [''1'', ''0'']"

lemma sample_texts:
  "cell_int (Some ''1000'') = 1000" "cell_int (Some ''2000'') = 2000" "cell_int (Some ''3000'') = 3000" "cell_int (Some ''4000'') = 4000"
  "cell_int (Some ''0'') = 0" "cell_int (Some ''1'') = 1" "cell_int (Some ''2'') = 2" "cell_int (Some ''5'') = 5" "cell_int (Some ''7'') = 7"
  by code_simp+

lemma sample_strips:
  "truth_text (Some ''true'') = Some True" "truth_text (Some ''True'') = Some True" "truth_text (Some ''false'') = Some False"
  "strip ''BTCUSDT'' = ''BTCUSDT''" "strip ''binance-futures'' = ''binance-futures''" "map lower (strip ''bid'') = ''bid''"
  by code_simp+

lemma sample_date: "iso_text 719163 = ''1970-01-01''"
  by code_simp

lemma sample_day: "0 \<le> t \<Longrightarrow> t < day_ms \<Longrightarrow> date_of_ms t = iso_text 719163"
  by (simp add: date_of_ms_def day_of_ms_def epoch_ord_def)

lemmas sample_eval = normalise_book_def sample_chunk_def texts_def sample_vendor_def source_columns_def col_names_def frame_empty_def
  check_symbol_def stamps_of_def check_day_def get_texts_def get_col_def truths_def sample_texts sample_strips valid_sides_def Let_def
  sample_day day_ms_def

definition sample_rows :: "int list \<Rightarrow> bool list \<Rightarrow> int list \<Rightarrow> frame" where
  "sample_rows us flags qs =
     (let n = length us in
      book_frame (replicate n (Some ''binance-futures'')) us us flags (replicate n (Some ''bid'')) (replicate n (Fin 7)) (map (\<lambda>q. Fin (of_int q)) qs) n)"

lemma sample_first: "normalise_book sample_vendor first_chunk ''BTCUSDT'' (OnDate 719163) = Inr (sample_rows [1000, 2000, 3000] [True, True, False] [5, 0, 2])"
  by (simp add: first_chunk_def sample_rows_def sample_eval)

lemma sample_second: "normalise_book sample_vendor second_chunk ''BTCUSDT'' (OnDate 719163) = Inr (sample_rows [3000, 4000] [True, False] [1, 0])"
  by (simp add: second_chunk_def sample_rows_def sample_eval)

lemma sample_report:
  "sample_ingest = (\<lambda>p. if p = book_partition incremental_book ''BTCUSDT'' (OnDate 719163)
       then Some (sample_rows [1000, 2000, 3000, 3000, 4000] [True, True, False, True, False] [5, 0, 2, 1, 0]) else None,
     Inr \<lparr>rp_symbol = ''BTCUSDT'', rp_date = ''1970-01-01'', rp_dataset = incremental_book, rp_rows = 5, rp_chunks = 2,
     rp_snapshot = 3, rp_resyncs = 1, rp_resync_rows = 1, rp_removals = 2,
     rp_path = book_partition incremental_book ''BTCUSDT'' (OnDate 719163) @ [''part-0.parquet'']\<rparr>)"
proof -
  have "csv_chunks sample_vendor ''bytes'' 3 = ([first_chunk, second_chunk], None)"
    by (simp add: sample_vendor_def first_chunk_def second_chunk_def)
  then show ?thesis
    by (simp add: sample_ingest_def ingest_def tardis_datasets_def Let_def read_all_def chunk_size_def ingest_chunk_def
        sample_first sample_second sample_rows_def book_frame_def frame_empty_def count_diff_def get_bools_def get_nums_def get_col_def
        no_tally_def trues_def rises_def zeros_def row_groups_def frame_append_def sample_date fun_eq_iff)
qed

theorem ingest_counts_the_partition_witness:
  "\<exists>st' rp f flags. sample_ingest = (st', Inr rp) \<and> st' (book_partition incremental_book ''BTCUSDT'' (OnDate 719163)) = Some f
     \<and> get_bools f ''is_snapshot'' = Inr flags \<and> rp_resyncs rp = 1 \<and> rises True flags = 1 \<and> hd flags"
proof -
  have src: "source_ok (vd_source sample_vendor)"
    by (auto simp: source_ok_def sample_vendor_def split: column.split_asm)
  have chunks: "list_all frame_ok (fst (csv_chunks sample_vendor ''bytes'' 3))"
    by (simp add: sample_vendor_def sample_chunk_def Let_def texts_def frame_ok_def)
  obtain st' r where run: "sample_ingest = (st', r)" by (cases sample_ingest)
  obtain rp where "snd sample_ingest = Inr rp" "rp_resyncs rp = 1" unfolding sample_report by (simp del: One_nat_def)
  moreover have "snd sample_ingest = r" unfolding run by simp
  ultimately have r: "r = Inr rp" "rp_resyncs rp = 1" by simp_all
  from ingest_counts_the_partition [OF src chunks run [unfolded sample_ingest_def] refl] r
  obtain f flags where "st' (book_partition incremental_book ''BTCUSDT'' (OnDate 719163)) = Some f"
    "get_bools f ''is_snapshot'' = Inr flags" "hd flags" "rp_resyncs rp = rises True flags" by auto
  then show ?thesis using run r by auto
qed

end
