(* ===== verification/DecArith.thy ===== *)
theory DecArith
  imports DecText Rounding
begin

text \<open>
  Nonnegative decimals in a context of 60 digits with their representation, as
  \<open>models/bar_volume.py\<close> adds and divides them before it writes them out: the exponent of a result
  decides how many digits its text has. The arithmetic of coefficients and exponents is the one of
  Python's \<open>decimal\<close>; its values are those of the exact operation, rounded once.
\<close>

section \<open>Coefficients and exponents\<close>

type_synonym coex = "nat \<times> int" \<comment> \<open>coefficient and exponent\<close>

definition coex_val :: "coex \<Rightarrow> rat" where
  "coex_val x = of_nat (fst x) * 10 powi snd x"

definition dec_digits :: "nat \<Rightarrow> nat" where
  "dec_digits c = length (nat_text c)"

text \<open>\<open>_fix\<close>: at most 60 digits, half to even; a carry over all digits moves the exponent.\<close>

definition dec_fix :: "coex \<Rightarrow> coex" where
  "dec_fix x =
     (case x of (c, e) \<Rightarrow>
        if dec_digits c \<le> 60 then (c, e)
        else let k = dec_digits c - 60; q = nat (round_even (of_nat c / 10 ^ k))
             in if q = 10 ^ 60 then (10 ^ 59, e + int k + 1) else (q, e + int k))"

definition dec_add :: "coex \<Rightarrow> coex \<Rightarrow> coex" where
  "dec_add x y =
     (let e = min (snd x) (snd y)
      in dec_fix (fst x * 10 ^ nat (snd x - e) + fst y * 10 ^ nat (snd y - e), e))"

text \<open>An exact quotient gives up trailing zeros until it reaches the ideal exponent.\<close>

function strip_zeros :: "nat \<Rightarrow> int \<Rightarrow> int \<Rightarrow> coex" where
  "strip_zeros c e ideal = (if e < ideal \<and> c mod 10 = 0 then strip_zeros (c div 10) (e + 1) ideal else (c, e))"
  by pat_completeness auto
termination
  by (relation "measure (\<lambda>(c, e, ideal). nat (ideal - e))") auto

declare strip_zeros.simps [simp del]

text \<open>Division keeps 61 digits or more, and a last digit that is never 0 or 5 when something is left over.\<close>

definition dec_div :: "coex \<Rightarrow> coex \<Rightarrow> coex" where
  "dec_div x y =
     (let ideal = snd x - snd y in
      if fst x = 0 then dec_fix (0, ideal)
      else let shift = int (dec_digits (fst y)) - int (dec_digits (fst x)) + 61;
               e = ideal - shift;
               n = if 0 \<le> shift then fst x * 10 ^ nat shift else fst x;
               d = if 0 \<le> shift then fst y else fst y * 10 ^ nat (- shift);
               q = n div d
           in if n mod d \<noteq> 0 then dec_fix (if q mod 5 = 0 then q + 1 else q, e)
              else dec_fix (strip_zeros q e ideal))"

section \<open>Values\<close>

lemma coefficient_bounds:
  assumes "0 < c"
  shows "10 ^ (dec_digits c - 1) \<le> c" and "c < 10 ^ dec_digits c"
proof -
  have "10 ^ (dec_digits c - 1) \<le> c \<and> c < 10 ^ dec_digits c" using assms
  proof (induction c rule: less_induct)
    case (less c)
    show ?case
    proof (cases "c < 10")
      case True
      then show ?thesis using less.prems by (simp add: dec_digits_def nat_text.simps [of c])
    next
      case False
      then have IH: "10 ^ (dec_digits (c div 10) - 1) \<le> c div 10 \<and> c div 10 < 10 ^ dec_digits (c div 10)"
        by (intro less.IH) auto
      have d: "dec_digits c = Suc (dec_digits (c div 10))"
        using False by (simp add: dec_digits_def nat_text.simps [of c])
      have pos: "0 < dec_digits (c div 10)" by (simp add: dec_digits_def)
      have "10 * 10 ^ (dec_digits (c div 10) - 1) \<le> 10 * (c div 10)" using IH by simp
      then have "10 ^ dec_digits (c div 10) \<le> c" using pos by (cases "dec_digits (c div 10)") auto
      moreover have "c < 10 * 10 ^ dec_digits (c div 10)" using IH by linarith
      ultimately show ?thesis by (simp add: d)
    qed
  qed
  then show "10 ^ (dec_digits c - 1) \<le> c" and "c < 10 ^ dec_digits c" by auto
qed

lemma coex_val_nonneg [simp]: "0 \<le> coex_val x"
  by (simp add: coex_val_def)

lemma coex_val_pos: "0 < coex_val x \<longleftrightarrow> 0 < fst x"
  by (simp add: coex_val_def zero_less_mult_iff)

text \<open>A positive rational between two powers of ten has the lower exponent.\<close>

lemma ilog_eqI:
  assumes "10 powi k \<le> x" and "x < 10 powi (k + 1)"
  shows "ilog 10 x = k"
proof -
  have x: "0 < x" using assms(1) by (meson less_le_trans zero_less_power_int zero_less_numeral)
  have b: "(10 :: rat) powi ilog 10 x \<le> x" "x < 10 powi (ilog 10 x + 1)"
    using ilog_bounds [of 10 x] x by auto
  have "(10 :: rat) powi ilog 10 x < 10 powi (k + 1)" using b(1) assms(2) by (rule le_less_trans)
  then have "ilog 10 x < k + 1" by (meson not_le power_int_increasing one_le_numeral)
  moreover have "(10 :: rat) powi k < 10 powi (ilog 10 x + 1)" using assms(1) b(2) by (rule le_less_trans)
  then have "k < ilog 10 x + 1" by (meson not_le power_int_increasing one_le_numeral)
  ultimately show ?thesis by simp
qed

lemma ilog_coex:
  assumes "0 < c"
  shows "ilog 10 (coex_val (c, e)) = int (dec_digits c) - 1 + e"
proof (rule ilog_eqI)
  have pos: "0 < dec_digits c" by (simp add: dec_digits_def)
  have "(of_nat (10 ^ (dec_digits c - 1)) :: rat) \<le> of_nat c" using coefficient_bounds(1) [OF assms] of_nat_le_iff by blast
  then have "(10 :: rat) powi int (dec_digits c - 1) * 10 powi e \<le> of_nat c * 10 powi e"
    by (intro mult_right_mono) auto
  then show "10 powi (int (dec_digits c) - 1 + e) \<le> coex_val (c, e)"
    using pos by (simp add: coex_val_def of_nat_diff flip: power_int_add)
  have "(of_nat c :: rat) < of_nat (10 ^ dec_digits c)" using coefficient_bounds(2) [OF assms] of_nat_less_iff by blast
  then have "of_nat c * 10 powi e < (10 :: rat) powi int (dec_digits c) * 10 powi e"
    by (intro mult_strict_right_mono) auto
  then have "of_nat c * 10 powi e < (10 :: rat) powi (int (dec_digits c) + e)"
    by (subst power_int_add) auto
  then show "coex_val (c, e) < 10 powi (int (dec_digits c) - 1 + e + 1)"
    by (simp add: coex_val_def)
qed

lemma carry_value: "coex_val (10 ^ 59, e + 1) = of_nat (10 ^ 60) * 10 powi e"
  by (simp add: coex_val_def power_int_add)

lemma round_even_nonneg: "0 \<le> x \<Longrightarrow> 0 \<le> round_even x"
  using round_even_bounds(2) [of x] by linarith

text \<open>The context rounds the value of a representation once.\<close>

theorem dec_fix_value: "coex_val (dec_fix x) = d60 (coex_val x)"
proof -
  obtain c e where x: "x = (c, e)" by (cases x)
  show ?thesis
  proof (cases "dec_digits c \<le> 60")
    case True
    have "c < 10 ^ 60"
    proof (cases "c = 0")
      case False
      have "(10 :: nat) ^ dec_digits c \<le> 10 ^ 60" using True by (intro power_increasing) auto
      then show ?thesis using coefficient_bounds(2) [of c] False by linarith
    qed simp
    then have "int c < 10 ^ 60" by simp
    then have "dround 60 (coex_val (c, e)) = coex_val (c, e)"
      by (intro ctx60.dround_exact [of _ "int c" e]) (auto simp: coex_val_def)
    then show ?thesis using True by (simp add: x dec_fix_def d60_def)
  next
    case False
    let ?k = "dec_digits c - 60"
    have c: "0 < c" using False by (cases "c = 0") (auto simp: dec_digits_def nat_text.simps [of 0])
    let ?u = "(10 :: rat) powi (e + int ?k)"
    have u: "(of_nat 10 :: rat) powi (ilog 10 \<bar>coex_val (c, e)\<bar> - (int 60 - 1)) = ?u"
    proof -
      have "ilog 10 (coex_val (c, e)) - 59 = e + int ?k" using ilog_coex [OF c, of e] False by (simp add: of_nat_diff)
      then show ?thesis by simp
    qed
    have quot: "coex_val (c, e) / ?u = of_nat c / 10 ^ ?k"
      by (simp add: coex_val_def power_int_add field_simps)
    have "0 \<le> round_even (of_nat c / 10 ^ ?k :: rat)" by (rule round_even_nonneg) simp
    then have r: "of_int (round_even (of_nat c / 10 ^ ?k :: rat)) = (of_nat (nat (round_even (of_nat c / 10 ^ ?k :: rat))) :: rat)"
      by simp
    have nz: "coex_val (c, e) \<noteq> 0" using c by (simp add: coex_val_def)
    have "d60 (coex_val (c, e)) = of_nat (nat (round_even (of_nat c / 10 ^ ?k :: rat))) * ?u"
      using nz unfolding d60_def dround_def round_grid_def Let_def u quot r by simp
    moreover have "coex_val (dec_fix (c, e)) = of_nat (nat (round_even (of_nat c / 10 ^ ?k :: rat))) * ?u"
      using False carry_value [of "e + int ?k"] by (simp add: dec_fix_def Let_def coex_val_def)
    ultimately show ?thesis by (simp add: x)
  qed
qed

theorem dec_add_value: "coex_val (dec_add x y) = d60 (coex_val x + coex_val y)"
proof -
  let ?e = "min (snd x) (snd y)"
  have shift: "of_nat (fst z * 10 ^ nat (snd z - ?e)) * 10 powi ?e = coex_val z" if "?e \<le> snd z" for z
  proof -
    have "(10 :: rat) ^ nat (snd z - ?e) = 10 powi (snd z - ?e)" using that by (simp add: power_int_def)
    then show ?thesis by (simp add: coex_val_def mult.assoc flip: power_int_add)
  qed
  have "coex_val (fst x * 10 ^ nat (snd x - ?e) + fst y * 10 ^ nat (snd y - ?e), ?e) = coex_val x + coex_val y"
    using shift [of x] shift [of y] by (simp add: coex_val_def [of "(_, _)"] distrib_right)
  then show ?thesis by (simp add: dec_add_def Let_def dec_fix_value)
qed

text \<open>Rounding to even is constant strictly between two neighbouring halves.\<close>

lemma round_even_between:
  assumes "of_int i / 2 < x" and "x < (of_int i + 1) / 2"
  shows "round_even x = (i + 1) div 2"
proof (cases "even i")
  case True
  then obtain a where i: "i = 2 * a" by (elim evenE)
  have f: "\<lfloor>x\<rfloor> = a" using assms by (intro floor_unique) (auto simp: i field_simps)
  have "x - of_int a < 1 / 2" using assms(2) by (simp add: i field_simps)
  then show ?thesis by (simp add: round_even_def Let_def f i)
next
  case False
  then obtain a where i: "i = 2 * a + 1" by (elim oddE)
  have f: "\<lfloor>x\<rfloor> = a" using assms by (intro floor_unique) (auto simp: i field_simps)
  have "1 / 2 < x - of_int a" using assms(1) by (simp add: i field_simps)
  then show ?thesis by (simp add: round_even_def Let_def f i)
qed

text \<open>
  The sticky last digit: an integer that is no multiple of five rounds like every rational that lies
  with it between the same multiples of five.
\<close>

lemma round_even_sticky:
  assumes "0 < k"
    and "of_nat (5 * j) < x" "x < of_nat (5 * j + 5)"
    and "of_nat (5 * j) < y" "y < (of_nat (5 * j + 5) :: rat)"
  shows "round_even (x / 10 ^ k) = round_even (y / 10 ^ k)"
proof -
  let ?B = "5 * 10 ^ (k - 1) :: nat"
  let ?i = "(5 * j) div ?B"
  have k: "(10 :: nat) ^ k = 2 * ?B" using assms(1) by (cases k) auto
  have low: "?i * ?B \<le> 5 * j" by (rule div_times_less_eq_dividend)
  have "5 * j < (?i + 1) * ?B" using dividend_less_div_times [of ?B "5 * j"] by simp
  then have "j < (?i + 1) * 10 ^ (k - 1)" by simp
  then have "j + 1 \<le> (?i + 1) * 10 ^ (k - 1)" by (rule Suc_leI [unfolded Suc_eq_plus1])
  then have high: "5 * j + 5 \<le> (?i + 1) * ?B" by (simp add: algebra_simps)
  have half: "round_even (z / 10 ^ k) = (int ?i + 1) div 2" if z: "of_nat (5 * j) < z" "z < of_nat (5 * j + 5)" for z :: rat
  proof (rule round_even_between)
    have p: "(10 :: rat) ^ k = 2 * of_nat ?B" using k by (metis of_nat_mult of_nat_numeral of_nat_power)
    have B: "(0 :: rat) < of_nat ?B" by simp
    have "(of_nat (?i * ?B) :: rat) \<le> of_nat (5 * j)" using low of_nat_le_iff by blast
    then have "of_nat ?i * of_nat ?B < z" using z(1) unfolding of_nat_mult [of ?i ?B] by (rule le_less_trans)
    then show "of_int (int ?i) / 2 < z / 10 ^ k" using B unfolding p by (simp add: field_simps del: of_nat_mult)
    have "(of_nat (5 * j + 5) :: rat) \<le> of_nat ((?i + 1) * ?B)" using high of_nat_le_iff by blast
    with z(2) have "z < of_nat (?i + 1) * of_nat ?B" unfolding of_nat_mult [of "?i + 1" ?B] by (rule less_le_trans)
    then show "z / 10 ^ k < (of_int (int ?i) + 1) / 2" using B unfolding p by (simp add: field_simps del: of_nat_mult)
  qed
  show ?thesis using half [OF assms(2, 3)] half [OF assms(4, 5)] by simp
qed

lemma strip_zeros_value: "coex_val (strip_zeros c e ideal) = coex_val (c, e)"
proof (induction c e ideal rule: strip_zeros.induct)
  case (1 c e ideal)
  show ?case
  proof (cases "e < ideal \<and> c mod 10 = 0")
    case True
    then have c: "c = 10 * (c div 10)" by auto
    have "coex_val (c div 10, e + 1) = of_nat (10 * (c div 10)) * 10 powi e"
      by (simp add: coex_val_def power_int_add)
    then have "coex_val (c div 10, e + 1) = coex_val (c, e)" using c by (simp add: coex_val_def)
    then show ?thesis using True 1 by (simp add: strip_zeros.simps [of c])
  qed (auto simp: strip_zeros.simps [of c])
qed

text \<open>The scaled operands of a division: their quotient has at least 61 digits and the exact value.\<close>

lemma scaled_quotient:
  assumes x: "0 < fst x" and y: "0 < fst y"
    and shift: "shift = int (dec_digits (fst y)) - int (dec_digits (fst x)) + 61"
    and n: "n = (if 0 \<le> shift then fst x * 10 ^ nat shift else fst x)"
    and d: "d = (if 0 \<le> shift then fst y else fst y * 10 ^ nat (- shift))"
  shows "0 < d" and "10 ^ 60 \<le> n div d"
    and "coex_val x / coex_val y = of_nat n / of_nat d * 10 powi (snd x - snd y - shift)"
proof -
  show d0: "0 < d" using y d by simp
  let ?a = "dec_digits (fst x)" and ?b = "dec_digits (fst y)"
  have a: "10 ^ (?a - 1) \<le> fst x" and b: "fst y < 10 ^ ?b" using coefficient_bounds [of "fst x"] coefficient_bounds [of "fst y"] x y by auto
  have pos: "0 < ?a" by (simp add: dec_digits_def)
  have "10 ^ 60 * d \<le> n"
  proof (cases "0 \<le> shift")
    case True
    have "10 ^ 60 * d \<le> 10 ^ 60 * 10 ^ ?b" using b d True by simp
    also have "\<dots> = 10 ^ (?a - 1) * (10 :: nat) ^ nat shift"
    proof -
      have "60 + ?b = ?a - 1 + nat shift" using True pos shift by linarith
      then show ?thesis by (simp only: power_add [symmetric])
    qed
    also have "\<dots> \<le> n" using a n True by simp
    finally show ?thesis .
  next
    case False
    have "10 ^ 60 * d \<le> 10 ^ 60 * (10 ^ ?b * 10 ^ nat (- shift))" using b d False by simp
    also have "\<dots> = (10 :: nat) ^ (?a - 1)"
    proof -
      have "60 + (?b + nat (- shift)) = ?a - 1" using False pos shift by linarith
      then show ?thesis by (simp only: power_add [symmetric])
    qed
    also have "\<dots> \<le> n" using a n False by simp
    finally show ?thesis .
  qed
  then show "10 ^ 60 \<le> n div d" using d0 by (simp add: less_eq_div_iff_mult_less_eq)
  have "coex_val x / coex_val y = of_nat (fst x) / of_nat (fst y) * 10 powi (snd x - snd y)"
    by (simp add: coex_val_def power_int_diff)
  moreover have "of_nat n / of_nat d * 10 powi (- shift) = (of_nat (fst x) / of_nat (fst y) :: rat)"
    using y by (cases "0 \<le> shift") (simp_all add: n d power_int_def field_simps)
  moreover have "(10 :: rat) powi (snd x - snd y - shift) = 10 powi (snd x - snd y) * 10 powi (- shift)"
    by (simp flip: power_int_add)
  ultimately show "coex_val x / coex_val y = of_nat n / of_nat d * 10 powi (snd x - snd y - shift)"
    by (metis (no_types, opaque_lifting) mult.assoc mult.commute)
qed

text \<open>Rounding the sticky coefficient is rounding the exact quotient.\<close>

lemma sticky_rounds:
  assumes "0 < d" and "n mod d \<noteq> 0" and "10 ^ 60 \<le> n div d"
    and q': "q' = (if n div d mod 5 = 0 then n div d + 1 else n div d)"
  shows "d60 (coex_val (q', e)) = d60 (of_nat n / of_nat d * 10 powi e)"
proof -
  let ?q = "n div d" and ?x = "of_nat n / of_nat d :: rat"
  let ?L = "dec_digits ?q" and ?j = "n div d div 5"
  have split: "n = ?q * d + n mod d" by simp
  have r: "0 < n mod d" "n mod d < d" using assms(1, 2) by auto
  have "(of_nat n :: rat) = of_nat ?q * of_nat d + of_nat (n mod d)" by (metis split of_nat_add of_nat_mult)
  then have x: "?x = of_nat ?q + of_nat (n mod d) / of_nat d" using assms(1) by (simp add: field_simps)
  have frac: "0 < of_nat (n mod d) / (of_nat d :: rat)" "of_nat (n mod d) / (of_nat d :: rat) < 1" using r by auto
  have qj: "?q = 5 * ?j + ?q mod 5" by simp
  have q5: "?q mod 5 < 5" by simp
  have low: "5 * ?j \<le> ?q" "?q + 1 \<le> 5 * ?j + 5" using qj q5 by linarith+
  have q'j: "5 * ?j < q' \<and> q' < 5 * ?j + 5"
  proof (cases "?q mod 5 = 0")
    case True
    then show ?thesis using q' qj by simp
  next
    case False
    then have "q' = ?q" "0 < ?q mod 5" using q' by auto
    then have "5 * ?j < q'" "q' < 5 * ?j + 5" using qj q5 by linarith+
    then show ?thesis by blast
  qed
  have lowr: "of_nat (5 * ?j) \<le> (of_nat ?q :: rat)" "of_nat (?q + 1) \<le> (of_nat (5 * ?j + 5) :: rat)"
    using low of_nat_le_iff by blast+
  have xj: "of_nat (5 * ?j) < ?x" "?x < of_nat (5 * ?j + 5)" using x frac lowr by (simp_all only: of_nat_add of_nat_1; linarith)+
  have big: "10 ^ (?L - 1) \<le> ?q" "?q < 10 ^ ?L" using coefficient_bounds [of ?q] assms(3) by auto
  have L: "60 < ?L"
  proof (rule ccontr)
    assume "\<not> 60 < ?L"
    then have "(10 :: nat) ^ ?L \<le> 10 ^ 60" by (intro power_increasing) auto
    then show False using big(2) assms(3) by linarith
  qed
  have five: "(10 :: nat) ^ ?L = 5 * (2 * 10 ^ (?L - 1))" using L by (cases ?L) auto
  have top: "5 * ?j + 5 \<le> 10 ^ ?L"
  proof -
    have "?j < 2 * 10 ^ (?L - 1)" using big(2) low(1) unfolding five by linarith
    then show ?thesis unfolding five by linarith
  qed
  have bottom: "10 ^ (?L - 1) \<le> 5 * ?j"
  proof -
    have "(10 :: nat) ^ (?L - 1) = 5 * (2 * 10 ^ (?L - 2))" using L by (cases "?L - 1") (auto simp: numeral_2_eq_2)
    moreover from this have "2 * 10 ^ (?L - 2) \<le> ?j" using big(1) by (simp add: less_eq_div_iff_mult_less_eq mult.commute)
    ultimately show ?thesis by linarith
  qed
  have log: "ilog 10 (z * 10 powi e) = int ?L - 1 + e" if z: "of_nat (5 * ?j) < z" "z < of_nat (5 * ?j + 5)" for z :: rat
  proof (rule ilog_eqI)
    have "(of_nat (10 ^ (?L - 1)) :: rat) \<le> of_nat (5 * ?j)" using bottom of_nat_le_iff by blast
    then have "(10 :: rat) powi int (?L - 1) * 10 powi e \<le> z * 10 powi e" using z(1) by (intro mult_right_mono) auto
    then show "10 powi (int ?L - 1 + e) \<le> z * 10 powi e" using L by (simp add: of_nat_diff flip: power_int_add)
    have "(of_nat (5 * ?j + 5) :: rat) \<le> of_nat (10 ^ ?L)" using top of_nat_le_iff by blast
    then have "z * 10 powi e < (10 :: rat) powi int ?L * 10 powi e" using z(2) by (intro mult_strict_right_mono) auto
    then have "z * 10 powi e < (10 :: rat) powi (int ?L + e)" by (subst power_int_add) auto
    then show "z * 10 powi e < 10 powi (int ?L - 1 + e + 1)" by simp
  qed
  have rounded: "d60 (z * 10 powi e) = of_int (round_even (z / 10 ^ (?L - 60))) * 10 powi (int ?L - 60 + e)"
    if z: "of_nat (5 * ?j) < z" "z < of_nat (5 * ?j + 5)" for z :: rat
  proof -
    have "0 < z" using z(1) by (meson le_less_trans of_nat_0_le_iff)
    then have abs: "\<bar>z * 10 powi e\<bar> = z * 10 powi e" and nz: "z * 10 powi e \<noteq> 0" by auto
    have ex: "int ?L - 1 + e - (int 60 - 1) = int ?L - 60 + e" by simp
    have "(10 :: rat) powi (int ?L - 60 + e) = 10 ^ (?L - 60) * 10 powi e"
      using L by (simp add: power_int_def [of _ "int ?L - 60"] nat_diff_distrib power_int_add flip: of_nat_diff)
    then have "z * 10 powi e / 10 powi (int ?L - 60 + e) = z / 10 ^ (?L - 60)" by simp
    then show ?thesis
      using nz unfolding d60_def dround_def round_grid_def Let_def abs log [OF z] ex by simp
  qed
  have "of_nat (5 * ?j) < (of_nat q' :: rat)" "(of_nat q' :: rat) < of_nat (5 * ?j + 5)"
    using q'j of_nat_less_iff by blast+
  note q = this
  have "round_even (of_nat q' / 10 ^ (?L - 60)) = round_even (?x / 10 ^ (?L - 60))"
    by (rule round_even_sticky [OF _ q xj]) (use L in simp)
  then have "d60 (of_nat q' * 10 powi e) = d60 (?x * 10 powi e)"
    by (simp only: rounded [OF q] rounded [OF xj])
  then show ?thesis by (simp add: coex_val_def)
qed

theorem dec_div_value:
  assumes "0 < fst y"
  shows "coex_val (dec_div x y) = d60 (coex_val x / coex_val y)"
proof (cases "fst x = 0")
  case True
  then show ?thesis by (simp add: dec_div_def Let_def dec_fix_value) (simp add: coex_val_def)
next
  case False
  define shift where "shift = int (dec_digits (fst y)) - int (dec_digits (fst x)) + 61"
  define n where "n = (if 0 \<le> shift then fst x * 10 ^ nat shift else fst x)"
  define d where "d = (if 0 \<le> shift then fst y else fst y * 10 ^ nat (- shift))"
  define e where "e = snd x - snd y - shift"
  have x: "0 < fst x" using False by simp
  note sc = scaled_quotient [OF x assms shift_def n_def d_def, folded e_def]
  have unfolded: "dec_div x y =
      (if n mod d \<noteq> 0 then dec_fix (if n div d mod 5 = 0 then n div d + 1 else n div d, e)
       else dec_fix (strip_zeros (n div d) e (snd x - snd y)))"
    using False by (simp only: dec_div_def Let_def shift_def n_def d_def e_def if_False)
  show ?thesis
  proof (cases "n mod d = 0")
    case True
    then have "n = n div d * d" by auto
    then have "(of_nat n :: rat) / of_nat d = of_nat (n div d)"
      using sc(1) by (metis nonzero_mult_div_cancel_right of_nat_mult of_nat_eq_0_iff less_numeral_extra(3))
    then show ?thesis using True by (simp add: unfolded dec_fix_value strip_zeros_value sc(3)) (simp add: coex_val_def)
  next
    case False
    then show ?thesis
      using sticky_rounds [OF sc(1) False sc(2) refl, of e] unfolding unfolded by (simp only: if_True dec_fix_value sc(3) not_False_eq_True)
  qed
qed

end
