(* ===== verification/BarVolume.thy ===== *)
theory BarVolume
  imports DecArith PriceBars
begin

text \<open>
  The average daily volume of futures bars (\<open>models/bar_volume.py\<close>): exact daily totals of a cached
  monthly archive under its report and checksum, the mean of the thirty completed days before a day,
  with evidence, and the revalidation of the months of the window. The disk may change between two
  reads, so each read of a run happens at a tick of its own; the hash, the JSON reader and writer, the
  CSV reader and pandas' conversions are parameters.
\<close>

section \<open>Cells\<close>

text \<open>\<open>int(text)\<close>: digits in groups joined by single underscores, with a sign and surrounding whitespace.\<close>

definition py_int :: "string \<Rightarrow> int res" where
  "py_int s =
     (case take_sign (strip s) of (neg, t) \<Rightarrow>
        let groups = split_on (CHR ''_'') t in
        if list_all is_digits groups then Inr (let n = digits_val (concat groups) in if neg then - n else n)
        else Inl (ValueError ''invalid literal for int()''))"

definition int_cell :: "string option \<Rightarrow> int res" where
  "int_cell c = (case c of None \<Rightarrow> Inl (ValueError ''cannot convert float NaN to integer'') | Some s \<Rightarrow> py_int s)"

definition volume_cell :: "string option \<Rightarrow> coex res" where
  "volume_cell c =
     (case c of
        None \<Rightarrow> Inl (BarVolumeError ''nonfinite or negative volume'')
      | Some s \<Rightarrow>
          (case parse_decimal s of
             None \<Rightarrow> Inl (BarVolumeError ''invalid decimal volume'')
           | Some (DFin neg k e) \<Rightarrow>
               bnd (guard (neg \<and> 0 < k) (BarVolumeError ''nonfinite or negative volume'')) (\<lambda>_. Inr (k, e))
           | Some _ \<Rightarrow> Inl (BarVolumeError ''nonfinite or negative volume'')))"

section \<open>Daily totals\<close>

record day_total =
  dy_base :: coex
  dy_quote :: coex
  dy_trades :: int
  dy_minutes :: nat

definition no_total :: day_total where
  "no_total = \<lparr>dy_base = (0, 0), dy_quote = (0, 0), dy_trades = 0, dy_minutes = 0\<rparr>"

definition add_minute :: "coex \<Rightarrow> coex \<Rightarrow> int \<Rightarrow> day_total \<Rightarrow> day_total" where
  "add_minute b q n x =
     \<lparr>dy_base = dec_add (dy_base x) b, dy_quote = dec_add (dy_quote x) q,
      dy_trades = dy_trades x + n, dy_minutes = dy_minutes x + 1\<rparr>"

text \<open>\<open>setdefault\<close> and update of a dict in insertion order.\<close>

fun upd_day :: "string \<Rightarrow> 'a \<Rightarrow> ('a \<Rightarrow> 'a) \<Rightarrow> (string \<times> 'a) list \<Rightarrow> (string \<times> 'a) list" where
  "upd_day day fresh f [] = [(day, f fresh)]"
| "upd_day day fresh f ((d, x) # items) = (if d = day then (d, f x) # items else (d, x) # upd_day day fresh f items)"

text \<open>A row: when it opened, its volumes, and its count.\<close>

type_synonym bar_row = "string option \<times> string option \<times> string option \<times> string option"

definition add_bar :: "(string \<times> day_total) list \<Rightarrow> bar_row \<Rightarrow> (string \<times> day_total) list res" where
  "add_bar totals row =
     (case row of (opened, volume, quote_volume, trades) \<Rightarrow>
        bnd (int_cell opened) (\<lambda>t.
        bnd (volume_cell volume) (\<lambda>b.
        bnd (volume_cell quote_volume) (\<lambda>q.
        bnd (int_cell trades) (\<lambda>n.
        Inr (upd_day (date_of_ms t) no_total (add_minute b q n) totals))))))"

record day_volume =
  dv_date :: string
  dv_base :: string
  dv_quote :: string
  dv_trades :: int
  dv_minutes :: nat
  dv_source :: string
  dv_source_sha :: string
  dv_report_sha :: string

definition coex_text :: "coex \<Rightarrow> string" where
  "coex_text x = format_f (DFin False (fst x) (snd x))"

definition close_day :: "string \<Rightarrow> string \<Rightarrow> string \<Rightarrow> string \<times> day_total \<Rightarrow> day_volume res" where
  "close_day url digest report_digest item =
     (case item of (day, x) \<Rightarrow>
        bnd (guard (dy_minutes x \<noteq> 1440 \<or> fst (dy_base x) = 0) (BarVolumeError ''incomplete or nonpositive daily volume'')) (\<lambda>_.
        Inr \<lparr>dv_date = day, dv_base = coex_text (dy_base x), dv_quote = coex_text (dy_quote x), dv_trades = dy_trades x,
             dv_minutes = dy_minutes x, dv_source = url, dv_source_sha = digest, dv_report_sha = report_digest\<rparr>))"

section \<open>A cached month\<close>

record auditor =
  au_sha :: "string \<Rightarrow> string"
  au_loads :: "string \<Rightarrow> json res"
  au_dumps :: "json \<Rightarrow> string" \<comment> \<open>sorted keys, compact separators\<close>
  au_reader :: archive_reader
  au_source :: source

definition read_at :: "disk \<Rightarrow> location \<Rightarrow> string res" where
  "read_at d p = (case d p of None \<Rightarrow> Inl (FileNotFoundError ''No such file or directory'') | Some b \<Rightarrow> Inr b)"

definition price_archive :: "location \<Rightarrow> string \<Rightarrow> location" where
  "price_archive base url = base @ [''.cache'', price_dir, ''futures'', last_segment url]"

definition report_get :: "json \<Rightarrow> string \<Rightarrow> json option res" where \<comment> \<open>\<open>report.get(key)\<close>\<close>
  "report_get doc k = (case doc of JDict d \<Rightarrow> Inr (map_of d k) | _ \<Rightarrow> Inl (AttributeError ''no attribute get''))"

definition check_identity :: "json \<Rightarrow> (string \<times> string) list \<Rightarrow> unit res" where
  "check_identity doc expected =
     fold_res (\<lambda>_ (k, v). bnd (report_get doc k) (\<lambda>x.
       guard (x \<noteq> Some (JStr v)) (BarVolumeError ''price source report identity does not match requested month''))) () expected"

definition bar_rows :: "frame \<Rightarrow> bar_row list res" where
  "bar_rows f =
     bnd (get_texts f ''open_time'') (\<lambda>ts. bnd (get_texts f ''volume'') (\<lambda>vs.
     bnd (get_texts f ''quote_volume'') (\<lambda>qs. bnd (get_texts f ''count'') (\<lambda>ns.
     Inr (zip ts (zip vs (zip qs ns)))))))"

text \<open>The rows of an admitted archive, as the disk holds it when it is read.\<close>

definition admitted_rows :: "auditor \<Rightarrow> disk \<Rightarrow> location \<Rightarrow> string \<Rightarrow> int \<Rightarrow> bar_row list res" where
  "admitted_rows a d archive symbol month =
     bnd (extract_csv (au_reader a) d archive) (\<lambda>raw.
     bnd (normalise_bars (au_source a) raw symbol month ''futures'') (\<lambda>_.
     bnd (without_header raw) bar_rows))"

definition monthly_volumes ::
  "auditor \<Rightarrow> (nat \<Rightarrow> disk) \<Rightarrow> nat \<Rightarrow> location \<Rightarrow> string \<Rightarrow> int \<Rightarrow> day_volume list res" where
  "monthly_volumes a w tick base symbol month =
     bnd (guard (first_of_month month \<noteq> month) (BarVolumeError ''month must start on its first day'')) (\<lambda>_.
     bnd (archive_url symbol month ''futures'') (\<lambda>url.
     let report_path = price_report_file base symbol ''futures'' month; archive = price_archive base url in
     bnd (read_at (w tick) report_path) (\<lambda>report_bytes.
     bnd (au_loads a report_bytes) (\<lambda>doc.
     bnd (check_identity doc [(''symbol'', symbol), (''month'', month_text month), (''market'', ''futures''), (''source'', url)]) (\<lambda>_.
     bnd (read_at (w (tick + 1)) archive) (\<lambda>content.
     let digest = au_sha a content in
     bnd (report_get doc ''source_sha256'') (\<lambda>recorded.
     bnd (guard (recorded \<noteq> Some (JStr digest)) (BarVolumeError ''cached price archive differs from its recorded published checksum'')) (\<lambda>_.
     bnd (admitted_rows a (w (tick + 2)) archive symbol month) (\<lambda>rows.
     bnd (fold_res add_bar [] rows) (\<lambda>totals.
     bnd (map_res (close_day url digest (au_sha a report_bytes)) totals) (\<lambda>result.
     bnd (read_at (w (tick + 3)) archive) (\<lambda>again.
     bnd (guard (au_sha a again \<noteq> digest) (BarVolumeError ''source changed during volume admission'')) (\<lambda>_.
     bnd (read_at (w (tick + 4)) report_path) (\<lambda>report_again.
     bnd (guard (report_again \<noteq> report_bytes) (BarVolumeError ''source changed during volume admission'')) (\<lambda>_.
     Inr result)))))))))))))))"

section \<open>The average\<close>

definition volume_method :: string where
  "volume_method = ''binance-usdm-1m-base-volume-decimal-prior-30-utc-days-v1''"

record volume_artifact =
  va_method :: string
  va_market :: string
  va_symbol :: string
  va_days :: "day_volume list"

record adv_feature =
  af_base_adv :: string
  af_method :: string
  af_symbol :: string
  af_start_ms :: int
  af_end_ms :: int \<comment> \<open>exclusive\<close>
  af_evidence_sha :: string

definition prior_days :: "int \<Rightarrow> int \<Rightarrow> day_volume list \<Rightarrow> day_volume list" where
  "prior_days start as_of days = filter (\<lambda>v. iso_text start \<le> dv_date v \<and> dv_date v < iso_text as_of) days"

definition expected_days :: "int \<Rightarrow> string list" where
  "expected_days start = map (\<lambda>i. iso_text (start + int i)) [0..<30]"

definition base_quantity :: "day_volume \<Rightarrow> decimal res" where
  "base_quantity v =
     (case parse_decimal (dv_base v) of None \<Rightarrow> Inl (InvalidOperation ''ConversionSyntax'') | Some d \<Rightarrow> Inr d)"

definition usable :: "decimal \<Rightarrow> bool" where \<comment> \<open>finite and positive\<close>
  "usable d = (case d of DFin neg k e \<Rightarrow> \<not> neg \<and> 0 < k | _ \<Rightarrow> False)"

fun coex_of :: "decimal \<Rightarrow> coex" where \<comment> \<open>of a usable decimal\<close>
  "coex_of (DFin neg k e) = (k, e)"
| "coex_of _ = (0, 0)"

definition mean_volume :: "decimal list \<Rightarrow> coex" where
  "mean_volume ds = dec_div (foldl dec_add (0, 0) (map coex_of ds)) (30, 0)"

definition day_evidence :: "day_volume \<Rightarrow> json" where
  "day_evidence v = JDict [(''date'', JStr (dv_date v)), (''base_volume'', JStr (dv_base v)), (''source'', JStr (dv_source v))]"

definition adv_evidence :: "string \<Rightarrow> int \<Rightarrow> int \<Rightarrow> day_volume list \<Rightarrow> json" where
  "adv_evidence symbol start as_of days =
     JDict [(''method'', JStr volume_method), (''symbol'', JStr symbol), (''market'', JStr ''futures''),
       (''start'', JStr (iso_text start)), (''end_exclusive'', JStr (iso_text as_of)), (''days'', JList (map day_evidence days))]"

definition bar_adv :: "auditor \<Rightarrow> volume_artifact \<Rightarrow> int \<Rightarrow> adv_feature res" where
  "bar_adv a art as_of =
     bnd (guard (va_method art \<noteq> volume_method \<or> va_market art \<noteq> ''futures'') (BarVolumeError ''unsupported ADV method or market'')) (\<lambda>_.
     let start = as_of - 30; selected = prior_days start as_of (va_days art) in
     bnd (guard (map dv_date selected \<noteq> expected_days start) (BarVolumeError ''ADV requires exactly 30 ordered completed UTC days'')) (\<lambda>_.
     bnd (map_res base_quantity selected) (\<lambda>quantities.
     bnd (guard (\<not> list_all usable quantities) (BarVolumeError ''invalid prior daily volume'')) (\<lambda>_.
     Inr \<lparr>af_base_adv = coex_text (mean_volume quantities), af_method = volume_method, af_symbol = va_symbol art,
          af_start_ms = utc_ms start, af_end_ms = utc_ms as_of,
          af_evidence_sha = au_sha a (au_dumps a (adv_evidence (va_symbol art) start as_of selected))\<rparr>))))"

record volume_inputs =
  vi_adv :: adv_feature
  vi_provenance :: "(string \<times> string \<times> string) list"

definition window_months :: "int \<Rightarrow> int list" where
  "window_months as_of = sort (remdups (map (\<lambda>i. first_of_month (as_of - 30 + int i)) [0..<30]))"

fun volumes_of_months ::
  "auditor \<Rightarrow> (nat \<Rightarrow> disk) \<Rightarrow> nat \<Rightarrow> location \<Rightarrow> string \<Rightarrow> int list \<Rightarrow> day_volume list res" where
  "volumes_of_months a w tick base symbol [] = Inr []"
| "volumes_of_months a w tick base symbol (month # months) =
     bnd (monthly_volumes a w tick base symbol month) (\<lambda>days.
     bnd (volumes_of_months a w (tick + 5) base symbol months) (\<lambda>later. Inr (days @ later)))"

definition volume_provenance :: "day_volume list \<Rightarrow> (string \<times> string \<times> string) list" where
  "volume_provenance days =
     map (\<lambda>v. (dv_source v, dv_source_sha v, dv_report_sha v)) (filter (\<lambda>v. suffix ''-01'' (dv_date v)) days)"

definition verified_volume_inputs ::
  "auditor \<Rightarrow> (nat \<Rightarrow> disk) \<Rightarrow> nat \<Rightarrow> location \<Rightarrow> string \<Rightarrow> int \<Rightarrow> volume_inputs res" where
  "verified_volume_inputs a w tick base symbol as_of =
     bnd (volumes_of_months a w tick base symbol (window_months as_of)) (\<lambda>days.
     bnd (bar_adv a \<lparr>va_method = volume_method, va_market = ''futures'', va_symbol = symbol, va_days = days\<rparr> as_of) (\<lambda>adv.
     Inr \<lparr>vi_adv = adv, vi_provenance = volume_provenance days\<rparr>))"

definition verified_average_daily_volume ::
  "auditor \<Rightarrow> (nat \<Rightarrow> disk) \<Rightarrow> nat \<Rightarrow> location \<Rightarrow> string \<Rightarrow> int \<Rightarrow> adv_feature res" where
  "verified_average_daily_volume a w tick base symbol as_of =
     bnd (verified_volume_inputs a w tick base symbol as_of) (\<lambda>r. Inr (vi_adv r))"

section \<open>Totals are sums\<close>

text \<open>What the rows of a day amount to: the base volumes of each day, in order, summed in the context.\<close>

definition base_step :: "(string \<times> coex) list \<Rightarrow> string \<times> coex \<Rightarrow> (string \<times> coex) list" where
  "base_step items p = upd_day (fst p) (0, 0) (\<lambda>x. dec_add x (snd p)) items"

definition minute_step :: "(string \<times> nat) list \<Rightarrow> string \<times> coex \<Rightarrow> (string \<times> nat) list" where
  "minute_step items p = upd_day (fst p) 0 Suc items"

definition base_totals :: "(string \<times> coex) list \<Rightarrow> (string \<times> coex) list" where
  "base_totals ps = foldl base_step [] ps"

definition day_sum :: "string \<Rightarrow> (string \<times> coex) list \<Rightarrow> coex" where
  "day_sum d ps = foldl dec_add (0, 0) (map snd (filter (\<lambda>p. fst p = d) ps))"

definition bar_view :: "bar_row \<Rightarrow> (string \<times> coex) option" where \<comment> \<open>the day and the base volume of a row\<close>
  "bar_view row =
     (case row of (opened, volume, _) \<Rightarrow>
        (case (int_cell opened, volume_cell volume) of (Inr t, Inr b) \<Rightarrow> Some (date_of_ms t, b) | _ \<Rightarrow> None))"

definition over :: "('a \<Rightarrow> 'b) \<Rightarrow> (string \<times> 'a) list \<Rightarrow> (string \<times> 'b) list" where
  "over g items = map (\<lambda>i. (fst i, g (snd i))) items"

lemma over_simps [simp]: "over g [] = []" "over g (i # items) = (fst i, g (snd i)) # over g items"
    "map fst (over g items) = map fst items"
  by (simp_all add: over_def comp_def)

lemma over_mem: "(d, x) \<in> set items \<Longrightarrow> (d, g x) \<in> set (over g items)"
  by (force simp: over_def)

lemma upd_day_keys: "set (map fst (upd_day d x f items)) = insert d (set (map fst items))"
  by (induction d x f items rule: upd_day.induct) auto

lemma upd_day_distinct: "distinct (map fst items) \<Longrightarrow> distinct (map fst (upd_day d x f items))"
proof (induction d x f items rule: upd_day.induct)
  case (2 day fresh f d x items)
  then show ?case using upd_day_keys [of day fresh f items] by (cases "d = day") auto
qed simp

lemma upd_day_map: "map_of (upd_day d x f items) =
    (map_of items)(d \<mapsto> f (case map_of items d of None \<Rightarrow> x | Some y \<Rightarrow> y))"
  by (induction d x f items rule: upd_day.induct) auto

lemma upd_day_image:
  assumes "\<And>x. g (f x) = f' (g x)"
  shows "over g (upd_day d x f items) = upd_day d (g x) f' (over g items)"
  using assms by (induction d x f items rule: upd_day.induct) auto

lemma upd_day_filter:
  "filter (\<lambda>i. P (fst i)) (upd_day d x f items) =
     (if P d then upd_day d x f (filter (\<lambda>i. P (fst i)) items) else filter (\<lambda>i. P (fst i)) items)"
  by (induction d x f items rule: upd_day.induct) auto

lemma base_totals_snoc: "base_totals (ps @ [p]) = upd_day (fst p) (0, 0) (\<lambda>x. dec_add x (snd p)) (base_totals ps)"
  by (simp add: base_totals_def base_step_def)

lemma base_totals_filter: "filter (\<lambda>i. P (fst i)) (base_totals ps) = base_totals (filter (\<lambda>p. P (fst p)) ps)"
  by (induction ps rule: rev_induct) (simp add: base_totals_def, auto simp: base_totals_snoc upd_day_filter)

lemma base_totals_map:
  "map_of (base_totals ps) d = (if d \<in> fst ` set ps then Some (day_sum d ps) else None)"
proof (induction ps arbitrary: d rule: rev_induct)
  case (snoc p ps)
  have fresh: "day_sum (fst p) ps = (0, 0)" if "fst p \<notin> fst ` set ps"
  proof -
    have "filter (\<lambda>q. fst q = fst p) ps = []" using that by (metis (mono_tags, lifting) filter_False image_eqI)
    then show ?thesis by (simp add: day_sum_def)
  qed
  show ?case using fresh by (auto simp: base_totals_snoc upd_day_map snoc day_sum_def)
qed (simp add: base_totals_def)

lemma base_totals_distinct: "distinct (map fst (base_totals ps))"
  by (induction ps rule: rev_induct) (simp add: base_totals_def, simp add: base_totals_snoc upd_day_distinct)

lemma add_bar_view:
  assumes "add_bar totals row = Inr totals'"
  obtains p q n where "bar_view row = Some p"
    and "totals' = upd_day (fst p) no_total (add_minute (snd p) q n) totals"
  using assms by (cases row) (auto simp: add_bar_def res_simps bar_view_def)

text \<open>A finished fold parsed every row; its base totals are those of the parsed rows, its minutes their number.\<close>

lemma folded_bars:
  assumes "fold_res add_bar totals rows = Inr result"
  obtains ps where "map bar_view rows = map Some ps"
    and "over dy_base result
       = foldl base_step (over dy_base totals) ps"
    and "over dy_minutes result
       = foldl minute_step (over dy_minutes totals) ps"
  using assms
proof (induction rows arbitrary: totals thesis)
  case (Cons row rows)
  obtain totals' where t: "add_bar totals row = Inr totals'" "fold_res add_bar totals' rows = Inr result"
    using Cons.prems(2) by (auto simp: res_simps)
  obtain p q n where p: "bar_view row = Some p" "totals' = upd_day (fst p) no_total (add_minute (snd p) q n) totals"
    using add_bar_view [OF t(1)] by blast
  obtain ps where ps: "map bar_view rows = map Some ps"
    "over dy_base result
       = foldl base_step (over dy_base totals') ps"
    "over dy_minutes result
       = foldl minute_step (over dy_minutes totals') ps"
    using Cons.IH [OF _ t(2)] by blast
  have "over dy_base totals' = base_step (over dy_base totals) p"
    unfolding p(2) base_step_def by (subst upd_day_image [where g = dy_base and f' = "\<lambda>x. dec_add x (snd p)"]) (simp_all add: add_minute_def no_total_def base_step_def)
  moreover have "over dy_minutes totals' = minute_step (over dy_minutes totals) p"
    unfolding p(2) minute_step_def by (subst upd_day_image [where g = dy_minutes and f' = Suc]) (simp_all add: add_minute_def no_total_def)
  ultimately show ?case
    using ps p(1) by (intro Cons.prems(1) [of "p # ps"]) simp_all
qed simp

lemma minutes_count:
  "map_of (foldl minute_step [] ps) d =
     (if d \<in> fst ` set ps then Some (length (filter (\<lambda>p. fst p = d) ps)) else None)"
proof (induction ps arbitrary: d rule: rev_induct)
  case (snoc p ps)
  have "length (filter (\<lambda>q. fst q = fst p) ps) = 0" if "fst p \<notin> fst ` set ps"
    using that by (metis (mono_tags, lifting) filter_False image_eqI list.size(3))
  moreover have "foldl minute_step [] (ps @ [p]) = upd_day (fst p) 0 Suc (foldl minute_step [] ps)"
    by simp (rule minute_step_def)
  ultimately show ?case by (auto simp: upd_day_map snoc simp del: foldl_append)
qed simp

lemma bar_totals:
  assumes "fold_res add_bar [] rows = Inr totals"
  obtains ps where "map bar_view rows = map Some ps"
    and "over dy_base totals = base_totals ps"
    and "\<And>d x. (d, x) \<in> set totals \<Longrightarrow> dy_minutes x = length (filter (\<lambda>p. fst p = d) ps)"
proof (rule folded_bars [OF assms])
  fix ps assume view: "map bar_view rows = map Some ps"
    and base: "over dy_base totals = foldl base_step (over dy_base []) ps"
    and mins: "over dy_minutes totals = foldl minute_step (over dy_minutes []) ps"
  have ps: "over dy_base totals = base_totals ps" "over dy_minutes totals = foldl minute_step [] ps"
    using base mins by (simp_all add: base_totals_def)
  have "map fst totals = map fst (base_totals ps)" unfolding ps(1) [symmetric] by simp
  then have dist: "distinct (map fst totals)" by (simp add: base_totals_distinct)
  have "dy_minutes x = length (filter (\<lambda>p. fst p = d) ps)" if x: "(d, x) \<in> set totals" for d x
  proof -
    have "map_of (over dy_minutes totals) d = Some (dy_minutes x)"
      using over_mem [OF x] dist by (intro map_of_is_SomeI) simp_all
    then show ?thesis unfolding ps(2) minutes_count by (auto split: if_splits)
  qed
  then show thesis by (rule that [OF view ps(1)])
qed

section \<open>Admitted volumes\<close>

lemma closed_days:
  assumes "map_res (close_day url digest report_digest) totals = Inr days"
  shows "map (\<lambda>v. (dv_date v, dv_base v)) days = over coex_text (over dy_base totals)"
    and "\<forall>v \<in> set days. dv_source v = url"
    and "\<forall>i \<in> set totals. dy_minutes (snd i) = 1440 \<and> 0 < fst (dy_base (snd i))"
proof -
  have step: "close_day url digest report_digest i = Inr v \<longleftrightarrow> dy_minutes (snd i) = 1440 \<and> 0 < fst (dy_base (snd i))
      \<and> v = \<lparr>dv_date = fst i, dv_base = coex_text (dy_base (snd i)), dv_quote = coex_text (dy_quote (snd i)),
          dv_trades = dy_trades (snd i), dv_minutes = dy_minutes (snd i), dv_source = url, dv_source_sha = digest,
          dv_report_sha = report_digest\<rparr>" for i v
    by (cases i) (auto simp: close_day_def res_simps)
  have "map (\<lambda>v. (dv_date v, dv_base v)) days = over coex_text (over dy_base totals)
    \<and> (\<forall>v \<in> set days. dv_source v = url) \<and> (\<forall>i \<in> set totals. dy_minutes (snd i) = 1440 \<and> 0 < fst (dy_base (snd i)))"
    using assms
  proof (induction totals arbitrary: days)
    case (Cons i totals)
    then obtain v vs where "days = v # vs" "close_day url digest report_digest i = Inr v"
      "map_res (close_day url digest report_digest) totals = Inr vs" by (auto simp: res_simps)
    then show ?case using Cons.IH [of vs] by (simp add: step)
  qed simp
  then show "map (\<lambda>v. (dv_date v, dv_base v)) days = over coex_text (over dy_base totals)"
    and "\<forall>v \<in> set days. dv_source v = url"
    and "\<forall>i \<in> set totals. dy_minutes (snd i) = 1440 \<and> 0 < fst (dy_base (snd i))" by blast+
qed

lemma read_at_Inr [res_simps]: "read_at d p = Inr b \<longleftrightarrow> d p = Some b"
  by (simp add: read_at_def split: option.split)

lemma report_get_Inr [res_simps]: "report_get doc k = Inr x \<longleftrightarrow> (\<exists>d. doc = JDict d \<and> x = map_of d k)"
  by (auto simp: report_get_def split: json.split)

text \<open>A successful audit of a month, opened: what was read at which tick, and the totals.\<close>

lemma monthly_volumes_opened:
  assumes "monthly_volumes a w tick base symbol month = Inr days"
  obtains url report doc content rows totals where
    "archive_url symbol month ''futures'' = Inr url"
    "w tick (price_report_file base symbol ''futures'' month) = Some report"
    "w (tick + 4) (price_report_file base symbol ''futures'' month) = Some report"
    "au_loads a report = Inr (JDict doc)" "map_of doc ''source_sha256'' = Some (JStr (au_sha a content))"
    "w (tick + 1) (price_archive base url) = Some content"
    "\<exists>again. w (tick + 3) (price_archive base url) = Some again \<and> au_sha a again = au_sha a content"
    "admitted_rows a (w (tick + 2)) (price_archive base url) symbol month = Inr rows"
    "fold_res add_bar [] rows = Inr totals"
    "map_res (close_day url (au_sha a content) (au_sha a report)) totals = Inr days"
  using assms unfolding monthly_volumes_def bnd_eq_Inr guard_eq_Inr Let_def not_not read_at_Inr report_get_Inr
  by metis

text \<open>Volumes of a month as they are seen through base volumes only.\<close>

lemma month_days:
  assumes "monthly_volumes a w tick base symbol month = Inr days"
  obtains url rows ps where "archive_url symbol month ''futures'' = Inr url"
    "admitted_rows a (w (tick + 2)) (price_archive base url) symbol month = Inr rows"
    "map bar_view rows = map Some ps"
    "map (\<lambda>v. (dv_date v, dv_base v)) days = over coex_text (base_totals ps)"
    "\<forall>v \<in> set days. dv_source v = url"
    "\<forall>d \<in> fst ` set ps. length (filter (\<lambda>p. fst p = d) ps) = 1440 \<and> 0 < fst (day_sum d ps)"
proof (rule monthly_volumes_opened [OF assms])
  fix url report doc content rows totals
  assume url: "archive_url symbol month ''futures'' = Inr url"
    and rows: "admitted_rows a (w (tick + 2)) (price_archive base url) symbol month = Inr rows"
    and fold: "fold_res add_bar [] rows = Inr totals"
    and closing: "map_res (close_day url (au_sha a content) (au_sha a report)) totals = Inr days"
  note closed = closed_days [OF closing]
  show thesis
  proof (rule bar_totals [OF fold])
    fix ps assume view: "map bar_view rows = map Some ps" and base: "over dy_base totals = base_totals ps"
      and mins: "\<And>d x. (d, x) \<in> set totals \<Longrightarrow> dy_minutes x = length (filter (\<lambda>p. fst p = d) ps)"
    have "length (filter (\<lambda>p. fst p = d) ps) = 1440 \<and> 0 < fst (day_sum d ps)" if d: "d \<in> fst ` set ps" for d
    proof -
      have "map_of (over dy_base totals) d = Some (day_sum d ps)" using d by (simp add: base base_totals_map)
      then have "(d, day_sum d ps) \<in> set (over dy_base totals)" by (rule map_of_SomeD)
      then obtain x where "(d, x) \<in> set totals" "dy_base x = day_sum d ps" by (auto simp: over_def)
      then show ?thesis using closed(3) mins by force
    qed
    then show thesis using that [OF url rows view] closed(1,2) base by simp
  qed
qed

text \<open>C34: An accepted month is exact and evidenced: the audited archive has the checksum of its unchanged report before and after it is read, every day of its rows is listed once with 1440 of them, and its volume is the text of the decimal sum of the base volumes of exactly those rows.\<close>

theorem daily_volumes_are_exact:
  assumes "monthly_volumes a w tick base symbol month = Inr days"
  shows "\<exists>url report doc content again rows ps. archive_url symbol month ''futures'' = Inr url
    \<and> w tick (price_report_file base symbol ''futures'' month) = Some report
    \<and> w (tick + 4) (price_report_file base symbol ''futures'' month) = Some report
    \<and> au_loads a report = Inr (JDict doc) \<and> map_of doc ''source_sha256'' = Some (JStr (au_sha a content))
    \<and> w (tick + 1) (price_archive base url) = Some content
    \<and> w (tick + 3) (price_archive base url) = Some again \<and> au_sha a again = au_sha a content
    \<and> admitted_rows a (w (tick + 2)) (price_archive base url) symbol month = Inr rows
    \<and> map bar_view rows = map Some ps
    \<and> distinct (map dv_date days) \<and> set (map dv_date days) = fst ` set ps
    \<and> (\<forall>v \<in> set days. length (filter (\<lambda>p. fst p = dv_date v) ps) = 1440
         \<and> dv_base v = coex_text (day_sum (dv_date v) ps) \<and> 0 < coex_val (day_sum (dv_date v) ps))"
proof (rule monthly_volumes_opened [OF assms])
  fix url report doc content rows totals
  assume opened: "archive_url symbol month ''futures'' = Inr url"
    "w tick (price_report_file base symbol ''futures'' month) = Some report"
    "w (tick + 4) (price_report_file base symbol ''futures'' month) = Some report"
    "au_loads a report = Inr (JDict doc)" "map_of doc ''source_sha256'' = Some (JStr (au_sha a content))"
    "w (tick + 1) (price_archive base url) = Some content"
    "\<exists>again. w (tick + 3) (price_archive base url) = Some again \<and> au_sha a again = au_sha a content"
  show ?thesis
  proof (rule month_days [OF assms])
    fix url' rows' ps
    assume "archive_url symbol month ''futures'' = Inr url'"
      "admitted_rows a (w (tick + 2)) (price_archive base url') symbol month = Inr rows'"
      "map bar_view rows' = map Some ps" "map (\<lambda>v. (dv_date v, dv_base v)) days = over coex_text (base_totals ps)"
      "\<forall>d \<in> fst ` set ps. length (filter (\<lambda>p. fst p = d) ps) = 1440 \<and> 0 < fst (day_sum d ps)"
    moreover from this opened(1) have "url' = url" by simp
    ultimately have ps: "admitted_rows a (w (tick + 2)) (price_archive base url) symbol month = Inr rows'"
        "map bar_view rows' = map Some ps" "map (\<lambda>v. (dv_date v, dv_base v)) days = over coex_text (base_totals ps)"
        "\<forall>d \<in> fst ` set ps. length (filter (\<lambda>p. fst p = d) ps) = 1440 \<and> 0 < fst (day_sum d ps)"
      by simp_all
    have "map dv_date days = map fst (map (\<lambda>v. (dv_date v, dv_base v)) days)" by (simp add: comp_def)
    then have dates: "map dv_date days = map fst (base_totals ps)" by (simp add: ps(3))
    have keys: "fst ` set (base_totals ps) = fst ` set ps"
    proof -
      have "d \<in> fst ` set (base_totals ps) \<longleftrightarrow> d \<in> fst ` set ps" for d
        using base_totals_map [of ps d] map_of_eq_None_iff [of "base_totals ps" d] by (auto split: if_splits)
      then show ?thesis by blast
    qed
    have "length (filter (\<lambda>p. fst p = dv_date v) ps) = 1440 \<and> dv_base v = coex_text (day_sum (dv_date v) ps)
        \<and> 0 < coex_val (day_sum (dv_date v) ps)" if v: "v \<in> set days" for v
    proof -
      have "(dv_date v, dv_base v) \<in> set (over coex_text (base_totals ps))" using v unfolding ps(3) [symmetric] by force
      then obtain x where x: "(dv_date v, x) \<in> set (base_totals ps)" "dv_base v = coex_text x" by (auto simp: over_def)
      then have "map_of (base_totals ps) (dv_date v) = Some x" by (intro map_of_is_SomeI base_totals_distinct)
      then have "dv_date v \<in> fst ` set ps" "x = day_sum (dv_date v) ps" by (simp_all add: base_totals_map split: if_splits)
      then show ?thesis using bspec [OF ps(4), of "dv_date v"] x(2) by (simp add: coex_val_pos)
    qed
    then have volumes: "\<forall>v \<in> set days. length (filter (\<lambda>p. fst p = dv_date v) ps) = 1440
        \<and> dv_base v = coex_text (day_sum (dv_date v) ps) \<and> 0 < coex_val (day_sum (dv_date v) ps)" by blast
    have listed: "distinct (map dv_date days)" "set (map dv_date days) = fst ` set ps"
      using dates keys base_totals_distinct [of ps] by (simp_all only: set_map)
    obtain again where again: "w (tick + 3) (price_archive base url) = Some again" "au_sha a again = au_sha a content"
      using opened(7) by blast
    show ?thesis
      by (rule exI [of _ url], rule exI [of _ report], rule exI [of _ doc], rule exI [of _ content], rule exI [of _ again],
          rule exI [of _ rows'], rule exI [of _ ps]) (intro conjI opened(1-6) again ps(1,2) listed volumes)
  qed
qed

section \<open>No look-ahead\<close>

text \<open>What the days before \<open>as_of\<close> show of the archive that is read for a month: days and base volumes.\<close>

definition before_day :: "int \<Rightarrow> (string \<times> coex) option \<Rightarrow> bool" where
  "before_day as_of v = (case v of None \<Rightarrow> True | Some p \<Rightarrow> fst p < iso_text as_of)"

definition prior_view ::
  "auditor \<Rightarrow> disk \<Rightarrow> location \<Rightarrow> string \<Rightarrow> int \<Rightarrow> int \<Rightarrow> (string \<times> coex) option list res" where
  "prior_view a d base symbol as_of month =
     bnd (archive_url symbol month ''futures'') (\<lambda>url.
     bnd (admitted_rows a d (price_archive base url) symbol month) (\<lambda>rows.
     Inr (filter (before_day as_of) (map bar_view rows))))"

definition dv_view :: "day_volume \<Rightarrow> string \<times> string \<times> string" where
  "dv_view v = (dv_date v, dv_base v, dv_source v)"

lemma prior_view_rows:
  assumes "archive_url symbol month ''futures'' = Inr url" and "admitted_rows a d (price_archive base url) symbol month = Inr rows"
  shows "prior_view a d base symbol as_of month = Inr (filter (before_day as_of) (map bar_view rows))"
  unfolding prior_view_def assms(1) bnd_Inr assms(2) ..

lemma month_view:
  assumes m: "monthly_volumes a w tick base symbol month = Inr days"
    and url: "archive_url symbol month ''futures'' = Inr url"
    and view: "prior_view a (w (tick + 2)) base symbol as_of month = Inr vs"
  obtains qs where "vs = map Some qs"
    and "map dv_view (prior_days start as_of days)
       = map (\<lambda>i. (fst i, coex_text (snd i), url)) (base_totals (filter (\<lambda>p. iso_text start \<le> fst p) qs))"
proof (rule month_days [OF m])
  fix url' rows ps
  assume url': "archive_url symbol month ''futures'' = Inr url'"
    and rows: "admitted_rows a (w (tick + 2)) (price_archive base url') symbol month = Inr rows"
    and ps: "map bar_view rows = map Some ps" and days: "map (\<lambda>v. (dv_date v, dv_base v)) days = over coex_text (base_totals ps)"
    and source: "\<forall>v \<in> set days. dv_source v = url'"
  define P where "P d \<longleftrightarrow> iso_text start \<le> d \<and> d < iso_text as_of" for d
  have same: "url' = url" using url url' by simp
  have vs: "vs = map Some (filter (\<lambda>p. fst p < iso_text as_of) ps)"
    using view prior_view_rows [OF url' rows, of as_of] by (simp add: ps filter_map comp_def before_day_def)
  have "map dv_view (prior_days start as_of days) = map (\<lambda>v. (dv_date v, dv_base v, url)) (filter (\<lambda>v. P (dv_date v)) days)"
    using source by (simp add: prior_days_def dv_view_def P_def same)
  also have "\<dots> = map (\<lambda>i. (fst i, snd i, url)) (filter (\<lambda>i. P (fst i)) (map (\<lambda>v. (dv_date v, dv_base v)) days))"
    by (simp add: filter_map comp_def)
  also have "\<dots> = map (\<lambda>i. (fst i, coex_text (snd i), url)) (filter (\<lambda>i. P (fst i)) (base_totals ps))"
    unfolding days by (simp add: over_def filter_map comp_def)
  also have "filter (\<lambda>i. P (fst i)) (base_totals ps) = base_totals (filter (\<lambda>p. iso_text start \<le> fst p) (filter (\<lambda>p. fst p < iso_text as_of) ps))"
    unfolding base_totals_filter by (simp add: P_def conj_commute)
  finally show thesis using that vs by blast
qed

lemma months_view:
  assumes "volumes_of_months a w tick base symbol months = Inr days"
    and "volumes_of_months a w' tick' base symbol months = Inr days'"
    and "\<forall>i < length months. prior_view a (w (tick + 5 * i + 2)) base symbol as_of (months ! i)
                           = prior_view a (w' (tick' + 5 * i + 2)) base symbol as_of (months ! i)"
  shows "map dv_view (prior_days start as_of days) = map dv_view (prior_days start as_of days')"
  using assms
proof (induction months arbitrary: tick tick' days days')
  case (Cons month months)
  obtain ds later where ds: "monthly_volumes a w tick base symbol month = Inr ds"
      "volumes_of_months a w (tick + 5) base symbol months = Inr later" "days = ds @ later"
    using Cons.prems(1) by (auto simp: res_simps)
  obtain ds' later' where ds': "monthly_volumes a w' tick' base symbol month = Inr ds'"
      "volumes_of_months a w' (tick' + 5) base symbol months = Inr later'" "days' = ds' @ later'"
    using Cons.prems(2) by (auto simp: res_simps)
  have rest: "map dv_view (prior_days start as_of later) = map dv_view (prior_days start as_of later')"
  proof (rule Cons.IH [OF ds(2) ds'(2)], intro allI impI)
    fix i assume "i < length months"
    then show "prior_view a (w (tick + 5 + 5 * i + 2)) base symbol as_of (months ! i)
        = prior_view a (w' (tick' + 5 + 5 * i + 2)) base symbol as_of (months ! i)"
      using Cons.prems(3) [rule_format, of "Suc i"] by (simp add: add.assoc)
  qed
  obtain url rows ps where url: "archive_url symbol month ''futures'' = Inr url"
      and rows: "admitted_rows a (w (tick + 2)) (price_archive base url) symbol month = Inr rows"
    by (rule month_days [OF ds(1)])
  obtain vs where vs: "prior_view a (w (tick + 2)) base symbol as_of month = Inr vs"
    using prior_view_rows [OF url rows, of as_of] by blast
  have "prior_view a (w' (tick' + 2)) base symbol as_of month = Inr vs"
    using Cons.prems(3) [rule_format, of 0] vs by simp
  then have "map dv_view (prior_days start as_of ds) = map dv_view (prior_days start as_of ds')"
    using month_view [OF ds(1) url vs, of start] month_view [OF ds'(1) url, of as_of vs start]
    by (metis (no_types, lifting) inj_map_eq_map inj_Some)
  then show ?case using rest by (simp add: ds(3) ds'(3) prior_days_def)
qed simp

lemma bar_adv_view:
  assumes "map dv_view (prior_days (as_of - 30) as_of (va_days x)) = map dv_view (prior_days (as_of - 30) as_of (va_days y))"
    and "va_method x = va_method y" "va_market x = va_market y" "va_symbol x = va_symbol y"
  shows "bar_adv a x as_of = bar_adv a y as_of"
proof -
  let ?x = "prior_days (as_of - 30) as_of (va_days x)" and ?y = "prior_days (as_of - 30) as_of (va_days y)"
  have along: "map (k \<circ> dv_view) ?x = map (k \<circ> dv_view) ?y" for k :: "string \<times> string \<times> string \<Rightarrow> 'b"
    by (simp only: map_map [symmetric] assms(1))
  have "dv_date = fst \<circ> dv_view" by (auto simp: dv_view_def)
  then have "map dv_date ?x = map dv_date ?y" using along [of fst] by simp
  moreover have "day_evidence = (\<lambda>(d, b, s). JDict [(''date'', JStr d), (''base_volume'', JStr b), (''source'', JStr s)]) \<circ> dv_view"
    by (auto simp: dv_view_def day_evidence_def)
  then have "map day_evidence ?x = map day_evidence ?y" using along by metis
  moreover have "base_quantity = (\<lambda>(d, b, s). case parse_decimal b of None \<Rightarrow> Inl (InvalidOperation ''ConversionSyntax'') | Some x \<Rightarrow> Inr x) \<circ> dv_view"
    by (auto simp: dv_view_def base_quantity_def)
  then have "map base_quantity ?x = map base_quantity ?y" using along by metis
  moreover have "map_res base_quantity zs = map_res (\<lambda>r. r) (map base_quantity zs)" for zs by (induction zs) auto
  ultimately show ?thesis using assms(2-4) by (simp add: bar_adv_def adv_evidence_def Let_def)
qed

text \<open>C35: The feature looks only back: two disks whose archives agree, month by month, on the days and base volumes of the rows opened before a day yield the same average and evidence digest for it, whatever their reports, checksums, quote volumes and later rows.\<close>

theorem volume_feature_is_causal:
  assumes "verified_volume_inputs a w tick base symbol as_of = Inr r"
    and "verified_volume_inputs a w' tick' base symbol as_of = Inr r'"
    and "\<forall>i < length (window_months as_of).
           prior_view a (w (tick + 5 * i + 2)) base symbol as_of (window_months as_of ! i)
             = prior_view a (w' (tick' + 5 * i + 2)) base symbol as_of (window_months as_of ! i)"
  shows "vi_adv r = vi_adv r'"
proof -
  obtain days days' where d: "volumes_of_months a w tick base symbol (window_months as_of) = Inr days"
      "volumes_of_months a w' tick' base symbol (window_months as_of) = Inr days'"
    and r: "bar_adv a \<lparr>va_method = volume_method, va_market = ''futures'', va_symbol = symbol, va_days = days\<rparr> as_of = Inr (vi_adv r)"
      "bar_adv a \<lparr>va_method = volume_method, va_market = ''futures'', va_symbol = symbol, va_days = days'\<rparr> as_of = Inr (vi_adv r')"
    using assms(1,2) by (auto simp: verified_volume_inputs_def res_simps)
  show ?thesis
    using r bar_adv_view [of as_of "\<lparr>va_method = volume_method, va_market = ''futures'', va_symbol = symbol, va_days = days\<rparr>"
        "\<lparr>va_method = volume_method, va_market = ''futures'', va_symbol = symbol, va_days = days'\<rparr>" a] months_view [OF d assms(3)]
    by simp
qed

section \<open>Example\<close>

text \<open>The flat month as an archive under its report; the text of the report is the digest it records.\<close>

definition flat_url :: string where
  "flat_url = klines_monthly_url ''BTCUSDT'' (OnDate 739768) ''1m''"

definition flat_auditor :: auditor where
  "flat_auditor =
     \<lparr>au_sha = \<lambda>s. s,
      au_loads = \<lambda>s. Inr (JDict [(''symbol'', JStr ''BTCUSDT''), (''month'', JStr (month_text 739768)), (''market'', JStr ''futures''),
        (''source'', JStr flat_url), (''source_sha256'', JStr s)]),
      au_dumps = \<lambda>_. ''days'',
      au_reader = \<lparr>zip_members = \<lambda>_. Inr [''bars.csv''], zip_csv = \<lambda>_ _. Inr flat_month, gzip_csv = \<lambda>_. Inr flat_month, plain_csv = \<lambda>_. Inr flat_month\<rparr>,
      au_source = text_source\<rparr>"

definition flat_disk :: "string \<Rightarrow> nat \<Rightarrow> disk" where
  "flat_disk content tick = (\<lambda>_. None)(price_report_file [] ''BTCUSDT'' ''futures'' 739768 \<mapsto> content, price_archive [] flat_url \<mapsto> content)"

definition june_day :: "nat \<Rightarrow> string" where "june_day j = iso_text (739768 + int j)"

definition flat_total :: "nat \<Rightarrow> day_total" where
  "flat_total k = \<lparr>dy_base = (k, 0), dy_quote = (k, 0), dy_trades = int k, dy_minutes = k\<rparr>"

lemma june_day_inj: "i < 30 \<Longrightarrow> j < 30 \<Longrightarrow> june_day i = june_day j \<longleftrightarrow> i = j"
  by (simp add: june_day_def iso_text_inj)

lemma py_int_text: "py_int (nat_text n) = Inr (int n)"
proof -
  have digits: "list_all is_digit (nat_text n)" by (rule nat_text_digits)
  have "strip (nat_text n) = nat_text n"
    by (rule strip_kept) (use digits in \<open>auto simp: list_all_iff is_digit_def py_space_def Let_def\<close>)
  moreover have "take_sign (nat_text n) = (False, nat_text n)"
    using digits by (cases "nat_text n") (auto simp: take_sign_def is_digit_def)
  moreover have "CHR ''_'' \<notin> set (nat_text n)" using digits by (auto simp: list_all_iff is_digit_def)
  ultimately show ?thesis by (simp add: py_int_def)
qed

lemma june_minute: "i < june_minutes \<Longrightarrow> date_of_ms (june_start + 60000 * int i) = june_day (i div 1440)"
proof -
  have "(june_start + 60000 * int i) div 86400000 = 20605 + int (i div 1440)"
    by (simp add: june_start_def zdiv_int)
  then show "date_of_ms (june_start + 60000 * int i) = june_day (i div 1440)"
    by (simp add: date_of_ms_def day_of_ms_def june_day_def day_ms_def epoch_ord_def algebra_simps)
qed

definition flat_row :: "nat \<Rightarrow> bar_row" where
  "flat_row i = (Some (nat_text (nat june_start + 60000 * i)), Some ''1'', Some ''1'', Some ''1'')"

lemma flat_add: "k < 1440 \<Longrightarrow> add_minute (1, 0) (1, 0) 1 (flat_total k) = flat_total (k + 1)"
proof -
  assume k: "k < 1440"
  have "length (nat_text (k + 1)) \<le> 4" by (rule nat_text_short) (use k in auto)
  then have "dec_digits (k + 1) \<le> 60" by (simp add: dec_digits_def)
  then have "dec_add (k, 0) (1, 0) = (k + 1, 0)" by (simp add: dec_add_def dec_fix_def)
  then show ?thesis by (simp add: add_minute_def flat_total_def)
qed

lemma flat_bar:
  "i < june_minutes \<Longrightarrow> add_bar totals (flat_row i) = Inr (upd_day (june_day (i div 1440)) no_total (add_minute (1, 0) (1, 0) 1) totals)"
proof -
  assume i: "i < june_minutes"
  have "parse_decimal ''1'' = Some (DFin False 1 0)" by code_simp
  moreover have "py_int ''1'' = Inr 1" by code_simp
  moreover have "int (nat june_start + 60000 * i) = june_start + 60000 * int i" by (simp add: june_start_def)
  ultimately show ?thesis
    using june_minute [OF i] by (simp add: flat_row_def add_bar_def int_cell_def volume_cell_def py_int_text)
qed

lemma upd_new: "d \<notin> fst ` set items \<Longrightarrow> upd_day d x f items = items @ [(d, f x)]"
  by (induction d x f items rule: upd_day.induct) auto

lemma upd_last: "d \<notin> fst ` set items \<Longrightarrow> upd_day d x f (items @ [(d, y)]) = items @ [(d, f y)]"
  by (induction d x f items rule: upd_day.induct) auto

lemma flat_day:
  assumes "j < 30" and "june_day j \<notin> fst ` set totals" and "k \<le> 1440"
  shows "fold_res add_bar totals (map flat_row [1440 * j..<1440 * j + k])
    = Inr (if k = 0 then totals else totals @ [(june_day j, flat_total k)])"
  using assms(3)
proof (induction k)
  case (Suc k)
  have j: "(1440 * j + k) div 1440 = j" "1440 * j + k < june_minutes" using Suc.prems assms(1) by (simp_all add: june_minutes_def)
  have zero: "no_total = flat_total 0" by (simp add: no_total_def flat_total_def)
  have step: "add_minute (1, 0) (1, 0) 1 (flat_total k) = flat_total (k + 1)" using Suc.prems by (intro flat_add) simp
  have "fold_res add_bar totals (map flat_row [1440 * j..<1440 * j + Suc k])
      = bnd (fold_res add_bar totals (map flat_row [1440 * j..<1440 * j + k])) (\<lambda>t. add_bar t (flat_row (1440 * j + k)))"
    by (simp add: fold_res_append bnd_def split: sum.split)
  also have "\<dots> = Inr (totals @ [(june_day j, flat_total (Suc k))])"
    using Suc flat_bar [OF j(2)] step assms(2) by (cases "k = 0") (simp_all add: j(1) upd_new upd_last zero)
  finally show ?case by simp
qed simp

lemma flat_days:
  "m \<le> 30 \<Longrightarrow> fold_res add_bar [] (map flat_row [0..<1440 * m]) = Inr (map (\<lambda>j. (june_day j, flat_total 1440)) [0..<m])"
proof (induction m)
  case (Suc m)
  have "[0..<1440 * Suc m] = [0..<1440 * m] @ [1440 * m..<1440 * m + 1440]"
    using upt_add_eq_append [of 0 "1440 * m" 1440] by (simp add: add.commute)
  moreover have "june_day m \<notin> fst ` set (map (\<lambda>j. (june_day j, flat_total 1440)) [0..<m])"
    using Suc.prems by (auto simp: june_day_inj)
  ultimately show ?case using Suc flat_day [of m _ 1440] by (simp add: fold_res_append)
qed simp

lemma flat_rows: "bar_rows flat_month = Inr (map flat_row [0..<june_minutes])"
proof -
  have one: "nat_text 1 = ''1''" by code_simp
  have cells: "get_texts flat_month k = Inr (map (\<lambda>i. Some (nat_text (if k = ''open_time'' then nat june_start + 60000 * i
      else if k = ''close_time'' then nat june_start + 60000 * i + 59999 else 1))) [0..<june_minutes])"
    if "k \<in> set kline_columns" for k
    using flat_col [OF that] by (simp add: get_texts_def)
  have "get_texts flat_month ''open_time'' = Inr (map (\<lambda>i. Some (nat_text (nat june_start + 60000 * i))) [0..<june_minutes])"
    and "get_texts flat_month ''volume'' = Inr (map (\<lambda>i. Some ''1'') [0..<june_minutes])"
    and "get_texts flat_month ''quote_volume'' = Inr (map (\<lambda>i. Some ''1'') [0..<june_minutes])"
    and "get_texts flat_month ''count'' = Inr (map (\<lambda>i. Some ''1'') [0..<june_minutes])"
    using cells [of "''open_time''"] cells [of "''volume''"] cells [of "''quote_volume''"] cells [of "''count''"]
    by (simp_all add: kline_columns_def one [simplified])
  moreover have "zip (map f xs) (zip (map g xs) (zip (map h xs) (map k xs))) = map (\<lambda>x. (f x, g x, h x, k x)) xs" for f g h k and xs :: "nat list"
    by (induction xs) auto
  ultimately show ?thesis by (simp add: bar_rows_def) (simp add: flat_row_def [abs_def])
qed

lemma flat_archive_name: "last_segment flat_url = ''BTCUSDT-1m-2026-06.zip''"
  by code_simp

lemma flat_admitted_rows:
  "flat_disk content tick (price_archive [] flat_url) = Some content"
  "admitted_rows flat_auditor (flat_disk content tick) (price_archive [] flat_url) ''BTCUSDT'' 739768 = Inr (map flat_row [0..<june_minutes])"
proof -
  show at: "flat_disk content tick (price_archive [] flat_url) = Some content" by (simp add: flat_disk_def)
  have name: "name_of (price_archive [] flat_url) = ''BTCUSDT-1m-2026-06.zip''"
    by (simp add: price_archive_def name_of_def flat_archive_name)
  have "map lower (name_suffix ''BTCUSDT-1m-2026-06.zip'') = ''.zip''" "is_csv ''bars.csv''" by code_simp+
  then have "extract_csv (au_reader flat_auditor) (flat_disk content tick) (price_archive [] flat_url) = Inr flat_month"
    by (simp add: extract_csv_def at name flat_auditor_def)
  then show "admitted_rows flat_auditor (flat_disk content tick) (price_archive [] flat_url) ''BTCUSDT'' 739768 = Inr (map flat_row [0..<june_minutes])"
    using flat_admitted by (auto simp: admitted_rows_def flat_head flat_rows) (simp add: flat_auditor_def)
qed

definition flat_volume :: "string \<Rightarrow> nat \<Rightarrow> day_volume" where
  "flat_volume content j =
     \<lparr>dv_date = june_day j, dv_base = coex_text (1440, 0), dv_quote = coex_text (1440, 0), dv_trades = 1440, dv_minutes = 1440,
      dv_source = flat_url, dv_source_sha = content, dv_report_sha = content\<rparr>"

lemma flat_volumes:
  "monthly_volumes flat_auditor (flat_disk content) tick [] ''BTCUSDT'' 739768 = Inr (map (flat_volume content) [0..<30])"
proof -
  have first: "first_of_month 739768 = 739768" by code_simp
  have url: "archive_url ''BTCUSDT'' 739768 ''futures'' = Inr flat_url" by (simp add: archive_url_def flat_url_def)
  have "price_report_file [] ''BTCUSDT'' ''futures'' 739768 \<noteq> price_archive [] flat_url"
    by (simp add: price_report_file_def price_archive_def)
  then have report: "flat_disk content k (price_report_file [] ''BTCUSDT'' ''futures'' 739768) = Some content" for k
    by (simp add: flat_disk_def)
  define fields where "fields = [(''symbol'', JStr ''BTCUSDT''), (''month'', JStr (month_text 739768)), (''market'', JStr ''futures''),
    (''source'', JStr flat_url), (''source_sha256'', JStr content)]"
  have loads: "au_loads flat_auditor content = Inr (JDict fields)" by (simp add: flat_auditor_def fields_def)
  have identity: "check_identity (JDict fields) [(''symbol'', ''BTCUSDT''), (''month'', month_text 739768), (''market'', ''futures''), (''source'', flat_url)] = Inr ()"
    and recorded: "report_get (JDict fields) ''source_sha256'' = Inr (Some (JStr content))"
    by (simp_all add: check_identity_def report_get_def fields_def)
  have days: "fold_res add_bar [] (map flat_row [0..<june_minutes]) = Inr (map (\<lambda>j. (june_day j, flat_total 1440)) [0..<30])"
    using flat_days [of 30] by (simp add: june_minutes_def)
  have closing: "map_res (close_day flat_url content content) (map (\<lambda>j. (june_day j, flat_total 1440)) [0..<30]) = Inr (map (flat_volume content) [0..<30])"
  proof -
    have "close_day flat_url content content (june_day j, flat_total 1440) = Inr (flat_volume content j)" for j
      by (simp add: close_day_def flat_total_def flat_volume_def)
    then have "map_res (close_day flat_url content content) (map (\<lambda>j. (june_day j, flat_total 1440)) js) = Inr (map (flat_volume content) js)" for js
      by (induction js) auto
    then show ?thesis .
  qed
  have sha: "au_sha flat_auditor content = content" by (simp add: flat_auditor_def)
  show ?thesis
    by (simp add: monthly_volumes_def first url read_at_def report loads identity recorded flat_admitted_rows days closing sha Let_def
        del: upt_Suc)
qed

theorem daily_volumes_are_exact_witness:
  "\<exists>days ps. monthly_volumes flat_auditor (flat_disk ''zip'') 0 [] ''BTCUSDT'' 739768 = Inr days \<and> length days = 30
     \<and> (\<forall>v \<in> set days. length (filter (\<lambda>p. fst p = dv_date v) ps) = 1440 \<and> dv_base v = coex_text (day_sum (dv_date v) ps))"
proof -
  note run = flat_volumes [of "''zip''" 0]
  obtain ps where "\<forall>v \<in> set (map (flat_volume ''zip'') [0..<30]). length (filter (\<lambda>p. fst p = dv_date v) ps) = 1440
      \<and> dv_base v = coex_text (day_sum (dv_date v) ps) \<and> 0 < coex_val (day_sum (dv_date v) ps)"
    using daily_volumes_are_exact [OF run] by blast
  then show ?thesis
    by (intro exI [of _ "map (flat_volume ''zip'') [0..<30]"] exI [of _ ps] conjI run) auto
qed

lemma flat_window: "window_months 739798 = [739768]"
  by code_simp

lemma digits_small: "c < 10 ^ 60 \<Longrightarrow> dec_digits c \<le> 60"
  unfolding dec_digits_def by (rule nat_text_short) auto

lemma dec_add_small: "a + b < 10 ^ 60 \<Longrightarrow> dec_add (a, 0) (b, 0) = (a + b, 0)"
  using digits_small [of "a + b"] by (simp add: dec_add_def dec_fix_def)

lemma sum_small: "a + n * b < 10 ^ 60 \<Longrightarrow> foldl dec_add (a, 0) (replicate n (b, 0)) = (a + n * b, 0)"
proof (induction n arbitrary: a)
  case (Suc n)
  then show ?case using Suc.IH [of "a + b"] dec_add_small [of a b] by (simp add: algebra_simps)
qed simp

lemma strip_power: "strip_zeros (c * 10 ^ k) (- int k) 0 = (c, 0)"
proof (induction k)
  case (Suc k)
  have "strip_zeros (c * 10 ^ Suc k) (- int (Suc k)) 0 = strip_zeros (c * 10 ^ k) (- int (Suc k) + 1) 0"
    by (subst strip_zeros.simps) (simp add: mult.assoc)
  then show ?case using Suc by simp
qed (simp add: strip_zeros.simps)

lemma flat_mean: "mean_volume (replicate 30 (DFin False 1440 0)) = (1440, 0)"
proof -
  have sum: "foldl dec_add (0, 0) (map coex_of (replicate 30 (DFin False 1440 0))) = (43200, 0)"
    using sum_small [of 0 30 1440] by simp
  have digits: "dec_digits 43200 = 5" "dec_digits 30 = 2" by (simp_all add: dec_digits_def nat_text.simps)
  have quot: "43200 * 10 ^ 58 div 30 = 1440 * (10 :: nat) ^ 58" "43200 * 10 ^ 58 mod 30 = (0 :: nat)" by simp_all
  have "dec_div (43200, 0) (30, 0) = dec_fix (strip_zeros (1440 * 10 ^ 58) (- int 58) 0)"
    unfolding dec_div_def Let_def fst_conv snd_conv digits by (simp add: quot [simplified])
  also have "\<dots> = (1440, 0)" unfolding strip_power using digits_small [of 1440] by (simp add: dec_fix_def)
  finally show ?thesis unfolding mean_volume_def sum .
qed

lemma flat_inputs:
  "\<exists>r. verified_volume_inputs flat_auditor (flat_disk content) 0 [] ''BTCUSDT'' 739798 = Inr r
     \<and> (flat_url, content, content) \<in> set (vi_provenance r) \<and> (\<forall>p \<in> set (vi_provenance r). fst (snd p) = content)
     \<and> af_base_adv (vi_adv r) = ''1440''"
proof -
  let ?days = "map (flat_volume content) [0..<30]"
  have all: "prior_days 739768 739798 ?days = ?days"
    by (auto simp: prior_days_def flat_volume_def june_day_def iso_text_le iso_text_less intro!: filter_True)
  have dates: "map dv_date ?days = expected_days 739768"
    by (simp add: expected_days_def flat_volume_def june_day_def comp_def del: upt_Suc)
  have quantity: "base_quantity (flat_volume content j) = Inr (DFin False 1440 0)" for j
    using format_parse [of False 1440 0] by (simp add: base_quantity_def flat_volume_def coex_text_def)
  have quantities: "map_res base_quantity ?days = Inr (replicate 30 (DFin False 1440 0))"
  proof -
    have "map_res base_quantity (map (flat_volume content) js) = Inr (map (\<lambda>_. DFin False 1440 0) js)" for js
      by (induction js) (simp_all add: quantity)
    then show ?thesis by (simp only: map_replicate_const length_upt) simp
  qed
  have mean: "coex_text (mean_volume (replicate 30 (DFin False 1440 0))) = ''1440''"
    unfolding flat_mean coex_text_def by code_simp
  have "june_day 0 = ''2026-06-01''" by (simp add: june_day_def) code_simp
  then have "suffix ''-01'' (dv_date (flat_volume content 0))" by (simp add: flat_volume_def suffix_def)
  then have first: "(flat_url, content, content) \<in> set (volume_provenance ?days)"
    by (force simp: volume_provenance_def flat_volume_def)
  have same: "\<forall>p \<in> set (volume_provenance ?days). fst (snd p) = content"
    by (auto simp: volume_provenance_def flat_volume_def)
  show ?thesis
    by (simp add: verified_volume_inputs_def flat_window flat_volumes bar_adv_def all dates [unfolded map_map] quantities mean list_all_iff usable_def
        Let_def first same del: upt_Suc)
qed

text \<open>Another archive of the same bars: the provenance differs, the feature does not.\<close>

theorem volume_feature_is_causal_witness:
  "\<exists>r r'. verified_volume_inputs flat_auditor (flat_disk ''zip'') 0 [] ''BTCUSDT'' 739798 = Inr r
     \<and> verified_volume_inputs flat_auditor (flat_disk ''zap'') 0 [] ''BTCUSDT'' 739798 = Inr r'
     \<and> vi_provenance r \<noteq> vi_provenance r' \<and> vi_adv r = vi_adv r'"
proof -
  obtain r where r: "verified_volume_inputs flat_auditor (flat_disk ''zip'') 0 [] ''BTCUSDT'' 739798 = Inr r"
      "(flat_url, ''zip'', ''zip'') \<in> set (vi_provenance r)"
    using flat_inputs [of "''zip''"] by blast
  obtain r' where r': "verified_volume_inputs flat_auditor (flat_disk ''zap'') 0 [] ''BTCUSDT'' 739798 = Inr r'"
      "\<forall>p \<in> set (vi_provenance r'). fst (snd p) = ''zap''"
    using flat_inputs [of "''zap''"] by blast
  have url: "archive_url ''BTCUSDT'' 739768 ''futures'' = Inr flat_url" by (simp add: archive_url_def flat_url_def)
  have "vi_adv r = vi_adv r'"
    by (rule volume_feature_is_causal [OF r(1) r'(1)])
       (simp add: flat_window prior_view_rows [OF url flat_admitted_rows(2)])
  moreover have "vi_provenance r \<noteq> vi_provenance r'" using r(2) r'(2) by fastforce
  ultimately show ?thesis using r(1) r'(1) by blast
qed

end
