(* ===== verification/Calibration.thy ===== *)
theory Calibration
  imports BarVolume Book OrderSize ValidateData ImpactIO FundingSeries
begin

text \<open>
  Calibration samples (\<open>models/calibration_dataset.py\<close>), with the batches of a book partition
  (\<open>replay.py\<close>, \<open>ingestion/book_partitions.py\<close>, \<open>storage.iter_parquet_batches\<close>): the configuration,
  the evidence an input must carry, the event stream by exchange millisecond, and the sampling loop
  with its look-ahead buffer. The C++ core (queue, book, simulated orders), Parquet batches, digests,
  the JSON reader and \<open>np.geomspace\<close> are parameters.
\<close>

section \<open>The event stream\<close>

datatype book_side = BidSide | AskSide

record book_update =
  bu_time :: int
  bu_local :: int
  bu_snapshot :: bool
  bu_side :: book_side
  bu_price :: pynum
  bu_quantity :: pynum

definition side_of :: "string option \<Rightarrow> book_side res" where
  "side_of value =
     (if value = Some ''bid'' then Inr BidSide else if value = Some ''ask'' then Inr AskSide
      else Inl (ReplayInputError ''unknown side''))"

definition updates_from_batch :: "frame \<Rightarrow> book_update list res" where
  "updates_from_batch batch =
     bnd (get_ints batch ''timestamp'') (\<lambda>ts. bnd (get_ints batch ''local_timestamp'') (\<lambda>ls.
     bnd (get_bools batch ''is_snapshot'') (\<lambda>ss. bnd (get_texts batch ''side'') (\<lambda>sides.
     bnd (get_nums batch ''price'') (\<lambda>ps. bnd (get_nums batch ''quantity'') (\<lambda>qs.
     map_res (\<lambda>i. bnd (side_of (sides ! i)) (\<lambda>s.
       Inr \<lparr>bu_time = ts ! i, bu_local = ls ! i, bu_snapshot = ss ! i, bu_side = s, bu_price = ps ! i, bu_quantity = qs ! i\<rparr>))
       [0..<nrows batch]))))))"

text \<open>A generator is what it yields and the error it ends with.\<close>

type_synonym 'a gen = "'a list \<times> exn option"

fun iter_parquet_batches :: "('f \<Rightarrow> frame gen) \<Rightarrow> 'f list \<Rightarrow> frame gen" where
  "iter_parquet_batches batches [] = ([], None)"
| "iter_parquet_batches batches (file # files) =
     (case batches file of
        (bs, Some e) \<Rightarrow> (bs, Some e)
      | (bs, None) \<Rightarrow> (case iter_parquet_batches batches files of (later, e) \<Rightarrow> (bs @ later, e)))"

fun batch_updates :: "frame list \<Rightarrow> exn option \<Rightarrow> book_update gen" where
  "batch_updates [] e = ([], e)"
| "batch_updates (b # bs) e =
     (case updates_from_batch b of
        Inl e' \<Rightarrow> ([], Some e')
      | Inr us \<Rightarrow> (case batch_updates bs e of (later, e') \<Rightarrow> (us @ later, e')))"

type_synonym group = "int \<times> book_update list"

fun runs_of :: "book_update list \<Rightarrow> group list" where \<comment> \<open>\<open>itertools.groupby\<close> on the timestamp\<close>
  "runs_of [] = []"
| "runs_of (u # us) =
     (case runs_of us of
        [] \<Rightarrow> [(bu_time u, [u])]
      | (t, g) # gs \<Rightarrow> if t = bu_time u then (t, u # g) # gs else (bu_time u, [u]) # (t, g) # gs)"

text \<open>A group is yielded once the next one begins or the stream ends, not when it breaks off.\<close>

definition event_stream :: "('f \<Rightarrow> frame gen) \<Rightarrow> 'f list \<Rightarrow> book_update gen" where
  "event_stream batches files = (case iter_parquet_batches batches files of (bs, e) \<Rightarrow> batch_updates bs e)"

definition groups_of :: "('f \<Rightarrow> frame gen) \<Rightarrow> 'f list \<Rightarrow> group gen" where
  "groups_of batches files =
     (case event_stream batches files of
        (us, None) \<Rightarrow> (runs_of us, None)
      | (us, Some e) \<Rightarrow> (butlast (runs_of us), Some e))"

section \<open>Configuration\<close>

record cal_config =
  cg_every :: int
  cg_size_count :: int
  cg_min :: pynum
  cg_max :: pynum
  cg_adv_days :: int
  cg_adv_source :: string
  cg_duration :: int
  cg_slices :: int
  cg_batch :: int
  cg_side :: string
  cg_queue :: int

definition mk_cal_config :: "cal_config \<Rightarrow> cal_config res" where
  "mk_cal_config c =
     bnd (guard (cg_adv_source c \<notin> {''trades'', ''futures_bars''}) (ValueError ''ADV source must be trades or futures_bars'')) (\<lambda>_.
     bnd (guard (cg_adv_source c = ''futures_bars'' \<and> cg_adv_days c \<noteq> 30) (ValueError ''futures-bar ADV requires a 30-day window'')) (\<lambda>_.
     bnd (guard (min (cg_every c) (min (cg_adv_days c) (min (cg_slices c) (min (cg_batch c) (cg_queue c)))) < 1)
            (ValueError ''sampling, ADV, slices and batch size must be positive'')) (\<lambda>_.
     bnd (guard (cg_size_count c < 2 \<or> cg_duration c < 0 \<or> cg_side c \<notin> {''buy'', ''sell''})
            (ValueError ''invalid size count, duration or order side'')) (\<lambda>_.
     bnd (guard (\<not> (flt (Fin 0) (cg_min c) \<and> flt (cg_min c) (cg_max c) \<and> flt (cg_max c) PInf))
            (ValueError ''size fractions must be finite, positive and increasing'')) (\<lambda>_.
     Inr c)))))"

definition default_cal_config :: cal_config where
  "default_cal_config =
     \<lparr>cg_every = 5000, cg_size_count = 40, cg_min = fl (1 / 100000), cg_max = fl (1 / 10), cg_adv_days = 30, cg_adv_source = ''trades'',
      cg_duration = 10000, cg_slices = 5, cg_batch = 100000, cg_side = ''buy'', cg_queue = 65536\<rparr>"

section \<open>Verified inputs\<close>

text \<open>
  What the audit of the inputs sees of the data root, which it takes not to change meanwhile: the
  fingerprint of a partition by sorted file names, the text of a report, and the JSON reader.
\<close>

record cal_view =
  vw_prints :: "path \<Rightarrow> evidence"
  vw_report :: "string \<Rightarrow> string option"
  vw_loads :: "string \<Rightarrow> json res"

definition partition_files :: "cal_view \<Rightarrow> string \<Rightarrow> string \<Rightarrow> int \<Rightarrow> (path \<times> string list) res" where
  "partition_files vw dataset symbol day =
     (let directory = book_partition dataset symbol (OnDate day); files = map fst (vw_prints vw directory) in
      bnd (guard (files = []) (BookPartitionError ''no partition'')) (\<lambda>_. Inr (directory, files)))"

fun truthy :: "json \<Rightarrow> bool" where
  "truthy JNull = False"
| "truthy (JBool b) = b"
| "truthy (JInt i) = (i \<noteq> 0)"
| "truthy (JNum x) = (\<not> feq x (Fin 0))"
| "truthy (JStr s) = (s \<noteq> [])"
| "truthy (JList xs) = (xs \<noteq> [])"
| "truthy (JDict d) = (d \<noteq> [])"

fun same_digests :: "evidence \<Rightarrow> json \<Rightarrow> bool" where \<comment> \<open>equality of dicts\<close>
  "same_digests ev (JDict d) =
     (list_all (\<lambda>(k, v). map_of d k = Some (JStr v)) ev \<and> list_all (\<lambda>(k, _). map_of ev k \<noteq> None) d)"
| "same_digests ev _ = False"

fun any_res :: "('a \<Rightarrow> bool res) \<Rightarrow> 'a list \<Rightarrow> bool res" where
  "any_res p [] = Inr False"
| "any_res p (x # xs) = bnd (p x) (\<lambda>b. if b then Inr True else any_res p xs)"

definition read_report :: "cal_view \<Rightarrow> string \<Rightarrow> exn \<Rightarrow> json res" where
  "read_report vw name missing = (case vw_report vw name of None \<Rightarrow> Inl missing | Some text \<Rightarrow> vw_loads vw text)"

definition check_replay :: "cal_view \<Rightarrow> string \<Rightarrow> int \<Rightarrow> json res" where
  "check_replay vw symbol day =
     bnd (read_report vw (''book-'' @ symbol @ ''-'' @ iso_text day @ ''.json'') (OrderSizeError ''no independent book replay report'')) (\<lambda>replay.
     bnd (dict_get ''passed'' replay) (\<lambda>passed.
     bnd (if truthy passed then bnd (dict_get ''coverage'' replay) (\<lambda>c. Inr (c \<noteq> JStr ''full day'')) else Inr True) (\<lambda>bad.
     bnd (guard bad (OrderSizeError ''book replay rejected'')) (\<lambda>_.
     bnd (map_res (\<lambda>dataset.
            bnd (partition_files vw dataset symbol day) (\<lambda>(directory, _).
            bnd (dict_get ''input_sha256'' replay) (\<lambda>inputs.
            bnd (dict_get dataset inputs) (\<lambda>recorded.
            guard (\<not> same_digests (vw_prints vw directory) recorded) (OrderSizeError ''stale book replay report'')))))
          tardis_datasets) (\<lambda>_.
     Inr replay)))))"

text \<open>\<open>value in {None, text}\<close>: a list or a dict has no hash.\<close>

fun in_scope :: "string \<Rightarrow> json \<Rightarrow> bool res" where
  "in_scope t JNull = Inr True"
| "in_scope t (JList _) = Inl (TypeError ''unhashable type'')"
| "in_scope t (JDict _) = Inl (TypeError ''unhashable type'')"
| "in_scope t v = Inr (v = JStr t)"

definition scoped :: "string \<Rightarrow> string \<Rightarrow> string \<Rightarrow> json \<Rightarrow> bool res" where
  "scoped dataset symbol date r =
     bnd (dict_get ''dataset'' r) (\<lambda>d. if d \<noteq> JStr dataset then Inr False else
     bnd (bnd (dict_get ''symbol'' r) (in_scope symbol)) (\<lambda>b. if \<not> b then Inr False else
     bnd (dict_get ''date'' r) (in_scope date)))"

definition rejecting :: "json \<Rightarrow> bool res" where
  "rejecting r =
     bnd (dict_get ''passed'' r) (\<lambda>p. if truthy p then Inr False else
     bnd (dict_get ''skipped'' r) (\<lambda>s. Inr (\<not> truthy s)))"

definition reconciles :: "string \<Rightarrow> string \<Rightarrow> json \<Rightarrow> bool res" where
  "reconciles symbol date r =
     bnd (dict_get ''check'' r) (\<lambda>c. if c \<noteq> JStr ''volume_reconciliation'' then Inr False else
     bnd (dict_get ''date'' r) (\<lambda>d. if d \<noteq> JStr date then Inr False else
     bnd (dict_get ''symbol'' r) (\<lambda>s. if s \<noteq> JStr symbol then Inr False else
     bnd (dict_get ''passed'' r) (\<lambda>p. if \<not> truthy p then Inr False else
     bnd (dict_get ''skipped'' r) (\<lambda>k. Inr (\<not> truthy k))))))"

definition listed_as :: "string \<Rightarrow> string \<Rightarrow> string \<Rightarrow> json \<Rightarrow> bool res" where
  "listed_as dataset symbol date entry =
     bnd (dict_get ''dataset'' entry) (\<lambda>d. bnd (dict_get ''symbol'' entry) (\<lambda>s. bnd (dict_get ''date'' entry) (\<lambda>t.
     Inr (d = JStr dataset \<and> s = JStr symbol \<and> t = JStr date))))"

definition verify_partition :: "cal_view \<Rightarrow> json \<Rightarrow> string \<Rightarrow> string \<times> string \<Rightarrow> json res" where
  "verify_partition vw report symbol required =
     (case required of (dataset, date) \<Rightarrow>
        bnd (bnd (dict_get ''partitions'' report) as_list) (\<lambda>partitions.
        bnd (filter_res (listed_as dataset symbol date) partitions) (\<lambda>entries.
        bnd (guard (length entries \<noteq> 1) (OrderSizeError ''unverified partition'')) (\<lambda>_.
        bnd (dict_get ''sha256'' (hd entries)) (\<lambda>recorded.
        bnd (guard (\<not> truthy recorded) (OrderSizeError ''unverified partition'')) (\<lambda>_.
        bnd (guard (\<not> same_digests (vw_prints vw (partition_path dataset symbol date)) recorded) (OrderSizeError ''stale quality report'')) (\<lambda>_.
        bnd (bnd (bnd (dict_get ''quality'' report) (dict_get ''results'')) as_list) (\<lambda>results.
        bnd (filter_res (scoped dataset symbol date) results) (\<lambda>checks.
        bnd (any_res rejecting checks) (\<lambda>bad.
        bnd (guard bad (OrderSizeError ''quality-rejected'')) (\<lambda>_.
        bnd (if dataset = trades_dir then any_res (reconciles symbol date) checks else Inr True) (\<lambda>reconciled.
        bnd (guard (\<not> reconciled) (OrderSizeError ''volume not reconciled'')) (\<lambda>_.
        Inr (hd entries))))))))))))))"

definition required_partitions :: "cal_config \<Rightarrow> int \<Rightarrow> (string \<times> string) list" where
  "required_partitions cfg day =
     (if cg_adv_source cfg = ''trades'' then map (\<lambda>i. (trades_dir, iso_text (day - i))) [0 .. cg_adv_days cfg] else [])
       @ [(''book'', iso_text day)]"

record cal_inputs =
  ci_entries :: "json list"
  ci_replay :: json
  ci_volume :: "volume_inputs option"

definition verified_inputs ::
  "cal_view \<Rightarrow> (string \<Rightarrow> int \<Rightarrow> volume_inputs res) \<Rightarrow> string \<Rightarrow> int \<Rightarrow> cal_config \<Rightarrow> json option \<Rightarrow> cal_inputs res" where
  "verified_inputs vw volume symbol day cfg given =
     bnd (check_replay vw symbol day) (\<lambda>replay.
     bnd (case given of Some report \<Rightarrow> Inr report
          | None \<Rightarrow> read_report vw ''corpus.json'' (OrderSizeError ''no corpus quality report'')) (\<lambda>report.
     bnd (map_res (verify_partition vw report symbol) (required_partitions cfg day)) (\<lambda>verified.
     bnd (if cg_adv_source cfg = ''futures_bars'' then bnd (volume symbol day) (\<lambda>v. Inr (Some v)) else Inr None) (\<lambda>v.
     Inr \<lparr>ci_entries = verified, ci_replay = replay, ci_volume = v\<rparr>))))"

section \<open>Sampling\<close>

record market_fill =
  mf_requested :: pynum
  mf_filled :: pynum
  mf_notional :: pynum
  mf_average :: pynum
  mf_worst :: pynum
  mf_mid :: pynum
  mf_touch :: pynum
  mf_vs_mid :: pynum
  mf_vs_touch :: pynum
  mf_levels :: int
  mf_beyond :: bool
  mf_crossed :: bool
  mf_exhausted :: bool

record sliced_fill =
  sf_parent :: market_fill
  sf_exhausted :: int
  sf_beyond :: int
  sf_crossed :: int

text \<open>The core: a queue that applies updates to a replayer, and orders simulated on the replayer's book.\<close>

record ('p, 'r) core =
  co_start :: "int \<Rightarrow> 'p res"
  co_run :: "'p \<Rightarrow> book_update list \<Rightarrow> 'p res"
  co_state :: "'p \<Rightarrow> 'r"
  co_applied :: "'p \<Rightarrow> int"
  co_levels :: "'r \<Rightarrow> book_side \<Rightarrow> (pynum \<times> pynum) list"
  co_market :: "'r \<Rightarrow> bool \<Rightarrow> pynum \<Rightarrow> market_fill res"
  co_sliced :: "'r \<Rightarrow> book_update list \<Rightarrow> bool \<Rightarrow> pynum \<Rightarrow> int \<times> int \<times> int \<Rightarrow> sliced_fill res"

record sample_row =
  sw_symbol :: string
  sw_date :: string
  sw_time :: int
  sw_events :: int
  sw_side :: string
  sw_schedule :: string
  sw_adv :: pynum
  sw_fraction :: pynum
  sw_percent :: pynum
  sw_depth_fraction :: pynum
  sw_depth_percent :: pynum
  sw_visible :: pynum
  sw_completed :: bool
  sw_duration :: int
  sw_slices :: int
  sw_exhausted :: int
  sw_beyond :: int
  sw_crossed :: int
  sw_fill :: market_fill

record sampling =
  sg_symbol :: string
  sg_day :: int
  sg_adv :: pynum
  sg_fractions :: "pynum list"

definition bool_int :: "bool \<Rightarrow> int" where "bool_int b = (if b then 1 else 0)"

definition size_fractions :: "(pynum \<Rightarrow> pynum \<Rightarrow> int \<Rightarrow> pynum list) \<Rightarrow> cal_config \<Rightarrow> pynum list" where
  "size_fractions geomspace cfg =
     (let fs = geomspace (cg_min cfg) (cg_max cfg) (cg_size_count cfg)
      in (fs[0 := cg_min cfg])[length fs - 1 := cg_max cfg])"

definition per_depth :: "pynum \<Rightarrow> pynum \<Rightarrow> pynum" where
  "per_depth quantity depth =
     (if flt (Fin 0) depth then (case fdiv quantity depth of Inr x \<Rightarrow> x | Inl _ \<Rightarrow> NaN) else NaN)"

definition size_row ::
  "sampling \<Rightarrow> cal_config \<Rightarrow> int \<Rightarrow> int \<Rightarrow> pynum \<Rightarrow> pynum \<Rightarrow> pynum \<Rightarrow> string \<Rightarrow> market_fill \<Rightarrow> int \<times> int \<times> int \<times> int \<times> int \<Rightarrow> sample_row" where
  "size_row sg cfg t applied depth fraction quantity name fill counts =
     (case counts of (duration, slices, exhausted, beyond, crossing) \<Rightarrow>
        \<lparr>sw_symbol = sg_symbol sg, sw_date = iso_text (sg_day sg), sw_time = t, sw_events = applied, sw_side = cg_side cfg,
         sw_schedule = name, sw_adv = sg_adv sg, sw_fraction = fraction, sw_percent = fmul fraction (Fin 100),
         sw_depth_fraction = per_depth quantity depth,
         sw_depth_percent = (if flt (Fin 0) depth then fmul (per_depth quantity depth) (Fin 100) else NaN),
         sw_visible = depth, sw_completed = (\<not> mf_exhausted fill), sw_duration = duration, sw_slices = slices,
         sw_exhausted = exhausted, sw_beyond = beyond, sw_crossed = crossing, sw_fill = fill\<rparr>)"

text \<open>The two rows of one size: the whole order at once, and the order in slices.\<close>

definition size_rows ::
  "('p, 'r) core \<Rightarrow> sampling \<Rightarrow> cal_config \<Rightarrow> 'r \<Rightarrow> book_update list \<Rightarrow> int \<Rightarrow> int \<Rightarrow> pynum \<Rightarrow> pynum \<Rightarrow> sample_row list res" where
  "size_rows co sg cfg replayer future t applied depth fraction =
     (let quantity = fmul fraction (sg_adv sg); buy = (cg_side cfg = ''buy'') in
      bnd (co_market co replayer buy quantity) (\<lambda>static.
      bnd (co_sliced co replayer future buy quantity (t, cg_duration cfg, cg_slices cfg)) (\<lambda>sliced.
      Inr [size_row sg cfg t applied depth fraction quantity ''static'' static
             (0, 1, bool_int (mf_exhausted static), bool_int (mf_beyond static), bool_int (mf_crossed static)),
           size_row sg cfg t applied depth fraction quantity ''sliced'' (sf_parent sliced)
             (cg_duration cfg, cg_slices cfg, sf_exhausted sliced, sf_beyond sliced, sf_crossed sliced)])))"

definition instant_rows ::
  "('p, 'r) core \<Rightarrow> sampling \<Rightarrow> cal_config \<Rightarrow> 'r \<Rightarrow> book_update list \<Rightarrow> int \<Rightarrow> int \<Rightarrow> sample_row list res" where
  "instant_rows co sg cfg replayer future t applied =
     (let levels = co_levels co replayer (if cg_side cfg = ''buy'' then AskSide else BidSide);
          depth = py_sum (map snd (take 25 levels)) in
      bnd (map_res (size_rows co sg cfg replayer future t applied depth) (sg_fractions sg)) (\<lambda>rows. Inr (concat rows)))"

definition last_slice :: "cal_config \<Rightarrow> int \<Rightarrow> int" where
  "last_slice cfg t = t + cg_duration cfg * (cg_slices cfg - 1) div cg_slices cfg"

text \<open>
  Reading ahead through the last slice, keeping the first group beyond it. The flag tells that the
  stream was read to its end, where its error is raised.
\<close>

fun read_ahead :: "int \<Rightarrow> group list \<Rightarrow> group list \<Rightarrow> group list \<times> group list \<times> bool" where
  "read_ahead until pending [] = (pending, [], pending = [] \<or> fst (last pending) \<le> until)"
| "read_ahead until pending (g # rest) =
     (if pending = [] \<or> fst (last pending) \<le> until then read_ahead until (pending @ [g]) rest else (pending, g # rest, False))"

definition next_group :: "group list \<Rightarrow> group list \<Rightarrow> (group \<times> group list \<times> group list) option" where
  "next_group pending rest =
     (case pending of
        g # gs \<Rightarrow> Some (g, gs, rest)
      | [] \<Rightarrow> (case rest of g # gs \<Rightarrow> Some (g, [], gs) | [] \<Rightarrow> None))"

record 'p progress =
  pg_pipe :: 'p
  pg_batch :: "book_update list"
  pg_applied :: int
  pg_threshold :: int
  pg_rows :: "sample_row list"

lemma read_ahead_keeps: "read_ahead until pending rest = (p, r, hit) \<Longrightarrow> p @ r = pending @ rest"
  by (induction until pending rest rule: read_ahead.induct) (auto split: if_splits)

lemma next_group_Some: "next_group pending rest = Some (g, p, r) \<longleftrightarrow>
    (pending = g # p \<and> r = rest) \<or> (pending = [] \<and> p = [] \<and> rest = g # r)"
  by (auto simp: next_group_def split: list.splits)

lemma next_group_less: "next_group pending rest = Some (g, p, r) \<Longrightarrow> length p + length r < length pending + length rest"
  by (auto simp: next_group_Some)

lemma read_ahead_length: "read_ahead until pending rest = (p, r, hit) \<Longrightarrow> length p + length r = length pending + length rest"
  using read_ahead_keeps by (metis length_append)

function sample_loop ::
  "('p, 'r) core \<Rightarrow> sampling \<Rightarrow> cal_config \<Rightarrow> exn option \<Rightarrow> 'p progress \<Rightarrow> group list \<Rightarrow> group list \<Rightarrow> 'p progress res" where
  "sample_loop co sg cfg failure pg pending rest =
     (case next_group pending rest of
        None \<Rightarrow> (case failure of Some e \<Rightarrow> Inl e | None \<Rightarrow> Inr pg)
      | Some ((t, updates), pending1, rest1) \<Rightarrow>
          let batch = pg_batch pg @ updates; applied = pg_applied pg + int (length updates) in
          if applied < pg_threshold pg
          then sample_loop co sg cfg failure (pg\<lparr>pg_batch := batch, pg_applied := applied\<rparr>) pending1 rest1
          else
            bnd (co_run co (pg_pipe pg) batch) (\<lambda>pipe.
            let replayer = co_state co pipe; until = last_slice cfg t;
                pg1 = pg\<lparr>pg_pipe := pipe, pg_batch := [], pg_applied := applied,
                         pg_threshold := (applied div cg_every cfg + 1) * cg_every cfg\<rparr> in
            if utc_ms (sg_day sg + 1) \<le> until then sample_loop co sg cfg failure pg1 pending1 rest1
            else
              case read_ahead until pending1 rest1 of (pending2, rest2, hit) \<Rightarrow>
                bnd (case failure of Some e \<Rightarrow> guard hit e | None \<Rightarrow> Inr ()) (\<lambda>_.
                let future = concat (map snd (filter (\<lambda>g. fst g \<le> until) pending2)) in
                bnd (instant_rows co sg cfg replayer future t applied) (\<lambda>rows.
                sample_loop co sg cfg failure (pg1\<lparr>pg_rows := pg_rows pg1 @ rows\<rparr>) pending2 rest2))))"
  by pat_completeness auto
termination
proof (relation "measure (\<lambda>(co, sg, cfg, failure, pg, pending, rest). length pending + length rest)", goal_cases)
  case (2 co sg cfg failure pg pending rest x2 x y xa ya xb yb)
  then have "next_group pending rest = Some ((xa, ya), xb, yb)" by simp
  then show ?case by (simp add: next_group_less)
next
  case (3 co sg cfg failure pg pending rest x2 x y xa ya xb yb)
  then have "next_group pending rest = Some ((xa, ya), xb, yb)" by simp
  then show ?case by (simp add: next_group_less)
next
  case (4 co sg cfg failure pg pending rest x2 x y xa ya xb yb xc xd xe xf xg xh xi yc xj yd)
  then have "next_group pending rest = Some ((xa, ya), xb, yb)" "read_ahead xg xb yb = (xi, xj, yd)" by simp_all
  then have "length xi + length xj < length pending + length rest"
    using next_group_less read_ahead_length by metis
  then show ?case by simp
qed simp

declare sample_loop.simps [simp del]

definition sample_rows ::
  "('p, 'r) core \<Rightarrow> sampling \<Rightarrow> cal_config \<Rightarrow> group gen \<Rightarrow> (sample_row list \<times> int) res" where
  "sample_rows co sg cfg groups =
     bnd (co_start co (cg_queue cfg)) (\<lambda>pipe.
     bnd (sample_loop co sg cfg (snd groups)
            \<lparr>pg_pipe = pipe, pg_batch = [], pg_applied = 0, pg_threshold = cg_every cfg, pg_rows = []\<rparr> [] (fst groups)) (\<lambda>pg.
     bnd (guard (pg_rows pg = []) (ValueError ''sampling produced no instants'')) (\<lambda>_.
     bnd (if pg_batch pg = [] then Inr (pg_pipe pg) else co_run co (pg_pipe pg) (pg_batch pg)) (\<lambda>pipe'.
     bnd (guard (co_applied co pipe' \<noteq> pg_applied pg) (RuntimeError ''queue replay did not consume every source event'')) (\<lambda>_.
     Inr (pg_rows pg, pg_applied pg))))))"

section \<open>A generated day\<close>

text \<open>
  What a generated day depends on besides the inputs: pandas' sums, the stored trades, Parquet, git, the
  digests of the sources and of the extension, and the fingerprint of the written partition.
\<close>

record cal_env =
  ce_view :: cal_view
  ce_volume :: "string \<Rightarrow> int \<Rightarrow> volume_inputs res"
  ce_psum :: "pynum list \<Rightarrow> pynum"
  ce_pmean :: "pynum list \<Rightarrow> pynum"
  ce_trades :: "string \<Rightarrow> trade_dir"
  ce_batches :: "int \<Rightarrow> path \<times> string \<Rightarrow> frame gen"
  ce_geomspace :: "pynum \<Rightarrow> pynum \<Rightarrow> int \<Rightarrow> pynum list"
  ce_parquet :: "sample_row list \<Rightarrow> string"
  ce_prints :: "disk \<Rightarrow> location \<Rightarrow> evidence"
  ce_revision :: "string res"
  ce_sources :: "evidence res"
  ce_extension :: string
  ce_dumps :: "json \<Rightarrow> string"
  ce_root :: location

definition float_text :: "string \<Rightarrow> pynum res" where \<comment> \<open>\<open>float(text)\<close> of a plain decimal\<close>
  "float_text s =
     (case Option.bind (parse_decimal s) DecText.dec_val of
        Some r \<Rightarrow> Inr (fl r)
      | None \<Rightarrow> Inl (ValueError ''could not convert string to float''))"

definition day_adv :: "cal_env \<Rightarrow> cal_config \<Rightarrow> string \<Rightarrow> int \<Rightarrow> pynum option res" where
  "day_adv ev cfg symbol day =
     (if cg_adv_source cfg = ''trades''
      then bnd (average_daily_volume (ce_psum ev) (ce_pmean ev) (ce_trades ev symbol) (OnDate day) (cg_adv_days cfg)) (\<lambda>v. Inr (Some v))
      else Inr None)"

definition input_adv :: "cal_config \<Rightarrow> pynum option \<Rightarrow> cal_inputs \<Rightarrow> pynum res" where
  "input_adv cfg adv inputs =
     (case (ci_volume inputs, adv) of
        (Some v, _) \<Rightarrow> float_text (af_base_adv (vi_adv v))
      | (None, Some x) \<Rightarrow> Inr x
      | (None, None) \<Rightarrow> Inl (TypeError ''float() argument must not be None''))"

definition digests_json :: "evidence \<Rightarrow> json" where
  "digests_json ev = JDict (map (\<lambda>(k, v). (k, JStr v)) ev)"

definition cal_config_json :: "cal_config \<Rightarrow> json" where
  "cal_config_json c =
     JDict [(''sample_every'', JInt (cg_every c)), (''size_count'', JInt (cg_size_count c)), (''min_adv_fraction'', JNum (cg_min c)),
       (''max_adv_fraction'', JNum (cg_max c)), (''adv_days'', JInt (cg_adv_days c)), (''adv_source'', JStr (cg_adv_source c)),
       (''duration_ms'', JInt (cg_duration c)), (''slices'', JInt (cg_slices c)), (''batch_size'', JInt (cg_batch c)),
       (''side'', JStr (cg_side c)), (''queue_capacity'', JInt (cg_queue c))]"

definition volume_json :: "volume_inputs \<Rightarrow> json" where
  "volume_json v =
     JDict [(''adv'', JDict [(''base_adv'', JStr (af_base_adv (vi_adv v))), (''method'', JStr (af_method (vi_adv v))),
         (''symbol'', JStr (af_symbol (vi_adv v))), (''adv_start_ms'', JInt (af_start_ms (vi_adv v))),
         (''adv_end_exclusive_ms'', JInt (af_end_ms (vi_adv v))), (''evidence_sha256'', JStr (af_evidence_sha (vi_adv v)))]),
       (''archive_provenance'', JList (map (\<lambda>(s, d, r). JDict [(''source'', JStr s), (''source_sha256'', JStr d), (''report_sha256'', JStr r)]) (vi_provenance v)))]"

definition inputs_json :: "cal_inputs \<Rightarrow> json" where
  "inputs_json ci =
     JList (ci_entries ci @ [JDict [(''book_replay'', ci_replay ci)]] @ (case ci_volume ci of Some v \<Rightarrow> [volume_json v] | None \<Rightarrow> []))"

definition row_count :: "(market_fill \<Rightarrow> bool) \<Rightarrow> sample_row list \<Rightarrow> json" where
  "row_count p rows = JInt (int (length (filter (\<lambda>w. p (sw_fill w)) rows)))"

definition manifest_json :: "cal_env \<Rightarrow> string \<Rightarrow> int \<Rightarrow> cal_config \<Rightarrow> string \<Rightarrow> evidence \<Rightarrow> sample_row list \<Rightarrow> int \<Rightarrow> cal_inputs \<Rightarrow> evidence \<Rightarrow> json" where
  "manifest_json ev symbol day cfg revision sources rows events inputs prints =
     JDict [(''task'', JStr ''M5-T1''), (''symbol'', JStr symbol), (''date'', JStr (iso_text day)), (''config'', cal_config_json cfg),
       (''code_revision'', JStr revision), (''source_sha256'', digests_json sources), (''extension_sha256'', JStr (ce_extension ev)),
       (''rows'', JInt (int (length rows))), (''instants'', JInt (int (card (set (map sw_time rows))))), (''events_processed'', JInt events),
       (''sampling'', JStr ''event-count grid rounded to the end of an exchange-millisecond group''), (''inputs'', inputs_json inputs),
       (''output_sha256'', digests_json prints), (''beyond_validated_depth_rows'', row_count mf_beyond rows),
       (''crossed_at_entry_rows'', row_count mf_crossed rows), (''exhausted_book_rows'', row_count mf_exhausted rows)]"

definition sampled_day :: "cal_env \<Rightarrow> ('p, 'r) core \<Rightarrow> string \<Rightarrow> int \<Rightarrow> cal_config \<Rightarrow> (sample_row list \<times> int \<times> cal_inputs) res" where
  "sampled_day ev co symbol day cfg =
     bnd (partition_files (ce_view ev) incremental_book symbol day) (\<lambda>(directory, files).
     bnd (day_adv ev cfg symbol day) (\<lambda>adv.
     bnd (verified_inputs (ce_view ev) (ce_volume ev) symbol day cfg None) (\<lambda>inputs.
     bnd (input_adv cfg adv inputs) (\<lambda>adv'.
     bnd (sample_rows co \<lparr>sg_symbol = symbol, sg_day = day, sg_adv = adv', sg_fractions = size_fractions (ce_geomspace ev) cfg\<rparr> cfg
            (groups_of (ce_batches ev (cg_batch cfg)) (map (Pair directory) files))) (\<lambda>(rows, events).
     Inr (rows, events, inputs))))))"

definition cal_partition :: "location \<Rightarrow> string \<Rightarrow> int \<Rightarrow> location" where
  "cal_partition base symbol day = base @ partition_path ''calibration'' symbol (iso_text day)"

text \<open>The rows go to a temporary file that replaces the one of the partition, then the manifest follows.\<close>

definition generate :: "cal_env \<Rightarrow> ('p, 'r) core \<Rightarrow> string \<Rightarrow> period \<Rightarrow> cal_config option \<Rightarrow> disk \<Rightarrow> disk \<times> json res" where
  "generate ev co symbol date config d =
     (case bnd (as_of_day date) (\<lambda>day.
             let cfg = (case config of Some c \<Rightarrow> c | None \<Rightarrow> default_cal_config) in
             bnd (sampled_day ev co symbol day cfg) (\<lambda>(rows, events, inputs). Inr (day, cfg, rows, events, inputs))) of
        Inl e \<Rightarrow> (d, Inl e)
      | Inr (day, cfg, rows, events, inputs) \<Rightarrow>
          let partition = cal_partition (ce_root ev) symbol day; output = partition @ [''part-0.parquet'']; temporary = partition @ [''part-0.parquet.tmp''];
              d1 = d(temporary \<mapsto> ce_parquet ev rows); d2 = d1(output := d1 temporary, temporary := None) in
          case bnd (ce_revision ev) (\<lambda>revision. bnd (ce_sources ev) (\<lambda>sources.
                 Inr (manifest_json ev symbol day cfg revision sources rows events inputs (ce_prints ev d2 partition)))) of
            Inl e \<Rightarrow> (d2, Inl e)
          | Inr manifest \<Rightarrow> (d2(partition @ [''manifest.json''] \<mapsto> ce_dumps ev manifest @ [CHR 0x0A]), Inr manifest))"

section \<open>What a sample reads\<close>

text \<open>
  The reference: the updates up to an instant are its book, those after it up to the last slice its
  future, and an instant is a millisecond in which the event count passes a multiple of the step.
\<close>

definition seen :: "book_update list \<Rightarrow> int \<Rightarrow> book_update list" where
  "seen us t = filter (\<lambda>u. bu_time u \<le> t) us"

definition window_of :: "cal_config \<Rightarrow> book_update list \<Rightarrow> int \<Rightarrow> book_update list" where
  "window_of cfg us t = filter (\<lambda>u. t < bu_time u \<and> bu_time u \<le> last_slice cfg t) us"

definition is_instant :: "cal_config \<Rightarrow> int \<Rightarrow> book_update list \<Rightarrow> int \<Rightarrow> bool" where
  "is_instant cfg day us t \<longleftrightarrow>
     int (length (filter (\<lambda>u. bu_time u < t) us)) div cg_every cfg < int (length (seen us t)) div cg_every cfg
     \<and> last_slice cfg t < utc_ms (day + 1)"

definition sample_times :: "cal_config \<Rightarrow> int \<Rightarrow> book_update list \<Rightarrow> int list" where
  "sample_times cfg day us = filter (is_instant cfg day us) (remdups_adj (map bu_time us))"

definition reference_rows :: "('p, 'r) core \<Rightarrow> sampling \<Rightarrow> cal_config \<Rightarrow> 'p \<Rightarrow> book_update list \<Rightarrow> int \<Rightarrow> sample_row list res" where
  "reference_rows co sg cfg p0 us t =
     bnd (co_run co p0 (seen us t)) (\<lambda>pipe.
     instant_rows co sg cfg (co_state co pipe) (window_of cfg us t) t (int (length (seen us t))))"

text \<open>The queue applies updates one after another: running two batches is running them joined.\<close>

definition feeds :: "('p, 'r) core \<Rightarrow> bool" where
  "feeds co \<longleftrightarrow> (\<forall>p a b. co_run co p (a @ b) = bnd (co_run co p a) (\<lambda>p'. co_run co p' b))"

lemma feeds_run: "feeds co \<Longrightarrow> co_run co p a = Inr p' \<Longrightarrow> co_run co p (a @ b) = co_run co p' b"
  by (simp add: feeds_def)

lemma runs_of_concat [simp]: "concat (map snd (runs_of us)) = us"
  by (induction us) (auto split: list.split prod.split)

lemma runs_of_times: "map fst (runs_of us) = remdups_adj (map bu_time us)"
proof (induction us)
  case (Cons u us)
  show ?case
  proof (cases us)
    case (Cons v vs)
    then have first: "remdups_adj (map bu_time us) = bu_time v # tl (remdups_adj (map bu_time us))" by (simp add: remdups_adj_Cons')
    obtain b x where "runs_of us = (bu_time v, b) # x" using first Cons.IH by (cases "runs_of us") (auto, metis list.inject)
    moreover have "remdups_adj (map bu_time (u # us)) = (if bu_time u = bu_time v then remdups_adj (map bu_time us) else bu_time u # remdups_adj (map bu_time us))"
      by (simp add: Cons)
    ultimately show ?thesis using Cons.IH by auto
  qed simp
qed simp

lemma runs_of_members: "(t, g) \<in> set (runs_of us) \<Longrightarrow> u \<in> set g \<Longrightarrow> bu_time u = t"
proof (induction us arbitrary: t g)
  case (Cons v us)
  note IH = Cons.IH
  show ?case
  proof (cases "runs_of us")
    case Nil
    then show ?thesis using Cons.prems by auto
  next
    case (Cons r rs)
    obtain s k where r: "r = (s, k)" by (cases r)
    have "bu_time u = s" if "u \<in> set k" using IH [of s k] that by (simp add: Cons r)
    moreover have "bu_time u = t" if "(t, g) \<in> set rs" using IH [of t g] that Cons.prems(2) by (simp add: Cons)
    ultimately show ?thesis using Cons.prems by (auto simp: Cons r split: if_splits)
  qed
qed simp

lemma strictly_sorted_times: "sorted xs \<Longrightarrow> sorted_wrt (<) (remdups_adj xs)" for xs :: "int list"
  by (induction xs rule: remdups_adj.induct) (auto simp: less_le)

text \<open>In a list of groups with increasing times, a bound on the time selects whole groups.\<close>

lemma groups_split:
  assumes "sorted_wrt (<) (map fst (gs @ (t, g) # hs))" and "\<And>s k u. (s, k) \<in> set (gs @ (t, g) # hs) \<Longrightarrow> u \<in> set k \<Longrightarrow> bu_time u = s"
  shows "seen (concat (map snd (gs @ (t, g) # hs))) t = concat (map snd gs) @ g"
    and "filter (\<lambda>u. bu_time u < t) (concat (map snd (gs @ (t, g) # hs))) = concat (map snd gs)"
    and "window_of cfg (concat (map snd (gs @ (t, g) # hs))) t = concat (map snd (filter (\<lambda>h. fst h \<le> last_slice cfg t) hs))"
proof -
  have before: "bu_time u < t" if u: "u \<in> set (concat (map snd gs))" for u
  proof -
    obtain h where "h \<in> set gs" "u \<in> set (snd h)" using u unfolding set_concat set_map by blast
    then obtain s k where k: "(s, k) \<in> set gs" "u \<in> set k" by (metis prod.collapse)
    then have "bu_time u = s" using assms(2) by auto
    moreover have "s < t" using assms(1) k(1) by (auto simp: sorted_wrt_append)
    ultimately show ?thesis by simp
  qed
  have now: "bu_time u = t" if "u \<in> set g" for u using assms(2) that by auto
  have later: "t < bu_time u" if u: "u \<in> set (concat (map snd hs))" for u
  proof -
    obtain h where "h \<in> set hs" "u \<in> set (snd h)" using u unfolding set_concat set_map by blast
    then obtain s k where k: "(s, k) \<in> set hs" "u \<in> set k" by (metis prod.collapse)
    then have "bu_time u = s" using assms(2) by auto
    moreover have "t < s" using assms(1) k(1) by (force simp: sorted_wrt_append)
    ultimately show ?thesis by simp
  qed
  have pick: "filter P xs = xs" if "\<And>u. u \<in> set xs \<Longrightarrow> P u" for P and xs :: "book_update list" using that by (simp add: filter_id_conv)
  have drop: "filter P xs = []" if "\<And>u. u \<in> set xs \<Longrightarrow> \<not> P u" for P and xs :: "book_update list" using that by (simp add: filter_empty_conv)
  have "filter (\<lambda>u. bu_time u \<le> t) (concat (map snd gs)) = concat (map snd gs)" using before by (intro pick) (simp add: less_imp_le)
  moreover have "filter (\<lambda>u. bu_time u \<le> t) g = g" using now by (intro pick) simp
  moreover have "filter (\<lambda>u. bu_time u \<le> t) (concat (map snd hs)) = []" using later by (intro drop) (simp add: not_le)
  ultimately show "seen (concat (map snd (gs @ (t, g) # hs))) t = concat (map snd gs) @ g" by (simp add: seen_def)
  have "filter (\<lambda>u. bu_time u < t) (concat (map snd gs)) = concat (map snd gs)" using before by (intro pick)
  moreover have "filter (\<lambda>u. bu_time u < t) g = []" using now by (intro drop) simp
  moreover have "filter (\<lambda>u. bu_time u < t) (concat (map snd hs)) = []" using later by (intro drop) (metis less_asym)
  ultimately show "filter (\<lambda>u. bu_time u < t) (concat (map snd (gs @ (t, g) # hs))) = concat (map snd gs)" by simp
  have "filter (\<lambda>u. t < bu_time u \<and> bu_time u \<le> last_slice cfg t) (concat (map snd gs)) = []"
    using before by (intro drop) (metis less_asym)
  moreover have "filter (\<lambda>u. t < bu_time u \<and> bu_time u \<le> last_slice cfg t) g = []" using now by (intro drop) simp
  moreover have "filter (\<lambda>u. t < bu_time u \<and> bu_time u \<le> last_slice cfg t) (concat (map snd ks))
      = concat (map snd (filter (\<lambda>h. fst h \<le> last_slice cfg t) ks))" if "set ks \<subseteq> set hs" for ks
    using that
  proof (induction ks)
    case (Cons h ks)
    have h: "h \<in> set hs" using Cons.prems by simp
    have now_h: "t < bu_time u \<and> bu_time u = fst h" if u: "u \<in> set (snd h)" for u
    proof
      show "t < bu_time u" by (rule later) (use h u in auto)
      have "(fst h, snd h) \<in> set (gs @ (t, g) # hs)" using h by simp
      then show "bu_time u = fst h" using u by (rule assms(2))
    qed
    have "filter (\<lambda>u. t < bu_time u \<and> bu_time u \<le> last_slice cfg t) (snd h) = (if fst h \<le> last_slice cfg t then snd h else [])"
      by (cases "fst h \<le> last_slice cfg t") (auto simp: filter_id_conv filter_empty_conv dest: now_h)
    then show ?case using Cons by simp
  qed simp
  ultimately show "window_of cfg (concat (map snd (gs @ (t, g) # hs))) t = concat (map snd (filter (\<lambda>h. fst h \<le> last_slice cfg t) hs))"
    by (simp add: window_of_def)
qed

text \<open>The buffer holds every group of the window.\<close>

lemma read_ahead_window:
  assumes "read_ahead until pending rest = (p, r, hit)" and "sorted_wrt (<) (map fst (pending @ rest))"
  shows "filter (\<lambda>g. fst g \<le> until) p = filter (\<lambda>g. fst g \<le> until) (pending @ rest)"
  using assms
proof (induction until pending rest rule: read_ahead.induct)
  case (2 until pending g rest)
  show ?case
  proof (cases "pending = [] \<or> fst (last pending) \<le> until")
    case True
    then show ?thesis using 2 by simp
  next
    case False
    then have p: "p = pending" using 2(2) by (auto split: if_splits)
    have "last pending \<in> set pending" using False by simp
    then have "until < fst h" if "h \<in> set (g # rest)" for h
      using 2(3) that False by (fastforce simp: sorted_wrt_append)
    then have "filter (\<lambda>g. fst g \<le> until) (g # rest) = []" by (simp add: filter_empty_conv not_le)
    then show ?thesis by (simp add: p del: filter.simps)
  qed
qed simp

text \<open>One turn of the loop.\<close>

lemma sample_loop_turn:
  assumes "sample_loop co sg cfg failure pg pending rest = Inr pg'" and "next_group pending rest = Some ((t, g), p1, r1)"
  obtains (skip) "pg_applied pg + int (length g) < pg_threshold pg"
      "sample_loop co sg cfg failure (pg\<lparr>pg_batch := pg_batch pg @ g, pg_applied := pg_applied pg + int (length g)\<rparr>) p1 r1 = Inr pg'"
  | (late) pipe where "\<not> pg_applied pg + int (length g) < pg_threshold pg" "co_run co (pg_pipe pg) (pg_batch pg @ g) = Inr pipe"
      "utc_ms (sg_day sg + 1) \<le> last_slice cfg t"
      "sample_loop co sg cfg failure (pg\<lparr>pg_pipe := pipe, pg_batch := [], pg_applied := pg_applied pg + int (length g),
         pg_threshold := ((pg_applied pg + int (length g)) div cg_every cfg + 1) * cg_every cfg\<rparr>) p1 r1 = Inr pg'"
  | (sample) pipe p2 r2 hit rows where "\<not> pg_applied pg + int (length g) < pg_threshold pg" "co_run co (pg_pipe pg) (pg_batch pg @ g) = Inr pipe"
      "\<not> utc_ms (sg_day sg + 1) \<le> last_slice cfg t" "read_ahead (last_slice cfg t) p1 r1 = (p2, r2, hit)"
      "instant_rows co sg cfg (co_state co pipe) (concat (map snd (filter (\<lambda>g. fst g \<le> last_slice cfg t) p2))) t
         (pg_applied pg + int (length g)) = Inr rows"
      "sample_loop co sg cfg failure (pg\<lparr>pg_pipe := pipe, pg_batch := [], pg_applied := pg_applied pg + int (length g),
         pg_threshold := ((pg_applied pg + int (length g)) div cg_every cfg + 1) * cg_every cfg, pg_rows := pg_rows pg @ rows\<rparr>) p2 r2 = Inr pg'"
proof (cases "pg_applied pg + int (length g) < pg_threshold pg")
  case True
  then show thesis using assms skip by (subst (asm) sample_loop.simps) (simp add: Let_def)
next
  case False
  then obtain pipe where pipe: "co_run co (pg_pipe pg) (pg_batch pg @ g) = Inr pipe"
    using assms by (subst (asm) sample_loop.simps) (auto simp: Let_def res_simps)
  show thesis
  proof (cases "utc_ms (sg_day sg + 1) \<le> last_slice cfg t")
    case True
    then show thesis using assms False pipe late by (subst (asm) sample_loop.simps) (simp add: Let_def)
  next
    case later: False
    obtain p2 r2 hit where ahead: "read_ahead (last_slice cfg t) p1 r1 = (p2, r2, hit)" by (metis prod_cases3)
    show thesis
      using assms False pipe later ahead sample [OF False pipe later ahead]
      by (subst (asm) sample_loop.simps) (auto simp: Let_def res_simps)
  qed
qed

lemma sample_loop_end:
  "sample_loop co sg cfg failure pg [] [] = (case failure of Some e \<Rightarrow> Inl e | None \<Rightarrow> Inr pg)"
  by (subst sample_loop.simps) (simp add: next_group_def)

lemma grid_crossing:
  fixes every :: int
  assumes "1 \<le> every" and "0 \<le> n"
  shows "a + n < (a div every + 1) * every \<longleftrightarrow> (a + n) div every = a div every"
    and "a div every \<le> (a + n) div every"
proof -
  show "a div every \<le> (a + n) div every" using assms by (intro zdiv_mono1) auto
  moreover have "a + n < (a div every + 1) * every \<longleftrightarrow> (a + n) div every < a div every + 1"
  proof -
    let ?q = "(a + n) div every"
    have "(a div every + 1) * every \<le> a + n \<longleftrightarrow> a div every + 1 \<le> ?q"
    proof
      assume "(a div every + 1) * every \<le> a + n"
      then have "(a div every + 1) * every div every \<le> ?q" using assms(1) by (intro zdiv_mono1) auto
      then show "a div every + 1 \<le> ?q" using assms(1) by simp
    next
      assume "a div every + 1 \<le> ?q"
      then have "(a div every + 1) * every \<le> ?q * every" using assms(1) by (intro mult_right_mono) auto
      also have "\<dots> \<le> a + n" using assms(1) by (simp add: minus_mod_eq_div_mult [symmetric])
      finally show "(a div every + 1) * every \<le> a + n" .
    qed
    then show ?thesis by linarith
  qed
  ultimately show "a + n < (a div every + 1) * every \<longleftrightarrow> (a + n) div every = a div every" by linarith
qed

text \<open>The loop against the reference, from any point of the stream on.\<close>

lemma loop_reads:
  fixes gs :: "group list"
  defines "us \<equiv> concat (map snd gs)"
  assumes sorted: "sorted_wrt (<) (map fst gs)" and members: "\<And>s k u. (s, k) \<in> set gs \<Longrightarrow> u \<in> set k \<Longrightarrow> bu_time u = s"
    and feeds: "feeds co" and every: "1 \<le> cg_every cfg"
  shows "gs = before @ pending @ rest \<Longrightarrow> pg_applied pg = int (length (concat (map snd before)))
    \<Longrightarrow> pg_threshold pg = (pg_applied pg div cg_every cfg + 1) * cg_every cfg
    \<Longrightarrow> (\<And>x. co_run co p0 (concat (map snd before) @ x) = co_run co (pg_pipe pg) (pg_batch pg @ x))
    \<Longrightarrow> sample_loop co sg cfg failure pg pending rest = Inr pg'
    \<Longrightarrow> failure = None \<and> pg_applied pg' = int (length us)
      \<and> (\<exists>rss. map_res (reference_rows co sg cfg p0 us) (filter (is_instant cfg (sg_day sg) us) (map fst (pending @ rest))) = Inr rss
             \<and> pg_rows pg' = pg_rows pg @ concat rss)"
proof (induction "length pending + length rest" arbitrary: before pending rest pg rule: less_induct)
  case less
  show ?case
  proof (cases "next_group pending rest")
    case None
    then have "pending = []" "rest = []" by (auto simp: next_group_def split: list.splits)
    then show ?thesis using less.prems by (auto simp: sample_loop_end us_def split: option.splits)
  next
    case (Some x)
    then obtain t g p1 r1 where nx: "next_group pending rest = Some ((t, g), p1, r1)" by (cases x) auto
    have seq: "pending @ rest = (t, g) # p1 @ r1" using nx by (auto simp: next_group_Some)
    have gs: "gs = before @ (t, g) # p1 @ r1" using less.prems(1) seq by simp
    have len: "length p1 + length r1 < length pending + length rest" using nx by (rule next_group_less)
    note split = groups_split [OF sorted [unfolded gs] members [unfolded gs], folded gs, folded us_def]
    define n where "n = pg_applied pg + int (length g)"
    have seen_t: "int (length (seen us t)) = n" "int (length (filter (\<lambda>u. bu_time u < t) us)) = pg_applied pg"
      using split(1,2) less.prems(2) by (simp_all add: n_def)
    note grid = grid_crossing [OF every, of "int (length g)" "pg_applied pg", folded n_def]
    have crossing: "is_instant cfg (sg_day sg) us t \<longleftrightarrow> \<not> n < pg_threshold pg \<and> last_slice cfg t < utc_ms (sg_day sg + 1)"
      unfolding is_instant_def seen_t less.prems(3) using grid by auto
    have after: "pg_applied pg + int (length g) = int (length (concat (map snd (before @ [(t, g)]))))" using less.prems(2) by simp
    have whole: "gs = (before @ [(t, g)]) @ p1 @ r1" using gs by simp
    have ran: "co_run co p0 (concat (map snd (before @ [(t, g)]))) = co_run co (pg_pipe pg) (pg_batch pg @ g)"
      using less.prems(4) [of g] by simp
    show ?thesis
    proof (rule sample_loop_turn [OF less.prems(5) nx])
      assume skip: "pg_applied pg + int (length g) < pg_threshold pg"
        and loop: "sample_loop co sg cfg failure (pg\<lparr>pg_batch := pg_batch pg @ g, pg_applied := pg_applied pg + int (length g)\<rparr>) p1 r1 = Inr pg'"
      have "\<not> is_instant cfg (sg_day sg) us t" using crossing skip by (simp add: n_def)
      moreover have "(pg_applied pg + int (length g)) div cg_every cfg = pg_applied pg div cg_every cfg"
        using grid(1) skip less.prems(3) by (simp add: n_def)
      then show ?thesis
        using less.hyps [OF len whole _ _ _ loop] after less.prems(3) less.prems(4) calculation by (simp add: seq)
    next
      fix pipe assume late: "\<not> pg_applied pg + int (length g) < pg_threshold pg"
        and run: "co_run co (pg_pipe pg) (pg_batch pg @ g) = Inr pipe" and time: "utc_ms (sg_day sg + 1) \<le> last_slice cfg t"
        and loop: "sample_loop co sg cfg failure (pg\<lparr>pg_pipe := pipe, pg_batch := [], pg_applied := pg_applied pg + int (length g),
         pg_threshold := ((pg_applied pg + int (length g)) div cg_every cfg + 1) * cg_every cfg\<rparr>) p1 r1 = Inr pg'"
      have "\<not> is_instant cfg (sg_day sg) us t" using crossing time by simp
      moreover have "co_run co p0 (concat (map snd (before @ [(t, g)])) @ x) = co_run co pipe x" for x
        by (rule feeds_run [OF feeds]) (simp only: ran run)
      ultimately show ?thesis using less.hyps [OF len whole _ _ _ loop] after by (simp add: seq)
    next
      fix pipe p2 r2 hit rows
      assume due: "\<not> pg_applied pg + int (length g) < pg_threshold pg"
        and run: "co_run co (pg_pipe pg) (pg_batch pg @ g) = Inr pipe" and time: "\<not> utc_ms (sg_day sg + 1) \<le> last_slice cfg t"
        and ahead: "read_ahead (last_slice cfg t) p1 r1 = (p2, r2, hit)"
        and rows: "instant_rows co sg cfg (co_state co pipe) (concat (map snd (filter (\<lambda>g. fst g \<le> last_slice cfg t) p2))) t
         (pg_applied pg + int (length g)) = Inr rows"
        and loop: "sample_loop co sg cfg failure (pg\<lparr>pg_pipe := pipe, pg_batch := [], pg_applied := pg_applied pg + int (length g),
         pg_threshold := ((pg_applied pg + int (length g)) div cg_every cfg + 1) * cg_every cfg, pg_rows := pg_rows pg @ rows\<rparr>) p2 r2 = Inr pg'"
      have inst: "is_instant cfg (sg_day sg) us t" using crossing due time by (simp add: n_def)
      have keep: "p2 @ r2 = p1 @ r1" using ahead by (rule read_ahead_keeps)
      have "sorted_wrt (<) (map fst (p1 @ r1))" using sorted by (simp add: gs sorted_wrt_append)
      then have "window_of cfg us t = concat (map snd (filter (\<lambda>g. fst g \<le> last_slice cfg t) p2))"
        using split(3) [where cfg = cfg] read_ahead_window [OF ahead] by simp
      moreover have "co_run co p0 (seen us t) = Inr pipe" using split(1) ran run by simp
      ultimately have ref: "reference_rows co sg cfg p0 us t = Inr rows"
        using rows seen_t(1) by (simp add: reference_rows_def n_def)
      have feed: "co_run co p0 (concat (map snd (before @ [(t, g)])) @ x) = co_run co pipe x" for x
        by (rule feeds_run [OF feeds]) (simp only: ran run)
      have len2: "length p2 + length r2 < length pending + length rest"
        using len read_ahead_length [OF ahead] by simp
      have whole2: "gs = (before @ [(t, g)]) @ p2 @ r2" using whole keep by simp
      have "failure = None \<and> pg_applied pg' = int (length us)
          \<and> (\<exists>rss. map_res (reference_rows co sg cfg p0 us) (filter (is_instant cfg (sg_day sg) us) (map fst (p2 @ r2))) = Inr rss
                 \<and> pg_rows pg' = (pg_rows pg @ rows) @ concat rss)"
        using less.hyps [OF len2 whole2 _ _ _ loop] after feed by simp
      moreover have "map fst (pending @ rest) = t # map fst (p2 @ r2)" by (simp only: seq keep list.map fst_conv)
      ultimately show ?thesis using inst ref by auto
    qed
  qed
qed

text \<open>C36: A sample never sees its future: the rows of a finished sampling are, instant by instant, those of the book fed with exactly the updates up to that millisecond and of a slice window holding exactly the later updates through its last slice, at the milliseconds in which the event count passes a multiple of the step and whose last slice lies in the day; every event is consumed.\<close>

theorem samples_read_the_past:
  assumes "event_stream batches files = (us, failure)" and "sorted (map bu_time us)" and "feeds co" and "1 \<le> cg_every cfg"
    and "co_start co (cg_queue cfg) = Inr p0"
    and "sample_rows co sg cfg (groups_of batches files) = Inr (rows, n)"
  shows "failure = None \<and> n = int (length us)
    \<and> (\<exists>rss. map_res (reference_rows co sg cfg p0 us) (sample_times cfg (sg_day sg) us) = Inr rss \<and> rows = concat rss \<and> rows \<noteq> [])"
proof -
  define pg where "pg = \<lparr>pg_pipe = p0, pg_batch = [], pg_applied = 0, pg_threshold = cg_every cfg, pg_rows = []\<rparr>"
  obtain pg' where loop: "sample_loop co sg cfg (snd (groups_of batches files)) pg [] (fst (groups_of batches files)) = Inr pg'"
    and fin: "rows = pg_rows pg'" "n = pg_applied pg'" "rows \<noteq> []"
    using assms(5,6) by (auto simp: sample_rows_def res_simps pg_def)
  have failed: "snd (groups_of batches files) = failure" by (simp add: groups_of_def assms(1) split: option.split)
  have sorted: "sorted_wrt (<) (map fst (runs_of us))" using assms(2) by (simp add: runs_of_times strictly_sorted_times)
  let ?gs = "fst (groups_of batches files)"
  have "map fst (butlast (runs_of us)) = take (length (runs_of us) - 1) (map fst (runs_of us))"
    by (simp add: butlast_conv_take take_map)
  then have "sorted_wrt (<) (map fst (butlast (runs_of us)))" using sorted by (simp only: sorted_wrt_take)
  then have sub: "sorted_wrt (<) (map fst ?gs)" "set ?gs \<subseteq> set (runs_of us)"
    using sorted by (auto simp: groups_of_def assms(1) dest: in_set_butlastD split: option.splits)
  have members: "bu_time u = s" if "(s, k) \<in> set ?gs" "u \<in> set k" for s k u
    using runs_of_members that sub(2) by blast
  have result: "failure = None \<and> pg_applied pg' = int (length (concat (map snd ?gs)))
      \<and> (\<exists>rss. map_res (reference_rows co sg cfg p0 (concat (map snd ?gs)))
             (filter (is_instant cfg (sg_day sg) (concat (map snd ?gs))) (map fst ([] @ ?gs))) = Inr rss \<and> pg_rows pg' = pg_rows pg @ concat rss)"
    by (rule loop_reads [OF sub(1) members assms(3,4), where before = "[]" and pending = "[]" and rest = ?gs and pg = pg and pg' = pg' and failure = failure])
       (use loop assms(4) in \<open>simp_all add: pg_def failed\<close>)
  then have "?gs = runs_of us" by (auto simp: groups_of_def assms(1))
  then show ?thesis using result fin by (simp add: sample_times_def runs_of_times pg_def)
qed

section \<open>Example\<close>

text \<open>A core that keeps the updates it was fed, on five events of one file.\<close>

definition plain_fill :: "book_update list \<Rightarrow> pynum \<Rightarrow> market_fill" where
  "plain_fill book quantity =
     \<lparr>mf_requested = quantity, mf_filled = quantity, mf_notional = quantity, mf_average = Fin 1, mf_worst = Fin 1, mf_mid = Fin 1,
      mf_touch = Fin 1, mf_vs_mid = Fin 0, mf_vs_touch = Fin 0, mf_levels = int (length book), mf_beyond = False,
      mf_crossed = False, mf_exhausted = False\<rparr>"

definition plain_core :: "(book_update list, book_update list) core" where
  "plain_core =
     \<lparr>co_start = \<lambda>_. Inr [], co_run = \<lambda>p us. Inr (p @ us), co_state = \<lambda>p. p, co_applied = \<lambda>p. int (length p),
      co_levels = \<lambda>book _. [], co_market = \<lambda>book _ q. Inr (plain_fill book q),
      co_sliced = \<lambda>book future _ q _. Inr \<lparr>sf_parent = plain_fill (book @ future) q, sf_exhausted = 0, sf_beyond = 0, sf_crossed = 0\<rparr>\<rparr>"

definition five_events :: frame where
  "five_events =
     \<lparr>nrows = 5, columns = [(''timestamp'', ICol [10, 10, 20, 25, 90]), (''local_timestamp'', ICol [11, 11, 21, 26, 91]),
       (''is_snapshot'', BCol [True, True, False, False, False]),
       (''side'', SCol (map Some [''bid'', ''ask'', ''bid'', ''ask'', ''bid''])),
       (''price'', FCol (replicate 5 (Fin 1))), (''quantity'', FCol (replicate 5 (Fin 1)))]\<rparr>"

definition small_config :: cal_config where
  "small_config = default_cal_config\<lparr>cg_every := 2, cg_duration := 10, cg_slices := 2\<rparr>"

definition small_sampling :: sampling where
  "small_sampling = \<lparr>sg_symbol = ''BTCUSDT'', sg_day = 719163, sg_adv = Fin 1, sg_fractions = [Fin 1]\<rparr>"

definition shown :: "(sample_row list \<times> int) res \<Rightarrow> (int \<times> int \<times> int) list \<times> int" where \<comment> \<open>instants and what their orders saw\<close>
  "shown r = (case r of Inl e \<Rightarrow> ([], 0) | Inr (rows, n) \<Rightarrow> (map (\<lambda>w. (sw_time w, sw_events w, mf_levels (sw_fill w))) rows, n))"

definition at_time :: "int \<Rightarrow> bool \<Rightarrow> book_side \<Rightarrow> book_update" where
  "at_time t snap side = \<lparr>bu_time = t, bu_local = t + 1, bu_snapshot = snap, bu_side = side, bu_price = Fin 1, bu_quantity = Fin 1\<rparr>"

definition five :: "book_update list" where
  "five = [at_time 10 True BidSide, at_time 10 True AskSide, at_time 20 False BidSide, at_time 25 False AskSide, at_time 90 False BidSide]"

lemma five_stream: "event_stream (\<lambda>_. ([five_events], None)) [()] = (five, None)"
  by code_simp

lemma five_runs: "runs_of five = [(10, [five ! 0, five ! 1]), (20, [five ! 2]), (25, [five ! 3]), (90, [five ! 4])]"
  by (simp add: five_def at_time_def)

lemma plain_feeds: "feeds plain_core"
  by (simp add: feeds_def plain_core_def)

definition plain_rows :: "book_update list \<Rightarrow> book_update list \<Rightarrow> int \<Rightarrow> int \<Rightarrow> sample_row list" where
  "plain_rows book future t n =
     (case instant_rows plain_core small_sampling small_config book future t n of Inr rows \<Rightarrow> rows | Inl _ \<Rightarrow> [])"

lemma plain_instant:
  "instant_rows plain_core small_sampling small_config book future t n = Inr (plain_rows book future t n)"
  "map (\<lambda>w. (sw_time w, sw_events w, mf_levels (sw_fill w))) (plain_rows book future t n)
     = [(t, n, int (length book)), (t, n, int (length (book @ future)))]"
  by (simp_all add: plain_rows_def instant_rows_def size_rows_def size_row_def small_sampling_def plain_core_def plain_fill_def Let_def)

lemma small_grid: "cg_every small_config = 2" "cg_queue small_config = 65536" "last_slice small_config t = t + 5" "sg_day small_sampling = 719163"
  by (simp_all add: small_config_def default_cal_config_def last_slice_def small_sampling_def)

lemma small_run:
  "sample_rows plain_core small_sampling small_config (groups_of (\<lambda>_. ([five_events], None)) [()])
     = Inr (plain_rows (take 2 five) [] 10 2 @ plain_rows (take 4 five) [] 25 4, 5)"
proof -
  have some: "plain_rows b f t n \<noteq> []" for b f t n using plain_instant(2) [of b f t n] by auto
  have start: "co_start plain_core q = Inr []" "co_run plain_core p us = Inr (p @ us)" "co_state plain_core p = p" "co_applied plain_core p = int (length p)" for p us q
    by (simp_all add: plain_core_def)
  have firsts: "take 2 five = [five ! 0, five ! Suc 0]" "take 4 five = [five ! 0, five ! Suc 0, five ! 2, five ! 3]"
    by (simp_all add: five_def)
  show ?thesis
    apply (simp add: sample_rows_def groups_of_def five_stream five_runs small_grid start utc_ms_def day_ms_def epoch_ord_def)
    apply (subst sample_loop.simps, simp add: next_group_def Let_def start small_grid plain_instant utc_ms_def day_ms_def epoch_ord_def)+
    apply (simp add: firsts some)
    done
qed

theorem samples_read_the_past_witness:
  "sample_rows plain_core small_sampling small_config (groups_of (\<lambda>_. ([five_events], None)) [()])
     = Inr (plain_rows (take 2 five) [] 10 2 @ plain_rows (take 4 five) [] 25 4, 5)
   \<and> (\<exists>rss. map_res (reference_rows plain_core small_sampling small_config [] five) (sample_times small_config 719163 five) = Inr rss
        \<and> concat rss = plain_rows (take 2 five) [] 10 2 @ plain_rows (take 4 five) [] 25 4)"
proof -
  have sorted: "sorted (map bu_time five)" by (simp add: five_def at_time_def)
  have start: "co_start plain_core (cg_queue small_config) = Inr []" by (simp add: plain_core_def)
  show ?thesis
    using samples_read_the_past [OF five_stream sorted plain_feeds _ start small_run] small_run
    by (auto simp: small_grid)
qed

section \<open>Inputs without failing checks\<close>

lemma filter_res_Inr: "filter_res p xs = Inr ys \<Longrightarrow> ys = filter (\<lambda>x. p x = Inr True) xs \<and> (\<forall>x \<in> set xs. \<exists>b. p x = Inr b)"
  by (induction xs arbitrary: ys) (auto simp: res_simps split: if_splits)

lemma any_res_False: "any_res p xs = Inr False \<Longrightarrow> x \<in> set xs \<Longrightarrow> p x = Inr False"
  by (induction xs) (auto simp: res_simps split: if_splits)

lemma any_res_True: "any_res p xs = Inr True \<Longrightarrow> \<exists>x \<in> set xs. p x = Inr True"
  by (induction xs) (auto simp: res_simps split: if_splits)

text \<open>A check result of the corpus report in the scope of a partition.\<close>

definition covers_partition :: "string \<Rightarrow> string \<Rightarrow> string \<Rightarrow> check_result \<Rightarrow> bool" where
  "covers_partition dataset symbol date r \<longleftrightarrow>
     cr_dataset r = dataset \<and> cr_symbol r \<in> {None, Some symbol} \<and> cr_date r \<in> {None, Some date}"

lemma result_fields:
  "dict_get ''dataset'' (result_json r) = Inr (JStr (cr_dataset r))" "dict_get ''symbol'' (result_json r) = Inr (json_text (cr_symbol r))"
  "dict_get ''date'' (result_json r) = Inr (json_text (cr_date r))" "dict_get ''passed'' (result_json r) = Inr (JBool (cr_passed r))"
  "dict_get ''skipped'' (result_json r) = Inr (JBool (cr_skipped r))" "dict_get ''check'' (result_json r) = Inr (JStr (cr_check r))"
  by (simp_all add: dict_get_def as_dict_def jget_def result_json_def)

lemma in_scope_text: "in_scope t (json_text x) = Inr (x \<in> {None, Some t})"
  by (cases x) (auto simp: json_text_def)

lemma scoped_result: "scoped dataset symbol date (result_json r) = Inr (covers_partition dataset symbol date r)"
  by (auto simp: scoped_def result_fields in_scope_text covers_partition_def)

lemma rejecting_result: "rejecting (result_json r) = Inr (\<not> cr_passed r \<and> \<not> cr_skipped r)"
  by (simp add: rejecting_def result_fields)

lemma reconciles_result: "reconciles symbol date (result_json r) =
    Inr (cr_check r = ''volume_reconciliation'' \<and> cr_date r = Some date \<and> cr_symbol r = Some symbol \<and> cr_passed r \<and> \<not> cr_skipped r)"
  by (auto simp: reconciles_def result_fields json_text_def split: option.split)

lemma verified_entries:
  assumes "verified_inputs vw volume symbol day cfg (Some report) = Inr inputs"
  shows "map_res (verify_partition vw report symbol) (required_partitions cfg day) = Inr (ci_entries inputs)"
  using assms unfolding verified_inputs_def bnd_eq_Inr option.case by (elim exE conjE) auto

lemma verified_partition:
  assumes "verify_partition vw (JDict [(''partitions'', JList ps), (''quality'', report_json rep)]) symbol (dataset, date) = Inr entry"
  shows "filter (\<lambda>e. listed_as dataset symbol date e = Inr True) ps = [entry]"
    and "\<exists>recorded. dict_get ''sha256'' entry = Inr recorded \<and> truthy recorded \<and> same_digests (vw_prints vw (partition_path dataset symbol date)) recorded"
    and "\<forall>r \<in> set rep. covers_partition dataset symbol date r \<longrightarrow> cr_passed r \<or> cr_skipped r"
    and "dataset = trades_dir \<Longrightarrow> \<exists>r \<in> set rep. cr_check r = ''volume_reconciliation'' \<and> covers_partition dataset symbol date r \<and> cr_passed r \<and> \<not> cr_skipped r"
proof -
  let ?doc = "JDict [(''partitions'', JList ps), (''quality'', report_json rep)]"
  have docs: "dict_get ''partitions'' ?doc = Inr (JList ps)" "dict_get ''quality'' ?doc = Inr (report_json rep)"
      "dict_get ''results'' (report_json rep) = Inr (JList (map result_json rep))"
    by (simp_all add: dict_get_def as_dict_def jget_def report_json_def)
  obtain entries checks recorded bad reconciled where
      entries: "filter_res (listed_as dataset symbol date) ps = Inr entries" "length entries = 1" "entry = hd entries"
    and recorded: "dict_get ''sha256'' (hd entries) = Inr recorded" "truthy recorded" "same_digests (vw_prints vw (partition_path dataset symbol date)) recorded"
    and checks: "filter_res (scoped dataset symbol date) (map result_json rep) = Inr checks"
    and bad: "any_res rejecting checks = Inr False"
    and reconciled: "(if dataset = trades_dir then any_res (reconciles symbol date) checks else Inr True) = Inr True"
    using assms by (auto simp: verify_partition_def docs as_list_def res_simps)
  have e: "entries = filter (\<lambda>x. listed_as dataset symbol date x = Inr True) ps" using filter_res_Inr [OF entries(1)] by blast
  show "filter (\<lambda>e. listed_as dataset symbol date e = Inr True) ps = [entry]"
    using entries(2,3) by (cases entries) (auto simp flip: e)
  show "\<exists>recorded. dict_get ''sha256'' entry = Inr recorded \<and> truthy recorded \<and> same_digests (vw_prints vw (partition_path dataset symbol date)) recorded"
    using recorded entries(3) by blast
  have c: "checks = map result_json (filter (covers_partition dataset symbol date) rep)"
    using filter_res_Inr [OF checks] by (simp add: filter_map comp_def scoped_result)
  show "\<forall>r \<in> set rep. covers_partition dataset symbol date r \<longrightarrow> cr_passed r \<or> cr_skipped r"
  proof (intro ballI impI)
    fix r assume "r \<in> set rep" "covers_partition dataset symbol date r"
    then have "result_json r \<in> set checks" by (simp add: c)
    then have "rejecting (result_json r) = Inr False" by (rule any_res_False [OF bad])
    then show "cr_passed r \<or> cr_skipped r" by (auto simp: rejecting_result)
  qed
  show "\<exists>r \<in> set rep. cr_check r = ''volume_reconciliation'' \<and> covers_partition dataset symbol date r \<and> cr_passed r \<and> \<not> cr_skipped r"
    if trades: "dataset = trades_dir"
  proof -
    have "any_res (reconciles symbol date) checks = Inr True" using reconciled trades by simp
    then obtain x where "x \<in> set checks" "reconciles symbol date x = Inr True" using any_res_True by blast
    then obtain r where "r \<in> set rep" "covers_partition dataset symbol date r" "reconciles symbol date (result_json r) = Inr True" by (auto simp: c)
    then show ?thesis by (auto simp: reconciles_result)
  qed
qed

lemma checked_replay:
  assumes "check_replay vw symbol day = Inr replay"
  shows "\<exists>text. vw_report vw (''book-'' @ symbol @ ''-'' @ iso_text day @ ''.json'') = Some text \<and> vw_loads vw text = Inr replay"
    and "\<exists>p. dict_get ''passed'' replay = Inr p \<and> truthy p" and "dict_get ''coverage'' replay = Inr (JStr ''full day'')"
    and "\<exists>inputs. dict_get ''input_sha256'' replay = Inr inputs \<and> (\<forall>kind \<in> set tardis_datasets.
           vw_prints vw (book_partition kind symbol (OnDate day)) \<noteq> []
           \<and> (\<exists>recorded. dict_get kind inputs = Inr recorded \<and> same_digests (vw_prints vw (book_partition kind symbol (OnDate day))) recorded))"
proof -
  obtain p bad us where read: "read_report vw (''book-'' @ symbol @ ''-'' @ iso_text day @ ''.json'') (OrderSizeError ''no independent book replay report'') = Inr replay"
    and p: "dict_get ''passed'' replay = Inr p"
    and bad: "(if truthy p then bnd (dict_get ''coverage'' replay) (\<lambda>c. Inr (c \<noteq> JStr ''full day'')) else Inr True) = Inr bad" "\<not> bad"
    and kinds: "map_res (\<lambda>dataset. bnd (partition_files vw dataset symbol day) (\<lambda>(directory, _).
            bnd (dict_get ''input_sha256'' replay) (\<lambda>inputs. bnd (dict_get dataset inputs) (\<lambda>recorded.
            guard (\<not> same_digests (vw_prints vw directory) recorded) (OrderSizeError ''stale book replay report'')))))
          tardis_datasets = Inr us"
    using assms unfolding check_replay_def bnd_eq_Inr guard_eq_Inr by auto
  show "\<exists>text. vw_report vw (''book-'' @ symbol @ ''-'' @ iso_text day @ ''.json'') = Some text \<and> vw_loads vw text = Inr replay"
    using read by (auto simp: read_report_def split: option.splits)
  show "\<exists>p. dict_get ''passed'' replay = Inr p \<and> truthy p" using p bad by (auto split: if_splits)
  show "dict_get ''coverage'' replay = Inr (JStr ''full day'')" using bad by (auto simp: bnd_eq_Inr split: if_splits)
  have each: "vw_prints vw (book_partition kind symbol (OnDate day)) \<noteq> []
      \<and> (\<exists>inputs. dict_get ''input_sha256'' replay = Inr inputs \<and> (\<exists>recorded. dict_get kind inputs = Inr recorded
           \<and> same_digests (vw_prints vw (book_partition kind symbol (OnDate day))) recorded))"
    if "kind \<in> set tardis_datasets" for kind
    using map_res_member [OF kinds that] by (auto simp: partition_files_def Let_def bnd_eq_Inr guard_eq_Inr)
  have "incremental_book \<in> set tardis_datasets" by (simp add: tardis_datasets_def)
  then obtain inputs where "dict_get ''input_sha256'' replay = Inr inputs" using each by blast
  then show "\<exists>inputs. dict_get ''input_sha256'' replay = Inr inputs \<and> (\<forall>kind \<in> set tardis_datasets.
           vw_prints vw (book_partition kind symbol (OnDate day)) \<noteq> []
           \<and> (\<exists>recorded. dict_get kind inputs = Inr recorded \<and> same_digests (vw_prints vw (book_partition kind symbol (OnDate day))) recorded))"
    using each by auto
qed

lemma required_member:
  "(dataset, date) \<in> set (required_partitions cfg day) \<longleftrightarrow> dataset = ''book'' \<and> date = iso_text day
     \<or> cg_adv_source cfg = ''trades'' \<and> dataset = trades_dir \<and> (\<exists>i. 0 \<le> i \<and> i \<le> cg_adv_days cfg \<and> date = iso_text (day - i))"
  by (auto simp: required_partitions_def)

lemma verified_replay:
  assumes "verified_inputs vw volume symbol day cfg given = Inr inputs"
  shows "check_replay vw symbol day = Inr (ci_replay inputs)"
    and "cg_adv_source cfg = ''futures_bars'' \<Longrightarrow> \<exists>v. volume symbol day = Inr v \<and> ci_volume inputs = Some v"
  using assms unfolding verified_inputs_def by (auto simp: bnd_eq_Inr)


text \<open>One day of trades before a book day, all reconciled.\<close>

definition one_file :: evidence where "one_file = [(''part-0.parquet'', ''d1'')]"

definition one_digest :: json where "one_digest = JDict [(''part-0.parquet'', JStr ''d1'')]"

definition clean_view :: cal_view where
  "clean_view =
     \<lparr>vw_prints = \<lambda>_. one_file, vw_report = \<lambda>_. Some ''{}'',
      vw_loads = \<lambda>_. Inr (JDict [(''passed'', JBool True), (''coverage'', JStr ''full day''),
        (''input_sha256'', JDict (map (\<lambda>d. (d, one_digest)) tardis_datasets))])\<rparr>"

definition clean_partition :: "string \<Rightarrow> string \<Rightarrow> json" where
  "clean_partition dataset date =
     JDict [(''dataset'', JStr dataset), (''symbol'', JStr ''BTCUSDT''), (''date'', JStr date), (''sha256'', one_digest)]"

definition clean_results :: "check_result list" where
  "clean_results =
     map (\<lambda>d. verdict ''volume_reconciliation'' trades_dir (Some ''BTCUSDT'') (Some (iso_text d)) True ''ok'') [719163, 719164]
       @ [not_run ''coverage'' ''book'' ''no allowlist'']"

definition clean_partitions :: "json list" where
  "clean_partitions =
     [clean_partition trades_dir (iso_text 719163), clean_partition trades_dir (iso_text 719164), clean_partition ''book'' (iso_text 719164)]"

definition day_config :: cal_config where
  "day_config =
     \<lparr>cg_every = 5000, cg_size_count = 2, cg_min = Fin (1 / 1000), cg_max = Fin (1 / 10), cg_adv_days = 1, cg_adv_source = ''trades'',
      cg_duration = 0, cg_slices = 1, cg_batch = 100, cg_side = ''sell'', cg_queue = 16\<rparr>"

definition no_volume :: "string \<Rightarrow> int \<Rightarrow> volume_inputs res" where
  "no_volume _ _ = Inl (RuntimeError ''unused'')"

lemma clean_days: "iso_text 719163 \<noteq> iso_text 719164"
  by (simp add: iso_text_inj)

lemma clean_prints: "same_digests (vw_prints clean_view p) one_digest" "vw_prints clean_view p \<noteq> []" "truthy one_digest"
  by (simp_all add: clean_view_def one_file_def one_digest_def)

lemma clean_replay: "\<exists>replay. check_replay clean_view ''BTCUSDT'' 719164 = Inr replay"
  unfolding check_replay_def
  by (simp add: read_report_def partition_files_def clean_prints tardis_datasets_def incremental_book_def book_snapshot_25_def)
     (simp add: clean_view_def dict_get_def as_dict_def jget_def clean_prints [unfolded clean_view_def, simplified] tardis_datasets_def incremental_book_def book_snapshot_25_def)

lemma clean_fields:
  "dict_get ''dataset'' (clean_partition d t) = Inr (JStr d)" "dict_get ''symbol'' (clean_partition d t) = Inr (JStr ''BTCUSDT'')"
  "dict_get ''date'' (clean_partition d t) = Inr (JStr t)" "dict_get ''sha256'' (clean_partition d t) = Inr one_digest"
  by (simp_all add: clean_partition_def dict_get_def as_dict_def jget_def)

lemma clean_entry:
  assumes "(dataset, date) \<in> {(trades_dir, iso_text 719163), (trades_dir, iso_text 719164), (''book'', iso_text 719164)}"
  shows "verify_partition clean_view (JDict [(''partitions'', JList clean_partitions), (''quality'', report_json clean_results)]) ''BTCUSDT'' (dataset, date)
    = Inr (clean_partition dataset date)"
proof -
  have names: "trades_dir \<noteq> ''book''" by (simp add: trades_dir_def trades_dataset_def)
  have docs: "dict_get ''partitions'' (JDict [(''partitions'', JList ps), (''quality'', q)]) = Inr (JList ps)"
      "dict_get ''quality'' (JDict [(''partitions'', JList ps), (''quality'', q)]) = Inr q"
      "dict_get ''results'' (report_json rep) = Inr (JList (map result_json rep))" for ps q rep
    by (simp_all add: dict_get_def as_dict_def jget_def report_json_def)
  show ?thesis
    using assms names names [symmetric] clean_days clean_days [symmetric]
    by (auto simp: verify_partition_def docs as_list_def clean_partitions_def listed_as_def clean_fields clean_prints clean_results_def
        scoped_result rejecting_result reconciles_result covers_partition_def verdict_def not_run_def)
qed

lemma clean_required: "required_partitions day_config 719164 = [(trades_dir, iso_text 719164), (trades_dir, iso_text 719163), (''book'', iso_text 719164)]"
proof -
  have "[0 .. 1] = [0, 1 :: int]" by (simp add: upto.simps)
  then show ?thesis by (simp add: required_partitions_def day_config_def)
qed

lemma clean_run: "\<exists>replay. verified_inputs clean_view no_volume ''BTCUSDT'' 719164 day_config
    (Some (JDict [(''partitions'', JList clean_partitions), (''quality'', report_json clean_results)]))
    = Inr \<lparr>ci_entries = [clean_partition trades_dir (iso_text 719164), clean_partition trades_dir (iso_text 719163), clean_partition ''book'' (iso_text 719164)],
           ci_replay = replay, ci_volume = None\<rparr>"
proof -
  have "cg_adv_source day_config \<noteq> ''futures_bars''" by (simp add: day_config_def)
  then show ?thesis using clean_replay by (auto simp: verified_inputs_def clean_required clean_entry)
qed


end
