(* ===== verification/BacktestRun.thy ===== *)
theory BacktestRun
  imports WalkForwardProps FundingSeries DecText
begin

text \<open>
  The command that runs a study from files (\<open>tools/run_backtest.py\<close>, with \<open>load_schedule\<close> of
  \<open>strategy/fees.py\<close>): the run configuration and the fee schedule from TOML documents, the decoding of
  one manifest line with its impact artifact, and the run that feeds lines to the walk-forward runner
  one at a time and writes a header, the records and a footer. A field of the wrong type is refused
  when it is decoded. Files may change while they are read: every read of a line happens at a tick of
  its own. Digests, the JSON and TOML readers and the JSON writer are parameters.
\<close>

section \<open>Fields\<close>

text \<open>\<open>_decimal\<close>: a finite decimal, given as text.\<close>

definition money :: "json \<Rightarrow> pynum res" where
  "money v =
     (case v of
        JStr s \<Rightarrow>
          (case parse_decimal s of
             None \<Rightarrow> Inl (ValueError ''Financial quantity is not a decimal'')
           | Some d \<Rightarrow> (case DecText.dec_val d of None \<Rightarrow> Inl (ValueError ''Financial quantities must be finite'') | Some r \<Rightarrow> Inr (Fin r)))
      | _ \<Rightarrow> Inl (ValueError ''Financial quantities must be decimal strings''))"

definition int_value :: "json \<Rightarrow> int res" where
  "int_value v = (case v of JInt i \<Rightarrow> Inr i | _ \<Rightarrow> Inl (TypeError ''an integer is required''))"

definition text_value :: "json \<Rightarrow> string res" where
  "text_value v = (case v of JStr s \<Rightarrow> Inr s | _ \<Rightarrow> Inl (TypeError ''text is required''))"

definition num_value :: "json \<Rightarrow> pynum res" where
  "num_value v = (case v of JInt i \<Rightarrow> Inr (Fin (of_int i)) | JNum x \<Rightarrow> Inr x | _ \<Rightarrow> Inl (TypeError ''a number is required''))"

definition bool_value :: "json \<Rightarrow> bool res" where
  "bool_value v = (case v of JBool b \<Rightarrow> Inr b | _ \<Rightarrow> Inl (TypeError ''a bool is required''))"

definition present_field :: "string \<Rightarrow> json \<Rightarrow> json option res" where \<comment> \<open>\<open>row.get(key)\<close> that is not \<open>None\<close>\<close>
  "present_field k v =
     bnd (as_dict v) (\<lambda>d. Inr (case map_of d k of None \<Rightarrow> None | Some JNull \<Rightarrow> None | Some x \<Rightarrow> Some x))"

definition keyword_fields :: "string list \<Rightarrow> (string \<times> json) list \<Rightarrow> unit res" where
  "keyword_fields names d = guard (set (map fst d) \<noteq> set names) (TypeError ''missing or unexpected keyword argument'')"

section \<open>Manifest lines\<close>

definition sizing_fields :: "string list" where
  "sizing_fields = [''symbol'', ''observed_at_ms'', ''valid_until_ms'', ''price_usdt'', ''adv_base'', ''adv_start_ms'', ''adv_end_exclusive_ms'',
     ''adv_sha256'', ''quantity_step'', ''min_quantity'', ''min_notional_usdt'', ''max_notional_usdt'', ''max_adv_fraction'',
     ''validated_quantity_base'', ''metadata_valid_from_ms'', ''metadata_valid_until_ms'', ''metadata_sha256'']"

definition read_sizing :: "json \<Rightarrow> sizing_inputs res" where
  "read_sizing v =
     bnd (as_dict v) (\<lambda>d.
     let int_at = (\<lambda>k. bnd (jget d k) int_value); num_at = (\<lambda>k. bnd (jget d k) num_value); text_at = (\<lambda>k. bnd (jget d k) text_value) in
     bnd (bnd (jget d ''quantity_step'') money) (\<lambda>step.
     bnd (bnd (jget d ''min_quantity'') money) (\<lambda>least.
     bnd (keyword_fields sizing_fields d) (\<lambda>_.
     bnd (text_at ''symbol'') (\<lambda>symbol. bnd (int_at ''observed_at_ms'') (\<lambda>observed. bnd (int_at ''valid_until_ms'') (\<lambda>until.
     bnd (num_at ''price_usdt'') (\<lambda>price. bnd (num_at ''adv_base'') (\<lambda>adv. bnd (int_at ''adv_start_ms'') (\<lambda>adv_start.
     bnd (int_at ''adv_end_exclusive_ms'') (\<lambda>adv_end. bnd (text_at ''adv_sha256'') (\<lambda>adv_sha.
     bnd (num_at ''min_notional_usdt'') (\<lambda>low. bnd (num_at ''max_notional_usdt'') (\<lambda>high. bnd (num_at ''max_adv_fraction'') (\<lambda>share.
     bnd (num_at ''validated_quantity_base'') (\<lambda>validated. bnd (int_at ''metadata_valid_from_ms'') (\<lambda>meta_from.
     bnd (int_at ''metadata_valid_until_ms'') (\<lambda>meta_until. bnd (text_at ''metadata_sha256'') (\<lambda>meta_sha.
     mk_sizing_inputs \<lparr>si_symbol = symbol, si_observed_at = observed, si_valid_until = until, si_price = price, si_adv_base = adv,
       si_adv_start = adv_start, si_adv_end = adv_end, si_adv_sha = adv_sha, si_step = step, si_min_quantity = least,
       si_min_notional = low, si_max_notional = high, si_max_adv = share, si_validated = validated, si_meta_from = meta_from,
       si_meta_until = meta_until, si_meta_sha = meta_sha\<rparr>)))))))))))))))))))"

definition approval_fields :: "string list" where
  "approval_fields = [''symbol'', ''horizons'', ''interval_hours'', ''validation_end_exclusive_ms'', ''valid_until_ms'', ''evidence_sha256'',
     ''approved'', ''model_sha256'']"

definition read_approval :: "json \<Rightarrow> approval option res" where
  "read_approval v =
     (case v of
        JNull \<Rightarrow> Inr None
      | _ \<Rightarrow>
         bnd (as_dict v) (\<lambda>d.
         bnd (bnd (jget d ''horizons'') as_list) (\<lambda>hs.
         bnd (keyword_fields approval_fields d) (\<lambda>_.
         bnd (map_res int_value hs) (\<lambda>horizons.
         bnd (bnd (jget d ''symbol'') text_value) (\<lambda>symbol. bnd (bnd (jget d ''interval_hours'') int_value) (\<lambda>interval.
         bnd (bnd (jget d ''validation_end_exclusive_ms'') int_value) (\<lambda>validation_end.
         bnd (bnd (jget d ''valid_until_ms'') int_value) (\<lambda>until. bnd (bnd (jget d ''evidence_sha256'') text_value) (\<lambda>evidence.
         bnd (bnd (jget d ''approved'') bool_value) (\<lambda>approved. bnd (bnd (jget d ''model_sha256'') text_value) (\<lambda>model.
         bnd (mk_approval symbol horizons interval validation_end until evidence approved model) (\<lambda>a. Inr (Some a))))))))))))))"

text \<open>
  The files of a run, as they are found at each tick: artifacts below the directory of the manifest and
  the three inputs. The lines of the manifest, the readers, the digests of the modules and the JSON writer,
  which refuses a float that is not finite.
\<close>

datatype run_input = StudyInput | RunInput | FeeInput

datatype run_line =
    HeaderLine run_config bool evidence
  | RecordLine study_record
  | ErrorFooter exn nat string
  | Footer bool nat rat "int option" "int option" string \<comment> \<open>complete, records, open quantity, valuation, funding, digest\<close>

record run_files =
  rf_read :: "nat \<Rightarrow> string \<Rightarrow> string res"
  rf_input :: "nat \<Rightarrow> run_input \<Rightarrow> string res"
  rf_lines :: "string list res"
  rf_sha :: "string \<Rightarrow> string"
  rf_loads :: "string \<Rightarrow> json res"
  rf_toml :: "string \<Rightarrow> json res"
  rf_modules :: "evidence res"
  rf_exists :: bool \<comment> \<open>the output file\<close>
  rf_dump :: "run_line \<Rightarrow> string res"

text \<open>\<open>costs.load_curve\<close> of a path: digest, document, digest again, in this order.\<close>

definition curve_at :: "run_files \<Rightarrow> nat \<Rightarrow> run_config \<Rightarrow> int \<Rightarrow> string \<Rightarrow> string \<Rightarrow> string \<Rightarrow> impact_curve res" where
  "curve_at rf tick c now path schedule regime =
     bnd (integer now ''now_ms'' 0) (\<lambda>_.
     bnd (rf_read rf tick path) (\<lambda>content.
     bnd (load_artifact (rf_loads rf) (rf_read rf (tick + 1) path)) (\<lambda>v.
     bnd (rf_read rf (tick + 2) path) (\<lambda>after.
     load_curve (rf_sha rf content) (rf_sha rf after) (Inr v) (cg_symbol c) now schedule inside_depth regime (pl_synthetic (cg_policy c))))))"

definition read_opportunity :: "run_files \<Rightarrow> nat \<Rightarrow> run_config \<Rightarrow> int \<Rightarrow> json \<Rightarrow> opportunity res" where
  "read_opportunity rf tick c now supplied =
     bnd (dict_get ''impact'' supplied) (\<lambda>reference.
     bnd (bnd (dict_get ''path'' reference) text_value) (\<lambda>path.
     bnd (bnd (dict_get ''schedule'' reference) text_value) (\<lambda>schedule.
     bnd (bnd (dict_get ''size_regime'' reference) text_value) (\<lambda>regime.
     bnd (curve_at rf tick c now path schedule regime) (\<lambda>curve.
     bnd (dict_get ''sha256'' reference) (\<lambda>declared.
     bnd (guard (declared \<noteq> JStr (ic_artifact curve)) (ValueError ''Impact artifact digest does not match manifest'')) (\<lambda>_.
     bnd (load_artifact (rf_loads rf) (rf_read rf (tick + 3) path)) (\<lambda>artifact.
     bnd (bnd (dict_get ''fold_start_ms'' supplied) int_value) (\<lambda>fold.
     bnd (bnd (dict_get ''train_start'' artifact) text_value) (\<lambda>train.
     bnd (case iso_date train of Some d \<Rightarrow> Inr (utc_ms d) | None \<Rightarrow> Inl (ValueError ''Invalid isoformat string'')) (\<lambda>training_start.
     bnd (guard (training_start < fold - cg_impact_days c * day_ms)
            (ValueError ''Impact training lies outside the declared trailing window'')) (\<lambda>_.
     bnd (rf_read rf (tick + 4) path) (\<lambda>again.
     bnd (guard (rf_sha rf again \<noteq> ic_artifact curve) (ValueError ''Impact artifact changed during admission'')) (\<lambda>_.
     bnd (bnd (dict_get ''sizing'' supplied) read_sizing) (\<lambda>market.
     bnd (bnd (dict_get ''approval'' supplied) read_approval) (\<lambda>approval.
     bnd (bnd (dict_get ''perp_half_spread_bps'' supplied) num_value) (\<lambda>half_spread.
     bnd (bnd (dict_get ''spot_execution_bps'' supplied) num_value) (\<lambda>spot_bps.
     bnd (bnd (dict_get ''financing_fraction'' supplied) num_value) (\<lambda>financing.
     mk_opportunity \<lparr>op_fold_start = fold, op_curve = curve, op_approval = approval, op_market = market,
       op_half_spread = half_spread, op_spot_bps = spot_bps, op_financing = financing\<rparr>)))))))))))))))))))"

definition read_funding :: "json \<Rightarrow> funding_event res" where
  "read_funding row =
     bnd (bnd (dict_get ''event_id'' row) text_value) (\<lambda>i.
     bnd (bnd (dict_get ''time_ms'' row) int_value) (\<lambda>t.
     bnd (bnd (dict_get ''rate'' row) money) (\<lambda>rate.
     bnd (bnd (dict_get ''interval_hours'' row) int_value) (\<lambda>interval.
     bnd (present_field ''mark_price'' row) (\<lambda>given.
     bnd (case given of None \<Rightarrow> Inr None | Some v \<Rightarrow> bnd (money v) (\<lambda>m. Inr (Some m))) (\<lambda>mark.
     Inr \<lparr>fe_id = i, fe_time = t, fe_rate = rate, fe_interval = interval, fe_mark = mark\<rparr>))))))"

definition supplied_opportunity :: "run_files \<Rightarrow> nat \<Rightarrow> run_config \<Rightarrow> json \<Rightarrow> opportunity option res" where
  "supplied_opportunity rf tick c row =
     bnd (present_field ''opportunity'' row) (\<lambda>given.
     case given of
       None \<Rightarrow> Inr None
     | Some supplied \<Rightarrow>
         bnd (bnd (dict_get ''time_ms'' row) int_value) (\<lambda>now.
         bnd (read_opportunity rf tick c now supplied) (\<lambda>o'. Inr (Some o'))))"

definition read_market :: "run_files \<Rightarrow> nat \<Rightarrow> run_config \<Rightarrow> json \<Rightarrow> market_event res" where
  "read_market rf tick c row =
     bnd (supplied_opportunity rf tick c row) (\<lambda>opportunity.
     bnd (bnd (dict_get ''event_id'' row) text_value) (\<lambda>i.
     bnd (bnd (dict_get ''time_ms'' row) int_value) (\<lambda>t.
     bnd (bnd (dict_get ''spot_mid'' row) money) (\<lambda>spot_mid.
     bnd (bnd (dict_get ''perp_mid'' row) money) (\<lambda>perp_mid.
     bnd (bnd (dict_get ''spot_mark'' row) money) (\<lambda>spot_mark.
     bnd (bnd (dict_get ''perp_mark'' row) money) (\<lambda>perp_mark.
     bnd (bnd (dict_get ''decide'' row) bool_value) (\<lambda>decides.
     bnd (bnd (dict_get ''financing_usdt'' row) money) (\<lambda>financing.
     Inr \<lparr>me_id = i, me_time = t, me_spot_mid = spot_mid, me_perp_mid = perp_mid,
           me_marks = \<lparr>mk_symbol = cg_symbol c, mk_time_ms = t, mk_spot = spot_mark, mk_perp = perp_mark\<rparr>,
           me_opportunity = opportunity, me_decide = decides, me_financing = financing\<rparr>)))))))))"

text \<open>Only the row reached by the stream is decoded, with its current artifact.\<close>

definition read_event :: "run_files \<Rightarrow> nat \<Rightarrow> run_config \<Rightarrow> json \<Rightarrow> event res" where
  "read_event rf tick c row =
     bnd (dict_get ''symbol'' row) (\<lambda>symbol.
     bnd (guard (symbol \<noteq> JStr (cg_symbol c)) (ValueError ''Manifest symbol disagrees with configured symbol'')) (\<lambda>_.
     bnd (dict_get ''type'' row) (\<lambda>kind.
     if kind = JStr ''funding'' then bnd (read_funding row) (\<lambda>e. Inr (Funding e))
     else
       bnd (guard (kind \<noteq> JStr ''market'') (ValueError ''Unknown manifest event type'')) (\<lambda>_.
       bnd (read_market rf tick c row) (\<lambda>e. Inr (Market e))))))"

section \<open>Fee schedules\<close>

definition period_fields :: "string list" where
  "period_fields = [''symbol'', ''market'', ''start_ms'', ''end_ms'', ''taker_fraction'', ''source'', ''observed_at_ms'', ''kind'']"

definition stamp_field :: "(string \<times> json) list \<Rightarrow> string \<Rightarrow> int res" where
  "stamp_field d k =
     bnd (jget d k) (\<lambda>v. case v of JInt i \<Rightarrow> timestamp i k
       | _ \<Rightarrow> Inl (ValueError (k @ '' must be a nonnegative millisecond integer'')))"

definition market_named :: "json \<Rightarrow> market option" where
  "market_named v = (if v = JStr ''spot'' then Some Spot else if v = JStr ''perp'' then Some Perp else None)"

definition kind_named :: "json \<Rightarrow> fee_kind option" where
  "kind_named v = (if v = JStr ''verified'' then Some Verified else if v = JStr ''assumption'' then Some Assumption else None)"

definition read_period :: "json \<Rightarrow> fee_period res" where
  "read_period row =
     bnd (as_dict row) (\<lambda>d.
     bnd (bnd (jget d ''taker_fraction'') text_value) (\<lambda>fraction_text.
     bnd (case parse_decimal fraction_text of None \<Rightarrow> Inl (InvalidOperation ''ConversionSyntax'') | Some x \<Rightarrow> Inr x) (\<lambda>parsed.
     bnd (keyword_fields period_fields d) (\<lambda>_.
     bnd (stamp_field d ''start_ms'') (\<lambda>start_ms. bnd (stamp_field d ''end_ms'') (\<lambda>end_ms.
     bnd (stamp_field d ''observed_at_ms'') (\<lambda>observed.
     let taker = (case DecText.dec_val parsed of None \<Rightarrow> NaN | Some r \<Rightarrow> Fin r) in
     bnd (decimal taker ''taker_fraction'' False) (\<lambda>_.
     bnd (jget d ''symbol'') (\<lambda>symbol. bnd (jget d ''market'') (\<lambda>market. bnd (jget d ''source'') (\<lambda>source. bnd (jget d ''kind'') (\<lambda>kind.
     case (jstr symbol, market_named market, jstr source, kind_named kind) of
       (Some symbol', Some market', Some source', Some kind') \<Rightarrow> mk_fee_period symbol' market' start_ms end_ms taker source' observed kind'
     | _ \<Rightarrow> Inl (ValueError ''Invalid fee period or provenance'')))))))))))))"

definition fee_row :: "json \<Rightarrow> bool" where
  "fee_row v = (case v of JDict d \<Rightarrow> (case map_of d ''taker_fraction'' of Some (JStr _) \<Rightarrow> True | _ \<Rightarrow> False) | _ \<Rightarrow> False)"

definition load_schedule :: "json res \<Rightarrow> json \<Rightarrow> fee_schedule res" where
  "load_schedule document allow =
     bnd document (\<lambda>v.
     bnd (as_dict v) (\<lambda>d.
     bnd (guard (map_of d ''schema_version'' \<noteq> Some (JInt 1)) (ValueError ''Unsupported fee schedule schema'')) (\<lambda>_.
     bnd (case map_of d ''periods'' of
            Some (JList rows) \<Rightarrow> if list_all fee_row rows then Inr rows
              else Inl (ValueError ''Fee fractions must be decimal strings in explicit periods'')
          | _ \<Rightarrow> Inl (ValueError ''Fee fractions must be decimal strings in explicit periods'')) (\<lambda>rows.
     bnd (map_res read_period rows) (\<lambda>periods.
     case allow of
       JBool b \<Rightarrow> mk_fee_schedule periods b
     | _ \<Rightarrow> Inl (ValueError ''Fee periods must be immutable; assumption admission must be boolean''))))))"

section \<open>The configuration\<close>

definition read_policy :: "json \<Rightarrow> policy res" where
  "read_policy v =
     bnd (as_dict v) (\<lambda>d.
     bnd (guard (\<not> set (map fst d) \<subseteq> {''horizon_settlements'', ''entry_probability'', ''continuation_probability'', ''allow_synthetic_costs''})
            (TypeError ''unexpected keyword argument'')) (\<lambda>_.
     bnd (guard (\<not> {''horizon_settlements'', ''entry_probability'', ''continuation_probability''} \<subseteq> set (map fst d))
            (TypeError ''missing required argument'')) (\<lambda>_.
     bnd (bnd (jget d ''horizon_settlements'') int_value) (\<lambda>horizon.
     bnd (bnd (jget d ''entry_probability'') num_value) (\<lambda>entry.
     bnd (bnd (jget d ''continuation_probability'') num_value) (\<lambda>continuation.
     bnd (case map_of d ''allow_synthetic_costs'' of None \<Rightarrow> Inr False | Some x \<Rightarrow> bool_value x) (\<lambda>synthetic.
       mk_policy horizon entry continuation synthetic)))))))"

definition day_field :: "json \<Rightarrow> string \<Rightarrow> int res" where
  "day_field v k =
     bnd (bnd (dict_get k v) text_value) (\<lambda>t.
     case iso_date t of Some d \<Rightarrow> Inr d | None \<Rightarrow> Inl (ValueError ''Invalid isoformat string''))"

definition read_config :: "json \<Rightarrow> json \<Rightarrow> run_config res" where
  "read_config study specification =
     bnd (dict_get ''run'' specification) (\<lambda>r.
     bnd (dict_get ''study'' study) (\<lambda>scope.
     bnd (dict_get ''execution_mode'' r) (\<lambda>mode.
     bnd (guard (mode \<noteq> JStr ''inferred'') (SystemExit 2)) (\<lambda>_.
     bnd (dict_get ''timezone'' scope) (\<lambda>zone.
     bnd (guard (zone \<noteq> JStr ''UTC'') (SystemExit 2)) (\<lambda>_.
     bnd (bnd (dict_get ''symbol'' r) text_value) (\<lambda>symbol.
     bnd (day_field scope ''warmup_start'') (\<lambda>warmup. bnd (day_field scope ''start'') (\<lambda>first. bnd (day_field scope ''end'') (\<lambda>last_day.
     bnd (bnd (dict_get ''initial_capital_usdt'' r) money) (\<lambda>capital.
     bnd (bnd (dict_get ''collateral_fraction'' r) money) (\<lambda>collateral.
     bnd (bnd (dict_get ''policy'' specification) read_policy) (\<lambda>policy.
     bnd (bnd (dict_get ''seed'' r) int_value) (\<lambda>seed. bnd (bnd (dict_get ''draws'' r) int_value) (\<lambda>draws.
     bnd (bnd (dict_get ''min_settlements'' r) int_value) (\<lambda>least.
     bnd (bnd (bnd (dict_get ''funding'' study) (dict_get ''rolling_days'')) int_value) (\<lambda>days.
     bnd (bnd (dict_get ''interval_hours'' r) int_value) (\<lambda>interval.
     bnd (bnd (bnd (dict_get ''impact'' study) (dict_get ''rolling_days'')) int_value) (\<lambda>impact_days.
     bnd (bnd (as_dict r) (\<lambda>d. case map_of d ''decision_delay_ms'' of None \<Rightarrow> Inr 16000 | Some x \<Rightarrow> int_value x)) (\<lambda>delay.
     bnd (mk_run_config \<lparr>cg_symbol = symbol, cg_warmup = utc_ms warmup, cg_start = utc_ms first, cg_end = utc_ms (last_day + 1),
            cg_capital = capital, cg_collateral = collateral, cg_policy = policy, cg_mode = ''inferred'', cg_seed = seed,
            cg_draws = draws, cg_days = days, cg_min = least, cg_interval = interval, cg_prior = default_prior,
            cg_impact_days = impact_days, cg_delay = delay\<rparr>) (\<lambda>c.
     bnd (bnd (dict_get ''symbols'' scope) as_list) (\<lambda>symbols.
     bnd (guard (JStr (cg_symbol c) \<notin> set symbols) (SystemExit 2)) (\<lambda>_.
       Inr c)))))))))))))))))))))))"

text \<open>The inputs are digested before they are read and again after they were decoded.\<close>

definition unchanged :: "run_files \<Rightarrow> nat \<Rightarrow> run_input \<Rightarrow> string \<Rightarrow> unit res" where
  "unchanged rf tick i digest =
     bnd (rf_input rf tick i) (\<lambda>content.
       guard (rf_sha rf content \<noteq> digest) (ValueError ''Run configuration or fee input changed during admission''))"

definition setup_run :: "run_files \<Rightarrow> (run_config \<times> fee_schedule \<times> evidence) res" where
  "setup_run rf =
     bnd (rf_input rf 0 StudyInput) (\<lambda>study0. bnd (rf_input rf 1 RunInput) (\<lambda>run0. bnd (rf_input rf 2 FeeInput) (\<lambda>fees0.
     bnd (bnd (rf_input rf 3 StudyInput) (rf_toml rf)) (\<lambda>study.
     bnd (bnd (rf_input rf 4 RunInput) (rf_toml rf)) (\<lambda>specification.
     bnd (read_config study specification) (\<lambda>c.
     bnd (bnd (dict_get ''run'' specification) (dict_get ''allow_fee_assumptions'')) (\<lambda>allow.
     bnd (load_schedule (bnd (rf_input rf 5 FeeInput) (rf_toml rf)) allow) (\<lambda>fees.
     bnd (unchanged rf 6 StudyInput (rf_sha rf study0)) (\<lambda>_.
     bnd (unchanged rf 7 RunInput (rf_sha rf run0)) (\<lambda>_.
     bnd (unchanged rf 8 FeeInput (rf_sha rf fees0)) (\<lambda>_.
     bnd (rf_modules rf) (\<lambda>modules.
       Inr (c, fees, [(''study_config'', rf_sha rf study0), (''run_config'', rf_sha rf run0), (''fees'', rf_sha rf fees0)] @ modules)))))))))))))"

section \<open>The run\<close>

text \<open>What the runner takes from numpy, from random draws and from digests.\<close>

record kernels =
  ke_numpy :: numpy
  ke_draws :: draws
  ke_numerics :: numerics
  ke_digest :: "rolling \<Rightarrow> string"
  ke_seed :: "int \<Rightarrow> string \<Rightarrow> int \<Rightarrow> int"

definition run_env :: "kernels \<Rightarrow> run_config \<Rightarrow> fee_schedule \<Rightarrow> env" where \<comment> \<open>with \<open>InferredExecutor()\<close>\<close>
  "run_env k c fees = \<lparr>en_config = c, en_fees = fees, en_mode = ''inferred'', en_fills = inferred_fills, en_numpy = ke_numpy k,
     en_draws = ke_draws k, en_numerics = ke_numerics k, en_digest = ke_digest k, en_seed = ke_seed k\<rparr>"

record run_tally =
  tl_lines :: "string list"
  tl_count :: nat
  tl_funding :: "int option"
  tl_market :: "int option"
  tl_last :: "study_record option"
  tl_consumed :: string

definition start_tally :: "string \<Rightarrow> run_tally" where
  "start_tally header = \<lparr>tl_lines = [header], tl_count = 0, tl_funding = None, tl_market = None, tl_last = None, tl_consumed = []\<rparr>"

definition tally_record :: "study_record \<Rightarrow> string \<Rightarrow> run_tally \<Rightarrow> run_tally" where
  "tally_record r text t =
     (let t1 = t\<lparr>tl_lines := tl_lines t @ [text], tl_count := tl_count t + 1, tl_last := Some r\<rparr> in
      if rc_kind r = ''funding'' then t1\<lparr>tl_funding := Some (rc_time r)\<rparr> else t1\<lparr>tl_market := Some (rc_time r)\<rparr>)"

text \<open>One line is read, decoded, processed and its record written before the next line is read.\<close>

fun feed :: "run_files \<Rightarrow> env \<Rightarrow> nat \<Rightarrow> runner \<Rightarrow> run_tally \<Rightarrow> string list \<Rightarrow> run_tally \<times> exn option" where
  "feed rf env tick s t [] = (t, None)"
| "feed rf env tick s t (line # lines) =
     (let t1 = t\<lparr>tl_consumed := tl_consumed t @ line\<rparr> in
      case bnd (rf_loads rf line) (\<lambda>row. bnd (read_event rf tick (en_config env) row) (process env s)) of
        Inl e \<Rightarrow> (t1, Some e)
      | Inr (None, s1) \<Rightarrow> feed rf env (tick + 5) s1 t1 lines
      | Inr (Some r, s1) \<Rightarrow>
          (case rf_dump rf (RecordLine r) of
             Inl e \<Rightarrow> (t1, Some e)
           | Inr text \<Rightarrow> feed rf env (tick + 5) s1 (tally_record r text t1) lines))"

definition run_study :: "run_files \<Rightarrow> env \<Rightarrow> nat \<Rightarrow> run_tally \<Rightarrow> string list res \<Rightarrow> run_tally \<times> exn option" where
  "run_study rf env tick t opened =
     (case mk_runner env of
        Inl e \<Rightarrow> (t, Some e)
      | Inr s \<Rightarrow> (case opened of Inl e \<Rightarrow> (t, Some e) | Inr lines \<Rightarrow> feed rf env tick s t lines))"

fun caught :: "exn \<Rightarrow> bool" where \<comment> \<open>\<open>except (ValueError, KeyError, TypeError, OSError)\<close>\<close>
  "caught (ValueError _) = True"
| "caught (ImpactModelError _) = True"
| "caught (ExecutionUnavailable _) = True"
| "caught (FundingHistoryError _) = True"
| "caught (FundingModelUnavailable _) = True"
| "caught (FundingSeriesError _) = True"
| "caught (OrderSizeError _) = True"
| "caught (BarVolumeError _) = True"
| "caught (MarkPriceDataError _) = True"
| "caught (FreeTierError _) = True"
| "caught (LinAlgError _) = True"
| "caught (KeyError _) = True"
| "caught (TypeError _) = True"
| "caught (FileNotFoundError _) = True"
| "caught (FileExistsError _) = True"
| "caught _ = False"

definition window_complete :: "run_config \<Rightarrow> run_tally \<Rightarrow> bool" where
  "window_complete c t \<longleftrightarrow> tl_funding t = Some (cg_end c - cg_interval c * hour_ms) \<and> tl_market t = Some (cg_end c - 1)"

definition close_run :: "run_files \<Rightarrow> run_tally \<Rightarrow> run_line \<Rightarrow> int \<Rightarrow> string list \<times> int res" where
  "close_run rf t footer code =
     (case rf_dump rf footer of Inl e \<Rightarrow> (tl_lines t, Inl e) | Inr text \<Rightarrow> (tl_lines t @ [text], Inr code))"

definition final_footer :: "run_files \<Rightarrow> run_config \<Rightarrow> run_tally \<Rightarrow> run_line" where
  "final_footer rf c t =
     Footer (window_complete c t) (tl_count t) (case tl_last t of None \<Rightarrow> 0 | Some r \<Rightarrow> rc_quantity r)
       (tl_market t) (tl_funding t) (rf_sha rf (tl_consumed t))"

text \<open>The lines of the output file, and the exit code or the exception that ends the command.\<close>

definition run_backtest :: "run_files \<Rightarrow> kernels \<Rightarrow> string list \<times> int res" where
  "run_backtest rf k =
     (case setup_run rf of
        Inl e \<Rightarrow> ([], Inl e)
      | Inr (c, fees, sources) \<Rightarrow>
          if rf_exists rf then ([], Inl (FileExistsError ''output''))
          else
            (case rf_dump rf (HeaderLine c (fs_allow_assumptions fees) sources) of
               Inl e \<Rightarrow> ([], Inl e)
             | Inr header \<Rightarrow>
                 (case run_study rf (run_env k c fees) 9 (start_tally header) (rf_lines rf) of
                    (t, Some e) \<Rightarrow>
                      if caught e then close_run rf t (ErrorFooter e (tl_count t) (rf_sha rf (tl_consumed t))) 2
                      else (tl_lines t, Inl e)
                  | (t, None) \<Rightarrow> close_run rf t (final_footer rf c t) (if window_complete c t then 0 else 2))))"

end
