(* ===== verification/BacktestProps.thy ===== *)
theory BacktestProps
  imports BacktestRun
begin

text \<open>
  The properties of a run from files (\<open>tools/run_backtest.py\<close>): what a decoded opportunity is, that the
  line-by-line run is the walk-forward study on the decoded lines, and what a complete run covers.
\<close>

section \<open>Chains of times\<close>

definition chain :: "int \<Rightarrow> int \<Rightarrow> nat \<Rightarrow> int list" where
  "chain a k n = map (\<lambda>i. a + int i * k) [0..<n]"

lemma chain_0 [simp]: "chain a k 0 = []"
  by (simp add: chain_def)

lemma chain_length [simp]: "length (chain a k n) = n"
  by (simp add: chain_def)

lemma chain_Suc: "chain a k (Suc n) = chain a k n @ [a + int n * k]"
  by (simp add: chain_def)

lemma chain_Nil [simp]: "chain a k n = [] \<longleftrightarrow> n = 0" "[] = chain a k n \<longleftrightarrow> n = 0"
  by (simp_all add: chain_def)

lemma chain_last: "0 < n \<Longrightarrow> last (chain a k n) = a + (int n - 1) * k"
  by (cases n) (simp_all add: chain_Suc)

definition settled_times :: "study_record list \<Rightarrow> int list" where
  "settled_times recs = map rc_time (filter (\<lambda>r. rc_kind r = ''funding'') recs)"

definition valued_times :: "study_record list \<Rightarrow> int list" where
  "valued_times recs = map rc_time (filter (\<lambda>r. rc_kind r \<noteq> ''funding'') recs)"

definition decided_times :: "study_record list \<Rightarrow> int list" where
  "decided_times recs = map rc_time (filter (\<lambda>r. rc_decision r \<noteq> None) recs)"

lemmas times_defs = settled_times_def valued_times_def decided_times_def

section \<open>Line by line or all at once\<close>

text \<open>The reference: every line is decoded at its ticks, up to the first that cannot be.\<close>

fun decoded :: "run_files \<Rightarrow> run_config \<Rightarrow> nat \<Rightarrow> string list \<Rightarrow> event list \<times> exn option" where
  "decoded rf c tick [] = ([], None)"
| "decoded rf c tick (line # lines) =
     (case bnd (rf_loads rf line) (read_event rf tick c) of
        Inl e \<Rightarrow> ([], Some e)
      | Inr ev \<Rightarrow> (case decoded rf c (tick + 5) lines of (evs, err) \<Rightarrow> (ev # evs, err)))"

definition outcome :: "'a res \<Rightarrow> exn option \<Rightarrow> exn option" where
  "outcome fin err = (case fin of Inl e \<Rightarrow> Some e | Inr _ \<Rightarrow> err)"

definition last_time :: "int option \<Rightarrow> int list \<Rightarrow> int option" where
  "last_time before ts = (if ts = [] then before else Some (last ts))"

lemma last_time_simps [simp]: "last_time before [] = before" "last_time (Some t) ts = last_time before (t # ts)"
  by (simp_all add: last_time_def)

lemma feed_eager:
  assumes "decoded rf (en_config env) tick lines = (evs, err)" "iterate env s evs = (recs, fin)"
    and "map_res (\<lambda>r. rf_dump rf (RecordLine r)) recs = Inr texts"
  shows "\<exists>t' k. feed rf env tick s t lines = (t', outcome fin err) \<and> tl_lines t' = tl_lines t @ texts
    \<and> tl_count t' = tl_count t + length recs \<and> tl_funding t' = last_time (tl_funding t) (settled_times recs)
    \<and> tl_market t' = last_time (tl_market t) (valued_times recs)
    \<and> k \<le> length lines \<and> tl_consumed t' = tl_consumed t @ concat (take k lines)
    \<and> (outcome fin err = None \<longrightarrow> k = length lines)
    \<and> (outcome fin err \<noteq> None \<longrightarrow> (\<forall>later. feed rf env tick s t (take k lines @ later) = (t', outcome fin err)))"
  using assms
proof (induction lines arbitrary: tick s t evs recs texts)
  case Nil
  then show ?case by (auto simp: outcome_def times_defs)
next
  case (Cons line lines)
  let ?t1 = "t\<lparr>tl_consumed := tl_consumed t @ line\<rparr>"
  show ?case
  proof (cases "bnd (rf_loads rf line) (read_event rf tick (en_config env))")
    case (Inl e)
    then have "bnd (rf_loads rf line) (\<lambda>row. bnd (read_event rf tick (en_config env) row) (process env s)) = Inl e"
      by (auto simp: bnd_eq_Inl)
    then show ?thesis
      using Cons.prems Inl by (intro exI [of _ ?t1] exI [of _ 1]) (auto simp: outcome_def times_defs)
  next
    case (Inr ev)
    then have step: "bnd (rf_loads rf line) (\<lambda>row. bnd (read_event rf tick (en_config env) row) (process env s)) = process env s ev"
      by (auto simp: bnd_eq_Inr)
    obtain evs1 where d: "decoded rf (en_config env) (tick + 5) lines = (evs1, err)" and evs: "evs = ev # evs1"
      using Cons.prems(1) Inr by (auto split: prod.splits)
    show ?thesis
    proof (cases "process env s ev")
      case (Inl e)
      then show ?thesis
        using Cons.prems(2,3) step by (intro exI [of _ ?t1] exI [of _ 1]) (auto simp: evs outcome_def times_defs)
    next
      case p: (Inr x)
      obtain r s1 where x: "x = (r, s1)" by (cases x)
      obtain rest where i: "iterate env s1 evs1 = (rest, fin)" and recs: "recs = (case r of None \<Rightarrow> rest | Some y \<Rightarrow> y # rest)"
        using Cons.prems(2) p x by (auto simp: evs split: prod.splits)
      obtain text' texts1 t2 where m: "map_res (\<lambda>r. rf_dump rf (RecordLine r)) rest = Inr texts1"
        and t2: "t2 = (case r of None \<Rightarrow> ?t1 | Some y \<Rightarrow> tally_record y text' ?t1)"
        and texts: "texts = (case r of None \<Rightarrow> texts1 | Some y \<Rightarrow> text' # texts1)"
        and w: "\<And>y. r = Some y \<Longrightarrow> rf_dump rf (RecordLine y) = Inr text'"
        using Cons.prems(3) recs by (cases r) (auto simp: bnd_eq_Inr)
      have feed: "feed rf env tick s t (line # ls) = feed rf env (tick + 5) s1 t2 ls" for ls
        using step p x w by (cases r) (simp_all add: t2 Let_def)
      obtain t' k where h: "feed rf env (tick + 5) s1 t2 lines = (t', outcome fin err)" "tl_lines t' = tl_lines t2 @ texts1"
        "tl_count t' = tl_count t2 + length rest" "tl_funding t' = last_time (tl_funding t2) (settled_times rest)"
        "tl_market t' = last_time (tl_market t2) (valued_times rest)"
        "k \<le> length lines" "tl_consumed t' = tl_consumed t2 @ concat (take k lines)"
        "outcome fin err = None \<longrightarrow> k = length lines"
        "outcome fin err \<noteq> None \<longrightarrow> (\<forall>later. feed rf env (tick + 5) s1 t2 (take k lines @ later) = (t', outcome fin err))"
        using Cons.IH [OF d i m] by blast
      have parts: "tl_lines t2 @ texts1 = tl_lines t @ texts" "tl_count t2 + length rest = tl_count t + length recs"
        "last_time (tl_funding t2) (settled_times rest) = last_time (tl_funding t) (settled_times recs)"
        "last_time (tl_market t2) (valued_times rest) = last_time (tl_market t) (valued_times recs)"
        "tl_consumed t2 = tl_consumed t @ line"
        by (cases r; auto simp: t2 texts recs tally_record_def times_defs last_time_def Let_def)+
      show ?thesis
        by (rule exI [of _ t'], rule exI [of _ "Suc k"]) (use h parts in \<open>simp add: feed del: feed.simps\<close>)
    qed
  qed
qed

lemma feed_writes:
  assumes "feed rf env tick s t lines = (t', None)" "decoded rf (en_config env) tick lines = (evs, err)"
    "iterate env s evs = (recs, fin)"
  shows "\<exists>texts. map_res (\<lambda>r. rf_dump rf (RecordLine r)) recs = Inr texts"
  using assms
proof (induction lines arbitrary: tick s t evs recs)
  case (Cons line lines)
  show ?case
  proof (cases "bnd (rf_loads rf line) (read_event rf tick (en_config env))")
    case (Inl e)
    then show ?thesis using Cons.prems by simp
  next
    case (Inr ev)
    then have step: "bnd (rf_loads rf line) (\<lambda>row. bnd (read_event rf tick (en_config env) row) (process env s)) = process env s ev"
      by (auto simp: bnd_eq_Inr)
    obtain evs1 where d: "decoded rf (en_config env) (tick + 5) lines = (evs1, err)" and evs: "evs = ev # evs1"
      using Cons.prems(2) Inr by (auto split: prod.splits)
    show ?thesis
      using Cons.prems(1,3) step d
      by (auto simp: evs Let_def bnd_eq_Inr split: sum.splits prod.splits option.splits dest: Cons.IH)
  qed
qed simp

section \<open>What a study has covered\<close>

text \<open>
  Settlements and decisions so far are unbroken chains from the start of the study, up to the runner's
  own clocks.
\<close>

definition covered :: "env \<Rightarrow> runner \<Rightarrow> study_record list \<Rightarrow> bool" where
  "covered env s recs \<longleftrightarrow>
     (let st = cg_start (en_config env); k = period_ms env in
      \<exists>n m. settled_times recs = chain st k n \<and> (rn_next_obs s = st + int n * k \<or> n = 0 \<and> rn_next_obs s \<le> st)
        \<and> decided_times recs = chain (st + cg_delay (en_config env)) k m
        \<and> rn_next_decision s = st + cg_delay (en_config env) + int m * k)"

definition taken :: "'a option \<Rightarrow> 'a list" where "taken r = (case r of None \<Rightarrow> [] | Some x \<Rightarrow> [x])"

lemma taken_simps [simp]: "taken None = []" "taken (Some x) = [x]"
  by (simp_all add: taken_def)

lemma coveredI:
  assumes "settled_times recs = chain (cg_start (en_config env)) (period_ms env) n"
    and "rn_next_obs s = cg_start (en_config env) + int n * period_ms env \<or> n = 0 \<and> rn_next_obs s \<le> cg_start (en_config env)"
    and "decided_times recs = chain (cg_start (en_config env) + cg_delay (en_config env)) (period_ms env) m"
    and "rn_next_decision s = cg_start (en_config env) + cg_delay (en_config env) + int m * period_ms env"
  shows "covered env s recs"
  unfolding covered_def Let_def using assms by blast

lemma coveredE:
  assumes "covered env s recs"
  obtains n m where "settled_times recs = chain (cg_start (en_config env)) (period_ms env) n"
    and "rn_next_obs s = cg_start (en_config env) + int n * period_ms env \<or> n = 0 \<and> rn_next_obs s \<le> cg_start (en_config env)"
    and "decided_times recs = chain (cg_start (en_config env) + cg_delay (en_config env)) (period_ms env) m"
    and "rn_next_decision s = cg_start (en_config env) + cg_delay (en_config env) + int m * period_ms env"
  using assms unfolding covered_def Let_def by blast

lemma process_kind:
  assumes "process env s ev = Inr (Some rec, s')"
  shows "rc_kind rec = (case ev of Funding _ \<Rightarrow> ''funding'' | Market _ \<Rightarrow> ''market'')"
proof -
  obtain s1 where "case ev of Funding e \<Rightarrow> process_funding env s1 e = Inr (Some rec, s')
      | Market e \<Rightarrow> process_market env s1 e = Inr (Some rec, s')"
    by (rule processE [OF assms])
  then show ?thesis
    by (cases ev)
      (auto simp: process_funding_def process_market_def Let_def bnd_eq_Inr split: if_splits elim!: record_ofE)
qed

lemma covered_funding:
  assumes "process_funding env s e = Inr (r, s')" "covered env s recs" "clocks env ph s" "config_ok (en_config env)"
    and k: "\<And>rec. r = Some rec \<Longrightarrow> rc_kind rec = ''funding''"
  shows "covered env s' (recs @ taken r)"
proof -
  let ?st = "cg_start (en_config env)" and ?p = "period_ms env"
  have pos: "0 < ?p" using assms(4) by (rule period_pos)
  obtain n m where c: "settled_times recs = chain ?st ?p n" "rn_next_obs s = ?st + int n * ?p \<or> n = 0 \<and> rn_next_obs s \<le> ?st"
    "decided_times recs = chain (?st + cg_delay (en_config env)) ?p m"
    "rn_next_decision s = ?st + cg_delay (en_config env) + int m * ?p"
    using assms(2) by (rule coveredE)
  from assms(1) show ?thesis
  proof (rule process_fundingE)
    assume h: "fe_interval e = cg_interval (en_config env)" "fe_time e = rn_next_obs s"
      "rn_next_obs s' = rn_next_obs s + fe_interval e * hour_ms" "rn_next_decision s' = rn_next_decision s"
      and early: "fe_time e < ?st \<Longrightarrow> r = None \<and> rn_ledger s' = rn_ledger s \<and> rn_position s' = rn_position s"
      and late: "?st \<le> fe_time e \<Longrightarrow>
       ledger_settle (rn_ledger s) \<lparr>st_event_id = fe_id e, st_symbol = cg_symbol (en_config env),
            st_time_ms = fe_time e, st_interval_hours = fe_interval e, st_rate = fe_rate e,
            st_mark_price = mark_value (fe_mark e)\<rparr> = Inr (rn_ledger s')
       \<and> rn_position s' = map_option (\<lambda>p. p\<lparr>ps_held := ps_held p + 1\<rparr>) (rn_position s)
       \<and> (\<exists>rec. r = Some rec \<and> \<not> rc_admitted rec \<and> rc_decision rec = None \<and> rc_time rec = fe_time e \<and> reports rec s')"
    have obs: "rn_next_obs s' = rn_next_obs s + ?p" using h by (simp add: period_ms_def)
    show ?thesis
    proof (cases "fe_time e < ?st")
      case True
      then have r: "r = None" using early by simp
      have before: "rn_next_obs s < ?st" using True h(2) by simp
      have n: "n = 0"
        using c(2) before pos mult_nonneg_nonneg [of "int n" ?p] by linarith
      have "rn_next_obs s mod ?p = 0"
        using assms(3) before pos by (cases ph) (auto simp: clocks_def Let_def)
      then have "rn_next_obs s + ?p \<le> ?st"
        using mod_step [of "rn_next_obs s" ?p ?st] before pos assms(4) by (simp add: config_ok_def period_ms_def)
      then show ?thesis
        using c(1,3,4) n h(4) obs r by (intro coveredI [where n = 0 and m = m]) auto
    next
      case False
      then obtain rec where r: "r = Some rec" "rc_decision rec = None" "rc_time rec = fe_time e" using late by fastforce
      have at: "rn_next_obs s = ?st + int n * ?p" using c(2) False h(2) by auto
      show ?thesis
        by (rule coveredI [where n = "Suc n" and m = m])
          (use c k [OF r(1)] r h at obs in \<open>auto simp: times_defs chain_Suc distrib_right\<close>)
    qed
  qed
qed

lemma covered_market:
  assumes "process_market env s e = Inr (r, s')" "covered env s recs"
    and k: "\<And>rec. r = Some rec \<Longrightarrow> rc_kind rec = ''market''"
  shows "covered env s' (recs @ taken r)"
proof -
  obtain n m where c: "settled_times recs = chain (cg_start (en_config env)) (period_ms env) n"
    "rn_next_obs s = cg_start (en_config env) + int n * period_ms env \<or> n = 0 \<and> rn_next_obs s \<le> cg_start (en_config env)"
    "decided_times recs = chain (cg_start (en_config env) + cg_delay (en_config env)) (period_ms env) m"
    "rn_next_decision s = cg_start (en_config env) + cg_delay (en_config env) + int m * period_ms env"
    using assms(2) by (rule coveredE)
  obtain rec where h: "check_market env s e = Inr ()" "rn_next_obs s' = rn_next_obs s"
    "rn_next_decision s' = rn_next_decision s + (if me_decide e then cg_interval (en_config env) * hour_ms else 0)"
    "r = Some rec" "(rc_decision rec = None) = (\<not> me_decide e)" "rc_time rec = me_time e"
    by (rule process_marketE [OF assms(1)]) (rule that; assumption)
  have at: "me_time e = rn_next_decision s" if "me_decide e"
    using h(1) that by (auto simp: check_market_def bnd_eq_Inr guard_eq_Inr)
  show ?thesis
    by (rule coveredI [where n = n and m = "if me_decide e then Suc m else m"])
      (use c h at k [OF h(4)] in \<open>auto simp: times_defs chain_Suc distrib_right period_ms_def\<close>)
qed

lemma covered_step:
  assumes "process env s ev = Inr (r, s')" "covered env s recs" "clocks env ph s" "config_ok (en_config env)"
  shows "covered env s' (recs @ taken r)"
proof -
  obtain s1 where s1: "s1 = s\<lparr>rn_last_time := event_time ev, rn_ids := insert (event_id ev) (rn_ids s)\<rparr>"
    and p: "case ev of Funding e \<Rightarrow> process_funding env s1 e = Inr (r, s') | Market e \<Rightarrow> process_market env s1 e = Inr (r, s')"
    by (rule processE [OF assms(1)])
  have c: "covered env s1 recs" "clocks env ph s1"
    using assms(2,3) by (auto simp: covered_def s1 clocks_def position_age_def Let_def split: phase.splits)
  show ?thesis
  proof (cases ev)
    case (Funding e)
    then show ?thesis using covered_funding [OF _ c assms(4)] p process_kind assms(1) by fastforce
  next
    case (Market e)
    then show ?thesis using covered_market [OF _ c(1)] p process_kind assms(1) by fastforce
  qed
qed

lemma iterate_covered:
  assumes "iterate env s evs = (recs, Inr s')" "covered env s before" "clocks env ph s" "carries s" "config_ok (en_config env)"
  shows "covered env s' (before @ recs)"
  using assms
proof (induction evs arbitrary: s ph before recs)
  case (Cons ev evs)
  from Cons.prems(1) obtain r s1 rest where p: "process env s ev = Inr (r, s1)" and i: "iterate env s1 evs = (rest, Inr s')"
    and recs: "recs = taken r @ rest"
    unfolding iterate_Cons by (auto split: option.splits)
  from process_step [OF p Cons.prems(3-5)] obtain ph1 where c: "clocks env ph1 s1" "carries s1" by blast
  show ?case
    using Cons.IH [OF i covered_step [OF p Cons.prems(2,3,5)] c Cons.prems(5)] by (simp add: recs)
qed simp

lemma iterate_record_times:
  assumes "iterate env s evs = (recs, Inr s')" "rec \<in> set recs"
  shows "\<exists>ev \<in> set evs. rc_time rec = event_time ev"
  using assms
proof (induction evs arbitrary: s recs)
  case (Cons ev evs)
  from Cons.prems(1) obtain r s1 rest where p: "process env s ev = Inr (r, s1)" and i: "iterate env s1 evs = (rest, Inr s')"
    and recs: "recs = taken r @ rest"
    unfolding iterate_Cons by (auto split: option.splits)
  show ?case
  proof (cases "rec \<in> set rest")
    case True
    then show ?thesis using Cons.IH [OF i] by auto
  next
    case False
    then have "r = Some rec" using Cons.prems(2) recs by (cases r) auto
    then show ?thesis using process_record(3) [OF p] by auto
  qed
qed simp

text \<open>The whole window, from its start to its end.\<close>

definition window_periods :: "env \<Rightarrow> nat" where
  "window_periods env = nat ((cg_end (en_config env) - cg_start (en_config env)) div period_ms env)"

definition covers_window :: "env \<Rightarrow> study_record list \<Rightarrow> bool" where
  "covers_window env recs \<longleftrightarrow>
     settled_times recs = chain (cg_start (en_config env)) (period_ms env) (window_periods env)
     \<and> decided_times recs = chain (cg_start (en_config env) + cg_delay (en_config env)) (period_ms env) (window_periods env)
     \<and> valued_times recs \<noteq> [] \<and> last (valued_times recs) = cg_end (en_config env) - 1"

lemma window_split:
  assumes "mk_run_config c = Inr c'" "en_config env = c"
  shows "cg_end c = cg_start c + int (window_periods env) * period_ms env" "0 < window_periods env"
proof -
  have ok: "config_ok c" using mk_run_config_ok [OF assms(1)] by simp
  have "24 mod cg_interval c = 0"
    using assms(1) unfolding mk_run_config_def config_scope_def Let_def bnd_eq_Inr guard_eq_Inr by (elim exE conjE) simp
  then have "cg_interval c * hour_ms dvd utc_ms (first_of_month (day_of_ms (cg_end c)))"
    unfolding utc_ms_def using ok by (intro day_split) (simp_all add: config_ok_def)
  then have "period_ms env dvd cg_end c"
    using ok by (simp add: config_ok_def month_start_ms_def period_ms_def assms(2))
  moreover have "period_ms env dvd cg_start c"
    using ok by (simp add: config_ok_def period_ms_def assms(2) mod_eq_0_iff_dvd)
  ultimately have "period_ms env dvd cg_end c - cg_start c" by (rule dvd_diff)
  then have d: "(cg_end c - cg_start c) div period_ms env * period_ms env = cg_end c - cg_start c" by simp
  have pos: "0 < period_ms env" using period_pos [of env] ok assms(2) by simp
  moreover have "0 < cg_end c - cg_start c" using ok by (simp add: config_ok_def)
  ultimately have "0 < (cg_end c - cg_start c) div period_ms env"
    using zero_less_mult_pos2 [of "(cg_end c - cg_start c) div period_ms env" "period_ms env"] by (simp only: d)
  then show "cg_end c = cg_start c + int (window_periods env) * period_ms env" "0 < window_periods env"
    using d by (simp_all add: window_periods_def assms(2))
qed

lemma phase_last_decision:
  assumes "clocks env ph s" "config_ok (en_config env)" "rn_next_obs s = cg_end (en_config env)"
    "cg_end (en_config env) - 1 \<le> rn_next_decision s"
  shows "rn_next_decision s = cg_end (en_config env) + cg_delay (en_config env)"
  using assms by (cases ph) (auto simp: clocks_def config_ok_def period_ms_def settlement_guard_ms_def Let_def)

lemma completed_study:
  assumes it: "iterate env s evs = (recs, Inr s')" and start: "covered env s []" "clocks env Warmup s" "carries s"
    and c: "mk_run_config (en_config env) = Inr c"
    and ends: "settled_times recs \<noteq> []" "last (settled_times recs) = cg_end (en_config env) - period_ms env"
      "valued_times recs \<noteq> []" "last (valued_times recs) = cg_end (en_config env) - 1"
  shows "settled_times recs = chain (cg_start (en_config env)) (period_ms env) (window_periods env)"
    "decided_times recs = chain (cg_start (en_config env) + cg_delay (en_config env)) (period_ms env) (window_periods env)"
proof -
  let ?st = "cg_start (en_config env)" and ?en = "cg_end (en_config env)" and ?p = "period_ms env" and ?N = "window_periods env"
  have ok: "config_ok (en_config env)" using mk_run_config_ok [OF c] by simp
  have pos: "0 < ?p" using ok by (rule period_pos)
  note w = window_split [OF c refl]
  have cov: "covered env s' recs" using iterate_covered [OF it start ok] by simp
  from iterate_phases [OF it start(2,3) ok] obtain ph where ph: "clocks env ph s'" by blast
  from cov obtain n m where h: "settled_times recs = chain ?st ?p n" "rn_next_obs s' = ?st + int n * ?p \<or> n = 0 \<and> rn_next_obs s' \<le> ?st"
    "decided_times recs = chain (?st + cg_delay (en_config env)) ?p m"
    "rn_next_decision s' = ?st + cg_delay (en_config env) + int m * ?p"
    by (rule coveredE)
  have n0: "0 < n" using ends(1) h(1) by simp
  then have "?st + (int n - 1) * ?p = ?en - ?p" using ends(2) by (simp add: h(1) chain_last)
  then have "int n * ?p = int ?N * ?p" using w(1) by (simp add: left_diff_distrib)
  then have n: "n = ?N" using pos by simp
  have obs: "rn_next_obs s' = ?en" using h(2) n0 n w(1) by simp
  obtain rec where rec: "rec \<in> set recs" "rc_time rec = ?en - 1"
    using ends(3,4) last_in_set [OF ends(3)] by (auto simp: valued_times_def)
  obtain ev where "ev \<in> set evs" "event_time ev = ?en - 1" using iterate_record_times [OF it rec(1)] rec(2) by auto
  then have "?en - 1 \<le> rn_next_decision s'" using iterate_times [OF it start(2,3) ok] by fastforce
  then have "?en + cg_delay (en_config env) = rn_next_decision s'" using phase_last_decision [OF ph ok obs] by simp
  then have "int m * ?p = int ?N * ?p" using h(4) w(1) by linarith
  then have "m = ?N" using pos by auto
  then show "settled_times recs = chain ?st ?p ?N" "decided_times recs = chain (?st + cg_delay (en_config env)) ?p ?N"
    using h(1,3) n by simp_all
qed

lemma covered_start:
  assumes "mk_runner env = Inr s0" "config_ok (en_config env)"
  shows "covered env s0 []"
proof -
  have "clocks env Warmup s0" using mk_runner_inv [OF assms] by simp
  then show ?thesis by (intro coveredI [where n = 0 and m = 0]) (auto simp: clocks_def times_defs Let_def)
qed

text \<open>A run that ends without an error, and what its footer says.\<close>

lemma finished_run:
  assumes "mk_run_config (en_config env) = Inr c" "valid_schedule (en_fees env)"
    and "run_study rf env tick (start_tally header) (Inr lines) = (t, None)"
  shows "\<exists>evs recs s texts. decoded rf (en_config env) tick lines = (evs, None) \<and> iter_backtest env evs = (recs, Inr s)
    \<and> map_res (\<lambda>r. rf_dump rf (RecordLine r)) recs = Inr texts \<and> tl_lines t = header # texts
    \<and> (window_complete (en_config env) t \<longleftrightarrow>
         covers_window env recs)"
proof -
  obtain s0 where s0: "mk_runner env = Inr s0" and feed: "feed rf env tick s0 (start_tally header) lines = (t, None)"
    using assms(3) by (auto simp: run_study_def split: sum.splits)
  obtain evs err where d: "decoded rf (en_config env) tick lines = (evs, err)" by (cases "decoded rf (en_config env) tick lines")
  obtain recs fin where it: "iterate env s0 evs = (recs, fin)" by (cases "iterate env s0 evs")
  obtain texts where m: "map_res (\<lambda>r. rf_dump rf (RecordLine r)) recs = Inr texts" using feed_writes [OF feed d it] by blast
  have out: "outcome fin err = None" "tl_lines t = header # texts"
    "tl_funding t = last_time None (settled_times recs)" "tl_market t = last_time None (valued_times recs)"
    using feed_eager [OF d it m, of "start_tally header"] feed by (auto simp: start_tally_def)
  then obtain s where fin: "fin = Inr s" and err: "err = None" by (auto simp: outcome_def split: sum.splits)
  note w = window_split [OF assms(1) refl]
  have ib: "iter_backtest env evs = (recs, Inr s)" using it s0 fin by (simp add: iter_backtest_def)
  have ok: "config_ok (en_config env)" using mk_run_config_ok [OF assms(1)] by simp
  have inv: "clocks env Warmup s0" "carries s0" using iter_backtestE [OF assms(1,2) ib] s0 by auto
  have "window_complete (en_config env) t \<longleftrightarrow>
      settled_times recs \<noteq> [] \<and> last (settled_times recs) = cg_end (en_config env) - period_ms env
      \<and> valued_times recs \<noteq> [] \<and> last (valued_times recs) = cg_end (en_config env) - 1"
    using out by (auto simp: window_complete_def last_time_def period_ms_def)
  also have "\<dots> \<longleftrightarrow> covers_window env recs"
    using completed_study [OF it [unfolded fin] covered_start [OF s0 ok] inv assms(1)] w
    by (auto simp: covers_window_def chain_last left_diff_distrib)
  finally show ?thesis using d ib m out(2) err by blast
qed

lemma study_finishes:
  assumes "decoded rf (en_config env) tick lines = (evs, None)" "iter_backtest env evs = (recs, Inr s)"
    and "map_res (\<lambda>r. rf_dump rf (RecordLine r)) recs = Inr texts"
  shows "\<exists>t. run_study rf env tick t0 (Inr lines) = (t, None)"
proof -
  obtain s0 where s0: "mk_runner env = Inr s0" using backtest_start [OF assms(2)] by blast
  then have "iterate env s0 evs = (recs, Inr s)" using assms(2) by (simp add: iter_backtest_def)
  then show ?thesis
    using feed_eager [OF assms(1) _ assms(3)] s0 by (force simp: run_study_def outcome_def simp del: feed.simps)
qed

section \<open>Admitted inputs\<close>

lemma read_period_valid: "read_period row = Inr p \<Longrightarrow> valid_period p"
  unfolding read_period_def Let_def bnd_eq_Inr
  by (elim exE conjE) (auto split: option.splits dest: mk_fee_period_valid)

lemma load_schedule_valid:
  assumes "load_schedule document allow = Inr fees"
  shows "valid_schedule fees"
proof -
  obtain rows periods b where "map_res read_period rows = Inr periods" "mk_fee_schedule periods b = Inr fees"
    using assms unfolding load_schedule_def bnd_eq_Inr by (cases allow) auto
  then show ?thesis using mk_fee_schedule_valid map_res_origin read_period_valid by metis
qed

lemma read_config_valid:
  assumes "read_config study specification = Inr c"
  shows "mk_run_config c = Inr c \<and> cg_mode c = ''inferred'' \<and> cg_prior c = default_prior"
proof -
  obtain x where x: "mk_run_config x = Inr c" "cg_mode x = ''inferred''" "cg_prior x = default_prior"
    using assms unfolding read_config_def bnd_eq_Inr by (elim exE conjE) simp
  then show ?thesis using mk_run_config_ok [OF x(1)] by simp
qed

lemma setup_runE:
  assumes "setup_run rf = Inr (c, fees, sources)"
  obtains "mk_run_config c = Inr c" "cg_mode c = ''inferred''" "valid_schedule fees"
  using assms unfolding setup_run_def bnd_eq_Inr
  by (elim exE conjE) (auto dest: read_config_valid load_schedule_valid)

section \<open>Decoded opportunities\<close>

definition declared_impact :: "json \<Rightarrow> json res" where \<comment> \<open>the artifact a manifest line names\<close>
  "declared_impact row = bnd (dict_get ''opportunity'' row) (dict_get ''impact'')"

lemma curve_atE:
  assumes "curve_at rf tick c now path schedule regime = Inr curve"
  obtains content later where "rf_read rf tick path = Inr content" "rf_sha rf content = ic_artifact curve"
    "rf_read rf (tick + 2) path = Inr later" "rf_sha rf later = ic_artifact curve"
    "ic_symbol curve = cg_symbol c" "ic_evidence_end curve \<le> now"
    "ic_kind curve = Synthetic \<longrightarrow> pl_synthetic (cg_policy c)"
proof -
  from assms obtain content v later where h: "rf_read rf tick path = Inr content" "rf_read rf (tick + 2) path = Inr later"
    and l: "load_curve (rf_sha rf content) (rf_sha rf later) (Inr v) (cg_symbol c) now schedule inside_depth regime
      (pl_synthetic (cg_policy c)) = Inr curve"
    unfolding curve_at_def bnd_eq_Inr by blast
  show thesis
    by (rule load_curve_parts [OF l], rule that [OF h(1) _ h(2)]) auto
qed

lemma sizing_inputs_fixed: "mk_sizing_inputs i = Inr j \<Longrightarrow> mk_sizing_inputs j = Inr j"
  using mk_sizing_inputs_step by metis

lemma read_sizing_valid: "read_sizing v = Inr m \<Longrightarrow> mk_sizing_inputs m = Inr m"
  unfolding read_sizing_def Let_def bnd_eq_Inr by (elim exE conjE) (rule sizing_inputs_fixed)

lemma read_opportunityE:
  assumes "read_opportunity rf tick c now supplied = Inr o'"
  obtains reference path content later again artifact train day where
    "dict_get ''impact'' supplied = Inr reference" "dict_get ''path'' reference = Inr (JStr path)"
    "dict_get ''sha256'' reference = Inr (JStr (ic_artifact (op_curve o')))"
    "rf_read rf tick path = Inr content" "rf_sha rf content = ic_artifact (op_curve o')"
    "rf_read rf (tick + 2) path = Inr later" "rf_sha rf later = ic_artifact (op_curve o')"
    "rf_read rf (tick + 4) path = Inr again" "rf_sha rf again = ic_artifact (op_curve o')"
    "load_artifact (rf_loads rf) (rf_read rf (tick + 3) path) = Inr artifact" "dict_get ''train_start'' artifact = Inr (JStr train)"
    "iso_date train = Some day" "op_fold_start o' - cg_impact_days c * day_ms \<le> utc_ms day"
    "ic_symbol (op_curve o') = cg_symbol c" "ic_evidence_end (op_curve o') \<le> now"
    "ic_kind (op_curve o') = Synthetic \<longrightarrow> pl_synthetic (cg_policy c)" "mk_opportunity o' = Inr o'"
    "mk_sizing_inputs (op_market o') = Inr (op_market o')"
proof -
  have is_text: "text_value v = Inr s \<longleftrightarrow> v = JStr s" for v s by (cases v) (auto simp: text_value_def)
  from assms obtain reference path schedule regime curve declared artifact fold train day again market x where
    h: "dict_get ''impact'' supplied = Inr reference" "dict_get ''path'' reference = Inr (JStr path)"
    "curve_at rf tick c now path schedule regime = Inr curve"
    "dict_get ''sha256'' reference = Inr declared" "declared = JStr (ic_artifact curve)"
    "load_artifact (rf_loads rf) (rf_read rf (tick + 3) path) = Inr artifact"
    "dict_get ''train_start'' artifact = Inr (JStr train)" "iso_date train = Some day"
    "\<not> utc_ms day < fold - cg_impact_days c * day_ms" "rf_read rf (tick + 4) path = Inr again" "rf_sha rf again = ic_artifact curve"
    and m: "bnd (dict_get ''sizing'' supplied) read_sizing = Inr market" and o: "mk_opportunity x = Inr o'"
    and x: "op_curve x = curve" "op_fold_start x = fold" "op_market x = market"
    unfolding read_opportunity_def bnd_eq_Inr guard_eq_Inr is_text by (auto split: option.splits)
  have xo: "x = o'" using o by (auto simp: mk_opportunity_def bnd_eq_Inr)
  have sz: "mk_sizing_inputs market = Inr market"
    using m unfolding bnd_eq_Inr by (elim exE conjE) (rule read_sizing_valid)
  obtain content later where q: "rf_read rf tick path = Inr content" "rf_sha rf content = ic_artifact curve"
    "rf_read rf (tick + 2) path = Inr later" "rf_sha rf later = ic_artifact curve"
    "ic_symbol curve = cg_symbol c" "ic_evidence_end curve \<le> now" "ic_kind curve = Synthetic \<longrightarrow> pl_synthetic (cg_policy c)"
    by (rule curve_atE [OF h(3)])
  show thesis
    by (rule that [of reference path content later again artifact train day])
      (use h o x q sz in \<open>simp_all add: xo not_less\<close>)
qed

lemma present_some: "as_dict row = Inr d \<Longrightarrow> map_of d k = Some v \<Longrightarrow> v \<noteq> JNull \<Longrightarrow> present_field k row = Inr (Some v)"
  by (cases v) (simp_all add: present_field_def)

lemma read_marketE:
  assumes "read_event rf tick c row = Inr (Market e)" "me_opportunity e = Some o'"
  obtains supplied where "dict_get ''opportunity'' row = Inr supplied" "dict_get ''symbol'' row = Inr (JStr (cg_symbol c))"
    "dict_get ''time_ms'' row = Inr (JInt (me_time e))"
    "read_opportunity rf tick c (me_time e) supplied = Inr o'" "mk_symbol (me_marks e) = cg_symbol c"
    "mk_time_ms (me_marks e) = me_time e"
proof -
  have is_int: "int_value v = Inr i \<longleftrightarrow> v = JInt i" for v i by (cases v) (auto simp: int_value_def)
  have given: "dict_get k v = Inr x" if f: "present_field k v = Inr (Some x)" for k v x
  proof -
    obtain d where d: "as_dict v = Inr d" using f by (cases "as_dict v") (simp_all add: present_field_def)
    obtain y where y: "map_of d k = Some y" using f d by (cases "map_of d k") (simp_all add: present_field_def)
    then have "y = x" using f d by (cases y) (simp_all add: present_field_def)
    then show ?thesis using d y by (simp add: dict_get_def jget_def)
  qed
  have sym: "dict_get ''symbol'' row = Inr (JStr (cg_symbol c))" and m: "read_market rf tick c row = Inr e"
    using assms(1) by (auto simp: read_event_def bnd_eq_Inr guard_eq_Inr split: if_splits)
  have t: "dict_get ''time_ms'' row = Inr (JInt (me_time e))" "mk_symbol (me_marks e) = cg_symbol c"
    "mk_time_ms (me_marks e) = me_time e" "supplied_opportunity rf tick c row = Inr (Some o')"
    using m assms(2) by (auto simp: read_market_def bnd_eq_Inr is_int)
  obtain x where h: "present_field ''opportunity'' row = Inr (Some x)" "read_opportunity rf tick c (me_time e) x = Inr o'"
    using t(1,4) by (auto simp: supplied_opportunity_def bnd_eq_Inr int_value_def split: option.splits)
  show thesis by (rule that [OF given [OF h(1)]]) (use h t sym in simp_all)
qed

section \<open>A concrete run\<close>

text \<open>The study of \<^const>\<open>study_env\<close> as a manifest: three warmup settlements, the first of the study, and a broken line.\<close>

definition example_line :: "string \<Rightarrow> int \<Rightarrow> json" where
  "example_line i t = JDict [(''symbol'', JStr ''BTCUSDT''), (''type'', JStr ''funding''), (''event_id'', JStr i),
     (''time_ms'', JInt t), (''rate'', JStr ''0.0009765625''), (''interval_hours'', JInt 8), (''mark_price'', JStr ''1'')]"

definition example_files :: run_files where
  "example_files = \<lparr>rf_read = (\<lambda>_ _. Inl (FileNotFoundError [])), rf_input = (\<lambda>_ _. Inl (FileNotFoundError [])),
     rf_lines = Inr [''a'', ''b'', ''c'', ''d'', ''?''], rf_sha = (\<lambda>_. example_digest),
     rf_loads = (\<lambda>line. if line = ''a'' then Inr (example_line ''a'' 2592000000) else if line = ''b'' then Inr (example_line ''b'' 2620800000)
        else if line = ''c'' then Inr (example_line ''c'' 2649600000) else if line = ''d'' then Inr (example_line ''d'' 2678400000)
        else Inl (ValueError ''Expecting value'')),
     rf_toml = (\<lambda>_. Inl (ValueError [])), rf_modules = Inr [], rf_exists = False, rf_dump = (\<lambda>_. Inr ''{}'')\<rparr>"

lemma example_parse: "parse_decimal ''0.0009765625'' = Some (DFin False 9765625 (-10))" "parse_decimal ''1'' = Some (DFin False 1 0)"
  by (simp_all add: parse_decimal_def strip_def py_space_def take_sign_def parse_finite_def parse_fraction_def parse_exponent_def
      is_digit_def digits_val_def digit_val_def Let_def)

lemma example_money: "money (JStr ''0.0009765625'') = Inr (Fin (1 / 1024))" "money (JStr ''1'') = Inr (Fin 1)"
  by (simp_all add: money_def example_parse power_int_def power_one_over)

lemma example_decode: "read_event example_files tick study_config (example_line i t) = Inr (Funding (study_funding i t))"
  by (simp add: read_event_def read_funding_def example_line_def dict_get_def as_dict_def jget_def text_value_def int_value_def example_money
      present_field_def study_funding_def)

lemma example_decoded:
  "decoded example_files study_config tick [''a'', ''b'', ''c'', ''d''] = (study_warmup @ [Funding (study_funding ''d'' 2678400000)], None)"
  "decoded example_files study_config tick [''a'', ''b'', ''c'', ''d'', ''?''] =
     (study_warmup @ [Funding (study_funding ''d'' 2678400000)], Some (ValueError ''Expecting value''))"
  by (simp_all add: example_files_def [THEN arg_cong [where f = rf_loads]] example_decode study_warmup_def)

lemma example_study: "\<exists>r. iter_backtest study_env (study_warmup @ [Funding (study_funding ''d'' 2678400000)]) = ([r], Inr study_settled)"
  using study_settle by (auto simp: iter_backtest_def study_mk_runner iterate_append study_warmup_runs)

lemma example_dump: "map_res (\<lambda>r. rf_dump example_files (RecordLine r)) recs = Inr (map (\<lambda>_. ''{}'') recs)"
  by (rule map_res_map) (simp add: example_files_def)

section \<open>Properties\<close>

text \<open>C38: the command computes the walk-forward study of its manifest: reading, decoding, processing and
  writing one line at a time gives the same records, in the same order, and ends in the same error as the
  study on the events decoded beforehand; and a run that fails has read exactly the lines it digests: it is the
  same run whatever lines follow.\<close>

theorem run_is_the_study:
  assumes "decoded rf (en_config env) tick lines = (evs, err)" "iter_backtest env evs = (recs, fin)"
    and "map_res (\<lambda>r. rf_dump rf (RecordLine r)) recs = Inr texts"
  shows "\<exists>t' k. run_study rf env tick t (Inr lines) = (t', outcome fin err)
    \<and> tl_lines t' = tl_lines t @ texts \<and> tl_count t' = tl_count t + length recs
    \<and> k \<le> length lines \<and> tl_consumed t' = tl_consumed t @ concat (take k lines)
    \<and> (outcome fin err = None \<longrightarrow> k = length lines)
    \<and> (outcome fin err \<noteq> None \<longrightarrow> (\<forall>later. run_study rf env tick t (Inr (take k lines @ later)) = (t', outcome fin err)))"
proof (cases "mk_runner env")
  case (Inl e)
  then have "recs = []" "fin = Inl e" using assms(2) by (simp_all add: iter_backtest_def)
  then show ?thesis
    using assms(3) Inl by (intro exI [of _ t] exI [of _ 0]) (simp add: run_study_def outcome_def)
next
  case (Inr s)
  then have it: "iterate env s evs = (recs, fin)" using assms(2) by (simp add: iter_backtest_def)
  have run: "run_study rf env tick t (Inr ls) = feed rf env tick s t ls" for ls using Inr by (simp add: run_study_def)
  show ?thesis using feed_eager [OF assms(1) it assms(3), of t] unfolding run by (elim exE conjE) (intro exI conjI; assumption)
qed

lemma run_is_the_study_witness:
  "\<exists>t' k. run_study example_files study_env 0 (start_tally ''h'') (Inr [''a'', ''b'', ''c'', ''d'', ''?'']) = (t', Some (ValueError ''Expecting value''))
     \<and> tl_lines t' = [''h'', ''{}''] \<and> tl_count t' = 1"
proof -
  obtain r where r: "iter_backtest study_env (study_warmup @ [Funding (study_funding ''d'' 2678400000)]) = ([r], Inr study_settled)"
    using example_study by blast
  have d: "decoded example_files (en_config study_env) 0 [''a'', ''b'', ''c'', ''d'', ''?''] =
      (study_warmup @ [Funding (study_funding ''d'' 2678400000)], Some (ValueError ''Expecting value''))"
    by (simp add: example_decoded del: decoded.simps)
  show ?thesis
    using run_is_the_study [OF d r example_dump, of "start_tally ''h''"] by (auto simp: outcome_def start_tally_def)
qed


text \<open>A market line on the artifact of the cost examples.\<close>

definition example_sizing :: json where
  "example_sizing = JDict [(''symbol'', JStr ''BTC''), (''observed_at_ms'', JInt 0), (''valid_until_ms'', JInt 1),
     (''price_usdt'', JInt 1), (''adv_base'', JInt 1), (''adv_start_ms'', JInt 86400000), (''adv_end_exclusive_ms'', JInt 2678400000),
     (''adv_sha256'', JStr example_digest), (''quantity_step'', JStr ''1''), (''min_quantity'', JStr ''1''),
     (''min_notional_usdt'', JInt 0), (''max_notional_usdt'', JInt 8), (''max_adv_fraction'', JInt 1),
     (''validated_quantity_base'', JInt 8), (''metadata_valid_from_ms'', JInt 0), (''metadata_valid_until_ms'', JInt 1),
     (''metadata_sha256'', JStr example_digest)]"

definition example_supplied :: json where
  "example_supplied = JDict [(''impact'', JDict [(''path'', JStr ''impact.json''), (''schedule'', JStr ''static''),
       (''size_regime'', JStr ''all_sizes''), (''sha256'', JStr example_digest)]),
     (''fold_start_ms'', JInt 1704067200000), (''sizing'', example_sizing), (''approval'', JNull),
     (''perp_half_spread_bps'', JInt 0), (''spot_execution_bps'', JInt 0), (''financing_fraction'', JInt 0)]"

definition example_row :: json where
  "example_row = JDict [(''symbol'', JStr ''BTC''), (''type'', JStr ''market''), (''event_id'', JStr ''m''),
     (''time_ms'', JInt 1704240000000), (''opportunity'', example_supplied), (''spot_mid'', JStr ''1''), (''perp_mid'', JStr ''1''),
     (''spot_mark'', JStr ''1''), (''perp_mark'', JStr ''1''), (''decide'', JBool False), (''financing_usdt'', JStr ''1'')]"

definition artifact_files :: run_files where
  "artifact_files = example_files\<lparr>rf_read := (\<lambda>_ _. Inr ''artifact''), rf_loads := (\<lambda>_. Inr example_artifact)\<rparr>"

definition btc_config :: run_config where
  "btc_config = study_config\<lparr>cg_symbol := ''BTC'', cg_policy := (cg_policy study_config)\<lparr>pl_synthetic := True\<rparr>\<rparr>"

lemma example_hooks: "hooks_ok example_artifact"
  by (simp add: example_artifact_def example_fit_def example_sha_def)

lemma example_loaded: "load_artifact (rf_loads artifact_files) (rf_read artifact_files tick path) = Inr example_artifact"
  by (simp add: load_artifact_def artifact_files_def example_hooks example_artifact_valid)

lemma example_curve_at: "curve_at artifact_files tick btc_config 1704240000000 ''impact.json'' ''static'' ''all_sizes'' = Inr example_curve"
proof -
  have sim: "cg_symbol btc_config = ''BTC''" "pl_synthetic (cg_policy btc_config) = True" by (simp_all add: btc_config_def)
  have rd: "rf_read artifact_files t p = Inr ''artifact''" "rf_sha artifact_files x = example_digest" for t p x
    by (simp_all add: artifact_files_def example_files_def)
  have l: "load_artifact (rf_loads artifact_files) (Inr ''artifact'') = Inr example_artifact"
    using example_loaded by (simp add: rd)
  show ?thesis by (simp add: curve_at_def integer_def rd l sim example_load_curve)
qed

lemma example_read_sizing: "\<exists>m. read_sizing example_sizing = Inr m"
  by (simp add: read_sizing_def Let_def example_sizing_def as_dict_def jget_def int_value_def num_value_def text_value_def
      example_money keyword_fields_def sizing_fields_def insert_commute mk_sizing_inputs_def integer_def positive_number_def
      number_def nonneg_decimal_def example_digest_ok day_ms_def cong: eval_cong)

lemma example_opportunity_read: "\<exists>o'. read_opportunity artifact_files tick btc_config 1704240000000 example_supplied = Inr o'"
proof -
  obtain m where m: "read_sizing example_sizing = Inr m" using example_read_sizing by blast
  have rd: "rf_read artifact_files t p = Inr ''artifact''" "rf_sha artifact_files x = example_digest" for t p x
    by (simp_all add: artifact_files_def example_files_def)
  have start: "iso_date ''2024-01-01'' = Some 738886"
    by (simp add: iso_date_def is_digits_def is_digit_def digits_val_def digit_val_def days_in_month_def Let_def
      ymd2ord_def days_before_year_def days_before_month_def)
  have train: "dict_get ''train_start'' example_artifact = Inr (JStr ''2024-01-01'')"
    by (simp add: dict_get_def as_dict_def jget_def example_artifact_def)
  have mk: "mk_opportunity \<lparr>op_fold_start = f, op_curve = cu, op_approval = a, op_market = i, op_half_spread = Fin 0,
      op_spot_bps = Fin 0, op_financing = Fin 0\<rparr> = Inr \<lparr>op_fold_start = f, op_curve = cu, op_approval = a, op_market = i,
      op_half_spread = Fin 0, op_spot_bps = Fin 0, op_financing = Fin 0\<rparr>" for f cu a i
    by (simp add: mk_opportunity_def mk_charges_def number_def fixed_fraction_def bps_def fabs_def fsub_def short_float)
  have days: "cg_impact_days btc_config = 90" by (simp add: btc_config_def study_config_def)
  have art: "ic_artifact example_curve = example_digest" by (simp add: example_curve_def)
  have l: "load_artifact (rf_loads artifact_files) (Inr ''artifact'') = Inr example_artifact"
    using example_loaded by (simp add: rd)
  show ?thesis
    by (simp add: read_opportunity_def example_supplied_def dict_get_def [of _ "JDict x" for x] as_dict_def jget_def text_value_def
        example_curve_at art l train start int_value_def num_value_def rd m read_approval_def mk days utc_ms_def epoch_ord_def day_ms_def cong: eval_cong)
qed

lemma example_market_read: "\<exists>e o'. read_event artifact_files tick btc_config example_row = Inr (Market e) \<and> me_opportunity e = Some o'
    \<and> me_time e = 1704240000000"
proof -
  obtain o' where o': "read_opportunity artifact_files tick btc_config 1704240000000 example_supplied = Inr o'"
    using example_opportunity_read by blast
  have nn: "example_supplied \<noteq> JNull" by (simp add: example_supplied_def)
  have "present_field ''opportunity'' example_row = Inr (Some example_supplied)"
    by (rule present_some [OF _ _ nn], simp add: example_row_def as_dict_def, simp)
  then have "supplied_opportunity artifact_files tick btc_config example_row = Inr (Some o')"
    by (simp add: supplied_opportunity_def) (simp add: example_row_def dict_get_def as_dict_def jget_def int_value_def o')
  moreover have "dict_get ''symbol'' example_row = Inr (JStr ''BTC'')" "dict_get ''type'' example_row = Inr (JStr ''market'')"
    "dict_get ''event_id'' example_row = Inr (JStr ''m'')" "dict_get ''time_ms'' example_row = Inr (JInt 1704240000000)"
    "dict_get ''spot_mid'' example_row = Inr (JStr ''1'')" "dict_get ''perp_mid'' example_row = Inr (JStr ''1'')"
    "dict_get ''spot_mark'' example_row = Inr (JStr ''1'')" "dict_get ''perp_mark'' example_row = Inr (JStr ''1'')"
    "dict_get ''decide'' example_row = Inr (JBool False)" "dict_get ''financing_usdt'' example_row = Inr (JStr ''1'')"
    by (simp_all add: example_row_def dict_get_def as_dict_def jget_def)
  moreover have "cg_symbol btc_config = ''BTC''" by (simp add: btc_config_def)
  ultimately show ?thesis
    by (simp add: read_event_def read_market_def text_value_def int_value_def bool_value_def example_money)
qed


text \<open>C39: exit code zero means what it says: the command ends with code 0 or 2 or raises; it runs a validated
  configuration on a validated fee schedule; and the code is 0 exactly when every line was decoded and accepted,
  every record was written, and the records cover the study window: every settlement of the window booked, every
  scheduled decision taken, and the last valuation that of the last millisecond.\<close>

theorem exit_zero_covers_the_window:
  assumes "run_backtest rf k = (out, Inr code)"
  shows "\<exists>c fees sources. setup_run rf = Inr (c, fees, sources) \<and> mk_run_config c = Inr c \<and> valid_schedule fees
    \<and> (code = 0 \<or> code = 2)
    \<and> (code = 0 \<longleftrightarrow> (\<exists>lines evs recs s texts. rf_lines rf = Inr lines \<and> decoded rf c 9 lines = (evs, None)
         \<and> iter_backtest (run_env k c fees) evs = (recs, Inr s)
         \<and> map_res (\<lambda>r. rf_dump rf (RecordLine r)) recs = Inr texts \<and> covers_window (run_env k c fees) recs))"
proof -
  obtain c fees sources where admitted: "setup_run rf = Inr (c, fees, sources)"
    using assms by (auto simp: run_backtest_def split: sum.splits)
  have ok: "mk_run_config c = Inr c" "valid_schedule fees" using admitted by (auto elim: setup_runE)
  let ?env = "run_env k c fees"
  have env: "en_config ?env = c" "en_fees ?env = fees" by (simp_all add: run_env_def)
  obtain header where h: "rf_dump rf (HeaderLine c (fs_allow_assumptions fees) sources) = Inr header"
    using assms admitted by (auto simp: run_backtest_def split: sum.splits if_splits)
  obtain t e where t: "run_study rf ?env 9 (start_tally header) (rf_lines rf) = (t, e)"
    by (cases "run_study rf ?env 9 (start_tally header) (rf_lines rf)")
  have code: "code = (if e = None \<and> window_complete c t then 0 else 2)"
    using assms admitted h t by (auto simp: run_backtest_def close_run_def split: if_splits option.splits sum.splits)
  have "e = None \<and> window_complete c t \<longleftrightarrow> (\<exists>lines evs recs s texts. rf_lines rf = Inr lines \<and> decoded rf c 9 lines = (evs, None)
         \<and> iter_backtest ?env evs = (recs, Inr s)
         \<and> map_res (\<lambda>r. rf_dump rf (RecordLine r)) recs = Inr texts \<and> covers_window ?env recs)" (is "?l \<longleftrightarrow> ?r")
  proof
    assume l: ?l
    then obtain lines where lines: "rf_lines rf = Inr lines"
      using t by (auto simp: run_study_def split: sum.splits)
    show ?r using finished_run [of ?env c rf 9 header lines t] l lines t ok env by auto
  next
    assume ?r
    then obtain lines evs recs s texts where r: "rf_lines rf = Inr lines" "decoded rf c 9 lines = (evs, None)"
      "iter_backtest ?env evs = (recs, Inr s)" "map_res (\<lambda>r. rf_dump rf (RecordLine r)) recs = Inr texts"
      "covers_window ?env recs" by blast
    have e: "e = None" using study_finishes [of rf ?env 9 lines evs recs s texts "start_tally header"] r t env by auto
    show ?l using finished_run [of ?env c rf 9 header lines t] e r t ok env by auto
  qed
  then show ?thesis using admitted ok code by auto
qed

text \<open>A month of 2024 with no line in its manifest: an admitted run, and an incomplete one.\<close>

definition example_study_toml :: json where
  "example_study_toml = JDict [(''study'', JDict [(''symbols'', JList [JStr ''BTCUSDT'']), (''start'', JStr ''2024-02-01''),
       (''end'', JStr ''2024-02-29''), (''warmup_start'', JStr ''2024-01-01''), (''timezone'', JStr ''UTC'')]),
     (''impact'', JDict [(''rolling_days'', JInt 90)]), (''funding'', JDict [(''rolling_days'', JInt 90)])]"

definition example_run_toml :: json where
  "example_run_toml = JDict [(''run'', JDict [(''symbol'', JStr ''BTCUSDT''), (''execution_mode'', JStr ''inferred''),
       (''initial_capital_usdt'', JStr ''1''), (''collateral_fraction'', JStr ''1''), (''allow_fee_assumptions'', JBool True),
       (''seed'', JInt 703), (''draws'', JInt 4096), (''min_settlements'', JInt 30), (''interval_hours'', JInt 8)]),
     (''policy'', JDict [(''horizon_settlements'', JInt 3), (''entry_probability'', JNum (Fin (1 / 2))),
       (''continuation_probability'', JInt 0)])]"

definition example_fee_toml :: json where
  "example_fee_toml = JDict [(''schema_version'', JInt 1), (''periods'', JList [JDict [(''symbol'', JStr ''BTCUSDT''),
     (''market'', JStr ''spot''), (''start_ms'', JInt 0), (''end_ms'', JInt 1), (''taker_fraction'', JStr ''0''),
     (''source'', JStr ''https://x''), (''observed_at_ms'', JInt 0), (''kind'', JStr ''assumption'')]])]"

definition month_files :: run_files where
  "month_files = example_files\<lparr>rf_input := (\<lambda>_ i. Inr (case i of StudyInput \<Rightarrow> ''s'' | RunInput \<Rightarrow> ''r'' | FeeInput \<Rightarrow> ''f'')),
     rf_toml := (\<lambda>t. Inr (if t = ''s'' then example_study_toml else if t = ''r'' then example_run_toml else example_fee_toml)),
     rf_lines := Inr []\<rparr>"

definition month_config :: run_config where
  "month_config = \<lparr>cg_symbol = ''BTCUSDT'', cg_warmup = 1704067200000, cg_start = 1706745600000, cg_end = 1709251200000,
     cg_capital = Fin 1, cg_collateral = Fin 1,
     cg_policy = \<lparr>pl_horizon = 3, pl_entry = Fin (1 / 2), pl_continuation = Fin 0, pl_synthetic = False\<rparr>,
     cg_mode = ''inferred'', cg_seed = 703, cg_draws = 4096, cg_days = 90, cg_min = 30, cg_interval = 8, cg_prior = default_prior,
     cg_impact_days = 90, cg_delay = 16000\<rparr>"

definition month_fees :: fee_schedule where
  "month_fees = \<lparr>fs_periods = [\<lparr>fp_symbol = ''BTCUSDT'', fp_market = Spot, fp_start_ms = 0, fp_end_ms = 1, fp_taker_fraction = 0,
     fp_source = ''https://x'', fp_observed_at_ms = 0, fp_kind = Assumption\<rparr>], fs_allow_assumptions = True\<rparr>"

lemma month_config_ok: "mk_run_config month_config = Inr month_config"
proof -
  have "month_start_ms 1706745600000 = 1706745600000" "month_start_ms 1709251200000 = 1709251200000" by code_simp+
  then show ?thesis
    by (simp add: mk_run_config_def month_config_def integer_def decimal_def config_scope_def settlement_guard_ms_def
      hour_ms_def max_ms_def cong: eval_cong)
qed

lemma month_dates: "iso_date ''2024-01-01'' = Some 738886" "iso_date ''2024-02-01'' = Some 738917" "iso_date ''2024-02-29'' = Some 738945"
  by (simp_all add: iso_date_def is_digits_def is_digit_def digits_val_def digit_val_def days_in_month_def Let_def
      ymd2ord_def days_before_year_def days_before_month_def is_leap_def)

lemma month_read: "read_config example_study_toml example_run_toml = Inr month_config"
proof -
  have p: "read_policy (JDict [(''horizon_settlements'', JInt 3), (''entry_probability'', JNum (Fin (1 / 2))),
       (''continuation_probability'', JInt 0)]) = Inr (cg_policy month_config)"
    by (simp add: read_policy_def as_dict_def jget_def int_value_def num_value_def mk_policy_def integer_def number_def
        month_config_def)
  show ?thesis
    by (simp add: read_config_def example_study_toml_def example_run_toml_def dict_get_def as_dict_def jget_def text_value_def
        int_value_def day_field_def month_dates example_money p utc_ms_def epoch_ord_def day_ms_def as_list_def cong: eval_cong)
      (simp add: month_config_ok [unfolded month_config_def] month_config_def dict_get_def as_dict_def jget_def as_list_def)
qed

lemma month_schedule: "load_schedule (Inr example_fee_toml) (JBool True) = Inr month_fees"
proof -
  have z: "parse_decimal ''0'' = Some (DFin False 0 0)" by code_simp
  show ?thesis
    by (simp add: load_schedule_def example_fee_toml_def as_dict_def fee_row_def read_period_def jget_def text_value_def z
        keyword_fields_def period_fields_def insert_commute stamp_field_def timestamp_def decimal_def market_named_def kind_named_def
        mk_fee_period_def mk_fee_schedule_def month_fees_def)
qed

lemma month_setup: "setup_run month_files = Inr (month_config, month_fees,
    [(''study_config'', example_digest), (''run_config'', example_digest), (''fees'', example_digest)])"
proof -
  have allow: "bnd (dict_get ''run'' example_run_toml) (dict_get ''allow_fee_assumptions'') = Inr (JBool True)"
    by (simp add: example_run_toml_def dict_get_def as_dict_def jget_def)
  show ?thesis
    by (simp add: setup_run_def month_files_def example_files_def unchanged_def month_read allow month_schedule)
qed

lemma month_runner: "\<exists>s. mk_runner (run_env k month_config month_fees) = Inr s"
  by (simp add: mk_runner_def run_env_def month_config_def mk_rolling_def rf_integer_def ledger_start_def decimal_def timestamp_def
      hour_ms_def Let_def)

definition example_kernels :: kernels where
  "example_kernels = \<lparr>ke_numpy = study_numpy, ke_draws = study_draws, ke_numerics = example_numerics,
     ke_digest = (\<lambda>_. example_digest), ke_seed = (\<lambda>_ _ _. 603)\<rparr>"

lemma exit_zero_covers_the_window_witness:
  "snd (run_backtest month_files example_kernels) = Inr 2
   \<and> \<not> (\<exists>evs recs s. decoded month_files month_config 9 [] = (evs, None)
        \<and> iter_backtest (run_env example_kernels month_config month_fees) evs = (recs, Inr s)
        \<and> covers_window (run_env example_kernels month_config month_fees) recs)"
proof -
  obtain s where s: "mk_runner (run_env example_kernels month_config month_fees) = Inr s" using month_runner by blast
  have f: "rf_dump month_files x = Inr ''{}''" "\<not> rf_exists month_files" "rf_lines month_files = Inr []" for x
    by (simp_all add: month_files_def example_files_def)
  have run: "\<exists>out. run_backtest month_files example_kernels = (out, Inr 2)"
    by (simp add: run_backtest_def month_setup f run_study_def s close_run_def window_complete_def start_tally_def)
  then obtain out where out: "run_backtest month_files example_kernels = (out, Inr 2)" by blast
  have m: "map_res (\<lambda>r. rf_dump month_files (RecordLine r)) recs = Inr (map (\<lambda>_. ''{}'') recs)" for recs
    by (rule map_res_map) (simp add: f)
  show ?thesis
    using exit_zero_covers_the_window [OF out] out m by (simp add: month_setup f)
qed

end
