(* ===== verification/Spec2Isabelle.thy ===== *)
theory Spec2Isabelle
  imports AccountingProps WalkForwardProps SymbolMetaProps FundingSeries ValidateProps MarkPrices OrderSize ImpactFitProps FundingForecast BookProps
    Calibration BacktestProps
begin

text \<open>
  A verification development for perpcarry, the research pipeline of a carry strategy that holds spot long
  and a perpetual future short for its funding. The Python package is \<open>src/python/perpcarry\<close>; paths below are
  relative to it.

  \<^bold>\<open>The program.\<close> \<open>ingestion/\<close> downloads published archives under their checksums (\<open>download.py\<close>,
  \<open>binance_archive.py\<close>, \<open>tardis_archive.py\<close>), normalises them to typed frames and stores them in daily partitions
  (\<open>fetch_trades.py\<close>, \<open>fetch_funding.py\<close>, \<open>fetch_klines.py\<close>, \<open>fetch_price_bars.py\<close>, \<open>fetch_mark_prices.py\<close>,
  \<open>fetch_book.py\<close>, \<open>storage.py\<close>), derives tick and step sizes (\<open>derive_symbol_meta.py\<close>) and validates the stored
  corpus (\<open>validate_data.py\<close>). \<open>models/\<close> reads it back: order sizes in comparable units (\<open>order_size.py\<close>), impact laws
  fitted on calibration rows (\<open>impact_model.py\<close>) and kept as artifacts (\<open>impact_model_io.py\<close>), funding posteriors
  (\<open>funding_model.py\<close>, \<open>rolling_funding.py\<close>) and forecasts (\<open>funding_walk_forward.py\<close>). \<open>strategy/\<close> decides, sizes,
  executes and accounts (\<open>carry.py\<close>, \<open>costs.py\<close>, \<open>sizing.py\<close>, \<open>execution.py\<close>, \<open>accounting.py\<close>, \<open>fees.py\<close>) and is driven
  event by event by \<open>walk_forward.py\<close>, from files by \<open>tools/run_backtest.py\<close>. Calibration rows for the impact laws are
  sampled from stored order books (\<open>replay.py\<close>, \<open>models/calibration_dataset.py\<close>), sized by traded or bar volumes
  (\<open>models/bar_volume.py\<close>).

  \<^bold>\<open>Foundations.\<close> \<open>Prelude\<close>: exceptions as values (\<open>exn + 'a\<close>), sequencing \<open>bnd\<close>, \<open>guard\<close>, fallible maps and folds with
  their invariant rule, and the collections \<open>res_simps\<close> (opening a successful run) and \<open>eval_simps\<close> (closed evaluation).
  \<open>Rounding\<close>: decimal contexts of 28, 50 and 60 digits as correctly rounded grids, with the locales \<open>rounding\<close>,
  \<open>rel_rounding\<close>, \<open>grid\<close> and \<open>dec_ctx\<close> interpreted for each of them. \<open>Floats\<close>: Python numbers with the special values and
  binary64 rounding, the interpretation \<open>bin64\<close> of \<open>grid\<close>. \<open>Calendar\<close>: dates as proleptic ordinals, UTC milliseconds
  (\<open>ingestion/calendar.py\<close>, \<open>utc_ms\<close>, \<open>fold_start\<close>). \<open>Text\<close>: digests, canonical ISO dates, JSON values. \<open>DecText\<close>: decimals as
  text, with the printing/parsing round trip and the order of ISO dates. \<open>DecArith\<close>: sums and quotients of decimals as
  coefficient and exponent, equal to the exact operation rounded once. \<open>Frame\<close>: data frames as named typed columns
  with the well-formedness invariant \<open>frame_ok\<close>.

  \<^bold>\<open>Ingestion.\<close> \<open>Archives\<close>: archive paths and the recovery of a URL from a file name. \<open>Download\<close>: a disk is a map from
  locations to contents; \<open>cached_fetch\<close> leaves a whole, verified file or none. \<open>Storage\<close>: a store is a map from partition
  paths to frames; \<open>write_parquet\<close> replaces exactly the partitions of a frame. \<open>Trades\<close>, \<open>Funding\<close>, \<open>FundingSeries\<close>: the
  fetchers, backfills and the admitted funding series over a file system that may change between reads. \<open>Book\<close>,
  \<open>BookProps\<close>: chunked ingest of an order-book day with its running tally. \<open>PriceBars\<close>, \<open>MarkPrices\<close>: monthly minute
  grids and daily klines; a month of marks has exactly the rows of its monthly archive and of one daily archive for each
  omitted day, and its report says so. \<open>SymbolMeta\<close>, \<open>SymbolMetaProps\<close>: decimal greatest common
  measures and the committed table. \<open>Corpus\<close>, \<open>ValidateData\<close>, \<open>ValidateProps\<close>: the readers, the seventeen checks, the
  allowlist and the driver. The shape of the statements: what an accepted input is (\<open>admitted_bars_are_complete\<close>,
  \<open>series_covers_window\<close>, \<open>fetched_marks_are_complete\<close>), what a write leaves (\<open>backfill_keeps_every_month\<close>,
  \<open>ingest_counts_the_partition\<close>, \<open>cache_holds_whole_files\<close>), and what a verdict means
  (\<open>report_excuses_only_acknowledged\<close>, \<open>coverage_names_every_hole\<close>, \<open>trade_id_checks_are_exact\<close>).

  \<^bold>\<open>Models.\<close> \<open>OrderSize\<close>: average daily volume over completed days only. \<open>BarVolume\<close>: exact daily totals of audited minute
  bars and the causal thirty-day average; every read of the disk has a tick of its own. \<open>Calibration\<close>: the audit of the
  inputs (the passed full-day replay of the book and the listed partitions), the event stream by exchange millisecond and the sampling loop with its look-ahead buffer, equal to a
  reference that names the book and the future of each sample; the compiled core is a record of functions. \<open>ImpactFit\<close>, \<open>ImpactFitProps\<close>: \<open>fit\<close> with its
  strata, size bins, diagnostics and report; every evaluated law is a function of the rows before the cutoff, and later
  days move none. \<open>ImpactIO\<close>: the schema of an artifact, lookup without fallback, export from a report. \<open>FundingModel\<close>,
  \<open>RollingFunding\<close>: the conjugate posterior, the rolling history with its one-cadence invariant and the predictive
  recursion. \<open>FundingForecast\<close>: the forecast stream, its scores and the one-step checks; the record of a settlement is
  made before the settlement is seen.

  \<^bold>\<open>Strategy.\<close> \<open>Fees\<close> (locale \<open>fee_source\<close>, interpreted by the dated schedule), \<open>Accounting\<close>, \<open>AccountingProps\<close>: the ledger
  as a state machine of fills, settlements and charges in 50-digit arithmetic, its invariant, cash conservation and the
  gross/net identity with explicit rounding bounds. \<open>Carry\<close>, \<open>Costs\<close>: decisions from admitted evidence; a curve has the symbol, the
  kind and the test end that its artifact's document names. \<open>Sizing\<close>,
  \<open>SizingProps\<close>: lot search by bisection (locale \<open>monotone_gate\<close>, interpreted by the priced lots). \<open>Execution\<close>: inferred and
  book execution, both instances of the locale \<open>executor_contract\<close>. \<open>WalkForward\<close>, \<open>WalkForwardInv\<close>, \<open>WalkForwardProps\<close>:
  the runner over a list of events, its inductive step relations, the refinement of the ledger and of the abstract
  phase machine, delta neutrality, the planned horizon, sealed impact evidence and the absence of look-ahead.
  \<open>BacktestRun\<close>, \<open>BacktestProps\<close>: a run from TOML documents and a manifest read line by line, five ticks per line; it is
  the study on the decoded lines, its opportunities rest on declared evidence, and exit code 0 means a covered window.

  \<^bold>\<open>Conventions.\<close> A raise is the value of its exception; a message with interpolated parts is recorded by its constant part.
  Definitions take what is outside the source as arguments: numpy, scipy and pandas kernels, random draws, digests, the
  JSON, CSV and Parquet formats, the server and the compiled core; hypotheses on them are named (\<open>source_ok\<close>, \<open>host_ok\<close>, \<open>cellwise\<close>)
  and instantiated in the witnesses. Generators are the list they yield with the error they end with. Runtime type
  checks of arguments are the types of the model. Recursions are structural or have their termination proved; no fuel
  is used. The sign of a floating zero, the exponent limits of decimal contexts, the bounds of the date type and
  64-bit overflow of archive integers (but for the latency column of a book, which wraps) are not modelled.

  \<^bold>\<open>Not modelled.\<close> Argument parsing (\<open>main\<close>) and logging; \<open>reporting/\<close>, the plots and files of \<open>write_diagnostics\<close>,
  \<open>models/funding_eda.py\<close> and the rest of \<open>tools/\<close>, which call the modelled functions and print or plot what they
  return; the simulated replications of \<open>funding_checks.py\<close>; reading the TOML file of the allowlist; the C++ core (its
  queue, book and simulated orders are parameters of \<open>Calibration\<close>, its checkpoints of \<open>Execution\<close>), the notebooks and the
  tests. A JSON value of the wrong type is refused where \<open>BacktestRun\<close> decodes it, with \<open>TypeError\<close>, while the source may
  refuse it in a later constructor.
\<close>

end
